(* ===== verification/Prelude.thy ===== *)
theory Prelude
  imports Main
begin

text \<open>
  Shared vocabulary of the development: the machine-integer operations of Rust at an explicit
  width, results with errors, the origins of a dispatchable call, and the few list operations of
  Rust's standard library that the pallets use.

  An unsigned integer of width \<open>w\<close> is a \<open>nat\<close> below \<open>2 ^ w\<close>. The runtime is built in the release
  profile (no \<open>overflow-checks\<close> in any \<open>Cargo.toml\<close>), so a plain \<open>+\<close>, \<open>-\<close> or \<open>*\<close> wraps around:
  \<open>add_w\<close>, \<open>sub_w\<close>, \<open>mul_w\<close>. The saturating and checked operations of the code are \<open>sat_add\<close>,
  \<open>sat_mul\<close> and \<open>checked_*\<close>; \<open>saturating_sub\<close> on unsigned integers is the truncating subtraction
  of \<open>nat\<close>.
\<close>

named_theorems width_simps \<open>unfolding the width-indexed operations\<close>
named_theorems res_simps \<open>results: sequencing and guards\<close>
named_theorems step_simps \<open>the operations of a component, for invariant proofs\<close>

section \<open>Machine integers\<close>

type_synonym account = nat
type_synonym balance = nat
type_synonym era = nat
type_synonym session = nat

definition max_w :: "nat \<Rightarrow> nat" where
  "max_w w = 2 ^ w - 1"

definition add_w :: "nat \<Rightarrow> nat \<Rightarrow> nat \<Rightarrow> nat" where
  "add_w w a b = (a + b) mod 2 ^ w"

definition sub_w :: "nat \<Rightarrow> nat \<Rightarrow> nat \<Rightarrow> nat" where
  "sub_w w a b = (a + 2 ^ w - b) mod 2 ^ w"

definition mul_w :: "nat \<Rightarrow> nat \<Rightarrow> nat \<Rightarrow> nat" where
  "mul_w w a b = (a * b) mod 2 ^ w"

definition sat_add :: "nat \<Rightarrow> nat \<Rightarrow> nat \<Rightarrow> nat" where
  "sat_add w a b = min (a + b) (max_w w)"

definition sat_mul :: "nat \<Rightarrow> nat \<Rightarrow> nat \<Rightarrow> nat" where
  "sat_mul w a b = min (a * b) (max_w w)"

definition checked_add :: "nat \<Rightarrow> nat \<Rightarrow> nat \<Rightarrow> nat option" where
  "checked_add w a b = (if a + b \<le> max_w w then Some (a + b) else None)"

definition checked_sub :: "nat \<Rightarrow> nat \<Rightarrow> nat option" where
  "checked_sub a b = (if b \<le> a then Some (a - b) else None)"

definition checked_mul :: "nat \<Rightarrow> nat \<Rightarrow> nat \<Rightarrow> nat option" where
  "checked_mul w a b = (if a * b \<le> max_w w then Some (a * b) else None)"

definition checked_div :: "nat \<Rightarrow> nat \<Rightarrow> nat option" where
  "checked_div a b = (if b = 0 then None else Some (a div b))"

text \<open>\<open>saturated_into\<close> / \<open>as\<close>-style conversion into a narrower type that saturates.\<close>

definition sat_into :: "nat \<Rightarrow> nat \<Rightarrow> nat" where
  "sat_into w a = min a (max_w w)"

text \<open>\<open>try_into\<close>: fails when the value does not fit.\<close>

definition try_into :: "nat \<Rightarrow> nat \<Rightarrow> nat option" where
  "try_into w a = (if a \<le> max_w w then Some a else None)"

lemma Suc_max_w: "Suc (max_w w) = 2 ^ w"
  unfolding max_w_def by (rule Suc_diff_1) simp

lemma le_max_w_iff: "a \<le> max_w w \<longleftrightarrow> a < 2 ^ w"
  unfolding Suc_max_w [symmetric] by (rule less_Suc_eq_le [symmetric])

lemma max_w_less: "max_w w < 2 ^ w"
  by (simp add: le_max_w_iff [symmetric])

lemma add_w_eq [width_simps]: "a + b < 2 ^ w \<Longrightarrow> add_w w a b = a + b"
  by (simp add: add_w_def)

lemma mul_w_eq [width_simps]: "a * b < 2 ^ w \<Longrightarrow> mul_w w a b = a * b"
  by (simp add: mul_w_def)

lemma sub_w_eq [width_simps]:
  assumes "b \<le> a" and "a < 2 ^ w"
  shows "sub_w w a b = a - b"
proof -
  have "a + 2 ^ w - b = (a - b) + 2 ^ w" using assms(1) by linarith
  then have "sub_w w a b = (a - b) mod 2 ^ w" unfolding sub_w_def by (simp only: mod_add_self2)
  moreover have "a - b < 2 ^ w" using assms by linarith
  ultimately show ?thesis by (simp only: mod_less)
qed

lemma add_w_less [simp]: "add_w w a b < 2 ^ w"
  by (simp add: add_w_def)

lemma sub_w_less [simp]: "sub_w w a b < 2 ^ w"
  by (simp add: sub_w_def)

lemma add_w_0 [simp]: "a < 2 ^ w \<Longrightarrow> add_w w a 0 = a" "a < 2 ^ w \<Longrightarrow> add_w w 0 a = a"
  by (simp_all add: add_w_def)

lemma sat_add_le [simp]: "sat_add w a b \<le> max_w w"
  by (simp add: sat_add_def)

lemma sat_mul_le [simp]: "sat_mul w a b \<le> max_w w"
  by (simp add: sat_mul_def)

lemma sat_add_ge: "a \<le> max_w w \<Longrightarrow> a \<le> sat_add w a b"
  by (simp add: sat_add_def)

lemma sat_add_eq [width_simps]: "a + b \<le> max_w w \<Longrightarrow> sat_add w a b = a + b"
  by (simp add: sat_add_def)

lemma sat_add_0 [simp]: "a \<le> max_w w \<Longrightarrow> sat_add w a 0 = a"
  by (simp add: sat_add_def)

lemma sat_add_assoc: "sat_add w (sat_add w a b) c = sat_add w a (b + c)"
  by (simp add: sat_add_def)

lemma sat_add_assoc_sat: "sat_add w (sat_add w a b) c = sat_add w a (sat_add w b c)"
  by (simp add: sat_add_def)

lemma sat_add_mono: "a \<le> a' \<Longrightarrow> b \<le> b' \<Longrightarrow> sat_add w a b \<le> sat_add w a' b'"
  by (auto simp: sat_add_def)

lemma checked_sub_Some [simp]: "checked_sub a b = Some c \<longleftrightarrow> b \<le> a \<and> c = a - b"
  by (auto simp: checked_sub_def)

lemma checked_sub_None [simp]: "checked_sub a b = None \<longleftrightarrow> a < b"
  by (auto simp: checked_sub_def)

lemma checked_mul_Some [simp]:
  "checked_mul w a b = Some c \<longleftrightarrow> a * b \<le> max_w w \<and> c = a * b"
  by (auto simp: checked_mul_def)

lemma checked_add_Some [simp]:
  "checked_add w a b = Some c \<longleftrightarrow> a + b \<le> max_w w \<and> c = a + b"
  by (auto simp: checked_add_def)

lemma checked_div_Some [simp]: "checked_div a b = Some c \<longleftrightarrow> b \<noteq> 0 \<and> c = a div b"
  by (auto simp: checked_div_def)

lemma try_into_Some [simp]: "try_into w a = Some b \<longleftrightarrow> a \<le> max_w w \<and> b = a"
  by (auto simp: try_into_def)

section \<open>Results and origins\<close>

text \<open>
  \<open>Result<T, E>\<close> is a sum, with the error on the left. A dispatchable runs in a storage layer, so
  an \<open>Err\<close> discards every write: such a call returns \<open>error + state\<close>. A function that is called
  outside a storage layer and can fail half way returns the state beside the result.
\<close>

datatype 'e dispatch_error = BadOrigin | Module 'e | Extern string

datatype collective = CouncilCollective | TechnicalCollective

text \<open>
  The origins of the system pallet and of the two collectives: \<open>CollectiveMembers c yes m\<close> is a motion of
  \<open>c\<close> with \<open>yes\<close> ayes of \<open>m\<close> members, \<open>CollectiveMember c a\<close> a single member acting for it.
\<close>

datatype origin = Root | Signed account | NoOrigin | CollectiveMembers collective nat nat
  | CollectiveMember collective account

definition rbind :: "'e + 'a \<Rightarrow> ('a \<Rightarrow> 'e + 'b) \<Rightarrow> 'e + 'b" where
  "rbind r f = (case r of Inl e \<Rightarrow> Inl e | Inr x \<Rightarrow> f x)"

definition ensure :: "bool \<Rightarrow> 'e \<Rightarrow> 'e + unit" where
  "ensure c e = (if c then Inr () else Inl e)"

definition ok_or :: "'e \<Rightarrow> 'a option \<Rightarrow> 'e + 'a" where
  "ok_or e x = (case x of None \<Rightarrow> Inl e | Some v \<Rightarrow> Inr v)"

definition map_err :: "('e \<Rightarrow> 'f) \<Rightarrow> 'e + 'a \<Rightarrow> 'f + 'a" where
  "map_err f r = (case r of Inl e \<Rightarrow> Inl (f e) | Inr x \<Rightarrow> Inr x)"

definition ensure_root :: "origin \<Rightarrow> 'e dispatch_error + unit" where
  "ensure_root og = (case og of Root \<Rightarrow> Inr () | _ \<Rightarrow> Inl BadOrigin)"

definition ensure_signed :: "origin \<Rightarrow> 'e dispatch_error + account" where
  "ensure_signed og = (case og of Signed a \<Rightarrow> Inr a | _ \<Rightarrow> Inl BadOrigin)"

definition ensure_none :: "origin \<Rightarrow> 'e dispatch_error + unit" where
  "ensure_none og = (case og of NoOrigin \<Rightarrow> Inr () | _ \<Rightarrow> Inl BadOrigin)"

lemma rbind_Inl [simp]: "rbind (Inl e) f = Inl e"
  by (simp add: rbind_def)

lemma rbind_Inr [simp]: "rbind (Inr x) f = f x"
  by (simp add: rbind_def)

lemma rbind_Inr_iff [res_simps]: "rbind r f = Inr y \<longleftrightarrow> (\<exists>x. r = Inr x \<and> f x = Inr y)"
  by (cases r) auto

lemma rbind_Inl_iff: "rbind r f = Inl e \<longleftrightarrow> r = Inl e \<or> (\<exists>x. r = Inr x \<and> f x = Inl e)"
  by (cases r) auto

lemma map_err_Inr_iff [res_simps]: "map_err f r = Inr x \<longleftrightarrow> r = Inr x"
  by (simp add: map_err_def split: sum.splits)

lemma map_err_simps [simp]: "map_err f (Inl e) = Inl (f e)" "map_err f (Inr x) = Inr x"
  by (simp_all add: map_err_def)

lemma ensure_Inr_iff [res_simps]: "ensure c e = Inr u \<longleftrightarrow> c"
  by (simp add: ensure_def)

lemma ensure_True [simp]: "ensure True e = Inr ()"
  and ensure_False [simp]: "ensure False e = Inl e"
  by (simp_all add: ensure_def)

lemma ok_or_Inr_iff [res_simps]: "ok_or e x = Inr v \<longleftrightarrow> x = Some v"
  by (simp add: ok_or_def split: option.splits)

lemma ok_or_simps [simp]: "ok_or e None = Inl e" "ok_or e (Some v) = Inr v"
  by (simp_all add: ok_or_def)

lemma ensure_root_Inr_iff [res_simps]: "ensure_root og = Inr u \<longleftrightarrow> og = Root"
  by (simp add: ensure_root_def split: origin.splits)

lemma ensure_signed_Inr_iff [res_simps]: "ensure_signed og = Inr a \<longleftrightarrow> og = Signed a"
  by (auto simp: ensure_signed_def split: origin.splits)

lemma ensure_none_Inr_iff [res_simps]: "ensure_none og = Inr u \<longleftrightarrow> og = NoOrigin"
  by (simp add: ensure_none_def split: origin.splits)

lemma ensure_root_simps [simp]:
  "ensure_root Root = Inr ()" "ensure_root (Signed a) = Inl BadOrigin"
  "ensure_root NoOrigin = Inl BadOrigin" "ensure_root (CollectiveMembers c y m) = Inl BadOrigin"
  "ensure_root (CollectiveMember c a) = Inl BadOrigin"
  by (simp_all add: ensure_root_def)

lemma ensure_signed_simps [simp]:
  "ensure_signed (Signed a) = Inr a" "ensure_signed Root = Inl BadOrigin"
  "ensure_signed NoOrigin = Inl BadOrigin" "ensure_signed (CollectiveMembers c y m) = Inl BadOrigin"
  "ensure_signed (CollectiveMember c b) = Inl BadOrigin"
  by (simp_all add: ensure_signed_def)

lemma ensure_none_simps [simp]:
  "ensure_none NoOrigin = Inr ()" "ensure_none Root = Inl BadOrigin"
  "ensure_none (Signed a) = Inl BadOrigin" "ensure_none (CollectiveMembers c y m) = Inl BadOrigin"
  "ensure_none (CollectiveMember c b) = Inl BadOrigin"
  by (simp_all add: ensure_none_def)

section \<open>Options and lists\<close>

definition unwrap_or :: "'a \<Rightarrow> 'a option \<Rightarrow> 'a" where
  "unwrap_or d x = (case x of None \<Rightarrow> d | Some v \<Rightarrow> v)"

lemma unwrap_or_simps [simp]: "unwrap_or d None = d" "unwrap_or d (Some v) = v"
  by (simp_all add: unwrap_or_def)

text \<open>\<open>Iterator::position\<close>: the index of the first element that satisfies the predicate.\<close>

fun position :: "('a \<Rightarrow> bool) \<Rightarrow> 'a list \<Rightarrow> nat option" where
  "position p [] = None"
| "position p (x # xs) = (if p x then Some 0 else map_option Suc (position p xs))"

lemma position_Some:
  "position p xs = Some i \<Longrightarrow> i < length xs \<and> p (xs ! i) \<and> (\<forall>j < i. \<not> p (xs ! j))"
proof (induction xs arbitrary: i)
  case Nil
  then show ?case by simp
next
  case (Cons x xs)
  show ?case
  proof (cases "p x")
    case True
    with Cons.prems show ?thesis by simp
  next
    case False
    with Cons.prems obtain j where j: "position p xs = Some j" "i = Suc j" by auto
    with Cons.IH [OF j(1)] False show ?thesis by (auto simp: less_Suc_eq_0_disj)
  qed
qed

lemma position_None: "position p xs = None \<longleftrightarrow> (\<forall>x \<in> set xs. \<not> p x)"
  by (induction xs) auto

text \<open>
  \<open>slice::binary_search\<close> on a sorted slice: \<open>Found i\<close> at a matching index, \<open>Missing i\<close> with the
  index where inserting keeps the slice sorted.
\<close>

datatype search = Found nat | Missing nat

definition binary_search :: "nat list \<Rightarrow> nat \<Rightarrow> search" where
  "binary_search xs k =
     (let i = length (takeWhile (\<lambda>x. x < k) xs)
      in if i < length xs \<and> xs ! i = k then Found i else Missing i)"

definition insert_at :: "nat \<Rightarrow> 'a \<Rightarrow> 'a list \<Rightarrow> 'a list" where
  "insert_at i x xs = take i xs @ x # drop i xs"

lemma set_insert_at [simp]: "set (insert_at i x xs) = insert x (set xs)"
proof -
  have "set xs = set (take i xs) \<union> set (drop i xs)"
    by (metis append_take_drop_id set_append)
  then show ?thesis by (auto simp: insert_at_def)
qed

lemma length_insert_at [simp]: "length (insert_at i x xs) = Suc (length xs)"
  by (simp add: insert_at_def)

lemma takeWhile_less_take: "take (length (takeWhile P xs)) xs = takeWhile P xs"
  by (metis append_eq_conv_conj takeWhile_dropWhile_id)

lemma drop_takeWhile: "drop (length (takeWhile P xs)) xs = dropWhile P xs"
  by (metis append_eq_conv_conj takeWhile_dropWhile_id)

lemma binary_search_Missing:
  assumes "binary_search xs k = Missing i"
    and srt: "sorted_wrt (<) xs"
  shows "k \<notin> set xs" and "sorted_wrt (<) (insert_at i k xs)"
proof -
  let ?l = "takeWhile (\<lambda>x. x < k) xs" and ?r = "dropWhile (\<lambda>x. x < k) xs"
  have i: "i = length ?l" and miss: "\<not> (length ?l < length xs \<and> xs ! length ?l = k)"
    using assms(1) by (auto simp: binary_search_def Let_def split: if_splits)
  have xs: "xs = ?l @ ?r" by simp
  have srt': "sorted_wrt (<) (?l @ ?r)" using srt by simp
  have r: "\<forall>y \<in> set ?r. k < y"
  proof (cases ?r)
    case Nil
    then show ?thesis by (simp only: Nil list.set ball_empty)
  next
    case (Cons a as)
    have "length ?l < length xs"
      using Cons xs by (metis length_append length_greater_0_conv less_add_same_cancel1 list.distinct(1))
    moreover have "xs ! length ?l = a"
      using Cons xs by (metis nth_append_length)
    ultimately have "a \<noteq> k" using miss by blast
    moreover have "\<not> a < k" using hd_dropWhile [of "\<lambda>x. x < k" xs] Cons by simp
    ultimately have "k < a" by simp
    moreover have "sorted_wrt (<) (a # as)" using srt' Cons by (simp only: sorted_wrt_append)
    ultimately show ?thesis unfolding Cons by (auto dest: order.strict_trans)
  qed
  have l: "\<forall>y \<in> set ?l. y < k" by (meson set_takeWhileD)
  show "k \<notin> set xs" using l r xs by (metis UnE less_irrefl set_append)
  have "insert_at i k xs = ?l @ k # ?r"
    by (simp add: insert_at_def i takeWhile_less_take drop_takeWhile)
  then show "sorted_wrt (<) (insert_at i k xs)"
    using srt' l r by (auto simp: sorted_wrt_append dest: order.strict_trans)
qed

lemma binary_search_Found: "binary_search xs k = Found i \<Longrightarrow> k \<in> set xs"
  by (auto simp: binary_search_def Let_def split: if_splits)

text \<open>Sums of a saturating fold, as \<open>Iterator::fold\<close> with \<open>saturating_add\<close> computes them.\<close>

definition sat_sum :: "nat \<Rightarrow> nat list \<Rightarrow> nat" where
  "sat_sum w xs = foldl (sat_add w) 0 xs"

lemma foldl_sat_add: "a \<le> max_w w \<Longrightarrow> foldl (sat_add w) a xs = min (a + sum_list xs) (max_w w)"
proof (induction xs arbitrary: a)
  case Nil
  then show ?case by simp
next
  case (Cons x xs)
  have "sat_add w a x \<le> max_w w" by simp
  then show ?case using Cons.IH [of "sat_add w a x"] by (auto simp: sat_add_def)
qed

lemma sat_sum_eq: "sat_sum w xs = min (sum_list xs) (max_w w)"
  by (simp add: sat_sum_def foldl_sat_add)

text \<open>Storage maps: iterating over every entry with a value transformer (\<open>translate\<close>).\<close>

definition map_values :: "('v \<Rightarrow> 'v) \<Rightarrow> ('k \<rightharpoonup> 'v) \<Rightarrow> ('k \<rightharpoonup> 'v)" where
  "map_values f m = (\<lambda>k. map_option f (m k))"

lemma dom_map_values [simp]: "dom (map_values f m) = dom m"
  by (auto simp: map_values_def dom_def)

lemma map_values_Some [simp]:
  "map_values f m k = Some v \<longleftrightarrow> (\<exists>u. m k = Some u \<and> v = f u)"
  by (auto simp: map_values_def)

end
