(* ===== verification/Float64.thy ===== *)
theory Float64
  imports Prelude Complex_Main
begin

text \<open>
  The part of Rust's \<open>f64\<close> that the reputation pallet uses. A finite double is the real number
  it denotes; a basic operation is the exact operation on reals followed by rounding to 53
  significant bits, ties to even (IEEE 754, the default rounding mode of Rust). The values of the
  pallet lie between \<open>2 ^ -64\<close> and \<open>2 ^ 72\<close>, far inside the range of normal doubles, so subnormal
  numbers, infinities and NaN do not occur and are not represented.

  \<open>libm::pow\<close> and \<open>libm::ceil\<close> come from a third-party crate: they are the two fields of the
  parameter \<open>libm\<close>.
\<close>

record libm =
  lm_pow :: "real \<Rightarrow> real \<Rightarrow> real"
  lm_ceil :: "real \<Rightarrow> real"

definition pow2 :: "int \<Rightarrow> real" where
  "pow2 i = (if 0 \<le> i then 2 ^ nat i else 1 / 2 ^ nat (- i))"

text \<open>The number of bits of a natural number.\<close>

fun bit_length :: "nat \<Rightarrow> nat" where
  "bit_length n = (if n = 0 then 0 else Suc (bit_length (n div 2)))"

declare bit_length.simps [simp del]

lemma bit_length_bounds: "0 < n \<Longrightarrow> 2 ^ (bit_length n - 1) \<le> n \<and> n < 2 ^ bit_length n"
proof (induction n rule: bit_length.induct)
  case (1 n)
  show ?case
  proof (cases "n div 2 = 0")
    case True
    with "1.prems" have "n = 1" by linarith
    then show ?thesis by (simp add: bit_length.simps)
  next
    case False
    let ?m = "n div 2"
    have IH: "2 ^ (bit_length ?m - 1) \<le> ?m \<and> ?m < 2 ^ bit_length ?m"
      using "1.IH" "1.prems" False by simp
    have len: "bit_length n = Suc (bit_length ?m)"
      using "1.prems" by (subst bit_length.simps) simp
    have pos: "bit_length ?m = Suc (bit_length ?m - 1)"
      using False by (subst bit_length.simps, subst (2) bit_length.simps) simp
    have "2 ^ bit_length ?m = 2 * (2::nat) ^ (bit_length ?m - 1)"
      by (subst pos) simp
    then have "2 ^ bit_length ?m \<le> 2 * ?m" using IH by simp
    moreover have "2 * ?m \<le> n" by simp
    moreover have "n < 2 * 2 ^ bit_length ?m" using IH by linarith
    ultimately show ?thesis by (simp add: len)
  qed
qed

lemma bit_length_code [simp]:
  "bit_length 0 = 0"
  "bit_length (Suc 0) = 1"
  "bit_length 1 = 1"
  "bit_length (numeral (Num.Bit0 k)) = Suc (bit_length (numeral k))"
  "bit_length (numeral (Num.Bit1 k)) = Suc (bit_length (numeral k))"
  by (simp_all add: bit_length.simps [of 0] bit_length.simps [of "Suc 0"] bit_length.simps [of 1]
      bit_length.simps [of "numeral (Num.Bit0 k)"] bit_length.simps [of "numeral (Num.Bit1 k)"])

text \<open>Rounding a non-negative real to an integer, ties to even.\<close>

definition round_half_even :: "real \<Rightarrow> int" where
  "round_half_even x =
     (let n = \<lfloor>x\<rfloor>; r = x - of_int n
      in if r < 1/2 then n else if 1/2 < r then n + 1 else if even n then n else n + 1)"

text \<open>The binary exponent of a positive real: the \<open>k\<close> with \<open>2 ^ k \<le> x < 2 ^ (k + 1)\<close>.\<close>

definition f64_exp :: "real \<Rightarrow> int" where
  "f64_exp x =
     (if 1 \<le> x then int (bit_length (nat \<lfloor>x\<rfloor>)) - 1
      else - int (bit_length (nat (\<lceil>1 / x\<rceil> - 1))))"

definition f64_round :: "real \<Rightarrow> real" where
  "f64_round x =
     (if x \<le> 0 then 0
      else let ulp = pow2 (f64_exp x - 52) in of_int (round_half_even (x / ulp)) * ulp)"

definition f64_of_nat :: "nat \<Rightarrow> real" where
  "f64_of_nat n = f64_round (of_nat n)"

definition f64_mul :: "real \<Rightarrow> real \<Rightarrow> real" where
  "f64_mul x y = f64_round (x * y)"

definition f64_div :: "real \<Rightarrow> real \<Rightarrow> real" where
  "f64_div x y = f64_round (x / y)"

text \<open>\<open>x as u8\<close> and \<open>x as u64\<close>: truncation that saturates at the ends of the target.\<close>

definition f64_as :: "nat \<Rightarrow> real \<Rightarrow> nat" where
  "f64_as w x = (if x < 0 then 0 else min (nat \<lfloor>x\<rfloor>) (max_w w))"

lemma f64_as_le [simp]: "f64_as w x \<le> max_w w"
  by (simp add: f64_as_def)

lemma f64_as_mono: "x \<le> y \<Longrightarrow> f64_as w x \<le> f64_as w y"
  using floor_mono [of x y] by (auto simp: f64_as_def)

lemma pow2_pos [simp]: "0 < pow2 i"
  by (simp add: pow2_def)

lemma round_half_even_int [simp]: "round_half_even (of_int n) = n"
  by (simp add: round_half_even_def Let_def)

lemma round_half_even_close: "\<bar>of_int (round_half_even x) - x\<bar> \<le> 1/2"
proof -
  define r where "r = x - of_int \<lfloor>x\<rfloor>"
  have "0 \<le> r" "r < 1" unfolding r_def by linarith+
  moreover have "x = of_int \<lfloor>x\<rfloor> + r" by (simp add: r_def)
  ultimately show ?thesis
    by (auto simp: round_half_even_def Let_def simp flip: r_def)
qed

lemma round_half_even_nonneg: "0 \<le> x \<Longrightarrow> 0 \<le> round_half_even x"
  using zero_le_floor [of x] unfolding round_half_even_def Let_def by (auto simp del: zero_le_floor)

lemma f64_exp_ge_1:
  assumes "1 \<le> x"
  shows "pow2 (f64_exp x) \<le> x" and "x < pow2 (f64_exp x + 1)"
proof -
  define n where "n = nat \<lfloor>x\<rfloor>"
  have n: "0 < n" using assms by (simp add: n_def)
  have nx: "real n \<le> x" "x < real n + 1" using assms floor_correct [of x] by (simp_all add: n_def)
  have len: "0 < bit_length n" using n by (subst bit_length.simps) simp
  have e: "f64_exp x = int (bit_length n - 1)"
    using assms len by (simp add: f64_exp_def of_nat_diff flip: n_def)
  have b: "2 ^ (bit_length n - 1) \<le> n" "n + 1 \<le> 2 ^ bit_length n"
    using bit_length_bounds [OF n] by simp_all
  have "real (2 ^ (bit_length n - 1)) \<le> real n" using b(1) of_nat_le_iff by blast
  then have "2 ^ (bit_length n - 1) \<le> x" using nx by (simp only: of_nat_power of_nat_numeral)
  then show "pow2 (f64_exp x) \<le> x" by (simp add: e pow2_def)
  have "real (n + 1) \<le> real (2 ^ bit_length n)" using b(2) of_nat_le_iff by blast
  moreover have "f64_exp x + 1 = int (bit_length n)" using len e by simp
  ultimately show "x < pow2 (f64_exp x + 1)" using nx(2)
    by (simp only: pow2_def of_nat_power of_nat_numeral of_nat_add) simp
qed

lemma f64_exp_less_1:
  assumes "0 < x" "x < 1"
  shows "pow2 (f64_exp x) \<le> x"
proof -
  define m where "m = \<lceil>1 / x\<rceil>"
  define n where "n = nat (m - 1)"
  have "1 < 1 / x" using assms by simp
  then have c: "1 < m" by (simp add: m_def less_ceiling_iff)
  then have n: "0 < n" by (simp add: n_def)
  have "real n + 1 = of_int m" using c by (simp add: n_def)
  then have nx: "1 / x \<le> real n + 1" using le_of_int_ceiling [of "1 / x"] by (simp add: m_def)
  have "n + 1 \<le> 2 ^ bit_length n" using bit_length_bounds [OF n] by simp
  then have "real (n + 1) \<le> real (2 ^ bit_length n)" using of_nat_le_iff by blast
  then have "1 / x \<le> 2 ^ bit_length n" using nx by (simp only: of_nat_power of_nat_numeral of_nat_add of_nat_1)
  then have "1 / 2 ^ bit_length n \<le> x" using assms by (simp add: field_simps)
  moreover have "f64_exp x = - int (bit_length n)" using assms by (simp add: f64_exp_def n_def m_def)
  ultimately show ?thesis by (cases "bit_length n = 0") (simp_all add: pow2_def)
qed

lemma f64_exp_le: "0 < x \<Longrightarrow> pow2 (f64_exp x) \<le> x"
  using f64_exp_ge_1(1) [of x] f64_exp_less_1 [of x] by (cases "1 \<le> x") auto

lemma pow2_shift: "pow2 (k - int n) = pow2 k / 2 ^ n"
proof -
  have eq: "pow2 i = 2 powr real_of_int i" for i
    by (simp add: pow2_def powr_realpow [symmetric] powr_minus_divide [symmetric])
  show ?thesis by (simp add: eq powr_diff powr_realpow)
qed

lemma f64_round_0 [simp]: "f64_round 0 = 0"
  by (simp add: f64_round_def)

text \<open>The standard model of floating-point arithmetic: one rounding has relative error \<open>2 ^ -53\<close>.\<close>

theorem f64_round_error:
  assumes "0 \<le> x"
  shows "\<bar>f64_round x - x\<bar> \<le> x / 2 ^ 53"
proof (cases "x = 0")
  case False
  then have x: "0 < x" using assms by simp
  define ulp where "ulp = pow2 (f64_exp x - 52)"
  have ulp: "0 < ulp" "ulp = pow2 (f64_exp x) / 2 ^ 52"
    using pow2_shift [of "f64_exp x" 52] by (simp_all add: ulp_def)
  have "f64_round x - x = (of_int (round_half_even (x / ulp)) - x / ulp) * ulp"
    using x ulp(1) by (simp add: f64_round_def ulp_def [symmetric] Let_def left_diff_distrib)
  then have "\<bar>f64_round x - x\<bar> \<le> 1 / 2 * ulp"
    using mult_right_mono [OF round_half_even_close [of "x / ulp"], of ulp] ulp(1)
    by (simp add: abs_mult)
  also have "\<dots> \<le> x / 2 ^ 53" using f64_exp_le [OF x] ulp(2) by simp
  finally show ?thesis .
qed simp

lemma f64_round_nonneg [simp]: "0 \<le> f64_round x"
  by (auto simp: f64_round_def Let_def less_imp_le round_half_even_nonneg intro!: mult_nonneg_nonneg)

lemmas f64_eval = f64_of_nat_def f64_mul_def f64_div_def f64_round_def f64_exp_def
  round_half_even_def pow2_def f64_as_def max_w_def Let_def

end
