(* ===== verification/Reputation.thy ===== *)
theory Reputation
  imports Float64 "HOL-Library.Option_ord"
begin

text \<open>
  The reputation pallet (\<open>pallets/reputation/src\<close>): reputation points, ranks and tiers
  (\<open>lib.rs\<close>), and the storage map of every account's record with its dispatchables and hooks
  (\<open>pallet/mod.rs\<close>, \<open>pallet/impls.rs\<close>). Points are \<open>u64\<close>, ranks \<open>u8\<close>. The rank of an amount of points
  goes through \<open>libm::pow\<close>, so every definition that needs it takes the parameter \<open>L\<close>.
\<close>

section \<open>Points and ranks\<close>

definition REPUTATION_POINTS_PER_BLOCK :: nat where "REPUTATION_POINTS_PER_BLOCK = 24"
definition REPUTATION_POINTS_PER_DAY :: nat where
  "REPUTATION_POINTS_PER_DAY = REPUTATION_POINTS_PER_BLOCK * 10 * 60 * 24"
definition REPUTATION_POINTS_PER_MONTH :: nat where
  "REPUTATION_POINTS_PER_MONTH = REPUTATION_POINTS_PER_DAY * 30"
definition REPUTATION_POINTS_PER_YEAR :: nat where
  "REPUTATION_POINTS_PER_YEAR = REPUTATION_POINTS_PER_MONTH * 12"
definition CURVATURE :: real where "CURVATURE = f64_round (16 / 10)"
definition NORMAL :: real where "NORMAL = 2"
definition ULTRAMODERN_3_POINTS :: nat where
  "ULTRAMODERN_3_POINTS = f64_as 64 (f64_mul (f64_of_nat REPUTATION_POINTS_PER_YEAR) NORMAL)"
definition RANKS_PER_U3 :: nat where "RANKS_PER_U3 = 9"
definition RANKS_PER_TIER :: nat where "RANKS_PER_TIER = 3"

lemmas reputation_consts = REPUTATION_POINTS_PER_BLOCK_def REPUTATION_POINTS_PER_DAY_def
  REPUTATION_POINTS_PER_MONTH_def REPUTATION_POINTS_PER_YEAR_def NORMAL_def
  ULTRAMODERN_3_POINTS_def RANKS_PER_U3_def RANKS_PER_TIER_def

lemma ULTRAMODERN_3_POINTS_eq: "ULTRAMODERN_3_POINTS = 248832000"
  by (simp add: reputation_consts f64_eval)

text \<open>\<open>ReputationPoint::from_rank\<close>\<close>

definition from_rank :: "libm \<Rightarrow> nat \<Rightarrow> nat" where
  "from_rank L rank =
     f64_as 64 (f64_mul (f64_of_nat ULTRAMODERN_3_POINTS)
       (lm_pow L (f64_div (of_nat rank) (of_nat RANKS_PER_U3)) CURVATURE))"

text \<open>The rank before the final comparison: \<open>ceil(res) as u8\<close> in \<open>ReputationPoint::rank\<close>.\<close>

definition rank_estimate :: "libm \<Rightarrow> nat \<Rightarrow> nat" where
  "rank_estimate L points =
     (let res = f64_mul
           (lm_pow L (f64_div (f64_of_nat points) (f64_of_nat ULTRAMODERN_3_POINTS))
             (f64_div 1 CURVATURE))
           (of_nat RANKS_PER_U3)
      in f64_as 8 (lm_ceil L res))"

definition points_rank :: "libm \<Rightarrow> nat \<Rightarrow> nat" where
  "points_rank L points =
     (let resulting_rank = rank_estimate L points
      in if points < from_rank L resulting_rank then resulting_rank - 1 else resulting_rank)"

lemma points_rank_le: "points_rank L p \<le> 255"
proof -
  have "rank_estimate L p \<le> max_w 8" by (simp add: rank_estimate_def Let_def)
  then show ?thesis by (auto simp: points_rank_def Let_def max_w_def)
qed

section \<open>Tiers\<close>

datatype tier = Vanguard nat | Trailblazer nat | Ultramodern nat

fun tier_index :: "tier \<Rightarrow> nat" where
  "tier_index (Vanguard _) = 0"
| "tier_index (Trailblazer _) = 1"
| "tier_index (Ultramodern _) = 2"

fun relative_rank :: "tier \<Rightarrow> nat" where
  "relative_rank (Vanguard rank) = rank"
| "relative_rank (Trailblazer rank) = rank"
| "relative_rank (Ultramodern rank) = rank"

definition tier_rank :: "tier \<Rightarrow> nat" where
  "tier_rank t = sat_add 8 (relative_rank t) (sat_mul 8 (tier_index t) RANKS_PER_TIER)"

definition try_from_rank :: "nat \<Rightarrow> tier option" where
  "try_from_rank rank =
     (if rank = 0 then None
      else Some (if rank \<le> RANKS_PER_TIER then Vanguard rank
                 else if RANKS_PER_TIER < rank \<and> rank \<le> RANKS_PER_TIER * 2
                   then Trailblazer (rank - RANKS_PER_TIER)
                 else Ultramodern (rank - RANKS_PER_TIER * 2)))"

text \<open>\<open>None\<close> is the \<open>unreachable!\<close> of the last arm; \<open>with_zero_rank_index\<close> shows no caller meets it.\<close>

definition with_zero_rank :: "nat \<Rightarrow> tier option" where
  "with_zero_rank i =
     (if i = 0 then Some (Vanguard 0) else if i = 1 then Some (Trailblazer 0)
      else if i = 2 then Some (Ultramodern 0) else None)"

text \<open>
  The derived \<open>Ord\<close>: by variant, then by the rank inside. The two comparisons are functions of their
  own, and the instance makes them the order of the type, so that the library's facts on linear
  orders and on \<open>Option\<close> apply to tiers.
\<close>

definition tier_le :: "tier \<Rightarrow> tier \<Rightarrow> bool" where
  "tier_le a b \<longleftrightarrow>
     tier_index a < tier_index b \<or> (tier_index a = tier_index b \<and> relative_rank a \<le> relative_rank b)"

definition tier_less :: "tier \<Rightarrow> tier \<Rightarrow> bool" where
  "tier_less a b \<longleftrightarrow>
     tier_index a < tier_index b \<or> (tier_index a = tier_index b \<and> relative_rank a < relative_rank b)"

instantiation tier :: linorder
begin

definition less_eq_tier :: "tier \<Rightarrow> tier \<Rightarrow> bool" where
  "less_eq_tier = tier_le"

definition less_tier :: "tier \<Rightarrow> tier \<Rightarrow> bool" where
  "less_tier = tier_less"

instance
proof
  fix a b c :: tier
  show "a < b \<longleftrightarrow> a \<le> b \<and> \<not> b \<le> a"
    by (auto simp: less_tier_def less_eq_tier_def tier_less_def tier_le_def)
  show "a \<le> a" by (simp add: less_eq_tier_def tier_le_def)
  show "a \<le> b \<Longrightarrow> b \<le> c \<Longrightarrow> a \<le> c" by (auto simp: less_eq_tier_def tier_le_def)
  show "a \<le> b \<Longrightarrow> b \<le> a \<Longrightarrow> a = b"
    by (cases a; cases b) (auto simp: less_eq_tier_def tier_le_def)
  show "a \<le> b \<or> b \<le> a" by (auto simp: less_eq_tier_def tier_le_def)
qed

end

lemmas tier_order = less_eq_tier_def less_tier_def tier_le_def tier_less_def

definition middle_rank :: "libm \<Rightarrow> nat" where
  "middle_rank L = f64_as 8 (lm_ceil L (f64_div (of_nat RANKS_PER_TIER) 2))"

definition with_rank_relative_to :: "libm \<Rightarrow> tier option \<Rightarrow> nat \<Rightarrow> tier option" where
  "with_rank_relative_to L relative_to new_points =
     (let new_rank = points_rank L new_points
      in if new_rank = 0 then None
         else case relative_to of
           None \<Rightarrow> try_from_rank new_rank
         | Some r \<Rightarrow>
             if new_rank = tier_rank r then relative_to
             else
               let lower_index = tier_index r - 1;
                   zero_threshold = from_rank L (add_w 8 lower_index (middle_rank L))
               in if relative_rank r = 0 \<and> new_points \<le> zero_threshold then
                    if lower_index = 0 \<and> lower_index = tier_index r then None
                    else try_from_rank (add_w 8 lower_index (middle_rank L))
                  else if new_rank < tier_rank r
                    \<and> new_points < from_rank L (add_w 8 (mul_w 8 (tier_index r) RANKS_PER_TIER) 1)
                    \<and> zero_threshold < new_points
                  then with_zero_rank (tier_index r)
                  else try_from_rank new_rank)"

section \<open>Reputation and records\<close>

record reputation =
  rep_tier :: "tier option"
  rep_points :: nat

record reputation_record =
  rr_reputation :: reputation
  rr_updated :: nat

definition default_reputation :: reputation where
  "default_reputation = \<lparr>rep_tier = None, rep_points = 0\<rparr>"

definition rep_update :: "libm \<Rightarrow> reputation \<Rightarrow> nat \<Rightarrow> reputation" where
  "rep_update L r new_points =
     r\<lparr>rep_tier := with_rank_relative_to L (rep_tier r) new_points, rep_points := new_points\<rparr>"

definition rep_increase :: "libm \<Rightarrow> reputation \<Rightarrow> nat \<Rightarrow> reputation" where
  "rep_increase L r points = rep_update L r (sat_add 64 (rep_points r) points)"

definition rep_decrease :: "libm \<Rightarrow> reputation \<Rightarrow> nat \<Rightarrow> reputation" where
  "rep_decrease L r points = rep_update L r (rep_points r - points)"

definition rep_from_tier :: "libm \<Rightarrow> tier \<Rightarrow> reputation" where
  "rep_from_tier L t = \<lparr>rep_tier = Some t, rep_points = from_rank L (tier_rank t)\<rparr>"

definition rep_from_points :: "libm \<Rightarrow> nat \<Rightarrow> reputation" where
  "rep_from_points L points =
     \<lparr>rep_tier = try_from_rank (points_rank L points), rep_points = points\<rparr>"

text \<open>The derived \<open>PartialOrd\<close> of \<open>Reputation\<close>: the tier first, then the points.\<close>

definition rep_less :: "reputation \<Rightarrow> reputation \<Rightarrow> bool" where
  "rep_less a b \<longleftrightarrow>
     rep_tier a < rep_tier b \<or> (rep_tier a = rep_tier b \<and> rep_points a < rep_points b)"

definition with_blocknumber :: "nat \<Rightarrow> reputation_record" where
  "with_blocknumber updated = \<lparr>rr_reputation = default_reputation, rr_updated = updated\<rparr>"

definition record_from_points :: "libm \<Rightarrow> nat \<Rightarrow> reputation_record" where
  "record_from_points L points = \<lparr>rr_reputation = rep_from_points L points, rr_updated = 0\<rparr>"

definition calculate_reward :: "nat \<Rightarrow> nat \<Rightarrow> nat" where
  "calculate_reward start end_block =
     (if end_block \<le> start then 0
      else sat_mul 64 REPUTATION_POINTS_PER_BLOCK (end_block - start))"

definition update_with_block_number ::
  "libm \<Rightarrow> reputation_record \<Rightarrow> nat \<Rightarrow> reputation_record" where
  "update_with_block_number L rec block_number =
     rec\<lparr>rr_reputation :=
            rep_increase L (rr_reputation rec) (calculate_reward (rr_updated rec) block_number),
         rr_updated := block_number\<rparr>"

section \<open>The pallet: storage, dispatchables and hooks\<close>

datatype rep_error = AccountNotFound

datatype rep_event =
  ReputationSetForcibly account nat
| ReputationIncreased account nat
| ReputationSlashed account nat
| ReputationUpdated account nat
| ReputationIncreaseFailed account "rep_error dispatch_error" nat
| ReputationResetForcibly nat

record rep_state =
  AccountReputation :: "account \<rightharpoonup> reputation_record"
  rep_events :: "rep_event list"

definition rep_deposit :: "rep_event \<Rightarrow> rep_state \<Rightarrow> rep_state" where
  "rep_deposit e s = s\<lparr>rep_events := rep_events s @ [e]\<rparr>"

definition rep_insert :: "account \<Rightarrow> reputation_record \<Rightarrow> rep_state \<Rightarrow> rep_state" where
  "rep_insert a rec s = s\<lparr>AccountReputation := (AccountReputation s)(a \<mapsto> rec)\<rparr>"

definition force_set_points ::
  "libm \<Rightarrow> nat \<Rightarrow> origin \<Rightarrow> account \<Rightarrow> nat \<Rightarrow> rep_state \<Rightarrow> rep_error dispatch_error + rep_state" where
  "force_set_points L now og a points s =
     rbind (ensure_root og) (\<lambda>_.
       Inr (rep_deposit (ReputationSetForcibly a points)
         (rep_insert a \<lparr>rr_reputation = rep_from_points L points, rr_updated = now\<rparr> s)))"

definition do_increase_points ::
  "libm \<Rightarrow> account \<Rightarrow> nat \<Rightarrow> rep_state \<Rightarrow> rep_error dispatch_error + rep_state" where
  "do_increase_points L a points s =
     (case AccountReputation s a of
        None \<Rightarrow> Inl (Module AccountNotFound)
      | Some old \<Rightarrow>
          Inr (rep_insert a (old\<lparr>rr_reputation := rep_increase L (rr_reputation old) points\<rparr>) s))"

definition rep_do_slash ::
  "libm \<Rightarrow> nat \<Rightarrow> account \<Rightarrow> nat \<Rightarrow> rep_state \<Rightarrow> rep_error dispatch_error + rep_state" where
  "rep_do_slash L now a points s =
     (case AccountReputation s a of
        None \<Rightarrow> Inl (Module AccountNotFound)
      | Some old \<Rightarrow>
          Inr (rep_deposit (ReputationSlashed a points)
            (rep_insert a (old\<lparr>rr_reputation := rep_decrease L (rr_reputation old) points,
                               rr_updated := now\<rparr>) s)))"

definition increase_creating :: "libm \<Rightarrow> account \<Rightarrow> nat \<Rightarrow> rep_state \<Rightarrow> rep_state" where
  "increase_creating L a points s =
     (case AccountReputation s a of
        Some rec \<Rightarrow> rep_insert a (rec\<lparr>rr_reputation := rep_increase L (rr_reputation rec) points\<rparr>) s
      | None \<Rightarrow> rep_insert a (record_from_points L points) s)"

definition increase_points ::
  "libm \<Rightarrow> origin \<Rightarrow> account \<Rightarrow> nat \<Rightarrow> rep_state \<Rightarrow> rep_error dispatch_error + rep_state" where
  "increase_points L og a points s =
     rbind (ensure_root og) (\<lambda>_. do_increase_points L a points s)"

definition slash_points ::
  "libm \<Rightarrow> nat \<Rightarrow> origin \<Rightarrow> account \<Rightarrow> nat \<Rightarrow> rep_state \<Rightarrow> rep_error dispatch_error + rep_state" where
  "slash_points L now og a points s =
     rbind (ensure_root og) (\<lambda>_. rep_do_slash L now a points s)"

definition update_points ::
  "libm \<Rightarrow> nat \<Rightarrow> origin \<Rightarrow> account \<Rightarrow> rep_state \<Rightarrow> rep_error dispatch_error + rep_state" where
  "update_points L now og a s =
     rbind (ensure_signed og) (\<lambda>_.
       let rec = update_with_block_number L
             (unwrap_or (with_blocknumber now) (AccountReputation s a)) now
       in Inr (rep_deposit (ReputationUpdated a (rep_points (rr_reputation rec)))
            (rep_insert a rec s)))"

definition force_reset_points ::
  "libm \<Rightarrow> nat \<Rightarrow> origin \<Rightarrow> rep_state \<Rightarrow> rep_error dispatch_error + rep_state" where
  "force_reset_points L now og s =
     rbind (ensure_root og) (\<lambda>_.
       let points = from_rank L (tier_rank (Vanguard 1))
       in Inr (rep_deposit (ReputationResetForcibly points)
            (s\<lparr>AccountReputation :=
                 map_values (\<lambda>_. \<lparr>rr_reputation = rep_from_points L points, rr_updated = now\<rparr>)
                   (AccountReputation s)\<rparr>)))"

definition update_points_for_time :: "libm \<Rightarrow> nat \<Rightarrow> rep_state \<Rightarrow> rep_state" where
  "update_points_for_time L now s =
     s\<lparr>AccountReputation :=
         map_values (\<lambda>old. update_with_block_number L old now) (AccountReputation s)\<rparr>"

definition on_new_account :: "nat \<Rightarrow> account \<Rightarrow> rep_state \<Rightarrow> rep_state" where
  "on_new_account now who s =
     (if AccountReputation s who \<noteq> None then s else rep_insert who (with_blocknumber now) s)"

definition on_killed_account :: "account \<Rightarrow> rep_state \<Rightarrow> rep_state" where
  "on_killed_account who s = s\<lparr>AccountReputation := (AccountReputation s)(who := None)\<rparr>"

definition rep_genesis_build :: "(account \<times> reputation_record) list \<Rightarrow> rep_state \<Rightarrow> rep_state" where
  "rep_genesis_build accounts s =
     foldl (\<lambda>s (a, rec). rep_insert a rec s) s accounts"

section \<open>Well-formed tiers\<close>

fun tier_wf :: "tier \<Rightarrow> bool" where
  "tier_wf (Vanguard k) = (1 \<le> k \<and> k \<le> 3)"
| "tier_wf (Trailblazer k) = (k \<le> 3)"
| "tier_wf (Ultramodern k) = (k \<le> 249)"

definition opt_tier_wf :: "tier option \<Rightarrow> bool" where
  "opt_tier_wf x = (case x of None \<Rightarrow> True | Some t \<Rightarrow> tier_wf t)"

lemma opt_tier_wf_simps [simp]: "opt_tier_wf None" "opt_tier_wf (Some t) = tier_wf t"
  by (simp_all add: opt_tier_wf_def)

lemma tier_rank_eq: "tier_wf t \<Longrightarrow> tier_rank t = relative_rank t + 3 * tier_index t"
  by (cases t) (simp_all add: tier_rank_def RANKS_PER_TIER_def sat_add_def sat_mul_def max_w_def)

lemma tier_index_le: "tier_index t \<le> 2"
  by (cases t) simp_all

text \<open>The \<open>unreachable!\<close> arm of \<open>with_zero_rank\<close> is never met: every tier has an index below 3.\<close>

lemma with_zero_rank_index: "\<exists>z. with_zero_rank (tier_index t) = Some z \<and> tier_index z = tier_index t"
  by (cases t) (simp_all add: with_zero_rank_def)

lemma try_from_rank_Some:
  assumes "1 \<le> r" "r \<le> 255"
  obtains t where "try_from_rank r = Some t" "tier_rank t = r" "tier_wf t"
proof -
  obtain t where t: "try_from_rank r = Some t" using assms by (simp add: try_from_rank_def)
  then have "tier_wf t \<and> relative_rank t + 3 * tier_index t = r"
    using assms by (auto simp: try_from_rank_def RANKS_PER_TIER_def split: if_splits)
  then show thesis using that [OF t] by (simp add: tier_rank_eq)
qed

lemma tier_rank_inj: "tier_wf a \<Longrightarrow> tier_wf b \<Longrightarrow> relative_rank a \<noteq> 0 \<Longrightarrow> relative_rank b \<noteq> 0 \<Longrightarrow>
    tier_rank a = tier_rank b \<Longrightarrow> relative_rank a \<le> 3 \<Longrightarrow> relative_rank b \<le> 3 \<Longrightarrow> a = b"
  by (cases a; cases b) (auto simp: tier_rank_eq)

section \<open>What the code relies on in \<open>libm\<close>\<close>

text \<open>
  \<open>rank_table_ok\<close>: the points of consecutive ranks grow (\<open>pow\<close> is strictly increasing by far more
  than its error on the 255 arguments used). \<open>rank_brackets\<close>: at this amount of points the estimate
  of \<open>ReputationPoint::rank\<close> is the true rank or one more, so that after the correction the rank's
  points are at most the points and the next rank's points are above them. \<open>middle_rank\<close> is
  \<open>ceil(1.5)\<close>.
\<close>

definition rank_table_ok :: "libm \<Rightarrow> bool" where
  "rank_table_ok L = list_all (\<lambda>r. from_rank L r < from_rank L (Suc r)) [0..<255]"

definition rank_brackets :: "libm \<Rightarrow> nat \<Rightarrow> bool" where
  "rank_brackets L p \<longleftrightarrow>
     from_rank L (points_rank L p) \<le> p \<and>
     (points_rank L p < 255 \<longrightarrow> p < from_rank L (Suc (points_rank L p)))"

definition ranks_ok :: "libm \<Rightarrow> nat \<Rightarrow> bool" where
  "ranks_ok L p \<longleftrightarrow> rank_table_ok L \<and> middle_rank L = 2 \<and> rank_brackets L p"

lemma from_rank_strict:
  assumes ok: "rank_table_ok L" and "a < b" "b \<le> 255"
  shows "from_rank L a < from_rank L b"
  using assms(2,3)
proof (induction b)
  case 0
  then show ?case by simp
next
  case (Suc b)
  have step: "from_rank L b < from_rank L (Suc b)"
    using ok Suc.prems by (auto simp: rank_table_ok_def list_all_iff)
  show ?case
  proof (cases "a = b")
    case True
    then show ?thesis using step by simp
  next
    case False
    then have "from_rank L a < from_rank L b" using Suc by simp
    then show ?thesis using step by simp
  qed
qed

lemma from_rank_le: "rank_table_ok L \<Longrightarrow> a \<le> b \<Longrightarrow> b \<le> 255 \<Longrightarrow> from_rank L a \<le> from_rank L b"
  using from_rank_strict [of L a b] by (cases "a = b") auto

text \<open>Comparing points with a rank's points is comparing ranks.\<close>

lemma rank_le_if_points_le:
  assumes "ranks_ok L p" "m \<le> 255" "p \<le> from_rank L m"
  shows "points_rank L p \<le> m"
proof (rule ccontr)
  assume "\<not> points_rank L p \<le> m"
  then have "from_rank L m < from_rank L (points_rank L p)"
    using assms(1) points_rank_le [of L p] by (auto simp: ranks_ok_def intro: from_rank_strict)
  then show False using assms by (auto simp: ranks_ok_def rank_brackets_def)
qed

lemma rank_less_if_points_less:
  assumes "ranks_ok L p" "1 \<le> m" "m \<le> 255" "p < from_rank L m"
  shows "points_rank L p < m"
proof (rule ccontr)
  assume "\<not> points_rank L p < m"
  then have "from_rank L m \<le> from_rank L (points_rank L p)"
    using assms(1) points_rank_le [of L p] by (auto simp: ranks_ok_def intro: from_rank_le)
  then show False using assms by (auto simp: ranks_ok_def rank_brackets_def)
qed

lemma rank_ge_if_points_ge:
  assumes "ranks_ok L p" "m \<le> 255" "from_rank L m \<le> p"
  shows "m \<le> points_rank L p"
proof (rule ccontr)
  assume "\<not> m \<le> points_rank L p"
  then have less: "Suc (points_rank L p) \<le> m" by simp
  then have "from_rank L (Suc (points_rank L p)) \<le> from_rank L m"
    using assms(1,2) by (auto simp: ranks_ok_def intro: from_rank_le)
  then show False using assms less by (auto simp: ranks_ok_def rank_brackets_def)
qed

section \<open>The tier after an update\<close>

definition zero_threshold :: "libm \<Rightarrow> tier \<Rightarrow> nat" where
  "zero_threshold L r = from_rank L (tier_index r - 1 + 2)"

text \<open>The branches of \<open>with_rank_relative_to\<close>, with the \<open>u8\<close> arithmetic evaluated.\<close>

lemma with_rank_relative_to_Some:
  assumes mid: "middle_rank L = 2" and n: "points_rank L p \<noteq> 0"
  shows "with_rank_relative_to L (Some r) p =
    (if points_rank L p = tier_rank r then Some r
     else if relative_rank r = 0 \<and> p \<le> zero_threshold L r
       then (if tier_index r = 0 then None else try_from_rank (tier_index r - 1 + 2))
     else if points_rank L p < tier_rank r \<and> p < from_rank L (tier_index r * 3 + 1)
       \<and> zero_threshold L r < p
       then with_zero_rank (tier_index r)
     else try_from_rank (points_rank L p))"
proof -
  have a: "add_w 8 (tier_index r - 1) 2 = tier_index r - 1 + 2"
    using tier_index_le [of r] by (intro add_w_eq) auto
  have b: "add_w 8 (mul_w 8 (tier_index r) RANKS_PER_TIER) 1 = tier_index r * 3 + 1"
    using tier_index_le [of r] by (auto simp: width_simps RANKS_PER_TIER_def)
  have c: "(tier_index r - 1 = 0 \<and> tier_index r - 1 = tier_index r) = (tier_index r = 0)"
    by (cases r) simp_all
  show ?thesis
    by (simp only: with_rank_relative_to_def Let_def mid a b c n zero_threshold_def option.case if_False)
qed

lemma with_rank_relative_to_spec:
  assumes ok: "ranks_ok L p" and wf: "opt_tier_wf old" and n: "points_rank L p \<noteq> 0"
  obtains t where "with_rank_relative_to L old p = Some t" "tier_wf t"
    "points_rank L p \<le> tier_rank t" "tier_rank t \<le> points_rank L p + 3"
proof -
  let ?n = "points_rank L p"
  have n255: "?n \<le> 255" by (rule points_rank_le)
  have mid: "middle_rank L = 2" using ok by (simp add: ranks_ok_def)
  obtain t0 where t0: "try_from_rank ?n = Some t0" "tier_rank t0 = ?n" "tier_wf t0"
    using try_from_rank_Some [of ?n] n n255 by auto
  show thesis
  proof (cases old)
    case None
    then have "with_rank_relative_to L old p = Some t0"
      using n t0(1) by (simp add: with_rank_relative_to_def Let_def)
    then show thesis using that t0 by simp
  next
    case (Some r)
    have r: "tier_wf r" using wf Some by simp
    note eq = with_rank_relative_to_Some [OF mid n, of r]
    have thr: "p \<le> zero_threshold L r \<Longrightarrow> ?n \<le> tier_index r - 1 + 2"
      unfolding zero_threshold_def
      using tier_index_le [of r] by (intro rank_le_if_points_le [OF ok]) auto
    have above: "zero_threshold L r < p \<Longrightarrow> tier_index r - 1 + 2 \<le> ?n"
      unfolding zero_threshold_def
      using tier_index_le [of r] by (intro rank_ge_if_points_ge [OF ok]) auto
    have below: "p < from_rank L (tier_index r * 3 + 1) \<Longrightarrow> ?n < tier_index r * 3 + 1"
      using tier_index_le [of r] by (intro rank_less_if_points_less [OF ok]) auto
    consider (same) "?n = tier_rank r"
      | (fall) "?n \<noteq> tier_rank r" "relative_rank r = 0" "p \<le> zero_threshold L r"
      | (zero) "?n < tier_rank r" "p < from_rank L (tier_index r * 3 + 1)"
          "zero_threshold L r < p"
      | (exact) "with_rank_relative_to L (Some r) p = Some t0"
      using eq t0(1) by (metis linorder_not_less)
    then show thesis
    proof cases
      case same
      then show thesis using that [of r] eq Some r by simp
    next
      case fall
      then have idx: "tier_index r \<noteq> 0" using r by (cases r) auto
      obtain t where t: "try_from_rank (tier_index r - 1 + 2) = Some t"
        "tier_rank t = tier_index r - 1 + 2" "tier_wf t"
        by (rule try_from_rank_Some [of "tier_index r - 1 + 2"]) (use tier_index_le [of r] in auto)
      have "with_rank_relative_to L old p = Some t" using eq fall idx t Some by simp
      then show thesis using that [of t] t thr [OF fall(3)] n tier_index_le [of r] by auto
    next
      case zero
      obtain z where z: "with_zero_rank (tier_index r) = Some z" "tier_index z = tier_index r"
        using with_zero_rank_index by blast
      have idx: "tier_index r \<noteq> 0"
      proof
        assume "tier_index r = 0"
        then show False using below [OF zero(2)] above [OF zero(3)] by simp
      qed
      have zwf: "tier_wf z" "relative_rank z = 0"
        using z idx tier_index_le [of r] by (auto simp: with_zero_rank_def split: if_splits)
      have zr: "tier_rank z = 3 * tier_index r" using zwf z(2) by (simp add: tier_rank_eq)
      have "with_rank_relative_to L old p = Some z" using eq zero z(1) Some by auto
      then show thesis
        using that [of z] zwf zr below [OF zero(2)] above [OF zero(3)] idx tier_index_le [of r]
        by auto
    next
      case exact
      then show thesis using that [of t0] t0 Some by simp
    qed
  qed
qed

lemma with_rank_relative_to_zero: "points_rank L p = 0 \<Longrightarrow> with_rank_relative_to L old p = None"
  by (simp add: with_rank_relative_to_def)

section \<open>The invariant of the pallet\<close>

text \<open>
  A record is sound when its tier is well formed, absent exactly at rank 0, never below the rank
  its points earn, and at most three ranks (one tier) above it.
\<close>

definition tier_sound :: "libm \<Rightarrow> reputation \<Rightarrow> bool" where
  "tier_sound L r \<longleftrightarrow>
     (case rep_tier r of
        None \<Rightarrow> points_rank L (rep_points r) = 0
      | Some t \<Rightarrow> tier_wf t \<and> points_rank L (rep_points r) \<noteq> 0 \<and>
          points_rank L (rep_points r) \<le> tier_rank t \<and>
          tier_rank t \<le> points_rank L (rep_points r) + 3)"

lemma tier_sound_wf: "tier_sound L r \<Longrightarrow> opt_tier_wf (rep_tier r)"
  by (simp add: tier_sound_def opt_tier_wf_def split: option.splits)

lemma tier_sound_update:
  assumes "ranks_ok L p" "opt_tier_wf (rep_tier r)"
  shows "tier_sound L (rep_update L r p)"
proof (cases "points_rank L p = 0")
  case True
  then show ?thesis by (simp add: tier_sound_def rep_update_def with_rank_relative_to_zero)
next
  case False
  obtain t where "with_rank_relative_to L (rep_tier r) p = Some t" "tier_wf t"
    "points_rank L p \<le> tier_rank t" "tier_rank t \<le> points_rank L p + 3"
    by (rule with_rank_relative_to_spec [OF assms False])
  then show ?thesis using False by (simp add: tier_sound_def rep_update_def)
qed

lemma tier_sound_from_points:
  assumes "ranks_ok L p"
  shows "tier_sound L (rep_from_points L p)"
proof (cases "points_rank L p = 0")
  case True
  then show ?thesis by (simp add: tier_sound_def rep_from_points_def try_from_rank_def)
next
  case False
  obtain t where "try_from_rank (points_rank L p) = Some t" "tier_rank t = points_rank L p" "tier_wf t"
    by (rule try_from_rank_Some [of "points_rank L p"]) (use False points_rank_le [of L p] in auto)
  then show ?thesis using False by (simp add: tier_sound_def rep_from_points_def)
qed

definition rep_inv :: "libm \<Rightarrow> rep_state \<Rightarrow> bool" where
  "rep_inv L s \<longleftrightarrow> (\<forall>a rec. AccountReputation s a = Some rec \<longrightarrow> tier_sound L (rr_reputation rec))"

end
