(* ===== verification/RankAccuracy.thy ===== *)
theory RankAccuracy
  imports Reputation
begin

text \<open>
  The documented accuracy of \<open>libm\<close> is enough for the rank table of the reputation pallet: when
  \<open>pow\<close> is within one unit in the last place of the real power and \<open>ceil\<close> is the ceiling, the
  facts \<open>ranks_ok\<close> that the tier invariant needs hold for every \<open>u64\<close> amount of points.

  The proof follows the roundings of the code with a relative error: \<open>near d a b\<close>.
\<close>

definition libm_accurate :: "libm \<Rightarrow> bool" where
  "libm_accurate L \<longleftrightarrow>
     (\<forall>x. lm_ceil L x = of_int \<lceil>x\<rceil>) \<and>
     (\<forall>x y. 0 \<le> x \<longrightarrow> 0 < y \<longrightarrow> \<bar>lm_pow L x y - x powr y\<bar> \<le> x powr y / 2 ^ 52)"

text \<open>The exact power and ceiling satisfy it.\<close>

definition libm_exact :: libm where
  "libm_exact = \<lparr>lm_pow = (powr), lm_ceil = (\<lambda>x. of_int \<lceil>x\<rceil>)\<rparr>"

lemma libm_exact_accurate: "libm_accurate libm_exact"
  by (simp add: libm_accurate_def libm_exact_def)

section \<open>Relative errors\<close>

definition near :: "real \<Rightarrow> real \<Rightarrow> real \<Rightarrow> bool" where
  "near d a b \<longleftrightarrow> b * (1 - d) \<le> a \<and> a \<le> b * (1 + d)"

lemma near_abs: "\<bar>a - b\<bar> \<le> b * d \<longleftrightarrow> near d a b"
  by (auto simp: near_def abs_le_iff algebra_simps)

lemma near_mono: "near d a b \<Longrightarrow> d \<le> d' \<Longrightarrow> 0 \<le> b \<Longrightarrow> near d' a b"
  unfolding near_def by (smt (verit) mult_left_mono)

lemma near_trans:
  assumes "near d1 a b" "near d2 b c" "0 \<le> c" "0 \<le> d1" "d1 \<le> 1" "0 \<le> d2" "d1 + d2 + d1 * d2 \<le> d"
  shows "near d a c"
proof -
  have lo: "c * (1 - d2) * (1 - d1) \<le> b * (1 - d1)"
    using assms by (intro mult_right_mono) (auto simp: near_def)
  have hi: "b * (1 + d1) \<le> c * (1 + d2) * (1 + d1)"
    using assms by (intro mult_right_mono) (auto simp: near_def)
  have "c * (d1 + d2 - d1 * d2) \<le> c * d" "c * (d1 + d2 + d1 * d2) \<le> c * d"
  proof -
    have "0 \<le> d1 * d2" using assms by simp
    then have "d1 + d2 - d1 * d2 \<le> d" using assms by linarith
    then show "c * (d1 + d2 - d1 * d2) \<le> c * d" "c * (d1 + d2 + d1 * d2) \<le> c * d"
      using assms by (auto intro!: mult_left_mono)
  qed
  then show ?thesis using lo hi assms(1) by (simp add: near_def algebra_simps)
qed

lemma near_mult: "near d a b \<Longrightarrow> 0 \<le> k \<Longrightarrow> near d (k * a) (k * b)"
  unfolding near_def by (metis mult.assoc mult_left_mono)

lemma near_round: "0 \<le> x \<Longrightarrow> near (1 / 2 ^ 53) (f64_round x) x"
  using f64_round_error [of x] by (simp add: near_abs [symmetric])

lemma near_powr:
  assumes "near d a b" "0 \<le> b" "0 \<le> d" "d \<le> 1" "0 < y" "y \<le> 2"
  shows "near (3 * d) (a powr y) (b powr y)"
proof -
  have a0: "0 \<le> a" using assms by (smt (verit) near_def mult_nonneg_nonneg)
  have "a powr y \<le> (b * (1 + d)) powr y"
    using assms a0 by (intro powr_mono2) (auto simp: near_def)
  also have "\<dots> = b powr y * (1 + d) powr y" using assms by (simp add: powr_mult)
  also have "\<dots> \<le> b powr y * (1 + 3 * d)"
  proof (rule mult_left_mono)
    have "(1 + d) powr y \<le> (1 + d) powr 2" using assms by (intro powr_mono) auto
    also have "\<dots> = (1 + d)\<^sup>2" using assms by (simp add: powr_numeral)
    also have "\<dots> \<le> 1 + 3 * d"
      using assms mult_right_mono [of d 1 d] by (simp add: power2_eq_square algebra_simps)
    finally show "(1 + d) powr y \<le> 1 + 3 * d" .
  qed simp
  finally have hi: "a powr y \<le> b powr y * (1 + 3 * d)" .
  have "b powr y * (1 - 3 * d) \<le> b powr y * (1 - d) powr y"
  proof (rule mult_left_mono)
    have "1 - 3 * d \<le> (1 - d)\<^sup>2" using assms by (simp add: power2_eq_square algebra_simps)
    also have "\<dots> = (1 - d) powr 2" if "d < 1" using that by (simp add: powr_numeral)
    also have "\<dots> \<le> (1 - d) powr y" if "d < 1"
      using that assms by (intro powr_mono') auto
    finally show "1 - 3 * d \<le> (1 - d) powr y"
      using assms by (cases "d < 1") (auto simp: not_less)
  qed simp
  also have "\<dots> = (b * (1 - d)) powr y" using assms by (simp add: powr_mult)
  also have "\<dots> \<le> a powr y" using assms by (intro powr_mono2) (auto simp: near_def)
  finally show ?thesis using hi by (simp add: near_def)
qed

lemma near_pow:
  assumes "libm_accurate L" "0 \<le> x" "0 < y"
  shows "near (1 / 2 ^ 52) (lm_pow L x y) (x powr y)"
  using assms by (simp add: libm_accurate_def near_abs [symmetric])

section \<open>The points of a rank\<close>

text \<open>The exact curve, \<open>U3 * (r / 9) ^ c\<close>, and its growth.\<close>

definition curve :: "real \<Rightarrow> real" where
  "curve r = 248832000 * (r / 9) powr CURVATURE"

lemma CURVATURE_eq: "CURVATURE = 7205759403792794 / 4503599627370496"
  by (simp add: CURVATURE_def f64_eval)

lemma CURVATURE_bounds: "1 \<le> CURVATURE" "CURVATURE \<le> 2" "0 < CURVATURE"
  by (simp_all add: CURVATURE_eq)

lemma f64_of_nat_9: "f64_of_nat 248832000 = 248832000"
  by (simp add: f64_eval)

lemma curve_mono: "0 \<le> a \<Longrightarrow> a \<le> b \<Longrightarrow> curve a \<le> curve b"
  using CURVATURE_bounds by (auto simp: curve_def intro!: powr_mono2)

lemma curve_nonneg: "0 \<le> curve r"
  by (simp add: curve_def)

lemma curve_le:
  assumes "0 \<le> r" "r \<le> 255"
  shows "curve r \<le> 2 ^ 38"
proof -
  have "(r / 9) powr CURVATURE \<le> (255 / 9) powr CURVATURE"
    using assms CURVATURE_bounds by (intro powr_mono2) auto
  also have "\<dots> \<le> (255 / 9) powr 2" using CURVATURE_bounds by (intro powr_mono) auto
  finally show ?thesis by (simp add: curve_def powr_numeral power2_eq_square)
qed

lemma curve_step:
  assumes "0 \<le> r"
  shows "curve r + 3000000 \<le> curve (r + 1)"
proof -
  let ?c = CURVATURE
  have split: "x powr ?c = x * x powr (?c - 1)" if "0 \<le> x" for x
    using that by (cases "x = 0") (auto simp: powr_diff)
  have "r * r powr (?c - 1) \<le> r * (r + 1) powr (?c - 1)"
    using assms CURVATURE_bounds by (intro mult_left_mono powr_mono2) auto
  moreover have "1 \<le> (r + 1) powr (?c - 1)"
    using assms CURVATURE_bounds by (intro ge_one_powr_ge_zero) auto
  ultimately have "r powr ?c + 1 \<le> (r + 1) powr ?c"
    using assms by (simp add: split distrib_right)
  then have "(r powr ?c + 1) / 9 powr ?c \<le> (r + 1) powr ?c / 9 powr ?c"
    by (intro divide_right_mono) auto
  moreover have "1 / 81 \<le> 1 / (9::real) powr ?c"
  proof -
    have "(9::real) powr ?c \<le> 9 powr 2" using CURVATURE_bounds by (intro powr_mono) auto
    then have "(9::real) powr ?c \<le> 81" by (simp add: powr_numeral)
    then show ?thesis by (intro divide_left_mono) auto
  qed
  ultimately have "r powr ?c / 9 powr ?c + 1 / 81 \<le> (r + 1) powr ?c / 9 powr ?c"
    unfolding add_divide_distrib by linarith
  then have "(r / 9) powr ?c + 1 / 81 \<le> ((r + 1) / 9) powr ?c"
    using assms by (simp add: powr_divide)
  then show ?thesis unfolding curve_def by linarith
qed

lemma from_rank_near:
  assumes L: "libm_accurate L" and r: "r \<le> 255"
  shows "curve (real r) * (1 - 1 / 2 ^ 49) - 1 < real (from_rank L r)"
    and "real (from_rank L r) \<le> curve (real r) * (1 + 1 / 2 ^ 49)"
proof -
  define x where "x = f64_div (real r) 9"
  define g where "g = f64_mul 248832000 (lm_pow L x CURVATURE)"
  have x: "near (1 / 2 ^ 53) x (real r / 9)" "0 \<le> x"
    unfolding x_def f64_div_def using near_round [of "real r / 9"] by simp_all
  have pw: "near (3 * (1 / 2 ^ 53)) (x powr CURVATURE) ((real r / 9) powr CURVATURE)"
    using x CURVATURE_bounds by (intro near_powr) auto
  have lp: "near (1 / 2 ^ 52) (lm_pow L x CURVATURE) (x powr CURVATURE)"
    using L x CURVATURE_bounds by (intro near_pow) auto
  have "near (1 / 2 ^ 50) (lm_pow L x CURVATURE) ((real r / 9) powr CURVATURE)"
    by (rule near_trans [OF lp pw]) auto
  then have m: "near (1 / 2 ^ 50) (248832000 * lm_pow L x CURVATURE) (curve r)"
    unfolding curve_def by (rule near_mult) simp
  have pos: "0 \<le> 248832000 * lm_pow L x CURVATURE"
    using m curve_nonneg [of r] by (smt (verit) near_def mult_nonneg_nonneg divide_le_eq_1 one_le_power)
  have "near (1 / 2 ^ 49) g (curve r)"
    unfolding g_def f64_mul_def by (rule near_trans [OF near_round m]) (use pos curve_nonneg in auto)
  then have lo: "curve r * (1 - 1 / 2 ^ 49) \<le> g" and hi: "g \<le> curve r * (1 + 1 / 2 ^ 49)"
    by (simp_all add: near_def)
  have g0: "0 \<le> g" by (simp add: g_def f64_mul_def)
  have "curve r * (1 + 1 / 2 ^ 49) \<le> 2 ^ 38 * 2"
    using curve_le [of r] r by (intro mult_mono) auto
  then have "g < 2 ^ 40" using hi by simp
  then have "nat \<lfloor>g\<rfloor> \<le> max_w 64" using g0 by (simp add: max_w_def nat_le_iff floor_le_iff)
  then have fr: "from_rank L r = nat \<lfloor>g\<rfloor>"
    using g0 by (simp add: from_rank_def f64_as_def ULTRAMODERN_3_POINTS_eq f64_of_nat_9
        RANKS_PER_U3_def x_def g_def)
  have "real (nat \<lfloor>g\<rfloor>) \<le> g" "g < real (nat \<lfloor>g\<rfloor>) + 1"
    using g0 floor_correct [of g] by simp_all
  then show "curve r * (1 - 1 / 2 ^ 49) - 1 < real (from_rank L r)"
    and "real (from_rank L r) \<le> curve r * (1 + 1 / 2 ^ 49)"
    unfolding fr using lo hi by linarith+
qed

lemma from_rank_gap:
  assumes "libm_accurate L" "r < 255"
  shows "curve (real r) + 1 < real (from_rank L (Suc r))"
proof -
  have "curve (real r + 1) \<le> 2 ^ 38" using assms curve_le [of "real r + 1"] by simp
  then have "curve (real r + 1) * (1 / 2 ^ 49) \<le> 1" by simp
  moreover have "curve (real r) + 3000000 \<le> curve (real r + 1)" by (rule curve_step) simp
  moreover have "curve (real r + 1) * (1 - 1 / 2 ^ 49) - 1 < real (from_rank L (Suc r))"
    using from_rank_near(1) [OF assms(1), of "Suc r"] assms(2) by (simp add: add.commute)
  ultimately show ?thesis by (simp add: right_diff_distrib)
qed

lemma from_rank_upper:
  assumes "libm_accurate L" "r \<le> 255"
  shows "real (from_rank L r) \<le> curve (real r) + 1 / 2"
proof -
  have "curve (real r) * (1 / 2 ^ 49) \<le> 1 / 2" using assms curve_le [of "real r"] by simp
  then show ?thesis using from_rank_near(2) [OF assms] by (simp add: distrib_left)
qed

lemma rank_table_accurate:
  assumes L: "libm_accurate L"
  shows "rank_table_ok L"
proof -
  have "from_rank L r < from_rank L (Suc r)" if "r < 255" for r
  proof -
    have "real (from_rank L r) < real (from_rank L (Suc r))"
      using from_rank_upper [OF L, of r] from_rank_gap [OF L that] that by simp
    then show ?thesis by simp
  qed
  then show ?thesis by (auto simp: rank_table_ok_def list_all_iff)
qed

lemma middle_rank_accurate: "libm_accurate L \<Longrightarrow> middle_rank L = 2"
  by (simp add: middle_rank_def RANKS_PER_TIER_def libm_accurate_def f64_eval)

section \<open>The estimated rank\<close>

text \<open>The exact inverse of the curve.\<close>

definition inv_curve :: "real \<Rightarrow> real" where
  "inv_curve p = 9 * (p / 248832000) powr (1 / CURVATURE)"

lemma curve_inv_curve: "0 \<le> p \<Longrightarrow> curve (inv_curve p) = p"
  using CURVATURE_bounds by (simp add: curve_def inv_curve_def powr_powr)

lemma curve_scale: "0 \<le> y \<Longrightarrow> 0 \<le> k \<Longrightarrow> curve (y * k) = curve y * k powr CURVATURE"
  by (simp add: curve_def powr_mult times_divide_eq_left [symmetric] del: times_divide_eq_left)

lemma inv_curve_nonneg: "0 \<le> inv_curve p"
  by (simp add: inv_curve_def)

text \<open>The exponent \<open>1. / CURVATURE\<close> of the code is rounded; over the \<open>u64\<close> range this is harmless.\<close>

lemma near_exponent:
  assumes x: "0 < x" "x \<le> 2 ^ 64" "1 / 2 ^ 64 \<le> x"
    and e: "\<bar>e - f\<bar> \<le> 1 / 2 ^ 53"
  shows "near (1 / 2 ^ 46) (x powr e) (x powr f)"
proof -
  define t where "t = (e - f) * ln x"
  have "ln (2 ^ 64 :: real) = 64 * ln 2" by (subst ln_realpow) auto
  then have ln64: "ln (2 ^ 64 :: real) \<le> 64" using ln_2_less_1 by linarith
  have "ln x \<le> ln (2 ^ 64)" using x by simp
  moreover have "ln (1 / 2 ^ 64) \<le> ln x" using x by (subst ln_le_cancel_iff) auto
  moreover have "ln (1 / 2 ^ 64 :: real) = - ln (2 ^ 64)" by (subst ln_div) auto
  ultimately have "\<bar>ln x\<bar> \<le> 64" using ln64 by linarith
  then have "\<bar>t\<bar> \<le> 1 / 2 ^ 53 * 64"
    unfolding t_def abs_mult using e by (intro mult_mono) auto
  then have t: "\<bar>t\<bar> \<le> 1 / 2 ^ 47" by simp
  have "x powr e = x powr f * exp t"
    using x by (simp add: powr_def t_def left_diff_distrib flip: exp_add)
  moreover have "1 - 1 / 2 ^ 46 \<le> exp t"
  proof -
    have "(1::real) / 2 ^ 47 \<le> 1 / 2 ^ 46" by simp
    then show ?thesis using exp_ge_add_one_self [of t] t by linarith
  qed
  moreover have "exp t \<le> 1 + 1 / 2 ^ 46"
  proof -
    have "exp t \<le> exp (1 / 2 ^ 47)" using t by simp
    also have "\<dots> \<le> 1 + 1 / 2 ^ 47 + (1 / 2 ^ 47)\<^sup>2" by (rule exp_bound) auto
    also have "\<dots> \<le> 1 + 1 / 2 ^ 46" by (simp add: power2_eq_square)
    finally show ?thesis .
  qed
  ultimately show ?thesis unfolding near_def by (metis mult_left_mono powr_ge_zero)
qed

definition inv_exponent :: real where
  "inv_exponent = f64_div 1 CURVATURE"

lemma inv_exponent_near: "\<bar>inv_exponent - 1 / CURVATURE\<bar> \<le> 1 / 2 ^ 53"
  and inv_exponent_bounds: "0 < inv_exponent" "inv_exponent \<le> 2"
proof -
  have "\<bar>inv_exponent - 1 / CURVATURE\<bar> \<le> 1 / CURVATURE / 2 ^ 53"
    unfolding inv_exponent_def f64_div_def using CURVATURE_bounds by (intro f64_round_error) auto
  also have "\<dots> \<le> 1 / 2 ^ 53" using CURVATURE_bounds by (simp add: field_simps)
  finally show a: "\<bar>inv_exponent - 1 / CURVATURE\<bar> \<le> 1 / 2 ^ 53" .
  have "1 / 2 \<le> 1 / CURVATURE" "1 / CURVATURE \<le> 1"
    using CURVATURE_bounds by (simp_all add: field_simps)
  moreover have "\<bar>inv_exponent - 1 / CURVATURE\<bar> \<le> 1 / 4" using a by (rule order_trans) simp
  ultimately show "0 < inv_exponent" "inv_exponent \<le> 2" by linarith+
qed

text \<open>The value whose ceiling the code takes, and how close it is to the exact rank.\<close>

definition rank_res :: "libm \<Rightarrow> nat \<Rightarrow> real" where
  "rank_res L p = f64_mul (lm_pow L (f64_div (f64_of_nat p) 248832000) inv_exponent) 9"

lemma rank_res_near:
  assumes L: "libm_accurate L" and p: "1 \<le> p" "p < 2 ^ 64"
  shows "near (1 / 2 ^ 43) (rank_res L p) (inv_curve p)"
proof -
  define q where "q = real p / 248832000"
  define x where "x = f64_div (f64_of_nat p) 248832000"
  have rp: "1 \<le> real p" "real p \<le> 2 ^ 64"
    using p of_nat_le_iff [of p "2 ^ 64"] by (simp_all add: order_less_imp_le)
  have q: "0 < q" "q \<le> 2 ^ 64" "1 / 2 ^ 64 \<le> q" using rp by (auto simp: q_def)
  have n: "near (1 / 2 ^ 53) (f64_of_nat p) (real p)"
    using near_round [of "real p"] by (simp add: f64_of_nat_def)
  have n0: "0 \<le> f64_of_nat p" by (simp add: f64_of_nat_def)
  have nq: "near (1 / 2 ^ 53) (f64_of_nat p / 248832000) q"
    using near_mult [OF n, of "1 / 248832000"] by (simp add: q_def)
  have x: "near (1 / 2 ^ 51) x q" "0 \<le> x"
    unfolding x_def f64_div_def by (rule near_trans [OF near_round nq]) (use n0 q in auto)
  have "near (3 * (1 / 2 ^ 51)) (x powr inv_exponent) (q powr inv_exponent)"
    using x q inv_exponent_bounds by (intro near_powr) auto
  moreover have "near (1 / 2 ^ 46) (q powr inv_exponent) (q powr (1 / CURVATURE))"
    using q inv_exponent_near by (intro near_exponent) auto
  ultimately have e: "near (1 / 2 ^ 45) (x powr inv_exponent) (q powr (1 / CURVATURE))"
    by (rule near_trans) auto
  have lp: "near (1 / 2 ^ 52) (lm_pow L x inv_exponent) (x powr inv_exponent)"
    using L x inv_exponent_bounds by (intro near_pow) auto
  have k: "near (1 / 2 ^ 44) (lm_pow L x inv_exponent) (q powr (1 / CURVATURE))"
    by (rule near_trans [OF lp e]) auto
  have m: "near (1 / 2 ^ 44) (lm_pow L x inv_exponent * 9) (inv_curve p)"
    using near_mult [OF k, of 9] by (simp add: inv_curve_def q_def mult.commute)
  have "0 \<le> lm_pow L x inv_exponent * 9"
  proof -
    have "0 \<le> inv_curve p * (1 - 1 / 2 ^ 44)" using inv_curve_nonneg by simp
    then show ?thesis using m by (auto simp: near_def)
  qed
  then show ?thesis
    unfolding rank_res_def f64_mul_def x_def [symmetric]
    by (intro near_trans [OF near_round m]) (use inv_curve_nonneg in auto)
qed

lemma rank_estimate_eq:
  "libm_accurate L \<Longrightarrow> rank_estimate L p = f64_as 8 (of_int \<lceil>rank_res L p\<rceil>)"
  by (simp add: rank_estimate_def rank_res_def inv_exponent_def Let_def libm_accurate_def
      ULTRAMODERN_3_POINTS_eq f64_of_nat_9 RANKS_PER_U3_def)

lemma rank_res_nonneg: "0 \<le> rank_res L p"
  by (simp add: rank_res_def f64_mul_def)

text \<open>The estimate is never more than one above the true rank.\<close>

lemma estimate_not_too_high:
  assumes L: "libm_accurate L" and p: "1 \<le> p" "p < 2 ^ 64"
    and e: "rank_estimate L p = Suc r"
  shows "from_rank L r \<le> p"
proof -
  let ?d = "1 / 2 ^ 43 :: real" and ?E = "rank_res L p"
  have r: "r < 255" using e f64_as_le [of 8 "of_int \<lceil>?E\<rceil>"] by (simp add: rank_estimate_eq [OF L] max_w_def)
  have "Suc r \<le> nat \<lceil>?E\<rceil>"
    using e rank_res_nonneg [of L p] by (simp add: rank_estimate_eq [OF L] f64_as_def split: if_splits)
  then have "real r < ?E" by linarith
  also have "?E \<le> inv_curve p * (1 + ?d)" using rank_res_near [OF L p] by (simp add: near_def)
  finally have "curve r \<le> curve (inv_curve p * (1 + ?d))" by (intro curve_mono) auto
  also have "\<dots> = real p * (1 + ?d) powr CURVATURE"
    using curve_scale [OF inv_curve_nonneg, of "1 + ?d" p] curve_inv_curve [of p] by simp
  also have "\<dots> \<le> real p * (1 + ?d) powr 2"
    using CURVATURE_bounds by (intro mult_left_mono powr_mono) auto
  also have "\<dots> \<le> real p * (1 + 1 / 2 ^ 41)"
    by (intro mult_left_mono) (auto simp: powr_numeral power2_eq_square)
  finally have c: "curve r \<le> real p + real p / 2 ^ 41" by (simp add: distrib_left)
  have f: "real (from_rank L r) \<le> curve r + 1 / 2" using from_rank_upper [OF L, of r] r by simp
  show ?thesis
  proof (cases "real p \<le> 2 ^ 39")
    case True
    then have "real p / 2 ^ 41 \<le> 1 / 4" by simp
    then have "real (from_rank L r) < real p + 1" using c f by linarith
    then show ?thesis by simp
  next
    case False
    moreover have "curve r \<le> 2 ^ 38" using curve_le [of "real r"] r by simp
    ultimately have "real (from_rank L r) \<le> real p" using f by simp
    then show ?thesis by simp
  qed
qed

text \<open>The estimate is never below the true rank.\<close>

lemma estimate_not_too_low:
  assumes L: "libm_accurate L" and p: "1 \<le> p" "p < 2 ^ 64" and e: "rank_estimate L p < 255"
  shows "p < from_rank L (Suc (rank_estimate L p))"
proof -
  let ?d = "1 / 2 ^ 43 :: real" and ?E = "rank_res L p" and ?e = "rank_estimate L p"
  have "?e = nat \<lceil>?E\<rceil>"
    using e rank_res_nonneg [of L p]
    by (simp add: rank_estimate_eq [OF L] f64_as_def max_w_def min_def split: if_splits)
  then have "?E \<le> real ?e" using rank_res_nonneg [of L p] by linarith
  moreover have "inv_curve p * (1 - ?d) \<le> ?E" using rank_res_near [OF L p] by (simp add: near_def)
  ultimately have "curve (inv_curve p * (1 - ?d)) \<le> curve ?e"
    using inv_curve_nonneg [of p] by (intro curve_mono) auto
  moreover have "curve (inv_curve p * (1 - ?d)) = real p * (1 - ?d) powr CURVATURE"
    using curve_scale [OF inv_curve_nonneg, of "1 - ?d" p] curve_inv_curve [of p] by simp
  moreover have "real p * (1 - 1 / 2 ^ 42) \<le> real p * (1 - ?d) powr CURVATURE"
  proof (intro mult_left_mono)
    have "1 - 1 / 2 ^ 42 \<le> (1 - ?d) powr 2" by (simp add: powr_numeral power2_eq_square)
    also have "\<dots> \<le> (1 - ?d) powr CURVATURE" using CURVATURE_bounds by (intro powr_mono') auto
    finally show "1 - 1 / 2 ^ 42 \<le> (1 - ?d) powr CURVATURE" .
  qed simp
  ultimately have "real p * (1 - 1 / 2 ^ 42) \<le> curve ?e" by linarith
  moreover have ce: "curve ?e \<le> 2 ^ 38" using curve_le [of "real ?e"] e by simp
  ultimately have "real p \<le> 2 ^ 39" by simp
  then have "real p / 2 ^ 42 \<le> 1 / 2" by simp
  then have "real p \<le> curve ?e + 1 / 2"
    using \<open>real p * (1 - 1 / 2 ^ 42) \<le> curve ?e\<close> by (simp add: right_diff_distrib)
  then have "real p < real (from_rank L (Suc ?e))" using from_rank_gap [OF L e] by linarith
  then show ?thesis by simp
qed

lemma from_rank_0: "libm_accurate L \<Longrightarrow> from_rank L 0 = 0"
  using from_rank_upper [of L 0] by (simp add: curve_def)

lemma rank_estimate_0:
  assumes "libm_accurate L"
  shows "rank_estimate L 0 = 0"
proof -
  have "\<bar>lm_pow L 0 inv_exponent\<bar> \<le> 0"
    using assms inv_exponent_bounds by (auto simp: libm_accurate_def)
  then have "rank_res L 0 = 0" by (simp add: rank_res_def f64_div_def f64_of_nat_def f64_mul_def)
  then show ?thesis by (simp add: rank_estimate_eq [OF assms] f64_as_def)
qed

lemma rank_brackets_accurate:
  assumes L: "libm_accurate L" and p: "p < 2 ^ 64"
  shows "rank_brackets L p"
proof (cases "p = 0")
  case True
  have "from_rank L 0 < from_rank L (Suc 0)"
    using from_rank_strict [OF rank_table_accurate [OF L]] by simp
  then show ?thesis
    using True from_rank_0 [OF L] rank_estimate_0 [OF L]
    by (simp add: rank_brackets_def points_rank_def)
next
  case False
  then have p1: "1 \<le> p" by simp
  let ?e = "rank_estimate L p"
  show ?thesis
  proof (cases "p < from_rank L ?e")
    case True
    then obtain r where r: "?e = Suc r" using from_rank_0 [OF L] by (cases ?e) auto
    then show ?thesis
      using True estimate_not_too_high [OF L p1 p r] by (simp add: rank_brackets_def points_rank_def)
  next
    case False
    then show ?thesis
      using estimate_not_too_low [OF L p1 p] by (simp add: rank_brackets_def points_rank_def)
  qed
qed

theorem ranks_accurate:
  assumes "libm_accurate L" "p < 2 ^ 64"
  shows "ranks_ok L p"
  using assms by (simp add: ranks_ok_def rank_table_accurate middle_rank_accurate rank_brackets_accurate)

end
