(* ===== verification/ReputationInv.thy ===== *)
theory ReputationInv
  imports RankAccuracy
begin

text \<open>
  What the reputation pallet keeps true and what its operations do: the points interface other
  pallets rely on (locale \<open>points_ledger\<close>), the pallet as a step relation with its invariant over
  every reachable state, and the properties of ranks, tiers and accrual.
\<close>

section \<open>The interface the staking pallet uses\<close>

text \<open>
  \<open>points_of\<close> reads an account's points; \<open>award\<close> is \<open>increase_creating\<close>, \<open>penalise\<close> is \<open>do_slash\<close>.
\<close>

locale points_ledger =
  fixes points_of :: "'s \<Rightarrow> account \<Rightarrow> nat option"
    and award :: "account \<Rightarrow> nat \<Rightarrow> 's \<Rightarrow> 's"
    and penalise :: "account \<Rightarrow> nat \<Rightarrow> 's \<Rightarrow> 'e + 's"
  assumes award_self: "points_of (award a n s) a = Some (min (unwrap_or 0 (points_of s a) + n) (max_w 64))
      \<or> points_of s a = None \<and> points_of (award a n s) a = Some n"
    and award_other: "b \<noteq> a \<Longrightarrow> points_of (award a n s) b = points_of s b"
    and penalise_ok: "points_of s a = Some p \<Longrightarrow>
      \<exists>s'. penalise a n s = Inr s' \<and> points_of s' a = Some (p - n) \<and>
        (\<forall>b. b \<noteq> a \<longrightarrow> points_of s' b = points_of s b)"
    and penalise_unknown: "points_of s a = None \<Longrightarrow> \<exists>e. penalise a n s = Inl e"
begin

lemma penalise_cases:
  assumes "penalise a n s = Inr s'"
  obtains p where "points_of s a = Some p" "points_of s' a = Some (p - n)"
    "\<And>b. b \<noteq> a \<Longrightarrow> points_of s' b = points_of s b"
  using assms penalise_ok [of s a _ n] penalise_unknown [of s a n]
  by (cases "points_of s a") fastforce+

lemma penalise_fails_iff: "(\<exists>e. penalise a n s = Inl e) \<longleftrightarrow> points_of s a = None"
  using penalise_ok [of s a _ n] penalise_unknown [of s a n] by (cases "points_of s a") fastforce+

text \<open>Awarding the same amount to a list of accounts, as \<open>pay_reporters\<close> and \<open>reward_by_ids\<close> do.\<close>

lemma award_all_known: "points_of s b \<noteq> None \<Longrightarrow> points_of (foldl (\<lambda>s a. award a n s) s as) b \<noteq> None"
proof (induction as arbitrary: s)
  case (Cons a as)
  have "points_of (award a n s) b \<noteq> None"
    using Cons.prems award_self [of a n s] award_other [of b a n s] by (cases "b = a") auto
  then show ?case using Cons.IH by simp
qed simp

lemma award_all_other:
  "b \<notin> set as \<Longrightarrow> points_of (foldl (\<lambda>s a. award a n s) s as) b = points_of s b"
  by (induction as arbitrary: s) (auto simp: award_other)

end

definition rep_points_of :: "rep_state \<Rightarrow> account \<Rightarrow> nat option" where
  "rep_points_of s a = map_option (rep_points \<circ> rr_reputation) (AccountReputation s a)"

lemma rep_points_simps [simp]:
  "rep_points (rep_update L r p) = p"
  "rep_points (rep_increase L r n) = sat_add 64 (rep_points r) n"
  "rep_points (rep_decrease L r n) = rep_points r - n"
  "rep_points (rep_from_points L p) = p"
  by (simp_all add: rep_update_def rep_increase_def rep_decrease_def rep_from_points_def)

lemma AccountReputation_simps [simp]:
  "AccountReputation (rep_deposit e s) = AccountReputation s"
  "AccountReputation (rep_insert a rec s) = (AccountReputation s)(a \<mapsto> rec)"
  by (simp_all add: rep_deposit_def rep_insert_def)

interpretation rep: points_ledger rep_points_of "increase_creating L" "rep_do_slash L now" for L now
proof (unfold_locales, goal_cases)
  case (1 a n s)
  then show ?case
    by (auto simp: rep_points_of_def increase_creating_def record_from_points_def sat_add_def
        split: option.splits)
next
  case (2 b a n s)
  then show ?case by (auto simp: rep_points_of_def increase_creating_def split: option.splits)
next
  case (3 s a p n)
  then show ?case by (auto simp: rep_points_of_def rep_do_slash_def split: option.splits)
next
  case (4 s a n)
  then show ?case by (auto simp: rep_points_of_def rep_do_slash_def)
qed

section \<open>The pallet as a transition system\<close>

text \<open>Every way the storage of the pallet changes; amounts and block numbers are \<open>u64\<close>.\<close>

inductive rep_step :: "libm \<Rightarrow> rep_state \<Rightarrow> rep_state \<Rightarrow> bool" for L where
  rs_force_set: "p < 2 ^ 64 \<Longrightarrow> force_set_points L now og a p s = Inr t \<Longrightarrow> rep_step L s t"
| rs_increase: "increase_points L og a p s = Inr t \<Longrightarrow> rep_step L s t"
| rs_slash: "slash_points L now og a p s = Inr t \<Longrightarrow> rep_step L s t"
| rs_update: "update_points L now og a s = Inr t \<Longrightarrow> rep_step L s t"
| rs_reset: "force_reset_points L now og s = Inr t \<Longrightarrow> rep_step L s t"
| rs_internal_slash: "rep_do_slash L now a p s = Inr t \<Longrightarrow> rep_step L s t"
| rs_internal_increase: "do_increase_points L a p s = Inr t \<Longrightarrow> rep_step L s t"
| rs_award: "p < 2 ^ 64 \<Longrightarrow> rep_step L s (increase_creating L a p s)"
| rs_time: "rep_step L s (update_points_for_time L now s)"
| rs_new: "rep_step L s (on_new_account now a s)"
| rs_killed: "rep_step L s (on_killed_account a s)"

inductive_cases rep_stepE: "rep_step L s t"

definition rep_empty :: rep_state where
  "rep_empty = \<lparr>AccountReputation = Map.empty, rep_events = []\<rparr>"

inductive rep_reachable :: "libm \<Rightarrow> rep_state \<Rightarrow> bool" for L where
  rr_genesis: "(\<forall>(a, rec) \<in> set accounts. tier_sound L (rr_reputation rec) \<and>
      rep_points (rr_reputation rec) < 2 ^ 64) \<Longrightarrow> rep_reachable L (rep_genesis_build accounts rep_empty)"
| rr_step: "rep_reachable L s \<Longrightarrow> rep_step L s t \<Longrightarrow> rep_reachable L t"

definition rec_ok :: "libm \<Rightarrow> reputation_record \<Rightarrow> bool" where
  "rec_ok L rec \<longleftrightarrow> tier_sound L (rr_reputation rec) \<and> rep_points (rr_reputation rec) < 2 ^ 64"

definition rep_ok :: "libm \<Rightarrow> rep_state \<Rightarrow> bool" where
  "rep_ok L s \<longleftrightarrow> (\<forall>a rec. AccountReputation s a = Some rec \<longrightarrow> rec_ok L rec)"

lemma rep_okD: "rep_ok L s \<Longrightarrow> AccountReputation s a = Some rec \<Longrightarrow> rec_ok L rec"
  by (simp add: rep_ok_def)

lemma rep_ok_insert: "rep_ok L s \<Longrightarrow> rec_ok L rec \<Longrightarrow> rep_ok L (rep_insert a rec s)"
  by (simp add: rep_ok_def)

lemma rep_ok_deposit [simp]: "rep_ok L (rep_deposit e s) = rep_ok L s"
  by (simp add: rep_ok_def)

lemma rec_ok_update:
  assumes "libm_accurate L" "rec_ok L rec" "p < 2 ^ 64"
  shows "rec_ok L (rec\<lparr>rr_reputation := rep_update L (rr_reputation rec) p\<rparr>)"
  using assms tier_sound_update [OF ranks_accurate [OF assms(1,3)]]
  by (auto simp: rec_ok_def dest: tier_sound_wf)

lemma rec_ok_updated [simp]: "rec_ok L (rec\<lparr>rr_updated := u\<rparr>) = rec_ok L rec"
  by (simp add: rec_ok_def)

lemma sat_add_64: "sat_add 64 a b < 2 ^ 64"
  unfolding le_max_w_iff [symmetric] by (rule sat_add_le)

lemma rec_ok_increase:
  "libm_accurate L \<Longrightarrow> rec_ok L rec \<Longrightarrow>
    rec_ok L (rec\<lparr>rr_reputation := rep_increase L (rr_reputation rec) p\<rparr>)"
  unfolding rep_increase_def by (rule rec_ok_update) (simp_all only: sat_add_64)

lemma rec_ok_decrease:
  "libm_accurate L \<Longrightarrow> rec_ok L rec \<Longrightarrow>
    rec_ok L (rec\<lparr>rr_reputation := rep_decrease L (rr_reputation rec) p\<rparr>)"
  unfolding rep_decrease_def by (rule rec_ok_update) (auto simp: rec_ok_def)

lemma rec_ok_slashed:
  "libm_accurate L \<Longrightarrow> rec_ok L rec \<Longrightarrow>
    rec_ok L (rec\<lparr>rr_reputation := rep_decrease L (rr_reputation rec) p, rr_updated := u\<rparr>)"
  using rec_ok_decrease [of L rec p] by (simp add: rec_ok_def)

lemma rec_ok_from_points:
  "libm_accurate L \<Longrightarrow> p < 2 ^ 64 \<Longrightarrow>
    rec_ok L \<lparr>rr_reputation = rep_from_points L p, rr_updated = u\<rparr>"
  by (simp add: rec_ok_def tier_sound_from_points ranks_accurate)

lemma rec_ok_new: "libm_accurate L \<Longrightarrow> rec_ok L (with_blocknumber u)"
  using rank_estimate_0 from_rank_0
  by (simp add: rec_ok_def with_blocknumber_def default_reputation_def tier_sound_def points_rank_def)

lemma rec_ok_accrue:
  assumes "libm_accurate L" "rec_ok L rec"
  shows "rec_ok L (update_with_block_number L rec now)"
  using rec_ok_increase [OF assms] by (simp add: update_with_block_number_def rec_ok_def)

lemma from_rank_less: "from_rank L r < 2 ^ 64"
  unfolding from_rank_def using f64_as_le le_max_w_iff by blast

lemma rep_step_ok:
  assumes "rep_step L s t" and L: "libm_accurate L" and s: "rep_ok L s"
  shows "rep_ok L t"
  using assms(1)
proof (cases rule: rep_step.cases)
  case (rs_force_set p now og a)
  then show ?thesis
    using s L by (auto simp: force_set_points_def res_simps intro!: rep_ok_insert rec_ok_from_points)
next
  case (rs_increase og a p)
  then show ?thesis
    using s L by (auto simp: increase_points_def do_increase_points_def res_simps
        intro!: rep_ok_insert rec_ok_increase dest: rep_okD split: option.splits)
next
  case (rs_slash now og a p)
  then show ?thesis
    using s by (auto simp: slash_points_def rep_do_slash_def res_simps
        intro!: rep_ok_insert rec_ok_slashed [OF L] dest: rep_okD split: option.splits)
next
  case (rs_update now og a)
  then show ?thesis
    using s L by (auto simp: update_points_def Let_def res_simps unwrap_or_def
        intro!: rep_ok_insert rec_ok_accrue rec_ok_new dest: rep_okD split: option.splits)
next
  case (rs_reset now og)
  then show ?thesis
    using L by (auto simp: force_reset_points_def Let_def res_simps rep_ok_def
        intro!: rec_ok_from_points from_rank_less)
next
  case (rs_internal_slash now a p)
  then show ?thesis
    using s by (auto simp: rep_do_slash_def
        intro!: rep_ok_insert rec_ok_slashed [OF L] dest: rep_okD split: option.splits)
next
  case (rs_internal_increase a p)
  then show ?thesis
    using s L by (auto simp: do_increase_points_def
        intro!: rep_ok_insert rec_ok_increase dest: rep_okD split: option.splits)
next
  case (rs_award p a)
  then show ?thesis
    using s L by (auto simp: increase_creating_def record_from_points_def
        intro!: rep_ok_insert rec_ok_increase rec_ok_from_points dest: rep_okD split: option.splits)
next
  case (rs_time now)
  then show ?thesis
    using s L by (auto simp: update_points_for_time_def rep_ok_def intro!: rec_ok_accrue)
next
  case (rs_new now a)
  then show ?thesis using s L by (auto simp: on_new_account_def intro!: rep_ok_insert rec_ok_new)
next
  case (rs_killed a)
  then show ?thesis using s by (simp add: on_killed_account_def rep_ok_def)
qed

lemma genesis_ok:
  assumes "\<forall>(a, rec) \<in> set accounts. rec_ok L rec" "rep_ok L s"
  shows "rep_ok L (rep_genesis_build accounts s)"
  using assms unfolding rep_genesis_build_def
proof (induction accounts arbitrary: s)
  case (Cons x accounts)
  obtain a rec where x: "x = (a, rec)" by (cases x)
  have "rep_ok L (rep_insert a rec s)" using Cons.prems x by (auto intro: rep_ok_insert)
  then show ?case using Cons x by simp
qed simp

section \<open>Properties\<close>

text \<open>C24. With an accurate \<open>libm\<close>, \<open>ReputationPoint::rank\<close> inverts \<open>from_rank\<close>: a rank's points have
  that rank, and one point less has the rank below (every \<open>u8\<close> rank from 1).\<close>

theorem ranks_are_stable:
  assumes L: "libm_accurate L" and r: "1 \<le> r" "r \<le> 255"
  shows "points_rank L (from_rank L r) = r \<and> points_rank L (from_rank L r - 1) = r - 1"
proof -
  have ok: "ranks_ok L (from_rank L r)" by (rule ranks_accurate [OF L from_rank_less])
  have ok': "ranks_ok L (from_rank L r - 1)"
    by (rule ranks_accurate [OF L]) (use from_rank_less [of L r] in linarith)
  have strict: "from_rank L (r - 1) < from_rank L r"
    using r by (intro from_rank_strict [OF rank_table_accurate [OF L]]) auto
  have "points_rank L (from_rank L r - 1) < r"
    using r strict by (intro rank_less_if_points_less [OF ok']) auto
  moreover have "r - 1 \<le> points_rank L (from_rank L r - 1)"
    using r strict by (intro rank_ge_if_points_ge [OF ok']) auto
  moreover have "points_rank L (from_rank L r) = r"
    using rank_le_if_points_le [OF ok r(2)] rank_ge_if_points_ge [OF ok r(2)] by simp
  ultimately show ?thesis by linarith
qed

theorem ranks_are_stable_witness:
  "points_rank libm_exact (from_rank libm_exact 7) = 7 \<and>
   points_rank libm_exact (from_rank libm_exact 7 - 1) = 6"
  using ranks_are_stable [OF libm_exact_accurate, of 7] by simp

text \<open>C23. In every reachable state of the reputation pallet, an account's tier is well formed, absent
  exactly when its points earn rank 0, never below the rank its points earn, and at most one tier
  (three ranks) above it.\<close>

theorem reachable_tiers_sound:
  assumes "libm_accurate L" "rep_reachable L s" "AccountReputation s a = Some rec"
  shows "tier_sound L (rr_reputation rec)"
proof -
  have "rep_ok L s" using assms(2)
  proof (induction rule: rep_reachable.induct)
    case (rr_genesis accounts)
    then show ?case
      by (intro genesis_ok) (auto simp: rec_ok_def rep_ok_def rep_empty_def)
  next
    case (rr_step s t)
    then show ?case using rep_step_ok assms(1) by blast
  qed
  then show ?thesis using assms(3) by (auto dest: rep_okD simp: rec_ok_def)
qed

theorem reachable_tiers_sound_witness:
  "tier_sound libm_exact (rr_reputation (with_blocknumber 5))"
proof -
  have "rep_reachable libm_exact (rep_genesis_build [] rep_empty)" by (rule rr_genesis) simp
  then have "rep_reachable libm_exact (on_new_account 5 1 (rep_genesis_build [] rep_empty))"
    by (rule rr_step) (rule rs_new)
  then show ?thesis
    by (rule reachable_tiers_sound [OF libm_exact_accurate, of _ 1])
       (simp add: on_new_account_def rep_genesis_build_def rep_empty_def)
qed

text \<open>Time accrual does not depend on how often it is settled: updating a record at block \<open>t1\<close> and
  again at \<open>t2\<close> gives the points of one update at \<open>t2\<close>, also when the points saturate.\<close>

theorem accrual_split:
  assumes "rr_updated rec \<le> t1" "t1 \<le> t2"
  shows "rep_points (rr_reputation (update_with_block_number L (update_with_block_number L rec t1) t2))
       = rep_points (rr_reputation (update_with_block_number L rec t2))"
proof -
  obtain x where x: "t1 = rr_updated rec + x" using assms(1) le_iff_add by blast
  obtain y where y: "t2 = t1 + y" using assms(2) le_iff_add by blast
  have calc: "calculate_reward a (a + d) = min (24 * d) (max_w 64)" for a d
    by (simp add: calculate_reward_def sat_mul_def REPUTATION_POINTS_PER_BLOCK_def)
  have "sat_add 64 (sat_add 64 n (min (24 * x) (max_w 64))) (min (24 * y) (max_w 64))
      = sat_add 64 n (min (24 * (x + y)) (max_w 64))" for n
    by (simp add: sat_add_def min_def)
  then show ?thesis
    using calc [of "rr_updated rec" x] calc [of "rr_updated rec + x" y]
      calc [of "rr_updated rec" "x + y"]
    by (simp add: update_with_block_number_def x y add.assoc)
qed

theorem accrual_split_witness:
  "rep_points (rr_reputation (update_with_block_number libm_exact
      (update_with_block_number libm_exact (with_blocknumber 3) 10) 12))
   = rep_points (rr_reputation (update_with_block_number libm_exact (with_blocknumber 3) 12))"
  by (rule accrual_split) (simp_all add: with_blocknumber_def)

text \<open>A demotion out of a tier is buffered: when the points fall below the first rank of the
  account's tier but stay above the tier's zero threshold, the account keeps its tier at relative
  rank 0; and a change that earns at least the current rank sets exactly the earned rank.\<close>

theorem tier_change:
  assumes L: "libm_accurate L" and wf: "tier_wf t" and p: "p < 2 ^ 64" "1 \<le> points_rank L p"
  shows "(points_rank L p < tier_rank t \<and> p < from_rank L (tier_index t * 3 + 1) \<and>
            from_rank L (tier_index t - 1 + 2) < p \<longrightarrow>
          with_rank_relative_to L (Some t) p = with_zero_rank (tier_index t)) \<and>
         (tier_rank t \<le> points_rank L p \<longrightarrow>
          map_option tier_rank (with_rank_relative_to L (Some t) p) = Some (points_rank L p))"
proof (intro conjI impI)
  have mid: "middle_rank L = 2" by (rule middle_rank_accurate [OF L])
  have ok: "ranks_ok L p" by (rule ranks_accurate [OF L p(1)])
  note eq = with_rank_relative_to_Some [OF mid, of p t]
  assume "points_rank L p < tier_rank t \<and> p < from_rank L (tier_index t * 3 + 1) \<and>
            from_rank L (tier_index t - 1 + 2) < p"
  then show "with_rank_relative_to L (Some t) p = with_zero_rank (tier_index t)"
    using eq p(2) by (auto simp: zero_threshold_def)
next
  have mid: "middle_rank L = 2" by (rule middle_rank_accurate [OF L])
  have ok: "ranks_ok L p" by (rule ranks_accurate [OF L p(1)])
  note eq = with_rank_relative_to_Some [OF mid, of p t]
  assume ge: "tier_rank t \<le> points_rank L p"
  obtain t0 where t0: "try_from_rank (points_rank L p) = Some t0" "tier_rank t0 = points_rank L p"
    by (rule try_from_rank_Some [of "points_rank L p"]) (use p points_rank_le [of L p] in auto)
  have "\<not> (points_rank L p \<noteq> tier_rank t \<and> relative_rank t = 0 \<and> p \<le> zero_threshold L t)"
  proof
    assume a: "points_rank L p \<noteq> tier_rank t \<and> relative_rank t = 0 \<and> p \<le> zero_threshold L t"
    then have "points_rank L p \<le> tier_index t - 1 + 2"
      unfolding zero_threshold_def
      using tier_index_le [of t] by (intro rank_le_if_points_le [OF ok]) auto
    moreover have "tier_rank t = 3 * tier_index t" "tier_index t \<noteq> 0"
      using a wf by (cases t; simp add: tier_rank_eq)+
    ultimately show False using ge a by linarith
  qed
  then show "map_option tier_rank (with_rank_relative_to L (Some t) p) = Some (points_rank L p)"
    using eq p(2) ge t0 by auto
qed

theorem tier_change_witness:
  "with_rank_relative_to libm_exact (Some (Trailblazer 1)) (from_rank libm_exact 3)
     = Some (Trailblazer 0)"
proof -
  have r: "points_rank libm_exact (from_rank libm_exact 3) = 3"
    using ranks_accurate [OF libm_exact_accurate from_rank_less [of libm_exact 3]]
    by (intro antisym rank_le_if_points_le rank_ge_if_points_ge) auto
  have less: "from_rank libm_exact a < from_rank libm_exact b" if "a < b" "b \<le> 255" for a b
    using that by (rule from_rank_strict [OF rank_table_accurate [OF libm_exact_accurate]])
  show ?thesis
    using tier_change [where t = "Trailblazer 1" and p = "from_rank libm_exact 3",
        OF libm_exact_accurate _ from_rank_less] r
      less [of 3 4] less [of 2 3]
    by (simp add: tier_rank_eq with_zero_rank_def numeral_2_eq_2)
qed

end
