(* ===== verification/SlashSpans.thy ===== *)
theory SlashSpans
  imports Prelude
begin

text \<open>
  The slashing spans of \<open>pallets/energy-generation/src/slashing.rs\<close>: \<open>SlashingSpan\<close>,
  \<open>SlashingSpans\<close> and its operations \<open>new\<close>, \<open>end_span\<close>, \<open>iter\<close> and \<open>prune\<close>. Eras and span indices
  are \<open>u32\<close> and the plain arithmetic wraps; the invariant \<open>spans_wf\<close> shows that it never does.
\<close>

record slashing_span =
  sp_index :: nat
  sp_start :: era
  sp_length :: "era option"

definition contains_era :: "slashing_span \<Rightarrow> era \<Rightarrow> bool" where
  "contains_era sp e \<longleftrightarrow>
     sp_start sp \<le> e \<and> (case sp_length sp of None \<Rightarrow> True | Some l \<Rightarrow> e < add_w 32 (sp_start sp) l)"

record slashing_spans =
  ss_span_index :: nat
  ss_last_start :: era
  ss_last_nonzero_slash :: era
  ss_prior :: "era list"

definition spans_new :: "era \<Rightarrow> slashing_spans" where
  "spans_new window_start =
     \<lparr>ss_span_index = 0, ss_last_start = window_start, ss_last_nonzero_slash = 0, ss_prior = []\<rparr>"

definition end_span :: "era \<Rightarrow> slashing_spans \<Rightarrow> slashing_spans \<times> bool" where
  "end_span now s =
     (let next_start = add_w 32 now 1
      in if next_start \<le> ss_last_start s then (s, False)
         else (s\<lparr>ss_prior := sub_w 32 next_start (ss_last_start s) # ss_prior s,
                 ss_last_start := next_start,
                 ss_span_index := add_w 32 (ss_span_index s) 1\<rparr>, True))"

text \<open>The \<open>map\<close> of \<open>iter\<close>, whose closure threads \<open>last_start\<close> and \<open>index\<close>.\<close>

fun iter_prior :: "era \<Rightarrow> nat \<Rightarrow> era list \<Rightarrow> slashing_span list" where
  "iter_prior last_start index [] = []"
| "iter_prior last_start index (l # ls) =
     (let start = sub_w 32 last_start l; index' = sub_w 32 index 1
      in \<lparr>sp_index = index', sp_start = start, sp_length = Some l\<rparr> # iter_prior start index' ls)"

definition spans_iter :: "slashing_spans \<Rightarrow> slashing_span list" where
  "spans_iter s =
     \<lparr>sp_index = ss_span_index s, sp_start = ss_last_start s, sp_length = None\<rparr>
       # iter_prior (ss_last_start s) (ss_span_index s) (ss_prior s)"

definition span_ended :: "era \<Rightarrow> slashing_span \<Rightarrow> bool" where
  "span_ended window_start sp \<longleftrightarrow>
     (case sp_length sp of None \<Rightarrow> False | Some l \<Rightarrow> add_w 32 (sp_start sp) l \<le> window_start)"

definition prune :: "era \<Rightarrow> slashing_spans \<Rightarrow> slashing_spans \<times> (nat \<times> nat) option" where
  "prune window_start s =
     (let old_idx = position (span_ended window_start) (tl (spans_iter s));
          earliest_span_index = sub_w 32 (ss_span_index s) (length (ss_prior s));
          (prior, pruned) =
            (case old_idx of
               Some k \<Rightarrow>
                 let prior = take k (ss_prior s)
                 in (prior, Some (earliest_span_index, sub_w 32 (ss_span_index s) (length prior)))
             | None \<Rightarrow> (ss_prior s, None))
      in (s\<lparr>ss_prior := prior, ss_last_start := max (ss_last_start s) window_start\<rparr>, pruned))"

text \<open>\<open>era_span\<close> of \<open>InspectingSpans\<close>.\<close>

definition era_span :: "slashing_spans \<Rightarrow> era \<Rightarrow> slashing_span option" where
  "era_span s e = find (\<lambda>sp. contains_era sp e) (spans_iter s)"

section \<open>The invariant\<close>

definition spans_wf :: "slashing_spans \<Rightarrow> bool" where
  "spans_wf s \<longleftrightarrow> length (ss_prior s) \<le> ss_span_index s \<and> ss_span_index s \<le> ss_last_start s \<and>
     sum_list (ss_prior s) \<le> ss_last_start s \<and> ss_last_start s < 2 ^ 32 \<and>
     (\<forall>l \<in> set (ss_prior s). 0 < l)"

text \<open>The first era that the spans still cover.\<close>

definition first_start :: "slashing_spans \<Rightarrow> era" where
  "first_start s = ss_last_start s - sum_list (ss_prior s)"

lemma spans_new_wf: "w < 2 ^ 32 \<Longrightarrow> spans_wf (spans_new w)"
  by (simp add: spans_wf_def spans_new_def)

lemma end_span_wf:
  assumes "spans_wf s" and "now + 1 < 2 ^ 32"
  shows "spans_wf (fst (end_span now s))"
    and "spans_iter (fst (end_span now s)) =
         (if now + 1 \<le> ss_last_start s then spans_iter s
          else \<lparr>sp_index = ss_span_index s + 1, sp_start = now + 1, sp_length = None\<rparr>
               # \<lparr>sp_index = ss_span_index s, sp_start = ss_last_start s,
                   sp_length = Some (now + 1 - ss_last_start s)\<rparr>
               # tl (spans_iter s))"
proof (atomize (full), cases "now + 1 \<le> ss_last_start s")
  case True
  then show "spans_wf (fst (end_span now s)) \<and> spans_iter (fst (end_span now s)) =
         (if now + 1 \<le> ss_last_start s then spans_iter s
          else \<lparr>sp_index = ss_span_index s + 1, sp_start = now + 1, sp_length = None\<rparr>
               # \<lparr>sp_index = ss_span_index s, sp_start = ss_last_start s,
                   sp_length = Some (now + 1 - ss_last_start s)\<rparr>
               # tl (spans_iter s))"
    using assms by (simp add: end_span_def Let_def add_w_eq)
next
  case False
  then have "ss_span_index s + 1 < 2 ^ 32" "add_w 32 now 1 = now + 1"
    using assms by (auto simp: spans_wf_def add_w_eq)
  then have n: "add_w 32 now 1 = now + 1" "add_w 32 (ss_span_index s) 1 = ss_span_index s + 1"
    "sub_w 32 (now + 1) (ss_last_start s) = now + 1 - ss_last_start s"
    "sub_w 32 (ss_span_index s + 1) 1 = ss_span_index s"
    "sub_w 32 (now + 1) (now + 1 - ss_last_start s) = ss_last_start s"
    using False assms(2) by (simp_all add: add_w_eq sub_w_eq)
  show "spans_wf (fst (end_span now s)) \<and> spans_iter (fst (end_span now s)) =
         (if now + 1 \<le> ss_last_start s then spans_iter s
          else \<lparr>sp_index = ss_span_index s + 1, sp_start = now + 1, sp_length = None\<rparr>
               # \<lparr>sp_index = ss_span_index s, sp_start = ss_last_start s,
                   sp_length = Some (now + 1 - ss_last_start s)\<rparr>
               # tl (spans_iter s))"
    using assms False unfolding end_span_def Let_def n
    by (auto simp: spans_wf_def spans_iter_def Let_def n [simplified])
qed

text \<open>
  The prior spans lie back to back below \<open>last_start\<close>: the indices count down, each span ends where
  the next newer one starts.
\<close>

definition iter_ok :: "era \<Rightarrow> nat \<Rightarrow> era list \<Rightarrow> bool" where
  "iter_ok start i ls \<longleftrightarrow> sum_list ls \<le> start \<and> start < 2 ^ 32 \<and> length ls \<le> i \<and> i < 2 ^ 32 \<and>
     (\<forall>l \<in> set ls. 0 < l)"

lemma iter_ok_Cons:
  assumes "iter_ok start i (l # ls)"
  shows "sub_w 32 start l = start - l" and "sub_w 32 i 1 = i - 1"
    and "iter_ok (start - l) (i - 1) ls" and "add_w 32 (start - l) l = start"
    and "0 < l" and "l \<le> start"
  using assms by (auto simp: iter_ok_def sub_w_eq add_w_eq)

lemma iter_prior_Cons:
  assumes "iter_ok start i (l # ls)"
  shows "iter_prior start i (l # ls) =
    \<lparr>sp_index = i - 1, sp_start = start - l, sp_length = Some l\<rparr> # iter_prior (start - l) (i - 1) ls"
  using iter_ok_Cons(1,2) [OF assms] by (simp add: Let_def)

lemma iter_prior_length [simp]: "length (iter_prior start i ls) = length ls"
  by (induction start i ls rule: iter_prior.induct) (auto simp: Let_def)

lemma iter_prior_take: "iter_prior start i (take k ls) = take k (iter_prior start i ls)"
  by (induction start i ls arbitrary: k rule: iter_prior.induct)
    (auto simp: Let_def take_Cons' split: nat.splits)

declare iter_prior.simps(2) [simp del]

lemma spans_wf_iter_ok: "spans_wf s \<Longrightarrow> iter_ok (ss_last_start s) (ss_span_index s) (ss_prior s)"
  by (auto simp: spans_wf_def iter_ok_def)

lemma iter_prior_indices:
  "iter_ok start i ls \<Longrightarrow> map sp_index (iter_prior start i ls) = rev [i - length ls..<i]"
proof (induction ls arbitrary: start i)
  case Nil
  then show ?case by simp
next
  case (Cons l ls)
  have "length ls < i" using Cons.prems by (auto simp: iter_ok_def)
  then have "[i - length (l # ls)..<i] = [i - 1 - length ls..<i - 1] @ [i - 1]"
    by (cases i) auto
  then show ?case
    using Cons.IH [OF iter_ok_Cons(3) [OF Cons.prems]] by (simp add: iter_prior_Cons [OF Cons.prems])
qed

lemma iter_prior_ends:
  "iter_ok start i ls \<Longrightarrow> sp \<in> set (iter_prior start i ls) \<Longrightarrow>
   \<exists>l. sp_length sp = Some l \<and> add_w 32 (sp_start sp) l = sp_start sp + l \<and>
       sp_start sp + l \<le> start \<and> start - sum_list ls \<le> sp_start sp"
proof (induction ls arbitrary: start i)
  case (Cons l ls)
  note c = iter_ok_Cons [OF Cons.prems(1)]
  from Cons.prems(2) c(4,6) Cons.IH [OF c(3)] show ?case
    unfolding iter_prior_Cons [OF Cons.prems(1)] by fastforce
qed simp

text \<open>Ended spans come last: once a span ended by \<open>w\<close>, so did all older ones.\<close>

lemma span_ended_tail:
  assumes "iter_ok start i ls" and "start \<le> w"
  shows "\<forall>sp \<in> set (iter_prior start i ls). span_ended w sp"
  using iter_prior_ends [OF assms(1)] assms(2) by (fastforce simp: span_ended_def)

lemma position_ended:
  "iter_ok start i ls \<Longrightarrow>
   filter (\<lambda>sp. \<not> span_ended w sp) (iter_prior start i ls) =
     (case position (span_ended w) (iter_prior start i ls) of
        None \<Rightarrow> iter_prior start i ls | Some k \<Rightarrow> take k (iter_prior start i ls))"
proof (induction ls arbitrary: start i)
  case (Cons l ls)
  note c = iter_ok_Cons [OF Cons.prems]
  show ?case
  proof (cases "start \<le> w")
    case True
    have "filter (\<lambda>sp. \<not> span_ended w sp) (iter_prior start i (l # ls)) = []"
      using span_ended_tail [OF Cons.prems True] by (simp only: filter_empty_conv) blast
    moreover have "position (span_ended w) (iter_prior start i (l # ls)) = Some 0"
      using c(4) True by (simp add: iter_prior_Cons [OF Cons.prems] span_ended_def)
    ultimately show ?thesis by simp
  next
    case False
    then have "\<not> span_ended w \<lparr>sp_index = i - 1, sp_start = start - l, sp_length = Some l\<rparr>"
      using c(4) by (simp add: span_ended_def)
    then show ?thesis
      using Cons.IH [OF c(3)] by (simp add: iter_prior_Cons [OF Cons.prems] split: option.splits)
  qed
qed simp

text \<open>Coverage: an era below \<open>start\<close> lies in exactly the span that the search finds.\<close>

lemma iter_prior_find:
  "iter_ok start i ls \<Longrightarrow> e < start \<Longrightarrow>
   (find (\<lambda>sp. contains_era sp e) (iter_prior start i ls) \<noteq> None \<longleftrightarrow> start - sum_list ls \<le> e)"
proof (induction ls arbitrary: start i)
  case (Cons l ls)
  note c = iter_ok_Cons [OF Cons.prems(1)]
  have ce: "contains_era \<lparr>sp_index = i - 1, sp_start = start - l, sp_length = Some l\<rparr> e
              \<longleftrightarrow> start - l \<le> e"
    using c(4) Cons.prems(2) by (simp add: contains_era_def)
  show ?case
  proof (cases "start - l \<le> e")
    case True
    then show ?thesis using ce by (simp add: iter_prior_Cons [OF Cons.prems(1)])
  next
    case False
    then show ?thesis using ce Cons.IH [OF c(3)]
      by (simp add: iter_prior_Cons [OF Cons.prems(1)] diff_diff_left [symmetric] del: diff_diff_left)
  qed
qed simp


section \<open>What pruning and the search do\<close>

lemma spans_wf_bounds:
  assumes "spans_wf s"
  shows "sub_w 32 (ss_span_index s) (length (ss_prior s)) = ss_span_index s - length (ss_prior s)"
    and "sub_w 32 (ss_span_index s) (length (take k (ss_prior s)))
           = ss_span_index s - min k (length (ss_prior s))"
  using assms by (auto simp: spans_wf_def sub_w_eq min_def)

lemma prune_eq:
  assumes "spans_wf s"
  shows "prune w s =
    (case position (span_ended w) (tl (spans_iter s)) of
       None \<Rightarrow> (s\<lparr>ss_last_start := max (ss_last_start s) w\<rparr>, None)
     | Some k \<Rightarrow> (s\<lparr>ss_prior := take k (ss_prior s), ss_last_start := max (ss_last_start s) w\<rparr>,
         Some (ss_span_index s - length (ss_prior s), ss_span_index s - k)))"
  using spans_wf_bounds [OF assms]
  by (auto simp: prune_def Let_def spans_iter_def min_def split: option.splits dest!: position_Some)

text \<open>The window starts after the ongoing span only when every prior span ended.\<close>

lemma prune_all:
  assumes "spans_wf s" and "ss_last_start s < w"
  shows "ss_prior (fst (prune w s)) = []"
proof (cases "ss_prior s")
  case Nil
  then show ?thesis by (simp add: prune_eq [OF assms(1)] split: option.splits)
next
  case (Cons l ls)
  have "span_ended w (hd (tl (spans_iter s)))"
    using span_ended_tail [OF spans_wf_iter_ok [OF assms(1)] less_imp_le [OF assms(2)]]
    by (auto simp: spans_iter_def Cons iter_prior.simps(2) Let_def)
  then have "position (span_ended w) (tl (spans_iter s)) = Some 0"
    by (simp add: spans_iter_def Cons iter_prior.simps(2) Let_def)
  then show ?thesis by (simp add: prune_eq [OF assms(1)])
qed

lemma sum_list_take_le: "sum_list (take k xs) \<le> sum_list (xs :: nat list)"
proof -
  have "sum_list xs = sum_list (take k xs) + sum_list (drop k xs)"
    by (simp add: sum_list_append [symmetric])
  then show ?thesis by simp
qed

lemma prune_wf:
  assumes "spans_wf s" and "w < 2 ^ 32"
  shows "spans_wf (fst (prune w s))"
proof (cases "ss_last_start s < w")
  case True
  then show ?thesis using prune_all [OF assms(1) True] assms
    by (auto simp: prune_eq spans_wf_def split: option.splits)
next
  case False
  then have m: "max (ss_last_start s) w = ss_last_start s" by simp
  show ?thesis
    using assms(1) order_trans [OF sum_list_take_le, of "ss_prior s"]
    by (auto simp: prune_eq [OF assms(1)] m spans_wf_def min_def dest: in_set_takeD
        split: option.splits)
qed

text \<open>
  After pruning, exactly the spans that had not ended by the window start remain; the reported
  range holds exactly the indices of the others.
\<close>

lemma prune_keeps:
  assumes "spans_wf s"
  shows "tl (spans_iter (fst (prune w s))) = filter (\<lambda>sp. \<not> span_ended w sp) (tl (spans_iter s))"
proof (cases "ss_last_start s < w")
  case True
  have "filter (\<lambda>sp. \<not> span_ended w sp) (tl (spans_iter s)) = []"
    using span_ended_tail [of "ss_last_start s" "ss_span_index s" "ss_prior s" w] assms True
    by (auto simp: spans_wf_iter_ok spans_iter_def filter_empty_conv)
  then show ?thesis using prune_all [OF assms True] by (simp add: spans_iter_def)
next
  case False
  then have m: "max (ss_last_start s) w = ss_last_start s" by simp
  show ?thesis
    using position_ended [of "ss_last_start s" "ss_span_index s" "ss_prior s" w] assms
    by (auto simp: prune_eq [OF assms] m spans_iter_def spans_wf_iter_ok iter_prior_take
        split: option.splits)
qed

lemma prune_range:
  assumes "spans_wf s"
  shows "case snd (prune w s) of
           None \<Rightarrow> \<forall>sp \<in> set (spans_iter s). \<not> span_ended w sp
         | Some (a, b) \<Rightarrow> a < b \<and> {a..<b} = sp_index ` {sp \<in> set (spans_iter s). span_ended w sp}"
proof (cases "position (span_ended w) (tl (spans_iter s))")
  case None
  then have "snd (prune w s) = None" by (simp add: prune_eq [OF assms])
  moreover have "\<forall>sp \<in> set (spans_iter s). \<not> span_ended w sp"
    using None by (auto simp: position_None spans_iter_def span_ended_def)
  ultimately show ?thesis by simp
next
  case (Some k)
  let ?it = "iter_prior (ss_last_start s) (ss_span_index s) (ss_prior s)"
  have ok: "iter_ok (ss_last_start s) (ss_span_index s) (ss_prior s)"
    using assms by (simp add: spans_wf_iter_ok)
  have k: "k < length (ss_prior s)" using position_Some [OF Some] by (simp add: spans_iter_def)
  have len: "length (ss_prior s) \<le> ss_span_index s" using assms by (simp add: spans_wf_def)
  have f: "filter (\<lambda>sp. \<not> span_ended w sp) ?it = take k ?it"
    using position_ended [OF ok, of w] Some by (simp add: spans_iter_def)
  have idx: "map sp_index ?it = rev [ss_span_index s - length (ss_prior s)..<ss_span_index s]"
    by (rule iter_prior_indices [OF ok])
  have d: "distinct (map sp_index ?it)" unfolding idx by simp
  have ended: "{sp \<in> set ?it. span_ended w sp} = set (drop k ?it)"
  proof -
    have dis: "set (take k ?it) \<inter> set (drop k ?it) = {}"
      using d by (intro set_take_disj_set_drop_if_distinct) (auto simp: distinct_map)
    have un: "set ?it = set (take k ?it) \<union> set (drop k ?it)"
      by (metis append_take_drop_id set_append)
    have "set (take k ?it) = {sp \<in> set ?it. \<not> span_ended w sp}"
      by (simp only: f [symmetric] set_filter)
    then show ?thesis using dis un by blast
  qed
  have "sp_index ` set (drop k ?it) = set (drop k (map sp_index ?it))"
    by (simp add: drop_map)
  also have "\<dots> = {ss_span_index s - length (ss_prior s)..<ss_span_index s - k}"
    unfolding idx using k len by (simp add: drop_rev take_upt)
  finally have "sp_index ` {sp \<in> set ?it. span_ended w sp}
      = {ss_span_index s - length (ss_prior s)..<ss_span_index s - k}"
    unfolding ended .
  moreover have "{sp \<in> set (spans_iter s). span_ended w sp} = {sp \<in> set ?it. span_ended w sp}"
    by (auto simp: spans_iter_def span_ended_def)
  ultimately show ?thesis using Some k len by (auto simp: prune_eq [OF assms])
qed

text \<open>Every era from \<open>first_start\<close> on is covered, no earlier one is.\<close>

lemma era_span_covers:
  assumes "spans_wf s"
  shows "era_span s e \<noteq> None \<longleftrightarrow> first_start s \<le> e"
proof (cases "ss_last_start s \<le> e")
  case True
  then show ?thesis
    by (auto simp: era_span_def spans_iter_def contains_era_def first_start_def)
next
  case False
  then show ?thesis
    using iter_prior_find [of "ss_last_start s" "ss_span_index s" "ss_prior s" e] assms
    by (auto simp: era_span_def spans_iter_def contains_era_def first_start_def spans_wf_iter_ok)
qed

lemma era_span_index:
  assumes "spans_wf s" and "era_span s e = Some sp"
  shows "sp_index sp = ss_span_index s \<longleftrightarrow> ss_last_start s \<le> e"
proof (cases "ss_last_start s \<le> e")
  case True
  then show ?thesis using assms(2) by (auto simp: era_span_def spans_iter_def contains_era_def)
next
  case False
  let ?it = "iter_prior (ss_last_start s) (ss_span_index s) (ss_prior s)"
  have "sp \<in> set ?it" using assms(2) False
    by (auto simp: era_span_def spans_iter_def contains_era_def find_Some_iff)
  then have "sp_index sp \<in> set (map sp_index ?it)" by simp
  then have "sp_index sp < ss_span_index s"
    using assms(1) by (simp add: iter_prior_indices spans_wf_iter_ok del: set_map)
  then show ?thesis using False by simp
qed

section \<open>The properties of the spans\<close>

text \<open>Pruning against a window keeps the ongoing span and exactly the earlier spans that end after
  the window start, reports exactly the indices of the dropped ones, and keeps the invariant under
  which none of the plain \<open>u32\<close> operations wraps.\<close>

theorem prune_exact:
  assumes wf: "spans_wf s" and w: "w < 2 ^ 32"
  shows "spans_wf (fst (prune w s)) \<and>
    map sp_index (spans_iter (fst (prune w s))) =
      map sp_index (filter (\<lambda>sp. \<not> span_ended w sp) (spans_iter s)) \<and>
    (case snd (prune w s) of
       None \<Rightarrow> \<forall>sp \<in> set (spans_iter s). \<not> span_ended w sp
     | Some (a, b) \<Rightarrow> a < b \<and> {a..<b} = sp_index ` {sp \<in> set (spans_iter s). span_ended w sp})"
proof -
  have hd: "sp_index (hd (spans_iter (fst (prune w s)))) = ss_span_index s"
    by (simp add: spans_iter_def prune_eq [OF wf] split: option.splits)
  have "map sp_index (spans_iter (fst (prune w s))) =
      ss_span_index s # map sp_index (tl (spans_iter (fst (prune w s))))"
    using hd by (simp add: spans_iter_def)
  also have "\<dots> = map sp_index (filter (\<lambda>sp. \<not> span_ended w sp) (spans_iter s))"
    unfolding prune_keeps [OF wf] by (simp add: spans_iter_def span_ended_def)
  finally show ?thesis using prune_wf [OF wf w] prune_range [OF wf, of w] by blast
qed

theorem prune_exact_witness:
  "snd (prune 981 \<lparr>ss_span_index = 10, ss_last_start = 1000, ss_last_nonzero_slash = 0,
                    ss_prior = [10, 9, 8, 10]\<rparr>) = Some (6, 8) \<and>
   spans_wf (fst (prune 981 \<lparr>ss_span_index = 10, ss_last_start = 1000, ss_last_nonzero_slash = 0,
                    ss_prior = [10, 9, 8, 10]\<rparr>))"
proof -
  have "snd (prune 981 \<lparr>ss_span_index = 10, ss_last_start = 1000, ss_last_nonzero_slash = 0,
                    ss_prior = [10, 9, 8, 10]\<rparr>) = Some (6, 8)"
    by (simp add: prune_def spans_iter_def iter_prior.simps Let_def sub_w_def add_w_def span_ended_def)
  then show ?thesis
    using prune_exact [of "\<lparr>ss_span_index = 10, ss_last_start = 1000, ss_last_nonzero_slash = 0,
                    ss_prior = [10, 9, 8, 10]\<rparr>" 981] by (simp add: spans_wf_def)
qed

text \<open>Ending a span and looking eras up: the spans tile the eras from \<open>first_start\<close> on, so an era is
  found exactly when it is not older; the era of the slash that ends a span, and every later one up
  to now, leave the current span, and eras that were covered stay covered.\<close>

theorem end_span_closes:
  assumes wf: "spans_wf s" and now: "now + 1 < 2 ^ 32"
  shows "spans_wf (fst (end_span now s)) \<and>
    (era_span (fst (end_span now s)) e \<noteq> None \<longleftrightarrow> era_span s e \<noteq> None) \<and>
    (e \<le> now \<longrightarrow> snd (end_span now s) \<longrightarrow>
       map_option sp_index (era_span (fst (end_span now s)) e)
         \<noteq> Some (ss_span_index (fst (end_span now s))))"
proof -
  let ?t = "fst (end_span now s)"
  note t = end_span_wf(1) [OF wf now]
  have f: "snd (end_span now s) \<Longrightarrow> ss_last_start ?t = now + 1" and "first_start ?t = first_start s"
    using wf now
    by (auto simp: end_span_def Let_def first_start_def spans_wf_def add_w_eq sub_w_eq split: if_splits)
  moreover have "e \<le> now \<Longrightarrow> snd (end_span now s) \<Longrightarrow>
      map_option sp_index (era_span ?t e) \<noteq> Some (ss_span_index ?t)"
    using era_span_index [OF t] f by fastforce
  ultimately show ?thesis using t era_span_covers [OF t] era_span_covers [OF wf] by metis
qed

theorem end_span_closes_witness:
  "map_option sp_index (era_span (fst (end_span 15 (spans_new 10))) 12)
     \<noteq> Some (ss_span_index (fst (end_span 15 (spans_new 10))))"
  using end_span_closes [of "spans_new 10" 15 12] spans_new_wf [of 10]
  by (simp add: end_span_def spans_new_def add_w_def)

end
