(* ===== verification/Arith.thy ===== *)
theory Arith
  imports Prelude
begin

text \<open>
  The fixed-point types of \<open>sp_arithmetic\<close> (a third-party crate) as parameters of the model.

  A \<open>PerThing\<close> value (\<open>Perbill\<close>, \<open>Perquintill\<close>) is its number of parts, from 0 to the type's
  accuracy \<open>one\<close>; the operations the code calls are the fields of \<open>perthing\<close>. A \<open>FixedU128\<close> or
  \<open>FixedU64\<close> value is its inner integer, with denominator \<open>10 ^ 18\<close> or \<open>10 ^ 9\<close>. The predicates
  \<open>perthing_ok\<close> and \<open>fixed_ok\<close> state their documented behaviour; \<open>perthing_ref\<close> and \<open>fixed_ref\<close>
  are concrete functions with that behaviour.
\<close>

record perthing =
  pt_from_rational :: "nat \<Rightarrow> nat \<Rightarrow> nat"
  pt_from_rational_up :: "nat \<Rightarrow> nat \<Rightarrow> nat option"
  pt_mul :: "nat \<Rightarrow> nat \<Rightarrow> nat"
  pt_mul_floor :: "nat \<Rightarrow> nat \<Rightarrow> nat"
  pt_mul_ceil :: "nat \<Rightarrow> nat \<Rightarrow> nat"

abbreviation perbill_one :: nat where "perbill_one \<equiv> 1000000000"
abbreviation perquintill_one :: nat where "perquintill_one \<equiv> 1000000000000000000"

definition ceil_div :: "nat \<Rightarrow> nat \<Rightarrow> nat" where
  "ceil_div a b = (a + (b - 1)) div b"

text \<open>
  \<open>from_rational(p, q)\<close> saturates at one, reaches one exactly from \<open>q \<le> p\<close> on, and never exceeds the
  exact fraction; \<open>from_rational_with_rounding(p, q, Up)\<close> fails when \<open>q = 0\<close> or \<open>q < p\<close> and rounds up
  otherwise; \<open>*\<close> rounds to a neighbour of the exact product and never exceeds its right operand;
  \<open>mul_floor\<close> and \<open>mul_ceil\<close> round down and up.
\<close>

definition perthing_ok :: "nat \<Rightarrow> perthing \<Rightarrow> bool" where
  "perthing_ok one P \<longleftrightarrow> 0 < one \<and>
     (\<forall>p q. pt_from_rational P p q \<le> one) \<and>
     (\<forall>p q. q \<le> p \<longrightarrow> pt_from_rational P p q = one) \<and>
     (\<forall>p q. p < q \<longrightarrow> pt_from_rational P p q * q \<le> p * one) \<and>
     (\<forall>p q. pt_from_rational_up P p q =
        (if q = 0 \<or> q < p then None else Some (ceil_div (p * one) q))) \<and>
     (\<forall>r x. r \<le> one \<longrightarrow> pt_mul P r x \<le> x \<and> r * x div one \<le> pt_mul P r x \<and>
            pt_mul P r x \<le> ceil_div (r * x) one) \<and>
     (\<forall>r x. r \<le> one \<longrightarrow> pt_mul_floor P r x = r * x div one) \<and>
     (\<forall>r x. r \<le> one \<longrightarrow> pt_mul_ceil P r x = ceil_div (r * x) one)"

definition perthing_ref :: "nat \<Rightarrow> perthing" where
  "perthing_ref one =
     \<lparr>pt_from_rational = (\<lambda>p q. if q \<le> p then one else p * one div q),
      pt_from_rational_up = (\<lambda>p q. if q = 0 \<or> q < p then None else Some (ceil_div (p * one) q)),
      pt_mul = (\<lambda>r x. r * x div one),
      pt_mul_floor = (\<lambda>r x. r * x div one),
      pt_mul_ceil = (\<lambda>r x. ceil_div (r * x) one)\<rparr>"

lemma ceil_div_ge: "0 < b \<Longrightarrow> a \<le> ceil_div a b * b"
proof -
  assume b: "0 < b"
  have "a + (b - 1) = ceil_div a b * b + (a + (b - 1)) mod b"
    by (simp add: ceil_div_def)
  moreover have "(a + (b - 1)) mod b \<le> b - 1" using b by (simp add: less_Suc_eq_le [symmetric])
  ultimately show ?thesis by linarith
qed

lemma ceil_div_le: "0 < b \<Longrightarrow> a \<le> c * b \<Longrightarrow> ceil_div a b \<le> c"
proof -
  assume b: "0 < b" and a: "a \<le> c * b"
  have "ceil_div a b \<le> (c * b + (b - 1)) div b"
    unfolding ceil_div_def by (rule div_le_mono) (use a in simp)
  also have "\<dots> = c" using b by (intro div_nat_eqI) (auto simp: mult.commute [of c b])
  finally show ?thesis .
qed

lemma div_le_ceil_div: "a div b \<le> ceil_div a b"
  unfolding ceil_div_def by (rule div_le_mono) simp

lemma perthing_ref_ok:
  assumes "0 < one"
  shows "perthing_ok one (perthing_ref one)"
proof -
  have a: "p * one div q \<le> one" if "p < q" for p q
    using that assms by (intro order.strict_implies_order less_mult_imp_div_less)
      (simp add: mult.commute)
  have b: "r * x div one \<le> x" if "r \<le> one" for r x
    using div_le_mono [OF mult_le_mono1 [OF that, of x], of one] assms by simp
  show ?thesis
    using assms a b by (auto simp: perthing_ok_def perthing_ref_def div_le_ceil_div)
qed

lemma perthing_okD:
  assumes "perthing_ok one P"
  shows "0 < one"
    and "pt_from_rational P p q \<le> one"
    and "q \<le> p \<Longrightarrow> pt_from_rational P p q = one"
    and "p < q \<Longrightarrow> pt_from_rational P p q * q \<le> p * one"
    and "pt_from_rational_up P p q = (if q = 0 \<or> q < p then None else Some (ceil_div (p * one) q))"
    and "r \<le> one \<Longrightarrow> pt_mul P r x \<le> x"
    and "r \<le> one \<Longrightarrow> pt_mul P r x \<le> ceil_div (r * x) one"
    and "r \<le> one \<Longrightarrow> r * x div one \<le> pt_mul P r x"
    and "r \<le> one \<Longrightarrow> pt_mul_floor P r x = r * x div one"
    and "r \<le> one \<Longrightarrow> pt_mul_ceil P r x = ceil_div (r * x) one"
  using assms by (simp_all add: perthing_ok_def)

lemma pt_mul_one:
  assumes "perthing_ok one P"
  shows "pt_mul P one x = x" and "pt_mul_ceil P one x = x" and "pt_mul_floor P one x = x"
proof -
  have one: "0 < one" by (rule perthing_okD(1) [OF assms])
  show "pt_mul P one x = x"
    using perthing_okD(6,8) [OF assms, of one x] one by simp
  show "pt_mul_ceil P one x = x"
    using perthing_okD(10) [OF assms, of one x] one
      ceil_div_le [of one "one * x" x] div_le_ceil_div [of "one * x" one] by simp
  show "pt_mul_floor P one x = x" using perthing_okD(9) [OF assms, of one x] one by simp
qed

text \<open>The operations of \<open>FixedU128\<close> and \<open>FixedU64\<close> on the inner integer.\<close>

record fixed =
  fx_saturating_mul_int :: "nat \<Rightarrow> nat \<Rightarrow> nat"
  fx_checked_from_rational :: "nat \<Rightarrow> nat \<Rightarrow> nat option"
  fx_reciprocal :: "nat \<Rightarrow> nat option"

text \<open>
  \<open>saturating_mul_int\<close> multiplies by an integer and drops the fraction, saturating at the integer
  type; \<open>checked_from_rational\<close> fails on a zero denominator or a result that does not fit;
  \<open>reciprocal\<close> is the checked division of one by the value and never exceeds the exact quotient.
\<close>

definition fixed_ok :: "nat \<Rightarrow> nat \<Rightarrow> fixed \<Rightarrow> bool" where
  "fixed_ok w den F \<longleftrightarrow>
     (\<forall>r x. fx_saturating_mul_int F r x = min (r * x div den) (max_w 128)) \<and>
     (\<forall>p q. q = 0 \<longrightarrow> fx_checked_from_rational F p q = None) \<and>
     (\<forall>p q r. fx_checked_from_rational F p q = Some r \<longrightarrow> r * q \<le> p * den + q \<and> r \<le> max_w w) \<and>
     fx_reciprocal F 0 = None \<and>
     (\<forall>r q. fx_reciprocal F r = Some q \<longrightarrow> q * r \<le> den * den)"

definition fixed_ref :: "nat \<Rightarrow> nat \<Rightarrow> fixed" where
  "fixed_ref w den =
     \<lparr>fx_saturating_mul_int = (\<lambda>r x. min (r * x div den) (max_w 128)),
      fx_checked_from_rational = (\<lambda>p q.
        if q = 0 \<or> max_w w < p * den div q then None else Some (p * den div q)),
      fx_reciprocal = (\<lambda>r. if r = 0 \<or> max_w w < den * den div r then None
                           else Some (den * den div r))\<rparr>"

lemma fixed_okD:
  assumes "fixed_ok w den F"
  shows "fx_saturating_mul_int F r x = min (r * x div den) (max_w 128)"
    and "fx_checked_from_rational F p 0 = None"
    and "fx_checked_from_rational F p q = Some r \<Longrightarrow> r * q \<le> p * den + q \<and> r \<le> max_w w"
    and "fx_reciprocal F 0 = None"
    and "fx_reciprocal F r = Some q \<Longrightarrow> q * r \<le> den * den"
  using assms by (simp_all add: fixed_ok_def)

lemma fixed_ref_ok: "fixed_ok w d (fixed_ref w d)"
  by (auto simp: fixed_ok_def fixed_ref_def intro: order_trans [OF div_times_less_eq_dividend] split: if_splits)

end
