(* ===== verification/Ledger.thy ===== *)
theory Ledger
  imports Arith
begin

text \<open>
  The staking ledger of \<open>pallets/energy-generation/src/lib.rs\<close>: its unlocking chunks, the
  consolidation of old chunks, rebonding, and the proportional slash \<open>slash_stake\<close>; the records of
  cooperations, exposures and pending slashes; and the disabling strategy.

  The listeners of \<open>slash_stake\<close> (\<open>T::EventListeners::on_slash\<close>) are outside \<open>src/\<close>: the map of
  slashed chunks they receive is part of the function's result.
\<close>

record unlock_chunk =
  uc_value :: balance
  uc_era :: era

record ledger =
  l_stash :: account
  l_total :: balance
  l_active :: balance
  l_unlocking :: "unlock_chunk list"
  l_claimed :: "era list"

definition ledger_default_from :: "account \<Rightarrow> ledger" where
  "ledger_default_from stash =
     \<lparr>l_stash = stash, l_total = 0, l_active = 0, l_unlocking = [], l_claimed = []\<rparr>"

section \<open>Consolidating and rebonding\<close>

text \<open>The filter closure runs over the chunks in order and subtracts each dropped value from \<open>total\<close>.\<close>

fun consolidate_chunks :: "era \<Rightarrow> unlock_chunk list \<Rightarrow> balance \<Rightarrow> unlock_chunk list \<times> balance" where
  "consolidate_chunks current_era [] tot = ([], tot)"
| "consolidate_chunks current_era (c # cs) tot =
     (if current_era < uc_era c
      then let (cs', tot') = consolidate_chunks current_era cs tot in (c # cs', tot')
      else consolidate_chunks current_era cs (tot - uc_value c))"

definition consolidate_unlocked :: "era \<Rightarrow> ledger \<Rightarrow> ledger" where
  "consolidate_unlocked current_era l =
     (let (unlocking, tot) = consolidate_chunks current_era (l_unlocking l) (l_total l)
      in l\<lparr>l_total := tot, l_unlocking := unlocking\<rparr>)"

text \<open>
  The \<open>while let\<close> of \<open>rebond\<close>, over the chunks with the last one first. In the \<open>else\<close> branch the
  balance reaches \<open>value\<close>, so the loop breaks right after it (\<open>rebond_else_breaks\<close>).
\<close>

fun rebond_loop ::
  "balance \<Rightarrow> unlock_chunk list \<Rightarrow> balance \<Rightarrow> balance \<Rightarrow> unlock_chunk list \<times> balance \<times> balance" where
  "rebond_loop value [] unlocking_balance active = ([], unlocking_balance, active)"
| "rebond_loop value (c # cs) unlocking_balance active =
     (if add_w 128 unlocking_balance (uc_value c) \<le> value
      then let unlocking_balance = add_w 128 unlocking_balance (uc_value c);
               active = add_w 128 active (uc_value c)
           in if value \<le> unlocking_balance then (cs, unlocking_balance, active)
              else rebond_loop value cs unlocking_balance active
      else let diff = sub_w 128 value unlocking_balance
           in (c\<lparr>uc_value := sub_w 128 (uc_value c) diff\<rparr> # cs,
               add_w 128 unlocking_balance diff, add_w 128 active diff))"

definition ledger_rebond :: "balance \<Rightarrow> ledger \<Rightarrow> ledger \<times> balance" where
  "ledger_rebond value l =
     (let (unlocking, unlocking_balance, active) =
            rebond_loop value (rev (l_unlocking l)) 0 (l_active l)
      in (l\<lparr>l_active := active, l_unlocking := rev unlocking\<rparr>, unlocking_balance))"

section \<open>Slashing the ledger\<close>

text \<open>The closure \<open>slash_out_of\<close>: the new target, remaining slash and total.\<close>

definition slash_out_of ::
  "perthing \<Rightarrow> balance \<Rightarrow> nat option \<Rightarrow> balance \<Rightarrow> balance \<Rightarrow> balance
   \<Rightarrow> balance \<times> balance \<times> balance" where
  "slash_out_of Q minimum_balance ratio target slash_remaining tot =
     (let slash_from_target =
            min (min (case ratio of Some r \<Rightarrow> pt_mul_ceil Q r target | None \<Rightarrow> slash_remaining) target)
                slash_remaining;
          target' = target - slash_from_target;
          (target'', slash_from_target') =
            (if target' < minimum_balance then (0, sat_add 128 target' slash_from_target)
             else (target', slash_from_target))
      in (target'', slash_remaining - slash_from_target', tot - slash_from_target'))"

fun slash_chunks ::
  "perthing \<Rightarrow> balance \<Rightarrow> nat option \<Rightarrow> nat list \<Rightarrow> unlock_chunk list \<Rightarrow> balance \<Rightarrow> balance
   \<Rightarrow> (era \<rightharpoonup> balance) \<Rightarrow> unlock_chunk list \<times> balance \<times> balance \<times> (era \<rightharpoonup> balance)" where
  "slash_chunks Q mb ratio [] chunks remaining tot slashed = (chunks, remaining, tot, slashed)"
| "slash_chunks Q mb ratio (i # is) chunks remaining tot slashed =
     (if remaining = 0 then (chunks, remaining, tot, slashed)
      else if i < length chunks then
        let (value, remaining', tot') =
              slash_out_of Q mb ratio (uc_value (chunks ! i)) remaining tot
        in slash_chunks Q mb ratio is (chunks[i := (chunks ! i)\<lparr>uc_value := value\<rparr>])
             remaining' tot' (slashed(uc_era (chunks ! i) \<mapsto> value))
      else (chunks, remaining, tot, slashed))"

text \<open>The pair \<open>(maybe_proportional, slash_chunks_priority)\<close>.\<close>

definition slash_plan ::
  "perthing \<Rightarrow> nat \<Rightarrow> balance \<Rightarrow> era \<Rightarrow> ledger \<Rightarrow> nat option \<times> nat list" where
  "slash_plan Q one slash_amount slashable_chunks_start l =
     (case position (\<lambda>c. slashable_chunks_start \<le> uc_era c) (l_unlocking l) of
        Some first_slashable_index \<Rightarrow>
          let affected_indices = [first_slashable_index..<length (l_unlocking l)];
              unbonding_affected_balance =
                foldl (\<lambda>sum i. sat_add 128 sum (uc_value (l_unlocking l ! i))) 0 affected_indices;
              affected_balance = sat_add 128 (l_active l) unbonding_affected_balance;
              ratio = unwrap_or one (pt_from_rational_up Q slash_amount affected_balance)
          in (Some ratio, affected_indices @ rev [0..<first_slashable_index])
      | None \<Rightarrow> (None, rev [0..<length (l_unlocking l)]))"

definition slash_stake ::
  "perthing \<Rightarrow> nat \<Rightarrow> era \<Rightarrow> balance \<Rightarrow> balance \<Rightarrow> era \<Rightarrow> ledger
   \<Rightarrow> ledger \<times> balance \<times> (era \<rightharpoonup> balance)" where
  "slash_stake Q one bonding_duration slash_amount minimum_balance slash_era l =
     (if slash_amount = 0 then (l, 0, Map.empty)
      else
        let pre_slash_total = l_total l;
            (ratio, priority) =
              slash_plan Q one slash_amount (add_w 32 slash_era bonding_duration) l;
            (active, remaining, tot) =
              slash_out_of Q minimum_balance ratio (l_active l) slash_amount (l_total l);
            (unlocking, remaining', tot', slashed) =
              slash_chunks Q minimum_balance ratio priority (l_unlocking l) remaining tot Map.empty
        in (l\<lparr>l_active := active, l_total := tot',
              l_unlocking := filter (\<lambda>c. uc_value c \<noteq> 0) unlocking\<rparr>,
            pre_slash_total - tot', slashed))"

section \<open>Cooperations, exposures and pending slashes\<close>

record cooperations =
  co_targets :: "(account \<times> balance) list"
  co_submitted_in :: era
  co_suppressed :: bool

definition cooperations_total :: "cooperations \<Rightarrow> balance" where
  "cooperations_total c = sat_sum 128 (map snd (co_targets c))"

record individual_exposure =
  ie_who :: account
  ie_value :: balance

record exposure =
  ex_total :: balance
  ex_own :: balance
  ex_others :: "individual_exposure list"

definition exposure_default :: exposure where
  "exposure_default = \<lparr>ex_total = 0, ex_own = 0, ex_others = []\<rparr>"

section \<open>The disabling strategy\<close>

text \<open>\<open>UpToLimitDisablingStrategy\<close>; a zero factor reports a defensive failure and gives 0.\<close>

definition disable_limit :: "nat \<Rightarrow> nat \<Rightarrow> nat" where
  "disable_limit factor validators_len = unwrap_or 0 (checked_div (validators_len - 1) factor)"

definition up_to_limit_decision ::
  "nat \<Rightarrow> account list \<Rightarrow> era option \<Rightarrow> account \<Rightarrow> era \<Rightarrow> nat list \<Rightarrow> nat option" where
  "up_to_limit_decision factor active_set active_era offender_stash slash_era currently_disabled =
     (if disable_limit factor (length active_set) \<le> length currently_disabled then None
      else if slash_era < unwrap_or 0 active_era then None
      else position (\<lambda>i. i = offender_stash) active_set)"

section \<open>The ledger invariant\<close>

text \<open>
  \<open>total\<close> is \<open>active\<close> plus all the \<open>unlocking\<close> values (\<open>check_ledgers\<close> of \<open>do_try_state\<close>), and it
  fits in a balance.
\<close>

abbreviation chunk_sum :: "unlock_chunk list \<Rightarrow> balance" where
  "chunk_sum cs \<equiv> sum_list (map uc_value cs)"

definition ledger_ok :: "ledger \<Rightarrow> bool" where
  "ledger_ok l \<longleftrightarrow> l_total l = l_active l + chunk_sum (l_unlocking l) \<and> l_total l \<le> max_w 128"

lemma ledger_default_ok [simp]: "ledger_ok (ledger_default_from a)"
  by (simp add: ledger_ok_def ledger_default_from_def)

lemma chunk_sum_filter:
  "chunk_sum cs = chunk_sum (filter P cs) + chunk_sum (filter (\<lambda>c. \<not> P c) cs)"
  by (induction cs) auto

lemma consolidate_chunks_eq:
  "consolidate_chunks e cs t =
     (filter (\<lambda>c. e < uc_era c) cs, t - chunk_sum (filter (\<lambda>c. \<not> e < uc_era c) cs))"
  by (induction e cs t rule: consolidate_chunks.induct) (auto split: prod.splits)

lemma consolidate_unlocked_spec:
  assumes "ledger_ok l"
  shows "ledger_ok (consolidate_unlocked e l)"
    and "l_active (consolidate_unlocked e l) = l_active l"
    and "l_unlocking (consolidate_unlocked e l) = filter (\<lambda>c. e < uc_era c) (l_unlocking l)"
    and "l_total l = l_total (consolidate_unlocked e l)
           + chunk_sum (filter (\<lambda>c. uc_era c \<le> e) (l_unlocking l))"
  using assms chunk_sum_filter [of "l_unlocking l" "\<lambda>c. e < uc_era c"]
  by (auto simp: ledger_ok_def consolidate_unlocked_def consolidate_chunks_eq not_less)

lemma rebond_loop_spec:
  assumes "rebond_loop v cs u a = (cs', u', a')" and "u \<le> v" and "v \<le> max_w 128"
    and "u + chunk_sum cs \<le> max_w 128" and "a + chunk_sum cs \<le> max_w 128"
  shows "u' = min v (u + chunk_sum cs) \<and> a' + u = a + u' \<and> chunk_sum cs' + u' = chunk_sum cs + u"
  using assms
proof (induction v cs u a rule: rebond_loop.induct)
  case (1 v u a)
  then show ?case by simp
next
  case (2 v c cs u a)
  from 2(5,6) have nw: "u + uc_value c < 2 ^ 128" "a + uc_value c < 2 ^ 128"
    by (simp_all only: le_max_w_iff list.map sum_list.Cons)
  show ?case
  proof (cases "u + uc_value c \<le> v")
    case take: True
    show ?thesis
    proof (cases "v \<le> u + uc_value c")
      case True
      with 2(2) take nw show ?thesis by (auto simp: add_w_eq)
    next
      case False
      with 2(2) take nw
      have "rebond_loop v cs (u + uc_value c) (a + uc_value c) = (cs', u', a')"
        by (simp add: add_w_eq)
      with 2(1) [OF _ refl refl] False take 2(4-6) nw show ?thesis
        by (auto simp: add_w_eq add.assoc)
    qed
  next
    case False
    have d: "sub_w 128 v u = v - u" using 2(3,4) by (simp add: sub_w_eq le_max_w_iff)
    have e: "sub_w 128 (uc_value c) (v - u) = uc_value c - (v - u)"
      using False nw by (intro sub_w_eq) linarith+
    have f: "add_w 128 u (v - u) = v" "add_w 128 a (v - u) = a + (v - u)"
      using False nw 2(3) by (simp_all add: add_w_eq)
    from 2(2) False nw 2(3) show ?thesis by (auto simp: d e f add_w_eq)
  qed
qed

text \<open>
  \<open>rebond\<close> moves exactly \<open>min value (all unlocking)\<close> from the chunks to the active balance and
  keeps the total.
\<close>

lemma ledger_rebond_spec:
  assumes "ledger_ok l" and "v \<le> max_w 128" and "ledger_rebond v l = (l', u)"
  shows "u = min v (chunk_sum (l_unlocking l))" and "l_active l' = l_active l + u"
    and "chunk_sum (l_unlocking l') = chunk_sum (l_unlocking l) - u"
    and "l_total l' = l_total l" and "ledger_ok l'"
proof -
  obtain cs u' a where r: "rebond_loop v (rev (l_unlocking l)) 0 (l_active l) = (cs, u', a)"
    by (cases "rebond_loop v (rev (l_unlocking l)) 0 (l_active l)")
  have s: "chunk_sum (rev (l_unlocking l)) = chunk_sum (l_unlocking l)" for l
    by (simp add: rev_map [symmetric])
  have "u' = min v (chunk_sum (l_unlocking l)) \<and> a = l_active l + u' \<and>
        chunk_sum cs + u' = chunk_sum (l_unlocking l)"
    using rebond_loop_spec [OF r] assms(1,2) by (auto simp: s ledger_ok_def)
  moreover have "l' = l\<lparr>l_active := a, l_unlocking := rev cs\<rparr>" "u = u'"
    using assms(3) r by (auto simp: ledger_rebond_def)
  ultimately show "u = min v (chunk_sum (l_unlocking l))" and "l_active l' = l_active l + u"
    and "chunk_sum (l_unlocking l') = chunk_sum (l_unlocking l) - u"
    and "l_total l' = l_total l" and "ledger_ok l'"
    using assms(1) by (auto simp: ledger_ok_def rev_map [symmetric])
qed

section \<open>Proportional slashing\<close>

text \<open>What a slash means to take of a target when enough of it remains.\<close>

definition slash_want :: "perthing \<Rightarrow> nat option \<Rightarrow> balance \<Rightarrow> balance" where
  "slash_want Q ratio t = (case ratio of Some r \<Rightarrow> min (pt_mul_ceil Q r t) t | None \<Rightarrow> t)"

lemma slash_out_of_spec:
  assumes "slash_out_of Q mb ratio t r tot = (t', r', tot')" and "t \<le> max_w 128"
  shows "t' \<le> t" and "r' = r - (t - t')" and "tot' = tot - (t - t')"
    and "t - t' \<le> r + (mb - 1)" and "r' = 0 \<or> slash_want Q ratio t \<le> t - t'"
proof -
  define s where "s = min (min (case ratio of Some q \<Rightarrow> pt_mul_ceil Q q t | None \<Rightarrow> r) t) r"
  have s: "s \<le> t" "s \<le> r" by (simp_all add: s_def)
  have sat: "sat_add 128 (t - s) s = t" using s assms(2) by (simp add: sat_add_def)
  have cs: "(t - s < mb \<and> t' = 0 \<and> r' = r - t \<and> tot' = tot - t) \<or>
            (mb \<le> t - s \<and> t' = t - s \<and> r' = r - s \<and> tot' = tot - s)"
    using assms(1) sat by (auto simp: slash_out_of_def Let_def s_def [symmetric] split: if_splits)
  show "t' \<le> t" and "r' = r - (t - t')" and "tot' = tot - (t - t')" and "t - t' \<le> r + (mb - 1)"
    using cs s by auto
  have w: "s < r \<longrightarrow> slash_want Q ratio t \<le> s"
    by (auto simp: s_def slash_want_def split: option.splits)
  show "r' = 0 \<or> slash_want Q ratio t \<le> t - t'"
    using cs s w by (auto simp: slash_want_def split: option.splits)
qed

lemma chunk_sum_nth: "chunk_sum cs = (\<Sum>i<length cs. uc_value (cs ! i))"
  by (simp add: sum_list_sum_nth atLeast0LessThan)

lemma nth_le_chunk_sum: "i < length cs \<Longrightarrow> uc_value (cs ! i) \<le> chunk_sum cs"
  using elem_le_sum_list [of i "map uc_value cs"] by simp

lemma chunk_sum_update:
  "i < length cs \<Longrightarrow> v \<le> uc_value (cs ! i) \<Longrightarrow>
   chunk_sum (cs[i := (cs ! i)\<lparr>uc_value := v\<rparr>]) + uc_value (cs ! i) = chunk_sum cs + v"
proof (induction cs arbitrary: i)
  case (Cons c cs)
  then show ?case by (cases i) auto
qed simp

text \<open>
  The loop over the chunks: nothing but the visited values changes, each value only falls, what is
  taken leaves the remaining slash and the total, and unless the remaining slash is used up every
  visited chunk has given at least what was wanted of it.
\<close>

lemma slash_chunks_spec:
  assumes "slash_chunks Q mb ratio is cs r tot m = (cs', r', tot', m')"
    and "chunk_sum cs \<le> max_w 128" and "distinct is" and "set is \<subseteq> {..<length cs}"
  shows "length cs' = length cs \<and> map uc_era cs' = map uc_era cs \<and>
    (\<forall>i < length cs. uc_value (cs' ! i) \<le> uc_value (cs ! i)) \<and>
    (\<forall>i. i < length cs \<and> i \<notin> set is \<longrightarrow> cs' ! i = cs ! i) \<and>
    chunk_sum cs' \<le> chunk_sum cs \<and> r' = r - (chunk_sum cs - chunk_sum cs') \<and>
    tot' = tot - (chunk_sum cs - chunk_sum cs') \<and>
    (chunk_sum cs' < chunk_sum cs \<longrightarrow> chunk_sum cs - chunk_sum cs' \<le> r + (mb - 1)) \<and>
    (r' = 0 \<or> (\<forall>i \<in> set is. slash_want Q ratio (uc_value (cs ! i))
                              \<le> uc_value (cs ! i) - uc_value (cs' ! i)))"
  using assms
proof (induction Q mb ratio "is" cs r tot m rule: slash_chunks.induct)
  case (1 Q mb ratio cs r tot m)
  then show ?case by auto
next
  case (2 Q mb ratio i js cs r tot m)
  show ?case
  proof (cases "r = 0")
    case True
    with 2 show ?thesis by auto
  next
    case False
    have i: "i < length cs" "i \<notin> set js" "distinct js" using 2(4,5) by auto
    obtain v r1 t1 where o: "slash_out_of Q mb ratio (uc_value (cs ! i)) r tot = (v, r1, t1)"
      by (cases "slash_out_of Q mb ratio (uc_value (cs ! i)) r tot")
    let ?c = "(cs ! i)\<lparr>uc_value := v\<rparr>"
    let ?cs = "cs[i := ?c]"
    have le: "uc_value (cs ! i) \<le> max_w 128"
      using nth_le_chunk_sum [OF i(1)] 2(3) by (rule order_trans)
    note sp = slash_out_of_spec [OF o le]
    have u: "chunk_sum ?cs + (uc_value (cs ! i) - v) = chunk_sum cs"
      using chunk_sum_update [OF i(1) sp(1)] sp(1) by linarith
    have ch: "slash_chunks Q mb ratio js ?cs r1 t1 (m(uc_era (cs ! i) \<mapsto> v)) = (cs', r', tot', m')"
      using 2(2) False i(1) o by (simp add: Let_def)
    have sub: "chunk_sum ?cs \<le> max_w 128" "set js \<subseteq> {..<length ?cs}"
      using u 2(3) 2(5) by (auto simp del: map_update)
    note IH = 2(1) [OF False i(1) o [symmetric] refl refl ch sub(1) i(3) sub(2)]
    have eras: "map uc_era ?cs = map uc_era cs"
      by (simp add: map_update list_update_same_conv i(1))
    have ci: "cs' ! i = ?c" using IH i by auto
    have D: "chunk_sum cs - chunk_sum cs'
             = (uc_value (cs ! i) - v) + (chunk_sum ?cs - chunk_sum cs')"
      using IH u by linarith
    have r1: "chunk_sum ?cs - chunk_sum cs' \<le> r1 + (mb - 1) \<or> chunk_sum cs' = chunk_sum ?cs"
      using IH by linarith
    have stop: "r1 = 0 \<Longrightarrow> chunk_sum cs' = chunk_sum ?cs"
      using ch by (cases js) auto
    have bound: "chunk_sum cs - chunk_sum cs' \<le> r + (mb - 1)"
    proof (cases "r1 = 0")
      case True
      with stop D sp(4) show ?thesis by simp
    next
      case nz: False
      then have "r1 + (uc_value (cs ! i) - v) = r" using sp(2) by linarith
      with r1 D sp(4) show ?thesis by linarith
    qed
    have want: "r' = 0 \<or> slash_want Q ratio (uc_value (cs ! i)) \<le> uc_value (cs ! i) - uc_value (cs' ! i)"
      using sp(5) IH ci by auto
    have others: "r' = 0 \<or> (\<forall>k \<in> set js. slash_want Q ratio (uc_value (cs ! k))
                              \<le> uc_value (cs ! k) - uc_value (cs' ! k))"
    proof -
      have "?cs ! k = cs ! k" if "k \<in> set js" for k using that i(2) by (metis nth_list_update_neq)
      with IH show ?thesis by auto
    qed
    have vals: "\<forall>k < length cs. uc_value (cs' ! k) \<le> uc_value (cs ! k)"
    proof (intro allI impI)
      fix k assume k: "k < length cs"
      then have "uc_value (cs' ! k) \<le> uc_value (?cs ! k)" using IH by simp
      also have "\<dots> \<le> uc_value (cs ! k)" using sp(1) k i(1) by (cases "i = k") simp_all
      finally show "uc_value (cs' ! k) \<le> uc_value (cs ! k)" .
    qed
    have len: "length cs' = length cs \<and> map uc_era cs' = map uc_era cs"
      using IH eras by simp
    have keep: "\<forall>k. k < length cs \<and> k \<notin> set (i # js) \<longrightarrow> cs' ! k = cs ! k"
      using IH by auto
    have sums: "chunk_sum cs' \<le> chunk_sum cs" using IH u by linarith
    have rr: "r' = r - (chunk_sum cs - chunk_sum cs')"
      and tt: "tot' = tot - (chunk_sum cs - chunk_sum cs')"
      unfolding D using IH sp(2,3) by simp_all
    have all: "r' = 0 \<or> (\<forall>k \<in> set (i # js). slash_want Q ratio (uc_value (cs ! k))
                              \<le> uc_value (cs ! k) - uc_value (cs' ! k))"
      using want others by (simp del: not_less) blast
    show ?thesis
      using len keep sums rr tt vals bound all by blast
  qed
qed

text \<open>The ratio is at most one, and the affected targets together give at least the slash.\<close>

lemma slash_plan_wf:
  assumes Q: "perthing_ok one Q" and p: "slash_plan Q one amount start l = (ratio, prio)"
  shows "distinct prio" and "set prio = {..<length (l_unlocking l)}"
    and "ratio = Some r \<Longrightarrow> r \<le> one"
proof -
  have le: "ceil_div (a * one) b \<le> one" if "a \<le> b" "b \<noteq> 0" for a b
    using that by (intro ceil_div_le) (auto simp: mult.commute)
  show "distinct prio" and "set prio = {..<length (l_unlocking l)}"
    and "ratio = Some r \<Longrightarrow> r \<le> one"
    using p le perthing_okD(5) [OF Q]
    by (auto simp: slash_plan_def Let_def distinct_rev dest!: position_Some split: option.splits if_splits)
qed

lemma sum_ceil_ge:
  assumes "0 < one"
  shows "q * (\<Sum>i\<in>A. f i) \<le> (\<Sum>i\<in>A. ceil_div (q * f i) one) * one"
  unfolding sum_distrib_left sum_distrib_right
  by (rule sum_mono) (rule ceil_div_ge [OF assms])

lemma slash_want_ge:
  assumes Q: "perthing_ok one Q" and "q \<le> one"
  shows "slash_want Q (Some q) t = ceil_div (q * t) one"
proof -
  have "ceil_div (q * t) one \<le> t"
    using assms(2) perthing_okD(1) [OF Q] by (intro ceil_div_le) (auto simp: mult.commute)
  then show ?thesis by (simp add: slash_want_def perthing_okD(10) [OF Q assms(2)])
qed

text \<open>
  The wanted amounts of the active balance and of all the chunks cover \<open>min amount total\<close>: in the
  proportional case already those of the affected chunks do.
\<close>

lemma slash_want_covers:
  assumes Q: "perthing_ok one Q" and l: "ledger_ok l"
    and p: "slash_plan Q one amount start l = (ratio, prio)"
  shows "min amount (l_total l) \<le> slash_want Q ratio (l_active l)
           + (\<Sum>i < length (l_unlocking l). slash_want Q ratio (uc_value (l_unlocking l ! i)))"
    (is "_ \<le> ?w (l_active l) + (\<Sum>i < ?n. ?w (?v i))")
proof (cases ratio)
  case None
  then show ?thesis using l by (simp add: slash_want_def ledger_ok_def chunk_sum_nth)
next
  case (Some q)
  note one = perthing_okD(1) [OF Q]
  have q: "q \<le> one" by (rule slash_plan_wf(3) [OF Q p Some])
  have w: "?w t = ceil_div (q * t) one" for t using slash_want_ge [OF Q q] Some by simp
  obtain k where k: "k < ?n"
    and qdef: "q = unwrap_or one (pt_from_rational_up Q amount (sat_add 128 (l_active l)
                   (foldl (\<lambda>s i. sat_add 128 s (?v i)) 0 [k..<?n])))"
    using p Some by (auto simp: slash_plan_def Let_def dest!: position_Some split: option.splits)
  have sub: "(\<Sum>i\<in>{k..<?n}. ?v i) \<le> (\<Sum>i<?n. ?v i)" by (rule sum_mono2) auto
  have fold: "foldl (\<lambda>s i. sat_add 128 s (?v i)) 0 [k..<?n] = (\<Sum>i\<in>{k..<?n}. ?v i)"
  proof -
    have "foldl (\<lambda>s i. sat_add 128 s (?v i)) 0 [k..<?n] = foldl (sat_add 128) 0 (map ?v [k..<?n])"
      by (simp add: foldl_map)
    also have "\<dots> = (\<Sum>i\<in>{k..<?n}. ?v i)"
      using sub l by (subst foldl_sat_add)
        (auto simp: ledger_ok_def chunk_sum_nth interv_sum_list_conv_sum_set_nat intro!: min_absorb1)
    finally show ?thesis .
  qed
  define A where "A = l_active l + (\<Sum>i\<in>{k..<?n}. ?v i)"
  have A: "A \<le> l_total l" "l_total l \<le> max_w 128"
    using sub l by (auto simp: A_def ledger_ok_def chunk_sum_nth)
  have qA: "q = unwrap_or one (pt_from_rational_up Q amount A)"
    using qdef A by (simp add: fold A_def sat_add_eq)
  show ?thesis
  proof (cases "A = 0 \<or> A < amount")
    case True
    then have "q = one" using qA by (simp add: perthing_okD(5) [OF Q])
    then have "?w t = t" for t
      using pt_mul_one(2) [OF Q] Some by (simp add: slash_want_def)
    then show ?thesis using l by (simp add: ledger_ok_def chunk_sum_nth)
  next
    case False
    then have qc: "q = ceil_div (amount * one) A" using qA by (simp add: perthing_okD(5) [OF Q])
    have "amount * one \<le> q * A" using ceil_div_ge [of A "amount * one"] False qc by simp
    also have "\<dots> = q * l_active l + q * (\<Sum>i\<in>{k..<?n}. ?v i)"
      by (simp add: A_def distrib_left)
    also have "\<dots> \<le> ?w (l_active l) * one + (\<Sum>i\<in>{k..<?n}. ?w (?v i)) * one"
      unfolding w by (intro add_mono ceil_div_ge sum_ceil_ge one)
    also have "\<dots> = (?w (l_active l) + (\<Sum>i\<in>{k..<?n}. ?w (?v i))) * one"
      by (simp add: distrib_right)
    finally have "amount \<le> ?w (l_active l) + (\<Sum>i\<in>{k..<?n}. ?w (?v i))" using one by simp
    also have "\<dots> \<le> ?w (l_active l) + (\<Sum>i<?n. ?w (?v i))"
      by (intro add_left_mono sum_mono2) auto
    finally show ?thesis by simp
  qed
qed

lemma chunk_sum_nonzero: "chunk_sum (filter (\<lambda>c. 0 < uc_value c) cs) = chunk_sum cs"
  by (induction cs) auto

lemma slash_stake_spec:
  assumes Q: "perthing_ok one Q" and l: "ledger_ok l"
    and res: "slash_stake Q one bd amount mb e l = (l', s, m)"
  shows "ledger_ok l' \<and> l_total l = l_total l' + s \<and> l_active l' \<le> l_active l \<and>
         min amount (l_total l) \<le> s \<and> (s \<noteq> 0 \<longrightarrow> s \<le> amount + (mb - 1)) \<and>
         l_stash l' = l_stash l \<and> l_claimed l' = l_claimed l \<and>
         (amount \<noteq> 0 \<longrightarrow> (\<forall>c \<in> set (l_unlocking l'). uc_value c \<noteq> 0))"
proof (cases "amount = 0")
  case True
  with res l show ?thesis by (auto simp: slash_stake_def)
next
  case False
  let ?cs = "l_unlocking l"
  obtain ratio prio where p: "slash_plan Q one amount (add_w 32 e bd) l = (ratio, prio)"
    by (cases "slash_plan Q one amount (add_w 32 e bd) l")
  obtain a r1 t1 where o: "slash_out_of Q mb ratio (l_active l) amount (l_total l) = (a, r1, t1)"
    by (cases "slash_out_of Q mb ratio (l_active l) amount (l_total l)")
  obtain cs r2 t2 m' where c: "slash_chunks Q mb ratio prio ?cs r1 t1 Map.empty = (cs, r2, t2, m')"
    by (cases "slash_chunks Q mb ratio prio ?cs r1 t1 Map.empty")
  have l': "l' = l\<lparr>l_active := a, l_total := t2, l_unlocking := filter (\<lambda>c. uc_value c \<noteq> 0) cs\<rparr>"
    and s: "s = l_total l - t2"
    using res False p o c by (auto simp: slash_stake_def Let_def)
  have tot: "l_total l = l_active l + chunk_sum ?cs" "l_total l \<le> max_w 128"
    using l by (auto simp: ledger_ok_def)
  then have small: "l_active l \<le> max_w 128" "chunk_sum ?cs \<le> max_w 128" by linarith+
  note A = slash_out_of_spec [OF o small(1)]
  note wf = slash_plan_wf [OF Q p]
  have C: "length cs = length ?cs \<and> map uc_era cs = map uc_era ?cs \<and>
    (\<forall>i < length ?cs. uc_value (cs ! i) \<le> uc_value (?cs ! i)) \<and>
    (\<forall>i. i < length ?cs \<and> i \<notin> set prio \<longrightarrow> cs ! i = ?cs ! i) \<and>
    chunk_sum cs \<le> chunk_sum ?cs \<and> r2 = r1 - (chunk_sum ?cs - chunk_sum cs) \<and>
    t2 = t1 - (chunk_sum ?cs - chunk_sum cs) \<and>
    (chunk_sum cs < chunk_sum ?cs \<longrightarrow> chunk_sum ?cs - chunk_sum cs \<le> r1 + (mb - 1)) \<and>
    (r2 = 0 \<or> (\<forall>i \<in> set prio. slash_want Q ratio (uc_value (?cs ! i))
                              \<le> uc_value (?cs ! i) - uc_value (cs ! i)))"
    by (rule slash_chunks_spec [OF c small(2) wf(1)]) (simp add: wf(2))
  define D where "D = (l_active l - a) + (chunk_sum ?cs - chunk_sum cs)"
  have t2: "t2 = a + chunk_sum cs" and sD: "s = D" and Dt: "l_total l = t2 + D"
    using C A(1,3) tot by (auto simp: D_def s)
  have stop: "r1 = 0 \<longrightarrow> chunk_sum cs = chunk_sum ?cs"
    using c by (cases prio) auto
  have upper: "D \<le> amount + (mb - 1)"
  proof (cases "r1 = 0")
    case True
    then show ?thesis using stop A(4) by (simp add: D_def)
  next
    case nz: False
    then have "r1 + (l_active l - a) = amount" using A(2) by linarith
    then show ?thesis
      using C by (cases "chunk_sum cs < chunk_sum ?cs") (auto simp: D_def)
  qed
  have lower: "min amount (l_total l) \<le> D"
  proof (cases "r2 = 0")
    case True
    then have "amount \<le> D" using C A(2) by (auto simp: D_def)
    then show ?thesis by simp
  next
    case False
    then have "r1 \<noteq> 0" using C by auto
    then have wa: "slash_want Q ratio (l_active l) \<le> l_active l - a" using A(5) by simp
    have "(\<Sum>i < length ?cs. slash_want Q ratio (uc_value (?cs ! i)))
          \<le> (\<Sum>i < length ?cs. uc_value (?cs ! i) - uc_value (cs ! i))"
      using C False wf(2) by (intro sum_mono) auto
    also have "\<dots> = (\<Sum>i < length ?cs. uc_value (?cs ! i)) - (\<Sum>i < length ?cs. uc_value (cs ! i))"
      using C by (intro sum_subtractf_nat) auto
    also have "\<dots> = chunk_sum ?cs - chunk_sum cs" using C by (simp add: chunk_sum_nth)
    finally show ?thesis
      using wa slash_want_covers [OF Q l p] unfolding D_def by linarith
  qed
  show ?thesis
    using upper lower t2 sD Dt A(1) tot(2) by (auto simp: l' ledger_ok_def chunk_sum_nonzero)
qed

lemma slash_stake_le_total:
  assumes "perthing_ok one Q" and "ledger_ok l" and "slash_stake Q one bd amount mb e l = (l', s, m)"
  shows "s \<le> l_total l"
  using slash_stake_spec [OF assms] by linarith

section \<open>The properties of the ledger\<close>

text \<open>C25. Slashing a ledger takes at least the requested amount (or everything there is), overshoots it
  by less than the minimum balance, and the amount it returns is exactly what left the total; the
  ledger stays balanced and no empty chunk remains.\<close>

theorem slash_stake_bounds:
  assumes Q: "perthing_ok one Q" and l: "ledger_ok l" and amount: "0 < amount"
  shows "case slash_stake Q one bd amount mb e l of (l', s, m) \<Rightarrow>
           ledger_ok l' \<and> l_total l' + s = l_total l \<and> min amount (l_total l) \<le> s \<and>
           s \<le> amount + (mb - 1) \<and> (\<forall>c \<in> set (l_unlocking l'). uc_value c \<noteq> 0)"
proof -
  obtain l' s m where r: "slash_stake Q one bd amount mb e l = (l', s, m)"
    by (cases "slash_stake Q one bd amount mb e l")
  then show ?thesis using slash_stake_spec [OF Q l r] amount by (cases "s = 0") auto
qed

theorem slash_stake_bounds_witness:
  "case slash_stake (perthing_ref 100) 100 3 30 5 4
     \<lparr>l_stash = 1, l_total = 110, l_active = 60,
      l_unlocking = [\<lparr>uc_value = 20, uc_era = 5\<rparr>, \<lparr>uc_value = 30, uc_era = 9\<rparr>], l_claimed = []\<rparr> of (l', s, m) \<Rightarrow>
     ledger_ok l' \<and> l_total l' + s = 110 \<and> min 30 110 \<le> s \<and> s \<le> 30 + (5 - 1) \<and>
     (\<forall>c \<in> set (l_unlocking l'). uc_value c \<noteq> 0)"
proof -
  have ok: "ledger_ok \<lparr>l_stash = 1, l_total = 110, l_active = 60,
      l_unlocking = [\<lparr>uc_value = 20, uc_era = 5\<rparr>, \<lparr>uc_value = 30, uc_era = 9\<rparr>], l_claimed = []\<rparr>"
    by (simp add: ledger_ok_def max_w_def)
  show ?thesis
    using slash_stake_bounds [where bd = 3 and mb = 5 and e = 4 and amount = 30,
        OF perthing_ref_ok [of 100] ok] by simp
qed

text \<open>
  The dust rule makes the overshoot real: asked for 95 of an active balance of 100 with a minimum
  balance of 10, the slash takes all 100.
\<close>

theorem slash_stake_overshoots:
  "fst (snd (slash_stake Q one 3 95 10 4
     \<lparr>l_stash = 1, l_total = 100, l_active = 100, l_unlocking = [], l_claimed = []\<rparr>)) = 100"
  by (simp add: slash_stake_def slash_plan_def slash_out_of_def sat_add_def max_w_def)

text \<open>Rebonding moves exactly the smaller of the requested value and everything that unlocks, from
  the youngest chunks to the active balance, without changing the total; consolidating afterwards
  drops exactly the chunks whose era has come and keeps the ledger balanced.\<close>

theorem rebond_and_consolidate:
  assumes l: "ledger_ok l" and v: "v \<le> max_w 128"
  shows "case ledger_rebond v l of (l', u) \<Rightarrow>
           u = min v (chunk_sum (l_unlocking l)) \<and> l_active l' = l_active l + u \<and>
           l_total l' = l_total l \<and> ledger_ok l' \<and> ledger_ok (consolidate_unlocked e l') \<and>
           l_active (consolidate_unlocked e l') = l_active l' \<and>
           l_unlocking (consolidate_unlocked e l') = filter (\<lambda>c. e < uc_era c) (l_unlocking l')"
proof -
  obtain l' u where r: "ledger_rebond v l = (l', u)" by (cases "ledger_rebond v l")
  note R = ledger_rebond_spec [OF l v r]
  show ?thesis using R consolidate_unlocked_spec(1-3) [OF R(5)] by (simp add: r)
qed

theorem rebond_and_consolidate_witness:
  "case ledger_rebond 40
     \<lparr>l_stash = 1, l_total = 110, l_active = 60,
      l_unlocking = [\<lparr>uc_value = 20, uc_era = 5\<rparr>, \<lparr>uc_value = 30, uc_era = 9\<rparr>], l_claimed = []\<rparr> of (l', u) \<Rightarrow>
     u = 40 \<and> l_active l' = 100 \<and> ledger_ok (consolidate_unlocked 7 l')"
proof -
  have ok: "ledger_ok \<lparr>l_stash = 1, l_total = 110, l_active = 60,
      l_unlocking = [\<lparr>uc_value = 20, uc_era = 5\<rparr>, \<lparr>uc_value = 30, uc_era = 9\<rparr>], l_claimed = []\<rparr>"
    by (simp add: ledger_ok_def max_w_def)
  show ?thesis
    using rebond_and_consolidate [OF ok, of 40 7] by (simp add: max_w_def split: prod.splits)
qed

end
