(* ===== verification/Slashing.thy ===== *)
theory Slashing
  imports RankAccuracy SlashSpans Ledger
begin

text \<open>
  Computing a slash (\<open>pallets/energy-generation/src/slashing.rs\<close>): the two-part slash entities
  (reputation and stake), the per-era and per-span slashing records, the disabling of offenders, and
  \<open>compute_slash\<close> with its helpers. Applying a slash is in theory Staking.

  \<open>InspectingSpans\<close> is the record \<open>inspecting\<close>, whose \<open>Drop\<close> is the function \<open>inspect_drop\<close> called
  where the source's block ends. \<open>P\<close> is \<open>Perbill\<close>.
\<close>

section \<open>Slash entities\<close>

record slash_entity =
  se_reputation :: nat
  se_stake :: balance

record slash_perbill =
  pb_reputation :: nat
  pb_stake :: nat

definition se_zero :: slash_entity where "se_zero = \<lparr>se_reputation = 0, se_stake = 0\<rparr>"
definition se_one :: slash_entity where "se_one = \<lparr>se_reputation = 1, se_stake = 1\<rparr>"
definition pb_zero :: slash_perbill where "pb_zero = \<lparr>pb_reputation = 0, pb_stake = 0\<rparr>"

definition se_is_zero :: "slash_entity \<Rightarrow> bool" where
  "se_is_zero s \<longleftrightarrow> se_reputation s = 0 \<and> se_stake s = 0"

definition se_is_any_zero :: "slash_entity \<Rightarrow> bool" where
  "se_is_any_zero s \<longleftrightarrow> se_reputation s = 0 \<or> se_stake s = 0"

definition se_add :: "slash_entity \<Rightarrow> slash_entity \<Rightarrow> slash_entity" where
  "se_add a b = \<lparr>se_reputation = add_w 64 (se_reputation a) (se_reputation b),
                 se_stake = add_w 128 (se_stake a) (se_stake b)\<rparr>"

definition se_saturating_add :: "slash_entity \<Rightarrow> slash_entity \<Rightarrow> slash_entity" where
  "se_saturating_add a b = \<lparr>se_reputation = sat_add 64 (se_reputation a) (se_reputation b),
                            se_stake = sat_add 128 (se_stake a) (se_stake b)\<rparr>"

definition se_saturating_sub :: "slash_entity \<Rightarrow> slash_entity \<Rightarrow> slash_entity" where
  "se_saturating_sub a b = \<lparr>se_reputation = se_reputation a - se_reputation b,
                            se_stake = se_stake a - se_stake b\<rparr>"

definition se_mul :: "perthing \<Rightarrow> slash_entity \<Rightarrow> nat \<Rightarrow> slash_entity" where
  "se_mul P s r = \<lparr>se_reputation = pt_mul P r (se_reputation s), se_stake = pt_mul P r (se_stake s)\<rparr>"

definition se_mul_perbills :: "perthing \<Rightarrow> slash_entity \<Rightarrow> slash_perbill \<Rightarrow> slash_entity" where
  "se_mul_perbills P s b =
     \<lparr>se_reputation = pt_mul P (pb_reputation b) (se_reputation s),
      se_stake = pt_mul P (pb_stake b) (se_stake s)\<rparr>"

definition pb_from_rational :: "perthing \<Rightarrow> slash_entity \<Rightarrow> slash_entity \<Rightarrow> slash_perbill" where
  "pb_from_rational P p q =
     \<lparr>pb_reputation = pt_from_rational P (se_reputation p) (se_reputation q),
      pb_stake = pt_from_rational P (se_stake p) (se_stake q)\<rparr>"

datatype update_decision = Update | NoUpdate

definition pb_compare_with :: "slash_perbill \<Rightarrow> slash_perbill \<Rightarrow> update_decision" where
  "pb_compare_with self prior =
     (if pb_reputation prior < pb_reputation self \<or> pb_stake prior < pb_stake self then Update
      else NoUpdate)"

text \<open>\<open>SlashEntity::max_slash_amount\<close>\<close>

definition max_slash_amount :: "libm \<Rightarrow> reputation \<Rightarrow> balance \<Rightarrow> slash_entity" where
  "max_slash_amount L r stake =
     (let rank = unwrap_or 0 (map_option tier_rank (rep_tier r))
      in \<lparr>se_reputation = rep_points r - from_rank L (rank - (RANKS_PER_TIER + 1)),
          se_stake = stake\<rparr>)"

section \<open>The slashing storage\<close>

record span_record =
  sr_slashed :: slash_entity
  sr_paid_out :: slash_entity

definition span_record_default :: span_record where
  "span_record_default = \<lparr>sr_slashed = se_zero, sr_paid_out = se_zero\<rparr>"

record unapplied_slash =
  us_validator :: account
  us_own :: slash_entity
  us_others :: "(account \<times> slash_entity) list"
  us_reporters :: "account list"
  us_payout :: slash_entity

definition unapplied_default_from :: "account \<Rightarrow> unapplied_slash" where
  "unapplied_default_from v =
     \<lparr>us_validator = v, us_own = se_zero, us_others = [], us_reporters = [], us_payout = se_zero\<rparr>"

text \<open>
  \<open>sl_session_disabled\<close> lists the indices handed to \<open>SessionInterface::disable_validator\<close>, in the
  order of the calls.
\<close>

record slash_state =
  ValidatorSlashInEra :: "era \<times> account \<rightharpoonup> slash_perbill \<times> slash_entity"
  CooperatorSlashInEra :: "era \<times> account \<rightharpoonup> slash_entity"
  SlashingSpans :: "account \<rightharpoonup> slashing_spans"
  SpanSlash :: "account \<times> nat \<rightharpoonup> span_record"
  DisabledValidators :: "nat list"
  sl_session_disabled :: "nat list"

record slash_params =
  pa_stash :: account
  pa_slash :: nat
  pa_exposure :: exposure
  pa_slash_era :: era
  pa_window_start :: era
  pa_now :: era
  pa_reward_proportion :: nat

definition REWARD_F1 :: nat where "REWARD_F1 = 500000000"

definition span_slash_of :: "slash_state \<Rightarrow> account \<times> nat \<Rightarrow> span_record" where
  "span_slash_of s k = unwrap_or span_record_default (SpanSlash s k)"

section \<open>Inspecting the spans of one stash\<close>

record inspecting =
  in_dirty :: bool
  in_spans :: slashing_spans
  in_paid_out :: slash_entity
  in_slash_of :: slash_entity

definition fetch_spans ::
  "account \<Rightarrow> era \<Rightarrow> slash_entity \<Rightarrow> slash_entity \<Rightarrow> slash_state \<Rightarrow> inspecting \<times> slash_state" where
  "fetch_spans stash window_start paid_out slash_of s =
     (case SlashingSpans s stash of
        Some spans \<Rightarrow> (\<lparr>in_dirty = False, in_spans = spans, in_paid_out = paid_out,
                        in_slash_of = slash_of\<rparr>, s)
      | None \<Rightarrow>
          let spans = spans_new window_start
          in (\<lparr>in_dirty = False, in_spans = spans, in_paid_out = paid_out, in_slash_of = slash_of\<rparr>,
              s\<lparr>SlashingSpans := (SlashingSpans s)(stash \<mapsto> spans)\<rparr>))"

definition inspect_end_span :: "era \<Rightarrow> inspecting \<Rightarrow> inspecting" where
  "inspect_end_span now i =
     (let (spans, ended) = end_span now (in_spans i)
      in i\<lparr>in_spans := spans, in_dirty := ended \<or> in_dirty i\<rparr>)"

definition add_slash :: "slash_entity \<Rightarrow> era \<Rightarrow> inspecting \<Rightarrow> inspecting" where
  "add_slash amount slash_era i =
     i\<lparr>in_slash_of := se_add (in_slash_of i) amount,
       in_spans := (in_spans i)\<lparr>ss_last_nonzero_slash :=
                                  max (ss_last_nonzero_slash (in_spans i)) slash_era\<rparr>\<rparr>"

definition compare_and_update_span_slash ::
  "perthing \<Rightarrow> nat \<Rightarrow> account \<Rightarrow> era \<Rightarrow> slash_entity \<Rightarrow> inspecting \<Rightarrow> slash_state
   \<Rightarrow> nat option \<times> inspecting \<times> slash_state" where
  "compare_and_update_span_slash P reward_proportion stash slash_era slash i s =
     (case era_span (in_spans i) slash_era of
        None \<Rightarrow> (None, i, s)
      | Some target_span \<Rightarrow>
          let key = (stash, sp_index target_span);
              rec = span_slash_of s key;
              slash_difference = se_saturating_sub (se_saturating_add slash se_one) (sr_slashed rec);
              due = se_mul P (se_saturating_sub (se_mul P slash reward_proportion) (sr_paid_out rec))
                      REWARD_F1;
              (rec1, i1, changed, reward) =
                (if 1 < se_reputation slash_difference \<and> 1 < se_stake slash_difference
                 then (rec\<lparr>sr_slashed := slash\<rparr>,
                       add_slash (se_saturating_sub slash_difference se_one) slash_era i, True, due)
                 else if se_reputation slash_difference = 0 \<and> se_stake slash_difference = 0
                 then (rec, i, False, se_zero)
                 else (rec, i, False, due));
              (rec2, i2, changed2) =
                (if \<not> se_is_zero reward
                 then (rec1\<lparr>sr_paid_out := se_add (sr_paid_out rec1) reward\<rparr>,
                       i1\<lparr>in_paid_out := se_add (in_paid_out i1) reward\<rparr>, True)
                 else (rec1, i1, changed))
          in (Some (sp_index target_span),
              if changed2 then i2\<lparr>in_dirty := True\<rparr> else i2,
              if changed2 then s\<lparr>SpanSlash := (SpanSlash s)(key \<mapsto> rec2)\<rparr> else s))"

text \<open>\<open>Drop\<close>: the loop over \<open>start..end\<close> removes each pruned span's record.\<close>

definition inspect_drop :: "account \<Rightarrow> era \<Rightarrow> inspecting \<Rightarrow> slash_state \<Rightarrow> slash_state" where
  "inspect_drop stash window_start i s =
     (if \<not> in_dirty i then s
      else
        let (spans, pruned) = prune window_start (in_spans i);
            span_slash =
              (case pruned of
                 Some (a, b) \<Rightarrow> foldl (\<lambda>m k. m((stash, k) := None)) (SpanSlash s) [a..<b]
               | None \<Rightarrow> SpanSlash s)
        in s\<lparr>SpanSlash := span_slash, SlashingSpans := (SlashingSpans s)(stash \<mapsto> spans)\<rparr>)"

section \<open>Disabling, kicking out and computing\<close>

text \<open>\<open>decide\<close> is \<open>T::DisablingStrategy::decision\<close>.\<close>

definition add_offending_validator ::
  "(account \<Rightarrow> era \<Rightarrow> nat list \<Rightarrow> nat option) \<Rightarrow> account \<Rightarrow> era \<Rightarrow> slash_state \<Rightarrow> slash_state" where
  "add_offending_validator decide stash slash_era s =
     (case decide stash slash_era (DisabledValidators s) of
        None \<Rightarrow> s
      | Some offender \<Rightarrow>
          (case binary_search (DisabledValidators s) offender of
             Found _ \<Rightarrow> s
           | Missing index \<Rightarrow>
               s\<lparr>DisabledValidators := insert_at index offender (DisabledValidators s),
                 sl_session_disabled := sl_session_disabled s @ [offender]\<rparr>))"

definition kick_out_if_recent ::
  "(account \<Rightarrow> era \<Rightarrow> nat list \<Rightarrow> nat option) \<Rightarrow> slash_params \<Rightarrow> slash_state \<Rightarrow> slash_state" where
  "kick_out_if_recent decide params s =
     (let (i, s1) = fetch_spans (pa_stash params) (pa_window_start params) se_zero se_zero s;
          i' = (if map_option sp_index (era_span (in_spans i) (pa_slash_era params))
                     = Some (ss_span_index (in_spans i))
                then inspect_end_span (pa_now params) i else i);
          s2 = add_offending_validator decide (pa_stash params) (pa_slash_era params) s1
      in inspect_drop (pa_stash params) (pa_window_start params) i' s2)"

text \<open>
  One inspection as \<open>compute_slash\<close> and \<open>slash_cooperators\<close> make it: fetch, compare, end the span
  when the offence lies in the current one, drop. The result is the updated payout and the slash.
\<close>

definition inspect_slash ::
  "perthing \<Rightarrow> slash_params \<Rightarrow> account \<Rightarrow> slash_entity \<Rightarrow> slash_entity \<Rightarrow> slash_state
   \<Rightarrow> slash_entity \<times> slash_entity \<times> slash_state" where
  "inspect_slash P params stash slash paid_out s =
     (let (i, s1) = fetch_spans stash (pa_window_start params) paid_out se_zero s;
          (target_span, i1, s2) = compare_and_update_span_slash P (pa_reward_proportion params) stash
              (pa_slash_era params) slash i s1;
          i2 = (if target_span = Some (ss_span_index (in_spans i1))
                then inspect_end_span (pa_now params) i1 else i1)
      in (in_paid_out i2, in_slash_of i2, inspect_drop stash (pa_window_start params) i2 s2))"

definition cooperator_era_slash ::
  "perthing \<Rightarrow> rep_state \<Rightarrow> slash_params \<Rightarrow> slash_perbill \<Rightarrow> slash_perbill \<Rightarrow> individual_exposure
   \<Rightarrow> slash_state \<Rightarrow> slash_entity \<times> slash_state" where
  "cooperator_era_slash P R params validator_loss prior_slash_p cooperator s =
     (let stash = ie_who cooperator;
          rep = unwrap_or 0 (map_option (rep_points \<circ> rr_reputation) (AccountReputation R stash));
          value = \<lparr>se_reputation = rep, se_stake = ie_value cooperator\<rparr>;
          own_slash_prior = se_mul_perbills P value prior_slash_p;
          own_slash = se_mul_perbills P value validator_loss;
          own_slash_difference = se_saturating_sub own_slash own_slash_prior;
          era_slash = se_saturating_add
            (unwrap_or se_zero (CooperatorSlashInEra s (pa_slash_era params, stash)))
            own_slash_difference
      in (era_slash, s\<lparr>CooperatorSlashInEra :=
              (CooperatorSlashInEra s)((pa_slash_era params, stash) \<mapsto> era_slash)\<rparr>))"

fun slash_cooperators ::
  "perthing \<Rightarrow> rep_state \<Rightarrow> slash_params \<Rightarrow> slash_perbill \<Rightarrow> slash_perbill
   \<Rightarrow> individual_exposure list \<Rightarrow> slash_entity \<Rightarrow> slash_state
   \<Rightarrow> slash_entity \<times> (account \<times> slash_entity) list \<times> slash_state" where
  "slash_cooperators P R params validator_loss prior_slash_p [] paid_out s = (paid_out, [], s)"
| "slash_cooperators P R params validator_loss prior_slash_p (c # cs) paid_out s =
     (let (era_slash, s1) = cooperator_era_slash P R params validator_loss prior_slash_p c s;
          (paid_out1, coop_slashed, s2) = inspect_slash P params (ie_who c) era_slash paid_out s1;
          (paid_out2, slashed, s3) =
            slash_cooperators P R params validator_loss prior_slash_p cs paid_out1 s2
      in (paid_out2, (ie_who c, coop_slashed) # slashed, s3))"

definition compute_slash ::
  "perthing \<Rightarrow> libm \<Rightarrow> (account \<Rightarrow> era \<Rightarrow> nat list \<Rightarrow> nat option) \<Rightarrow> nat \<Rightarrow> rep_state
   \<Rightarrow> slash_params \<Rightarrow> slash_state \<Rightarrow> unapplied_slash option \<times> slash_state" where
  "compute_slash P L decide block_number R params s =
     (let reputation = rr_reputation
            (unwrap_or (with_blocknumber block_number) (AccountReputation R (pa_stash params)));
          max_slash = max_slash_amount L reputation (ex_own (pa_exposure params));
          current_values =
            \<lparr>se_reputation = rep_points reputation, se_stake = ex_own (pa_exposure params)\<rparr>;
          own_slash = se_mul P max_slash (pa_slash params)
      in if se_is_any_zero own_slash then (None, kick_out_if_recent decide params s)
         else
           let key = (pa_slash_era params, pa_stash params);
               prior_slash_p = (case ValidatorSlashInEra s key of None \<Rightarrow> pb_zero | Some (p, _) \<Rightarrow> p);
               validator_loss = pb_from_rational P own_slash current_values
           in (case pb_compare_with validator_loss prior_slash_p of
                 NoUpdate \<Rightarrow> (None, s)
               | Update \<Rightarrow>
                   let s1 = s\<lparr>ValidatorSlashInEra :=
                                (ValidatorSlashInEra s)(key \<mapsto> (validator_loss, own_slash))\<rparr>;
                       (reward_payout, val_slashed, s2) =
                         inspect_slash P params (pa_stash params) own_slash se_zero s1;
                       s3 = add_offending_validator decide (pa_stash params) (pa_slash_era params) s2;
                       (coop_payout, cooperators_slashed, s4) =
                         slash_cooperators P R params validator_loss prior_slash_p
                           (ex_others (pa_exposure params)) se_zero s3
                   in (Some \<lparr>us_validator = pa_stash params, us_own = val_slashed,
                             us_others = cooperators_slashed, us_reporters = [],
                             us_payout = se_add reward_payout coop_payout\<rparr>, s4)))"

section \<open>Clearing metadata\<close>

definition clear_era_metadata :: "era \<Rightarrow> slash_state \<Rightarrow> slash_state" where
  "clear_era_metadata obsolete_era s =
     s\<lparr>ValidatorSlashInEra := (\<lambda>k. if fst k = obsolete_era then None else ValidatorSlashInEra s k),
       CooperatorSlashInEra := (\<lambda>k. if fst k = obsolete_era then None else CooperatorSlashInEra s k)\<rparr>"

text \<open>\<open>None\<close> is the error \<open>IncorrectSlashingSpans\<close>.\<close>

definition clear_stash_metadata :: "account \<Rightarrow> nat \<Rightarrow> slash_state \<Rightarrow> slash_state option" where
  "clear_stash_metadata stash num_slashing_spans s =
     (case SlashingSpans s stash of
        None \<Rightarrow> Some s
      | Some spans \<Rightarrow>
          if length (spans_iter spans) \<le> num_slashing_spans
          then Some (s\<lparr>SlashingSpans := (SlashingSpans s)(stash := None),
                       SpanSlash := foldl (\<lambda>m sp. m((stash, sp_index sp) := None)) (SpanSlash s)
                                      (spans_iter spans)\<rparr>)
          else None)"

section \<open>The disabling interface\<close>

text \<open>
  What \<open>add_offending_validator\<close> relies on: a decision is an index into the active set, and is only
  taken below the limit.
\<close>

locale disabling_strategy =
  fixes decide :: "account \<Rightarrow> era \<Rightarrow> nat list \<Rightarrow> nat option"
    and size :: nat and limit :: nat
  assumes decide_in_range: "decide a e ds = Some i \<Longrightarrow> i < size"
    and decide_below_limit: "decide a e ds = Some i \<Longrightarrow> length ds < limit"
begin

definition disabled_ok :: "nat list \<Rightarrow> bool" where
  "disabled_ok ds \<longleftrightarrow> sorted_wrt (<) ds \<and> set ds \<subseteq> {..<size}"

lemma disabled_ok_add:
  assumes "disabled_ok (DisabledValidators s)"
  shows "disabled_ok (DisabledValidators (add_offending_validator decide a e s))"
proof (cases "decide a e (DisabledValidators s)")
  case None
  then show ?thesis using assms by (simp add: add_offending_validator_def)
next
  case (Some i)
  show ?thesis
  proof (cases "binary_search (DisabledValidators s) i")
    case (Found k)
    with Some show ?thesis using assms by (simp add: add_offending_validator_def)
  next
    case (Missing k)
    have "sorted_wrt (<) (insert_at k i (DisabledValidators s))"
      using binary_search_Missing(2) [OF Missing] assms by (simp add: disabled_ok_def)
    with Some Missing decide_in_range [OF Some] show ?thesis
      using assms by (auto simp: add_offending_validator_def disabled_ok_def)
  qed
qed

lemma disabled_limit_add:
  "length (DisabledValidators (add_offending_validator decide a e s))
     \<le> max limit (length (DisabledValidators s))"
  using decide_below_limit [of a e "DisabledValidators s"]
  by (fastforce simp: add_offending_validator_def split: option.splits search.splits)

lemma disabled_mono_add:
  "set (DisabledValidators s) \<subseteq> set (DisabledValidators (add_offending_validator decide a e s))"
  by (auto simp: add_offending_validator_def split: option.splits search.splits)

end

lemma up_to_limit_decision_Some:
  "up_to_limit_decision f vs ae a e ds = Some i \<Longrightarrow>
   length ds < disable_limit f (length vs) \<and> i < length vs \<and> vs ! i = a \<and> unwrap_or 0 ae \<le> e"
  by (auto simp: up_to_limit_decision_def split: if_splits dest: position_Some)

interpretation up_to_limit:
  disabling_strategy "up_to_limit_decision f vs ae" "length vs" "disable_limit f (length vs)" for f vs ae
  by unfold_locales (auto dest: up_to_limit_decision_Some)

lemma add_offending_frame [simp]:
  "SlashingSpans (add_offending_validator d a e s) = SlashingSpans s"
  "SpanSlash (add_offending_validator d a e s) = SpanSlash s"
  "ValidatorSlashInEra (add_offending_validator d a e s) = ValidatorSlashInEra s"
  "CooperatorSlashInEra (add_offending_validator d a e s) = CooperatorSlashInEra s"
  by (auto simp: add_offending_validator_def split: option.splits search.splits)

section \<open>Spans and their records\<close>

text \<open>
  Every stash's spans are well formed, and a span record exists only for a span the stash still has.
\<close>

definition spans_ok :: "slash_state \<Rightarrow> bool" where
  "spans_ok s \<longleftrightarrow>
     (\<forall>a sp. SlashingSpans s a = Some sp \<longrightarrow> spans_wf sp) \<and>
     (\<forall>a i. SpanSlash s (a, i) \<noteq> None \<longrightarrow>
        (\<exists>sp. SlashingSpans s a = Some sp \<and> i \<in> sp_index ` set (spans_iter sp)))"

text \<open>The same while the spans of one stash are being inspected.\<close>

definition inspect_ok :: "account \<Rightarrow> inspecting \<Rightarrow> slash_state \<Rightarrow> bool" where
  "inspect_ok a i s \<longleftrightarrow>
     SlashingSpans s a \<noteq> None \<and> (\<not> in_dirty i \<longrightarrow> SlashingSpans s a = Some (in_spans i)) \<and>
     spans_ok (s\<lparr>SlashingSpans := (SlashingSpans s)(a \<mapsto> in_spans i)\<rparr>)"

lemma spans_ok_cong:
  "SlashingSpans s = SlashingSpans t \<Longrightarrow> SpanSlash s = SpanSlash t \<Longrightarrow> spans_ok s = spans_ok t"
  by (simp add: spans_ok_def)

lemma spans_okD: "spans_ok s \<Longrightarrow> SlashingSpans s a = Some sp \<Longrightarrow> spans_wf sp"
  by (simp add: spans_ok_def)

lemma spans_ok_none: "spans_ok s \<Longrightarrow> SlashingSpans s a = None \<Longrightarrow> SpanSlash s (a, i) = None"
  unfolding spans_ok_def by (metis option.distinct(1))

lemma spans_ok_upd:
  "spans_ok (s\<lparr>SlashingSpans := (SlashingSpans s)(a \<mapsto> sp)\<rparr>) \<longleftrightarrow>
     spans_wf sp \<and> (\<forall>b sp. b \<noteq> a \<longrightarrow> SlashingSpans s b = Some sp \<longrightarrow> spans_wf sp) \<and>
     (\<forall>k. SpanSlash s (a, k) \<noteq> None \<longrightarrow> k \<in> sp_index ` set (spans_iter sp)) \<and>
     (\<forall>b k. b \<noteq> a \<longrightarrow> SpanSlash s (b, k) \<noteq> None \<longrightarrow>
        (\<exists>sp. SlashingSpans s b = Some sp \<and> k \<in> sp_index ` set (spans_iter sp)))"
  unfolding spans_ok_def by (auto split: if_splits)

lemma inspect_ok_wf: "inspect_ok a i s \<Longrightarrow> spans_wf (in_spans i)"
  unfolding inspect_ok_def spans_ok_upd by blast

lemma fetch_spans_ok:
  assumes "spans_ok s" and "w < 2 ^ 32" and "fetch_spans a w p sl s = (i, s')"
  shows "inspect_ok a i s' \<and> in_paid_out i = p \<and> in_slash_of i = sl \<and>
      in_dirty i = False \<and> SpanSlash s' = SpanSlash s \<and>
      DisabledValidators s' = DisabledValidators s \<and> ValidatorSlashInEra s' = ValidatorSlashInEra s"
proof (cases "SlashingSpans s a")
  case None
  have wf: "\<forall>b sp. SlashingSpans s b = Some sp \<longrightarrow> spans_wf sp"
    and ex: "\<forall>b k. SpanSlash s (b, k) \<noteq> None \<longrightarrow>
        (\<exists>sp. SlashingSpans s b = Some sp \<and> k \<in> sp_index ` set (spans_iter sp))"
    using assms(1) by (auto simp: spans_ok_def)
  have "spans_ok (s\<lparr>SlashingSpans := (SlashingSpans s)(a \<mapsto> spans_new w)\<rparr>)"
    unfolding spans_ok_upd using spans_new_wf [OF assms(2)] spans_ok_none [OF assms(1) None] wf ex
    by (simp del: not_None_eq)
  with None assms(3) show ?thesis
    by (auto simp: fetch_spans_def inspect_ok_def Let_def)
next
  case (Some sp)
  then have "s\<lparr>SlashingSpans := (SlashingSpans s)(a \<mapsto> sp)\<rparr> = s" by (simp add: fun_upd_idem)
  with Some assms show ?thesis
    by (auto simp: fetch_spans_def inspect_ok_def)
qed

lemma inspect_end_span_ok:
  assumes "inspect_ok a i s" and "now + 1 < 2 ^ 32"
  shows "inspect_ok a (inspect_end_span now i) s"
proof -
  note wf = end_span_wf [OF inspect_ok_wf [OF assms(1)] assms(2)]
  have d: "\<not> snd (end_span now (in_spans i)) \<Longrightarrow> fst (end_span now (in_spans i)) = in_spans i"
    by (auto simp: end_span_def Let_def split: if_splits)
  have "sp_index ` set (spans_iter (in_spans i))
          \<subseteq> sp_index ` set (spans_iter (fst (end_span now (in_spans i))))"
    unfolding wf(2) by (auto simp: spans_iter_def)
  moreover note prem = assms(1) [unfolded inspect_ok_def spans_ok_upd]
  ultimately have "\<forall>k. SpanSlash s (a, k) \<noteq> None \<longrightarrow>
      k \<in> sp_index ` set (spans_iter (fst (end_span now (in_spans i))))" by blast
  then have "spans_ok (s\<lparr>SlashingSpans := (SlashingSpans s)(a \<mapsto> fst (end_span now (in_spans i)))\<rparr>)"
    unfolding spans_ok_upd using prem wf(1) by blast
  then show ?thesis
    using prem d by (auto simp: inspect_ok_def inspect_end_span_def split: prod.splits)
qed

lemma foldl_remove:
  "foldl (\<lambda>m k. m((a, f k) := None)) M ks = (\<lambda>p. if fst p = a \<and> snd p \<in> f ` set ks then None else M p)"
  by (induction ks arbitrary: M) (auto simp: fun_eq_iff)

lemma foldl_remove_id:
  "foldl (\<lambda>m k. m((a, k) := None)) M ks = (\<lambda>p. if fst p = a \<and> snd p \<in> set ks then None else M p)"
  using foldl_remove [of a id M ks] by simp

lemma inspect_drop_ok:
  assumes "inspect_ok a i s" and "w < 2 ^ 32"
  shows "spans_ok (inspect_drop a w i s)"
proof (cases "in_dirty i")
  case False
  then have "s\<lparr>SlashingSpans := (SlashingSpans s)(a \<mapsto> in_spans i)\<rparr> = s"
    using assms(1) by (simp add: inspect_ok_def fun_upd_idem)
  with False assms(1) show ?thesis by (simp add: inspect_drop_def inspect_ok_def)
next
  case True
  let ?sp = "in_spans i" and ?p = "fst (prune w (in_spans i))"
  have wf: "spans_wf ?sp" by (rule inspect_ok_wf [OF assms(1)])
  define M where "M = (case snd (prune w ?sp) of
     Some (a', b) \<Rightarrow> foldl (\<lambda>m k. m((a, k) := None)) (SpanSlash s) [a'..<b] | None \<Rightarrow> SpanSlash s)"
  have M: "M (b, k) = (if b = a \<and> k \<in> sp_index ` {x \<in> set (spans_iter ?sp). span_ended w x}
                       then None else SpanSlash s (b, k))" for b k
    using prune_range [OF wf, of w]
    by (auto simp: M_def foldl_remove_id split: option.splits)
  have keep: "sp_index ` {x \<in> set (spans_iter ?sp). \<not> span_ended w x}
                \<subseteq> sp_index ` set (spans_iter ?p)"
  proof -
    have "set (tl (spans_iter ?p)) = {x \<in> set (tl (spans_iter ?sp)). \<not> span_ended w x}"
      by (simp add: prune_keeps [OF wf])
    moreover have "sp_index (hd (spans_iter ?p)) = sp_index (hd (spans_iter ?sp))"
      by (simp add: spans_iter_def prune_eq [OF wf] split: option.splits)
    moreover have "spans_iter ?p = hd (spans_iter ?p) # tl (spans_iter ?p)"
      "spans_iter ?sp = hd (spans_iter ?sp) # tl (spans_iter ?sp)" by (simp_all add: spans_iter_def)
    ultimately show ?thesis by (metis (no_types, lifting) image_subsetI insertCI insertE
        list.simps(15) mem_Collect_eq imageI)
  qed
  have "inspect_drop a w i s =
      s\<lparr>SpanSlash := M, SlashingSpans := (SlashingSpans s)(a \<mapsto> ?p)\<rparr>"
    using True by (simp add: inspect_drop_def M_def split: prod.splits)
  moreover have "spans_ok (s\<lparr>SpanSlash := M, SlashingSpans := (SlashingSpans s)(a \<mapsto> ?p)\<rparr>)"
  proof -
    note prem = assms(1) [unfolded inspect_ok_def spans_ok_upd]
    have k: "k \<in> sp_index ` set (spans_iter ?p)" if "M (a, k) \<noteq> None" for k
    proof -
      from that have "SpanSlash s (a, k) \<noteq> None"
        "k \<notin> sp_index ` {x \<in> set (spans_iter ?sp). span_ended w x}"
        by (auto simp: M split: if_splits)
      with prem keep show ?thesis by blast
    qed
    have o: "b \<noteq> a \<Longrightarrow> M (b, k) = SpanSlash s (b, k)" for b k by (simp add: M)
    show ?thesis
      using spans_ok_upd [of "s\<lparr>SpanSlash := M\<rparr>" a ?p] prem prune_wf [OF wf assms(2)] k o by simp
  qed
  ultimately show ?thesis by simp
qed

lemma inspect_drop_frame [simp]:
  "DisabledValidators (inspect_drop a w i s) = DisabledValidators s"
  "ValidatorSlashInEra (inspect_drop a w i s) = ValidatorSlashInEra s"
  "CooperatorSlashInEra (inspect_drop a w i s) = CooperatorSlashInEra s"
  by (auto simp: inspect_drop_def split: prod.splits)

section \<open>Comparing a slash with the span's maximum\<close>

definition se_fits :: "slash_entity \<Rightarrow> bool" where
  "se_fits x \<longleftrightarrow> se_reputation x < max_w 64 \<and> se_stake x < max_w 128"

definition se_le :: "slash_entity \<Rightarrow> slash_entity \<Rightarrow> bool" where
  "se_le a b \<longleftrightarrow> se_reputation a \<le> se_reputation b \<and> se_stake a \<le> se_stake b"

lemma se_le_refl [simp]: "se_le a a"
  by (simp add: se_le_def)

lemma se_le_zero [simp]: "se_le se_zero a"
  by (simp add: se_le_def se_zero_def)

lemma era_span_in: "era_span sps e = Some t \<Longrightarrow> t \<in> set (spans_iter sps)"
  by (auto simp: era_span_def find_Some_iff)

lemma spans_iter_last_nonzero [simp]:
  "spans_iter (sp\<lparr>ss_last_nonzero_slash := e\<rparr>) = spans_iter sp"
  "spans_wf (sp\<lparr>ss_last_nonzero_slash := e\<rparr>) = spans_wf sp"
  by (simp_all add: spans_iter_def spans_wf_def)

text \<open>The two sides of the comparison: a slash above the span's maximum in both parts, or not.\<close>

definition exceeds :: "slash_entity \<Rightarrow> slash_entity \<Rightarrow> bool" where
  "exceeds a b \<longleftrightarrow> se_reputation b < se_reputation a \<and> se_stake b < se_stake a"

lemma sat_one: "x < max_w w \<Longrightarrow> sat_add w x 1 = x + 1"
  by (simp add: sat_add_def)

lemma difference_simps:
  assumes "se_fits slash"
  shows "1 < se_reputation (se_saturating_sub (se_saturating_add slash se_one) b) \<longleftrightarrow>
           se_reputation b < se_reputation slash"
    and "1 < se_stake (se_saturating_sub (se_saturating_add slash se_one) b) \<longleftrightarrow>
           se_stake b < se_stake slash"
    and "se_saturating_sub (se_saturating_sub (se_saturating_add slash se_one) b) se_one =
           se_saturating_sub slash b"
  using assms
  by (auto simp: se_fits_def se_saturating_sub_def se_saturating_add_def se_one_def
      sat_one [simplified])

lemma compare_update_exceeds:
  assumes "era_span (in_spans i) e = Some t" and fits: "se_fits slash"
    and "exceeds slash (sr_slashed (span_slash_of s (a, sp_index t)))"
    and "compare_and_update_span_slash P rp a e slash i s = (r, i', s')"
  shows "in_slash_of i' = se_add (in_slash_of i)
            (se_saturating_sub slash (sr_slashed (span_slash_of s (a, sp_index t))))"
    and "sr_slashed (span_slash_of s' (a, sp_index t)) = slash"
  using assms(1,3,4) unfolding compare_and_update_span_slash_def exceeds_def
  by (auto simp: Let_def difference_simps [OF fits, simplified] add_slash_def span_slash_of_def
      split: if_splits)

lemma compare_update_not_exceeds:
  assumes "era_span (in_spans i) e = Some t" and fits: "se_fits slash"
    and "\<not> exceeds slash (sr_slashed (span_slash_of s (a, sp_index t)))"
    and "compare_and_update_span_slash P rp a e slash i s = (r, i', s')"
  shows "in_slash_of i' = in_slash_of i" and "in_spans i' = in_spans i"
    and "sr_slashed (span_slash_of s' (a, sp_index t)) = sr_slashed (span_slash_of s (a, sp_index t))"
  using assms(1,3,4) unfolding compare_and_update_span_slash_def exceeds_def
  by (auto simp: Let_def difference_simps [OF fits, simplified] add_slash_def span_slash_of_def
      split: if_splits)

lemma compare_update_none:
  "era_span (in_spans i) e = None \<Longrightarrow> compare_and_update_span_slash P rp a e slash i s = (None, i, s)"
  by (simp add: compare_and_update_span_slash_def)

lemma compare_update_frame:
  assumes "compare_and_update_span_slash P rp a e slash i s = (r, i', s')"
  shows "DisabledValidators s' = DisabledValidators s"
    and "ValidatorSlashInEra s' = ValidatorSlashInEra s" and "SlashingSpans s' = SlashingSpans s"
    and "spans_iter (in_spans i') = spans_iter (in_spans i)"
    and "spans_wf (in_spans i') = spans_wf (in_spans i)"
    and "\<not> in_dirty i' \<Longrightarrow> in_spans i' = in_spans i \<and> \<not> in_dirty i"
    and "(\<forall>k. k \<noteq> (a, unwrap_or 0 r) \<longrightarrow> SpanSlash s' k = SpanSlash s k) \<and> (r = None \<longrightarrow> s' = s)"
    and "r = map_option sp_index (era_span (in_spans i) e)"
  using assms
  by (auto simp: compare_and_update_span_slash_def Let_def add_slash_def split: option.splits if_splits)

lemma compare_update_ok:
  assumes "inspect_ok a i s" and res: "compare_and_update_span_slash P rp a e slash i s = (r, i', s')"
  shows "inspect_ok a i' s'"
proof -
  note F = compare_update_frame [OF res]
  note prem = assms(1) [unfolded inspect_ok_def spans_ok_upd]
  have "\<forall>k. SpanSlash s' (a, k) \<noteq> None \<longrightarrow> k \<in> sp_index ` set (spans_iter (in_spans i'))"
  proof (intro allI impI)
    fix k assume k: "SpanSlash s' (a, k) \<noteq> None"
    show "k \<in> sp_index ` set (spans_iter (in_spans i'))"
    proof (cases "r = Some k")
      case True
      then show ?thesis using F(4,8) by (auto dest: era_span_in)
    next
      case False
      then have "SpanSlash s' (a, k) = SpanSlash s (a, k)" using F(7) by (cases r) auto
      with k prem F(4) show ?thesis by auto
    qed
  qed
  moreover have "\<forall>b k. b \<noteq> a \<longrightarrow> SpanSlash s' (b, k) = SpanSlash s (b, k)" using F(7) by auto
  ultimately have "spans_ok (s'\<lparr>SlashingSpans := (SlashingSpans s')(a \<mapsto> in_spans i')\<rparr>)"
    unfolding spans_ok_upd unfolding F(3,5) using prem by (simp del: not_None_eq)
  then show ?thesis using prem F(3,6) by (auto simp: inspect_ok_def)
qed

section \<open>Whole inspections\<close>

lemma se_add_zero:
  assumes "se_fits x"
  shows "se_add se_zero x = x"
proof -
  have "se_reputation x < 2 ^ 64" "se_stake x < 2 ^ 128"
    using assms by (auto simp only: se_fits_def le_max_w_iff [symmetric] less_imp_le)
  then show ?thesis by (simp add: se_add_def se_zero_def add_w_def)
qed

lemma se_is_zero_zero [simp]: "se_is_zero se_zero"
  by (simp add: se_is_zero_def se_zero_def)

lemma se_fits_sub: "se_fits x \<Longrightarrow> se_fits (se_saturating_sub x y)"
  by (auto simp: se_fits_def se_saturating_sub_def)

lemma se_sub_le: "se_le (se_saturating_sub x y) x"
  by (simp add: se_le_def se_saturating_sub_def)

lemma inspect_end_span_simps [simp]:
  "in_slash_of (inspect_end_span now i) = in_slash_of i"
  "in_paid_out (inspect_end_span now i) = in_paid_out i"
  by (auto simp: inspect_end_span_def split: prod.splits)

lemma compare_update_slash_le:
  assumes fits: "se_fits slash" and z: "in_slash_of i = se_zero"
    and res: "compare_and_update_span_slash P rp a e slash i s = (r, i', s')"
  shows "se_le (in_slash_of i') slash"
proof (cases "era_span (in_spans i) e")
  case None
  then show ?thesis using res z by (simp add: compare_update_none)
next
  case (Some t)
  show ?thesis
  proof (cases "exceeds slash (sr_slashed (span_slash_of s (a, sp_index t)))")
    case True
    show ?thesis
      using compare_update_exceeds(1) [OF Some fits True res]
      by (simp add: z se_add_zero se_fits_sub fits se_sub_le)
  next
    case False
    show ?thesis using compare_update_not_exceeds(1) [OF Some fits False res] z by simp
  qed
qed

text \<open>
  What an inspection takes, without its sentinel arithmetic: the part of the slash above the maximum
  that the span of the offence has recorded, if both parts exceed it.
\<close>

definition slash_above_span :: "slash_params \<Rightarrow> account \<Rightarrow> slash_entity \<Rightarrow> slash_state \<Rightarrow> slash_entity" where
  "slash_above_span pa a slash s =
     (case era_span (unwrap_or (spans_new (pa_window_start pa)) (SlashingSpans s a)) (pa_slash_era pa) of
        None \<Rightarrow> se_zero
      | Some t \<Rightarrow>
          let old = sr_slashed (span_slash_of s (a, sp_index t))
          in if exceeds slash old then se_saturating_sub slash old else se_zero)"

lemma slash_above_span_cong:
  "SlashingSpans s = SlashingSpans s' \<Longrightarrow> SpanSlash s = SpanSlash s' \<Longrightarrow>
   slash_above_span pa a slash s = slash_above_span pa a slash s'"
  by (simp add: slash_above_span_def span_slash_of_def cong: option.case_cong)

lemma inspect_slash_taken:
  assumes fits: "se_fits slash" and res: "inspect_slash P pa a slash paid s = (paid', taken, s')"
  shows "taken = slash_above_span pa a slash s"
proof -
  obtain i s1 where f: "fetch_spans a (pa_window_start pa) paid se_zero s = (i, s1)"
    by (cases "fetch_spans a (pa_window_start pa) paid se_zero s")
  obtain t i1 s2 where c: "compare_and_update_span_slash P (pa_reward_proportion pa) a
      (pa_slash_era pa) slash i s1 = (t, i1, s2)"
    by (cases "compare_and_update_span_slash P (pa_reward_proportion pa) a (pa_slash_era pa) slash i s1")
  have i: "in_spans i = unwrap_or (spans_new (pa_window_start pa)) (SlashingSpans s a)"
    "in_slash_of i = se_zero" "SpanSlash s1 = SpanSlash s"
    using f by (auto simp: fetch_spans_def Let_def split: option.splits)
  have old: "span_slash_of s1 k = span_slash_of s k" for k by (simp add: span_slash_of_def i)
  have "taken = in_slash_of i1"
    using res f c by (auto simp: inspect_slash_def Let_def split: if_splits)
  also have "\<dots> = slash_above_span pa a slash s"
  proof (cases "era_span (in_spans i) (pa_slash_era pa)")
    case None
    then show ?thesis using c i by (simp add: compare_update_none slash_above_span_def)
  next
    case (Some t)
    show ?thesis
    proof (cases "exceeds slash (sr_slashed (span_slash_of s1 (a, sp_index t)))")
      case True
      show ?thesis
        using compare_update_exceeds(1) [OF Some fits True c] True Some
        by (simp add: i old slash_above_span_def se_add_zero se_fits_sub fits Let_def)
    next
      case False
      show ?thesis
        using compare_update_not_exceeds(1) [OF Some fits False c] False Some
        by (simp add: i old slash_above_span_def Let_def)
    qed
  qed
  finally show ?thesis .
qed

lemma slash_above_span_le: "se_le (slash_above_span pa a slash s) slash"
  by (simp add: slash_above_span_def se_sub_le Let_def split: option.splits)

lemma inspect_slash_ok:
  assumes "spans_ok s" and w: "pa_window_start pa < 2 ^ 32" and now: "pa_now pa + 1 < 2 ^ 32"
    and res: "inspect_slash P pa a slash paid s = (paid', taken, s')"
  shows "spans_ok s' \<and> DisabledValidators s' = DisabledValidators s \<and>
         ValidatorSlashInEra s' = ValidatorSlashInEra s \<and> (se_fits slash \<longrightarrow> se_le taken slash)"
proof -
  obtain i s1 where f: "fetch_spans a (pa_window_start pa) paid se_zero s = (i, s1)"
    by (cases "fetch_spans a (pa_window_start pa) paid se_zero s")
  obtain t i1 s2 where c: "compare_and_update_span_slash P (pa_reward_proportion pa) a
      (pa_slash_era pa) slash i s1 = (t, i1, s2)"
    by (cases "compare_and_update_span_slash P (pa_reward_proportion pa) a (pa_slash_era pa) slash i s1")
  define i2 where "i2 = (if t = Some (ss_span_index (in_spans i1))
                         then inspect_end_span (pa_now pa) i1 else i1)"
  have r: "taken = in_slash_of i2" "s' = inspect_drop a (pa_window_start pa) i2 s2"
    using res f c by (auto simp: inspect_slash_def i2_def Let_def)
  note F = fetch_spans_ok [OF assms(1) w f]
  have "inspect_ok a i1 s2" using compare_update_ok [OF _ c] F by simp
  then have "inspect_ok a i2 s2" using inspect_end_span_ok [OF _ now] by (simp add: i2_def)
  then have "spans_ok s'" unfolding r by (rule inspect_drop_ok [OF _ w])
  moreover have "se_fits slash \<longrightarrow> se_le taken slash"
    using compare_update_slash_le [OF _ _ c] F by (auto simp: r i2_def)
  ultimately show ?thesis using compare_update_frame [OF c] F by (simp add: r)
qed

lemma cooperator_era_slash_frame:
  "cooperator_era_slash P R pa loss prior c s = (es, s1) \<Longrightarrow>
   spans_ok s1 = spans_ok s \<and> DisabledValidators s1 = DisabledValidators s \<and>
   ValidatorSlashInEra s1 = ValidatorSlashInEra s"
  using spans_ok_cong [of s1 s] by (auto simp: cooperator_era_slash_def Let_def)

lemma slash_cooperators_ok:
  assumes "spans_ok s" and w: "pa_window_start pa < 2 ^ 32" and now: "pa_now pa + 1 < 2 ^ 32"
    and "slash_cooperators P R pa loss prior cs paid s = (paid', sl, s')"
  shows "spans_ok s' \<and> DisabledValidators s' = DisabledValidators s \<and>
         ValidatorSlashInEra s' = ValidatorSlashInEra s \<and> map fst sl = map ie_who cs"
  using assms(1,4)
proof (induction cs arbitrary: paid s paid' sl s')
  case Nil
  then show ?case by simp
next
  case (Cons c cs)
  obtain es s1 where e: "cooperator_era_slash P R pa loss prior c s = (es, s1)"
    by (cases "cooperator_era_slash P R pa loss prior c s")
  obtain p1 t s2 where i: "inspect_slash P pa (ie_who c) es paid s1 = (p1, t, s2)"
    by (cases "inspect_slash P pa (ie_who c) es paid s1")
  obtain p2 sl2 s3 where r: "slash_cooperators P R pa loss prior cs p1 s2 = (p2, sl2, s3)"
    by (cases "slash_cooperators P R pa loss prior cs p1 s2")
  have s': "s' = s3" "sl = (ie_who c, t) # sl2" using Cons.prems(2) e i r by auto
  note E = cooperator_era_slash_frame [OF e]
  have I: "spans_ok s2 \<and> DisabledValidators s2 = DisabledValidators s1 \<and>
           ValidatorSlashInEra s2 = ValidatorSlashInEra s1"
    using inspect_slash_ok [OF _ w now i] E Cons.prems(1) by simp
  show ?case using Cons.IH [OF _ r] I E by (simp add: s')
qed

lemma spans_ok_add_offending [simp]: "spans_ok (add_offending_validator d a e s) = spans_ok s"
  by (rule spans_ok_cong) simp_all

lemma kick_out_ok:
  assumes "spans_ok s" and w: "pa_window_start pa < 2 ^ 32" and now: "pa_now pa + 1 < 2 ^ 32"
  shows "spans_ok (kick_out_if_recent decide pa s) \<and>
    (\<exists>t. DisabledValidators t = DisabledValidators s \<and>
      DisabledValidators (kick_out_if_recent decide pa s) =
      DisabledValidators (add_offending_validator decide (pa_stash pa) (pa_slash_era pa) t))"
proof -
  obtain i s1 where f: "fetch_spans (pa_stash pa) (pa_window_start pa) se_zero se_zero s = (i, s1)"
    by (cases "fetch_spans (pa_stash pa) (pa_window_start pa) se_zero se_zero s")
  note F = fetch_spans_ok [OF assms(1) w f]
  define s2 where "s2 = add_offending_validator decide (pa_stash pa) (pa_slash_era pa) s1"
  have "inspect_ok (pa_stash pa) i s2"
    using F spans_ok_cong [of "s2\<lparr>SlashingSpans := (SlashingSpans s2)(pa_stash pa \<mapsto> in_spans i)\<rparr>"
        "s1\<lparr>SlashingSpans := (SlashingSpans s1)(pa_stash pa \<mapsto> in_spans i)\<rparr>"]
    by (simp add: inspect_ok_def s2_def)
  moreover from this have "inspect_ok (pa_stash pa) (inspect_end_span (pa_now pa) i) s2"
    by (rule inspect_end_span_ok [OF _ now])
  ultimately have "spans_ok (kick_out_if_recent decide pa s)"
    using f by (auto simp: kick_out_if_recent_def Let_def s2_def [symmetric] intro: inspect_drop_ok [OF _ w])
  moreover have "DisabledValidators (kick_out_if_recent decide pa s) = DisabledValidators s2"
    using f by (simp add: kick_out_if_recent_def s2_def)
  ultimately show ?thesis using F s2_def by blast
qed

text \<open>The shape of a computed slash, and what it does to the state, in one place.\<close>

lemma compute_slash_None:
  assumes "compute_slash P L decide bn R pa s = (None, s')"
  shows "s' = s \<or> s' = kick_out_if_recent decide pa s"
  using assms by (auto simp: compute_slash_def Let_def split: if_splits update_decision.splits prod.splits)

text \<open>What the validator loses at most, and the part of its present values that is.\<close>

definition slash_asked :: "perthing \<Rightarrow> libm \<Rightarrow> slash_params \<Rightarrow> reputation \<Rightarrow> slash_entity" where
  "slash_asked P L pa rep = se_mul P (max_slash_amount L rep (ex_own (pa_exposure pa))) (pa_slash pa)"

definition loss_asked :: "perthing \<Rightarrow> libm \<Rightarrow> slash_params \<Rightarrow> reputation \<Rightarrow> slash_perbill" where
  "loss_asked P L pa rep = pb_from_rational P (slash_asked P L pa rep)
     \<lparr>se_reputation = rep_points rep, se_stake = ex_own (pa_exposure pa)\<rparr>"

lemma compute_slash_refused:
  assumes "compute_slash P L decide bn R pa s = (None, s')" "AccountReputation R (pa_stash pa) = Some rec"
  shows "if se_is_any_zero (slash_asked P L pa (rr_reputation rec)) then s' = kick_out_if_recent decide pa s
    else s' = s \<and> pb_compare_with (loss_asked P L pa (rr_reputation rec))
      (case ValidatorSlashInEra s (pa_slash_era pa, pa_stash pa) of None \<Rightarrow> pb_zero | Some (p, _) \<Rightarrow> p)
      = NoUpdate"
  using assms
  by (auto simp: compute_slash_def slash_asked_def loss_asked_def Let_def
      split: if_splits update_decision.splits prod.splits)

lemma compute_slash_Some:
  assumes "compute_slash P L decide bn R pa s = (Some u, s')"
  obtains rep own loss paid taken s2 coop cs where
    "rep = rr_reputation (unwrap_or (with_blocknumber bn) (AccountReputation R (pa_stash pa)))"
    "own = se_mul P (max_slash_amount L rep (ex_own (pa_exposure pa))) (pa_slash pa)"
    "loss = pb_from_rational P own
       \<lparr>se_reputation = rep_points rep, se_stake = ex_own (pa_exposure pa)\<rparr>"
    "pb_compare_with loss (case ValidatorSlashInEra s (pa_slash_era pa, pa_stash pa) of
       None \<Rightarrow> pb_zero | Some (p, _) \<Rightarrow> p) = Update"
    "inspect_slash P pa (pa_stash pa) own se_zero (s\<lparr>ValidatorSlashInEra :=
       (ValidatorSlashInEra s)((pa_slash_era pa, pa_stash pa) \<mapsto> (loss, own))\<rparr>) = (paid, taken, s2)"
    "slash_cooperators P R pa loss (case ValidatorSlashInEra s (pa_slash_era pa, pa_stash pa) of
       None \<Rightarrow> pb_zero | Some (p, _) \<Rightarrow> p) (ex_others (pa_exposure pa)) se_zero
       (add_offending_validator decide (pa_stash pa) (pa_slash_era pa) s2) = (coop, cs, s')"
    "u = \<lparr>us_validator = pa_stash pa, us_own = taken, us_others = cs, us_reporters = [],
          us_payout = se_add paid coop\<rparr>"
    "\<not> se_is_any_zero own"
  using assms
  by (auto simp: compute_slash_def Let_def split: if_splits update_decision.splits prod.splits)

lemma compute_slash_ok:
  assumes "spans_ok s" and w: "pa_window_start pa < 2 ^ 32" and now: "pa_now pa + 1 < 2 ^ 32"
    and res: "compute_slash P L decide bn R pa s = (u, s')"
  shows "spans_ok s' \<and> (\<exists>t. DisabledValidators t = DisabledValidators s \<and>
     (DisabledValidators s' = DisabledValidators t \<or> DisabledValidators s' =
      DisabledValidators (add_offending_validator decide (pa_stash pa) (pa_slash_era pa) t)))"
proof (cases u)
  case None
  then show ?thesis
    using compute_slash_None res kick_out_ok [OF assms(1) w now] assms(1) by metis
next
  case (Some v)
  show ?thesis
  proof (rule compute_slash_Some [OF res [unfolded Some]], goal_cases)
    case (1 rep own loss paid taken s2 coop cs)
    let ?s1 = "s\<lparr>ValidatorSlashInEra :=
       (ValidatorSlashInEra s)((pa_slash_era pa, pa_stash pa) \<mapsto> (loss, own))\<rparr>"
    have "spans_ok ?s1" using assms(1) spans_ok_cong [of ?s1 s] by simp
    from inspect_slash_ok [OF this w now 1(5)]
    have I: "spans_ok s2" "DisabledValidators s2 = DisabledValidators s" by simp_all
    then show ?case
      using slash_cooperators_ok [OF _ w now 1(6)] by auto
  qed
qed

section \<open>The properties of slashing\<close>

text \<open>Only the maximum of a span is slashed: comparing a slash with its span's record takes exactly the
  difference to the old maximum when both parts exceed it, and the record then holds the new
  maximum; otherwise nothing is taken and the record's maximum stays. So the slashes taken within
  one span add up to its maximum.\<close>

theorem span_slash_difference:
  assumes "era_span (in_spans i) e = Some t" and fits: "se_fits slash" and z: "in_slash_of i = se_zero"
  shows "case compare_and_update_span_slash P rp a e slash i s of (r, i', s') \<Rightarrow>
    let old = sr_slashed (span_slash_of s (a, sp_index t))
    in r = Some (sp_index t) \<and>
       (exceeds slash old \<longrightarrow> in_slash_of i' = se_saturating_sub slash old \<and>
          sr_slashed (span_slash_of s' (a, sp_index t)) = slash) \<and>
       (\<not> exceeds slash old \<longrightarrow> in_slash_of i' = se_zero \<and>
          sr_slashed (span_slash_of s' (a, sp_index t)) = old)"
proof -
  obtain r i' s' where res: "compare_and_update_span_slash P rp a e slash i s = (r, i', s')"
    by (cases "compare_and_update_span_slash P rp a e slash i s")
  show ?thesis
    using compare_update_exceeds [OF assms(1) fits _ res]
      compare_update_not_exceeds [OF assms(1) fits _ res] compare_update_frame(8) [OF res]
    by (auto simp: res Let_def z assms(1) se_add_zero se_fits_sub fits)
qed

theorem span_slash_difference_witness:
  "case compare_and_update_span_slash (perthing_ref 1000000000) 100000000 7 12
     \<lparr>se_reputation = 30, se_stake = 50\<rparr>
     \<lparr>in_dirty = False, in_spans = spans_new 10, in_paid_out = se_zero, in_slash_of = se_zero\<rparr>
     \<lparr>ValidatorSlashInEra = Map.empty, CooperatorSlashInEra = Map.empty, SlashingSpans = Map.empty,
      SpanSlash = [(7, 0) \<mapsto> \<lparr>sr_slashed = \<lparr>se_reputation = 10, se_stake = 20\<rparr>, sr_paid_out = se_zero\<rparr>],
      DisabledValidators = [], sl_session_disabled = []\<rparr> of (r, i', s') \<Rightarrow>
   r = Some 0 \<and> in_slash_of i' = \<lparr>se_reputation = 20, se_stake = 30\<rparr>"
proof -
  let ?s = "\<lparr>ValidatorSlashInEra = Map.empty, CooperatorSlashInEra = Map.empty, SlashingSpans = Map.empty,
      SpanSlash = [(7, 0) \<mapsto> \<lparr>sr_slashed = \<lparr>se_reputation = 10, se_stake = 20\<rparr>, sr_paid_out = se_zero\<rparr>],
      DisabledValidators = [], sl_session_disabled = []\<rparr>"
  let ?i = "\<lparr>in_dirty = False, in_spans = spans_new 10, in_paid_out = se_zero, in_slash_of = se_zero\<rparr>"
  have e: "era_span (in_spans ?i) 12 = Some \<lparr>sp_index = 0, sp_start = 10, sp_length = None\<rparr>"
    by (simp add: era_span_def spans_iter_def spans_new_def contains_era_def)
  have f: "se_fits \<lparr>se_reputation = 30, se_stake = 50\<rparr>" by (simp add: se_fits_def max_w_def)
  show ?thesis
    using span_slash_difference [OF e f, where P = "perthing_ref 1000000000" and rp = 100000000
        and a = 7 and s = ?s]
    by (simp add: span_slash_of_def exceeds_def se_saturating_sub_def Let_def split: prod.splits)
qed

text \<open>What a span has paid out never rises above the reward proportion of the slash at hand: each
  part of the record's \<open>paid_out\<close> stays where it was or ends at most at \<open>reward_proportion * slash\<close>.\<close>

theorem paid_out_bounded:
  assumes P: "perthing_ok perbill_one P" and rp: "rp \<le> perbill_one" and fits: "se_fits slash"
    and t: "era_span (in_spans i) e = Some t"
    and old: "se_fits (sr_paid_out (span_slash_of s (a, sp_index t)))"
  shows "case compare_and_update_span_slash P rp a e slash i s of (r, i', s') \<Rightarrow>
    let old = sr_paid_out (span_slash_of s (a, sp_index t));
        new = sr_paid_out (span_slash_of s' (a, sp_index t))
    in se_le old new \<and>
       se_reputation new \<le> max (se_reputation old) (pt_mul P rp (se_reputation slash)) \<and>
       se_stake new \<le> max (se_stake old) (pt_mul P rp (se_stake slash))"
proof -
  define po where "po = sr_paid_out (span_slash_of s (a, sp_index t))"
  define due where "due = se_mul P (se_saturating_sub (se_mul P slash rp) po) REWARD_F1"
  obtain r i' s' where res: "compare_and_update_span_slash P rp a e slash i s = (r, i', s')"
    by (cases "compare_and_update_span_slash P rp a e slash i s")
  have f1: "pt_mul P REWARD_F1 x \<le> x" for x
    by (rule perthing_okD(6) [OF P]) (simp add: REWARD_F1_def)
  have le: "pt_mul P rp x \<le> x" for x by (rule perthing_okD(6) [OF P rp])
  have due: "se_reputation due \<le> pt_mul P rp (se_reputation slash) - se_reputation po"
    "se_stake due \<le> pt_mul P rp (se_stake slash) - se_stake po"
    by (simp_all add: due_def se_mul_def se_saturating_sub_def f1)
  have small: "se_reputation po + se_reputation due < 2 ^ 64" "se_stake po + se_stake due < 2 ^ 128"
    using due le [of "se_reputation slash"] le [of "se_stake slash"] fits old max_w_less [of 64]
      max_w_less [of 128]
    unfolding se_fits_def po_def [symmetric] by linarith+
  have add: "se_add po due = \<lparr>se_reputation = se_reputation po + se_reputation due,
                              se_stake = se_stake po + se_stake due\<rparr>"
    unfolding se_add_def add_w_eq [OF small(1)] add_w_eq [OF small(2)] ..
  have "sr_paid_out (span_slash_of s' (a, sp_index t)) \<in> {po, se_add po due}"
    using res t unfolding compare_and_update_span_slash_def due_def po_def
    by (auto simp: Let_def span_slash_of_def split: if_splits)
  then show ?thesis
    using due by (auto simp: res Let_def po_def [symmetric] add se_le_def)
qed

theorem paid_out_bounded_witness:
  "case compare_and_update_span_slash (perthing_ref perbill_one) 100000000 7 12
     \<lparr>se_reputation = 30, se_stake = 50\<rparr>
     \<lparr>in_dirty = False, in_spans = spans_new 10, in_paid_out = se_zero, in_slash_of = se_zero\<rparr>
     \<lparr>ValidatorSlashInEra = Map.empty, CooperatorSlashInEra = Map.empty, SlashingSpans = Map.empty,
      SpanSlash = Map.empty, DisabledValidators = [], sl_session_disabled = []\<rparr> of (r, i', s') \<Rightarrow>
   se_stake (sr_paid_out (span_slash_of s' (7, 0))) \<le> 5"
proof -
  let ?s = "\<lparr>ValidatorSlashInEra = Map.empty, CooperatorSlashInEra = Map.empty, SlashingSpans = Map.empty,
      SpanSlash = Map.empty, DisabledValidators = [], sl_session_disabled = []\<rparr>"
  let ?i = "\<lparr>in_dirty = False, in_spans = spans_new 10, in_paid_out = se_zero, in_slash_of = se_zero\<rparr>"
  have e: "era_span (in_spans ?i) 12 = Some \<lparr>sp_index = 0, sp_start = 10, sp_length = None\<rparr>"
    by (simp add: era_span_def spans_iter_def spans_new_def contains_era_def)
  have f: "se_fits \<lparr>se_reputation = 30, se_stake = 50\<rparr>" by (simp add: se_fits_def max_w_def)
  have o: "se_fits (sr_paid_out (span_slash_of ?s (7, sp_index \<lparr>sp_index = 0, sp_start = 10, sp_length = None\<rparr>)))"
    by (simp add: span_slash_of_def span_record_default_def se_fits_def se_zero_def max_w_def)
  show ?thesis
    using paid_out_bounded [OF perthing_ref_ok _ f e o, where rp = 100000000]
    by (simp add: span_slash_of_def span_record_default_def se_zero_def perthing_ref_def Let_def
        split: prod.splits)
qed

text \<open>C4. Computing a slash keeps the slashing storage consistent: every stash's spans stay well formed,
  a span record exists only for a live span, the disabled validators stay strictly sorted indices of
  the active set, and a new one is only added below the limit of the strategy.\<close>

theorem compute_slash_consistent:
  assumes "spans_ok s" and "pa_window_start pa < 2 ^ 32" and "pa_now pa + 1 < 2 ^ 32"
    and d: "sorted_wrt (<) (DisabledValidators s)" "set (DisabledValidators s) \<subseteq> {..<length vs}"
  shows "case compute_slash P L (up_to_limit_decision f vs ae) bn R pa s of (u, s') \<Rightarrow>
    spans_ok s' \<and> sorted_wrt (<) (DisabledValidators s') \<and>
    set (DisabledValidators s) \<subseteq> set (DisabledValidators s') \<and>
    set (DisabledValidators s') \<subseteq> {..<length vs} \<and>
    length (DisabledValidators s')
      \<le> max (disable_limit f (length vs)) (length (DisabledValidators s))"
proof -
  obtain u s' where r: "compute_slash P L (up_to_limit_decision f vs ae) bn R pa s = (u, s')"
    by (cases "compute_slash P L (up_to_limit_decision f vs ae) bn R pa s")
  obtain t where sp: "spans_ok s'" and t: "DisabledValidators t = DisabledValidators s"
    "DisabledValidators s' = DisabledValidators t \<or> DisabledValidators s' = DisabledValidators
       (add_offending_validator (up_to_limit_decision f vs ae) (pa_stash pa) (pa_slash_era pa) t)"
    using compute_slash_ok [OF assms(1-3) r] by blast
  have "up_to_limit.disabled_ok vs (DisabledValidators t)"
    using d t(1) by (simp add: up_to_limit.disabled_ok_def)
  note add = up_to_limit.disabled_ok_add [OF this, of f ae "pa_stash pa" "pa_slash_era pa",
      unfolded up_to_limit.disabled_ok_def]
    up_to_limit.disabled_limit_add [of f vs ae "pa_stash pa" "pa_slash_era pa" t]
    up_to_limit.disabled_mono_add [of t f vs ae "pa_stash pa" "pa_slash_era pa"]
  from t(2) show ?thesis
    by (rule disjE) (use add d sp t(1) in \<open>simp_all add: r\<close>)
qed

theorem compute_slash_consistent_witness:
  "case compute_slash (perthing_ref perbill_one) libm_exact (up_to_limit_decision 3 [7, 8, 9, 10] (Some 4))
       20 \<lparr>AccountReputation = Map.empty, rep_events = []\<rparr>
       \<lparr>pa_stash = 8, pa_slash = 100000000, pa_exposure = exposure_default, pa_slash_era = 4,
        pa_window_start = 1, pa_now = 5, pa_reward_proportion = 100000000\<rparr>
       \<lparr>ValidatorSlashInEra = Map.empty, CooperatorSlashInEra = Map.empty, SlashingSpans = Map.empty,
        SpanSlash = Map.empty, DisabledValidators = [], sl_session_disabled = []\<rparr> of (u, s') \<Rightarrow>
     spans_ok s' \<and> length (DisabledValidators s') \<le> 1"
proof -
  have "spans_ok \<lparr>ValidatorSlashInEra = Map.empty, CooperatorSlashInEra = Map.empty,
        SlashingSpans = Map.empty, SpanSlash = Map.empty, DisabledValidators = [],
        sl_session_disabled = []\<rparr>" by (simp add: spans_ok_def)
  from compute_slash_consistent [OF this, where pa = "\<lparr>pa_stash = 8, pa_slash = 100000000,
        pa_exposure = exposure_default, pa_slash_era = 4,
        pa_window_start = 1, pa_now = 5, pa_reward_proportion = 100000000\<rparr>" and f = 3
        and vs = "[7, 8, 9, 10]" and ae = "Some 4" and P = "perthing_ref perbill_one"
        and L = libm_exact and bn = 20 and R = "\<lparr>AccountReputation = Map.empty, rep_events = []\<rparr>"]
  show ?thesis by (simp add: disable_limit_def checked_div_def split: prod.splits)
qed

text \<open>C3. A computed slash is exactly what was asked for. What is asked is the slash fraction of the
  exposed stake and of the reputation above the protected floor. There is no slash just when a part of
  that is zero, and then the validator is only kicked out, or when no part of the loss exceeds the one
  recorded for the era, and then nothing changes. Otherwise the era's record holds that loss and that
  amount; the validator's own part is what the amount exceeds the maximum of the offence's span by,
  hence never more than asked; the others are exactly the exposed cooperators in order, and no
  reporter is named yet.\<close>

theorem compute_slash_bounded:
  assumes P: "perthing_ok perbill_one P" and sl: "pa_slash pa \<le> perbill_one"
    and "spans_ok s" and "pa_window_start pa < 2 ^ 32" and "pa_now pa + 1 < 2 ^ 32"
    and own: "ex_own (pa_exposure pa) < max_w 128"
    and rec: "AccountReputation R (pa_stash pa) = Some rec" "rep_points (rr_reputation rec) < max_w 64"
  shows "let key = (pa_slash_era pa, pa_stash pa);
      asked = se_mul P (max_slash_amount L (rr_reputation rec) (ex_own (pa_exposure pa))) (pa_slash pa);
      loss = pb_from_rational P asked
        \<lparr>se_reputation = rep_points (rr_reputation rec), se_stake = ex_own (pa_exposure pa)\<rparr>;
      prior = (case ValidatorSlashInEra s key of None \<Rightarrow> pb_zero | Some (p, _) \<Rightarrow> p)
    in case compute_slash P L decide bn R pa s of
      (None, s') \<Rightarrow>
        if se_is_any_zero asked then s' = kick_out_if_recent decide pa s
        else s' = s \<and> pb_reputation loss \<le> pb_reputation prior \<and> pb_stake loss \<le> pb_stake prior
    | (Some u, s') \<Rightarrow>
        \<not> se_is_any_zero asked \<and>
        (pb_reputation prior < pb_reputation loss \<or> pb_stake prior < pb_stake loss) \<and>
        ValidatorSlashInEra s' key = Some (loss, asked) \<and>
        us_validator u = pa_stash pa \<and> us_reporters u = [] \<and>
        us_own u = slash_above_span pa (pa_stash pa) asked s \<and>
        se_stake (us_own u) \<le> pt_mul P (pa_slash pa) (ex_own (pa_exposure pa)) \<and>
        se_reputation (us_own u) \<le> pt_mul P (pa_slash pa)
          (se_reputation (max_slash_amount L (rr_reputation rec) (ex_own (pa_exposure pa)))) \<and>
        map fst (us_others u) = map ie_who (ex_others (pa_exposure pa))"
proof -
  obtain u s' where r: "compute_slash P L decide bn R pa s = (u, s')"
    by (cases "compute_slash P L decide bn R pa s")
  define rep where "rep = rr_reputation rec"
  define asked where "asked = slash_asked P L pa rep"
  define loss where "loss = loss_asked P L pa rep"
  let ?m = "max_slash_amount L rep (ex_own (pa_exposure pa))"
  note asked' = asked_def [unfolded slash_asked_def, symmetric]
  note loss' = loss_def [unfolded loss_asked_def, folded asked_def, symmetric]
  have m: "se_reputation ?m \<le> rep_points rep" "se_stake ?m = ex_own (pa_exposure pa)"
    by (simp_all add: max_slash_amount_def Let_def)
  have parts: "se_stake asked = pt_mul P (pa_slash pa) (ex_own (pa_exposure pa))"
    "se_reputation asked = pt_mul P (pa_slash pa) (se_reputation ?m)"
    by (simp_all add: asked_def slash_asked_def se_mul_def m(2))
  have fits: "se_fits asked"
    using perthing_okD(6) [OF P sl, of "se_reputation ?m"] perthing_okD(6) [OF P sl, of "se_stake ?m"]
      m own rec(2)
    by (simp add: se_fits_def parts rep_def [symmetric])
  show ?thesis
  proof (cases u)
    case None
    have "if se_is_any_zero asked then s' = kick_out_if_recent decide pa s else s' = s \<and>
        pb_compare_with loss (case ValidatorSlashInEra s (pa_slash_era pa, pa_stash pa) of
          None \<Rightarrow> pb_zero | Some (p, _) \<Rightarrow> p) = NoUpdate"
      using compute_slash_refused [OF r [unfolded None] rec(1)] unfolding asked_def loss_def rep_def .
    then show ?thesis
      unfolding Let_def rep_def [symmetric] asked' loss' r None prod.case option.case pb_compare_with_def
      by (simp add: not_less split: if_splits)
  next
    case (Some v)
    note r' = r [unfolded Some]
    show ?thesis
    proof (rule compute_slash_Some [OF r'], goal_cases)
      case (1 rep2 asked2 loss2 paid taken s2 coop cs)
      have "rep2 = rep" using 1(1) rec(1) by (simp add: rep_def)
      then have eq: "asked2 = asked" "loss2 = loss"
        using 1(2,3) by (simp_all add: asked_def loss_def slash_asked_def loss_asked_def)
      note g = 1(4-8) [unfolded eq]
      let ?s1 = "s\<lparr>ValidatorSlashInEra :=
         (ValidatorSlashInEra s)((pa_slash_era pa, pa_stash pa) \<mapsto> (loss, asked))\<rparr>"
      have "spans_ok ?s1" using assms(3) spans_ok_cong [of ?s1 s] by simp
      note I = inspect_slash_ok [OF this assms(4,5) g(2)]
      have "spans_ok (add_offending_validator decide (pa_stash pa) (pa_slash_era pa) s2)"
        using I by simp
      note C = slash_cooperators_ok [OF this assms(4,5) g(3)]
      have taken: "taken = slash_above_span pa (pa_stash pa) asked s"
        using inspect_slash_taken [OF fits g(2)] slash_above_span_cong [of ?s1 s] by simp
      have le: "se_le (us_own v) asked" by (simp add: g(4) taken slash_above_span_le)
      show ?thesis
        unfolding Let_def rep_def [symmetric] asked' loss' r' prod.case option.case
        using C I g(1,4,5) taken le [unfolded se_le_def parts]
        by (auto simp: pb_compare_with_def split: if_splits)
    qed
  qed
qed

theorem compute_slash_bounded_witness:
  "case compute_slash (perthing_ref perbill_one) libm_exact (up_to_limit_decision 3 [7, 8, 9, 10] (Some 4))
       20 \<lparr>AccountReputation = [8 \<mapsto>
         \<lparr>rr_reputation = \<lparr>rep_tier = Some (Trailblazer 1), rep_points = 70000000\<rparr>, rr_updated = 5\<rparr>], rep_events = []\<rparr>
       \<lparr>pa_stash = 8, pa_slash = 100000000,
        pa_exposure = \<lparr>ex_total = 150, ex_own = 100, ex_others = [\<lparr>ie_who = 30, ie_value = 50\<rparr>]\<rparr>,
        pa_slash_era = 4, pa_window_start = 1, pa_now = 5, pa_reward_proportion = 100000000\<rparr>
       \<lparr>ValidatorSlashInEra = Map.empty, CooperatorSlashInEra = Map.empty, SlashingSpans = Map.empty,
        SpanSlash = Map.empty, DisabledValidators = [], sl_session_disabled = []\<rparr> of
     (None, s') \<Rightarrow> False
   | (Some u, s') \<Rightarrow> us_validator u = 8 \<and> us_own u = \<lparr>se_reputation = 7000000, se_stake = 10\<rparr> \<and>
       map fst (us_others u) = [30] \<and>
       ValidatorSlashInEra s' (4, 8) = Some (\<lparr>pb_reputation = 100000000, pb_stake = 100000000\<rparr>,
         \<lparr>se_reputation = 7000000, se_stake = 10\<rparr>)"
proof -
  let ?s = "\<lparr>ValidatorSlashInEra = Map.empty, CooperatorSlashInEra = Map.empty,
        SlashingSpans = Map.empty, SpanSlash = Map.empty, DisabledValidators = [],
        sl_session_disabled = []\<rparr>"
  let ?rec = "\<lparr>rr_reputation = \<lparr>rep_tier = Some (Trailblazer 1), rep_points = 70000000\<rparr>, rr_updated = 5\<rparr>"
  let ?pa = "\<lparr>pa_stash = 8, pa_slash = 100000000,
        pa_exposure = \<lparr>ex_total = 150, ex_own = 100, ex_others = [\<lparr>ie_who = 30, ie_value = 50\<rparr>]\<rparr>,
        pa_slash_era = 4, pa_window_start = 1, pa_now = 5, pa_reward_proportion = 100000000\<rparr>"
  have ok: "spans_ok ?s" by (simp add: spans_ok_def)
  have m: "max_slash_amount libm_exact (rr_reputation ?rec) 100
      = \<lparr>se_reputation = 70000000, se_stake = 100\<rparr>"
    by (simp add: max_slash_amount_def tier_rank_def RANKS_PER_TIER_def sat_add_def sat_mul_def
        max_w_def from_rank_0 libm_exact_accurate)
  have own: "slash_above_span ?pa 8 \<lparr>se_reputation = 7000000, se_stake = 10\<rparr> ?s
      = \<lparr>se_reputation = 7000000, se_stake = 10\<rparr>"
    by (simp add: slash_above_span_def spans_new_def era_span_def spans_iter_def contains_era_def
        span_slash_of_def span_record_default_def se_zero_def exceeds_def se_saturating_sub_def)
  show ?thesis
    using compute_slash_bounded [OF perthing_ref_ok _ ok, where pa = ?pa
        and decide = "up_to_limit_decision 3 [7, 8, 9, 10] (Some 4)"
        and L = libm_exact and bn = 20 and rec = ?rec
        and R = "\<lparr>AccountReputation = [8 \<mapsto> ?rec], rep_events = []\<rparr>"] m own
    by (simp add: max_w_def perthing_ref_def se_mul_def pb_from_rational_def pb_zero_def Let_def
        se_is_any_zero_def split: prod.splits option.splits)
qed

end
