(* ===== verification/Staking.thy ===== *)
theory Staking
  imports Slashing
begin

text \<open>
  The state of the staking pallet \<open>pallets/energy-generation\<close> (\<open>pallet/mod.rs\<close>) and its internal
  operations (\<open>pallet/impls.rs\<close>, and the part of \<open>slashing.rs\<close> that applies slashes).

  What the pallet reaches through its \<open>Config\<close> and is not part of it (the stake currency, the energy
  asset, consumer references, the session pallet, the VIP handler, listeners) is a world of type
  \<open>'x\<close> in the field \<open>st_ext\<close>, and its operations are the \<open>x_\<close> fields of the parameter \<open>E\<close>; the
  configured constants are the \<open>c_\<close> fields. An imbalance is its amount.
\<close>

section \<open>Data\<close>

datatype reward_destination = ToStash | ToController | ToAccount account | ToNone

record validator_prefs =
  vp_commission :: nat
  vp_collaborative :: bool
  vp_min_coop_reputation :: reputation

definition default_prefs :: validator_prefs where
  "default_prefs = \<lparr>vp_commission = 0, vp_collaborative = False,
                    vp_min_coop_reputation = default_reputation\<rparr>"

record active_era_info =
  ae_index :: era
  ae_start :: "nat option"

datatype forcing = NotForcing | ForceNew | ForceNone | ForceAlways

datatype staking_error =
  NotController | NotStash | AlreadyBonded | AlreadyPaired | EmptyTargets | DuplicateIndex
| InvalidSlashIndex | InsufficientBond | NoMoreChunks | NoUnlockChunk | FundedTarget
| InvalidEraToReward | InvalidEraToSlash | InvalidNumberOfCooperations | NotSortedAndUnique
| AlreadyClaimed | IncorrectHistoryDepth | IncorrectSlashingSpans | BadState | TooManyTargets
| BadTarget | CannotChillOther | TooManyCooperators | TooManyValidators | CommissionTooLow
| BoundNotMet | ReputationTooLow | IncorrectValidatorCount

datatype staking_event =
  EvEraEnergySet era nat
| EvRewarded account balance
| EvSlashed account slash_entity
| EvSlashReported account nat era
| EvOldSlashingReportDiscarded session
| EvStakersElected
| EvBonded account balance
| EvUnbonded account balance
| EvCooperated account "(account \<times> balance) list"
| EvWithdrawn account balance
| EvKicked account account
| EvStakingElectionFailed
| EvChilled account
| EvPayoutStarted era account
| EvValidatorPrefsSet account validator_prefs
| EvForceEra forcing

record 'x staking =
  ValidatorCount :: nat
  CoreNodesCount :: nat
  MinimumValidatorCount :: nat
  Invulnerables :: "account list"
  Bonded :: "account \<rightharpoonup> account"
  MinCooperatorBond :: balance
  MinCommonValidatorBond :: balance
  MinTrustValidatorBond :: balance
  MinCommission :: nat
  Ledger :: "account \<rightharpoonup> ledger"
  Payee :: "account \<rightharpoonup> reward_destination"
  Validators :: "account \<rightharpoonup> validator_prefs"
  MaxValidatorsCount :: "nat option"
  Cooperators :: "account \<rightharpoonup> cooperations"
  Collaborations :: "account \<rightharpoonup> account list"
  MaxCooperatorsCount :: "nat option"
  CurrentEra :: "era option"
  ActiveEra :: "active_era_info option"
  ErasStartSessionIndex :: "era \<rightharpoonup> session"
  ErasStakers :: "era \<times> account \<rightharpoonup> exposure"
  ErasStakersClipped :: "era \<times> account \<rightharpoonup> exposure"
  ErasValidatorPrefs :: "era \<times> account \<rightharpoonup> validator_prefs"
  ErasEnergyPerStakeCurrency :: "era \<rightharpoonup> nat"
  ErasTotalStake :: "era \<rightharpoonup> balance"
  ForceEra :: forcing
  SlashRewardFraction :: nat
  CanceledSlashPayout :: balance
  UnappliedSlashes :: "era \<rightharpoonup> unapplied_slash list"
  BondedEras :: "(era \<times> session) list"
  CurrentPlannedSession :: session
  ChillThreshold :: "nat option"
  CurrentEnergyPerStakeCurrency :: "nat option"
  BlockAuthoringReward :: nat
  st_slash :: slash_state
  st_rep :: rep_state
  st_events :: "staking_event list"
  st_ext :: 'x

record 'x staking_env =
  c_perbill :: perthing
  c_perquintill :: perthing
  c_percent :: perthing
  c_fixed :: fixed
  c_libm :: libm
  c_max_cooperations :: nat
  c_history_depth :: nat
  c_sessions_per_era :: nat
  c_bonding_duration :: nat
  c_slash_defer_duration :: nat
  c_max_rewarded :: nat
  c_max_unlocking_chunks :: nat
  c_validator_tier :: tier
  c_collab_tier :: tier
  c_disabling_factor :: nat
  c_admin_origin :: "origin \<Rightarrow> bool"
  x_block_number :: "'x \<Rightarrow> nat"
  x_lookup :: "'x \<Rightarrow> account \<Rightarrow> account option"
  x_minimum_balance :: balance
  x_free_balance :: "'x \<Rightarrow> account \<Rightarrow> balance"
  x_total_balance :: "'x \<Rightarrow> account \<Rightarrow> balance"
  x_set_lock :: "account \<Rightarrow> balance \<Rightarrow> 'x \<Rightarrow> 'x"
  x_remove_lock :: "account \<Rightarrow> 'x \<Rightarrow> 'x"
  x_slash :: "account \<Rightarrow> balance \<Rightarrow> 'x \<Rightarrow> 'x \<times> balance \<times> balance"
  x_resolve_creating :: "account \<Rightarrow> balance \<Rightarrow> 'x \<Rightarrow> 'x"
  x_slash_unbalanced :: "balance \<Rightarrow> 'x \<Rightarrow> 'x"
  x_drop_imbalance :: "balance \<Rightarrow> 'x \<Rightarrow> 'x"
  x_inc_consumers :: "account \<Rightarrow> 'x \<Rightarrow> 'x option"
  x_dec_consumers :: "account \<Rightarrow> 'x \<Rightarrow> 'x"
  x_deposit_energy :: "account \<Rightarrow> balance \<Rightarrow> 'x \<Rightarrow> ('x \<times> balance) option"
  x_reward_unbalanced :: "balance \<Rightarrow> 'x \<Rightarrow> 'x"
  x_on_slash :: "account \<Rightarrow> balance \<Rightarrow> (era \<rightharpoonup> balance) \<Rightarrow> balance \<Rightarrow> 'x \<Rightarrow> 'x"
  x_nac_level :: "'x \<Rightarrow> account \<Rightarrow> nat option"
  x_validator_exposure :: "'x \<Rightarrow> account \<Rightarrow> balance \<Rightarrow> balance"
  x_cooperator_exposure :: "'x \<Rightarrow> account \<Rightarrow> balance \<Rightarrow> balance"
  x_validators :: "'x \<Rightarrow> account list"
  x_disable_validator :: "nat \<Rightarrow> 'x \<Rightarrow> 'x"
  x_prune_historical :: "session \<Rightarrow> 'x \<Rightarrow> 'x"
  x_on_new_session :: "session \<Rightarrow> 'x \<Rightarrow> 'x"
  x_now_millis :: "'x \<Rightarrow> nat"
  x_era_energy :: "era \<Rightarrow> 'x \<Rightarrow> nat option"
  x_change_quarter_info :: "'x \<Rightarrow> 'x"
  x_tax_percent :: "'x \<Rightarrow> account \<Rightarrow> nat"
  x_update_active_stake :: "(account \<Rightarrow> balance) \<Rightarrow> account \<Rightarrow> 'x \<Rightarrow> 'x"
  x_iter :: "account set \<Rightarrow> account list"

type_synonym 'x call = "staking_error dispatch_error + 'x staking"

definition st_deposit :: "staking_event \<Rightarrow> 'x staking \<Rightarrow> 'x staking" where
  "st_deposit ev s = s\<lparr>st_events := st_events s @ [ev]\<rparr>"

definition st_world :: "('x \<Rightarrow> 'x) \<Rightarrow> 'x staking \<Rightarrow> 'x staking" where
  "st_world f s = s\<lparr>st_ext := f (st_ext s)\<rparr>"

section \<open>Queries\<close>

definition validators_of :: "'x staking \<Rightarrow> account \<Rightarrow> validator_prefs" where
  "validators_of s a = unwrap_or default_prefs (Validators s a)"

definition slashable_balance_of :: "'x staking \<Rightarrow> account \<Rightarrow> balance" where
  "slashable_balance_of s stash =
     unwrap_or 0 (map_option l_active (Option.bind (Bonded s stash) (Ledger s)))"

definition is_user_validator :: "'x staking \<Rightarrow> account \<Rightarrow> bool" where
  "is_user_validator s stash \<longleftrightarrow> Validators s stash \<noteq> None"

definition get_active_stake :: "'x staking \<Rightarrow> account \<Rightarrow> balance" where
  "get_active_stake s a =
     (if is_user_validator s a then unwrap_or 0 (map_option l_active (Ledger s a))
      else case Cooperators s a of
        None \<Rightarrow> 0
      | Some cooperations \<Rightarrow>
          foldl (\<lambda>active_stake (target, stake).
              case Collaborations s target of
                None \<Rightarrow> active_stake
              | Some collab \<Rightarrow>
                  if a \<in> set collab then add_w 128 active_stake stake else active_stake)
            0 (co_targets cooperations))"

definition tier_at_least :: "tier \<Rightarrow> rep_state \<Rightarrow> account \<Rightarrow> bool" where
  "tier_at_least t R stash =
     (case AccountReputation R stash of
        Some rec \<Rightarrow> (case rep_tier (rr_reputation rec) of Some u \<Rightarrow> t \<le> u | None \<Rightarrow> False)
      | None \<Rightarrow> False)"

definition is_legit_for_validator :: "'x staking_env \<Rightarrow> 'x staking \<Rightarrow> account \<Rightarrow> bool" where
  "is_legit_for_validator E s stash = tier_at_least (c_validator_tier E) (st_rep s) stash"

definition is_legit_for_collab :: "'x staking_env \<Rightarrow> 'x staking \<Rightarrow> account \<Rightarrow> bool" where
  "is_legit_for_collab E s stash = tier_at_least (c_collab_tier E) (st_rep s) stash"

definition min_bond_for_validator :: "'x staking_env \<Rightarrow> 'x staking \<Rightarrow> account \<Rightarrow> balance" where
  "min_bond_for_validator E s stash =
     (case x_nac_level E (st_ext s) stash of
        Some level \<Rightarrow> if 1 < level then MinTrustValidatorBond s else MinCommonValidatorBond s
      | None \<Rightarrow> MinCommonValidatorBond s)"

text \<open>\<open>AccountReputation::get(..).unwrap_or_else(ReputationRecord::with_now)\<close>\<close>

definition reputation_of :: "'x staking_env \<Rightarrow> 'x staking \<Rightarrow> account \<Rightarrow> reputation" where
  "reputation_of E s a = rr_reputation
     (unwrap_or (with_blocknumber (x_block_number E (st_ext s))) (AccountReputation (st_rep s) a))"

section \<open>Removing and adding roles\<close>

definition update_active_stake :: "'x staking_env \<Rightarrow> account \<Rightarrow> 'x staking \<Rightarrow> 'x staking" where
  "update_active_stake E a s = st_world (x_update_active_stake E (get_active_stake s) a) s"

definition do_add_validator :: "account \<Rightarrow> validator_prefs \<Rightarrow> 'x staking \<Rightarrow> 'x staking" where
  "do_add_validator who prefs s = s\<lparr>Validators := (Validators s)(who \<mapsto> prefs)\<rparr>"

definition do_remove_validator ::
  "'x staking_env \<Rightarrow> account \<Rightarrow> 'x staking \<Rightarrow> bool \<times> 'x staking" where
  "do_remove_validator E who s =
     (if Validators s who \<noteq> None then
        (True, update_active_stake E who
           (s\<lparr>Validators := (Validators s)(who := None),
              Collaborations := (Collaborations s)(who := None)\<rparr>))
      else (False, s))"

definition drop_collaborator ::
  "account \<Rightarrow> account \<Rightarrow> (account \<rightharpoonup> account list) \<Rightarrow> (account \<rightharpoonup> account list)" where
  "drop_collaborator who target m =
     (case m target of None \<Rightarrow> m | Some cs \<Rightarrow> m(target \<mapsto> removeAll who cs))"

definition do_remove_cooperator ::
  "'x staking_env \<Rightarrow> account \<Rightarrow> 'x staking \<Rightarrow> bool \<times> 'x staking" where
  "do_remove_cooperator E who s =
     (case Cooperators s who of
        None \<Rightarrow> (False, s)
      | Some cooperations \<Rightarrow>
          let s1 = s\<lparr>Collaborations :=
                       foldl (\<lambda>m (target, _). drop_collaborator who target m)
                         (Collaborations s) (co_targets cooperations)\<rparr>;
              s2 = update_active_stake E who s1
          in (True, s2\<lparr>Cooperators := (Cooperators s2)(who := None)\<rparr>))"

text \<open>\<open>BoundedBTreeSet::try_insert\<close> with the bound \<open>u32::MAX\<close>; the set is its sorted list.\<close>

definition btree_try_insert :: "account \<Rightarrow> account list \<Rightarrow> account list option" where
  "btree_try_insert k xs =
     (case binary_search xs k of
        Found _ \<Rightarrow> Some xs
      | Missing i \<Rightarrow> if length xs < max_w 32 then Some (insert_at i k xs) else None)"

fun add_collaborations ::
  "account \<Rightarrow> (account \<times> balance) list \<Rightarrow> (account \<rightharpoonup> account list)
   \<Rightarrow> staking_error dispatch_error + (account \<rightharpoonup> account list)" where
  "add_collaborations who [] m = Inr m"
| "add_collaborations who ((target, _) # ts) m =
     (case m target of
        None \<Rightarrow> add_collaborations who ts (m(target \<mapsto> [who]))
      | Some cs \<Rightarrow>
          rbind (ok_or (Module TooManyCooperators) (btree_try_insert who cs))
            (\<lambda>cs'. add_collaborations who ts (m(target \<mapsto> cs'))))"

definition do_add_cooperator :: "account \<Rightarrow> cooperations \<Rightarrow> 'x staking \<Rightarrow> 'x call" where
  "do_add_cooperator who cooperations s =
     rbind (add_collaborations who (co_targets cooperations) (Collaborations s))
       (\<lambda>m. Inr (s\<lparr>Collaborations := m, Cooperators := (Cooperators s)(who \<mapsto> cooperations)\<rparr>))"

definition remove_target :: "account \<Rightarrow> cooperations \<Rightarrow> cooperations" where
  "remove_target who c = c\<lparr>co_targets := filter (\<lambda>(t, _). t \<noteq> who) (co_targets c)\<rparr>"

definition do_remove_validator_from_cooperators_target ::
  "account \<Rightarrow> 'x staking \<Rightarrow> 'x staking" where
  "do_remove_validator_from_cooperators_target who s =
     (case Collaborations s who of
        None \<Rightarrow> s
      | Some cooperators \<Rightarrow>
          s\<lparr>Cooperators := foldl (\<lambda>m c. case m c of None \<Rightarrow> m | Some co \<Rightarrow> m(c \<mapsto> remove_target who co))
                            (Cooperators s) cooperators\<rparr>)"

definition chill_stash :: "'x staking_env \<Rightarrow> account \<Rightarrow> 'x staking \<Rightarrow> 'x staking" where
  "chill_stash E stash s =
     (let (chilled_as_validator, s1) = do_remove_validator E stash s;
          (chilled_as_cooperator, s2) = do_remove_cooperator E stash s1
      in if chilled_as_validator \<or> chilled_as_cooperator then st_deposit (EvChilled stash) s2 else s2)"

definition check_reputation_validator :: "'x staking_env \<Rightarrow> account \<Rightarrow> 'x staking \<Rightarrow> 'x staking" where
  "check_reputation_validator E acc s =
     (if \<not> is_legit_for_validator E s acc then chill_stash E acc s else s)"

definition try_check_reputation_collab :: "'x staking_env \<Rightarrow> account \<Rightarrow> 'x staking \<Rightarrow> 'x staking" where
  "try_check_reputation_collab E acc s =
     (if vp_collaborative (validators_of s acc) \<and> \<not> is_legit_for_collab E s acc
      then chill_stash E acc s else s)"

definition check_reputation_cooperator ::
  "'x staking_env \<Rightarrow> account \<Rightarrow> account \<Rightarrow> 'x staking \<Rightarrow> 'x staking" where
  "check_reputation_cooperator E validator cooperator s =
     (if rep_less (reputation_of E s cooperator) (vp_min_coop_reputation (validators_of s validator))
      then chill_stash E cooperator s else s)"

section \<open>The ledger in storage\<close>

definition update_ledger :: "'x staking_env \<Rightarrow> account \<Rightarrow> ledger \<Rightarrow> 'x staking \<Rightarrow> 'x staking" where
  "update_ledger E controller l s =
     (let s1 = st_world (x_set_lock E (l_stash l) (l_total l)) s;
          s2 = s1\<lparr>Ledger := (Ledger s1)(controller \<mapsto> l)\<rparr>
      in update_active_stake E controller s2)"

definition adjust_cooperator_targets ::
  "'x staking_env \<Rightarrow> account \<Rightarrow> balance \<Rightarrow> 'x staking \<Rightarrow> 'x staking" where
  "adjust_cooperator_targets E stash active_stake s =
     (case Cooperators s stash of
        None \<Rightarrow> s
      | Some cooperations \<Rightarrow>
          let proportion = pt_from_rational (c_perbill E) active_stake (cooperations_total cooperations)
          in if proportion < perbill_one
             then s\<lparr>Cooperators := (Cooperators s)(stash \<mapsto> cooperations\<lparr>co_targets :=
                      map (\<lambda>(t, stake). (t, pt_mul_floor (c_perbill E) proportion stake))
                        (co_targets cooperations)\<rparr>)\<rparr>
             else s)"

text \<open>\<open>slash_stake\<close> with its call of the listeners.\<close>

definition ledger_slash ::
  "'x staking_env \<Rightarrow> balance \<Rightarrow> era \<Rightarrow> ledger \<Rightarrow> 'x staking \<Rightarrow> ledger \<times> balance \<times> 'x staking" where
  "ledger_slash E amount slash_era l s =
     (let (l', slashed, chunks) = slash_stake (c_perquintill E) perquintill_one (c_bonding_duration E)
            amount (x_minimum_balance E) slash_era l
      in (l', slashed,
          if amount = 0 then s
          else st_world (x_on_slash E (l_stash l') (l_active l') chunks slashed) s))"

definition kill_stash :: "'x staking_env \<Rightarrow> account \<Rightarrow> nat \<Rightarrow> 'x staking \<Rightarrow> 'x call" where
  "kill_stash E stash num_slashing_spans s =
     rbind (ok_or (Module NotStash) (Bonded s stash)) (\<lambda>controller.
     rbind (ok_or (Module IncorrectSlashingSpans)
              (clear_stash_metadata stash num_slashing_spans (st_slash s))) (\<lambda>sl.
       let s1 = s\<lparr>st_slash := sl, Bonded := (Bonded s)(stash := None),
                  Ledger := (Ledger s)(controller := None), Payee := (Payee s)(stash := None)\<rparr>;
           s2 = snd (do_remove_validator E stash s1);
           s3 = snd (do_remove_cooperator E stash s2)
       in Inr (st_world (x_dec_consumers E stash) s3)))"

definition do_withdraw_unbonded :: "'x staking_env \<Rightarrow> account \<Rightarrow> nat \<Rightarrow> 'x staking \<Rightarrow> 'x call" where
  "do_withdraw_unbonded E controller num_slashing_spans s =
     rbind (ok_or (Module NotController) (Ledger s controller)) (\<lambda>l0.
       let stash = l_stash l0;
           old_total = l_total l0;
           l = (case CurrentEra s of Some current_era \<Rightarrow> consolidate_unlocked current_era l0 | None \<Rightarrow> l0)
       in rbind
            (if l_unlocking l = [] \<and> l_active l < x_minimum_balance E then
               rbind (kill_stash E stash num_slashing_spans s) (\<lambda>s1.
                 Inr (st_world (x_remove_lock E stash) s1))
             else Inr (update_ledger E controller l s)) (\<lambda>s2.
          Inr (if l_total l < old_total
               then st_deposit (EvWithdrawn stash (old_total - l_total l)) s2 else s2)))"

section \<open>Applying slashes\<close>

text \<open>
  \<open>slashing::do_slash\<close>. Called from hooks, outside a storage layer: the state is returned with the
  error too. The \<open>Inr\<close> pair is the remaining payout and the collected imbalance; an error drops the
  imbalance on its way out.
\<close>

definition staking_do_slash ::
  "'x staking_env \<Rightarrow> account \<Rightarrow> slash_entity \<Rightarrow> balance \<Rightarrow> balance \<Rightarrow> era \<Rightarrow> 'x staking
   \<Rightarrow> 'x staking \<times> (staking_error dispatch_error + balance \<times> balance)" where
  "staking_do_slash E stash value reward_payout slashed_imbalance slash_era s =
     (case Bonded s stash of
        None \<Rightarrow> (st_world (x_drop_imbalance E slashed_imbalance) s, Inl (Module NotController))
      | Some controller \<Rightarrow>
      (case Ledger s controller of
        None \<Rightarrow> (st_world (x_drop_imbalance E slashed_imbalance) s, Inl (Module NotController))
      | Some l \<Rightarrow>
          let (l', stake_value, s1) = ledger_slash E (se_stake value) slash_era l s;
              (s2, reward_payout', slashed_imbalance') =
                (if stake_value \<noteq> 0 then
                   let (ext, imbalance, missing) = x_slash E stash stake_value (st_ext s1);
                       s1a = s1\<lparr>st_ext := ext\<rparr>
                   in (adjust_cooperator_targets E stash (l_active l') (update_ledger E controller l' s1a),
                       if missing \<noteq> 0 then reward_payout - missing else reward_payout,
                       sat_add 128 slashed_imbalance imbalance)
                 else (s1, reward_payout, slashed_imbalance))
          in (case rep_do_slash (c_libm E) (x_block_number E (st_ext s2)) stash (se_reputation value)
                     (st_rep s2) of
                Inl e \<Rightarrow> (st_world (x_drop_imbalance E slashed_imbalance') s2,
                          Inl (Extern ''Reputation::AccountNotFound''))
              | Inr R \<Rightarrow>
                  (st_deposit (EvSlashed stash (value\<lparr>se_stake := stake_value\<rparr>)) (s2\<lparr>st_rep := R\<rparr>),
                   Inr (reward_payout', slashed_imbalance')))))"

fun apply_slash_others ::
  "'x staking_env \<Rightarrow> account \<Rightarrow> era \<Rightarrow> (account \<times> slash_entity) list \<Rightarrow> balance \<Rightarrow> balance
   \<Rightarrow> 'x staking \<Rightarrow> 'x staking \<times> (staking_error dispatch_error + balance \<times> balance)" where
  "apply_slash_others E validator slash_era [] payout imbalance s = (s, Inr (payout, imbalance))"
| "apply_slash_others E validator slash_era ((cooperator, value) # cs) payout imbalance s =
     (case staking_do_slash E cooperator value payout imbalance slash_era s of
        (s1, Inl e) \<Rightarrow> (s1, Inl e)
      | (s1, Inr (payout1, imbalance1)) \<Rightarrow>
          apply_slash_others E validator slash_era cs payout1 imbalance1
            (check_reputation_cooperator E validator cooperator s1))"

fun pay_each ::
  "'x staking_env \<Rightarrow> nat \<Rightarrow> balance \<Rightarrow> account list \<Rightarrow> balance \<Rightarrow> 'x staking \<Rightarrow> balance \<times> 'x staking" where
  "pay_each E reputation_per stake_per [] stake_reward s = (stake_reward, s)"
| "pay_each E reputation_per stake_per (r # rs) stake_reward s =
     (let s1 = s\<lparr>st_rep := increase_creating (c_libm E) r reputation_per (st_rep s)\<rparr>;
          reporter_reward = min stake_per stake_reward;
          s2 = st_world (x_resolve_creating E r reporter_reward) s1
      in pay_each E reputation_per stake_per rs (stake_reward - reporter_reward) s2)"

definition pay_reporters ::
  "'x staking_env \<Rightarrow> slash_entity \<Rightarrow> balance \<Rightarrow> account list \<Rightarrow> 'x staking \<Rightarrow> 'x staking" where
  "pay_reporters E reward_payout slashed_imbalance reporters s =
     (if se_is_zero reward_payout \<or> reporters = []
      then st_world (x_slash_unbalanced E slashed_imbalance) s
      else
        let stake_reward = min (se_stake reward_payout) slashed_imbalance;
            value_slashed = slashed_imbalance - stake_reward;
            prop = pt_from_rational (c_perbill E) 1 (length reporters);
            reputation_per_reporter = pt_mul (c_perbill E) prop (se_reputation reward_payout);
            stake_per_reporter = pt_mul (c_perbill E) prop stake_reward;
            (left, s1) = pay_each E reputation_per_reporter stake_per_reporter reporters stake_reward s
        in st_world (x_slash_unbalanced E (sat_add 128 value_slashed left)) s1)"

definition apply_slash ::
  "'x staking_env \<Rightarrow> unapplied_slash \<Rightarrow> era \<Rightarrow> 'x staking
   \<Rightarrow> 'x staking \<times> staking_error dispatch_error option" where
  "apply_slash E u slash_era s =
     (case staking_do_slash E (us_validator u) (us_own u) (se_stake (us_payout u)) 0 slash_era s of
        (s1, Inl e) \<Rightarrow> (s1, Some e)
      | (s1, Inr (payout1, imbalance1)) \<Rightarrow>
          let s2 = try_check_reputation_collab E (us_validator u)
                     (check_reputation_validator E (us_validator u) s1)
          in (case apply_slash_others E (us_validator u) slash_era (us_others u) payout1 imbalance1 s2 of
                (s3, Inl e) \<Rightarrow> (s3, Some e)
              | (s3, Inr (payout3, imbalance3)) \<Rightarrow>
                  (pay_reporters E ((us_payout u)\<lparr>se_stake := payout3\<rparr>) imbalance3 (us_reporters u) s3,
                   None)))"

end
