(* ===== verification/StakingEra.thy ===== *)
theory StakingEra
  imports Staking
begin

text \<open>
  Eras and sessions of the staking pallet (\<open>pallet/impls.rs\<close>): electing validators and storing
  their exposures, planning, starting and ending eras, the deferred slashes, the offence handler,
  the payout of an era's rewards, and the lookup between eras and sessions.

  The iteration over a storage map visits its keys in the order \<open>x_iter E\<close>. \<open>select_nth_unstable_by\<close>
  leaves the order within its two halves open; the model sorts.
\<close>

section \<open>Electing\<close>

fun insert_by :: "('a \<Rightarrow> 'a \<Rightarrow> bool) \<Rightarrow> 'a \<Rightarrow> 'a list \<Rightarrow> 'a list" where
  "insert_by le x [] = [x]"
| "insert_by le x (y # ys) = (if le x y then x # y # ys else y # insert_by le x ys)"

definition sort_by :: "('a \<Rightarrow> 'a \<Rightarrow> bool) \<Rightarrow> 'a list \<Rightarrow> 'a list" where
  "sort_by le xs = foldr (insert_by le) xs []"

text \<open>\<open>ellect_validators\<close>: chill the illegitimate, then drop collaboration where it is not earned.\<close>

definition demote :: "'x staking_env \<Rightarrow> account \<Rightarrow> 'x staking \<Rightarrow> 'x staking" where
  "demote E acc s =
     (if \<not> is_legit_for_collab E s acc
      then s\<lparr>Validators := (Validators s)(acc \<mapsto> (validators_of s acc)\<lparr>vp_collaborative := False\<rparr>),
             Collaborations := (Collaborations s)(acc := None)\<rparr>
      else s)"

definition ellect_validators :: "'x staking_env \<Rightarrow> 'x staking \<Rightarrow> 'x staking" where
  "ellect_validators E s =
     (let accs = x_iter E (dom (Validators s));
          legit = filter (is_legit_for_validator E s) accs;
          should_chill = filter (\<lambda>a. \<not> is_legit_for_validator E s a) accs
      in foldl (\<lambda>s a. demote E a s) (foldl (\<lambda>s a. chill_stash E a s) s should_chill) legit)"

definition exposure_of_collaborator ::
  "'x staking_env \<Rightarrow> 'x staking \<Rightarrow> account \<Rightarrow> validator_prefs \<Rightarrow> account \<Rightarrow> individual_exposure option" where
  "exposure_of_collaborator E s validator prefs who =
     (if \<not> rep_less (reputation_of E s who) (vp_min_coop_reputation prefs)
      then (case Option.bind (Cooperators s who) (\<lambda>co. map_of (co_targets co) validator) of
              Some stake \<Rightarrow> Some \<lparr>ie_who = who, ie_value = x_cooperator_exposure E (st_ext s) who stake\<rparr>
            | None \<Rightarrow> None)
      else None)"

definition collect_exposure ::
  "'x staking_env \<Rightarrow> 'x staking \<Rightarrow> account \<Rightarrow> (account \<times> exposure) option" where
  "collect_exposure E s validator =
     (case Option.bind (Bonded s validator) (Ledger s) of
        None \<Rightarrow> None
      | Some l \<Rightarrow>
          let own = x_validator_exposure E (st_ext s) validator (l_active l);
              others = (case Collaborations s validator of
                          Some coops \<Rightarrow> List.map_filter
                            (exposure_of_collaborator E s validator (validators_of s validator)) coops
                        | None \<Rightarrow> []);
              others_stake = sat_sum 128 (map ie_value others)
          in Some (validator, \<lparr>ex_total = sat_add 128 own others_stake, ex_own = own, ex_others = others\<rparr>))"

definition ellect_and_collect_exposures ::
  "'x staking_env \<Rightarrow> 'x staking \<Rightarrow> (account \<times> exposure) list \<times> 'x staking" where
  "ellect_and_collect_exposures E s =
     (let s1 = ellect_validators E s
      in (List.map_filter (collect_exposure E s1) (x_iter E (dom (Validators s1))), s1))"

section \<open>Storing an era's exposures\<close>

definition elect_before ::
  "account list \<Rightarrow> account \<times> exposure \<Rightarrow> account \<times> exposure \<Rightarrow> bool" where
  "elect_before invulnerables a b =
     (if fst a \<in> set invulnerables \<and> fst b \<notin> set invulnerables then True
      else if fst a \<notin> set invulnerables \<and> fst b \<in> set invulnerables then False
      else ex_total (snd b) \<le> ex_total (snd a))"

definition clip_exposure :: "nat \<Rightarrow> exposure \<Rightarrow> exposure" where
  "clip_exposure clipped_max_len e =
     (if clipped_max_len < length (ex_others e)
      then e\<lparr>ex_others := take clipped_max_len
               (sort_by (\<lambda>a b. ie_value b \<le> ie_value a) (ex_others e))\<rparr>
      else e)"

definition store_staker ::
  "'x staking_env \<Rightarrow> era \<Rightarrow> account \<times> exposure \<Rightarrow> 'x staking \<Rightarrow> 'x staking" where
  "store_staker E e p s =
     s\<lparr>ErasStakers := (ErasStakers s)((e, fst p) \<mapsto> snd p),
       ErasStakersClipped := (ErasStakersClipped s)((e, fst p) \<mapsto> clip_exposure (c_max_rewarded E) (snd p)),
       ErasValidatorPrefs := (ErasValidatorPrefs s)((e, fst p) \<mapsto> validators_of s (fst p))\<rparr>"

definition store_stakers_info ::
  "'x staking_env \<Rightarrow> (account \<times> exposure) list \<Rightarrow> era \<Rightarrow> 'x staking \<Rightarrow> account list \<times> 'x staking" where
  "store_stakers_info E exposures new_planned_era s =
     (let max_validators = max (ValidatorCount s) 1;
          exposures' = (if max_validators < length exposures
                        then sort_by (elect_before (Invulnerables s)) exposures else exposures);
          elected_stashes = map fst (take max_validators exposures');
          total_stake = sat_sum 128 (map (ex_total \<circ> snd) exposures');
          s1 = foldl (\<lambda>s p. store_staker E new_planned_era p s) s exposures'
      in (elected_stashes,
          s1\<lparr>ErasTotalStake := (ErasTotalStake s1)(new_planned_era \<mapsto> total_stake)\<rparr>))"

definition clear_era_information :: "era \<Rightarrow> 'x staking \<Rightarrow> 'x staking" where
  "clear_era_information e s =
     s\<lparr>ErasStakers := (\<lambda>k. if fst k = e then None else ErasStakers s k),
       ErasStakersClipped := (\<lambda>k. if fst k = e then None else ErasStakersClipped s k),
       ErasValidatorPrefs := (\<lambda>k. if fst k = e then None else ErasValidatorPrefs s k),
       ErasEnergyPerStakeCurrency := (ErasEnergyPerStakeCurrency s)(e := None),
       ErasTotalStake := (ErasTotalStake s)(e := None),
       ErasStartSessionIndex := (ErasStartSessionIndex s)(e := None)\<rparr>"

definition trigger_new_era ::
  "'x staking_env \<Rightarrow> session \<Rightarrow> (account \<times> exposure) list \<Rightarrow> 'x staking \<Rightarrow> account list \<times> 'x staking" where
  "trigger_new_era E start_session_index exposures s =
     (let new_planned_era = (case CurrentEra s of Some e \<Rightarrow> add_w 32 e 1 | None \<Rightarrow> 0);
          s1 = s\<lparr>CurrentEra := Some new_planned_era,
                 ErasStartSessionIndex :=
                   (ErasStartSessionIndex s)(new_planned_era \<mapsto> start_session_index)\<rparr>;
          s2 = (case checked_sub new_planned_era (add_w 32 (c_history_depth E) 1) of
                  Some old_era \<Rightarrow> clear_era_information old_era s1 | None \<Rightarrow> s1)
      in store_stakers_info E exposures new_planned_era s2)"

definition try_trigger_new_era ::
  "'x staking_env \<Rightarrow> session \<Rightarrow> 'x staking \<Rightarrow> account list option \<times> 'x staking" where
  "try_trigger_new_era E start_session_index s =
     (let (exposures, s1) = ellect_and_collect_exposures E s
      in if length exposures < max (MinimumValidatorCount s1) 1
         then let s2 = (case CurrentEra s1 of
                          Some _ \<Rightarrow> s1
                        | None \<Rightarrow> s1\<lparr>CurrentEra := Some 0,
                                     ErasStartSessionIndex :=
                                       (ErasStartSessionIndex s1)(0 \<mapsto> start_session_index)\<rparr>)
              in (None, st_deposit EvStakingElectionFailed s2)
         else let (elected, s2) =
                    trigger_new_era E start_session_index exposures (st_deposit EvStakersElected s1)
              in (Some elected, s2))"

definition set_force_era :: "forcing \<Rightarrow> 'x staking \<Rightarrow> 'x staking" where
  "set_force_era mode s = st_deposit (EvForceEra mode) (s\<lparr>ForceEra := mode\<rparr>)"

text \<open>The inherent \<open>new_session\<close>; the trait's one also notes the planned session.\<close>

definition plan_session ::
  "'x staking_env \<Rightarrow> session \<Rightarrow> 'x staking \<Rightarrow> account list option \<times> 'x staking" where
  "plan_session E session_index s0 =
     (let s = s0\<lparr>st_rep := update_points_for_time (c_libm E) (x_block_number E (st_ext s0)) (st_rep s0)\<rparr>
      in case CurrentEra s of
           None \<Rightarrow> try_trigger_new_era E session_index s
         | Some current_era \<Rightarrow>
             let era_length = session_index - unwrap_or 0 (ErasStartSessionIndex s current_era)
             in if ForceEra s = ForceNew \<or> ForceEra s = ForceAlways \<or>
                   (ForceEra s = NotForcing \<and> c_sessions_per_era E \<le> era_length)
                then let (validators, s1) =
                           try_trigger_new_era E session_index (st_world (x_change_quarter_info E) s)
                     in (validators,
                         if validators \<noteq> None \<and> ForceEra s1 = ForceNew
                         then set_force_era NotForcing s1 else s1)
                else (None, s))"

definition new_session ::
  "'x staking_env \<Rightarrow> session \<Rightarrow> 'x staking \<Rightarrow> account list option \<times> 'x staking" where
  "new_session E new_index s = plan_session E new_index (s\<lparr>CurrentPlannedSession := new_index\<rparr>)"

definition historical_new_session ::
  "'x staking_env \<Rightarrow> session \<Rightarrow> 'x staking \<Rightarrow> (account \<times> exposure) list option \<times> 'x staking" where
  "historical_new_session E new_index s =
     (let (validators, s1) = new_session E new_index s;
          current_era = unwrap_or 0 (CurrentEra s1)
      in (map_option (map (\<lambda>v. (v, unwrap_or exposure_default (ErasStakers s1 (current_era, v)))))
            validators, s1))"

section \<open>Starting and ending eras\<close>

text \<open>
  The loop of \<open>apply_unapplied_slashes\<close>: the slashes of the era are taken from storage first, and the
  loop returns at the first error.
\<close>

fun apply_slashes ::
  "'x staking_env \<Rightarrow> era \<Rightarrow> unapplied_slash list \<Rightarrow> 'x staking
   \<Rightarrow> 'x staking \<times> staking_error dispatch_error option" where
  "apply_slashes E slash_era [] s = (s, None)"
| "apply_slashes E slash_era (u # us) s =
     (case apply_slash E u slash_era s of
        (s1, Some e) \<Rightarrow> (s1, Some e)
      | (s1, None) \<Rightarrow> apply_slashes E slash_era us s1)"

definition apply_unapplied_slashes ::
  "'x staking_env \<Rightarrow> era \<Rightarrow> 'x staking \<Rightarrow> 'x staking \<times> staking_error dispatch_error option" where
  "apply_unapplied_slashes E active_era s =
     (let era_slashes = unwrap_or [] (UnappliedSlashes s active_era);
          s1 = s\<lparr>UnappliedSlashes := (UnappliedSlashes s)(active_era := None)\<rparr>
      in apply_slashes E (active_era - c_slash_defer_duration E) era_slashes s1)"

definition prune_bonded ::
  "'x staking_env \<Rightarrow> era \<Rightarrow> (era \<times> session) list \<Rightarrow> 'x staking \<Rightarrow> (era \<times> session) list \<times> 'x staking" where
  "prune_bonded E active_era bonded s =
     (if c_bonding_duration E < active_era then
        let first_kept = active_era - c_bonding_duration E;
            pruned = takeWhile (\<lambda>(era_idx, _). era_idx < first_kept) bonded;
            kept = drop (length pruned) bonded;
            s1 = s\<lparr>st_slash := foldl (\<lambda>sl (e, _). clear_era_metadata e sl) (st_slash s) pruned\<rparr>
        in (kept, case kept of (_, first_session) # _ \<Rightarrow> st_world (x_prune_historical E first_session) s1
                  | [] \<Rightarrow> s1)
      else (bonded, s))"

definition start_era ::
  "'x staking_env \<Rightarrow> session \<Rightarrow> 'x staking \<Rightarrow> 'x staking \<times> staking_error dispatch_error option" where
  "start_era E start_session s =
     (let new_index = (case ActiveEra s of Some i \<Rightarrow> add_w 32 (ae_index i) 1 | None \<Rightarrow> 0);
          s1 = s\<lparr>ActiveEra := Some \<lparr>ae_index = new_index, ae_start = None\<rparr>\<rparr>;
          (bonded, s2) = prune_bonded E new_index (BondedEras s1 @ [(new_index, start_session)]) s1
      in apply_unapplied_slashes E new_index (s2\<lparr>BondedEras := bonded\<rparr>))"

text \<open>
  \<open>start_session\<close>: an error of \<open>start_era\<close> returns before the disabled validators are disabled again
  and before the listeners hear of the session; the caller only logs it.
\<close>

definition start_session ::
  "'x staking_env \<Rightarrow> session \<Rightarrow> 'x staking \<Rightarrow> 'x staking \<times> staking_error dispatch_error option" where
  "start_session E index s =
     (let next_active_era = (case ActiveEra s of Some e \<Rightarrow> add_w 32 (ae_index e) 1 | None \<Rightarrow> 0);
          (s1, r) = (case ErasStartSessionIndex s next_active_era of
             Some start_index \<Rightarrow> if start_index \<le> index then start_era E index s else (s, None)
           | None \<Rightarrow> (s, None))
      in case r of
           Some e \<Rightarrow> (s1, Some e)
         | None \<Rightarrow>
             let s2 = foldl (\<lambda>s i. st_world (x_disable_validator E i) s) s1
                        (DisabledValidators (st_slash s1))
             in (st_world (x_on_new_session E index) s2, None))"

definition store_energy_rate :: "'x staking_env \<Rightarrow> era \<Rightarrow> 'x staking \<Rightarrow> 'x staking" where
  "store_energy_rate E e s =
     (let energy = unwrap_or 0 (x_era_energy E e (st_ext s));
          staked = unwrap_or 0 (ErasTotalStake s e);
          energy_rate = unwrap_or 0 (fx_checked_from_rational (c_fixed E) energy staked)
      in st_deposit (EvEraEnergySet e energy_rate)
           (s\<lparr>ErasEnergyPerStakeCurrency := (ErasEnergyPerStakeCurrency s)(e \<mapsto> energy_rate)\<rparr>))"

definition end_era :: "'x staking_env \<Rightarrow> active_era_info \<Rightarrow> 'x staking \<Rightarrow> 'x staking" where
  "end_era E active_era s =
     (let s1 = store_energy_rate E (ae_index active_era) s
      in s1\<lparr>st_slash := (st_slash s1)\<lparr>DisabledValidators := []\<rparr>\<rparr>)"

definition end_session :: "'x staking_env \<Rightarrow> session \<Rightarrow> 'x staking \<Rightarrow> 'x staking" where
  "end_session E session_index s =
     (case ActiveEra s of
        None \<Rightarrow> s
      | Some active_era \<Rightarrow>
          (case ErasStartSessionIndex s (add_w 32 (ae_index active_era) 1) of
             None \<Rightarrow> s
           | Some next_start \<Rightarrow>
               if next_start = add_w 32 session_index 1 then end_era E active_era s else s))"

definition on_finalize :: "'x staking_env \<Rightarrow> 'x staking \<Rightarrow> 'x staking" where
  "on_finalize E s =
     (case ActiveEra s of
        Some active_era \<Rightarrow>
          if ae_start active_era = None
          then s\<lparr>ActiveEra := Some (active_era\<lparr>ae_start := Some (x_now_millis E (st_ext s))\<rparr>)\<rparr>
          else s
      | None \<Rightarrow> s)"

section \<open>Offences\<close>

record offence_details =
  od_offender :: "account \<times> exposure"
  od_reporters :: "account list"

definition slash_era_of :: "'x staking \<Rightarrow> era \<Rightarrow> session \<Rightarrow> session \<Rightarrow> era option" where
  "slash_era_of s active_era active_era_start slash_session =
     (if active_era_start \<le> slash_session then Some active_era
      else map_option fst (find (\<lambda>(_, sesh). sesh \<le> slash_session) (rev (BondedEras s))))"

definition handle_offender ::
  "'x staking_env \<Rightarrow> nat \<Rightarrow> account list \<Rightarrow> era \<Rightarrow> era \<Rightarrow> era \<Rightarrow> offence_details \<times> nat
   \<Rightarrow> 'x staking \<Rightarrow> 'x staking" where
  "handle_offender E reward_proportion invulnerables slash_era window_start active_era d s =
     (let (details, slash_fraction) = d;
          (stash, exposure) = od_offender details
      in if stash \<in> set invulnerables then s
         else
           let (unapplied, sl) = compute_slash (c_perbill E) (c_libm E)
                 (up_to_limit_decision (c_disabling_factor E) (x_validators E (st_ext s))
                    (map_option ae_index (ActiveEra s)))
                 (x_block_number E (st_ext s)) (st_rep s)
                 \<lparr>pa_stash = stash, pa_slash = slash_fraction, pa_exposure = exposure,
                  pa_slash_era = slash_era, pa_window_start = window_start, pa_now = active_era,
                  pa_reward_proportion = reward_proportion\<rparr> (st_slash s);
               disabled_now = drop (length (sl_session_disabled (st_slash s))) (sl_session_disabled sl);
               s1 = foldl (\<lambda>s i. st_world (x_disable_validator E i) s) (s\<lparr>st_slash := sl\<rparr>) disabled_now;
               s2 = st_deposit (EvSlashReported stash slash_fraction slash_era) s1
           in (case unapplied of
                 None \<Rightarrow> s2
               | Some u0 \<Rightarrow>
                   let u = u0\<lparr>us_reporters := od_reporters details\<rparr>
                   in if c_slash_defer_duration E = 0 then fst (apply_slash E u slash_era s2)
                      else
                        let due_era = sat_add 32 (sat_add 32 slash_era (c_slash_defer_duration E)) 1
                        in s2\<lparr>UnappliedSlashes :=
                             (UnappliedSlashes s2)(due_era \<mapsto>
                                unwrap_or [] (UnappliedSlashes s2 due_era) @ [u])\<rparr>))"

definition on_offence ::
  "'x staking_env \<Rightarrow> offence_details list \<Rightarrow> nat list \<Rightarrow> session \<Rightarrow> 'x staking \<Rightarrow> 'x staking" where
  "on_offence E offenders slash_fraction slash_session s =
     (case ActiveEra s of
        None \<Rightarrow> s
      | Some active \<Rightarrow>
          let active_era = ae_index active;
              active_era_start = unwrap_or 0 (ErasStartSessionIndex s active_era);
              window_start = active_era - c_bonding_duration E
          in (case slash_era_of s active_era active_era_start slash_session of
                None \<Rightarrow> s
              | Some slash_era \<Rightarrow>
                  foldl (\<lambda>t d. handle_offender E (SlashRewardFraction s) (Invulnerables s) slash_era
                                 window_start active_era d t)
                    s (zip offenders slash_fraction)))"

section \<open>Reputation rewards\<close>

definition reward_by_ids :: "'x staking_env \<Rightarrow> (account \<times> nat) list \<Rightarrow> 'x staking \<Rightarrow> 'x staking" where
  "reward_by_ids E validators_points s =
     s\<lparr>st_rep := foldl (\<lambda>R (v, points). increase_creating (c_libm E) v points R) (st_rep s)
                   validators_points\<rparr>"

definition calculate_block_authoring_reward :: "'x staking_env \<Rightarrow> 'x staking \<Rightarrow> nat" where
  "calculate_block_authoring_reward E s =
     sat_mul 64 (BlockAuthoringReward s) (length (x_validators E (st_ext s)))"

definition note_author :: "'x staking_env \<Rightarrow> account \<Rightarrow> 'x staking \<Rightarrow> 'x staking" where
  "note_author E author s =
     (let reward = calculate_block_authoring_reward E s
      in case do_increase_points (c_libm E) author reward (st_rep s) of
           Inr R \<Rightarrow> s\<lparr>st_rep := R\<rparr>
         | Inl e \<Rightarrow> s\<lparr>st_rep := rep_deposit (ReputationIncreaseFailed author e reward) (st_rep s)\<rparr>)"

section \<open>Paying an era's stakers\<close>

definition make_payout ::
  "'x staking_env \<Rightarrow> account \<Rightarrow> balance \<Rightarrow> 'x staking \<Rightarrow> 'x staking \<times> balance option" where
  "make_payout E stash amount s =
     (let pay = (\<lambda>a. case x_deposit_energy E a amount (st_ext s) of
                       None \<Rightarrow> (s, None) | Some (ext, paid) \<Rightarrow> (s\<lparr>st_ext := ext\<rparr>, Some paid))
      in case unwrap_or ToController (Payee s stash) of
           ToController \<Rightarrow> (case Bonded s stash of None \<Rightarrow> (s, None) | Some c \<Rightarrow> pay c)
         | ToStash \<Rightarrow> pay stash
         | ToAccount a \<Rightarrow> pay a
         | ToNone \<Rightarrow> (s, None))"

definition pay_staker ::
  "'x staking_env \<Rightarrow> account \<Rightarrow> balance \<Rightarrow> balance \<times> 'x staking \<Rightarrow> balance \<times> 'x staking" where
  "pay_staker E stash amount acc =
     (case make_payout E stash amount (snd acc) of
        (s1, None) \<Rightarrow> (fst acc, s1)
      | (s1, Some paid) \<Rightarrow> (sat_add 128 (fst acc) paid, st_deposit (EvRewarded stash paid) s1))"

text \<open>The three parts of a validator's payout: its total, its commission, and what is left to split.\<close>

definition payout_parts ::
  "'x staking_env \<Rightarrow> nat \<Rightarrow> nat \<Rightarrow> exposure \<Rightarrow> balance \<times> balance \<times> balance" where
  "payout_parts E rate commission ex =
     (let total_payout = fx_saturating_mul_int (c_fixed E) rate (ex_total ex);
          commission_payout = pt_mul (c_perbill E) commission total_payout
      in (total_payout, commission_payout, sub_w 128 total_payout commission_payout))"

definition exposure_share :: "'x staking_env \<Rightarrow> exposure \<Rightarrow> balance \<Rightarrow> balance \<Rightarrow> balance" where
  "exposure_share E ex part leftover =
     pt_mul (c_perbill E) (pt_from_rational (c_perbill E) part (ex_total ex)) leftover"

definition payout_checks ::
  "'x staking_env \<Rightarrow> account \<Rightarrow> era \<Rightarrow> 'x staking
   \<Rightarrow> staking_error dispatch_error + nat \<times> account \<times> ledger" where
  "payout_checks E validator_stash e s =
     (let active_era = unwrap_or 0 (map_option ae_index (ActiveEra s))
      in rbind (ensure (e \<noteq> active_era) (Module InvalidEraToReward)) (\<lambda>_.
         rbind (ok_or (Module InvalidEraToReward) (CurrentEra s)) (\<lambda>current_era.
         rbind (ensure (e \<le> current_era \<and> current_era - c_history_depth E \<le> e)
                  (Module InvalidEraToReward)) (\<lambda>_.
         rbind (ok_or (Module InvalidEraToReward) (ErasEnergyPerStakeCurrency s e)) (\<lambda>rate.
         rbind (ok_or (Module NotStash) (Bonded s validator_stash)) (\<lambda>controller.
         rbind (ok_or (Module NotController) (Ledger s controller)) (\<lambda>l.
           let claimed = filter (\<lambda>x. current_era - c_history_depth E \<le> x) (l_claimed l)
           in (case binary_search claimed e of
                 Found _ \<Rightarrow> Inl (Module AlreadyClaimed)
               | Missing pos \<Rightarrow>
                   if length claimed < c_history_depth E
                   then Inr (rate, controller, l\<lparr>l_claimed := insert_at pos e claimed\<rparr>)
                   else Inl (Module BoundNotMet)))))))))"

definition do_payout_stakers :: "'x staking_env \<Rightarrow> account \<Rightarrow> era \<Rightarrow> 'x staking \<Rightarrow> 'x call" where
  "do_payout_stakers E validator_stash e s =
     rbind (payout_checks E validator_stash e s) (\<lambda>(rate, controller, l).
       let ex = unwrap_or exposure_default (ErasStakersClipped s (e, l_stash l));
           s1 = s\<lparr>Ledger := (Ledger s)(controller \<mapsto> l)\<rparr>;
           prefs = unwrap_or default_prefs (ErasValidatorPrefs s (e, validator_stash));
           (total_payout, commission_payout, leftover) = payout_parts E rate (vp_commission prefs) ex;
           s2 = st_deposit (EvPayoutStarted e (l_stash l)) s1;
           acc = pay_staker E (l_stash l)
                   (add_w 128 (exposure_share E ex (ex_own ex) leftover) commission_payout) (0, s2);
           (total_imbalance, s3) =
             foldl (\<lambda>acc c. pay_staker E (ie_who c) (exposure_share E ex (ie_value c) leftover) acc)
               acc (ex_others ex)
       in Inr (st_world (x_reward_unbalanced E total_imbalance) s3))"

section \<open>Eras and sessions for other pallets\<close>

definition lookup_active_era :: "'x staking \<Rightarrow> era option" where
  "lookup_active_era s = map_option ae_index (ActiveEra s)"

text \<open>The loop \<open>for era in (0..=current_era).rev()\<close>; \<open>?\<close> leaves the function at a missing start.\<close>

fun search_eras :: "'x staking \<Rightarrow> session \<Rightarrow> nat \<Rightarrow> era option" where
  "search_eras s session_index n =
     (case ErasStartSessionIndex s n of
        None \<Rightarrow> None
      | Some start_index \<Rightarrow>
          if start_index \<le> session_index then Some n
          else (case n of 0 \<Rightarrow> None | Suc m \<Rightarrow> search_eras s session_index m))"

declare search_eras.simps [simp del]

definition era_for_session :: "'x staking \<Rightarrow> session \<Rightarrow> era option" where
  "era_for_session s session_index =
     (if session_index \<le> CurrentPlannedSession s
      then (case CurrentEra s of None \<Rightarrow> None | Some current_era \<Rightarrow> search_eras s session_index current_era)
      else None)"

definition session_range_for_era :: "'x staking \<Rightarrow> era \<Rightarrow> (session \<times> session) option" where
  "session_range_for_era s era_index =
     (case ErasStartSessionIndex s era_index of
        None \<Rightarrow> None
      | Some start \<Rightarrow>
          Some (start, unwrap_or (sat_add 32 (CurrentPlannedSession s) 1)
                         (ErasStartSessionIndex s (sat_add 32 era_index 1))))"

definition total_stake :: "'x staking \<Rightarrow> era \<Rightarrow> balance" where
  "total_stake s e = unwrap_or 0 (ErasTotalStake s e)"

end
