(* ===== verification/StakingCalls.thy ===== *)
theory StakingCalls
  imports StakingEra
begin

text \<open>
  The dispatchables of the staking pallet (\<open>pallets/energy-generation/src/pallet/mod.rs\<close>)
  and the VIP exit slash of \<open>pallet/impls.rs\<close>. A dispatchable runs in a storage layer,
  so it returns the error alone or the new state; weights are not modelled.
\<close>

section \<open>Bonding\<close>

definition bond ::
  "'x staking_env \<Rightarrow> origin \<Rightarrow> account \<Rightarrow> balance \<Rightarrow> reward_destination \<Rightarrow> 'x staking \<Rightarrow> 'x call" where
  "bond E og controller_address value payee s =
     rbind (ensure_signed og) (\<lambda>stash.
     rbind (ensure (Bonded s stash = None) (Module AlreadyBonded)) (\<lambda>_.
     rbind (ok_or (Extern ''Lookup'') (x_lookup E (st_ext s) controller_address)) (\<lambda>controller.
     rbind (ensure (Ledger s controller = None) (Module AlreadyPaired)) (\<lambda>_.
     rbind (ensure (x_minimum_balance E \<le> value) (Module InsufficientBond)) (\<lambda>_.
     rbind (ok_or (Module BadState) (x_inc_consumers E stash (st_ext s))) (\<lambda>ext.
       let s1 = s\<lparr>st_ext := ext, Bonded := (Bonded s)(stash \<mapsto> controller),
                  Payee := (Payee s)(stash \<mapsto> payee)\<rparr>;
           current_era = unwrap_or 0 (CurrentEra s1);
           last_reward_era = current_era - c_history_depth E;
           value' = min value (x_free_balance E (st_ext s1) stash);
           item = \<lparr>l_stash = stash, l_total = value', l_active = value', l_unlocking = [],
                   l_claimed = [last_reward_era..<current_era]\<rparr>
       in Inr (update_ledger E controller item (st_deposit (EvBonded stash value') s1))))))))"

definition bond_extra :: "'x staking_env \<Rightarrow> origin \<Rightarrow> balance \<Rightarrow> 'x staking \<Rightarrow> 'x call" where
  "bond_extra E og max_additional s =
     rbind (ensure_signed og) (\<lambda>stash.
     rbind (ok_or (Module NotStash) (Bonded s stash)) (\<lambda>controller.
     rbind (ok_or (Module NotController) (Ledger s controller)) (\<lambda>l.
       case checked_sub (x_free_balance E (st_ext s) stash) (l_total l) of
         None \<Rightarrow> Inr s
       | Some extra0 \<Rightarrow>
           let extra = min extra0 max_additional;
               l' = l\<lparr>l_total := add_w 128 (l_total l) extra, l_active := add_w 128 (l_active l) extra\<rparr>
           in rbind (ensure (x_minimum_balance E \<le> l_active l') (Module InsufficientBond)) (\<lambda>_.
                Inr (st_deposit (EvBonded stash extra)
                       (update_active_stake E stash (update_ledger E controller l' s)))))))"

text \<open>The minimum bond for the role of a stash, as \<open>unbond\<close> and \<open>chill_other\<close> read it.\<close>

definition min_active_bond :: "'x staking_env \<Rightarrow> 'x staking \<Rightarrow> account \<Rightarrow> balance" where
  "min_active_bond E s stash =
     (if Cooperators s stash \<noteq> None then MinCooperatorBond s
      else if Validators s stash \<noteq> None then min_bond_for_validator E s stash
      else 0)"

text \<open>Adding to the last chunk of the era or pushing a new one; \<open>None\<close> is the full vector.\<close>

definition push_chunk :: "nat \<Rightarrow> balance \<Rightarrow> era \<Rightarrow> unlock_chunk list \<Rightarrow> unlock_chunk list option" where
  "push_chunk bound value e cs =
     (if cs \<noteq> [] \<and> uc_era (last cs) = e
      then Some (butlast cs @ [(last cs)\<lparr>uc_value := sat_add 128 (uc_value (last cs)) value\<rparr>])
      else if length cs < bound then Some (cs @ [\<lparr>uc_value = value, uc_era = e\<rparr>])
      else None)"

text \<open>The end of \<open>unbond\<close>: the exit tax leaves the stash and the total, the ledger is stored.\<close>

definition unbond_finish ::
  "'x staking_env \<Rightarrow> account \<Rightarrow> ledger \<Rightarrow> balance \<Rightarrow> unlock_chunk list \<Rightarrow> balance \<Rightarrow> balance
   \<Rightarrow> 'x staking \<Rightarrow> 'x staking" where
  "unbond_finish E controller l active unlocking slashed_stake value s =
     (let (s1, total) =
            (if slashed_stake \<noteq> 0
             then let (ext, imbalance, _) = x_slash E (l_stash l) slashed_stake (st_ext s)
                  in (s\<lparr>st_ext := x_slash_unbalanced E imbalance ext\<rparr>,
                      sub_w 128 (l_total l) slashed_stake)
             else (s, l_total l));
          l' = l\<lparr>l_active := active, l_unlocking := unlocking, l_total := total\<rparr>;
          s2 = update_ledger E controller l' s1;
          s3 = adjust_cooperator_targets E (l_stash l') (l_active l') s2
      in st_deposit (EvUnbonded (l_stash l') value) s3)"

definition unbond_value ::
  "'x staking_env \<Rightarrow> account \<Rightarrow> ledger \<Rightarrow> balance \<Rightarrow> 'x staking \<Rightarrow> 'x call" where
  "unbond_value E controller l value0 s =
     (let tax_percent = x_tax_percent E (st_ext s) (l_stash l);
          slashed0 = pt_mul (c_perbill E) tax_percent value0;
          active1 = sub_w 128 (l_active l) value0;
          (value1, slashed_stake, active) =
            (if active1 < x_minimum_balance E
             then (add_w 128 value0 active1,
                   add_w 128 slashed0 (pt_mul (c_perbill E) tax_percent active1), 0)
             else (value0, slashed0, active1))
      in rbind (ensure (min_active_bond E s (l_stash l) \<le> active) (Module InsufficientBond)) (\<lambda>_.
           let e = add_w 32 (unwrap_or 0 (CurrentEra s)) (c_bonding_duration E);
               value = sub_w 128 value1 slashed_stake
           in rbind (ok_or (Module NoMoreChunks)
                       (push_chunk (c_max_unlocking_chunks E) value e (l_unlocking l))) (\<lambda>unlocking.
                Inr (unbond_finish E controller l active unlocking slashed_stake value s))))"

definition unbond :: "'x staking_env \<Rightarrow> origin \<Rightarrow> balance \<Rightarrow> 'x staking \<Rightarrow> 'x call" where
  "unbond E og value s =
     rbind (ensure_signed og) (\<lambda>controller.
     rbind (ok_or (Module NotController) (Ledger s controller)) (\<lambda>l0.
     rbind (if length (l_unlocking l0) = c_max_unlocking_chunks E
            then do_withdraw_unbonded E controller
                   (case SlashingSpans (st_slash s) controller of
                      None \<Rightarrow> 0 | Some sp \<Rightarrow> length (spans_iter sp)) s
            else Inr s) (\<lambda>s1.
     rbind (ok_or (Module NotController) (Ledger s1 controller)) (\<lambda>l.
       let value' = min value (l_active l)
       in rbind (ensure (length (l_unlocking l) < c_max_unlocking_chunks E) (Module NoMoreChunks)) (\<lambda>_.
            if value' \<noteq> 0 then unbond_value E controller l value' s1 else Inr s1)))))"

definition withdraw_unbonded :: "'x staking_env \<Rightarrow> origin \<Rightarrow> nat \<Rightarrow> 'x staking \<Rightarrow> 'x call" where
  "withdraw_unbonded E og num_slashing_spans s =
     rbind (ensure_signed og) (\<lambda>controller. do_withdraw_unbonded E controller num_slashing_spans s)"

definition rebond :: "'x staking_env \<Rightarrow> origin \<Rightarrow> balance \<Rightarrow> 'x staking \<Rightarrow> 'x call" where
  "rebond E og value s =
     rbind (ensure_signed og) (\<lambda>controller.
     rbind (ok_or (Module NotController) (Ledger s controller)) (\<lambda>l.
     rbind (ensure (l_unlocking l \<noteq> []) (Module NoUnlockChunk)) (\<lambda>_.
       let (l', rebonded_value) = ledger_rebond value l
       in rbind (ensure (x_minimum_balance E \<le> l_active l') (Module InsufficientBond)) (\<lambda>_.
            Inr (update_ledger E controller l'
                   (st_deposit (EvBonded (l_stash l') rebonded_value) s))))))"

definition set_payee :: "origin \<Rightarrow> reward_destination \<Rightarrow> 'x staking \<Rightarrow> 'x call" where
  "set_payee og payee s =
     rbind (ensure_signed og) (\<lambda>controller.
     rbind (ok_or (Module NotController) (Ledger s controller)) (\<lambda>l.
       Inr (s\<lparr>Payee := (Payee s)(l_stash l \<mapsto> payee)\<rparr>)))"

definition set_controller :: "'x staking_env \<Rightarrow> origin \<Rightarrow> account \<Rightarrow> 'x staking \<Rightarrow> 'x call" where
  "set_controller E og controller_address s =
     rbind (ensure_signed og) (\<lambda>stash.
     rbind (ok_or (Module NotStash) (Bonded s stash)) (\<lambda>old_controller.
     rbind (ok_or (Extern ''Lookup'') (x_lookup E (st_ext s) controller_address)) (\<lambda>controller.
     rbind (ensure (Ledger s controller = None) (Module AlreadyPaired)) (\<lambda>_.
       Inr (if controller \<noteq> old_controller
            then s\<lparr>Bonded := (Bonded s)(stash \<mapsto> controller),
                   Ledger := (case Ledger s old_controller of
                                Some l \<Rightarrow> (Ledger s)(old_controller := None, controller \<mapsto> l)
                              | None \<Rightarrow> Ledger s)\<rparr>
            else s)))))"

definition force_unstake ::
  "'x staking_env \<Rightarrow> origin \<Rightarrow> account \<Rightarrow> nat \<Rightarrow> 'x staking \<Rightarrow> 'x call" where
  "force_unstake E og stash num_slashing_spans s =
     rbind (ensure_root og) (\<lambda>_.
     rbind (kill_stash E stash num_slashing_spans s) (\<lambda>s1.
       Inr (st_world (x_remove_lock E stash) s1)))"

definition reap_stash :: "'x staking_env \<Rightarrow> origin \<Rightarrow> account \<Rightarrow> nat \<Rightarrow> 'x staking \<Rightarrow> 'x call" where
  "reap_stash E og stash num_slashing_spans s =
     rbind (ensure_signed og) (\<lambda>_.
       let ed = x_minimum_balance E
       in rbind (if x_total_balance E (st_ext s) stash < ed then Inr True
                 else rbind (ok_or (Module NotStash) (Bonded s stash)) (\<lambda>controller.
                        Inr (unwrap_or 0 (map_option l_total (Ledger s controller)) < ed))) (\<lambda>reapable.
          rbind (ensure reapable (Module FundedTarget)) (\<lambda>_.
          rbind (kill_stash E stash num_slashing_spans s) (\<lambda>s1.
            Inr (st_world (x_remove_lock E stash) s1)))))"

section \<open>Roles\<close>

definition update_prefs :: "'x staking_env \<Rightarrow> validator_prefs \<Rightarrow> validator_prefs" where
  "update_prefs E prefs =
     prefs\<lparr>vp_min_coop_reputation := rep_from_tier (c_libm E) (Vanguard 1)\<rparr>"

definition below_max :: "nat option \<Rightarrow> nat \<Rightarrow> bool" where
  "below_max limit count = (case limit of None \<Rightarrow> True | Some m \<Rightarrow> count < m)"

definition validate :: "'x staking_env \<Rightarrow> origin \<Rightarrow> validator_prefs \<Rightarrow> 'x staking \<Rightarrow> 'x call" where
  "validate E og prefs0 s =
     rbind (ensure_signed og) (\<lambda>controller.
       let prefs = update_prefs E prefs0
       in rbind (ok_or (Module NotController) (Ledger s controller)) (\<lambda>l.
          rbind (ensure (min_bond_for_validator E s (l_stash l) \<le> l_active l) (Module InsufficientBond)) (\<lambda>_.
            let stash = l_stash l
            in rbind (ensure (is_legit_for_validator E s stash) (Module ReputationTooLow)) (\<lambda>_.
               rbind (ensure (MinCommission s \<le> vp_commission prefs) (Module CommissionTooLow)) (\<lambda>_.
               rbind (ensure (vp_collaborative prefs \<longrightarrow> is_legit_for_collab E s stash)
                        (Module ReputationTooLow)) (\<lambda>_.
               rbind (ensure (Validators s stash = None \<longrightarrow>
                                below_max (MaxValidatorsCount s) (card (dom (Validators s))))
                        (Module TooManyValidators)) (\<lambda>_.
                 let s1 = snd (do_remove_cooperator E stash s);
                     s2 = st_deposit (EvValidatorPrefsSet stash prefs) (do_add_validator stash prefs s1)
                 in Inr (update_active_stake E stash s2))))))))"

fun btree_insert :: "account \<Rightarrow> 'v \<Rightarrow> (account \<times> 'v) list \<Rightarrow> (account \<times> 'v) list" where
  "btree_insert k v [] = [(k, v)]"
| "btree_insert k v ((k', v') # xs) =
     (if k < k' then (k, v) # (k', v') # xs
      else if k = k' then (k, v) # xs
      else (k', v') # btree_insert k v xs)"

definition btree_of_list :: "(account \<times> 'v) list \<Rightarrow> (account \<times> 'v) list" where
  "btree_of_list xs = foldl (\<lambda>m (k, v). btree_insert k v m) [] xs"

text \<open>The checks of the targets, in order, up to the first that fails.\<close>

fun check_targets ::
  "'x staking_env \<Rightarrow> 'x staking \<Rightarrow> reputation \<Rightarrow> (account \<times> balance) list \<Rightarrow> (account \<times> balance) list
   \<Rightarrow> staking_error dispatch_error + (account \<times> balance) list" where
  "check_targets E s rep old [] = Inr []"
| "check_targets E s rep old ((address, stake) # ts) =
     rbind (ok_or (Extern ''Lookup'') (x_lookup E (st_ext s) address)) (\<lambda>n.
       let target = validators_of s n
       in if \<not> is_legit_for_collab E s n \<or> rep_less rep (vp_min_coop_reputation target)
          then Inl (Module ReputationTooLow)
          else if map_of old n \<noteq> None \<or> vp_collaborative target
          then rbind (check_targets E s rep old ts) (\<lambda>rest. Inr ((n, stake) # rest))
          else Inl (Module BadTarget))"

definition cooperate :: "'x staking_env \<Rightarrow> origin \<Rightarrow> (account \<times> balance) list \<Rightarrow> 'x staking \<Rightarrow> 'x call" where
  "cooperate E og targets0 s =
     rbind (ensure_signed og) (\<lambda>controller.
     rbind (ok_or (Module NotController) (Ledger s controller)) (\<lambda>l.
     rbind (ensure (MinCooperatorBond s \<le> l_active l) (Module InsufficientBond)) (\<lambda>_.
     rbind (ensure (sat_sum 128 (map snd targets0) \<le> l_active l) (Module InsufficientBond)) (\<lambda>_.
       let stash = l_stash l;
           targets = filter (\<lambda>(_, stake). 0 < stake) targets0
       in rbind (ensure (Cooperators s stash = None \<longrightarrow>
                           below_max (MaxCooperatorsCount s) (card (dom (Cooperators s))))
                   (Module TooManyCooperators)) (\<lambda>_.
          rbind (ensure (targets \<noteq> []) (Module EmptyTargets)) (\<lambda>_.
          rbind (ensure (length targets \<le> c_max_cooperations E) (Module TooManyTargets)) (\<lambda>_.
            let old = (case Cooperators s stash of None \<Rightarrow> [] | Some c \<Rightarrow> co_targets c)
            in rbind (check_targets E s (reputation_of E s stash) old targets) (\<lambda>checked.
                 let new_targets = btree_of_list checked
                 in rbind (ensure (length new_targets \<le> c_max_cooperations E) (Module TooManyCooperators)) (\<lambda>_.
                      let s1 = snd (do_remove_validator E stash s)
                      in rbind (do_add_cooperator stash
                                  \<lparr>co_targets = new_targets,
                                   co_submitted_in = unwrap_or 0 (CurrentEra s), co_suppressed = False\<rparr> s1) (\<lambda>s2.
                           Inr (st_deposit (EvCooperated controller targets)
                                  (update_active_stake E stash s2))))))))))))"

text \<open>The common end of \<open>chill\<close>, \<open>chill_other\<close> and \<open>force_chill\<close>.\<close>

definition chill_both :: "'x staking_env \<Rightarrow> account \<Rightarrow> 'x staking \<Rightarrow> 'x staking" where
  "chill_both E stash s = chill_stash E stash (do_remove_validator_from_cooperators_target stash s)"

definition chill :: "'x staking_env \<Rightarrow> origin \<Rightarrow> 'x staking \<Rightarrow> 'x call" where
  "chill E og s =
     rbind (ensure_signed og) (\<lambda>controller.
     rbind (ok_or (Module NotController) (Ledger s controller)) (\<lambda>l.
       Inr (chill_both E (l_stash l) s)))"

definition force_chill :: "'x staking_env \<Rightarrow> origin \<Rightarrow> account \<Rightarrow> 'x staking \<Rightarrow> 'x call" where
  "force_chill E og controller s =
     rbind (ensure_root og) (\<lambda>_.
     rbind (ok_or (Module NotController) (Ledger s controller)) (\<lambda>l.
       Inr (chill_both E (l_stash l) s)))"

text \<open>
  The first branch of the code, for a stored cooperator that no longer decodes, has no counterpart:
  a stored value of the model always decodes.
\<close>

definition chill_other :: "'x staking_env \<Rightarrow> origin \<Rightarrow> account \<Rightarrow> 'x staking \<Rightarrow> 'x call" where
  "chill_other E og controller s =
     rbind (ensure_signed og) (\<lambda>caller.
     rbind (ok_or (Module NotController) (Ledger s controller)) (\<lambda>l.
       let stash = l_stash l
       in rbind (if caller \<noteq> controller then
                   rbind (ok_or (Module CannotChillOther) (ChillThreshold s)) (\<lambda>threshold.
                   rbind (if Cooperators s stash \<noteq> None then
                            rbind (ok_or (Module CannotChillOther) (MaxCooperatorsCount s)) (\<lambda>m.
                            rbind (ensure (pt_mul (c_percent E) threshold m < card (dom (Cooperators s)))
                                     (Module CannotChillOther)) (\<lambda>_. Inr (MinCooperatorBond s)))
                          else if Validators s stash \<noteq> None then
                            rbind (ok_or (Module CannotChillOther) (MaxValidatorsCount s)) (\<lambda>m.
                            rbind (ensure (pt_mul (c_percent E) threshold m < card (dom (Validators s)))
                                     (Module CannotChillOther)) (\<lambda>_. Inr (min_bond_for_validator E s stash)))
                          else Inr 0) (\<lambda>min_bond.
                     ensure (l_active l < min_bond) (Module CannotChillOther)))
                 else Inr ()) (\<lambda>_. Inr (chill_both E stash s))))"

fun lookup_all :: "'x staking_env \<Rightarrow> 'x staking \<Rightarrow> account list
    \<Rightarrow> staking_error dispatch_error + account list" where
  "lookup_all E s [] = Inr []"
| "lookup_all E s (a # as) =
     rbind (ok_or (Extern ''Lookup'') (x_lookup E (st_ext s) a)) (\<lambda>n.
     rbind (lookup_all E s as) (\<lambda>ns. Inr (n # ns)))"

definition kick_one :: "'x staking_env \<Rightarrow> account \<Rightarrow> account \<Rightarrow> 'x staking \<Rightarrow> 'x staking" where
  "kick_one E stash coop s =
     (let s1 = s\<lparr>Collaborations := drop_collaborator coop stash (Collaborations s)\<rparr>;
          s2 = (case Cooperators s1 coop of
                  None \<Rightarrow> s1
                | Some co \<Rightarrow>
                    if map_of (co_targets co) stash \<noteq> None
                    then st_deposit (EvKicked coop stash)
                           (s1\<lparr>Cooperators := (Cooperators s1)(coop \<mapsto> remove_target stash co)\<rparr>)
                    else s1)
      in update_active_stake E coop s2)"

definition kick :: "'x staking_env \<Rightarrow> origin \<Rightarrow> account list \<Rightarrow> 'x staking \<Rightarrow> 'x call" where
  "kick E og who s =
     rbind (ensure_signed og) (\<lambda>controller.
     rbind (ok_or (Module NotController) (Ledger s controller)) (\<lambda>l.
     rbind (lookup_all E s who) (\<lambda>coops.
       Inr (update_active_stake E (l_stash l) (foldl (\<lambda>s c. kick_one E (l_stash l) c s) s coops)))))"

definition make_collaborative :: "'x staking_env \<Rightarrow> origin \<Rightarrow> 'x staking \<Rightarrow> 'x call" where
  "make_collaborative E og s =
     rbind (ensure_signed og) (\<lambda>stash.
     rbind (ensure (is_legit_for_collab E s stash) (Module ReputationTooLow)) (\<lambda>_.
     rbind (ok_or (Module NotStash) (Validators s stash)) (\<lambda>prefs.
       Inr (s\<lparr>Validators := (Validators s)(stash \<mapsto> prefs\<lparr>vp_collaborative := True\<rparr>)\<rparr>))))"

definition force_apply_min_commission :: "origin \<Rightarrow> account \<Rightarrow> 'x staking \<Rightarrow> 'x call" where
  "force_apply_min_commission og validator_stash s =
     rbind (ensure_signed og) (\<lambda>_.
     rbind (ok_or (Module NotStash) (Validators s validator_stash)) (\<lambda>prefs.
       Inr (s\<lparr>Validators := (Validators s)(validator_stash \<mapsto>
              (if vp_commission prefs < MinCommission s
               then prefs\<lparr>vp_commission := MinCommission s\<rparr> else prefs))\<rparr>)))"

section \<open>Administration\<close>

definition put_validator_count :: "nat \<Rightarrow> 'x staking \<Rightarrow> 'x call" where
  "put_validator_count new s =
     rbind (ensure (case MaxValidatorsCount s of None \<Rightarrow> True | Some m \<Rightarrow> new \<le> m)
              (Module IncorrectValidatorCount)) (\<lambda>_. Inr (s\<lparr>ValidatorCount := new\<rparr>))"

definition set_validator_count :: "origin \<Rightarrow> nat \<Rightarrow> 'x staking \<Rightarrow> 'x call" where
  "set_validator_count og new s = rbind (ensure_root og) (\<lambda>_. put_validator_count new s)"

definition increase_validator_count :: "origin \<Rightarrow> nat \<Rightarrow> 'x staking \<Rightarrow> 'x call" where
  "increase_validator_count og additional s =
     rbind (ensure_root og) (\<lambda>_.
     rbind (ok_or (Extern ''Overflow'') (checked_add 32 (ValidatorCount s) additional)) (\<lambda>new.
       put_validator_count new s))"

definition scale_validator_count :: "'x staking_env \<Rightarrow> origin \<Rightarrow> nat \<Rightarrow> 'x staking \<Rightarrow> 'x call" where
  "scale_validator_count E og factor s =
     rbind (ensure_root og) (\<lambda>_.
     rbind (ok_or (Extern ''Overflow'') (checked_add 32 (ValidatorCount s)
              (pt_mul_floor (c_percent E) factor (ValidatorCount s)))) (\<lambda>new.
       put_validator_count new s))"

definition set_core_nodes_count :: "origin \<Rightarrow> nat \<Rightarrow> 'x staking \<Rightarrow> 'x call" where
  "set_core_nodes_count og n s = rbind (ensure_root og) (\<lambda>_. Inr (s\<lparr>CoreNodesCount := n\<rparr>))"

definition force_era_mode :: "forcing \<Rightarrow> origin \<Rightarrow> 'x staking \<Rightarrow> 'x call" where
  "force_era_mode mode og s = rbind (ensure_root og) (\<lambda>_. Inr (set_force_era mode s))"

definition force_no_eras :: "origin \<Rightarrow> 'x staking \<Rightarrow> 'x call" where
  "force_no_eras = force_era_mode ForceNone"

definition force_new_era :: "origin \<Rightarrow> 'x staking \<Rightarrow> 'x call" where
  "force_new_era = force_era_mode ForceNew"

definition force_new_era_always :: "origin \<Rightarrow> 'x staking \<Rightarrow> 'x call" where
  "force_new_era_always = force_era_mode ForceAlways"

definition set_invulnerables :: "origin \<Rightarrow> account list \<Rightarrow> 'x staking \<Rightarrow> 'x call" where
  "set_invulnerables og accs s = rbind (ensure_root og) (\<lambda>_. Inr (s\<lparr>Invulnerables := accs\<rparr>))"

fun is_sorted_and_unique :: "nat list \<Rightarrow> bool" where
  "is_sorted_and_unique (a # b # xs) \<longleftrightarrow> a < b \<and> is_sorted_and_unique (b # xs)"
| "is_sorted_and_unique _ \<longleftrightarrow> True"

definition remove_at :: "nat \<Rightarrow> 'a list \<Rightarrow> 'a list" where
  "remove_at i xs = take i xs @ drop (Suc i) xs"

text \<open>The loop over \<open>slash_indices.into_iter().enumerate()\<close>.\<close>

fun remove_indices :: "nat \<Rightarrow> nat list \<Rightarrow> 'a list \<Rightarrow> 'a list" where
  "remove_indices removed [] xs = xs"
| "remove_indices removed (i # is) xs = remove_indices (Suc removed) is (remove_at (i - removed) xs)"

definition ensure_admin :: "'x staking_env \<Rightarrow> origin \<Rightarrow> staking_error dispatch_error + unit" where
  "ensure_admin E og = ensure (c_admin_origin E og) BadOrigin"

definition cancel_deferred_slash ::
  "'x staking_env \<Rightarrow> origin \<Rightarrow> era \<Rightarrow> nat list \<Rightarrow> 'x staking \<Rightarrow> 'x call" where
  "cancel_deferred_slash E og e slash_indices s =
     rbind (ensure_admin E og) (\<lambda>_.
     rbind (ensure (slash_indices \<noteq> []) (Module EmptyTargets)) (\<lambda>_.
     rbind (ensure (is_sorted_and_unique slash_indices) (Module NotSortedAndUnique)) (\<lambda>_.
       let unapplied = unwrap_or [] (UnappliedSlashes s e)
       in rbind (ensure (last slash_indices < length unapplied) (Module InvalidSlashIndex)) (\<lambda>_.
            Inr (s\<lparr>UnappliedSlashes :=
                   (UnappliedSlashes s)(e \<mapsto> remove_indices 0 slash_indices unapplied)\<rparr>)))))"

definition payout_stakers :: "'x staking_env \<Rightarrow> origin \<Rightarrow> account \<Rightarrow> era \<Rightarrow> 'x staking \<Rightarrow> 'x call" where
  "payout_stakers E og validator_stash e s =
     rbind (ensure_signed og) (\<lambda>_. do_payout_stakers E validator_stash e s)"

datatype 'a config_op = Noop | Set 'a | Remove

definition op_value :: "nat \<Rightarrow> nat config_op \<Rightarrow> nat" where
  "op_value old c = (case c of Noop \<Rightarrow> old | Set v \<Rightarrow> v | Remove \<Rightarrow> 0)"

definition op_option :: "nat option \<Rightarrow> nat config_op \<Rightarrow> nat option" where
  "op_option old c = (case c of Noop \<Rightarrow> old | Set v \<Rightarrow> Some v | Remove \<Rightarrow> None)"

definition set_staking_configs ::
  "origin \<Rightarrow> nat config_op \<Rightarrow> nat config_op \<Rightarrow> nat config_op \<Rightarrow> nat config_op \<Rightarrow> nat config_op
   \<Rightarrow> nat config_op \<Rightarrow> nat config_op \<Rightarrow> 'x staking \<Rightarrow> 'x call" where
  "set_staking_configs og min_coop min_common min_trust max_coop max_val threshold commission s =
     rbind (ensure_root og) (\<lambda>_.
       Inr (s\<lparr>MinCooperatorBond := op_value (MinCooperatorBond s) min_coop,
              MinCommonValidatorBond := op_value (MinCommonValidatorBond s) min_common,
              MinTrustValidatorBond := op_value (MinTrustValidatorBond s) min_trust,
              MaxCooperatorsCount := op_option (MaxCooperatorsCount s) max_coop,
              MaxValidatorsCount := op_option (MaxValidatorsCount s) max_val,
              ChillThreshold := op_option (ChillThreshold s) threshold,
              MinCommission := op_value (MinCommission s) commission\<rparr>))"

definition set_min_commission :: "'x staking_env \<Rightarrow> origin \<Rightarrow> nat \<Rightarrow> 'x staking \<Rightarrow> 'x call" where
  "set_min_commission E og new s = rbind (ensure_admin E og) (\<lambda>_. Inr (s\<lparr>MinCommission := new\<rparr>))"

definition set_energy_per_stake_currency ::
  "'x staking_env \<Rightarrow> origin \<Rightarrow> nat \<Rightarrow> 'x staking \<Rightarrow> 'x call" where
  "set_energy_per_stake_currency E og energy s =
     rbind (ensure_admin E og) (\<lambda>_. Inr (s\<lparr>CurrentEnergyPerStakeCurrency := Some energy\<rparr>))"

definition set_block_authoring_reward ::
  "'x staking_env \<Rightarrow> origin \<Rightarrow> nat \<Rightarrow> 'x staking \<Rightarrow> 'x call" where
  "set_block_authoring_reward E og reward s =
     rbind (ensure_admin E og) (\<lambda>_. Inr (s\<lparr>BlockAuthoringReward := reward\<rparr>))"

section \<open>The exit tax of a VIP member\<close>

text \<open>The loop over the targets: the tax so far and the targets that stay above the minimum.\<close>

fun tax_targets ::
  "'x staking_env \<Rightarrow> 'x staking \<Rightarrow> account \<Rightarrow> nat \<Rightarrow> (account \<times> balance) list
   \<Rightarrow> balance \<times> (account \<times> balance) list" where
  "tax_targets E s a tax_percent [] = (0, [])"
| "tax_targets E s a tax_percent ((target, stake) # ts) =
     (let (tax_value, new_targets) = tax_targets E s a tax_percent ts;
          tax = pt_mul (c_perbill E) tax_percent stake
      in case Collaborations s target of
           None \<Rightarrow> (tax_value, new_targets)
         | Some collab \<Rightarrow>
             if a \<in> set collab
             then (add_w 128 tax_value tax,
                   if MinCooperatorBond s \<le> sub_w 128 stake tax
                   then (target, stake - tax) # new_targets else new_targets)
             else (tax_value, new_targets))"

text \<open>The tax and the roles: a validator left under its bond is chilled, a cooperator's targets shrink.\<close>

definition vip_tax ::
  "'x staking_env \<Rightarrow> account \<Rightarrow> nat \<Rightarrow> ledger \<Rightarrow> 'x staking
   \<Rightarrow> staking_error dispatch_error + balance \<times> 'x staking" where
  "vip_tax E a tax_percent l s =
     (if is_user_validator s a then
        let tax = pt_mul (c_perbill E) tax_percent (l_active l)
        in Inr (tax, if sub_w 128 (l_active l) tax < min_bond_for_validator E s a
                     then chill_stash E a s else s)
      else case Cooperators s a of
        None \<Rightarrow> Inr (pt_mul (c_perbill E) tax_percent (l_active l), s)
      | Some cooperations \<Rightarrow>
          let (tax_value, new_targets) = tax_targets E s a tax_percent (co_targets cooperations)
          in rbind (ensure (length (btree_of_list new_targets) \<le> c_max_cooperations E)
                      (Module TooManyCooperators)) (\<lambda>_.
             rbind (do_add_cooperator a
                      (cooperations\<lparr>co_targets := btree_of_list new_targets\<rparr>) s) (\<lambda>s1.
               Inr (tax_value, s1))))"

definition slash_vip_account ::
  "'x staking_env \<Rightarrow> account \<Rightarrow> nat \<Rightarrow> 'x staking \<Rightarrow> 'x call" where
  "slash_vip_account E a tax_percent s =
     rbind (ok_or (Module NotController) (Ledger s a)) (\<lambda>l.
     rbind (ok_or (Module InvalidEraToSlash) (CurrentEra s)) (\<lambda>slash_era.
     rbind (vip_tax E a tax_percent l s) (\<lambda>(tax, s1).
       let (l', stake_value, s2) = ledger_slash E tax slash_era l s1
       in Inr (if stake_value \<noteq> 0 then
                 let (ext, imbalance, _) = x_slash E a stake_value (st_ext s2)
                 in update_ledger E a l' (s2\<lparr>st_ext := x_slash_unbalanced E imbalance ext\<rparr>)
               else s2))))"

end
