(* ===== verification/StakingInv.thy ===== *)
theory StakingInv
  imports StakingCalls
begin

text \<open>
  The invariant of the staking pallet: bonded stashes and ledgers are paired one to one, every ledger
  is balanced and its claimed eras are sorted, nobody validates and cooperates at once, only bonded
  stashes do either, and the slashing storage is consistent. Every operation of the pallet keeps it;
  the step relation \<open>stk_step\<close> collects them.
\<close>

section \<open>The invariant and its environment\<close>

definition env_ok :: "'x staking_env \<Rightarrow> bool" where
  "env_ok E \<longleftrightarrow> perthing_ok perbill_one (c_perbill E) \<and> perthing_ok perquintill_one (c_perquintill E) \<and>
     (\<forall>x a. x_free_balance E x a \<le> max_w 128) \<and> (\<forall>x a. x_tax_percent E x a \<le> perbill_one)"

lemma env_okD:
  assumes "env_ok E"
  shows "perthing_ok perbill_one (c_perbill E)" "perthing_ok perquintill_one (c_perquintill E)"
    "x_free_balance E x a \<le> max_w 128" "x_tax_percent E x a \<le> perbill_one"
  using assms by (auto simp: env_ok_def)

definition led_ok :: "ledger \<Rightarrow> bool" where
  "led_ok l \<longleftrightarrow> ledger_ok l \<and> sorted_wrt (<) (l_claimed l)"

definition paired :: "(account \<rightharpoonup> account) \<Rightarrow> (account \<rightharpoonup> ledger) \<Rightarrow> bool" where
  "paired B L \<longleftrightarrow> finite (dom B) \<and>
     (\<forall>st c. B st = Some c \<longrightarrow> (\<exists>l. L c = Some l \<and> l_stash l = st)) \<and>
     (\<forall>c l. L c = Some l \<longrightarrow> B (l_stash l) = Some c \<and> led_ok l)"

definition roles_ok :: "(account \<rightharpoonup> account) \<Rightarrow> (account \<rightharpoonup> validator_prefs) \<Rightarrow> (account \<rightharpoonup> cooperations) \<Rightarrow> bool" where
  "roles_ok B V C \<longleftrightarrow>
     (\<forall>a. V a \<noteq> None \<longrightarrow> B a \<noteq> None \<and> C a = None) \<and> (\<forall>a. C a \<noteq> None \<longrightarrow> B a \<noteq> None)"

definition stk_ok :: "'x staking \<Rightarrow> bool" where
  "stk_ok s \<longleftrightarrow> paired (Bonded s) (Ledger s) \<and> roles_ok (Bonded s) (Validators s) (Cooperators s) \<and>
     spans_ok (st_slash s) \<and> sorted_wrt (<) (DisabledValidators (st_slash s))"

lemma stk_okD:
  assumes "stk_ok s"
  shows "paired (Bonded s) (Ledger s)" "roles_ok (Bonded s) (Validators s) (Cooperators s)"
    "spans_ok (st_slash s)" "sorted_wrt (<) (DisabledValidators (st_slash s))"
  using assms by (auto simp: stk_ok_def)

lemma paired_ledger:
  "paired B L \<Longrightarrow> L c = Some l \<Longrightarrow> B (l_stash l) = Some c \<and> led_ok l"
  by (simp add: paired_def)

lemma paired_bonded: "paired B L \<Longrightarrow> B st = Some c \<Longrightarrow> \<exists>l. L c = Some l \<and> l_stash l = st"
  by (simp add: paired_def)

lemma paired_update:
  assumes "paired B L" "L c = Some l0" "l_stash l = l_stash l0" "led_ok l"
  shows "paired B (L(c \<mapsto> l))"
  unfolding paired_def
proof (intro conjI allI impI)
  show "finite (dom B)" using assms(1) by (simp add: paired_def)
next
  fix st c' assume b: "B st = Some c'"
  with paired_bonded [OF assms(1) b] assms(2,3) show "\<exists>l'. (L(c \<mapsto> l)) c' = Some l' \<and> l_stash l' = st"
    by (cases "c' = c") auto
next
  fix c' l' assume l: "(L(c \<mapsto> l)) c' = Some l'"
  show "B (l_stash l') = Some c'" and "led_ok l'"
    using l paired_ledger [OF assms(1), of c'] paired_ledger [OF assms(1,2)] assms(3,4)
    by (cases "c' = c"; auto)+
qed

lemma paired_new:
  assumes "paired B L" "B st = None" "L c = None" "l_stash l = st" "led_ok l"
  shows "paired (B(st \<mapsto> c)) (L(c \<mapsto> l))"
  unfolding paired_def
proof (intro conjI allI impI)
  show "finite (dom (B(st \<mapsto> c)))" using assms(1) by (simp add: paired_def)
next
  fix st' c' assume b: "(B(st \<mapsto> c)) st' = Some c'"
  show "\<exists>l'. (L(c \<mapsto> l)) c' = Some l' \<and> l_stash l' = st'"
    using b paired_bonded [OF assms(1), of st' c'] assms(3,4)
    by (cases "st' = st"; cases "c' = c") (auto simp: paired_def)
next
  fix c' l' assume l: "(L(c \<mapsto> l)) c' = Some l'"
  show "(B(st \<mapsto> c)) (l_stash l') = Some c'" and "led_ok l'"
    using l paired_ledger [OF assms(1), of c' l'] assms(2,4,5) by (cases "c' = c"; auto)+
qed

lemma paired_remove:
  assumes "paired B L" "B st = Some c"
  shows "paired (B(st := None)) (L(c := None))"
  unfolding paired_def
proof (intro conjI allI impI)
  show "finite (dom (B(st := None)))" using assms(1) by (simp add: paired_def)
next
  obtain l where l: "L c = Some l" "l_stash l = st" using paired_bonded [OF assms] by blast
  fix st' c' assume b: "(B(st := None)) st' = Some c'"
  show "\<exists>l'. (L(c := None)) c' = Some l' \<and> l_stash l' = st'"
    using b paired_bonded [OF assms(1), of st' c'] l by (cases "st' = st"; cases "c' = c") auto
next
  fix c' l' assume l': "(L(c := None)) c' = Some l'"
  show "(B(st := None)) (l_stash l') = Some c'" and "led_ok l'"
    using l' paired_ledger [OF assms(1), of c' l'] assms(2) by (cases "c' = c"; cases "l_stash l' = st"; auto)+
qed

lemma paired_move:
  assumes "paired B L" "B st = Some c" "L c = Some l" "L c' = None"
  shows "paired (B(st \<mapsto> c')) (L(c := None, c' \<mapsto> l))"
proof -
  have st: "l_stash l = st" using paired_bonded [OF assms(1,2)] assms(3) by auto
  have "paired (B(st := None)) (L(c := None))" by (rule paired_remove [OF assms(1,2)])
  then have "paired ((B(st := None))(st \<mapsto> c')) ((L(c := None))(c' \<mapsto> l))"
    by (rule paired_new) (use assms(3,4) st paired_ledger [OF assms(1,3)] in auto)
  then show ?thesis by simp
qed

lemma roles_shrink:
  "roles_ok B V C \<Longrightarrow> roles_ok B (V(a := None)) C" "roles_ok B V C \<Longrightarrow> roles_ok B V (C(a := None))"
  by (auto simp: roles_ok_def)

text \<open>Only the parts of the state the invariant reads matter.\<close>

lemma stk_ok_cong:
  assumes "Bonded s = Bonded t" "Ledger s = Ledger t" "Validators s = Validators t"
    "Cooperators s = Cooperators t" "st_slash s = st_slash t"
  shows "stk_ok s = stk_ok t"
  using assms by (simp add: stk_ok_def)

section \<open>The internal operations\<close>

lemma world_frame [simp]:
  "Bonded (st_world f s) = Bonded s" "Ledger (st_world f s) = Ledger s"
  "Validators (st_world f s) = Validators s" "Cooperators (st_world f s) = Cooperators s"
  "Collaborations (st_world f s) = Collaborations s" "st_slash (st_world f s) = st_slash s"
  "CurrentEra (st_world f s) = CurrentEra s" "ActiveEra (st_world f s) = ActiveEra s"
  "UnappliedSlashes (st_world f s) = UnappliedSlashes s" "BondedEras (st_world f s) = BondedEras s"
  "st_rep (st_world f s) = st_rep s" "Payee (st_world f s) = Payee s"
  "ErasStartSessionIndex (st_world f s) = ErasStartSessionIndex s"
  by (simp_all add: st_world_def)

lemma deposit_frame [simp]:
  "Bonded (st_deposit e s) = Bonded s" "Ledger (st_deposit e s) = Ledger s"
  "Validators (st_deposit e s) = Validators s" "Cooperators (st_deposit e s) = Cooperators s"
  "Collaborations (st_deposit e s) = Collaborations s" "st_slash (st_deposit e s) = st_slash s"
  "CurrentEra (st_deposit e s) = CurrentEra s" "ActiveEra (st_deposit e s) = ActiveEra s"
  "UnappliedSlashes (st_deposit e s) = UnappliedSlashes s" "BondedEras (st_deposit e s) = BondedEras s"
  "st_rep (st_deposit e s) = st_rep s" "Payee (st_deposit e s) = Payee s"
  "ErasStartSessionIndex (st_deposit e s) = ErasStartSessionIndex s" "st_ext (st_deposit e s) = st_ext s"
  by (simp_all add: st_deposit_def)

lemma active_frame [simp]:
  "Bonded (update_active_stake E a s) = Bonded s" "Ledger (update_active_stake E a s) = Ledger s"
  "Validators (update_active_stake E a s) = Validators s"
  "Cooperators (update_active_stake E a s) = Cooperators s"
  "Collaborations (update_active_stake E a s) = Collaborations s"
  "st_slash (update_active_stake E a s) = st_slash s"
  "CurrentEra (update_active_stake E a s) = CurrentEra s"
  "ActiveEra (update_active_stake E a s) = ActiveEra s"
  "UnappliedSlashes (update_active_stake E a s) = UnappliedSlashes s"
  "BondedEras (update_active_stake E a s) = BondedEras s"
  "st_rep (update_active_stake E a s) = st_rep s" "Payee (update_active_stake E a s) = Payee s"
  "ErasStartSessionIndex (update_active_stake E a s) = ErasStartSessionIndex s"
  by (simp_all add: update_active_stake_def)

lemma stk_ok_world [simp]: "stk_ok (st_world f s) = stk_ok s"
  by (simp add: stk_ok_def)

lemma stk_ok_deposit [simp]: "stk_ok (st_deposit e s) = stk_ok s"
  by (simp add: stk_ok_def)

lemma stk_ok_active [simp]: "stk_ok (update_active_stake E a s) = stk_ok s"
  by (simp add: stk_ok_def)

lemma stk_ok_rep [simp]: "stk_ok (s\<lparr>st_rep := R\<rparr>) = stk_ok s"
  by (simp add: stk_ok_def)

lemma stk_ok_ext [simp]: "stk_ok (s\<lparr>st_ext := x\<rparr>) = stk_ok s"
  by (simp add: stk_ok_def)

lemma remove_validator_ok:
  "stk_ok s \<Longrightarrow> stk_ok (snd (do_remove_validator E a s))"
  by (simp add: do_remove_validator_def stk_ok_def roles_shrink)

lemma remove_cooperator_ok:
  "stk_ok s \<Longrightarrow> stk_ok (snd (do_remove_cooperator E a s))"
  by (auto simp: do_remove_cooperator_def stk_ok_def roles_shrink Let_def split: option.splits)

lemma remove_validator_frame [simp]:
  "Bonded (snd (do_remove_validator E a s)) = Bonded s"
  "Ledger (snd (do_remove_validator E a s)) = Ledger s"
  "st_slash (snd (do_remove_validator E a s)) = st_slash s"
  "Cooperators (snd (do_remove_validator E a s)) = Cooperators s"
  "Validators (snd (do_remove_validator E a s)) = (Validators s)(a := None)"
  "st_rep (snd (do_remove_validator E a s)) = st_rep s"
  "UnappliedSlashes (snd (do_remove_validator E a s)) = UnappliedSlashes s"
  by (auto simp: do_remove_validator_def fun_upd_idem)

lemma remove_cooperator_frame [simp]:
  "Bonded (snd (do_remove_cooperator E a s)) = Bonded s"
  "Ledger (snd (do_remove_cooperator E a s)) = Ledger s"
  "st_slash (snd (do_remove_cooperator E a s)) = st_slash s"
  "Validators (snd (do_remove_cooperator E a s)) = Validators s"
  "Cooperators (snd (do_remove_cooperator E a s)) = (Cooperators s)(a := None)"
  "st_rep (snd (do_remove_cooperator E a s)) = st_rep s"
  "UnappliedSlashes (snd (do_remove_cooperator E a s)) = UnappliedSlashes s"
  by (auto simp: do_remove_cooperator_def Let_def fun_upd_idem split: option.splits)

text \<open>Chilling removes exactly the two roles of the stash.\<close>

lemma chill_stash_frame [simp]:
  "Bonded (chill_stash E a s) = Bonded s" "Ledger (chill_stash E a s) = Ledger s"
  "st_slash (chill_stash E a s) = st_slash s" "st_rep (chill_stash E a s) = st_rep s"
  "Validators (chill_stash E a s) = (Validators s)(a := None)"
  "Cooperators (chill_stash E a s) = (Cooperators s)(a := None)"
  "UnappliedSlashes (chill_stash E a s) = UnappliedSlashes s"
proof -
  have c: "chill_stash E a s = st_deposit (EvChilled a) (snd (do_remove_cooperator E a (snd (do_remove_validator E a s))))
      \<or> chill_stash E a s = snd (do_remove_cooperator E a (snd (do_remove_validator E a s)))"
    by (auto simp: chill_stash_def split: prod.splits)
  then show "Bonded (chill_stash E a s) = Bonded s" "Ledger (chill_stash E a s) = Ledger s"
    "st_slash (chill_stash E a s) = st_slash s" "st_rep (chill_stash E a s) = st_rep s"
    "Validators (chill_stash E a s) = (Validators s)(a := None)"
    "Cooperators (chill_stash E a s) = (Cooperators s)(a := None)"
    "UnappliedSlashes (chill_stash E a s) = UnappliedSlashes s"
    by auto
qed

lemma chill_stash_ok: "stk_ok s \<Longrightarrow> stk_ok (chill_stash E a s)"
  by (simp add: stk_ok_def roles_shrink)

lemma remove_from_targets_dom:
  "dom (foldl (\<lambda>m c. case m c of None \<Rightarrow> m | Some co \<Rightarrow> m(c \<mapsto> f co)) M cs) = dom M"
proof (induction cs arbitrary: M)
  case (Cons c cs)
  then show ?case by (cases "M c") (auto split: if_splits)
qed simp

lemma roles_dom: "dom C = dom C' \<Longrightarrow> roles_ok B V C = roles_ok B V C'"
  unfolding roles_ok_def by (metis domIff)

lemma remove_from_targets_ok:
  assumes "stk_ok s"
  shows "stk_ok (do_remove_validator_from_cooperators_target a s)"
  using assms roles_dom [OF remove_from_targets_dom]
  by (auto simp: do_remove_validator_from_cooperators_target_def stk_ok_def split: option.splits)

lemma chill_both_ok: "stk_ok s \<Longrightarrow> stk_ok (chill_both E a s)"
  by (simp add: chill_both_def chill_stash_ok remove_from_targets_ok)

lemma check_reputation_ok:
  "stk_ok s \<Longrightarrow> stk_ok (check_reputation_validator E a s)"
  "stk_ok s \<Longrightarrow> stk_ok (try_check_reputation_collab E a s)"
  "stk_ok s \<Longrightarrow> stk_ok (check_reputation_cooperator E v a s)"
  by (simp_all add: check_reputation_validator_def try_check_reputation_collab_def
      check_reputation_cooperator_def chill_stash_ok)

lemma update_ledger_frame [simp]:
  "Bonded (update_ledger E c l s) = Bonded s" "Ledger (update_ledger E c l s) = (Ledger s)(c \<mapsto> l)"
  "Validators (update_ledger E c l s) = Validators s"
  "Cooperators (update_ledger E c l s) = Cooperators s" "st_slash (update_ledger E c l s) = st_slash s"
  "st_rep (update_ledger E c l s) = st_rep s"
  "UnappliedSlashes (update_ledger E c l s) = UnappliedSlashes s"
  "CurrentEra (update_ledger E c l s) = CurrentEra s"
  by (simp_all add: update_ledger_def Let_def)

lemma update_ledger_ok:
  "stk_ok s \<Longrightarrow> Ledger s c = Some l0 \<Longrightarrow> l_stash l = l_stash l0 \<Longrightarrow> led_ok l \<Longrightarrow>
   stk_ok (update_ledger E c l s)"
  by (simp add: stk_ok_def paired_update)

lemma adjust_frame [simp]:
  "Bonded (adjust_cooperator_targets E a v s) = Bonded s"
  "Ledger (adjust_cooperator_targets E a v s) = Ledger s"
  "Validators (adjust_cooperator_targets E a v s) = Validators s"
  "dom (Cooperators (adjust_cooperator_targets E a v s)) = dom (Cooperators s)"
  "st_slash (adjust_cooperator_targets E a v s) = st_slash s"
  "st_rep (adjust_cooperator_targets E a v s) = st_rep s"
  "UnappliedSlashes (adjust_cooperator_targets E a v s) = UnappliedSlashes s"
  by (auto simp: adjust_cooperator_targets_def Let_def split: option.splits)

lemma adjust_ok: "stk_ok s \<Longrightarrow> stk_ok (adjust_cooperator_targets E a v s)"
  using roles_dom [OF adjust_frame(4) [of E a v s]] by (simp add: stk_ok_def)

lemma ledger_slash_spec:
  assumes E: "env_ok E" and l: "led_ok l" and res: "ledger_slash E amount e l s = (l', v, s')"
  shows "led_ok l' \<and> l_stash l' = l_stash l \<and> l_total l = l_total l' + v \<and> l_active l' \<le> l_active l \<and>
         min amount (l_total l) \<le> v \<and> (v \<noteq> 0 \<longrightarrow> v \<le> amount + (x_minimum_balance E - 1)) \<and>
         (\<exists>f. s' = st_world f s)"
proof -
  obtain m where r: "slash_stake (c_perquintill E) perquintill_one (c_bonding_duration E) amount
      (x_minimum_balance E) e l = (l', v, m)"
    using res by (auto simp: ledger_slash_def split: prod.splits)
  have "\<exists>f. s' = st_world f s"
  proof (cases "amount = 0")
    case True
    then have "s' = st_world id s" using res r by (auto simp: ledger_slash_def st_world_def)
    then show ?thesis by blast
  next
    case False
    then show ?thesis using res r by (auto simp: ledger_slash_def)
  qed
  moreover have "ledger_ok l" using l by (simp add: led_ok_def)
  ultimately show ?thesis
    using slash_stake_spec [OF env_okD(2) [OF E] _ r] l by (auto simp: led_ok_def)
qed

lemma clear_stash_metadata_ok:
  assumes "clear_stash_metadata a n sl = Some sl'" "spans_ok sl"
  shows "spans_ok sl'" and "DisabledValidators sl' = DisabledValidators sl"
proof -
  show "DisabledValidators sl' = DisabledValidators sl"
    using assms(1) by (auto simp: clear_stash_metadata_def split: option.splits if_splits)
  show "spans_ok sl'"
  proof (cases "SlashingSpans sl a")
    case None
    then show ?thesis using assms by (simp add: clear_stash_metadata_def)
  next
    case (Some sp)
    have eq: "sl' = sl\<lparr>SlashingSpans := (SlashingSpans sl)(a := None),
        SpanSlash := (\<lambda>p. if fst p = a \<and> snd p \<in> sp_index ` set (spans_iter sp) then None
                           else SpanSlash sl p)\<rparr>"
      using assms(1) Some by (simp add: clear_stash_metadata_def foldl_remove split: if_splits)
    show ?thesis unfolding spans_ok_def
    proof (intro conjI allI impI)
      fix b sp' assume "SlashingSpans sl' b = Some sp'"
      then show "spans_wf sp'" using assms(2) by (auto simp: spans_ok_def eq split: if_splits)
    next
      fix b i assume b: "SpanSlash sl' (b, i) \<noteq> None"
      then have n: "SpanSlash sl (b, i) \<noteq> None" "b = a \<longrightarrow> i \<notin> sp_index ` set (spans_iter sp)"
        by (auto simp: eq split: if_splits)
      then obtain q where q: "SlashingSpans sl b = Some q" "i \<in> sp_index ` set (spans_iter q)"
        using assms(2) unfolding spans_ok_def by blast
      then have "b \<noteq> a" using n Some by auto
      with q show "\<exists>spa. SlashingSpans sl' b = Some spa \<and> i \<in> sp_index ` set (spans_iter spa)"
        by (simp add: eq)
    qed
  qed
qed

text \<open>
  Killing a stash removes it and its ledger, its payee and its roles, and nothing of anyone else.
\<close>

lemma kill_stash_Inr:
  assumes "kill_stash E st n s = Inr s'"
  obtains c sl where "Bonded s st = Some c" "clear_stash_metadata st n (st_slash s) = Some sl"
    "Bonded s' = (Bonded s)(st := None)" "Ledger s' = (Ledger s)(c := None)" "st_slash s' = sl"
    "Validators s' = (Validators s)(st := None)" "Cooperators s' = (Cooperators s)(st := None)"
    "st_rep s' = st_rep s" "UnappliedSlashes s' = UnappliedSlashes s"
  using assms by (auto simp: kill_stash_def res_simps Let_def)

lemma kill_stash_ok:
  assumes ok: "stk_ok s" and k: "kill_stash E st n s = Inr s'"
  shows "stk_ok s'"
proof (rule kill_stash_Inr [OF k])
  fix c sl
  assume f: "Bonded s st = Some c" "clear_stash_metadata st n (st_slash s) = Some sl"
    "Bonded s' = (Bonded s)(st := None)" "Ledger s' = (Ledger s)(c := None)" "st_slash s' = sl"
    "Validators s' = (Validators s)(st := None)" "Cooperators s' = (Cooperators s)(st := None)"
  note ok' = stk_okD [OF ok]
  have "roles_ok (Bonded s') (Validators s') (Cooperators s')"
    using ok'(2) unfolding f roles_ok_def by auto
  moreover have "paired (Bonded s') (Ledger s')" unfolding f by (rule paired_remove [OF ok'(1) f(1)])
  moreover have "spans_ok (st_slash s')" "sorted_wrt (<) (DisabledValidators (st_slash s'))"
    using clear_stash_metadata_ok [OF f(2) ok'(3)] ok'(4) by (simp_all add: f(5))
  ultimately show "stk_ok s'" by (simp add: stk_ok_def)
qed

lemma led_ok_consolidate: "led_ok l \<Longrightarrow> led_ok (consolidate_unlocked e l)"
  using consolidate_unlocked_spec(1) [of l e]
  by (simp add: led_ok_def consolidate_unlocked_def split: prod.splits)

lemma consolidate_stash [simp]: "l_stash (consolidate_unlocked e l) = l_stash l"
  by (simp add: consolidate_unlocked_def split: prod.splits)

lemma do_withdraw_ok:
  assumes ok: "stk_ok s" and w: "do_withdraw_unbonded E c n s = Inr s'"
  shows "stk_ok s'"
proof -
  obtain l0 where l0: "Ledger s c = Some l0"
    using w by (auto simp: do_withdraw_unbonded_def res_simps)
  define l where "l = (case CurrentEra s of Some e \<Rightarrow> consolidate_unlocked e l0 | None \<Rightarrow> l0)"
  have l: "led_ok l" "l_stash l = l_stash l0"
    using paired_ledger [OF stk_okD(1) [OF ok] l0] led_ok_consolidate
    by (auto simp: l_def split: option.splits)
  have "\<exists>s2. stk_ok s2 \<and> (s' = s2 \<or> (\<exists>ev. s' = st_deposit ev s2))"
  proof (cases "l_unlocking l = [] \<and> l_active l < x_minimum_balance E")
    case True
    then obtain s1 where "kill_stash E (l_stash l0) n s = Inr s1"
      "s' = st_world (x_remove_lock E (l_stash l0)) s1 \<or>
       (\<exists>ev. s' = st_deposit ev (st_world (x_remove_lock E (l_stash l0)) s1))"
      using w l0 by (auto simp: do_withdraw_unbonded_def res_simps Let_def l_def [symmetric] split: if_splits)
    moreover from this(1) have "stk_ok (st_world (x_remove_lock E (l_stash l0)) s1)"
      using kill_stash_ok [OF ok] by simp
    ultimately show ?thesis by blast
  next
    case False
    then have "s' = update_ledger E c l s \<or> (\<exists>ev. s' = st_deposit ev (update_ledger E c l s))"
      using w l0 by (auto simp: do_withdraw_unbonded_def res_simps Let_def l_def [symmetric] split: if_splits)
    then show ?thesis using update_ledger_ok [OF ok l0 l(2,1)] by blast
  qed
  then show ?thesis by auto
qed

lemma staking_do_slash_ok:
  assumes E: "env_ok E" and ok: "stk_ok s"
    and r: "staking_do_slash E st value payout imb e s = (s', res)"
  shows "stk_ok s'"
proof (cases "Bonded s st")
  case None
  then show ?thesis using r ok by (auto simp: staking_do_slash_def)
next
  case (Some c)
  obtain l where l: "Ledger s c = Some l" "l_stash l = st"
    using paired_bonded [OF stk_okD(1) [OF ok] Some] by blast
  obtain l' v s1 where ls: "ledger_slash E (se_stake value) e l s = (l', v, s1)"
    by (cases "ledger_slash E (se_stake value) e l s")
  have lo: "led_ok l" using paired_ledger [OF stk_okD(1) [OF ok] l(1)] by simp
  note sp = ledger_slash_spec [OF E lo ls]
  then obtain f where f: "s1 = st_world f s" by blast
  have up: "stk_ok (update_ledger E c l' (s1\<lparr>st_ext := x\<rparr>))" for x
    by (rule update_ledger_ok [of _ _ l]) (use ok l sp in \<open>simp_all add: f\<close>)
  have up2: "stk_ok (adjust_cooperator_targets E a n (update_ledger E c l' (s1\<lparr>st_ext := x\<rparr>)))" for a n x
    by (rule adjust_ok [OF up])
  show ?thesis
    using r Some l ls ok up2
    by (auto simp: staking_do_slash_def Let_def f split: if_splits sum.splits prod.splits)
qed

lemma apply_slash_others_ok:
  assumes E: "env_ok E"
  shows "stk_ok s \<Longrightarrow> apply_slash_others E v e cs p i s = (s', r) \<Longrightarrow> stk_ok s'"
proof (induction cs arbitrary: p i s)
  case (Cons c cs)
  obtain s1 r1 where d: "staking_do_slash E (fst c) (snd c) p i e s = (s1, r1)"
    by (cases "staking_do_slash E (fst c) (snd c) p i e s")
  have "stk_ok s1" by (rule staking_do_slash_ok [OF E Cons.prems(1) d])
  then show ?case
    using Cons.prems(2) d
    by (cases c) (auto split: sum.splits intro: Cons.IH check_reputation_ok(3))
qed simp

lemma pay_each_ok: "stk_ok s \<Longrightarrow> stk_ok (snd (pay_each E r k rs w s))"
  by (induction rs arbitrary: w s) (simp_all add: Let_def)

lemma pay_reporters_ok: "stk_ok s \<Longrightarrow> stk_ok (pay_reporters E p i rs s)"
  using pay_each_ok [of s E] by (auto simp: pay_reporters_def Let_def split: prod.splits) (metis snd_conv)

lemma apply_slash_ok:
  assumes E: "env_ok E" and ok: "stk_ok s" and r: "apply_slash E u e s = (s', res)"
  shows "stk_ok s'"
proof -
  obtain s1 r1 where d: "staking_do_slash E (us_validator u) (us_own u) (se_stake (us_payout u)) 0 e s
      = (s1, r1)"
    by (cases "staking_do_slash E (us_validator u) (us_own u) (se_stake (us_payout u)) 0 e s")
  have s1: "stk_ok s1" by (rule staking_do_slash_ok [OF E ok d])
  show ?thesis
  proof (cases r1)
    case (Inl x)
    then show ?thesis using r d s1 by (simp add: apply_slash_def)
  next
    case (Inr pi)
    define s2 where "s2 = try_check_reputation_collab E (us_validator u)
        (check_reputation_validator E (us_validator u) s1)"
    have s2: "stk_ok s2" unfolding s2_def by (intro check_reputation_ok s1)
    obtain s3 r3 where o: "apply_slash_others E (us_validator u) e (us_others u) (fst pi) (snd pi) s2 = (s3, r3)"
      by (cases "apply_slash_others E (us_validator u) e (us_others u) (fst pi) (snd pi) s2")
    have "stk_ok s3" by (rule apply_slash_others_ok [OF E s2 o])
    then show ?thesis
      using r d Inr o pay_reporters_ok
      by (cases pi) (auto simp: apply_slash_def Let_def s2_def [symmetric] split: sum.splits)
  qed
qed

lemma apply_slashes_ok:
  assumes E: "env_ok E"
  shows "stk_ok s \<Longrightarrow> apply_slashes E e us s = (s', r) \<Longrightarrow> stk_ok s'"
proof (induction us arbitrary: s)
  case (Cons u us)
  obtain s1 r1 where d: "apply_slash E u e s = (s1, r1)" by (cases "apply_slash E u e s")
  have "stk_ok s1" by (rule apply_slash_ok [OF E Cons.prems(1) d])
  then show ?case using Cons.prems(2) d Cons.IH by (cases r1) auto
qed simp

lemma apply_unapplied_ok:
  assumes "env_ok E" "stk_ok s" "apply_unapplied_slashes E e s = (s', r)"
  shows "stk_ok s'"
proof (rule apply_slashes_ok [OF assms(1)])
  show "stk_ok (s\<lparr>UnappliedSlashes := (UnappliedSlashes s)(e := None)\<rparr>)"
    using assms(2) by (simp add: stk_ok_def)
  show "apply_slashes E (e - c_slash_defer_duration E) (unwrap_or [] (UnappliedSlashes s e))
      (s\<lparr>UnappliedSlashes := (UnappliedSlashes s)(e := None)\<rparr>) = (s', r)"
    using assms(3) by (simp add: apply_unapplied_slashes_def)
qed

section \<open>Eras and offences\<close>

lemma clear_era_metadata_frame [simp]:
  "SlashingSpans (clear_era_metadata e sl) = SlashingSpans sl"
  "SpanSlash (clear_era_metadata e sl) = SpanSlash sl"
  "DisabledValidators (clear_era_metadata e sl) = DisabledValidators sl"
  by (simp_all add: clear_era_metadata_def)

lemma clear_eras_ok:
  "spans_ok (foldl (\<lambda>sl (e, _). clear_era_metadata e sl) sl ps) = spans_ok sl"
  "DisabledValidators (foldl (\<lambda>sl (e, _). clear_era_metadata e sl) sl ps) = DisabledValidators sl"
proof -
  show "spans_ok (foldl (\<lambda>sl (e, _). clear_era_metadata e sl) sl ps) = spans_ok sl"
  proof (induction ps arbitrary: sl)
    case (Cons p ps)
    then show ?case using spans_ok_cong [of "clear_era_metadata (fst p) sl" sl] by (cases p) simp
  qed simp
  show "DisabledValidators (foldl (\<lambda>sl (e, _). clear_era_metadata e sl) sl ps) = DisabledValidators sl"
    by (induction ps arbitrary: sl) auto
qed

lemma prune_bonded_ok: "stk_ok s \<Longrightarrow> stk_ok (snd (prune_bonded E e b s))"
  by (auto simp: prune_bonded_def Let_def stk_ok_def clear_eras_ok split: list.splits)

lemma start_era_ok:
  assumes E: "env_ok E" and ok: "stk_ok s" and r: "start_era E i s = (s', res)"
  shows "stk_ok s'"
proof -
  define n where "n = (case ActiveEra s of Some i \<Rightarrow> add_w 32 (ae_index i) 1 | None \<Rightarrow> 0)"
  define s1 where "s1 = s\<lparr>ActiveEra := Some \<lparr>ae_index = n, ae_start = None\<rparr>\<rparr>"
  obtain b s2 where p: "prune_bonded E n (BondedEras s1 @ [(n, i)]) s1 = (b, s2)"
    by (cases "prune_bonded E n (BondedEras s1 @ [(n, i)]) s1")
  have "stk_ok s1" using ok by (simp add: s1_def stk_ok_def)
  then have "stk_ok s2" using prune_bonded_ok [of s1 E n "BondedEras s1 @ [(n, i)]"] p by simp
  then have "stk_ok (s2\<lparr>BondedEras := b\<rparr>)" by (simp add: stk_ok_def)
  then show ?thesis
    by (rule apply_unapplied_ok [OF E, where e = n and r = res])
      (use r p in \<open>simp add: start_era_def Let_def n_def s1_def\<close>)
qed

lemma foldl_world_ok: "stk_ok (foldl (\<lambda>s i. st_world (g i) s) s xs) = stk_ok s"
  by (induction xs arbitrary: s) simp_all

lemma start_session_ok:
  assumes E: "env_ok E" and ok: "stk_ok s" and r: "start_session E i s = (s', res)"
  shows "stk_ok s'"
proof -
  define n where "n = (case ActiveEra s of Some e \<Rightarrow> add_w 32 (ae_index e) 1 | None \<Rightarrow> 0)"
  obtain s1 r1 where a: "(case ErasStartSessionIndex s n of
      Some start_index \<Rightarrow> if start_index \<le> i then start_era E i s else (s, None)
    | None \<Rightarrow> (s, None)) = (s1, r1)" by fastforce
  then have "stk_ok s1"
    using ok start_era_ok [OF E ok] by (auto split: option.splits if_splits)
  then show ?thesis
    using r a by (auto simp: start_session_def Let_def n_def [symmetric] foldl_world_ok split: option.splits)
qed

lemma end_session_ok: "stk_ok s \<Longrightarrow> stk_ok (end_session E i s)"
proof -
  have "spans_ok (sl\<lparr>DisabledValidators := []\<rparr>) = spans_ok sl" for sl
    by (rule spans_ok_cong) simp_all
  then show "stk_ok s \<Longrightarrow> stk_ok (end_session E i s)"
    by (auto simp: end_session_def end_era_def store_energy_rate_def Let_def stk_ok_def split: option.splits)
qed

lemma on_finalize_ok: "stk_ok s \<Longrightarrow> stk_ok (on_finalize E s)"
  by (auto simp: on_finalize_def stk_ok_def split: option.splits)

lemma sorted_add_offending:
  assumes "sorted_wrt (<) (DisabledValidators sl)"
  shows "sorted_wrt (<) (DisabledValidators (add_offending_validator d a e sl))"
  using assms binary_search_Missing(2)
  by (auto simp: add_offending_validator_def split: option.splits search.splits)

lemma handle_offender_ok:
  assumes ok: "stk_ok s" and "window_start < 2 ^ 32" and "active + 1 < 2 ^ 32" and E: "env_ok E"
  shows "stk_ok (handle_offender E rp invs e window_start active d s)"
proof -
  obtain details f where d: "d = (details, f)" by (cases d)
  obtain st ex where o: "od_offender details = (st, ex)" by (cases "od_offender details")
  let ?pa = "\<lparr>pa_stash = st, pa_slash = f, pa_exposure = ex, pa_slash_era = e,
      pa_window_start = window_start, pa_now = active, pa_reward_proportion = rp\<rparr>"
  obtain u sl where c: "compute_slash (c_perbill E) (c_libm E)
     (up_to_limit_decision (c_disabling_factor E) (x_validators E (st_ext s)) (map_option ae_index (ActiveEra s)))
     (x_block_number E (st_ext s)) (st_rep s) ?pa (st_slash s) = (u, sl)"
    by fastforce
  have "spans_ok sl" "sorted_wrt (<) (DisabledValidators sl)"
    using compute_slash_ok [OF stk_okD(3) [OF ok] _ _ c] assms(2,3) stk_okD(4) [OF ok]
      sorted_add_offending by auto
  then have sl: "stk_ok (s\<lparr>st_slash := sl\<rparr>)" using ok by (simp add: stk_ok_def)
  let ?n = "drop (length (sl_session_disabled (st_slash s))) (sl_session_disabled sl)"
  let ?s2 = "st_deposit (EvSlashReported st f e)
     (foldl (\<lambda>s i. st_world (x_disable_validator E i) s) (s\<lparr>st_slash := sl\<rparr>) ?n)"
  have s2: "stk_ok ?s2" using sl by (simp add: foldl_world_ok)
  then have unapplied: "stk_ok (?s2\<lparr>UnappliedSlashes := x\<rparr>)" for x by (simp add: stk_ok_def)
  have app: "stk_ok (fst (apply_slash E v e ?s2))" for v
    using apply_slash_ok [OF E s2] by (metis surjective_pairing)
  show ?thesis
    using ok s2 unapplied app
    by (auto simp: handle_offender_def d o c Let_def split: option.splits)
qed

lemma on_offence_ok:
  assumes E: "env_ok E" and ok: "stk_ok s"
    and b: "\<And>a. ActiveEra s = Some a \<Longrightarrow> ae_index a + 1 < 2 ^ 32"
  shows "stk_ok (on_offence E offs fr sess s)"
proof -
  have f: "stk_ok (foldl (\<lambda>t d. handle_offender E rp invs e w a d t) s xs)"
    if "stk_ok s" "w < 2 ^ 32" "a + 1 < 2 ^ 32" for s rp invs e w a xs
    using that(1) by (induction xs arbitrary: s) (simp_all add: handle_offender_ok [OF _ that(2,3) E])
  show ?thesis
    using ok by (auto simp: on_offence_def Let_def split: option.splits dest: b intro!: f)
qed

section \<open>Planning eras and paying out\<close>

lemma demote_ok: "stk_ok s \<Longrightarrow> Validators s a \<noteq> None \<Longrightarrow> stk_ok (demote E a s)"
  by (auto simp: demote_def stk_ok_def roles_ok_def)

lemma demote_dom [simp]: "Validators s a \<noteq> None \<Longrightarrow> dom (Validators (demote E a s)) = dom (Validators s)"
  by (auto simp: demote_def)

lemma foldl_demote_ok:
  "stk_ok s \<Longrightarrow> set as \<subseteq> dom (Validators s) \<Longrightarrow> stk_ok (foldl (\<lambda>s a. demote E a s) s as)"
proof (induction as arbitrary: s)
  case (Cons a as)
  then have a: "Validators s a \<noteq> None" by auto
  show ?case using Cons.IH [of "demote E a s"] Cons.prems demote_ok [OF _ a] demote_dom [OF a] by simp
qed simp

lemma foldl_chill:
  "stk_ok s \<Longrightarrow> stk_ok (foldl (\<lambda>s a. chill_stash E a s) s as) \<and>
   dom (Validators (foldl (\<lambda>s a. chill_stash E a s) s as)) = dom (Validators s) - set as"
proof (induction as arbitrary: s)
  case (Cons a as)
  have "stk_ok (chill_stash E a s)" by (rule chill_stash_ok [OF Cons.prems])
  from Cons.IH [OF this] show ?case by (auto split: if_splits)
qed simp

definition iter_ok :: "'x staking_env \<Rightarrow> bool" where
  "iter_ok E \<longleftrightarrow> (\<forall>A. finite A \<longrightarrow> set (x_iter E A) = A \<and> distinct (x_iter E A))"

lemma ellect_validators_ok:
  assumes ok: "stk_ok s" and it: "iter_ok E" and fin: "finite (dom (Validators s))"
  shows "stk_ok (ellect_validators E s)"
proof -
  let ?accs = "x_iter E (dom (Validators s))"
  let ?bad = "filter (\<lambda>a. \<not> is_legit_for_validator E s a) ?accs"
  have accs: "set ?accs = dom (Validators s)" using it fin by (simp add: iter_ok_def)
  note c = foldl_chill [OF ok, of E ?bad]
  show ?thesis unfolding ellect_validators_def Let_def
    by (rule foldl_demote_ok) (use c accs in auto)
qed

lemma store_staker_frame [simp]:
  "Bonded (store_staker E e p s) = Bonded s" "Ledger (store_staker E e p s) = Ledger s"
  "Validators (store_staker E e p s) = Validators s" "Cooperators (store_staker E e p s) = Cooperators s"
  "st_slash (store_staker E e p s) = st_slash s"
  by (simp_all add: store_staker_def)

lemma foldl_store_ok: "stk_ok (foldl (\<lambda>s p. store_staker E e p s) s xs) = stk_ok s"
proof (induction xs arbitrary: s)
  case (Cons x xs)
  have "stk_ok (store_staker E e x s) = stk_ok s" by (rule stk_ok_cong) simp_all
  then show ?case using Cons.IH by simp
qed simp

lemma trigger_new_era_ok: "stk_ok s \<Longrightarrow> stk_ok (snd (trigger_new_era E i ex s))"
proof -
  assume ok: "stk_ok s"
  have t: "stk_ok (t\<lparr>ErasTotalStake := x\<rparr>) = stk_ok t" for t :: "'a staking" and x
    by (rule stk_ok_cong) simp_all
  have c: "stk_ok (clear_era_information e t) = stk_ok t" for t :: "'a staking" and e
    by (rule stk_ok_cong) (simp_all add: clear_era_information_def)
  have n: "stk_ok (t\<lparr>CurrentEra := x, ErasStartSessionIndex := y\<rparr>) = stk_ok t" for t :: "'a staking" and x y
    by (rule stk_ok_cong) simp_all
  show ?thesis using ok
    by (auto simp: trigger_new_era_def store_stakers_info_def Let_def t foldl_store_ok c n
        split: option.splits)
qed

lemma try_trigger_ok:
  assumes "stk_ok s" "iter_ok E" "finite (dom (Validators s))"
  shows "stk_ok (snd (try_trigger_new_era E i s))"
proof -
  obtain ex s1 where e: "ellect_and_collect_exposures E s = (ex, s1)" by fastforce
  then have s1: "stk_ok s1" using ellect_validators_ok [OF assms]
    by (auto simp: ellect_and_collect_exposures_def Let_def)
  have n: "stk_ok (t\<lparr>CurrentEra := x, ErasStartSessionIndex := y\<rparr>) = stk_ok t" for t :: "'a staking" and x y
    by (rule stk_ok_cong) simp_all
  have "stk_ok (snd (trigger_new_era E i ex (st_deposit EvStakersElected s1)))"
    by (rule trigger_new_era_ok) (simp add: s1)
  then show ?thesis using e s1 n
    by (auto simp: try_trigger_new_era_def split: option.splits prod.splits)
qed

lemma new_session_ok:
  assumes ok: "stk_ok s" and it: "iter_ok E" and fin: "finite (dom (Validators s))"
  shows "stk_ok (snd (new_session E i s))"
proof -
  define t where "t = s\<lparr>CurrentPlannedSession := i\<rparr>"
  define u where "u = t\<lparr>st_rep := update_points_for_time (c_libm E) (x_block_number E (st_ext t)) (st_rep t)\<rparr>"
  have "stk_ok t" using ok by (simp add: t_def stk_ok_def)
  then have u: "stk_ok u" "finite (dom (Validators u))" using fin by (simp_all add: u_def t_def)
  have T: "stk_ok (snd (try_trigger_new_era E i u))"
    "stk_ok (snd (try_trigger_new_era E i (st_world (x_change_quarter_info E) u)))"
    by (rule try_trigger_ok; use u it in simp)+
  have f: "stk_ok (set_force_era m w) = stk_ok w" for m and w :: "'a staking"
    by (rule stk_ok_cong) (simp_all add: set_force_era_def)
  show ?thesis
    using T u(1) unfolding new_session_def plan_session_def t_def [symmetric] Let_def u_def [symmetric]
    by (auto simp: f split: option.splits prod.splits)
qed

lemma pay_staker_frame [simp]:
  "Bonded (snd (pay_staker E a v acc)) = Bonded (snd acc)"
  "Ledger (snd (pay_staker E a v acc)) = Ledger (snd acc)"
  "Validators (snd (pay_staker E a v acc)) = Validators (snd acc)"
  "Cooperators (snd (pay_staker E a v acc)) = Cooperators (snd acc)"
  "st_slash (snd (pay_staker E a v acc)) = st_slash (snd acc)"
  by (auto simp: pay_staker_def make_payout_def Let_def split: prod.splits option.splits
      reward_destination.splits)

lemma foldl_pay_frame [simp]:
  "Ledger (snd (foldl (\<lambda>acc c. pay_staker E (f c) (g c) acc) acc xs)) = Ledger (snd acc)"
  "stk_ok (snd (foldl (\<lambda>acc c. pay_staker E (f c) (g c) acc) acc xs)) = stk_ok (snd acc)"
proof -
  show "Ledger (snd (foldl (\<lambda>acc c. pay_staker E (f c) (g c) acc) acc xs)) = Ledger (snd acc)"
    by (induction xs arbitrary: acc) simp_all
  have "stk_ok (snd (pay_staker E a v acc)) = stk_ok (snd acc)" for a v acc
    by (rule stk_ok_cong) simp_all
  then show "stk_ok (snd (foldl (\<lambda>acc c. pay_staker E (f c) (g c) acc) acc xs)) = stk_ok (snd acc)"
    by (induction xs arbitrary: acc) simp_all
qed

lemma payout_checks_Inr:
  assumes "payout_checks E v e s = Inr (rate, c, l)"
  obtains current l0 pos where "CurrentEra s = Some current" "Bonded s v = Some c" "Ledger s c = Some l0"
    "binary_search (filter (\<lambda>x. current - c_history_depth E \<le> x) (l_claimed l0)) e = Missing pos"
    "l = l0\<lparr>l_claimed := insert_at pos e (filter (\<lambda>x. current - c_history_depth E \<le> x) (l_claimed l0))\<rparr>"
    "current - c_history_depth E \<le> e" "e \<le> current"
    "length (filter (\<lambda>x. current - c_history_depth E \<le> x) (l_claimed l0)) < c_history_depth E"
proof -
  obtain current l0 rate' c' where c: "CurrentEra s = Some current" "Bonded s v = Some c'" "Ledger s c' = Some l0"
    "current - c_history_depth E \<le> e" "e \<le> current"
    and r: "(case binary_search (filter (\<lambda>x. current - c_history_depth E \<le> x) (l_claimed l0)) e of
        Found i \<Rightarrow> Inl (Module AlreadyClaimed)
      | Missing pos \<Rightarrow>
          if length (filter (\<lambda>x. current - c_history_depth E \<le> x) (l_claimed l0)) < c_history_depth E
          then Inr (rate', c', l0\<lparr>l_claimed := insert_at pos e
                 (filter (\<lambda>x. current - c_history_depth E \<le> x) (l_claimed l0))\<rparr>)
          else Inl (Module BoundNotMet)) = Inr (rate, c, l)"
    using assms by (auto simp: payout_checks_def res_simps Let_def)
  then show ?thesis
    by (cases "binary_search (filter (\<lambda>x. current - c_history_depth E \<le> x) (l_claimed l0)) e")
      (auto intro: that split: if_split_asm)
qed

lemma payout_ledger_ok:
  assumes "paired (Bonded s) (Ledger s)" and r: "payout_checks E v e s = Inr (rate, c, l)"
  shows "led_ok l \<and> (\<exists>l0. Ledger s c = Some l0 \<and> l_stash l = l_stash l0)"
proof (rule payout_checks_Inr [OF r])
  fix current l0 pos
  assume f: "Ledger s c = Some l0"
    "binary_search (filter (\<lambda>x. current - c_history_depth E \<le> x) (l_claimed l0)) e = Missing pos"
    "l = l0\<lparr>l_claimed := insert_at pos e (filter (\<lambda>x. current - c_history_depth E \<le> x) (l_claimed l0))\<rparr>"
  have "led_ok l0" using paired_ledger [OF assms(1) f(1)] by simp
  moreover from this have "sorted_wrt (<) (filter (\<lambda>x. current - c_history_depth E \<le> x) (l_claimed l0))"
    by (simp add: led_ok_def sorted_wrt_filter)
  ultimately have "led_ok l"
    using binary_search_Missing(2) [OF f(2)] by (simp add: f(3) led_ok_def ledger_ok_def)
  then show ?thesis using f(1,3) by simp
qed

lemma payout_ok:
  assumes ok: "stk_ok s" and r: "do_payout_stakers E v e s = Inr s'"
  shows "stk_ok s'"
proof -
  obtain rate c l where ch: "payout_checks E v e s = Inr (rate, c, l)"
    using r by (auto simp: do_payout_stakers_def res_simps)
  obtain l0 where l: "led_ok l" "Ledger s c = Some l0" "l_stash l = l_stash l0"
    using payout_ledger_ok [OF stk_okD(1) [OF ok] ch] by blast
  define s1 where "s1 = st_deposit (EvPayoutStarted e (l_stash l)) (s\<lparr>Ledger := (Ledger s)(c \<mapsto> l)\<rparr>)"
  have "stk_ok s1"
    using ok paired_update [OF stk_okD(1) [OF ok] l(2,3,1)] by (simp add: stk_ok_def s1_def)
  moreover have "stk_ok (snd (pay_staker E a w acc)) = stk_ok (snd acc)" for a w acc
    by (rule stk_ok_cong) simp_all
  moreover define ex where "ex = unwrap_or exposure_default (ErasStakersClipped s (e, l_stash l))"
  define parts where
    "parts = payout_parts E rate (vp_commission (unwrap_or default_prefs (ErasValidatorPrefs s (e, v)))) ex"
  define acc where "acc = foldl (\<lambda>acc c. pay_staker E (ie_who c)
      (exposure_share E ex (ie_value c) (snd (snd parts))) acc)
     (pay_staker E (l_stash l) (add_w 128 (exposure_share E ex (ex_own ex) (snd (snd parts)))
        (fst (snd parts))) (0, s1)) (ex_others ex)"
  have "s' = st_world (x_reward_unbalanced E (fst acc)) (snd acc)"
    using r ch by (simp add: do_payout_stakers_def Let_def split_beta s1_def ex_def parts_def acc_def)
  ultimately show ?thesis by (simp add: acc_def)
qed

section \<open>The dispatchables\<close>

lemma bond_ok:
  assumes E: "env_ok E" and ok: "stk_ok s" and r: "bond E og a v payee s = Inr s'"
  shows "stk_ok s'"
proof -
  obtain st c x where st: "Bonded s st = None" and c: "Ledger s c = None"
    and s': "s' = update_ledger E c \<lparr>l_stash = st, l_total = min v (x_free_balance E x st),
        l_active = min v (x_free_balance E x st), l_unlocking = [],
        l_claimed = [unwrap_or 0 (CurrentEra s) - c_history_depth E..<unwrap_or 0 (CurrentEra s)]\<rparr>
      (st_deposit (EvBonded st (min v (x_free_balance E x st)))
        (s\<lparr>st_ext := x, Bonded := (Bonded s)(st \<mapsto> c), Payee := (Payee s)(st \<mapsto> payee)\<rparr>))"
    using r by (auto simp: bond_def res_simps Let_def)
  have "led_ok \<lparr>l_stash = st, l_total = min v (x_free_balance E x st),
        l_active = min v (x_free_balance E x st), l_unlocking = [],
        l_claimed = [unwrap_or 0 (CurrentEra s) - c_history_depth E..<unwrap_or 0 (CurrentEra s)]\<rparr>"
    using env_okD(3) [OF E, of x st] by (auto simp: led_ok_def ledger_ok_def)
  then have "paired ((Bonded s)(st \<mapsto> c)) ((Ledger s)(c \<mapsto> \<lparr>l_stash = st,
      l_total = min v (x_free_balance E x st), l_active = min v (x_free_balance E x st),
      l_unlocking = [],
      l_claimed = [unwrap_or 0 (CurrentEra s) - c_history_depth E..<unwrap_or 0 (CurrentEra s)]\<rparr>))"
    by (intro paired_new [OF stk_okD(1) [OF ok] st c]) simp_all
  moreover have "roles_ok ((Bonded s)(st \<mapsto> c)) (Validators s) (Cooperators s)"
    using stk_okD(2) [OF ok] by (auto simp: roles_ok_def)
  ultimately show ?thesis using stk_okD(3,4) [OF ok] by (simp add: s' stk_ok_def)
qed

lemma bond_extra_ok:
  assumes E: "env_ok E" and ok: "stk_ok s" and r: "bond_extra E og v s = Inr s'"
  shows "stk_ok s'"
proof -
  obtain st c l where l: "Bonded s st = Some c" "Ledger s c = Some l"
    and cases: "(case checked_sub (x_free_balance E (st_ext s) st) (l_total l) of None \<Rightarrow> Inr s
       | Some x \<Rightarrow> let extra = min x v; l' = l\<lparr>l_total := add_w 128 (l_total l) extra,
             l_active := add_w 128 (l_active l) extra\<rparr>
         in rbind (ensure (x_minimum_balance E \<le> l_active l') (Module InsufficientBond)) (\<lambda>_.
              Inr (st_deposit (EvBonded st extra)
                     (update_active_stake E st (update_ledger E c l' s))))) = Inr s'"
    using r by (auto simp: bond_extra_def res_simps)
  note lo = paired_ledger [OF stk_okD(1) [OF ok] l(2)]
  show ?thesis
  proof (cases "checked_sub (x_free_balance E (st_ext s) st) (l_total l)")
    case None
    then show ?thesis using cases [unfolded None] ok by simp
  next
    case (Some x)
    let ?e = "min x v"
    have "l_total l + ?e \<le> max_w 128"
      using Some env_okD(3) [OF E, of "st_ext s" st] by (auto simp: min_def)
    moreover have "l_active l \<le> l_total l" using lo by (auto simp: led_ok_def ledger_ok_def)
    ultimately have w: "add_w 128 (l_total l) ?e = l_total l + ?e" "add_w 128 (l_active l) ?e = l_active l + ?e"
      "l_total l + ?e \<le> max_w 128"
      by (simp_all only: add_w_eq le_max_w_iff)
    have "led_ok (l\<lparr>l_total := l_total l + ?e, l_active := l_active l + ?e\<rparr>)"
      using lo w(3) by (simp add: led_ok_def ledger_ok_def)
    then have "stk_ok (update_ledger E c (l\<lparr>l_total := l_total l + ?e, l_active := l_active l + ?e\<rparr>) s)"
      by (intro update_ledger_ok [OF ok l(2)]) simp_all
    then show ?thesis using cases Some by (auto simp: Let_def w(1,2) res_simps)
  qed
qed

lemma push_chunk_sum:
  assumes "push_chunk b v e cs = Some cs'" and "chunk_sum cs + v \<le> max_w 128"
  shows "chunk_sum cs' = chunk_sum cs + v"
proof (cases "cs \<noteq> [] \<and> uc_era (last cs) = e")
  case True
  then have cs: "cs = butlast cs @ [last cs]" by simp
  have sum: "chunk_sum cs = chunk_sum (butlast cs) + uc_value (last cs)"
    by (subst cs) simp
  have "cs' = butlast cs @ [(last cs)\<lparr>uc_value := sat_add 128 (uc_value (last cs)) v\<rparr>]"
    using assms(1) True by (simp add: push_chunk_def)
  moreover have "sat_add 128 (uc_value (last cs)) v = uc_value (last cs) + v"
    using assms(2) sum by (intro sat_add_eq) linarith
  ultimately show ?thesis by (simp add: sum)
next
  case False
  then show ?thesis using assms(1) by (auto simp: push_chunk_def split: if_splits)
qed

lemma push_chunk_length:
  "push_chunk b v e cs = Some cs' \<Longrightarrow> length cs \<le> b \<Longrightarrow> length cs' \<le> b"
  by (auto simp: push_chunk_def split: if_splits)

text \<open>
  What unbonding does to the ledger: the value (with the dust it would leave) goes from the active
  balance into a chunk, less the exit tax, which leaves the total.
\<close>

lemma unbond_value_spec:
  assumes E: "env_ok E" and l: "led_ok l" and v: "v \<le> l_active l"
    and r: "unbond_value E c l v s = Inr s'"
  obtains l' tax s1 where "led_ok l'" "l_stash l' = l_stash l" "l_total l' + tax = l_total l"
    "l_active l' \<le> l_active l - v" "l_active l' = 0 \<or> l_active l' = l_active l - v \<and> x_minimum_balance E \<le> l_active l'"
    "min_active_bond E s (l_stash l) \<le> l_active l'"
    "tax \<le> l_active l - l_active l'"
    "length (l_unlocking l) \<le> c_max_unlocking_chunks E \<Longrightarrow> length (l_unlocking l') \<le> c_max_unlocking_chunks E"
    "(s1 = s \<or> (\<exists>x. s1 = s\<lparr>st_ext := x\<rparr>))"
    "l_active l' = (if l_active l - v < x_minimum_balance E then 0 else l_active l - v)"
    "tax = pt_mul (c_perbill E) (x_tax_percent E (st_ext s) (l_stash l)) v +
       (if l_active l - v < x_minimum_balance E
        then pt_mul (c_perbill E) (x_tax_percent E (st_ext s) (l_stash l)) (l_active l - v) else 0)"
    "s1 = s\<lparr>st_ext := (if tax = 0 then st_ext s else case x_slash E (l_stash l) tax (st_ext s) of
       (ext, imbalance, _) \<Rightarrow> x_slash_unbalanced E imbalance ext)\<rparr>"
    "s' = st_deposit (EvUnbonded (l_stash l') (l_active l - l_active l' - tax))
       (adjust_cooperator_targets E (l_stash l') (l_active l') (update_ledger E c l' s1))"
proof -
  define P where "P = pt_mul (c_perbill E) (x_tax_percent E (st_ext s) (l_stash l))"
  have P: "P x \<le> x" for x
    unfolding P_def by (rule perthing_okD(6) [OF env_okD(1) [OF E] env_okD(4) [OF E]])
  define a1 where "a1 = l_active l - v"
  have tot: "l_total l = l_active l + chunk_sum (l_unlocking l)" "l_total l \<le> max_w 128"
    using l by (auto simp: led_ok_def ledger_ok_def)
  then have lt: "l_active l < 2 ^ 128" "l_total l < 2 ^ 128" unfolding le_max_w_iff by linarith+
  have a1: "sub_w 128 (l_active l) v = a1" unfolding a1_def by (rule sub_w_eq [OF v lt(1)])
  have va: "v + a1 = l_active l" using v by (simp add: a1_def)
  define act where "act = (if a1 < x_minimum_balance E then 0 else a1)"
  define tax where "tax = (if a1 < x_minimum_balance E then P v + P a1 else P v)"
  have tax: "tax \<le> l_active l - act"
    using P [of v] P [of a1] va by (auto simp: tax_def act_def)
  have le: "P v + P a1 < 2 ^ 128" using P [of v] P [of a1] va lt(1) by linarith
  have parts: "(if a1 < x_minimum_balance E
             then (add_w 128 v a1, add_w 128 (P v) (P a1), 0) else (v, P v, a1))
           = (l_active l - act, tax, act)"
    using va lt(1) le by (auto simp: act_def tax_def add_w_eq)
  have w: "sub_w 128 (l_active l - act) tax = l_active l - act - tax"
    by (rule sub_w_eq [OF tax]) (use lt(1) in linarith)
  have wt: "sub_w 128 (l_total l) tax = l_total l - tax"
    by (rule sub_w_eq) (use tax tot lt in linarith)+
  define e where "e = add_w 32 (unwrap_or 0 (CurrentEra s)) (c_bonding_duration E)"
  obtain cs where role: "min_active_bond E s (l_stash l) \<le> act"
    and cs: "push_chunk (c_max_unlocking_chunks E) (l_active l - act - tax) e (l_unlocking l) = Some cs"
    and s': "s' = unbond_finish E c l act cs tax (l_active l - act - tax) s"
    using r unfolding unbond_value_def P_def [symmetric] a1 Let_def parts prod.case w e_def [symmetric]
      rbind_Inr_iff ensure_Inr_iff ok_or_Inr_iff by auto
  have tl: "tax \<le> l_total l" using tax tot by linarith
  have act: "act \<le> a1" by (simp add: act_def)
  have sum: "chunk_sum cs = chunk_sum (l_unlocking l) + (l_active l - act - tax)"
    by (rule push_chunk_sum [OF cs]) (use tot in linarith)
  define l' where "l' = l\<lparr>l_active := act, l_unlocking := cs, l_total := l_total l - tax\<rparr>"
  define s1 where "s1 = s\<lparr>st_ext := (if tax = 0 then st_ext s else case x_slash E (l_stash l) tax (st_ext s) of
       (ext, imbalance, _) \<Rightarrow> x_slash_unbalanced E imbalance ext)\<rparr>"
  have l': "led_ok l'"
    using l tot tax act va by (auto simp: l'_def led_ok_def ledger_ok_def sum)
  have "s' = st_deposit (EvUnbonded (l_stash l') (l_active l - l_active l' - tax))
      (adjust_cooperator_targets E (l_stash l') (l_active l') (update_ledger E c l' s1))"
  proof (cases "tax = 0")
    case True
    then have "s1 = s" by (simp add: s1_def)
    with True show ?thesis by (simp add: s' l'_def unbond_finish_def)
  next
    case False
    obtain ext imb ms where x: "x_slash E (l_stash l) tax (st_ext s) = (ext, imb, ms)"
      by (cases "x_slash E (l_stash l) tax (st_ext s)")
    with False have "s1 = s\<lparr>st_ext := x_slash_unbalanced E imb ext\<rparr>" by (simp add: s1_def)
    with False x show ?thesis by (simp add: s' l'_def unbond_finish_def Let_def wt)
  qed
  note final = this
  show ?thesis
  proof (rule that [OF l' _ _ _ _ _ _ _ _ _ _ _ final])
    show "l_stash l' = l_stash l" "l_total l' + tax = l_total l" "l_active l' \<le> l_active l - v"
      "min_active_bond E s (l_stash l) \<le> l_active l'" "tax \<le> l_active l - l_active l'"
      using role tax tl act by (simp_all add: l'_def a1_def)
    show "l_active l' = 0 \<or> l_active l' = l_active l - v \<and> x_minimum_balance E \<le> l_active l'"
      "l_active l' = (if l_active l - v < x_minimum_balance E then 0 else l_active l - v)"
      by (simp_all add: l'_def act_def a1_def)
    show "tax = pt_mul (c_perbill E) (x_tax_percent E (st_ext s) (l_stash l)) v +
       (if l_active l - v < x_minimum_balance E
        then pt_mul (c_perbill E) (x_tax_percent E (st_ext s) (l_stash l)) (l_active l - v) else 0)"
      by (simp add: tax_def P_def a1_def)
    show "s1 = s \<or> (\<exists>x. s1 = s\<lparr>st_ext := x\<rparr>)" unfolding s1_def by (rule disjI2) (rule exI, rule refl)
    show "length (l_unlocking l') \<le> c_max_unlocking_chunks E"
      if "length (l_unlocking l) \<le> c_max_unlocking_chunks E"
      using push_chunk_length [OF cs] that by (simp add: l'_def)
  qed (rule s1_def)
qed

lemma unbond_ok:
  assumes E: "env_ok E" and ok: "stk_ok s" and r: "unbond E og v s = Inr s'"
  shows "stk_ok s'"
proof -
  obtain c and l0 :: ledger and s1 l where s1: "(if length (l_unlocking l0) = c_max_unlocking_chunks E
       then do_withdraw_unbonded E c (case SlashingSpans (st_slash s) c of
              None \<Rightarrow> 0 | Some sp \<Rightarrow> length (spans_iter sp)) s
       else Inr s) = Inr s1" and l: "Ledger s1 c = Some l"
    and fin: "(if min v (l_active l) \<noteq> 0 then unbond_value E c l (min v (l_active l)) s1 else Inr s1) = Inr s'"
    using r unfolding unbond_def Let_def rbind_Inr_iff ensure_Inr_iff ok_or_Inr_iff
    by (elim exE conjE) (rule that; assumption)
  have ok1: "stk_ok s1" using s1 ok do_withdraw_ok [OF ok] by (auto split: if_splits)
  have lo: "led_ok l" using paired_ledger [OF stk_okD(1) [OF ok1] l] by simp
  show ?thesis
  proof (cases "min v (l_active l) = 0")
    case True
    then show ?thesis using fin ok1 by simp
  next
    case False
    then have u: "unbond_value E c l (min v (l_active l)) s1 = Inr s'" using fin by simp
    show ?thesis
    proof (rule unbond_value_spec [OF E lo _ u], simp)
      fix l' tax t
      assume l': "led_ok l'" "l_stash l' = l_stash l" and t: "t = s1 \<or> (\<exists>x. t = s1\<lparr>st_ext := x\<rparr>)"
        and s': "s' = st_deposit (EvUnbonded (l_stash l') (l_active l - l_active l' - tax))
          (adjust_cooperator_targets E (l_stash l') (l_active l') (update_ledger E c l' t))"
      have "stk_ok t" "Ledger t c = Some l" using t ok1 l by auto
      then show "stk_ok s'" unfolding s' using update_ledger_ok l' adjust_ok by fastforce
    qed
  qed
qed

lemma rebond_ok:
  assumes ok: "stk_ok s" and v: "v \<le> max_w 128" and r: "rebond E og v s = Inr s'"
  shows "stk_ok s'"
proof -
  obtain c l where l: "Ledger s c = Some l"
    and k: "(case ledger_rebond v l of (l', u) \<Rightarrow>
        rbind (ensure (x_minimum_balance E \<le> l_active l') (Module InsufficientBond))
          (\<lambda>_. Inr (update_ledger E c l' (st_deposit (EvBonded (l_stash l') u) s)))) = Inr s'"
    using r unfolding rebond_def rbind_Inr_iff ensure_Inr_iff ok_or_Inr_iff Let_def
    by (elim exE conjE) (rule that; assumption)
  obtain l' u where lr: "ledger_rebond v l = (l', u)" by (cases "ledger_rebond v l")
  have s': "s' = update_ledger E c l' (st_deposit (EvBonded (l_stash l') u) s)"
    using k by (simp add: lr res_simps)
  have lo: "led_ok l" using paired_ledger [OF stk_okD(1) [OF ok] l] by simp
  then have "ledger_ok l" by (simp add: led_ok_def)
  from ledger_rebond_spec(5) [OF this v lr] have "led_ok l'" "l_stash l' = l_stash l"
    using lo lr by (auto simp: led_ok_def ledger_rebond_def split: prod.splits)
  then show ?thesis unfolding s' using l ok by (intro update_ledger_ok [of _ _ l]) simp_all
qed

lemma set_controller_ok:
  assumes ok: "stk_ok s" and r: "set_controller E og a s = Inr s'"
  shows "stk_ok s'"
proof -
  obtain st old new where b: "Bonded s st = Some old" and n: "Ledger s new = None"
    and s': "s' = (if new \<noteq> old then s\<lparr>Bonded := (Bonded s)(st \<mapsto> new),
        Ledger := (case Ledger s old of Some l \<Rightarrow> (Ledger s)(old := None, new \<mapsto> l) | None \<Rightarrow> Ledger s)\<rparr> else s)"
    using r by (auto simp: set_controller_def res_simps)
  obtain l where l: "Ledger s old = Some l" using paired_bonded [OF stk_okD(1) [OF ok] b] by blast
  have "paired ((Bonded s)(st \<mapsto> new)) ((Ledger s)(old := None, new \<mapsto> l))"
    by (rule paired_move [OF stk_okD(1) [OF ok] b l n])
  moreover have "roles_ok ((Bonded s)(st \<mapsto> new)) (Validators s) (Cooperators s)"
    using stk_okD(2) [OF ok] by (auto simp: roles_ok_def)
  ultimately show ?thesis using ok by (simp add: s' l stk_ok_def)
qed

lemma validate_ok:
  assumes ok: "stk_ok s" and r: "validate E og prefs s = Inr s'"
  shows "stk_ok s'"
proof -
  obtain c l p where l: "Ledger s c = Some l"
    and s': "s' = update_active_stake E (l_stash l) (st_deposit (EvValidatorPrefsSet (l_stash l) p)
       (do_add_validator (l_stash l) p (snd (do_remove_cooperator E (l_stash l) s))))"
    using r by (auto simp: validate_def res_simps Let_def)
  have "Bonded s (l_stash l) \<noteq> None" using paired_ledger [OF stk_okD(1) [OF ok] l] by simp
  then show ?thesis
    using ok by (auto simp: s' do_add_validator_def stk_ok_def roles_ok_def)
qed

lemma do_add_cooperator_ok:
  assumes "stk_ok s" "Bonded s a \<noteq> None" "Validators s a = None" "do_add_cooperator a co s = Inr s'"
  shows "stk_ok s'" and "Ledger s' = Ledger s" and "Bonded s' = Bonded s"
  using assms by (auto simp: do_add_cooperator_def res_simps stk_ok_def roles_ok_def split: if_splits)

lemma cooperate_ok:
  assumes ok: "stk_ok s" and r: "cooperate E og ts s = Inr s'"
  shows "stk_ok s'"
proof -
  obtain c l co s2 where l: "Ledger s c = Some l"
    and a: "do_add_cooperator (l_stash l) co (snd (do_remove_validator E (l_stash l) s)) = Inr s2"
    and s': "Inr (st_deposit (EvCooperated c (filter (\<lambda>(_, stake). 0 < stake) ts))
               (update_active_stake E (l_stash l) s2)) = (Inr s' :: 'a call)"
    using r unfolding cooperate_def Let_def rbind_Inr_iff ensure_Inr_iff ok_or_Inr_iff
    by (elim exE conjE) (rule that; assumption)
  have "Bonded s (l_stash l) \<noteq> None" using paired_ledger [OF stk_okD(1) [OF ok] l] by simp
  then have "stk_ok s2"
    by (intro do_add_cooperator_ok(1) [OF remove_validator_ok [OF ok] _ _ a]) simp_all
  then show ?thesis using s' by auto
qed

lemma kick_ok:
  assumes ok: "stk_ok s" and r: "kick E og who s = Inr s'"
  shows "stk_ok s'"
proof -
  have one: "stk_ok (kick_one E st c t)" if "stk_ok t" for st c t
  proof -
    have "roles_ok B V (C(c \<mapsto> x)) = roles_ok B V C" if "C c \<noteq> None" for B V C x
      by (rule roles_dom) (use that in auto)
    then show ?thesis
      using that by (auto simp: kick_one_def Let_def stk_ok_def split: option.splits)
  qed
  have "stk_ok (foldl (\<lambda>s c. kick_one E st c s) t cs)" if "stk_ok t" for st t cs
    using that by (induction cs arbitrary: t) (simp_all add: one)
  then show ?thesis using r ok by (auto simp: kick_def res_simps)
qed

lemma slash_vip_ok:
  assumes E: "env_ok E" and ok: "stk_ok s" and r: "slash_vip_account E a t s = Inr s'"
  shows "stk_ok s'"
proof -
  obtain l e tax s1 where l: "Ledger s a = Some l"
    and c: "vip_tax E a t l s = Inr (tax, s1)"
    and f: "(let (l', stake_value, s2) = ledger_slash E tax e l s1
       in Inr (if stake_value \<noteq> 0 then
                 let (ext, imbalance, _) = x_slash E a stake_value (st_ext s2)
                 in update_ledger E a l' (s2\<lparr>st_ext := x_slash_unbalanced E imbalance ext\<rparr>)
               else s2)) = (Inr s' :: 'a call)"
    using r unfolding slash_vip_account_def rbind_Inr_iff ok_or_Inr_iff split_paired_Ex prod.case
    by (elim exE conjE) (rule that; assumption)
  have s1: "stk_ok s1 \<and> Ledger s1 = Ledger s"
  proof (cases "is_user_validator s a")
    case True
    then show ?thesis using c ok chill_stash_ok by (auto simp: vip_tax_def Let_def split: if_splits)
  next
    case nv: False
    show ?thesis
    proof (cases "Cooperators s a")
      case None
      then show ?thesis using c nv ok by (auto simp: vip_tax_def)
    next
      case (Some co)
      then have "Bonded s a \<noteq> None" "Validators s a = None"
        using stk_okD(2) [OF ok] nv by (auto simp: roles_ok_def is_user_validator_def)
      then show ?thesis
        using c nv Some do_add_cooperator_ok [OF ok, of a]
        by (fastforce simp: vip_tax_def res_simps split: prod.splits)
    qed
  qed
  obtain l' v s2 where ls: "ledger_slash E tax e l s1 = (l', v, s2)"
    by (cases "ledger_slash E tax e l s1")
  have lo: "led_ok l" using paired_ledger [OF stk_okD(1) [OF ok] l] by simp
  note sp = ledger_slash_spec [OF E lo ls]
  then obtain g where g: "s2 = st_world g s1" by blast
  have "stk_ok (update_ledger E a l' (s2\<lparr>st_ext := x\<rparr>))" for x
    by (rule update_ledger_ok [of _ _ l]) (use s1 l sp in \<open>simp_all add: g\<close>)
  then show ?thesis using f ls s1 g by (auto split: prod.splits if_splits)
qed

end
