(* ===== verification/StakingSteps.thy ===== *)
theory StakingSteps
  imports StakingInv
begin

text \<open>
  The staking pallet as a whole: its genesis, the dispatch of its calls, and the step relation of
  everything that changes its state (calls, hooks of the session, offence and authorship pallets, and
  the other pallets moving the world and the reputations). Every state reachable from a genesis
  keeps the invariant \<open>stk_ok\<close>. Then the properties of single operations.
\<close>

section \<open>Genesis\<close>

datatype staker_status = IsValidator | IsCooperator "(account \<times> balance) list" | IsIdle

record genesis_config =
  g_validator_count :: nat
  g_minimum_validator_count :: nat
  g_invulnerables :: "account list"
  g_force_era :: forcing
  g_canceled_payout :: balance
  g_slash_reward_fraction :: nat
  g_min_cooperator_bond :: balance
  g_energy_per_stake_currency :: nat
  g_block_authoring_reward :: nat
  g_min_commission :: nat
  g_min_common_validator_bond :: balance
  g_min_trust_validator_bond :: balance
  g_max_validator_count :: "nat option"
  g_max_cooperator_count :: "nat option"
  g_disable_collaboration :: bool
  g_stakers :: "(account \<times> account \<times> balance \<times> staker_status) list"

definition empty_slash :: slash_state where
  "empty_slash = \<lparr>ValidatorSlashInEra = Map.empty, CooperatorSlashInEra = Map.empty,
     SlashingSpans = Map.empty, SpanSlash = Map.empty, DisabledValidators = [],
     sl_session_disabled = []\<rparr>"

definition genesis_storage :: "genesis_config \<Rightarrow> rep_state \<Rightarrow> 'x \<Rightarrow> 'x staking" where
  "genesis_storage g R x = \<lparr>ValidatorCount = g_validator_count g, CoreNodesCount = 0,
     MinimumValidatorCount = g_minimum_validator_count g, Invulnerables = g_invulnerables g,
     Bonded = Map.empty, MinCooperatorBond = g_min_cooperator_bond g,
     MinCommonValidatorBond = g_min_common_validator_bond g,
     MinTrustValidatorBond = g_min_trust_validator_bond g, MinCommission = g_min_commission g,
     Ledger = Map.empty, Payee = Map.empty, Validators = Map.empty,
     MaxValidatorsCount = g_max_validator_count g, Cooperators = Map.empty,
     Collaborations = Map.empty, MaxCooperatorsCount = g_max_cooperator_count g, CurrentEra = None,
     ActiveEra = None, ErasStartSessionIndex = Map.empty, ErasStakers = Map.empty,
     ErasStakersClipped = Map.empty, ErasValidatorPrefs = Map.empty,
     ErasEnergyPerStakeCurrency = Map.empty, ErasTotalStake = Map.empty, ForceEra = g_force_era g,
     SlashRewardFraction = g_slash_reward_fraction g, CanceledSlashPayout = g_canceled_payout g,
     UnappliedSlashes = Map.empty, BondedEras = [], CurrentPlannedSession = 0, ChillThreshold = None,
     CurrentEnergyPerStakeCurrency = Some (g_energy_per_stake_currency g),
     BlockAuthoringReward = g_block_authoring_reward g, st_slash = empty_slash, st_rep = R,
     st_events = [], st_ext = x\<rparr>"

text \<open>One staker of the genesis; \<open>None\<close> is the panic of an assertion.\<close>

definition genesis_staker ::
  "'x staking_env \<Rightarrow> genesis_config \<Rightarrow> account \<times> account \<times> balance \<times> staker_status
   \<Rightarrow> 'x staking \<Rightarrow> 'x staking option" where
  "genesis_staker E g p s =
     (let (stash, controller, amount, status) = p
      in if x_free_balance E (st_ext s) stash < amount then None
         else case bond E (Signed stash) controller amount ToController s of
           Inl _ \<Rightarrow> None
         | Inr s1 \<Rightarrow>
             let collaborative = (\<not> g_disable_collaboration g \<and> is_legit_for_collab E s1 stash)
             in (case (case status of
                    IsValidator \<Rightarrow> validate E (Signed controller)
                      (default_prefs\<lparr>vp_collaborative := collaborative,
                                     vp_commission := g_min_commission g\<rparr>) s1
                  | IsCooperator votes \<Rightarrow> cooperate E (Signed controller) votes s1
                  | IsIdle \<Rightarrow> Inr s1) of
                  Inl _ \<Rightarrow> None | Inr s2 \<Rightarrow> Some s2))"

fun genesis_stakers ::
  "'x staking_env \<Rightarrow> genesis_config \<Rightarrow> (account \<times> account \<times> balance \<times> staker_status) list
   \<Rightarrow> 'x staking \<Rightarrow> 'x staking option" where
  "genesis_stakers E g [] s = Some s"
| "genesis_stakers E g (p # ps) s = Option.bind (genesis_staker E g p s) (genesis_stakers E g ps)"

definition staking_genesis ::
  "'x staking_env \<Rightarrow> genesis_config \<Rightarrow> rep_state \<Rightarrow> 'x \<Rightarrow> 'x staking option" where
  "staking_genesis E g R x = genesis_stakers E g (g_stakers g) (genesis_storage g R x)"

section \<open>The calls\<close>

datatype staking_call =
  Call_bond account balance reward_destination
| Call_bond_extra balance
| Call_unbond balance
| Call_withdraw_unbonded nat
| Call_validate validator_prefs
| Call_cooperate "(account \<times> balance) list"
| Call_chill
| Call_set_payee reward_destination
| Call_set_controller account
| Call_set_validator_count nat
| Call_increase_validator_count nat
| Call_scale_validator_count nat
| Call_set_core_nodes_count nat
| Call_force_no_eras
| Call_force_new_era
| Call_set_invulnerables "account list"
| Call_force_unstake account nat
| Call_force_new_era_always
| Call_cancel_deferred_slash era "nat list"
| Call_payout_stakers account era
| Call_rebond balance
| Call_reap_stash account nat
| Call_kick "account list"
| Call_set_staking_configs "nat config_op" "nat config_op" "nat config_op" "nat config_op"
    "nat config_op" "nat config_op" "nat config_op"
| Call_chill_other account
| Call_force_chill account
| Call_make_collaborative
| Call_force_apply_min_commission account
| Call_set_min_commission nat
| Call_set_energy_per_stake_currency nat
| Call_set_block_authoring_reward nat

fun staking_dispatch :: "'x staking_env \<Rightarrow> origin \<Rightarrow> staking_call \<Rightarrow> 'x staking \<Rightarrow> 'x call" where
  "staking_dispatch E og (Call_bond c v p) s = bond E og c v p s"
| "staking_dispatch E og (Call_bond_extra v) s = bond_extra E og v s"
| "staking_dispatch E og (Call_unbond v) s = unbond E og v s"
| "staking_dispatch E og (Call_withdraw_unbonded n) s = withdraw_unbonded E og n s"
| "staking_dispatch E og (Call_validate p) s = validate E og p s"
| "staking_dispatch E og (Call_cooperate ts) s = cooperate E og ts s"
| "staking_dispatch E og Call_chill s = chill E og s"
| "staking_dispatch E og (Call_set_payee p) s = set_payee og p s"
| "staking_dispatch E og (Call_set_controller a) s = set_controller E og a s"
| "staking_dispatch E og (Call_set_validator_count n) s = set_validator_count og n s"
| "staking_dispatch E og (Call_increase_validator_count n) s = increase_validator_count og n s"
| "staking_dispatch E og (Call_scale_validator_count n) s = scale_validator_count E og n s"
| "staking_dispatch E og (Call_set_core_nodes_count n) s = set_core_nodes_count og n s"
| "staking_dispatch E og Call_force_no_eras s = force_no_eras og s"
| "staking_dispatch E og Call_force_new_era s = force_new_era og s"
| "staking_dispatch E og (Call_set_invulnerables xs) s = set_invulnerables og xs s"
| "staking_dispatch E og (Call_force_unstake a n) s = force_unstake E og a n s"
| "staking_dispatch E og Call_force_new_era_always s = force_new_era_always og s"
| "staking_dispatch E og (Call_cancel_deferred_slash e is) s = cancel_deferred_slash E og e is s"
| "staking_dispatch E og (Call_payout_stakers a e) s = payout_stakers E og a e s"
| "staking_dispatch E og (Call_rebond v) s = rebond E og v s"
| "staking_dispatch E og (Call_reap_stash a n) s = reap_stash E og a n s"
| "staking_dispatch E og (Call_kick who) s = kick E og who s"
| "staking_dispatch E og (Call_set_staking_configs a b c d e f g) s =
     set_staking_configs og a b c d e f g s"
| "staking_dispatch E og (Call_chill_other a) s = chill_other E og a s"
| "staking_dispatch E og (Call_force_chill a) s = force_chill E og a s"
| "staking_dispatch E og Call_make_collaborative s = make_collaborative E og s"
| "staking_dispatch E og (Call_force_apply_min_commission a) s = force_apply_min_commission og a s"
| "staking_dispatch E og (Call_set_min_commission n) s = set_min_commission E og n s"
| "staking_dispatch E og (Call_set_energy_per_stake_currency n) s =
     set_energy_per_stake_currency E og n s"
| "staking_dispatch E og (Call_set_block_authoring_reward n) s = set_block_authoring_reward E og n s"

text \<open>The only argument whose width a proof needs: \<open>rebond\<close>'s \<open>u128\<close>.\<close>

fun call_in_range :: "staking_call \<Rightarrow> bool" where
  "call_in_range (Call_rebond v) \<longleftrightarrow> v \<le> max_w 128"
| "call_in_range _ \<longleftrightarrow> True"

section \<open>Steps and reachable states\<close>

inductive stk_step :: "'x staking_env \<Rightarrow> 'x staking \<Rightarrow> 'x staking \<Rightarrow> bool" for E where
  step_call: "call_in_range c \<Longrightarrow> staking_dispatch E og c s = Inr s' \<Longrightarrow> stk_step E s s'"
| step_refused: "staking_dispatch E og c s = Inl e \<Longrightarrow> stk_step E s s"
| step_finalize: "stk_step E s (on_finalize E s)"
| step_new_session: "stk_step E s (snd (new_session E i s))"
| step_start_session: "stk_step E s (fst (start_session E i s))"
| step_end_session: "stk_step E s (end_session E i s)"
| step_offence: "(\<And>a. ActiveEra s = Some a \<Longrightarrow> ae_index a + 1 < 2 ^ 32)
    \<Longrightarrow> stk_step E s (on_offence E offenders fractions i s)"
| step_author: "stk_step E s (note_author E a s)"
| step_reward: "stk_step E s (reward_by_ids E ps s)"
| step_vip: "slash_vip_account E a p s = Inr s' \<Longrightarrow> stk_step E s s'"
| step_world: "stk_step E s (s\<lparr>st_ext := x\<rparr>)"
| step_reputation: "stk_step E s (s\<lparr>st_rep := R\<rparr>)"

inductive stk_reachable :: "'x staking_env \<Rightarrow> 'x staking \<Rightarrow> bool" for E where
  reach_genesis: "staking_genesis E g R x = Some s \<Longrightarrow> stk_reachable E s"
| reach_step: "stk_reachable E s \<Longrightarrow> stk_step E s s' \<Longrightarrow> stk_reachable E s'"

inductive_cases stk_stepE: "stk_step E s s'"

section \<open>The remaining calls keep the invariant\<close>

lemma stk_ok_storage [simp]:
  "stk_ok (s\<lparr>ValidatorCount := n\<rparr>) = stk_ok s" "stk_ok (s\<lparr>CoreNodesCount := n\<rparr>) = stk_ok s"
  "stk_ok (s\<lparr>Payee := p\<rparr>) = stk_ok s" "stk_ok (s\<lparr>Invulnerables := is\<rparr>) = stk_ok s"
  "stk_ok (s\<lparr>ForceEra := f\<rparr>) = stk_ok s" "stk_ok (s\<lparr>UnappliedSlashes := u\<rparr>) = stk_ok s"
  "stk_ok (s\<lparr>MinCommission := n\<rparr>) = stk_ok s" "stk_ok (s\<lparr>MinCooperatorBond := n\<rparr>) = stk_ok s"
  "stk_ok (s\<lparr>MinCommonValidatorBond := n\<rparr>) = stk_ok s"
  "stk_ok (s\<lparr>MinTrustValidatorBond := n\<rparr>) = stk_ok s"
  "stk_ok (s\<lparr>MaxCooperatorsCount := m\<rparr>) = stk_ok s" "stk_ok (s\<lparr>MaxValidatorsCount := m\<rparr>) = stk_ok s"
  "stk_ok (s\<lparr>ChillThreshold := m\<rparr>) = stk_ok s" "stk_ok (s\<lparr>BlockAuthoringReward := n\<rparr>) = stk_ok s"
  "stk_ok (s\<lparr>CurrentEnergyPerStakeCurrency := m\<rparr>) = stk_ok s"
  by (simp_all add: stk_ok_def)

lemma stk_ok_prefs: "stk_ok s \<Longrightarrow> Validators s a \<noteq> None \<Longrightarrow> stk_ok (s\<lparr>Validators := (Validators s)(a \<mapsto> p)\<rparr>)"
  by (auto simp: stk_ok_def roles_ok_def)

lemma role_calls_ok:
  assumes "stk_ok s"
  shows "chill E og s = Inr s' \<Longrightarrow> stk_ok s'" "chill_other E og a s = Inr s' \<Longrightarrow> stk_ok s'"
    "force_chill E og a s = Inr s' \<Longrightarrow> stk_ok s'" "make_collaborative E og s = Inr s' \<Longrightarrow> stk_ok s'"
    "force_apply_min_commission og a s = Inr s' \<Longrightarrow> stk_ok s'"
  using assms
  by (auto simp: chill_def chill_other_def force_chill_def make_collaborative_def
      force_apply_min_commission_def res_simps Let_def chill_both_ok stk_ok_prefs)

lemma unstake_calls_ok:
  assumes "stk_ok s"
  shows "withdraw_unbonded E og n s = Inr s' \<Longrightarrow> stk_ok s'" "force_unstake E og a n s = Inr s' \<Longrightarrow> stk_ok s'"
    "reap_stash E og a n s = Inr s' \<Longrightarrow> stk_ok s'" "set_payee og p s = Inr s' \<Longrightarrow> stk_ok s'"
    "payout_stakers E og a e s = Inr s' \<Longrightarrow> stk_ok s'"
  unfolding withdraw_unbonded_def force_unstake_def reap_stash_def set_payee_def payout_stakers_def
    Let_def rbind_Inr_iff ensure_Inr_iff ok_or_Inr_iff sum.inject
  by (elim exE conjE; use assms in \<open>auto intro: do_withdraw_ok kill_stash_ok payout_ok\<close>)+

lemma admin_calls_ok:
  assumes "stk_ok s"
  shows "set_validator_count og n s = Inr s' \<Longrightarrow> stk_ok s'" "increase_validator_count og n s = Inr s' \<Longrightarrow> stk_ok s'"
    "scale_validator_count E og n s = Inr s' \<Longrightarrow> stk_ok s'" "set_core_nodes_count og n s = Inr s' \<Longrightarrow> stk_ok s'"
    "force_no_eras og s = Inr s' \<Longrightarrow> stk_ok s'" "force_new_era og s = Inr s' \<Longrightarrow> stk_ok s'"
    "force_new_era_always og s = Inr s' \<Longrightarrow> stk_ok s'" "set_invulnerables og is s = Inr s' \<Longrightarrow> stk_ok s'"
    "cancel_deferred_slash E og e is s = Inr s' \<Longrightarrow> stk_ok s'"
  using assms
  by (auto simp: set_validator_count_def increase_validator_count_def scale_validator_count_def
      set_core_nodes_count_def force_no_eras_def force_new_era_def force_new_era_always_def
      force_era_mode_def set_force_era_def set_invulnerables_def cancel_deferred_slash_def
      put_validator_count_def res_simps Let_def)

lemma config_calls_ok:
  assumes "stk_ok s"
  shows "set_staking_configs og a b c d f g h s = Inr s' \<Longrightarrow> stk_ok s'"
    "set_min_commission E og n s = Inr s' \<Longrightarrow> stk_ok s'"
    "set_energy_per_stake_currency E og n s = Inr s' \<Longrightarrow> stk_ok s'"
    "set_block_authoring_reward E og n s = Inr s' \<Longrightarrow> stk_ok s'"
  using assms
  by (auto simp: set_staking_configs_def set_min_commission_def set_energy_per_stake_currency_def
      set_block_authoring_reward_def res_simps)

lemma staking_dispatch_ok:
  assumes E: "env_ok E" and ok: "stk_ok s" and "call_in_range c" and r: "staking_dispatch E og c s = Inr s'"
  shows "stk_ok s'"
  using assms(3) r
  by (cases c) (simp_all add: bond_ok [OF E ok] bond_extra_ok [OF E ok] unbond_ok [OF E ok] validate_ok [OF ok]
      cooperate_ok [OF ok] set_controller_ok [OF ok] rebond_ok [OF ok] kick_ok [OF ok]
      role_calls_ok [OF ok] unstake_calls_ok [OF ok] admin_calls_ok [OF ok] config_calls_ok [OF ok])

lemma stk_step_ok:
  assumes E: "env_ok E" "iter_ok E" and ok: "stk_ok s" and step: "stk_step E s s'"
  shows "stk_ok s'"
  using step ok
proof (induction rule: stk_step.induct)
  case (step_call c og s s')
  then show ?case using staking_dispatch_ok [OF E(1)] by blast
next
  case (step_finalize s)
  then show ?case by (rule on_finalize_ok)
next
  case (step_new_session s i)
  then have "dom (Validators s) \<subseteq> dom (Bonded s)" "finite (dom (Bonded s))"
    using stk_okD(1,2) [of s] by (auto simp: roles_ok_def paired_def)
  then have "finite (dom (Validators s))" by (rule finite_subset)
  then show ?case using new_session_ok step_new_session E(2) by blast
next
  case (step_start_session s i)
  then show ?case using start_session_ok [OF E(1) _ prod.collapse [symmetric]] by blast
next
  case (step_end_session s i)
  then show ?case by (rule end_session_ok)
next
  case (step_offence s offenders fractions i)
  then show ?case using on_offence_ok [OF E(1)] by blast
next
  case (step_author s a)
  then show ?case by (simp add: note_author_def Let_def split: sum.splits)
next
  case (step_vip s a p s')
  then show ?case using slash_vip_ok [OF E(1)] by blast
qed (simp_all add: reward_by_ids_def)

lemma genesis_staker_ok:
  assumes E: "env_ok E" and t: "stk_ok t" and g: "genesis_staker E g p t = Some t'"
  shows "stk_ok t'"
proof -
  obtain stash controller amount status where p: "p = (stash, controller, amount, status)" by (cases p)
  obtain s1 where b: "bond E (Signed stash) controller amount ToController t = Inr s1"
    using g by (auto simp: genesis_staker_def p split: if_splits sum.splits)
  have s1: "stk_ok s1" by (rule bond_ok [OF E t b])
  show ?thesis
    using g b s1 validate_ok [OF s1] cooperate_ok [OF s1]
    by (auto simp: genesis_staker_def p Let_def split: if_splits sum.splits staker_status.splits)
qed

lemma staking_genesis_ok:
  assumes E: "env_ok E" and g: "staking_genesis E g R x = Some s"
  shows "stk_ok s"
proof -
  have "stk_ok t'" if "stk_ok t" "genesis_stakers E g ps t = Some t'" for ps t t'
    using that
  proof (induction ps arbitrary: t)
    case (Cons p ps)
    then obtain u where "genesis_staker E g p t = Some u" "genesis_stakers E g ps u = Some t'"
      by (auto simp: bind_eq_Some_conv)
    then show ?case using Cons genesis_staker_ok [OF E] by blast
  qed simp
  moreover have "stk_ok (genesis_storage g R x)"
    by (simp add: genesis_storage_def stk_ok_def paired_def roles_ok_def empty_slash_def spans_ok_def)
  ultimately show ?thesis using g by (simp add: staking_genesis_def)
qed

lemma stk_reachable_ok:
  assumes "stk_reachable E s" "env_ok E" "iter_ok E"
  shows "stk_ok s"
  using assms(1)
proof induction
  case (reach_genesis g R x s)
  then show ?case by (rule staking_genesis_ok [OF assms(2)])
next
  case (reach_step s s')
  then show ?case using stk_step_ok [OF assms(2,3)] by blast
qed

end
