(* ===== verification/StakingProps.thy ===== *)
theory StakingProps
  imports StakingSteps
begin

text \<open>
  Properties of the staking pallet: the invariant of the reachable states, and what single operations
  do on every branch. The witnesses run on \<open>demo_env\<close>, an environment with the reference arithmetic
  whose world is the map of the free balances.
\<close>

section \<open>An environment for the witnesses\<close>

definition demo_env :: "(account \<Rightarrow> balance) staking_env" where
  "demo_env = \<lparr>c_perbill = perthing_ref perbill_one, c_perquintill = perthing_ref perquintill_one,
     c_percent = perthing_ref 100, c_fixed = fixed_ref 128 perquintill_one, c_libm = libm_exact,
     c_max_cooperations = 16, c_history_depth = 84, c_sessions_per_era = 6, c_bonding_duration = 28,
     c_slash_defer_duration = 27, c_max_rewarded = 64, c_max_unlocking_chunks = 32,
     c_validator_tier = Vanguard 1, c_collab_tier = Trailblazer 1, c_disabling_factor = 3,
     c_admin_origin = (\<lambda>og. og = Root), x_block_number = (\<lambda>_. 0), x_lookup = (\<lambda>_ a. Some a),
     x_minimum_balance = 1, x_free_balance = (\<lambda>x a. min (x a) (max_w 128)),
     x_total_balance = (\<lambda>x. x), x_set_lock = (\<lambda>_ _ x. x), x_remove_lock = (\<lambda>_ x. x),
     x_slash = (\<lambda>a v x. (x(a := x a - v), min v (x a), v - x a)),
     x_resolve_creating = (\<lambda>a v x. x(a := x a + v)), x_slash_unbalanced = (\<lambda>_ x. x),
     x_drop_imbalance = (\<lambda>_ x. x), x_inc_consumers = (\<lambda>_ x. Some x), x_dec_consumers = (\<lambda>_ x. x),
     x_deposit_energy = (\<lambda>a v x. Some (x, v)), x_reward_unbalanced = (\<lambda>_ x. x),
     x_on_slash = (\<lambda>_ _ _ _ x. x), x_nac_level = (\<lambda>_ _. Some 1),
     x_validator_exposure = (\<lambda>_ _ v. v), x_cooperator_exposure = (\<lambda>_ _ v. v),
     x_validators = (\<lambda>_. []), x_disable_validator = (\<lambda>_ x. x), x_prune_historical = (\<lambda>_ x. x),
     x_on_new_session = (\<lambda>_ x. x), x_now_millis = (\<lambda>_. 0), x_era_energy = (\<lambda>_ _. Some 0),
     x_change_quarter_info = (\<lambda>x. x), x_tax_percent = (\<lambda>_ _. 0), x_update_active_stake = (\<lambda>_ _ x. x),
     x_iter = sorted_list_of_set\<rparr>"

lemma demo_env_ok: "env_ok demo_env" "iter_ok demo_env"
  by (simp_all add: env_ok_def iter_ok_def demo_env_def perthing_ref_ok)

definition demo_genesis :: genesis_config where
  "demo_genesis = \<lparr>g_validator_count = 4, g_minimum_validator_count = 1, g_invulnerables = [],
     g_force_era = NotForcing, g_canceled_payout = 0, g_slash_reward_fraction = 100000000,
     g_min_cooperator_bond = 1, g_energy_per_stake_currency = 1, g_block_authoring_reward = 1,
     g_min_commission = 0, g_min_common_validator_bond = 10, g_min_trust_validator_bond = 10,
     g_max_validator_count = None, g_max_cooperator_count = None, g_disable_collaboration = True,
     g_stakers = [(11, 10, 100, IsIdle)]\<rparr>"

definition demo_ledger :: ledger where
  "demo_ledger = \<lparr>l_stash = 11, l_total = 100, l_active = 100, l_unlocking = [], l_claimed = []\<rparr>"

definition demo_rep :: rep_state where
  "demo_rep = \<lparr>AccountReputation = Map.empty, rep_events = []\<rparr>"

text \<open>The demo genesis, with one idle staker bonded.\<close>

definition demo_state :: "(account \<Rightarrow> balance) staking" where
  "demo_state = (genesis_storage demo_genesis demo_rep (\<lambda>_. 1000))
     \<lparr>Bonded := [11 \<mapsto> 10], Payee := [11 \<mapsto> ToController], Ledger := [10 \<mapsto> demo_ledger],
      st_events := [EvBonded 11 100]\<rparr>"

lemma demo_genesis_state: "staking_genesis demo_env demo_genesis demo_rep (\<lambda>_. 1000) = Some demo_state"
  by (simp add: staking_genesis_def demo_genesis_def genesis_staker_def genesis_storage_def demo_env_def
      bond_def demo_state_def demo_ledger_def update_ledger_def update_active_stake_def st_world_def
      st_deposit_def Let_def max_w_def)

section \<open>The invariant\<close>

text \<open>C1.
  In every reachable state of the staking pallet (any genesis, then any sequence of calls, session and
  offence hooks, and moves of the other pallets) stashes and controllers are paired one to one through
  their ledgers; a ledger's total is its active balance and its unlocking chunks; the eras it claimed
  are sorted without duplicates; nobody validates and cooperates at once; and every validator and
  every cooperator is bonded.
\<close>

theorem reachable_staking_consistent:
  assumes "stk_reachable E s" "env_ok E" "iter_ok E"
  shows "(\<forall>st c. Bonded s st = Some c \<longleftrightarrow> (\<exists>l. Ledger s c = Some l \<and> l_stash l = st)) \<and>
    (\<forall>c l. Ledger s c = Some l \<longrightarrow>
       l_total l = l_active l + chunk_sum (l_unlocking l) \<and> l_total l \<le> max_w 128 \<and>
       sorted_wrt (<) (l_claimed l)) \<and>
    (\<forall>a. Validators s a = None \<or> Cooperators s a = None) \<and>
    dom (Validators s) \<union> dom (Cooperators s) \<subseteq> dom (Bonded s)"
proof -
  have ok: "stk_ok s" using stk_reachable_ok assms by blast
  show ?thesis
  proof (intro conjI)
    show "\<forall>st c. Bonded s st = Some c \<longleftrightarrow> (\<exists>l. Ledger s c = Some l \<and> l_stash l = st)"
      using paired_bonded [OF stk_okD(1) [OF ok]] paired_ledger [OF stk_okD(1) [OF ok]] by blast
    show "\<forall>c l. Ledger s c = Some l \<longrightarrow>
       l_total l = l_active l + chunk_sum (l_unlocking l) \<and> l_total l \<le> max_w 128 \<and>
       sorted_wrt (<) (l_claimed l)"
      using paired_ledger [OF stk_okD(1) [OF ok]] unfolding led_ok_def ledger_ok_def by blast
    show "\<forall>a. Validators s a = None \<or> Cooperators s a = None"
      using stk_okD(2) [OF ok] by (auto simp: roles_ok_def)
    show "dom (Validators s) \<union> dom (Cooperators s) \<subseteq> dom (Bonded s)"
      using stk_okD(2) [OF ok] by (auto simp: roles_ok_def)
  qed
qed

theorem reachable_staking_consistent_witness:
  "\<exists>l. Ledger demo_state 10 = Some l \<and> l_stash l = 11 \<and> sorted_wrt (<) (l_claimed l)"
proof -
  have "stk_reachable demo_env demo_state" by (rule reach_genesis [OF demo_genesis_state])
  then have "Bonded demo_state 11 = Some 10 \<longleftrightarrow> (\<exists>l. Ledger demo_state 10 = Some l \<and> l_stash l = 11)"
    "\<And>l. Ledger demo_state 10 = Some l \<Longrightarrow> sorted_wrt (<) (l_claimed l)"
    using reachable_staking_consistent [OF _ demo_env_ok] by blast+
  then show ?thesis by (simp add: demo_state_def)
qed

section \<open>Cancelling deferred slashes\<close>

lemma sorted_unique_iff: "is_sorted_and_unique xs \<longleftrightarrow> sorted_wrt (<) xs"
  by (induction xs rule: is_sorted_and_unique.induct) (auto dest: order.strict_trans)

lemma remove_at_nths:
  assumes "r \<le> i" "i - r < length xs" "\<forall>j \<in> A. i < j"
  shows "nths (remove_at (i - r) xs) {j. j + Suc r \<notin> A} = nths xs {j. j + r \<notin> insert i A}"
proof -
  define k where "k = i - r"
  have k: "i = k + r" "k < length xs" using assms(1,2) by (simp_all add: k_def)
  define as where "as = take k xs"
  define bs where "bs = drop (Suc k) xs"
  have xs: "xs = as @ xs ! k # bs" using k(2) by (simp add: as_def bs_def id_take_nth_drop)
  have la: "length as = k" using k(2) by (simp add: as_def)
  have A: "j + Suc r \<notin> A" "j + r \<notin> insert i A" if "j < k" for j
    using that assms(3) k(1) by fastforce+
  have l: "nths as {j. j + Suc r \<notin> A} = as" "nths as {j. j + r \<notin> insert i A} = as"
    by (rule nths_all; use A la in \<open>simp del: add_Suc_right\<close>)+
  have b: "{j. Suc (j + (k + r)) \<notin> A} = {j. j + Suc k + r \<notin> insert i A}"
    using k(1) by (auto simp: add.assoc)
  have "nths (as @ bs) {j. j + Suc r \<notin> A} = as @ nths bs {j. Suc (j + (k + r)) \<notin> A}"
    unfolding nths_append l la by (simp add: add.assoc)
  moreover have "nths (as @ xs ! k # bs) {j. j + r \<notin> insert i A} = as @ nths bs {j. j + Suc k + r \<notin> insert i A}"
    unfolding nths_append l la by (simp add: nths_Cons k(1))
  ultimately show ?thesis
    unfolding b by (metis k_def remove_at_def as_def bs_def xs)
qed

lemma remove_indices_nths:
  assumes "sorted_wrt (<) is" "\<forall>i \<in> set is. r \<le> i" "\<forall>i \<in> set is. i < length xs + r"
  shows "remove_indices r is xs = nths xs {j. j + r \<notin> set is}"
  using assms
proof (induction "is" arbitrary: r xs)
  case Nil
  then show ?case by (simp add: nths_all)
next
  case (Cons i js)
  have k: "i - r < length xs" "r \<le> i" using Cons.prems(2,3) by auto
  have "remove_indices (Suc r) js (remove_at (i - r) xs) = nths (remove_at (i - r) xs) {j. j + Suc r \<notin> set js}"
  proof (rule Cons.IH)
    show "sorted_wrt (<) js" using Cons.prems(1) by simp
    show "\<forall>i \<in> set js. Suc r \<le> i" using Cons.prems(1) k(2) by fastforce
    show "\<forall>j \<in> set js. j < length (remove_at (i - r) xs) + Suc r"
      using Cons.prems(3) k by (auto simp: remove_at_def)
  qed
  also have "\<dots> = nths xs {j. j + r \<notin> insert i (set js)}"
    by (rule remove_at_nths) (use Cons.prems(1) k in auto)
  finally show ?case by simp
qed

text \<open>
  Cancelling deferred slashes of an era succeeds exactly when the caller is the admin origin and the
  indices are non-empty, strictly ascending and all in range; then the slashes at those indices, and
  only those, are removed, in their old order.
\<close>

theorem cancel_deferred_slash_exact:
  "cancel_deferred_slash E og e is s = Inr s' \<longleftrightarrow>
     c_admin_origin E og \<and> is \<noteq> [] \<and> sorted_wrt (<) is \<and>
     last is < length (unwrap_or [] (UnappliedSlashes s e)) \<and>
     s' = s\<lparr>UnappliedSlashes := (UnappliedSlashes s)(e \<mapsto>
            nths (unwrap_or [] (UnappliedSlashes s e)) (- set is))\<rparr>"
proof -
  have r: "remove_indices 0 is xs = nths xs (- set is)"
    if "sorted_wrt (<) is" "is \<noteq> []" "last is < length xs" for xs :: "unapplied_slash list"
  proof -
    have "\<forall>i \<in> set is. i \<le> last is"
    proof
      fix i assume i: "i \<in> set is"
      have "is = butlast is @ [last is]" using that(2) by simp
      then have "sorted_wrt (<) (butlast is @ [last is])" using that(1) by simp
      then have "\<forall>j \<in> set (butlast is). j < last is" by (simp add: sorted_wrt_append)
      moreover have "i \<in> set (butlast is) \<or> i = last is"
        using i that(2) by (metis append_butlast_last_id in_set_butlastD Un_iff empty_iff empty_set
            insert_iff list.simps(15) set_append)
      ultimately show "i \<le> last is" by auto
    qed
    then have "\<forall>i \<in> set is. i < length xs" using that(3) by auto
    then show ?thesis using remove_indices_nths [OF that(1), of 0 xs] by (simp add: Compl_eq)
  qed
  show ?thesis
    unfolding cancel_deferred_slash_def ensure_admin_def rbind_Inr_iff ensure_Inr_iff Let_def
      sorted_unique_iff by (auto simp: r)
qed

section \<open>Sessions and eras\<close>

lemma search_eras_Some:
  "search_eras s i n = Some e \<longleftrightarrow> e \<le> n \<and> (\<exists>a. ErasStartSessionIndex s e = Some a \<and> a \<le> i) \<and>
     (\<forall>e'. e < e' \<and> e' \<le> n \<longrightarrow> (\<exists>b. ErasStartSessionIndex s e' = Some b \<and> i < b))"
proof (induction n)
  case 0
  then show ?case by (subst search_eras.simps) (auto split: option.splits)
next
  case (Suc n)
  show ?case
  proof (cases "ErasStartSessionIndex s (Suc n)")
    case None
    have "\<not> e \<le> n" if "\<forall>e'. e < e' \<and> e' \<le> Suc n \<longrightarrow> (\<exists>b. ErasStartSessionIndex s e' = Some b \<and> i < b)"
      using spec [OF that, of "Suc n"] None by simp
    then show ?thesis using None by (subst search_eras.simps) (auto simp: le_Suc_eq)
  next
    case (Some a)
    show ?thesis
    proof (cases "a \<le> i")
      case True
      have "\<not> e \<le> n" if "\<forall>e'. e < e' \<and> e' \<le> Suc n \<longrightarrow> (\<exists>b. ErasStartSessionIndex s e' = Some b \<and> i < b)"
        using spec [OF that, of "Suc n"] Some True by simp
      then show ?thesis using Some True by (subst search_eras.simps) (auto simp: le_Suc_eq)
    next
      case False
      then show ?thesis using Some Suc.IH by (subst search_eras.simps) (auto simp: le_Suc_eq)
    qed
  qed
qed

text \<open>
  The era found for a session contains the session: the range of sessions the same lookup reports for
  that era starts at or before it and ends after it, and the era is the only one up to the current era
  whose range contains it. Assumes that no era beyond the current one has a start and that the planned
  session has a successor.
\<close>

theorem era_for_session_in_range:
  assumes "CurrentEra s = Some c" "c < max_w 32" "\<forall>e > c. ErasStartSessionIndex s e = None"
    and "CurrentPlannedSession s < max_w 32" "era_for_session s i = Some e"
  shows "\<exists>a b. session_range_for_era s e = Some (a, b) \<and> a \<le> i \<and> i < b \<and>
    (\<forall>e' a' b'. e < e' \<longrightarrow> e' \<le> c \<longrightarrow> session_range_for_era s e' = Some (a', b') \<longrightarrow> i < a')"
proof -
  have i: "i \<le> CurrentPlannedSession s" and se: "search_eras s i c = Some e"
    using assms(1,5) by (auto simp: era_for_session_def split: if_splits)
  from se obtain a where a: "e \<le> c" "ErasStartSessionIndex s e = Some a" "a \<le> i"
    and later: "\<And>e'. e < e' \<Longrightarrow> e' \<le> c \<Longrightarrow> \<exists>b. ErasStartSessionIndex s e' = Some b \<and> i < b"
    by (auto simp: search_eras_Some)
  have e1: "sat_add 32 e 1 = e + 1" using a(1) assms(2) by (simp add: sat_add_def)
  have p1: "sat_add 32 (CurrentPlannedSession s) 1 = CurrentPlannedSession s + 1"
    using assms(4) by (simp add: sat_add_def)
  have "i < unwrap_or (CurrentPlannedSession s + 1) (ErasStartSessionIndex s (e + 1))"
  proof (cases "e < c")
    case True
    then show ?thesis using later [of "e + 1"] by auto
  next
    case False
    then show ?thesis using a(1) assms(3) i by simp
  qed
  moreover have "i < a'" if "e < e'" "e' \<le> c" "session_range_for_era s e' = Some (a', b')" for e' a' b'
    using later [OF that(1,2)] that(3) by (auto simp: session_range_for_era_def)
  moreover have "session_range_for_era s e =
      Some (a, unwrap_or (CurrentPlannedSession s + 1) (ErasStartSessionIndex s (e + 1)))"
    unfolding session_range_for_era_def e1 p1 a(2) by simp
  ultimately show ?thesis using a(3) by blast
qed

theorem era_for_session_in_range_witness:
  "\<exists>a b. session_range_for_era (demo_state\<lparr>CurrentEra := Some 1, CurrentPlannedSession := 13,
      ErasStartSessionIndex := [0 \<mapsto> 0, 1 \<mapsto> 6]\<rparr>) 0 = Some (a, b) \<and> a \<le> 5 \<and> 5 < b"
proof -
  let ?s = "demo_state\<lparr>CurrentEra := Some 1, CurrentPlannedSession := 13,
      ErasStartSessionIndex := [0 \<mapsto> 0, 1 \<mapsto> 6]\<rparr>"
  have "era_for_session ?s 5 = Some 0"
    by (simp add: era_for_session_def search_eras_Some)
  from era_for_session_in_range [OF _ _ _ _ this, of 1] show ?thesis
    by (auto simp: max_w_def)
qed

section \<open>Starting an era\<close>

text \<open>The part of the state that only the era hooks write.\<close>

definition era_part :: "'x staking \<Rightarrow> (era \<times> session) list \<times> active_era_info option \<times> era option
    \<times> (era \<rightharpoonup> session) \<times> (era \<rightharpoonup> unapplied_slash list)" where
  "era_part s = (BondedEras s, ActiveEra s, CurrentEra s, ErasStartSessionIndex s, UnappliedSlashes s)"

lemma era_part_basic [simp]:
  "era_part (st_world f s) = era_part s" "era_part (st_deposit e s) = era_part s"
  "era_part (update_active_stake E a s) = era_part s" "era_part (s\<lparr>st_rep := R\<rparr>) = era_part s"
  "era_part (s\<lparr>st_ext := x\<rparr>) = era_part s" "era_part (s\<lparr>st_slash := sl\<rparr>) = era_part s"
  "era_part (snd (do_remove_validator E a s)) = era_part s"
  "era_part (snd (do_remove_cooperator E a s)) = era_part s"
  "era_part (update_ledger E c l s) = era_part s" "era_part (adjust_cooperator_targets E c v s) = era_part s"
  by (auto simp: era_part_def st_world_def st_deposit_def update_active_stake_def do_remove_validator_def
      do_remove_cooperator_def update_ledger_def adjust_cooperator_targets_def Let_def split: option.splits)

lemma era_part_chill [simp]: "era_part (chill_stash E a s) = era_part s"
proof -
  obtain b t where v: "do_remove_validator E a s = (b, t)" by (cases "do_remove_validator E a s")
  obtain b' u where c: "do_remove_cooperator E a t = (b', u)" by (cases "do_remove_cooperator E a t")
  have "era_part t = era_part s" "era_part u = era_part t"
    using era_part_basic(7) [of E a s] era_part_basic(8) [of E a t] by (simp_all add: v c)
  then show ?thesis by (simp add: chill_stash_def v c)
qed

lemma era_part_check [simp]:
  "era_part (check_reputation_validator E a s) = era_part s"
  "era_part (try_check_reputation_collab E a s) = era_part s"
  "era_part (check_reputation_cooperator E v a s) = era_part s"
  by (simp_all add: check_reputation_validator_def try_check_reputation_collab_def
      check_reputation_cooperator_def)

lemma era_part_do_slash: "staking_do_slash E a v p i e s = (s', r) \<Longrightarrow> era_part s' = era_part s"
  by (auto simp: staking_do_slash_def ledger_slash_def Let_def
      split: option.splits prod.splits sum.splits if_splits)

lemma era_part_others: "apply_slash_others E v e cs p i s = (s', r) \<Longrightarrow> era_part s' = era_part s"
proof (induction cs arbitrary: p i s)
  case (Cons c cs)
  obtain a w where c: "c = (a, w)" by (cases c)
  obtain s1 r1 where d: "staking_do_slash E a w p i e s = (s1, r1)" by (cases "staking_do_slash E a w p i e s")
  show ?case
  proof (cases r1)
    case (Inl x)
    then show ?thesis using Cons.prems d era_part_do_slash [OF d] by (simp add: c)
  next
    case (Inr y)
    then show ?thesis using Cons d era_part_do_slash [OF d] by (auto simp: c split: prod.splits)
  qed
qed simp

lemma era_part_pay: "era_part (snd (pay_each E r k rs w s)) = era_part s"
  by (induction E r k rs w s rule: pay_each.induct) (simp_all add: Let_def)

lemma era_part_pay': "pay_each E r k rs w s = (v, s') \<Longrightarrow> era_part s' = era_part s"
  using era_part_pay [of E r k rs w s] by simp

lemma era_part_reporters: "era_part (pay_reporters E p i rs s) = era_part s"
  by (auto simp: pay_reporters_def Let_def split: prod.splits dest: era_part_pay')

lemma era_part_apply_slash: "apply_slash E u e s = (s', r) \<Longrightarrow> era_part s' = era_part s"
  by (auto simp: apply_slash_def Let_def era_part_reporters split: prod.splits sum.splits
      dest!: era_part_do_slash era_part_others)

lemma era_part_apply_slashes: "apply_slashes E e us s = (s', r) \<Longrightarrow> era_part s' = era_part s"
  by (induction us arbitrary: s) (auto split: prod.splits option.splits dest: era_part_apply_slash)

lemma era_part_prune: "prune_bonded E e b s = (b', s') \<Longrightarrow> era_part s' = era_part s"
  by (auto simp: prune_bonded_def Let_def split: if_splits list.splits)

lemma dropWhile_upt: "dropWhile (\<lambda>x. x < k) [a..<b] = [max a k..<b]"
proof (induction "b - a" arbitrary: a)
  case (Suc d)
  then have "[a..<b] = a # [Suc a..<b]" by (simp add: upt_conv_Cons)
  moreover have "dropWhile (\<lambda>x. x < k) [Suc a..<b] = [max (Suc a) k..<b]"
    by (rule Suc.hyps(1)) (use Suc.hyps(2) in simp)
  ultimately show ?case by (cases "a < k") (simp_all add: max_def le_Suc_eq)
qed simp

lemma prune_suffix: "prune_bonded E e b s = (b', s') \<Longrightarrow> \<exists>k. b' = drop k b"
  unfolding prune_bonded_def Let_def by (metis drop0 prod.inject)

text \<open>The eras the pallet remembers while \<open>active\<close> is active.\<close>

definition eras_window :: "nat \<Rightarrow> active_era_info option \<Rightarrow> era list" where
  "eras_window bonding_duration active =
     (case active of None \<Rightarrow> [] | Some i \<Rightarrow> [ae_index i - bonding_duration..<Suc (ae_index i)])"

lemma prune_window:
  assumes "map fst b = [n - 1 - c_bonding_duration E..<n] @ [n]" "prune_bonded E n b s = (b', s')"
  shows "map fst b' = [n - c_bonding_duration E..<Suc n]"
proof (cases "c_bonding_duration E < n")
  case True
  have b: "map fst b = [n - 1 - c_bonding_duration E..<Suc n]" using assms(1) by simp
  have "b' = dropWhile ((\<lambda>e. e < n - c_bonding_duration E) \<circ> fst) b"
    using assms(2) True by (auto simp: prune_bonded_def Let_def drop_takeWhile comp_def case_prod_unfold
        split: list.splits)
  then have "map fst b' = dropWhile (\<lambda>e. e < n - c_bonding_duration E) (map fst b)"
    by (simp add: dropWhile_map)
  then show ?thesis unfolding b dropWhile_upt by (simp add: max_def)
next
  case False
  then show ?thesis using assms by (simp add: prune_bonded_def)
qed

text \<open>
  Starting an era makes the next era active, takes the slashes due in it off the queue, whether or not
  applying them fails, and keeps the list of remembered eras exact: it is the active era and as many
  eras before it as the bonding duration, without gaps and in order, ending with the new era's first
  session.
\<close>

theorem start_era_window:
  assumes w: "map fst (BondedEras s) = eras_window (c_bonding_duration E) (ActiveEra s)"
    and n: "n = (case ActiveEra s of None \<Rightarrow> 0 | Some i \<Rightarrow> ae_index i + 1)" "n < 2 ^ 32"
    and r: "start_era E i s = (s', r)"
  shows "ActiveEra s' = Some \<lparr>ae_index = n, ae_start = None\<rparr> \<and>
    map fst (BondedEras s') = eras_window (c_bonding_duration E) (ActiveEra s') \<and>
    UnappliedSlashes s' = (UnappliedSlashes s)(n := None) \<and> last (BondedEras s') = (n, i)"
proof -
  have n': "(case ActiveEra s of Some i \<Rightarrow> add_w 32 (ae_index i) 1 | None \<Rightarrow> 0) = n"
    using n by (auto simp: add_w_eq split: option.splits)
  define s1 where "s1 = s\<lparr>ActiveEra := Some \<lparr>ae_index = n, ae_start = None\<rparr>\<rparr>"
  obtain b s2 where p: "prune_bonded E n (BondedEras s1 @ [(n, i)]) s1 = (b, s2)"
    by (cases "prune_bonded E n (BondedEras s1 @ [(n, i)]) s1")
  have s': "apply_unapplied_slashes E n (s2\<lparr>BondedEras := b\<rparr>) = (s', r)"
    using r unfolding start_era_def n' Let_def s1_def [symmetric] p by simp
  define s3 where "s3 = s2\<lparr>BondedEras := b, UnappliedSlashes := (UnappliedSlashes s2)(n := None)\<rparr>"
  have "era_part s' = era_part s3"
    using s' by (auto simp: apply_unapplied_slashes_def Let_def s3_def dest!: era_part_apply_slashes)
  moreover have "era_part s2 = era_part s1" by (rule era_part_prune [OF p])
  ultimately have f: "ActiveEra s' = Some \<lparr>ae_index = n, ae_start = None\<rparr>" "BondedEras s' = b"
    "UnappliedSlashes s' = (UnappliedSlashes s)(n := None)"
    by (simp_all add: era_part_def s3_def s1_def)
  have m: "map fst (BondedEras s1 @ [(n, i)]) = [n - 1 - c_bonding_duration E..<n] @ [n]"
    using w n(1) by (auto simp: s1_def eras_window_def split: option.splits)
  have b: "map fst b = [n - c_bonding_duration E..<Suc n]" by (rule prune_window [OF m p])
  obtain k where "b = drop k (BondedEras s1 @ [(n, i)])" using prune_suffix [OF p] by blast
  moreover have "b \<noteq> []" using b by auto
  ultimately have "last b = (n, i)" by (metis drop_eq_Nil last_drop last_snoc not_le)
  then show ?thesis using f b by (simp add: eras_window_def)
qed

theorem start_era_window_witness:
  "map fst (BondedEras (fst (start_era demo_env 6 (demo_state\<lparr>ActiveEra := Some \<lparr>ae_index = 0, ae_start = None\<rparr>,
      BondedEras := [(0, 0)]\<rparr>)))) = [0, 1]"
proof -
  let ?s = "demo_state\<lparr>ActiveEra := Some \<lparr>ae_index = 0, ae_start = None\<rparr>, BondedEras := [(0, 0)]\<rparr>"
  have "c_bonding_duration demo_env = 28" by (simp add: demo_env_def)
  moreover obtain s' r where "start_era demo_env 6 ?s = (s', r)" by (cases "start_era demo_env 6 ?s")
  ultimately show ?thesis
    using start_era_window [of ?s demo_env 1 6 s' r] by (simp add: eras_window_def)
qed

text \<open>
  When applying a due slash fails (its validator, or one of its cooperators, has no ledger any more),
  the slashes queued behind it for the same era are lost: the era's queue is emptied, the result does
  not depend on them, and \<open>start_session\<close> then neither disables the validators again nor tells the
  listeners of the new session.
\<close>

theorem slashes_behind_failure_lost:
  assumes q: "UnappliedSlashes s n = Some (u # us)"
    and f: "apply_slash E u (n - c_slash_defer_duration E)
        (s\<lparr>UnappliedSlashes := (UnappliedSlashes s)(n := None)\<rparr>) = (s1, Some e)"
  shows "apply_unapplied_slashes E n s = (s1, Some e) \<and> UnappliedSlashes s1 n = None"
proof -
  have "era_part s1 = era_part (s\<lparr>UnappliedSlashes := (UnappliedSlashes s)(n := None)\<rparr>)"
    by (rule era_part_apply_slash [OF f])
  then show ?thesis using q f by (simp add: apply_unapplied_slashes_def Let_def era_part_def)
qed

definition demo_slash :: "account \<Rightarrow> unapplied_slash" where
  "demo_slash v = \<lparr>us_validator = v, us_own = \<lparr>se_reputation = 0, se_stake = 40\<rparr>, us_others = [],
     us_reporters = [], us_payout = se_zero\<rparr>"

theorem slashes_behind_failure_lost_witness:
  "\<exists>s1 e. apply_unapplied_slashes demo_env 30
      (demo_state\<lparr>UnappliedSlashes := [30 \<mapsto> [demo_slash 99, demo_slash 11]]\<rparr>) = (s1, Some e) \<and>
    UnappliedSlashes s1 30 = None \<and> Ledger s1 10 = Some demo_ledger"
proof -
  let ?s = "demo_state\<lparr>UnappliedSlashes := [30 \<mapsto> [demo_slash 99, demo_slash 11]]\<rparr>"
  let ?t = "?s\<lparr>UnappliedSlashes := (UnappliedSlashes ?s)(30 := None)\<rparr>"
  have a: "apply_slash demo_env (demo_slash 99) (30 - c_slash_defer_duration demo_env) ?t =
      (st_world (x_drop_imbalance demo_env 0) ?t, Some (Module NotController))"
    by (simp add: apply_slash_def staking_do_slash_def demo_slash_def demo_state_def)
  have q: "UnappliedSlashes ?s 30 = Some [demo_slash 99, demo_slash 11]" by simp
  from slashes_behind_failure_lost [OF q a] show ?thesis
    by (auto simp: st_world_def demo_state_def)
qed

section \<open>Roles and bonds\<close>

lemma btree_insert_keys:
  "set (map fst (btree_insert k v m)) = insert k (set (map fst m))"
  "sorted_wrt (<) (map fst m) \<Longrightarrow> sorted_wrt (<) (map fst (btree_insert k v m))"
  "set (btree_insert k v m) \<subseteq> insert (k, v) (set m)"
proof (induction k v m rule: btree_insert.induct)
  case (2 k v k' v' xs)
  { case 1 then show ?case using 2 by auto }
  { case 2 then show ?case using "2.IH" by (auto dest: order.strict_trans) }
  { case 3 then show ?case using 2 by auto }
qed auto

lemma btree_insert_sum: "sum_list (map snd (btree_insert k v m)) \<le> v + sum_list (map snd m)"
  for v :: nat
  by (induction k v m rule: btree_insert.induct) auto

lemma btree_fold:
  fixes m :: "(account \<times> nat) list"
  assumes "sorted_wrt (<) (map fst m)"
  shows "sorted_wrt (<) (map fst (foldl (\<lambda>m (k, v). btree_insert k v m) m xs)) \<and>
    set (foldl (\<lambda>m (k, v). btree_insert k v m) m xs) \<subseteq> set m \<union> set xs \<and>
    fst ` set (foldl (\<lambda>m (k, v). btree_insert k v m) m xs) = fst ` set m \<union> fst ` set xs \<and>
    sum_list (map snd (foldl (\<lambda>m (k, v). btree_insert k v m) m xs)) \<le> sum_list (map snd m) + sum_list (map snd xs)"
  using assms
proof (induction xs arbitrary: m)
  case (Cons x xs)
  obtain k v where x: "x = (k, v)" by (cases x)
  have "sorted_wrt (<) (map fst (btree_insert k v m))" by (rule btree_insert_keys(2) [OF Cons.prems])
  from Cons.IH [OF this] show ?case
    using btree_insert_keys(1,3) [of k v m] btree_insert_sum [of k v m] by (simp add: x) fastforce
qed simp

lemma btree_of_list_props:
  fixes xs :: "(account \<times> nat) list"
  shows "sorted_wrt (<) (map fst (btree_of_list xs))" "set (btree_of_list xs) \<subseteq> set xs"
    "fst ` set (btree_of_list xs) = fst ` set xs"
    "sum_list (map snd (btree_of_list xs)) \<le> sum_list (map snd xs)"
  using btree_fold [of "[]" xs] by (simp_all add: btree_of_list_def)

lemma check_targets_stakes:
  "check_targets E s rep old ts = Inr cs \<Longrightarrow> map snd cs = map snd ts \<and>
     (\<forall>n \<in> fst ` set cs. is_legit_for_collab E s n \<and> \<not> rep_less rep (vp_min_coop_reputation (validators_of s n)) \<and>
        (n \<in> fst ` set old \<or> vp_collaborative (validators_of s n)))"
proof (induction ts arbitrary: cs)
  case (Cons t ts)
  obtain a v where t: "t = (a, v)" by (cases t)
  from Cons.prems obtain n r where "check_targets E s rep old ts = Inr r" "cs = (n, v) # r"
    "is_legit_for_collab E s n" "\<not> rep_less rep (vp_min_coop_reputation (validators_of s n))"
    "map_of old n \<noteq> None \<or> vp_collaborative (validators_of s n)"
    by (auto simp: t res_simps Let_def split: if_splits)
  with Cons.IH [of r] show ?case by (auto simp: t map_of_eq_None_iff)
qed simp

text \<open>C12.
  A successful \<open>cooperate\<close> leaves a cooperation whose targets are distinct, at most
  \<open>MaxCooperations\<close> many, each with a positive stake and legitimate for collaboration, and whose
  stakes add up to no more than the active bond; the stash validates no longer.
\<close>

theorem cooperate_sound:
  assumes "Ledger s c = Some l" "l_active l < max_w 128" "cooperate E (Signed c) ts s = Inr s'"
  shows "\<exists>co. Cooperators s' (l_stash l) = Some co \<and> co_targets co \<noteq> [] \<and>
    length (co_targets co) \<le> c_max_cooperations E \<and> sorted_wrt (<) (map fst (co_targets co)) \<and>
    (\<forall>(n, v) \<in> set (co_targets co). 0 < v \<and> is_legit_for_collab E s n) \<and>
    sum_list (map snd (co_targets co)) \<le> l_active l \<and> Validators s' (l_stash l) = None"
proof -
  let ?ts = "filter (\<lambda>(_, stake). 0 < stake) ts"
  let ?old = "case Cooperators s (l_stash l) of None \<Rightarrow> [] | Some c \<Rightarrow> co_targets c"
  obtain cs s2 where le: "sat_sum 128 (map snd ts) \<le> l_active l" and ne: "?ts \<noteq> []"
    and ch: "check_targets E s (reputation_of E s (l_stash l)) ?old ?ts = Inr cs"
    and len: "length (btree_of_list cs) \<le> c_max_cooperations E"
    and add: "do_add_cooperator (l_stash l) \<lparr>co_targets = btree_of_list cs,
        co_submitted_in = unwrap_or 0 (CurrentEra s), co_suppressed = False\<rparr>
      (snd (do_remove_validator E (l_stash l) s)) = Inr s2"
    and s': "Inr (st_deposit (EvCooperated c ?ts) (update_active_stake E (l_stash l) s2)) = (Inr s' :: 'a call)"
    using assms(1,3) unfolding cooperate_def Let_def rbind_Inr_iff ensure_Inr_iff ok_or_Inr_iff
      ensure_signed_simps sum.inject
    by (elim exE conjE) (rule that; simp)
  let ?ns = "btree_of_list cs"
  note cs = check_targets_stakes [OF ch] and b = btree_of_list_props [of cs]
  have "sum_list (map snd ?ts) \<le> sum_list (map snd ts)" by (induction ts) auto
  moreover have "sum_list (map snd ts) \<le> l_active l"
    using le assms(2) by (simp add: sat_sum_eq min_def split: if_splits)
  ultimately have "sum_list (map snd ?ns) \<le> l_active l" using b(4) cs by auto
  moreover have "cs \<noteq> []" using ne cs by (metis (no_types, lifting) map_is_Nil_conv)
  then have "?ns \<noteq> []" using b(3) by auto
  moreover have "\<forall>(n, v) \<in> set ?ns. 0 < v \<and> is_legit_for_collab E s n"
  proof
    fix p assume "p \<in> set ?ns"
    then have p: "p \<in> set cs" using b(2) by blast
    then have "snd p \<in> set (map snd ?ts)" using cs by (metis (no_types, lifting) image_eqI set_map)
    moreover have "is_legit_for_collab E s (fst p)" using cs p by blast
    ultimately show "case p of (n, v) \<Rightarrow> 0 < v \<and> is_legit_for_collab E s n" by (cases p) auto
  qed
  moreover have "Cooperators s' (l_stash l) = Some \<lparr>co_targets = ?ns,
      co_submitted_in = unwrap_or 0 (CurrentEra s), co_suppressed = False\<rparr>"
    and "Validators s' (l_stash l) = None"
    using s' add by (auto simp: do_add_cooperator_def res_simps)
  ultimately show ?thesis using len b(1) by simp
qed

definition demo_coop_state :: "(account \<Rightarrow> balance) staking" where
  "demo_coop_state = demo_state
     \<lparr>Validators := [20 \<mapsto> default_prefs\<lparr>vp_collaborative := True\<rparr>],
      st_rep := \<lparr>AccountReputation = [20 \<mapsto> \<lparr>rr_reputation = \<lparr>rep_tier = Some (Trailblazer 1), rep_points = 0\<rparr>,
         rr_updated = 0\<rparr>], rep_events = []\<rparr>\<rparr>"

theorem cooperate_sound_witness:
  "\<exists>s' co. cooperate demo_env (Signed 10) [(20, 60)] demo_coop_state = Inr s' \<and>
     Cooperators s' 11 = Some co \<and> sum_list (map snd (co_targets co)) \<le> 100"
proof -
  let ?s = demo_coop_state
  have l: "Ledger ?s 10 = Some demo_ledger" by (simp add: demo_coop_state_def demo_state_def)
  have v: "is_legit_for_collab demo_env ?s 20"
    by (simp add: is_legit_for_collab_def tier_at_least_def demo_env_def demo_coop_state_def)
  have p: "validators_of ?s 20 = default_prefs\<lparr>vp_collaborative := True\<rparr>"
    by (simp add: validators_of_def demo_coop_state_def)
  have r: "\<not> rep_less (reputation_of demo_env ?s 11) default_reputation"
    by (simp add: reputation_of_def demo_coop_state_def with_blocknumber_def rep_less_def default_reputation_def)
  have c: "check_targets demo_env ?s (reputation_of demo_env ?s 11) [] [(20, 60)] = Inr [(20, 60)]"
    using v p r by (simp add: default_prefs_def demo_env_def)
  have f: "MinCooperatorBond ?s = 1" "Cooperators ?s = Map.empty" "MaxCooperatorsCount ?s = None"
    "Validators ?s 11 = None" "Collaborations ?s = Map.empty" "CurrentEra ?s = None"
    "c_max_cooperations demo_env = 16"
    by (simp_all add: demo_coop_state_def demo_state_def genesis_storage_def demo_genesis_def demo_env_def)
  obtain s' where "cooperate demo_env (Signed 10) [(20, 60)] ?s = Inr s'"
    using l c f by (simp add: cooperate_def demo_ledger_def sat_sum_eq max_w_def below_max_def btree_of_list_def
        do_remove_validator_def do_add_cooperator_def Let_def del: check_targets.simps)
  then show ?thesis
    using cooperate_sound [OF l, of demo_env "[(20, 60)]" s'] by (auto simp: demo_ledger_def max_w_def)
qed

section \<open>Payouts\<close>

lemma pay_staker_part [simp]:
  "era_part (snd (pay_staker E a v acc)) = era_part (snd acc)"
  "ErasEnergyPerStakeCurrency (snd (pay_staker E a v acc)) = ErasEnergyPerStakeCurrency (snd acc)"
  by (auto simp: pay_staker_def make_payout_def Let_def era_part_def st_deposit_def split: prod.splits option.splits
      reward_destination.splits)

lemma foldl_pay_part:
  "era_part (snd (foldl (\<lambda>acc c. pay_staker E (f c) (g c) acc) acc xs)) = era_part (snd acc)"
  "ErasEnergyPerStakeCurrency (snd (foldl (\<lambda>acc c. pay_staker E (f c) (g c) acc) acc xs)) =
     ErasEnergyPerStakeCurrency (snd acc)"
  "Bonded (snd (foldl (\<lambda>acc c. pay_staker E (f c) (g c) acc) acc xs)) = Bonded (snd acc)"
  by (induction xs arbitrary: acc) simp_all

text \<open>What a payout leaves of the storage it reads.\<close>

lemma payout_frame:
  assumes "payout_checks E v e s = Inr (rate, c, l)" "do_payout_stakers E v e s = Inr s'"
  shows "era_part s' = era_part s" "ErasEnergyPerStakeCurrency s' = ErasEnergyPerStakeCurrency s"
    "Bonded s' = Bonded s" "Ledger s' = (Ledger s)(c \<mapsto> l)"
proof -
  define ex where "ex = unwrap_or exposure_default (ErasStakersClipped s (e, l_stash l))"
  define s1 where "s1 = st_deposit (EvPayoutStarted e (l_stash l)) (s\<lparr>Ledger := (Ledger s)(c \<mapsto> l)\<rparr>)"
  define parts where
    "parts = payout_parts E rate (vp_commission (unwrap_or default_prefs (ErasValidatorPrefs s (e, v)))) ex"
  define acc where "acc = foldl (\<lambda>acc c. pay_staker E (ie_who c)
      (exposure_share E ex (ie_value c) (snd (snd parts))) acc)
     (pay_staker E (l_stash l) (add_w 128 (exposure_share E ex (ex_own ex) (snd (snd parts)))
        (fst (snd parts))) (0, s1)) (ex_others ex)"
  have s': "s' = st_world (x_reward_unbalanced E (fst acc)) (snd acc)"
    using assms by (simp add: do_payout_stakers_def Let_def split_beta s1_def ex_def parts_def acc_def)
  have s1: "era_part s1 = era_part s" "ErasEnergyPerStakeCurrency s1 = ErasEnergyPerStakeCurrency s"
    "Bonded s1 = Bonded s" "Ledger s1 = (Ledger s)(c \<mapsto> l)"
    by (simp_all add: s1_def era_part_def st_deposit_def)
  show "era_part s' = era_part s" "Bonded s' = Bonded s" "Ledger s' = (Ledger s)(c \<mapsto> l)"
    by (simp_all add: s' acc_def foldl_pay_part s1)
  show "ErasEnergyPerStakeCurrency s' = ErasEnergyPerStakeCurrency s"
    by (simp add: s' acc_def foldl_pay_part s1 st_world_def)
qed

text \<open>C5.
  A validator's rewards for an era are paid at most once: after a successful payout in a consistent
  state the era is recorded in the ledger, and paying the same era again fails with
  \<open>AlreadyClaimed\<close>.
\<close>

theorem payout_only_once:
  assumes "stk_ok s" and r: "do_payout_stakers E v e s = Inr s'"
  shows "(\<exists>c l. Bonded s' v = Some c \<and> Ledger s' c = Some l \<and> e \<in> set (l_claimed l)) \<and>
    do_payout_stakers E v e s' = Inl (Module AlreadyClaimed)"
proof -
  obtain rate c l where ch: "payout_checks E v e s = Inr (rate, c, l)"
    using r by (auto simp: do_payout_stakers_def res_simps)
  note f = payout_frame [OF ch r]
  have p: "paired (Bonded s) (Ledger s)" by (rule stk_okD(1) [OF assms(1)])
  have srt: "sorted_wrt (<) (l_claimed l)" using payout_ledger_ok [OF p ch] by (simp add: led_ok_def)
  show ?thesis
  proof (rule payout_checks_Inr [OF ch])
    fix cur l0 pos
    assume a: "CurrentEra s = Some cur" "Bonded s v = Some c" "cur - c_history_depth E \<le> e" "e \<le> cur"
      "l = l0\<lparr>l_claimed := insert_at pos e (filter (\<lambda>x. cur - c_history_depth E \<le> x) (l_claimed l0))\<rparr>"
    have e: "e \<in> set (l_claimed l)" by (simp add: a(5))
    let ?cl = "filter (\<lambda>x. cur - c_history_depth E \<le> x) (l_claimed l)"
    have "e \<in> set ?cl" "sorted_wrt (<) ?cl" using e a(3) srt by (simp_all add: sorted_wrt_filter)
    then obtain i where i: "binary_search ?cl e = Found i"
      using binary_search_Missing(1) [of ?cl e] by (cases "binary_search ?cl e") auto
    have rate: "e \<noteq> unwrap_or 0 (map_option ae_index (ActiveEra s))" "\<exists>q. ErasEnergyPerStakeCurrency s e = Some q"
      using ch by (auto simp: payout_checks_def res_simps Let_def)
    have s': "CurrentEra s' = Some cur" "ActiveEra s' = ActiveEra s" "Bonded s' v = Some c" "Ledger s' c = Some l"
      "ErasEnergyPerStakeCurrency s' = ErasEnergyPerStakeCurrency s"
      using f a(1,2) by (simp_all add: era_part_def)
    have "payout_checks E v e s' = Inl (Module AlreadyClaimed)"
      using rate a(3,4) i by (auto simp: payout_checks_def Let_def s')
    then show ?thesis using s' e by (simp add: do_payout_stakers_def)
  qed
qed

lemma demo_state_ok: "stk_ok demo_state"
  using stk_reachable_ok [OF reach_genesis [OF demo_genesis_state] demo_env_ok] .

definition demo_paid_state :: "(account \<Rightarrow> balance) staking" where
  "demo_paid_state = demo_state\<lparr>CurrentEra := Some 1, ActiveEra := Some \<lparr>ae_index = 1, ae_start = None\<rparr>,
     ErasEnergyPerStakeCurrency := [0 \<mapsto> 1000000000000000000]\<rparr>"

theorem payout_only_once_witness:
  "\<exists>s'. do_payout_stakers demo_env 11 0 demo_paid_state = Inr s' \<and>
     do_payout_stakers demo_env 11 0 s' = Inl (Module AlreadyClaimed)"
proof -
  have "stk_ok demo_paid_state = stk_ok demo_state"
    by (rule stk_ok_cong) (simp_all add: demo_paid_state_def)
  then have ok: "stk_ok demo_paid_state" using demo_state_ok by simp
  have "payout_checks demo_env 11 0 demo_paid_state =
      Inr (1000000000000000000, 10, demo_ledger\<lparr>l_claimed := [0]\<rparr>)"
    by (simp add: payout_checks_def demo_paid_state_def demo_state_def demo_env_def demo_ledger_def
        binary_search_def insert_at_def)
  then obtain s' where "do_payout_stakers demo_env 11 0 demo_paid_state = Inr s'"
    by (simp add: do_payout_stakers_def Let_def split_beta)
  then show ?thesis using payout_only_once [OF ok] by blast
qed

section \<open>Unbonding and chilling\<close>

text \<open>C6.
  A successful \<open>unbond\<close> in a consistent state, with room for a chunk, taxes exactly what leaves the active
  balance, at the stash's own percentage: the requested value (at most the active balance), and the
  rest too when it would be below the minimum balance. The total falls by that tax alone and the tax
  is slashed off the stash's currency; what leaves less the tax is unlocking, and is what the event
  names; what stays active is nothing or at least the minimum balance, and at least the minimum bond
  of the stash's role.
\<close>

theorem unbond_conserves:
  assumes "env_ok E" "stk_ok s" "Ledger s c = Some l"
    and "length (l_unlocking l) < c_max_unlocking_chunks E" "0 < v" "0 < l_active l"
    and r: "unbond E (Signed c) v s = Inr s'"
  shows "let stash = l_stash l; taken = min v (l_active l); rest = l_active l - taken;
      dust = (if rest < x_minimum_balance E then rest else 0);
      percent = x_tax_percent E (st_ext s) stash;
      tax = pt_mul (c_perbill E) percent taken + pt_mul (c_perbill E) percent dust
    in \<exists>l'. Ledger s' c = Some l' \<and> l_stash l' = stash \<and>
      l_total l' + tax = l_total l \<and> l_active l' + dust = rest \<and>
      chunk_sum (l_unlocking l') + tax = chunk_sum (l_unlocking l) + (taken + dust) \<and>
      (l_active l' = 0 \<or> x_minimum_balance E \<le> l_active l') \<and> min_active_bond E s stash \<le> l_active l' \<and>
      s' = st_deposit (EvUnbonded stash (taken + dust - tax))
        (adjust_cooperator_targets E stash (l_active l') (update_ledger E c l'
          (s\<lparr>st_ext := (if tax = 0 then st_ext s else case x_slash E stash tax (st_ext s) of
             (ext, imbalance, _) \<Rightarrow> x_slash_unbalanced E imbalance ext)\<rparr>)))"
proof -
  have lo: "led_ok l" using paired_ledger [OF stk_okD(1) [OF assms(2)] assms(3)] by simp
  have u: "unbond_value E c l (min v (l_active l)) s = Inr s'"
    using r assms(3-6) by (simp add: unbond_def Let_def min_def split: if_splits)
  define P where "P = pt_mul (c_perbill E) (x_tax_percent E (st_ext s) (l_stash l))"
  define rest where "rest = l_active l - min v (l_active l)"
  have "P 0 \<le> 0"
    unfolding P_def by (rule perthing_okD(6) [OF env_okD(1,4) [OF assms(1)]])
  then have P0: "P 0 = 0" by simp
  show ?thesis
  proof (rule unbond_value_spec [OF assms(1) lo _ u], simp)
    fix l' tax s1
    assume l': "led_ok l'" "l_stash l' = l_stash l" "l_total l' + tax = l_total l"
      "l_active l' = 0 \<or> l_active l' = l_active l - min v (l_active l) \<and> x_minimum_balance E \<le> l_active l'"
      "min_active_bond E s (l_stash l) \<le> l_active l'"
      and a: "l_active l' = (if l_active l - min v (l_active l) < x_minimum_balance E then 0
        else l_active l - min v (l_active l))"
      and tax: "tax = pt_mul (c_perbill E) (x_tax_percent E (st_ext s) (l_stash l)) (min v (l_active l)) +
        (if l_active l - min v (l_active l) < x_minimum_balance E
         then pt_mul (c_perbill E) (x_tax_percent E (st_ext s) (l_stash l)) (l_active l - min v (l_active l))
         else 0)"
      and s1: "s1 = s\<lparr>st_ext := (if tax = 0 then st_ext s else case x_slash E (l_stash l) tax (st_ext s) of
        (ext, imbalance, _) \<Rightarrow> x_slash_unbalanced E imbalance ext)\<rparr>"
      and s': "s' = st_deposit (EvUnbonded (l_stash l') (l_active l - l_active l' - tax))
        (adjust_cooperator_targets E (l_stash l') (l_active l') (update_ledger E c l' s1))"
    define dust where "dust = (if rest < x_minimum_balance E then rest else 0)"
    have act: "l_active l' + dust = rest" using a by (simp add: dust_def rest_def)
    moreover have "chunk_sum (l_unlocking l') + tax = chunk_sum (l_unlocking l) + (min v (l_active l) + dust)"
    proof -
      have "l_total l' = l_active l' + chunk_sum (l_unlocking l')" "l_total l = l_active l + chunk_sum (l_unlocking l)"
        using l'(1) lo by (auto simp: led_ok_def ledger_ok_def)
      moreover have "rest + min v (l_active l) = l_active l" by (simp add: rest_def)
      ultimately show ?thesis using l'(3) act by linarith
    qed
    moreover have "l_active l' = 0 \<or> x_minimum_balance E \<le> l_active l'" using l'(4) by auto
    moreover have out: "l_active l - l_active l' = min v (l_active l) + dust"
      using act by (simp add: rest_def)
    moreover have t: "tax = P (min v (l_active l)) + P dust"
      using tax by (simp add: P_def [symmetric] rest_def [symmetric] dust_def P0)
    moreover have "Ledger s' c = Some l'" by (simp add: s')
    ultimately show ?thesis
      using l'(2,3,5) s' s1 unfolding Let_def rest_def [symmetric] P_def [symmetric] dust_def [symmetric] t [symmetric]
      by (intro exI [of _ l']) simp
  qed
qed

theorem unbond_conserves_witness:
  "let E = demo_env\<lparr>x_tax_percent := \<lambda>_ _. 100000000\<rparr>
   in case unbond E (Signed 10) 30 demo_state of Inl e \<Rightarrow> False | Inr s' \<Rightarrow>
     \<exists>l'. Ledger s' 10 = Some l' \<and> l_active l' = 70 \<and> l_total l' = 97 \<and>
       chunk_sum (l_unlocking l') = 27 \<and> st_ext s' 11 = 997"
proof -
  define E where "E = demo_env\<lparr>x_tax_percent := \<lambda>_ _. 100000000\<rparr>"
  have E: "env_ok E" by (simp add: E_def env_ok_def demo_env_def perthing_ref_ok)
  have l: "Ledger demo_state 10 = Some demo_ledger" by (simp add: demo_state_def)
  have e: "x_tax_percent E = (\<lambda>_ _. 100000000)" "c_perbill E = perthing_ref perbill_one"
    "x_minimum_balance E = 1" "c_max_unlocking_chunks E = 32" "x_slash_unbalanced E = (\<lambda>_ x. x)"
    "x_slash E = (\<lambda>a v x. (x(a := x a - v), min v (x a), v - x a))" "x_set_lock E = (\<lambda>_ _ x. x)"
    "x_update_active_stake E = (\<lambda>_ _ x. x)"
    by (simp_all add: E_def demo_env_def)
  have d: "st_ext demo_state 11 = 1000" "Cooperators demo_state = Map.empty"
    by (simp_all add: demo_state_def genesis_storage_def)
  have m: "min_active_bond E demo_state 11 = 0"
    by (simp add: min_active_bond_def demo_state_def genesis_storage_def)
  obtain s' where r: "unbond E (Signed 10) 30 demo_state = Inr s'"
    using l m by (simp add: unbond_def demo_ledger_def unbond_value_def Let_def e sub_w_def push_chunk_def)
  have b: "0 < (30 :: nat)" "0 < l_active demo_ledger" "length (l_unlocking demo_ledger) < c_max_unlocking_chunks E"
    by (simp_all add: demo_ledger_def e)
  show ?thesis
    using unbond_conserves [OF E demo_state_ok l b(3,1,2) r]
    unfolding E_def [symmetric] Let_def r sum.case
    by (elim exE) (auto simp: demo_ledger_def e perthing_ref_def update_ledger_def
        update_active_stake_def st_world_def st_deposit_def adjust_cooperator_targets_def d)
qed

lemma remove_targets_fold:
  "foldl (\<lambda>m c. case m c of None \<Rightarrow> m | Some co \<Rightarrow> m(c \<mapsto> remove_target who co)) m cs a =
     (if a \<in> set cs then map_option (remove_target who) (m a) else m a)"
proof (induction cs arbitrary: m)
  case (Cons c cs)
  have "remove_target who (remove_target who co) = remove_target who co" for co
    by (simp add: remove_target_def)
  then show ?case by (auto simp: Cons.IH option.map_comp comp_def split: option.splits)
qed simp

text \<open>
  After \<open>chill\<close> the stash neither validates nor cooperates, no account recorded as its collaborator
  still has it among its targets, and every other account keeps its role.
\<close>

theorem chill_clears_roles:
  assumes "Ledger s c = Some l" "chill E (Signed c) s = Inr s'"
  shows "Validators s' (l_stash l) = None \<and> Cooperators s' (l_stash l) = None \<and>
    (\<forall>cs a co. Collaborations s (l_stash l) = Some cs \<longrightarrow> a \<in> set cs \<longrightarrow> Cooperators s' a = Some co \<longrightarrow>
       l_stash l \<notin> fst ` set (co_targets co)) \<and>
    (\<forall>a. a \<noteq> l_stash l \<longrightarrow> Validators s' a = Validators s a \<and>
       (Cooperators s' a = None \<longleftrightarrow> Cooperators s a = None))"
proof -
  define t where "t = do_remove_validator_from_cooperators_target (l_stash l) s"
  have s': "s' = chill_stash E (l_stash l) t" using assms by (simp add: chill_def chill_both_def t_def)
  have v: "Validators t = Validators s"
    by (simp add: t_def do_remove_validator_from_cooperators_target_def split: option.splits)
  have n: "Cooperators t = Cooperators s" if "Collaborations s (l_stash l) = None"
    using that by (simp add: t_def do_remove_validator_from_cooperators_target_def)
  have c: "Cooperators t a = (if a \<in> set cs then map_option (remove_target (l_stash l)) (Cooperators s a)
      else Cooperators s a)" if "Collaborations s (l_stash l) = Some cs" for a cs
    using that by (simp add: t_def do_remove_validator_from_cooperators_target_def remove_targets_fold)
  have "Cooperators t a = None \<longleftrightarrow> Cooperators s a = None" for a
    by (cases "Collaborations s (l_stash l)") (simp_all add: n c)
  moreover have "l_stash l \<notin> fst ` set (co_targets (remove_target (l_stash l) co))" for co
    by (auto simp: remove_target_def)
  ultimately show ?thesis by (auto simp: s' v c)
qed

theorem chill_clears_roles_witness:
  "Validators (projr (chill demo_env (Signed 10) (demo_state\<lparr>Validators := [11 \<mapsto> default_prefs]\<rparr>))) 11 = None"
proof -
  let ?s = "demo_state\<lparr>Validators := [11 \<mapsto> default_prefs]\<rparr>"
  have l: "Ledger ?s 10 = Some demo_ledger" by (simp add: demo_state_def)
  then obtain s' where "chill demo_env (Signed 10) ?s = Inr s'" by (simp add: chill_def)
  then show ?thesis using chill_clears_roles [OF l] by (simp add: demo_ledger_def)
qed

section \<open>Getting the funds back\<close>

text \<open>The slashing spans fit the number a caller passes along.\<close>

definition spans_fit :: "account \<Rightarrow> nat \<Rightarrow> 'x staking \<Rightarrow> bool" where
  "spans_fit stash n s =
     (case SlashingSpans (st_slash s) stash of None \<Rightarrow> True | Some spans \<Rightarrow> length (spans_iter spans) \<le> n)"

lemma kill_stash_succeeds:
  assumes "Bonded s stash = Some c" "spans_fit stash n s"
  shows "\<exists>s'. kill_stash E stash n s = Inr s' \<and> Ledger s' c = None \<and> Bonded s' stash = None"
proof -
  obtain sl where "clear_stash_metadata stash n (st_slash s) = Some sl"
    using assms(2) by (auto simp: spans_fit_def clear_stash_metadata_def split: option.splits)
  then obtain s' where k: "kill_stash E stash n s = Inr s'" using assms(1) by (simp add: kill_stash_def Let_def)
  have "Ledger s' c = None \<and> Bonded s' stash = None"
    by (rule kill_stash_Inr [OF k]) (use assms(1) in auto)
  with k show ?thesis by blast
qed

lemma consolidate_all_due:
  assumes "ledger_ok l" "\<forall>ch\<in>set (l_unlocking l). uc_era ch \<le> now"
  shows "consolidate_unlocked now l = l\<lparr>l_total := l_active l, l_unlocking := []\<rparr>"
proof -
  have "filter (\<lambda>ch. now < uc_era ch) (l_unlocking l) = []" "filter (\<lambda>ch. \<not> now < uc_era ch) (l_unlocking l) = l_unlocking l"
    using assms(2) by (auto simp: filter_empty_conv not_less intro: filter_True)
  then show ?thesis
    using assms(1) by (simp add: consolidate_unlocked_def consolidate_chunks_eq ledger_ok_def)
qed

text \<open>C7.
  Unbonded funds come back: in a consistent state, once every unlocking chunk of a ledger is due,
  \<open>withdraw_unbonded\<close> by the controller succeeds, if it is given room for the stash's slashing spans; then
  nothing is unlocking and only the active balance is locked, or, when that is below the minimum
  balance, the stash and its ledger are gone.
\<close>

theorem due_funds_withdrawable:
  assumes ok: "stk_ok s" and l: "Ledger s c = Some l" and era: "CurrentEra s = Some now"
    and due: "\<forall>ch\<in>set (l_unlocking l). uc_era ch \<le> now" and n: "spans_fit (l_stash l) n s"
  shows "\<exists>s'. withdraw_unbonded E (Signed c) n s = Inr s' \<and>
    (if l_active l < x_minimum_balance E then Ledger s' c = None \<and> Bonded s' (l_stash l) = None
     else Ledger s' c = Some (l\<lparr>l_total := l_active l, l_unlocking := []\<rparr>))"
proof -
  have p: "Bonded s (l_stash l) = Some c" "ledger_ok l"
    using paired_ledger [OF stk_okD(1) [OF ok] l] by (auto simp: led_ok_def)
  note cons = consolidate_all_due [OF p(2) due]
  show ?thesis
  proof (cases "l_active l < x_minimum_balance E")
    case True
    obtain s1 where "kill_stash E (l_stash l) n s = Inr s1" "Ledger s1 c = None" "Bonded s1 (l_stash l) = None"
      using kill_stash_succeeds [OF p(1) n] by blast
    then show ?thesis
      using True by (simp add: withdraw_unbonded_def do_withdraw_unbonded_def Let_def l era cons)
  next
    case False
    then show ?thesis
      by (simp add: withdraw_unbonded_def do_withdraw_unbonded_def Let_def l era cons update_ledger_def update_active_stake_def)
  qed
qed

definition demo_unbonding_ledger :: ledger where
  "demo_unbonding_ledger = demo_ledger\<lparr>l_active := 60, l_unlocking := [\<lparr>uc_value = 40, uc_era = 3\<rparr>]\<rparr>"

theorem due_funds_withdrawable_witness:
  "\<exists>s'. withdraw_unbonded demo_env (Signed 10) 0 (demo_state\<lparr>Ledger := [10 \<mapsto> demo_unbonding_ledger], CurrentEra := Some 4\<rparr>) = Inr s' \<and>
     Ledger s' 10 = Some (demo_ledger\<lparr>l_total := 60, l_active := 60\<rparr>)"
proof -
  let ?s = "demo_state\<lparr>Ledger := [10 \<mapsto> demo_unbonding_ledger], CurrentEra := Some 4\<rparr>"
  have "stk_ok ?s"
    using demo_state_ok
    by (simp add: stk_ok_def paired_def demo_state_def demo_unbonding_ledger_def demo_ledger_def led_ok_def ledger_ok_def max_w_def)
  moreover have "spans_fit 11 0 ?s" by (simp add: spans_fit_def demo_state_def genesis_storage_def empty_slash_def)
  moreover have "x_minimum_balance demo_env = 1" by (simp add: demo_env_def)
  ultimately show ?thesis
    using due_funds_withdrawable [of ?s 10 demo_unbonding_ledger 4 0 demo_env]
    by (simp add: demo_unbonding_ledger_def demo_ledger_def)
qed

end
