(* ===== verification/TryState.thy ===== *)
theory TryState
  imports StakingProps
begin

text \<open>
  The checks the staking pallet makes of itself (\<open>integrity_test\<close> of \<open>pallet/mod.rs\<close> and \<open>do_try_state\<close> of
  \<open>pallet/impls.rs\<close>), and the second invariant they need: the collaborators of a validator are a sorted
  list, and every stored exposure names each of them once and adds up. A failing check is \<open>Inl\<close>, a panic
  \<open>None\<close>.
\<close>

section \<open>The checks\<close>

definition integrity_test :: "'x staking_env \<Rightarrow> bool" where
  "integrity_test E \<longleftrightarrow> c_max_cooperations E \<noteq> 0 \<and>
     (c_slash_defer_duration E < c_bonding_duration E \<or> c_bonding_duration E = 0)"

fun try_for_each :: "('a \<Rightarrow> string + unit) \<Rightarrow> 'a list \<Rightarrow> string + unit" where
  "try_for_each f [] = Inr ()"
| "try_for_each f (x # xs) = rbind (f x) (\<lambda>_. try_for_each f xs)"

definition ensure_is_stash :: "'x staking \<Rightarrow> account \<Rightarrow> string + unit" where
  "ensure_is_stash s who = ensure (Bonded s who \<noteq> None) ''Not a stash.''"

definition ensure_ledger_consistent :: "'x staking \<Rightarrow> account \<Rightarrow> string + unit" where
  "ensure_ledger_consistent s ctrl =
     rbind (ok_or ''Not a controller.'' (Ledger s ctrl)) (\<lambda>l.
       let real_total = foldl (\<lambda>a c. add_w 128 a (uc_value c)) (l_active l) (l_unlocking l)
       in ensure (real_total = l_total l) ''ledger.total corrupt'')"

definition check_ledgers :: "'x staking_env \<Rightarrow> 'x staking \<Rightarrow> string + unit" where
  "check_ledgers E s = try_for_each (\<lambda>stash. case Bonded s stash of
     None \<Rightarrow> Inr () | Some ctrl \<Rightarrow> ensure_ledger_consistent s ctrl) (x_iter E (dom (Bonded s)))"

definition check_exposure :: "exposure \<Rightarrow> string + unit" where
  "check_exposure expo = ensure (ex_total expo =
     add_w 128 (ex_own expo) (foldl (\<lambda>acc e. add_w 128 acc (ie_value e)) 0 (ex_others expo))) ''wrong total exposure.''"

definition check_exposures :: "'x staking_env \<Rightarrow> 'x staking \<Rightarrow> (string + unit) option" where
  "check_exposures E s = map_option (\<lambda>active.
     let era = ae_index active
     in try_for_each (\<lambda>v. case ErasStakers s (era, v) of None \<Rightarrow> Inr () | Some expo \<Rightarrow> check_exposure expo)
          (x_iter E {v. ErasStakers s (era, v) \<noteq> None})) (ActiveEra s)"

definition check_backed_once :: "account \<Rightarrow> exposure \<Rightarrow> string + unit" where
  "check_backed_once cooperator e =
     ensure (length (filter (\<lambda>i. ie_who i = cooperator) (ex_others e)) \<le> 1)
       ''cooperator cannot back a validator more than once.''"

definition check_cooperators :: "'x staking_env \<Rightarrow> 'x staking \<Rightarrow> (string + unit) option" where
  "check_cooperators E s = map_option (\<lambda>active.
     let era = ae_index active;
         submitted = filter (\<lambda>c. case Cooperators s c of None \<Rightarrow> False | Some co \<Rightarrow> co_submitted_in co < era)
                       (x_iter E (dom (Cooperators s)))
     in try_for_each (\<lambda>cooperator.
          rbind (ensure_is_stash s cooperator) (\<lambda>_.
            try_for_each (\<lambda>v. check_backed_once cooperator (unwrap_or exposure_default (ErasStakers s (era, v))))
              (x_validators E (st_ext s)))) submitted) (ActiveEra s)"

definition do_try_state :: "'x staking_env \<Rightarrow> 'x staking \<Rightarrow> (string + unit) option" where
  "do_try_state E s =
     (case check_cooperators E s of
        None \<Rightarrow> None
      | Some (Inl e) \<Rightarrow> Some (Inl e)
      | Some (Inr _) \<Rightarrow>
          (case check_exposures E s of
             None \<Rightarrow> None
           | Some (Inl e) \<Rightarrow> Some (Inl e)
           | Some (Inr _) \<Rightarrow> Some (check_ledgers E s)))"

lemma try_for_each_ok: "(\<And>x. x \<in> set xs \<Longrightarrow> f x = Inr ()) \<Longrightarrow> try_for_each f xs = Inr ()"
  by (induction xs) simp_all

section \<open>Exposures that add up\<close>

definition exposure_sound :: "exposure \<Rightarrow> bool" where
  "exposure_sound ex \<longleftrightarrow> distinct (map ie_who (ex_others ex)) \<and>
     ex_total ex = sat_add 128 (ex_own ex) (sat_sum 128 (map ie_value (ex_others ex)))"

definition collab_ok :: "(account \<rightharpoonup> account list) \<Rightarrow> bool" where
  "collab_ok m \<longleftrightarrow> (\<forall>a cs. m a = Some cs \<longrightarrow> sorted_wrt (<) cs)"

definition exposures_ok :: "'x staking \<Rightarrow> bool" where
  "exposures_ok s \<longleftrightarrow> collab_ok (Collaborations s) \<and> (\<forall>k ex. ErasStakers s k = Some ex \<longrightarrow> exposure_sound ex)"

lemma exposures_ok_cong:
  "Collaborations s = Collaborations t \<Longrightarrow> ErasStakers s = ErasStakers t \<Longrightarrow> exposures_ok s = exposures_ok t"
  by (simp add: exposures_ok_def)

lemma stakers_frame [simp]:
  "ErasStakers (st_world f s) = ErasStakers s" "ErasStakers (st_deposit e s) = ErasStakers s"
  "ErasStakers (update_active_stake E a s) = ErasStakers s"
  by (simp_all add: st_world_def st_deposit_def update_active_stake_def)

lemma update_ledger_exposures [simp]:
  "Collaborations (update_ledger E c l s) = Collaborations s" "ErasStakers (update_ledger E c l s) = ErasStakers s"
  by (simp_all add: update_ledger_def Let_def)

lemma adjust_exposures [simp]:
  "Collaborations (adjust_cooperator_targets E a v s) = Collaborations s"
  "ErasStakers (adjust_cooperator_targets E a v s) = ErasStakers s"
  by (simp_all add: adjust_cooperator_targets_def Let_def split: option.splits)

lemma collab_ok_upd:
  "collab_ok m \<Longrightarrow> collab_ok (m(a := None))"
  "collab_ok m \<Longrightarrow> sorted_wrt (<) cs \<Longrightarrow> collab_ok (m(a \<mapsto> cs))"
  by (simp_all add: collab_ok_def)

lemma collab_ok_drop: "collab_ok m \<Longrightarrow> collab_ok (drop_collaborator who target m)"
  by (auto simp: drop_collaborator_def collab_ok_def removeAll_filter_not_eq sorted_wrt_filter split: option.splits)

lemma collab_ok_drops: "collab_ok m \<Longrightarrow> collab_ok (foldl (\<lambda>m (target, _). drop_collaborator who target m) m ts)"
  by (induction ts arbitrary: m) (auto simp: collab_ok_drop)

lemma btree_try_insert_sorted:
  assumes "sorted_wrt (<) xs" and "btree_try_insert k xs = Some ys"
  shows "sorted_wrt (<) ys"
  using assms binary_search_Missing(2) [OF _ assms(1)]
  by (auto simp: btree_try_insert_def split: search.splits if_splits)

lemma add_collaborations_ok:
  "collab_ok m \<Longrightarrow> add_collaborations who ts m = Inr m' \<Longrightarrow> collab_ok m'"
proof (induction who ts m rule: add_collaborations.induct)
  case (2 who target v ts m)
  show ?case
  proof (cases "m target")
    case None
    then have "add_collaborations who ts (m(target \<mapsto> [who])) = Inr m'" using "2.prems"(2) by simp
    moreover have "collab_ok (m(target \<mapsto> [who]))" by (rule collab_ok_upd(2) [OF "2.prems"(1)]) simp
    ultimately show ?thesis using "2.IH"(1) [OF None] by blast
  next
    case (Some cs)
    then obtain cs' where cs: "btree_try_insert who cs = Some cs'" "add_collaborations who ts (m(target \<mapsto> cs')) = Inr m'"
      using "2.prems"(2) by (auto simp: res_simps)
    have "sorted_wrt (<) cs" using "2.prems"(1) Some by (simp add: collab_ok_def)
    then have "collab_ok (m(target \<mapsto> cs'))"
      using btree_try_insert_sorted [OF _ cs(1)] "2.prems"(1) by (intro collab_ok_upd)
    then show ?thesis using "2.IH"(2) [OF Some] cs(2) by blast
  qed
qed simp

section \<open>Every operation keeps them\<close>

lemma exposures_storage [simp]:
  "exposures_ok (st_world f s) = exposures_ok s" "exposures_ok (st_deposit e s) = exposures_ok s"
  "exposures_ok (update_active_stake E a s) = exposures_ok s" "exposures_ok (update_ledger E c l s) = exposures_ok s"
  "exposures_ok (adjust_cooperator_targets E a v s) = exposures_ok s"
  "exposures_ok (s\<lparr>st_ext := x\<rparr>) = exposures_ok s" "exposures_ok (s\<lparr>st_rep := R\<rparr>) = exposures_ok s"
  "exposures_ok (s\<lparr>st_slash := sl\<rparr>) = exposures_ok s" "exposures_ok (s\<lparr>Ledger := L\<rparr>) = exposures_ok s"
  "exposures_ok (s\<lparr>Bonded := B\<rparr>) = exposures_ok s" "exposures_ok (s\<lparr>Payee := p\<rparr>) = exposures_ok s"
  "exposures_ok (s\<lparr>Validators := V\<rparr>) = exposures_ok s" "exposures_ok (s\<lparr>Cooperators := C\<rparr>) = exposures_ok s"
  "exposures_ok (s\<lparr>UnappliedSlashes := u\<rparr>) = exposures_ok s" "exposures_ok (s\<lparr>ActiveEra := i\<rparr>) = exposures_ok s"
  "exposures_ok (s\<lparr>CurrentEra := ce\<rparr>) = exposures_ok s" "exposures_ok (s\<lparr>BondedEras := b\<rparr>) = exposures_ok s"
  "exposures_ok (s\<lparr>CurrentPlannedSession := j\<rparr>) = exposures_ok s" "exposures_ok (s\<lparr>ForceEra := m\<rparr>) = exposures_ok s"
  "exposures_ok (s\<lparr>ErasStartSessionIndex := z\<rparr>) = exposures_ok s" "exposures_ok (s\<lparr>ErasTotalStake := t\<rparr>) = exposures_ok s"
  "exposures_ok (s\<lparr>ErasEnergyPerStakeCurrency := r\<rparr>) = exposures_ok s"
  by (rule exposures_ok_cong; simp)+

lemma remove_roles_exposures:
  assumes "exposures_ok s"
  shows "exposures_ok (snd (do_remove_validator E a s))" "exposures_ok (snd (do_remove_cooperator E a s))"
  using assms
  by (auto simp: do_remove_validator_def do_remove_cooperator_def exposures_ok_def collab_ok_upd collab_ok_drops
      Let_def split: option.splits)

lemma chill_exposures: "exposures_ok s \<Longrightarrow> exposures_ok (chill_stash E a s)"
  using remove_roles_exposures(2) [OF remove_roles_exposures(1), of s]
  by (auto simp: chill_stash_def split_beta Let_def)

lemma remove_targets_exposures [simp]:
  "exposures_ok (do_remove_validator_from_cooperators_target a s) = exposures_ok s"
  by (simp add: do_remove_validator_from_cooperators_target_def split: option.splits)

lemma chill_both_exposures: "exposures_ok s \<Longrightarrow> exposures_ok (chill_both E a s)"
  by (simp add: chill_both_def chill_exposures)

lemma add_cooperator_exposures:
  "exposures_ok s \<Longrightarrow> do_add_cooperator a co s = Inr s' \<Longrightarrow> exposures_ok s'"
  by (auto simp: do_add_cooperator_def res_simps exposures_ok_def dest: add_collaborations_ok)

lemma check_reputation_exposures:
  "exposures_ok s \<Longrightarrow> exposures_ok (check_reputation_validator E a s)"
  "exposures_ok s \<Longrightarrow> exposures_ok (try_check_reputation_collab E a s)"
  "exposures_ok s \<Longrightarrow> exposures_ok (check_reputation_cooperator E v a s)"
  by (simp_all add: check_reputation_validator_def try_check_reputation_collab_def check_reputation_cooperator_def
      chill_exposures)

lemma ledger_slash_exposures:
  "ledger_slash E amount e l s = (l', v, s') \<Longrightarrow> exposures_ok s' = exposures_ok s"
  by (auto simp: ledger_slash_def Let_def split: prod.splits if_splits)

lemma kill_stash_exposures:
  "exposures_ok s \<Longrightarrow> kill_stash E st n s = Inr s' \<Longrightarrow> exposures_ok s'"
  by (auto simp: kill_stash_def res_simps Let_def intro!: remove_roles_exposures)

lemma withdraw_exposures:
  "exposures_ok s \<Longrightarrow> do_withdraw_unbonded E c n s = Inr s' \<Longrightarrow> exposures_ok s'"
  by (auto simp: do_withdraw_unbonded_def res_simps Let_def dest: kill_stash_exposures split: if_splits)

lemma do_slash_exposures:
  assumes "exposures_ok s" and "staking_do_slash E st value p i e s = (s', r)"
  shows "exposures_ok s'"
proof -
  have "exposures_ok t" if "ledger_slash E (se_stake value) e l s = (l', v, t)" for l l' v t
    using ledger_slash_exposures [OF that] assms(1) by simp
  then show ?thesis
    using assms by (auto simp: staking_do_slash_def Let_def split: option.splits prod.splits if_splits sum.splits)
qed

lemma slash_others_exposures:
  "exposures_ok s \<Longrightarrow> apply_slash_others E v e cs p i s = (s', r) \<Longrightarrow> exposures_ok s'"
proof (induction cs arbitrary: p i s)
  case (Cons c cs)
  obtain s1 r1 where d: "staking_do_slash E (fst c) (snd c) p i e s = (s1, r1)" by fastforce
  have "exposures_ok s1" by (rule do_slash_exposures [OF Cons.prems(1) d])
  then show ?case
    using Cons.prems(2) d by (cases c) (auto split: sum.splits intro: Cons.IH check_reputation_exposures(3))
qed simp

lemma pay_reporters_exposures [simp]: "exposures_ok (pay_reporters E p i rs s) = exposures_ok s"
proof -
  have "exposures_ok (snd (pay_each E a b rs w t)) = exposures_ok t" for a b w and t :: "'a staking"
    by (induction rs arbitrary: w t) (simp_all add: Let_def)
  then show ?thesis by (simp add: pay_reporters_def Let_def split_beta)
qed

lemma apply_slash_exposures:
  assumes "exposures_ok s" and "apply_slash E u e s = (s', r)"
  shows "exposures_ok s'"
proof -
  obtain s1 r1 where d: "staking_do_slash E (us_validator u) (us_own u) (se_stake (us_payout u)) 0 e s = (s1, r1)"
    by fastforce
  have s1: "exposures_ok s1" by (rule do_slash_exposures [OF assms(1) d])
  then have "exposures_ok (try_check_reputation_collab E a (check_reputation_validator E a s1))" for a
    by (intro check_reputation_exposures)
  note slash_others_exposures [OF this]
  then show ?thesis
    using assms(2) d s1 by (auto simp: apply_slash_def Let_def split: sum.splits prod.splits)
qed

lemma apply_slashes_exposures:
  "exposures_ok s \<Longrightarrow> apply_slashes E e us s = (s', r) \<Longrightarrow> exposures_ok s'"
proof (induction us arbitrary: s)
  case (Cons u us)
  obtain s1 r1 where d: "apply_slash E u e s = (s1, r1)" by fastforce
  have "exposures_ok s1" by (rule apply_slash_exposures [OF Cons.prems(1) d])
  then show ?case using Cons.prems(2) d Cons.IH by (cases r1) auto
qed simp

lemma start_era_exposures:
  assumes "exposures_ok s" and "start_era E i s = (s', r)"
  shows "exposures_ok s'"
proof -
  have prune: "exposures_ok (snd (prune_bonded E n b t)) = exposures_ok t" for n b and t :: "'a staking"
    by (simp add: prune_bonded_def Let_def split: list.splits prod.splits)
  have unapplied: "exposures_ok t'" if "exposures_ok t" "apply_unapplied_slashes E n t = (t', q)" for n q t and t' :: "'a staking"
    by (rule apply_slashes_exposures [OF _ that(2) [unfolded apply_unapplied_slashes_def Let_def]]) (use that(1) in simp)
  show ?thesis
    using assms prune unapplied
    by (auto simp: start_era_def Let_def split: prod.splits option.splits) (metis snd_conv exposures_storage)+
qed

lemma foldl_world_exposures [simp]: "exposures_ok (foldl (\<lambda>s i. st_world (g i) s) s xs) = exposures_ok s"
  by (induction xs arbitrary: s) simp_all

lemma start_session_exposures:
  assumes "exposures_ok s"
  shows "exposures_ok (fst (start_session E i s))"
proof -
  define n where "n = (case ActiveEra s of Some e \<Rightarrow> add_w 32 (ae_index e) 1 | None \<Rightarrow> 0)"
  obtain s1 r where a: "(case ErasStartSessionIndex s n of
      Some start_index \<Rightarrow> if start_index \<le> i then start_era E i s else (s, None)
    | None \<Rightarrow> (s, None)) = (s1, r)" by fastforce
  then have "exposures_ok s1"
    using assms start_era_exposures [OF assms] by (auto split: option.splits if_splits)
  then show ?thesis
    using a by (auto simp: start_session_def Let_def n_def [symmetric] split: option.splits)
qed

lemma session_exposures:
  assumes "exposures_ok s"
  shows "exposures_ok (end_session E i s)" "exposures_ok (on_finalize E s)" "exposures_ok (note_author E a s)"
    "exposures_ok (reward_by_ids E ps s)"
  using assms
  by (auto simp: end_session_def end_era_def store_energy_rate_def Let_def on_finalize_def note_author_def
      reward_by_ids_def split: option.splits sum.splits)

lemma offence_exposures:
  assumes "exposures_ok s"
  shows "exposures_ok (on_offence E offs fr i s)"
proof -
  have one: "exposures_ok (handle_offender E rp invs e w n d t)" if "exposures_ok t" for rp invs e w n d and t :: "'a staking"
  proof -
    have "exposures_ok (fst (apply_slash E u e v))" if "exposures_ok v" for u and v :: "'a staking"
      using apply_slash_exposures [OF that surjective_pairing] .
    then show ?thesis
      using that by (auto simp: handle_offender_def Let_def split: prod.splits option.splits)
  qed
  have "exposures_ok (foldl (\<lambda>t d. handle_offender E rp invs e w n d t) t ds)" if "exposures_ok t"
    for rp invs e w n ds and t :: "'a staking"
    using that by (induction ds arbitrary: t) (simp_all add: one)
  then show ?thesis using assms by (auto simp: on_offence_def Let_def split: option.splits)
qed

section \<open>Planning an era stores sound exposures\<close>

lemma distinct_map_filter:
  assumes "distinct xs" and "\<And>x y. x \<in> set xs \<Longrightarrow> f x = Some y \<Longrightarrow> g y = x"
  shows "distinct (map g (List.map_filter f xs))"
  using assms
proof (induction xs)
  case (Cons x xs)
  then show ?case by (auto simp: map_filter_simps map_filter_def split: option.splits) metis
qed (simp add: map_filter_simps)

lemma collect_exposure_sound:
  assumes "exposures_ok s" and "collect_exposure E s v = Some (w, ex)"
  shows "exposure_sound ex"
proof -
  let ?f = "exposure_of_collaborator E s v (validators_of s v)"
  have who: "ie_who i = a" if "?f a = Some i" for a i
    using that by (auto simp: exposure_of_collaborator_def split: if_splits option.splits)
  have "distinct (map ie_who (case Collaborations s v of Some coops \<Rightarrow> List.map_filter ?f coops | None \<Rightarrow> []))"
  proof (cases "Collaborations s v")
    case (Some coops)
    then have "distinct coops"
      using assms(1) by (auto simp: exposures_ok_def collab_ok_def strict_sorted_iff)
    then show ?thesis using Some who by (auto intro: distinct_map_filter)
  qed simp
  then show ?thesis using assms(2) by (auto simp: collect_exposure_def exposure_sound_def Let_def split: option.splits)
qed

lemma ellect_exposures: "exposures_ok s \<Longrightarrow> exposures_ok (ellect_validators E s)"
proof -
  have "exposures_ok (foldl (\<lambda>s a. chill_stash E a s) t as)" if "exposures_ok t" for t :: "'a staking" and as
    using that by (induction as arbitrary: t) (simp_all add: chill_exposures)
  moreover have "exposures_ok (demote E a t)" if "exposures_ok t" for t :: "'a staking" and a
    using that by (simp add: demote_def exposures_ok_def collab_ok_upd)
  then have "exposures_ok (foldl (\<lambda>s a. demote E a s) t as)" if "exposures_ok t" for t :: "'a staking" and as
    using that by (induction as arbitrary: t) simp_all
  ultimately show "exposures_ok s \<Longrightarrow> exposures_ok (ellect_validators E s)"
    by (simp add: ellect_validators_def Let_def)
qed

lemma set_sort_by: "set (sort_by le xs) = set xs"
proof -
  have "set (insert_by le x ys) = insert x (set ys)" for x ys by (induction ys) auto
  then show ?thesis unfolding sort_by_def by (induction xs) simp_all
qed

lemma store_exposures:
  assumes "exposures_ok s" and "\<And>v ex. (v, ex) \<in> set exs \<Longrightarrow> exposure_sound ex"
  shows "exposures_ok (snd (store_stakers_info E exs e s))"
proof -
  have fold: "exposures_ok (foldl (\<lambda>s p. store_staker E e p s) t ps)"
    if "exposures_ok t" "\<forall>p \<in> set ps. exposure_sound (snd p)" for t :: "'a staking" and ps
    using that
  proof (induction ps arbitrary: t)
    case (Cons p ps)
    have "exposures_ok (store_staker E e p t)" using Cons.prems by (auto simp: store_staker_def exposures_ok_def)
    then show ?case using Cons by simp
  qed simp
  show ?thesis
    unfolding store_stakers_info_def Let_def snd_conv exposures_storage
    by (rule fold) (use assms in \<open>auto simp: set_sort_by\<close>)
qed

lemma trigger_exposures:
  assumes "exposures_ok s" and "\<And>v ex. (v, ex) \<in> set exs \<Longrightarrow> exposure_sound ex"
  shows "exposures_ok (snd (trigger_new_era E i exs s))"
proof -
  have "exposures_ok (clear_era_information e t)" if "exposures_ok t" for e and t :: "'a staking"
    using that by (auto simp: clear_era_information_def exposures_ok_def)
  then show ?thesis
    unfolding trigger_new_era_def Let_def
    by (intro store_exposures) (use assms in \<open>auto split: option.splits\<close>)
qed

lemma try_trigger_exposures:
  assumes "exposures_ok s"
  shows "exposures_ok (snd (try_trigger_new_era E i s))"
proof -
  obtain exs s1 where e: "ellect_and_collect_exposures E s = (exs, s1)" by fastforce
  have s1: "exposures_ok s1" using e ellect_exposures [OF assms] by (auto simp: ellect_and_collect_exposures_def Let_def)
  have "exposure_sound ex" if "(v, ex) \<in> set exs" for v ex
    using that e s1 collect_exposure_sound [OF s1]
    by (auto simp: ellect_and_collect_exposures_def Let_def map_filter_def)
  then have "exposures_ok (snd (trigger_new_era E i exs (st_deposit EvStakersElected s1)))"
    by (intro trigger_exposures) (use s1 in simp_all)
  then show ?thesis using e s1 by (auto simp: try_trigger_new_era_def Let_def split: option.splits prod.splits)
qed

lemma new_session_exposures:
  assumes "exposures_ok s"
  shows "exposures_ok (snd (new_session E i s))"
proof -
  define u where "u = s\<lparr>CurrentPlannedSession := i,
    st_rep := update_points_for_time (c_libm E) (x_block_number E (st_ext s)) (st_rep s)\<rparr>"
  have u: "exposures_ok u" using assms by (simp add: u_def)
  have "exposures_ok (snd (try_trigger_new_era E i u))"
    "exposures_ok (snd (try_trigger_new_era E i (st_world (x_change_quarter_info E) u)))"
    by (rule try_trigger_exposures; use u in simp)+
  then show ?thesis
    using u unfolding new_session_def plan_session_def Let_def
    by (auto simp: u_def [symmetric] set_force_era_def split: option.splits prod.splits)
qed

section \<open>The calls\<close>

lemma pay_staker_exposures [simp]: "exposures_ok (snd (pay_staker E a n acc)) = exposures_ok (snd acc)"
  by (auto simp: pay_staker_def make_payout_def Let_def split: prod.splits option.splits reward_destination.splits)

lemma pay_stakers_exposures [simp]:
  "exposures_ok (snd (foldl (\<lambda>acc c. pay_staker E (f c) (g c) acc) acc xs)) = exposures_ok (snd acc)"
  by (induction xs arbitrary: acc) simp_all

lemma payout_exposures:
  assumes "exposures_ok s" and "do_payout_stakers E v e s = Inr s'"
  shows "exposures_ok s'"
  using assms by (auto simp: do_payout_stakers_def Let_def res_simps split_beta)

lemma bond_calls_exposures:
  assumes "exposures_ok s"
  shows "bond E og c v p s = Inr s' \<Longrightarrow> exposures_ok s'" "bond_extra E og v s = Inr s' \<Longrightarrow> exposures_ok s'"
    "set_payee og p s = Inr s' \<Longrightarrow> exposures_ok s'"
    "set_controller E og c s = Inr s' \<Longrightarrow> exposures_ok s'"
  using assms
  by (auto simp: bond_def bond_extra_def set_payee_def set_controller_def res_simps Let_def
      split: option.splits prod.splits if_splits)

lemma rebond_exposures: "exposures_ok s \<Longrightarrow> rebond E og v s = Inr s' \<Longrightarrow> exposures_ok s'"
  by (auto simp: rebond_def res_simps Let_def split_beta)

lemma unbond_exposures:
  assumes "exposures_ok s" and "unbond E og v s = Inr s'"
  shows "exposures_ok s'"
proof -
  have unb: "exposures_ok t'" if "exposures_ok t" "unbond_value E c l n t = Inr t'" for c l n and t t' :: "'a staking"
    using that by (auto simp: unbond_value_def unbond_finish_def res_simps Let_def split: prod.splits if_splits)
  show ?thesis
    using assms unfolding unbond_def rbind_Inr_iff Let_def
    by (auto simp: res_simps split: if_splits dest: unb withdraw_exposures)
qed

lemma role_calls_exposures:
  assumes "exposures_ok s"
  shows "validate E og p s = Inr s' \<Longrightarrow> exposures_ok s'" "chill E og s = Inr s' \<Longrightarrow> exposures_ok s'"
    "force_chill E og a s = Inr s' \<Longrightarrow> exposures_ok s'" "chill_other E og a s = Inr s' \<Longrightarrow> exposures_ok s'"
    "make_collaborative E og s = Inr s' \<Longrightarrow> exposures_ok s'"
    "force_apply_min_commission og a s = Inr s' \<Longrightarrow> exposures_ok s'"
  using assms
  by (auto simp: validate_def do_add_validator_def chill_def force_chill_def chill_other_def make_collaborative_def
      force_apply_min_commission_def res_simps Let_def chill_both_exposures remove_roles_exposures)

lemma cooperate_exposures:
  assumes "exposures_ok s" and "cooperate E og ts s = Inr s'"
  shows "exposures_ok s'"
proof -
  obtain c l co s2 where "Ledger s c = Some l" and a: "do_add_cooperator (l_stash l) co (snd (do_remove_validator E (l_stash l) s)) = Inr s2"
    and s': "Inr (st_deposit (EvCooperated c (filter (\<lambda>(_, stake). 0 < stake) ts))
               (update_active_stake E (l_stash l) s2)) = (Inr s' :: 'a call)"
    using assms(2) unfolding cooperate_def Let_def rbind_Inr_iff ensure_Inr_iff ok_or_Inr_iff
    by (elim exE conjE) (rule that; assumption)
  show ?thesis using s' add_cooperator_exposures [OF remove_roles_exposures(1) [OF assms(1)] a] by auto
qed

lemma kick_exposures:
  assumes "exposures_ok s" and "kick E og who s = Inr s'"
  shows "exposures_ok s'"
proof -
  have one: "exposures_ok (kick_one E st c t)" if "exposures_ok t" for st c and t :: "'a staking"
    using that by (auto simp: kick_one_def Let_def exposures_ok_def collab_ok_drop split: option.splits)
  have "exposures_ok (foldl (\<lambda>s c. kick_one E st c s) t cs)" if "exposures_ok t" for st cs and t :: "'a staking"
    using that by (induction cs arbitrary: t) (simp_all add: one)
  then show ?thesis using assms by (auto simp: kick_def res_simps)
qed

lemma unstake_calls_exposures:
  assumes "exposures_ok s"
  shows "withdraw_unbonded E og n s = Inr s' \<Longrightarrow> exposures_ok s'" "force_unstake E og a n s = Inr s' \<Longrightarrow> exposures_ok s'"
    "reap_stash E og a n s = Inr s' \<Longrightarrow> exposures_ok s'" "payout_stakers E og a e s = Inr s' \<Longrightarrow> exposures_ok s'"
  unfolding withdraw_unbonded_def force_unstake_def reap_stash_def payout_stakers_def
    Let_def rbind_Inr_iff ensure_Inr_iff ok_or_Inr_iff sum.inject
  by (elim exE conjE; use assms in \<open>auto intro: withdraw_exposures kill_stash_exposures payout_exposures\<close>)+

lemma admin_calls_exposures:
  assumes "exposures_ok s"
  shows "set_validator_count og n s = Inr s' \<Longrightarrow> exposures_ok s'" "increase_validator_count og n s = Inr s' \<Longrightarrow> exposures_ok s'"
    "scale_validator_count E og n s = Inr s' \<Longrightarrow> exposures_ok s'" "set_core_nodes_count og n s = Inr s' \<Longrightarrow> exposures_ok s'"
    "force_no_eras og s = Inr s' \<Longrightarrow> exposures_ok s'" "force_new_era og s = Inr s' \<Longrightarrow> exposures_ok s'"
    "force_new_era_always og s = Inr s' \<Longrightarrow> exposures_ok s'" "set_invulnerables og is s = Inr s' \<Longrightarrow> exposures_ok s'"
    "cancel_deferred_slash E og e is s = Inr s' \<Longrightarrow> exposures_ok s'"
    "set_staking_configs og a b c d f g h s = Inr s' \<Longrightarrow> exposures_ok s'"
    "set_min_commission E og n s = Inr s' \<Longrightarrow> exposures_ok s'"
    "set_energy_per_stake_currency E og n s = Inr s' \<Longrightarrow> exposures_ok s'"
    "set_block_authoring_reward E og n s = Inr s' \<Longrightarrow> exposures_ok s'"
  using assms
  by (auto simp: set_validator_count_def increase_validator_count_def scale_validator_count_def
      set_core_nodes_count_def force_no_eras_def force_new_era_def force_new_era_always_def
      force_era_mode_def set_force_era_def set_invulnerables_def cancel_deferred_slash_def
      put_validator_count_def set_staking_configs_def set_min_commission_def set_energy_per_stake_currency_def
      set_block_authoring_reward_def res_simps Let_def exposures_ok_def)

lemma vip_exposures:
  assumes "exposures_ok s" and "slash_vip_account E a p s = Inr s'"
  shows "exposures_ok s'"
proof -
  have tax: "exposures_ok t" if "vip_tax E a p l s = Inr (n, t)" for l n t
    using that assms(1) chill_exposures [OF assms(1)] add_cooperator_exposures [OF assms(1)]
    by (auto simp: vip_tax_def Let_def res_simps split: if_splits option.splits prod.splits)
  obtain l e n s1 where c: "vip_tax E a p l s = Inr (n, s1)"
    and f: "(let (l', stake_value, s2) = ledger_slash E n e l s1
       in Inr (if stake_value \<noteq> 0 then
                 let (ext, imbalance, _) = x_slash E a stake_value (st_ext s2)
                 in update_ledger E a l' (s2\<lparr>st_ext := x_slash_unbalanced E imbalance ext\<rparr>)
               else s2)) = (Inr s' :: 'a call)"
    using assms(2) unfolding slash_vip_account_def rbind_Inr_iff ok_or_Inr_iff split_paired_Ex prod.case
    by (elim exE conjE) (rule that; assumption)
  obtain l' v s2 where ls: "ledger_slash E n e l s1 = (l', v, s2)" by (cases "ledger_slash E n e l s1")
  have "exposures_ok s2" using tax [OF c] ledger_slash_exposures [OF ls] by simp
  then show ?thesis using f ls by (auto split: prod.splits if_splits)
qed

section \<open>Reachable states pass the checks\<close>

lemma dispatch_exposures:
  assumes ok: "exposures_ok s" and r: "staking_dispatch E og c s = Inr s'"
  shows "exposures_ok s'"
  using r
  by (cases c) (simp_all add: bond_calls_exposures [OF ok] rebond_exposures [OF ok] unbond_exposures [OF ok]
      role_calls_exposures [OF ok] cooperate_exposures [OF ok] kick_exposures [OF ok]
      unstake_calls_exposures [OF ok] admin_calls_exposures [OF ok])

lemma step_exposures: "stk_step E s s' \<Longrightarrow> exposures_ok s \<Longrightarrow> exposures_ok s'"
  by (induction rule: stk_step.induct)
    (auto intro: dispatch_exposures session_exposures start_session_exposures new_session_exposures
      offence_exposures vip_exposures)

lemma genesis_exposures:
  assumes "staking_genesis E g R x = Some s"
  shows "exposures_ok s"
proof -
  have one: "exposures_ok t'" if "exposures_ok t" "genesis_staker E g p t = Some t'" for p and t t' :: "'a staking"
  proof -
    note g = that
    obtain stash controller amount status where p: "p = (stash, controller, amount, status)" by (cases p)
    obtain t1 where b: "bond E (Signed stash) controller amount ToController t = Inr t1"
      using g(2) by (auto simp: genesis_staker_def p split: if_splits sum.splits)
    have t1: "exposures_ok t1" by (rule bond_calls_exposures(1) [OF g(1) b])
    show ?thesis
      using g(2) b t1 role_calls_exposures(1) [OF t1] cooperate_exposures [OF t1]
      by (auto simp: genesis_staker_def p Let_def split: if_splits sum.splits staker_status.splits)
  qed
  have "exposures_ok t'" if "exposures_ok t" "genesis_stakers E g ps t = Some t'" for ps and t t' :: "'a staking"
    using that
  proof (induction ps arbitrary: t)
    case (Cons p ps)
    then obtain u where "genesis_staker E g p t = Some u" "genesis_stakers E g ps u = Some t'"
      by (auto simp: bind_eq_Some_conv)
    then show ?case using Cons one by blast
  qed simp
  moreover have "exposures_ok (genesis_storage g R x)"
    by (simp add: genesis_storage_def exposures_ok_def collab_ok_def)
  ultimately show ?thesis using assms by (simp add: staking_genesis_def)
qed

lemma reachable_exposures: "stk_reachable E s \<Longrightarrow> exposures_ok s"
  by (induction rule: stk_reachable.induct) (auto intro: genesis_exposures step_exposures)

lemma foldl_add_w:
  "a + sum_list (map f xs) \<le> max_w w \<Longrightarrow> foldl (\<lambda>a x. add_w w a (f x)) a xs = a + sum_list (map f xs)"
proof (induction xs arbitrary: a)
  case (Cons x xs)
  have "0 < (2::nat) ^ w" by simp
  moreover have "a + f x \<le> 2 ^ w - 1" using Cons.prems by (simp add: max_w_def)
  ultimately have "a + f x < 2 ^ w" by linarith
  then have "add_w w a (f x) = a + f x" by (rule add_w_eq)
  then show ?case using Cons by simp
qed simp

lemma sound_exposure_checks:
  assumes "exposure_sound ex" and "ex_total ex < max_w 128"
  shows "check_exposure ex = Inr ()"
proof -
  have "ex_total ex = ex_own ex + sum_list (map ie_value (ex_others ex))"
    using assms by (auto simp: exposure_sound_def sat_sum_eq sat_add_def)
  then show ?thesis
    using assms(2) foldl_add_w [of 0 ie_value "ex_others ex" 128]
      add_w_eq [of "ex_own ex" "sum_list (map ie_value (ex_others ex))" 128]
    by (simp add: check_exposure_def max_w_def)
qed

lemma backed_once:
  assumes "distinct (map ie_who (ex_others e))"
  shows "check_backed_once a e = Inr ()"
proof -
  have "length (filter (\<lambda>i. ie_who i = a) xs) \<le> 1" if "distinct (map ie_who xs)" for xs
    using that
  proof (induction xs)
    case (Cons x xs)
    show ?case
    proof (cases "ie_who x = a")
      case True
      then have "filter (\<lambda>i. ie_who i = a) xs = []" using Cons.prems
        by (auto simp: filter_empty_conv) (metis imageI)
      then show ?thesis using True by simp
    next
      case False
      then show ?thesis using Cons by simp
    qed
  qed simp
  from this [OF assms] show ?thesis by (simp add: check_backed_once_def)
qed

lemma check_ledgers_ok:
  assumes "stk_ok s"
  shows "check_ledgers E s = Inr ()"
proof -
  have one: "ensure_ledger_consistent s c = Inr ()" if "Bonded s st = Some c" for st c
  proof -
    note b = that
    obtain l where l: "Ledger s c = Some l" using paired_bonded [OF stk_okD(1) [OF assms] b] by blast
    have "ledger_ok l" using paired_ledger [OF stk_okD(1) [OF assms] l] by (simp add: led_ok_def)
    then show ?thesis
      using l foldl_add_w [of "l_active l" uc_value "l_unlocking l" 128]
      by (simp add: ensure_ledger_consistent_def ledger_ok_def)
  qed
  then show ?thesis by (auto simp: check_ledgers_def intro!: try_for_each_ok split: option.splits)
qed

text \<open>C2. In every reachable state with an active era, whose exposures did not reach the largest balance, the
  checks of \<open>do_try_state\<close> pass: cooperators are bonded and back a validator once, exposures add up,
  ledgers are consistent.\<close>

theorem reachable_passes_try_state:
  assumes "stk_reachable E s" and "env_ok E" and "iter_ok E" and "ActiveEra s = Some active"
    and "\<forall>v ex. ErasStakers s (ae_index active, v) = Some ex \<longrightarrow> ex_total ex < max_w 128"
  shows "do_try_state E s = Some (Inr ())"
proof -
  have ok: "stk_ok s" by (rule stk_reachable_ok [OF assms(1-3)])
  have exps: "exposures_ok s" by (rule reachable_exposures [OF assms(1)])
  have stash: "ensure_is_stash s c = Inr ()" if "Cooperators s c \<noteq> None" for c
    using that stk_okD(2) [OF ok] by (auto simp: roles_ok_def ensure_is_stash_def)
  have once: "check_backed_once c (unwrap_or exposure_default (ErasStakers s k)) = Inr ()" for c k
  proof (intro backed_once, cases "ErasStakers s k")
    case (Some ex)
    then have "exposure_sound ex" using exps unfolding exposures_ok_def by blast
    then show "distinct (map ie_who (ex_others (unwrap_or exposure_default (ErasStakers s k))))"
      using Some by (simp add: exposure_sound_def)
  qed (simp add: exposure_default_def)
  have "check_cooperators E s = Some (Inr ())"
    using assms(4) stash once
    by (auto simp: check_cooperators_def Let_def intro!: try_for_each_ok split: option.splits)
  moreover have "check_exposures E s = Some (Inr ())"
    using assms(4,5) exps sound_exposure_checks
    by (auto simp: check_exposures_def exposures_ok_def Let_def intro!: try_for_each_ok split: option.splits)
  ultimately show ?thesis by (simp add: do_try_state_def check_ledgers_ok [OF ok])
qed

definition demo_active :: "(account \<Rightarrow> balance) staking" where
  "demo_active = fst (start_session demo_env 0 (snd (new_session demo_env 0 demo_state)))"

theorem reachable_passes_try_state_witness:
  "do_try_state demo_env demo_active = Some (Inr ()) \<and> Ledger demo_active 10 = Some demo_ledger"
proof -
  have s: "CurrentEra demo_state = None" "Validators demo_state = Map.empty" "ActiveEra demo_state = None"
    "MinimumValidatorCount demo_state = 1" "BondedEras demo_state = []" "ErasStakers demo_state = Map.empty"
    "UnappliedSlashes demo_state = Map.empty" "DisabledValidators (st_slash demo_state) = []"
    "Ledger demo_state = [10 \<mapsto> demo_ledger]" "ErasStartSessionIndex demo_state = Map.empty"
    by (simp_all add: demo_state_def genesis_storage_def demo_genesis_def empty_slash_def)
  let ?t = "snd (new_session demo_env 0 demo_state)"
  have t: "ActiveEra ?t = None" "BondedEras ?t = []" "ErasStakers ?t = Map.empty" "UnappliedSlashes ?t = Map.empty"
    "st_slash ?t = st_slash demo_state" "Ledger ?t = [10 \<mapsto> demo_ledger]" "ErasStartSessionIndex ?t 0 = Some 0"
    by (simp_all add: new_session_def plan_session_def try_trigger_new_era_def ellect_and_collect_exposures_def
        ellect_validators_def demo_env_def Let_def s map_filter_simps)
  have a: "ActiveEra demo_active = Some \<lparr>ae_index = 0, ae_start = None\<rparr>" "ErasStakers demo_active = Map.empty"
    "Ledger demo_active = [10 \<mapsto> demo_ledger]"
    unfolding demo_active_def
    by (simp_all add: start_session_def start_era_def prune_bonded_def apply_unapplied_slashes_def Let_def t s)
  have "stk_reachable demo_env demo_active"
    unfolding demo_active_def
    by (rule reach_step [OF reach_step [OF reach_genesis [OF demo_genesis_state]] step_start_session])
      (rule step_new_session)
  from reachable_passes_try_state [OF this demo_env_ok a(1)] show ?thesis by (simp add: a)
qed

text \<open>Before the first era \<open>try_state\<close> unwraps an active era that is not there.\<close>

lemma try_state_panics_before_first_era: "ActiveEra s = None \<Longrightarrow> do_try_state E s = None"
  by (simp add: do_try_state_def check_cooperators_def)

end
