(* ===== verification/DynamicEnergy.thy ===== *)
theory DynamicEnergy
  imports Arith
begin

text \<open>
  The pallet \<open>pallets/dynamic-energy\<close>: the energy generated per session, the VNRG/VTRS exchange rate
  recalculated at every session change, and the conversion at that rate.

  A \<open>FixedU128\<close> or \<open>FixedI128\<close> value is its inner integer (a \<open>nat\<close> or an \<open>int\<close>). What the pallet
  reads of other pallets when a session changes (the clock, the warehouse of the energy broker, the
  eras and stakes of the staking pallet) is the record \<open>dyn_view\<close>.
\<close>

section \<open>Data\<close>

abbreviation fixed_div :: nat where "fixed_div \<equiv> 1000000000000000000"

definition SECONDS_IN_YEAR :: nat where "SECONDS_IN_YEAR = 60 * 60 * 24 * 36525 div 100"

record generation_rate_parameters =
  gp_energy_burn :: balance
  gp_new_rate :: "balance option"
  gp_old_rate :: "balance option"
  gp_smooth_factor :: nat

record exchange_rate_parameters =
  xp_energy_sale :: balance
  xp_total_stake :: balance
  xp_duration :: nat
  xp_apr :: nat
  xp_multiplier :: nat
  xp_new_rate :: "nat option"
  xp_old_rate :: "nat option"
  xp_smooth_factor :: nat

datatype dyn_event =
  EnergyBurnForceSet "balance option"
| EnergySaleForceSet "balance option"
| TotalStakeForceSet "balance option"
| MinimumEnergyGenerationSet "balance option"
| GenerationRateSmoothFactorUpdated nat
| ExchangeRateSmoothFactorUpdated nat
| AnnualPercentageRateUpdated nat
| MultiplierCoefficientsUpdated "int \<times> int \<times> int \<times> int"
| ExchangeRateUpdated nat

datatype dyn_error = InvalidSmoothFactor

record dyn_state =
  EnergyBurnOverride :: "balance option"
  EnergySaleOverride :: "balance option"
  TotalStakeOverride :: "balance option"
  AnnualPercentageRate :: nat
  MultiplierCoefficients :: "int \<times> int \<times> int \<times> int"
  GenerationRateSmoothFactor :: nat
  ExchangeRateSmoothFactor :: nat
  GenerationRateParams :: generation_rate_parameters
  ExchangeRateParams :: exchange_rate_parameters
  ExchangeRate :: "nat option"
  SessionStartTime :: nat
  dy_SessionEnergyBurn :: balance
  SessionEnergySale :: balance
  EnergyGeneration :: "session \<rightharpoonup> balance"
  MinimumEnergyGeneration :: "balance option"
  dy_events :: "dyn_event list"

text \<open>The operations of \<open>FixedI128\<close> the polynomial uses.\<close>

record fixed_i =
  fi_from_perbill :: "nat \<Rightarrow> int"
  fi_from_int :: "int \<Rightarrow> int"
  fi_mul :: "int \<Rightarrow> int \<Rightarrow> int"
  fi_add :: "int \<Rightarrow> int \<Rightarrow> int"
  fi_pow :: "int \<Rightarrow> nat \<Rightarrow> int"

record dyn_env =
  d_perbill :: perthing
  d_fixed :: fixed
  d_fixed_i :: fixed_i
  d_manage_origin :: "origin \<Rightarrow> bool"
  d_sessions_per_era :: nat
  d_expected_session_duration :: nat

record dyn_view =
  v_now_secs :: nat
  v_warehouse_amount :: balance
  v_warehouse_capacity :: balance
  v_era_for_session :: "session \<Rightarrow> era option"
  v_session_range :: "era \<Rightarrow> (session \<times> session) option"
  v_total_stake :: "era \<Rightarrow> balance"

type_synonym dyn_call = "dyn_error dispatch_error + dyn_state"

definition dyn_deposit :: "dyn_event \<Rightarrow> dyn_state \<Rightarrow> dyn_state" where
  "dyn_deposit e s = s\<lparr>dy_events := dy_events s @ [e]\<rparr>"

definition dyn_genesis :: "balance \<Rightarrow> balance \<Rightarrow> balance \<Rightarrow> dyn_state \<Rightarrow> dyn_state" where
  "dyn_genesis energy_burn energy_sale stake s =
     s\<lparr>EnergyBurnOverride := Some energy_burn, EnergySaleOverride := Some energy_sale,
       TotalStakeOverride := Some stake\<rparr>"

section \<open>The dispatchables\<close>

definition ensure_manager :: "dyn_env \<Rightarrow> origin \<Rightarrow> dyn_error dispatch_error + unit" where
  "ensure_manager D og = ensure (d_manage_origin D og) BadOrigin"

definition force_set_energy_burn :: "dyn_env \<Rightarrow> origin \<Rightarrow> balance option \<Rightarrow> dyn_state \<Rightarrow> dyn_call" where
  "force_set_energy_burn D og amount s = rbind (ensure_manager D og) (\<lambda>_.
     Inr (dyn_deposit (EnergyBurnForceSet amount) (s\<lparr>EnergyBurnOverride := amount\<rparr>)))"

definition force_set_energy_sale :: "dyn_env \<Rightarrow> origin \<Rightarrow> balance option \<Rightarrow> dyn_state \<Rightarrow> dyn_call" where
  "force_set_energy_sale D og amount s = rbind (ensure_manager D og) (\<lambda>_.
     Inr (dyn_deposit (EnergySaleForceSet amount) (s\<lparr>EnergySaleOverride := amount\<rparr>)))"

definition force_set_total_stake :: "dyn_env \<Rightarrow> origin \<Rightarrow> balance option \<Rightarrow> dyn_state \<Rightarrow> dyn_call" where
  "force_set_total_stake D og amount s = rbind (ensure_manager D og) (\<lambda>_.
     Inr (dyn_deposit (TotalStakeForceSet amount) (s\<lparr>TotalStakeOverride := amount\<rparr>)))"

definition set_generation_rate_smooth_factor :: "dyn_env \<Rightarrow> origin \<Rightarrow> nat \<Rightarrow> dyn_state \<Rightarrow> dyn_call" where
  "set_generation_rate_smooth_factor D og v s = rbind (ensure_manager D og) (\<lambda>_.
     rbind (ensure (0 < v) (Module InvalidSmoothFactor)) (\<lambda>_.
     Inr (dyn_deposit (GenerationRateSmoothFactorUpdated v) (s\<lparr>GenerationRateSmoothFactor := v\<rparr>))))"

definition set_exchange_rate_smooth_factor :: "dyn_env \<Rightarrow> origin \<Rightarrow> nat \<Rightarrow> dyn_state \<Rightarrow> dyn_call" where
  "set_exchange_rate_smooth_factor D og v s = rbind (ensure_manager D og) (\<lambda>_.
     rbind (ensure (0 < v) (Module InvalidSmoothFactor)) (\<lambda>_.
     Inr (dyn_deposit (ExchangeRateSmoothFactorUpdated v) (s\<lparr>ExchangeRateSmoothFactor := v\<rparr>))))"

definition set_annual_percentage_rate :: "dyn_env \<Rightarrow> origin \<Rightarrow> nat \<Rightarrow> dyn_state \<Rightarrow> dyn_call" where
  "set_annual_percentage_rate D og v s = rbind (ensure_manager D og) (\<lambda>_.
     Inr (dyn_deposit (AnnualPercentageRateUpdated v) (s\<lparr>AnnualPercentageRate := v\<rparr>)))"

definition set_multiplier_coefficients ::
  "dyn_env \<Rightarrow> origin \<Rightarrow> int \<Rightarrow> int \<Rightarrow> int \<Rightarrow> int \<Rightarrow> dyn_state \<Rightarrow> dyn_call" where
  "set_multiplier_coefficients D og a b c d s = rbind (ensure_manager D og) (\<lambda>_.
     Inr (dyn_deposit (MultiplierCoefficientsUpdated (a, b, c, d))
            (s\<lparr>MultiplierCoefficients := (a, b, c, d)\<rparr>)))"

definition set_minimum_energy_generation ::
  "dyn_env \<Rightarrow> origin \<Rightarrow> balance option \<Rightarrow> dyn_state \<Rightarrow> dyn_call" where
  "set_minimum_energy_generation D og amount s = rbind (ensure_manager D og) (\<lambda>_.
     Inr (dyn_deposit (MinimumEnergyGenerationSet amount) (s\<lparr>MinimumEnergyGeneration := amount\<rparr>)))"

section \<open>Rates\<close>

definition calculate_warehouse_capacity_multiplier :: "dyn_env \<Rightarrow> dyn_view \<Rightarrow> dyn_state \<Rightarrow> nat" where
  "calculate_warehouse_capacity_multiplier D v s =
     (let F = d_fixed_i D;
          part = pt_from_rational (d_perbill D) (v_warehouse_amount v) (v_warehouse_capacity v);
          x = fi_mul F (fi_from_perbill F part) (fi_from_int F 100);
          (a, b, c, d) = MultiplierCoefficients s;
          multiplier = fi_add F (fi_add F (fi_add F (fi_mul F a (fi_pow F x 3)) (fi_mul F b (fi_pow F x 2)))
                         (fi_mul F c x)) d
      in if 0 < multiplier then nat multiplier else fixed_div)"

definition smooth_value :: "perthing \<Rightarrow> nat \<Rightarrow> nat \<Rightarrow> nat \<Rightarrow> nat" where
  "smooth_value P value old_value smooth_factor =
     (let weight = pt_from_rational P 2 (sat_add 32 smooth_factor 1)
      in sat_add 128 (pt_mul P weight value) (pt_mul P (perbill_one - weight) old_value))"

definition calculate_generation_rate :: "balance \<Rightarrow> dyn_state \<Rightarrow> balance option" where
  "calculate_generation_rate energy_burn s =
     Some (max energy_burn (unwrap_or 0 (MinimumEnergyGeneration s)))"

text \<open>
  \<open>calculate_exchange_rate\<close> in \<open>U256\<close>: every multiplication and the division are checked, and the
  result has to fit a \<open>u128\<close>.
\<close>

definition mul_all :: "nat \<Rightarrow> nat list \<Rightarrow> nat option" where
  "mul_all a xs = foldl (\<lambda>acc x. Option.bind acc (\<lambda>r. checked_mul 256 r x)) (Some a) xs"

definition calculate_exchange_rate :: "balance \<Rightarrow> balance \<Rightarrow> nat \<Rightarrow> nat \<Rightarrow> nat \<Rightarrow> nat option" where
  "calculate_exchange_rate energy_sale stake duration apr multiplier =
     Option.bind (mul_all energy_sale [1000, SECONDS_IN_YEAR, fixed_div]) (\<lambda>numerator.
     Option.bind (mul_all stake [apr, duration, multiplier]) (\<lambda>denominator.
     Option.bind (checked_mul 256 numerator fixed_div) (\<lambda>n.
     Option.bind (checked_div n denominator) (\<lambda>raw. try_into 128 raw))))"

definition update_generation_rate :: "dyn_env \<Rightarrow> session \<Rightarrow> dyn_state \<Rightarrow> dyn_state" where
  "update_generation_rate D index s =
     (let energy_burn = unwrap_or (dy_SessionEnergyBurn s) (EnergyBurnOverride s);
          new_rate = calculate_generation_rate energy_burn s;
          old_rate = map_option (\<lambda>i. unwrap_or 0 (EnergyGeneration s i)) (checked_sub index 1);
          smooth_factor = GenerationRateSmoothFactor s;
          s1 = s\<lparr>GenerationRateParams := \<lparr>gp_energy_burn = energy_burn, gp_new_rate = new_rate,
                   gp_old_rate = old_rate, gp_smooth_factor = smooth_factor\<rparr>\<rparr>;
          rate = smooth_value (d_perbill D) (unwrap_or 0 new_rate) (unwrap_or 0 old_rate) smooth_factor
      in s1\<lparr>EnergyGeneration := (EnergyGeneration s1)(index \<mapsto> rate)\<rparr>)"

definition update_exchange_rate ::
  "dyn_env \<Rightarrow> dyn_view \<Rightarrow> session \<Rightarrow> nat \<Rightarrow> dyn_state \<Rightarrow> dyn_state" where
  "update_exchange_rate D v index duration s =
     (let energy_sale = unwrap_or (SessionEnergySale s) (EnergySaleOverride s);
          stake = unwrap_or 0 (case TotalStakeOverride s of
              Some t \<Rightarrow> Some t
            | None \<Rightarrow> map_option (v_total_stake v)
                        (Option.bind (checked_sub index 1) (v_era_for_session v)));
          apr = AnnualPercentageRate s;
          multiplier = calculate_warehouse_capacity_multiplier D v s;
          new_rate = (if energy_sale \<noteq> 0
                      then calculate_exchange_rate energy_sale stake duration apr multiplier else None);
          old_rate = ExchangeRate s;
          smooth_factor = ExchangeRateSmoothFactor s;
          s1 = s\<lparr>ExchangeRateParams := \<lparr>xp_energy_sale = energy_sale, xp_total_stake = stake,
                   xp_duration = duration, xp_apr = apr, xp_multiplier = multiplier,
                   xp_new_rate = new_rate, xp_old_rate = old_rate, xp_smooth_factor = smooth_factor\<rparr>\<rparr>
      in case new_rate of
           None \<Rightarrow> s1
         | Some new \<Rightarrow>
             let rate = smooth_value (d_perbill D) new (unwrap_or 0 old_rate) smooth_factor
             in dyn_deposit (ExchangeRateUpdated rate) (s1\<lparr>ExchangeRate := Some rate\<rparr>))"

section \<open>Hooks\<close>

definition dyn_on_energy_burn :: "balance \<Rightarrow> dyn_state \<Rightarrow> dyn_state" where
  "dyn_on_energy_burn amount s =
     s\<lparr>dy_SessionEnergyBurn := sat_add 128 (dy_SessionEnergyBurn s) amount\<rparr>"

definition dyn_on_energy_sell :: "balance \<Rightarrow> dyn_state \<Rightarrow> dyn_state" where
  "dyn_on_energy_sell amount s = s\<lparr>SessionEnergySale := sat_add 128 (SessionEnergySale s) amount\<rparr>"

definition dyn_on_new_session :: "dyn_env \<Rightarrow> dyn_view \<Rightarrow> session \<Rightarrow> dyn_state \<Rightarrow> dyn_state" where
  "dyn_on_new_session D v index s =
     (let now = v_now_secs v;
          duration = (if SessionStartTime s \<noteq> 0 then sat_into 32 (now - SessionStartTime s)
                      else d_expected_session_duration D);
          s1 = update_exchange_rate D v index duration (update_generation_rate D index s);
          s2 = s1\<lparr>SessionStartTime := now, dy_SessionEnergyBurn := 0, SessionEnergySale := 0\<rparr>
      in case checked_sub index (add_w 32 (d_sessions_per_era D) 1) of
           Some old_session \<Rightarrow> s2\<lparr>EnergyGeneration := (EnergyGeneration s2)(old_session := None)\<rparr>
         | None \<Rightarrow> s2)"

text \<open>\<open>EraEnergyRateCalculator::calculate\<close>: the energy generated over an era's sessions.\<close>

definition calculate_era_energy :: "dyn_view \<Rightarrow> era \<Rightarrow> dyn_state \<Rightarrow> balance option" where
  "calculate_era_energy v e s =
     map_option (\<lambda>(start, end'). sat_sum 128 (map (\<lambda>i. unwrap_or 0 (EnergyGeneration s i)) [start..<end']))
       (v_session_range v e)"

text \<open>
  \<open>DynamicEnergyConversion\<close> at the rate \<open>r\<close>: \<open>is_energy\<close> is whether the asset is one of the energy
  assets, \<open>None\<close> the error.
\<close>

definition dyn_from_asset_balance :: "fixed \<Rightarrow> bool \<Rightarrow> nat option \<Rightarrow> balance \<Rightarrow> balance option" where
  "dyn_from_asset_balance F is_energy r amount =
     map_option (\<lambda>q. fx_saturating_mul_int F q amount)
       (Option.bind (if is_energy then r else None) (fx_reciprocal F))"

definition dyn_to_asset_balance :: "fixed \<Rightarrow> bool \<Rightarrow> nat option \<Rightarrow> balance \<Rightarrow> balance option" where
  "dyn_to_asset_balance F is_energy r amount =
     map_option (\<lambda>q. fx_saturating_mul_int F q amount) (if is_energy then r else None)"

section \<open>Properties\<close>

lemma mul_all_eq:
  "mul_all a [x, y, z] = (if a * x < 2 ^ 256 \<and> a * x * y < 2 ^ 256 \<and> a * x * y * z < 2 ^ 256
     then Some (a * x * y * z) else None)"
  by (auto simp: mul_all_def checked_mul_def le_max_w_iff Option.bind_def)

text \<open>
  The exchange rate is the exact quotient, rounded down, of the yearly energy sale by the yearly reward
  on the stake weighted with the warehouse multiplier, whenever numerator and denominator fit 256 bits:
  it fails exactly when the denominator is zero or the rate does not fit 128 bits.
\<close>

theorem exchange_rate_exact:
  assumes n: "n = energy_sale * 1000 * SECONDS_IN_YEAR * fixed_div * fixed_div" "n < 2 ^ 256"
    and d: "d = stake * apr * duration * multiplier" "d < 2 ^ 256"
    and b: "stake < 2 ^ 128" "apr < 2 ^ 32" "duration < 2 ^ 32"
  shows "calculate_exchange_rate energy_sale stake duration apr multiplier =
    (if d = 0 \<or> 2 ^ 128 \<le> n div d then None else Some (n div d))"
proof -
  have pos: "0 < SECONDS_IN_YEAR" by (simp add: SECONDS_IN_YEAR_def)
  have le: "energy_sale * 1000 \<le> n" "energy_sale * 1000 * SECONDS_IN_YEAR \<le> n"
    "energy_sale * 1000 * SECONDS_IN_YEAR * fixed_div \<le> n"
    unfolding n(1) using pos by simp_all
  have m: "mul_all energy_sale [1000, SECONDS_IN_YEAR, fixed_div] =
      Some (energy_sale * 1000 * SECONDS_IN_YEAR * fixed_div)"
    unfolding mul_all_eq using le [THEN order.strict_trans1, OF n(2)] by (simp only: simp_thms if_True)
  have sa: "stake * apr \<le> 2 ^ 128 * 2 ^ 32" by (rule mult_le_mono) (use b in simp_all)
  have sad: "stake * apr * duration \<le> 2 ^ 128 * 2 ^ 32 * 2 ^ 32"
    by (rule mult_le_mono [OF sa]) (use b in simp)
  have k: "mul_all stake [apr, duration, multiplier] = Some d"
    unfolding mul_all_eq using sa sad d by simp
  have q: "checked_mul 256 (energy_sale * 1000 * SECONDS_IN_YEAR * fixed_div) fixed_div = Some n"
    using n unfolding checked_mul_Some le_max_w_iff by simp
  show ?thesis
    unfolding calculate_exchange_rate_def m k Option.bind.simps q
    by (auto simp: checked_div_def try_into_def le_max_w_iff)
qed

theorem exchange_rate_exact_witness:
  "calculate_exchange_rate (10 ^ 18) (10 ^ 24) 14400 100 (10 ^ 18) =
     Some (10 ^ 18 * 1000 * SECONDS_IN_YEAR * fixed_div * fixed_div div (10 ^ 24 * 100 * 14400 * 10 ^ 18))"
  using exchange_rate_exact [OF refl _ refl, where energy_sale = "10 ^ 18" and stake = "10 ^ 24" and apr = 100
      and duration = 14400 and multiplier = "10 ^ 18"]
  by (simp add: SECONDS_IN_YEAR_def)

lemma smooth_upper:
  fixes one w v p M :: nat
  assumes "0 < one" "w \<le> one" "v \<le> M" "p \<le> M"
  shows "ceil_div (w * v) one + ceil_div ((one - w) * p) one \<le> M + 1"
proof -
  define x where "x = ceil_div (w * v) one"
  define y where "y = ceil_div ((one - w) * p) one"
  have c: "ceil_div a one * one \<le> a + (one - 1)" for a
    unfolding ceil_div_def by (rule div_times_less_eq_dividend)
  have "w * v + (one - w) * p \<le> w * M + (one - w) * M" by (intro add_mono mult_le_mono2 assms)
  also have "\<dots> = one * M" using assms(2) by (simp add: add_mult_distrib [symmetric])
  finally have "x * one + y * one \<le> one * M + (one - 1) + (one - 1)"
    using c [of "w * v"] c [of "(one - w) * p"] by (simp add: x_def y_def)
  then have "(x + y) * one < (M + 2) * one" using assms(1) by (simp add: algebra_simps)
  then have "x + y < M + 2" by (metis mult_less_cancel2)
  then show ?thesis by (simp add: x_def y_def)
qed

lemma smooth_lower:
  fixes one w v p M :: nat
  assumes "0 < one" "w \<le> one" "M \<le> v" "M \<le> p"
  shows "M \<le> w * v div one + (one - w) * p div one + 1"
proof -
  have f: "a < (a div one + 1) * one" for a
    using assms(1) by (simp add: add.commute dividend_less_div_times)
  have "one * M = w * M + (one - w) * M" using assms(2) by (simp add: add_mult_distrib [symmetric])
  also have "\<dots> \<le> w * v + (one - w) * p" by (intro add_mono mult_le_mono2 assms)
  also have "\<dots> < (w * v div one + 1) * one + ((one - w) * p div one + 1) * one"
    using f [of "w * v"] f [of "(one - w) * p"] by (rule add_strict_mono)
  finally have "M * one < (w * v div one + (one - w) * p div one + 2) * one"
    by (simp add: algebra_simps)
  then have "M < w * v div one + (one - w) * p div one + 2" by (metis mult_less_cancel2)
  then show ?thesis by simp
qed

text \<open>
  Smoothing stays between the old and the new value, up to one unit of rounding, and with the factor 1
  it is the new value.
\<close>

theorem smooth_value_between:
  assumes P: "perthing_ok perbill_one P" and "new < max_w 128" "old < max_w 128"
  shows "smooth_value P new old f \<le> max new old + 1 \<and> min new old \<le> smooth_value P new old f + 1 \<and>
    smooth_value P new old 1 = new"
proof -
  let ?w = "pt_from_rational P 2 (sat_add 32 f 1)"
  have w: "?w \<le> perbill_one" by (rule perthing_okD(2) [OF P])
  have up: "pt_mul P r x \<le> ceil_div (r * x) perbill_one" "r * x div perbill_one \<le> pt_mul P r x"
    if "r \<le> perbill_one" for r x using perthing_okD(7,8) [OF P that] by blast+
  have w': "perbill_one - ?w \<le> perbill_one" by simp
  have hi: "pt_mul P ?w new + pt_mul P (perbill_one - ?w) old \<le> max new old + 1"
    by (rule order_trans [OF add_mono [OF up(1) [OF w] up(1) [OF w']] smooth_upper]) (use w in simp_all)
  have lo: "min new old \<le> pt_mul P ?w new + pt_mul P (perbill_one - ?w) old + 1"
    by (rule order_trans [OF smooth_lower [OF _ w, where v = new and p = old] add_right_mono [OF add_mono [OF up(2) [OF w] up(2) [OF w']]]])
      simp_all
  have eq: "smooth_value P new old f = pt_mul P ?w new + pt_mul P (perbill_one - ?w) old"
    unfolding smooth_value_def Let_def
    by (rule sat_add_eq) (use hi assms(2,3) in \<open>auto simp: max_def split: if_splits\<close>)
  have "pt_from_rational P 2 (sat_add 32 1 1) = perbill_one"
    by (rule perthing_okD(3) [OF P]) (simp add: sat_add_def)
  then have one: "smooth_value P new old 1 = new"
    using perthing_okD(6) [OF P, of 0 old] perthing_okD(7) [OF P, of 0 old] pt_mul_one(1) [OF P, of new] assms(2)
    by (simp add: smooth_value_def ceil_div_def)
  show ?thesis using hi lo one unfolding eq by simp
qed

theorem smooth_value_between_witness:
  "smooth_value (perthing_ref perbill_one) 1000 200 7 \<le> 1001"
  using smooth_value_between [OF perthing_ref_ok, where new = 1000 and old = 200 and f = 7] by (simp add: max_w_def)

text \<open>
  After a session change the generation of the new session and of the \<open>SessionsPerEra\<close> sessions
  before it is stored and nothing else, and the stored values of those earlier sessions are unchanged;
  the burn and sale counters start again at zero.
\<close>

theorem energy_generation_window:
  assumes "n = d_sessions_per_era D" "n + 1 < 2 ^ 32"
    and "dom (EnergyGeneration s) = {i. i < index \<and> index \<le> i + n + 1}"
    and "s' = dyn_on_new_session D v index s"
  shows "dom (EnergyGeneration s') = {i. i < Suc index \<and> Suc index \<le> i + n + 1} \<and>
    (\<forall>i. i < index \<longrightarrow> index \<le> i + n \<longrightarrow> EnergyGeneration s' i = EnergyGeneration s i) \<and>
    dy_SessionEnergyBurn s' = 0 \<and> SessionEnergySale s' = 0"
proof -
  have g: "EnergyGeneration (update_exchange_rate D v index d t) = EnergyGeneration t" for d t
    by (simp add: update_exchange_rate_def Let_def dyn_deposit_def split: option.splits)
  obtain r where r: "EnergyGeneration (update_generation_rate D index s) = (EnergyGeneration s)(index \<mapsto> r)"
    by (simp add: update_generation_rate_def Let_def)
  have n: "add_w 32 (d_sessions_per_era D) (Suc 0) = n + 1" using assms(1,2) by (simp add: add_w_eq)
  have e: "EnergyGeneration s' = (if n + 1 \<le> index
      then (EnergyGeneration s)(index \<mapsto> r, index - (n + 1) := None) else (EnergyGeneration s)(index \<mapsto> r))"
    by (auto simp: assms(4) dyn_on_new_session_def Let_def n g r checked_sub_def)
  have "dom (EnergyGeneration s') = {i. i < Suc index \<and> Suc index \<le> i + n + 1}"
    using assms(3) unfolding e by auto
  moreover have "EnergyGeneration s' i = EnergyGeneration s i" if "i < index" "index \<le> i + n" for i
    using that unfolding e by auto
  moreover have "dy_SessionEnergyBurn s' = 0" "SessionEnergySale s' = 0"
    by (simp_all add: assms(4) dyn_on_new_session_def Let_def split: option.splits)
  ultimately show ?thesis by blast
qed

definition demo_dyn :: dyn_state where
  "demo_dyn = \<lparr>EnergyBurnOverride = None, EnergySaleOverride = None, TotalStakeOverride = None,
     AnnualPercentageRate = 100, MultiplierCoefficients = (0, 0, 0, int fixed_div),
     GenerationRateSmoothFactor = 1, ExchangeRateSmoothFactor = 1,
     GenerationRateParams = \<lparr>gp_energy_burn = 0, gp_new_rate = None, gp_old_rate = None, gp_smooth_factor = 1\<rparr>,
     ExchangeRateParams = \<lparr>xp_energy_sale = 0, xp_total_stake = 0, xp_duration = 0, xp_apr = 0,
       xp_multiplier = 0, xp_new_rate = None, xp_old_rate = None, xp_smooth_factor = 1\<rparr>,
     ExchangeRate = Some (2 * fixed_div), SessionStartTime = 0, dy_SessionEnergyBurn = 0,
     SessionEnergySale = 0, EnergyGeneration = Map.empty, MinimumEnergyGeneration = None, dy_events = []\<rparr>"

definition demo_dyn_env :: dyn_env where
  "demo_dyn_env = \<lparr>d_perbill = perthing_ref perbill_one, d_fixed = fixed_ref 128 fixed_div,
     d_fixed_i = \<lparr>fi_from_perbill = (\<lambda>p. int p * 1000000000), fi_from_int = (\<lambda>x. x * int fixed_div),
       fi_mul = (\<lambda>x y. x * y div int fixed_div), fi_add = (+), fi_pow = (\<lambda>x n. x ^ n div int fixed_div ^ (n - 1))\<rparr>,
     d_manage_origin = (\<lambda>og. og = Root), d_sessions_per_era = 2, d_expected_session_duration = 60\<rparr>"

definition demo_view :: dyn_view where
  "demo_view = \<lparr>v_now_secs = 1000, v_warehouse_amount = 500, v_warehouse_capacity = 1000,
     v_era_for_session = (\<lambda>_. None), v_session_range = (\<lambda>_. None), v_total_stake = (\<lambda>_. 0)\<rparr>"

theorem energy_generation_window_witness:
  "dom (EnergyGeneration (dyn_on_new_session demo_dyn_env demo_view 5
     (demo_dyn\<lparr>EnergyGeneration := [2 \<mapsto> 10, 3 \<mapsto> 20, 4 \<mapsto> 30]\<rparr>))) = {i. i < 6 \<and> 6 \<le> i + 3}"
proof -
  have "dom (EnergyGeneration (demo_dyn\<lparr>EnergyGeneration := [2 \<mapsto> 10, 3 \<mapsto> 20, 4 \<mapsto> 30]\<rparr>)) = {i. i < 5 \<and> 5 \<le> i + 2 + 1}"
    by auto
  from energy_generation_window [of 2 demo_dyn_env, OF _ _ this refl] show ?thesis
    by (simp add: demo_dyn_env_def)
qed

text \<open>Converting native currency to energy and back at the same rate never gains: the two roundings are
  against the account.
\<close>

theorem conversion_no_gain:
  assumes "fixed_ok 128 fixed_div F" "dyn_to_asset_balance F True rate x = Some y"
    "dyn_from_asset_balance F True rate y = Some z"
  shows "z \<le> x"
proof -
  obtain r where r: "rate = Some r" "y = min (r * x div fixed_div) (max_w 128)"
    using assms(2) by (auto simp: dyn_to_asset_balance_def fixed_okD(1) [OF assms(1)])
  obtain q where q: "fx_reciprocal F r = Some q" "z = min (q * y div fixed_div) (max_w 128)"
    using assms(3) by (auto simp: dyn_from_asset_balance_def r fixed_okD(1) [OF assms(1)] Option.bind_eq_Some_conv)
  have "y * fixed_div \<le> r * x div fixed_div * fixed_div"
    unfolding r(2) by (rule mult_le_mono1 [OF min.cobounded1])
  then have y: "y * fixed_div \<le> r * x" using div_times_less_eq_dividend by (rule order_trans)
  have "q * y * fixed_div \<le> q * r * x" using mult_le_mono2 [OF y, of q] by (simp add: mult.assoc)
  also have "\<dots> \<le> fixed_div * fixed_div * x"
    by (rule mult_le_mono1 [OF fixed_okD(5) [OF assms(1) q(1)]])
  finally have "q * y \<le> fixed_div * x" by simp
  then have "q * y div fixed_div \<le> x" by (simp add: div_le_mono [THEN order_trans])
  then show ?thesis using q(2) by simp
qed

theorem conversion_no_gain_witness:
  "\<exists>y z. dyn_to_asset_balance (fixed_ref 128 fixed_div) True (Some (3 * fixed_div)) 7 = Some y \<and>
     dyn_from_asset_balance (fixed_ref 128 fixed_div) True (Some (3 * fixed_div)) y = Some z \<and> z \<le> 7"
proof -
  let ?F = "fixed_ref 128 fixed_div"
  obtain y where y: "dyn_to_asset_balance ?F True (Some (3 * fixed_div)) 7 = Some y"
    by (simp add: dyn_to_asset_balance_def)
  obtain z where z: "dyn_from_asset_balance ?F True (Some (3 * fixed_div)) y = Some z"
    by (simp add: dyn_from_asset_balance_def fixed_ref_def max_w_def)
  show ?thesis using y z conversion_no_gain [OF fixed_ref_ok y z] by blast
qed

end
