(* ===== verification/EnergyBroker.thy ===== *)
theory EnergyBroker
  imports DynamicEnergy
begin

text \<open>
  The pallet \<open>pallets/energy-broker\<close>: swaps between native currency and energy at the rates of a tuple
  of asset converters (\<open>converter.rs\<close>; the runtime's five converters are in
  \<open>runtime/vitreus/src/lib.rs\<close>), the fee, and the capacity of the energy warehouse. The exchange
  traits of \<open>runtime/common/src/exchange.rs\<close> are thin wrappers and modelled here too.

  The fungible assets are a world of type \<open>'x\<close>; their operations are the \<open>bx_\<close> fields of the
  parameter \<open>B\<close>. A credit or debt is its amount. \<open>OnEnergySell\<close> of the runtime is the dynamic-energy
  pallet, whose state is a field of the broker's.
\<close>

section \<open>Data\<close>

datatype asset_kind = Native | WithId nat

definition VNRG :: nat where "VNRG = 0"
definition SNRG :: nat where "SNRG = 1"
definition LNRG :: nat where "LNRG = 2"

type_synonym path = "asset_kind \<times> asset_kind"

datatype broker_error =
  BrokerOverflow | ZeroAmount | BelowMinimum | InsufficientLiquidity
| ProvidedMinimumNotSufficientForSwap | ProvidedMaximumNotSufficientForSwap | InvalidPath

datatype broker_event =
  LiquidityAdded account asset_kind balance
| SwapExecuted account account path balance balance
| BrokerEnergyBurned balance
| EnergyCapacityForceSet "balance option"
| EnergyCapacityUpdated balance

record 'x broker =
  EnergyCapacity :: balance
  EnergyCapacityOverride :: "balance option"
  br_SessionEnergyBurn :: balance
  EnergyBurn :: "session \<rightharpoonup> balance"
  TotalEnergyBurn :: balance
  br_events :: "broker_event list"
  br_dyn :: dyn_state
  br_ext :: 'x

record 'x broker_env =
  b_manage_origin :: "origin \<Rightarrow> bool"
  b_account :: account
  b_feeless :: "account \<Rightarrow> bool"
  b_swap_fee :: nat
  b_burned_sessions :: nat
  b_fixed :: fixed
  bx_lookup :: "'x \<Rightarrow> account \<Rightarrow> account option"
  bx_balance :: "'x \<Rightarrow> asset_kind \<Rightarrow> account \<Rightarrow> balance"
  bx_reducible :: "'x \<Rightarrow> asset_kind \<Rightarrow> account \<Rightarrow> bool \<Rightarrow> balance"
  bx_withdraw :: "asset_kind \<Rightarrow> account \<Rightarrow> balance \<Rightarrow> bool \<Rightarrow> 'x \<Rightarrow> string + 'x"
  bx_resolve :: "asset_kind \<Rightarrow> account \<Rightarrow> balance \<Rightarrow> 'x \<Rightarrow> 'x option"
  bx_issue :: "asset_kind \<Rightarrow> balance \<Rightarrow> 'x \<Rightarrow> 'x"
  bx_drop_credit :: "asset_kind \<Rightarrow> balance \<Rightarrow> 'x \<Rightarrow> 'x"
  bx_deposit :: "asset_kind \<Rightarrow> account \<Rightarrow> balance \<Rightarrow> 'x \<Rightarrow> 'x option"
  bx_drop_debt :: "asset_kind \<Rightarrow> balance \<Rightarrow> 'x \<Rightarrow> 'x"
  bx_transfer :: "asset_kind \<Rightarrow> account \<Rightarrow> account \<Rightarrow> balance \<Rightarrow> bool \<Rightarrow> 'x \<Rightarrow> string + 'x"
  bx_burn_from :: "asset_kind \<Rightarrow> account \<Rightarrow> balance \<Rightarrow> 'x \<Rightarrow> ('x \<times> balance) option"
  bx_fee_target :: "asset_kind \<Rightarrow> balance \<Rightarrow> 'x \<Rightarrow> 'x"
  bx_rate_from :: "'x \<Rightarrow> nat \<Rightarrow> balance \<Rightarrow> balance option"
  bx_rate_to :: "'x \<Rightarrow> nat \<Rightarrow> balance \<Rightarrow> balance option"

type_synonym 'x broker_call = "broker_error dispatch_error + 'x broker"

definition br_deposit :: "broker_event \<Rightarrow> 'x broker \<Rightarrow> 'x broker" where
  "br_deposit e s = s\<lparr>br_events := br_events s @ [e]\<rparr>"

definition broker_genesis :: "balance \<Rightarrow> 'x broker \<Rightarrow> 'x broker" where
  "broker_genesis energy_capacity s =
     s\<lparr>EnergyCapacity := energy_capacity, EnergyCapacityOverride := Some energy_capacity\<rparr>"

section \<open>Converters\<close>

text \<open>
  \<open>FixedPathAssetConverter\<close>, with the world of the assets as the state of \<open>withdraw\<close> and \<open>resolve\<close>.
  An error of \<open>resolve\<close> returns the credit, which the broker drops with its own error.
\<close>

record 'x converter =
  fp_source :: asset_kind
  fp_target :: asset_kind
  fp_swap_fee :: "nat option"
  fp_amount_out :: "balance \<Rightarrow> balance option"
  fp_amount_in :: "balance \<Rightarrow> balance option"
  fp_withdraw :: "account \<Rightarrow> balance \<Rightarrow> 'x \<Rightarrow> string + 'x"
  fp_resolve :: "account \<Rightarrow> balance \<Rightarrow> 'x \<Rightarrow> 'x option"

definition fp_path :: "'x converter \<Rightarrow> path" where
  "fp_path c = (fp_source c, fp_target c)"

text \<open>The methods of the tuple \<open>AssetConverter\<close>: the first converter with the path.\<close>

definition conv_paths :: "'x converter list \<Rightarrow> path list" where
  "conv_paths cs = map fp_path cs"

definition conv_find :: "'x converter list \<Rightarrow> path \<Rightarrow> 'x converter option" where
  "conv_find cs p = find (\<lambda>c. p = fp_path c) cs"

definition conv_swap_fee :: "'x converter list \<Rightarrow> path \<Rightarrow> nat option" where
  "conv_swap_fee cs p = (case conv_find cs p of None \<Rightarrow> None | Some c \<Rightarrow> fp_swap_fee c)"

definition conv_amount_out :: "'x converter list \<Rightarrow> path \<Rightarrow> balance \<Rightarrow> balance option" where
  "conv_amount_out cs p a = (case conv_find cs p of None \<Rightarrow> None | Some c \<Rightarrow> fp_amount_out c a)"

definition conv_amount_in :: "'x converter list \<Rightarrow> path \<Rightarrow> balance \<Rightarrow> balance option" where
  "conv_amount_in cs p a = (case conv_find cs p of None \<Rightarrow> None | Some c \<Rightarrow> fp_amount_in c a)"

definition conv_withdraw :: "'x converter list \<Rightarrow> path \<Rightarrow> account \<Rightarrow> balance \<Rightarrow> 'x \<Rightarrow> string + 'x" where
  "conv_withdraw cs p broker v x =
     (case conv_find cs p of None \<Rightarrow> Inl ''UnknownAsset'' | Some c \<Rightarrow> fp_withdraw c broker v x)"

definition conv_resolve :: "'x converter list \<Rightarrow> path \<Rightarrow> account \<Rightarrow> balance \<Rightarrow> 'x \<Rightarrow> 'x option" where
  "conv_resolve cs p broker v x =
     (case conv_find cs p of None \<Rightarrow> None | Some c \<Rightarrow> fp_resolve c broker v x)"

text \<open>The trait's default methods.\<close>

definition default_withdraw ::
  "'x broker_env \<Rightarrow> asset_kind \<Rightarrow> account \<Rightarrow> balance \<Rightarrow> 'x \<Rightarrow> string + 'x" where
  "default_withdraw B target broker v x = bx_withdraw B target broker v True x"

definition default_resolve ::
  "'x broker_env \<Rightarrow> asset_kind \<Rightarrow> account \<Rightarrow> balance \<Rightarrow> 'x \<Rightarrow> 'x option" where
  "default_resolve B source broker v x = bx_resolve B source broker v x"

text \<open>The runtime's converters, in the order of its tuple; \<open>r\<close> is the dynamic exchange rate.\<close>

definition native_to_energy :: "'x broker_env \<Rightarrow> nat option \<Rightarrow> 'x converter" where
  "native_to_energy B r =
     \<lparr>fp_source = Native, fp_target = WithId VNRG, fp_swap_fee = None,
      fp_amount_out = dyn_to_asset_balance (b_fixed B) True r,
      fp_amount_in = dyn_from_asset_balance (b_fixed B) True r,
      fp_withdraw = default_withdraw B (WithId VNRG), fp_resolve = default_resolve B Native\<rparr>"

definition liquid_to_native :: "'x broker_env \<Rightarrow> nat option \<Rightarrow> 'x converter" where
  "liquid_to_native B r =
     \<lparr>fp_source = WithId LNRG, fp_target = Native, fp_swap_fee = None,
      fp_amount_out = dyn_from_asset_balance (b_fixed B) True r,
      fp_amount_in = dyn_to_asset_balance (b_fixed B) True r,
      fp_withdraw = default_withdraw B Native,
      fp_resolve = (\<lambda>broker v x. map_option (\<lambda>x1. bx_drop_debt B (WithId VNRG) v (bx_drop_credit B (WithId LNRG) v x1))
                                   (bx_deposit B (WithId VNRG) broker v x))\<rparr>"

definition static_to_native :: "'x broker_env \<Rightarrow> 'x \<Rightarrow> 'x converter" where
  "static_to_native B world =
     \<lparr>fp_source = WithId SNRG, fp_target = Native, fp_swap_fee = None,
      fp_amount_out = bx_rate_from B world SNRG, fp_amount_in = bx_rate_to B world SNRG,
      fp_withdraw = default_withdraw B Native,
      fp_resolve = (\<lambda>_ v x. Some (bx_drop_credit B (WithId SNRG) v x))\<rparr>"

definition liquid_to_energy :: "'x broker_env \<Rightarrow> 'x converter" where
  "liquid_to_energy B =
     \<lparr>fp_source = WithId LNRG, fp_target = WithId VNRG, fp_swap_fee = Some 0,
      fp_amount_out = Some, fp_amount_in = Some,
      fp_withdraw = (\<lambda>_ v x. Inr (bx_issue B (WithId VNRG) v x)),
      fp_resolve = (\<lambda>_ v x. Some (bx_drop_credit B (WithId LNRG) v x))\<rparr>"

definition static_to_energy :: "'x broker_env \<Rightarrow> 'x converter" where
  "static_to_energy B =
     \<lparr>fp_source = WithId SNRG, fp_target = WithId VNRG, fp_swap_fee = Some 0,
      fp_amount_out = Some, fp_amount_in = Some,
      fp_withdraw = (\<lambda>_ v x. Inr (bx_issue B (WithId VNRG) v x)),
      fp_resolve = (\<lambda>_ v x. Some (bx_drop_credit B (WithId SNRG) v x))\<rparr>"

definition runtime_converters :: "'x broker_env \<Rightarrow> nat option \<Rightarrow> 'x \<Rightarrow> 'x converter list" where
  "runtime_converters B r world =
     [native_to_energy B r, liquid_to_native B r, static_to_native B world, liquid_to_energy B,
      static_to_energy B]"

definition converters_of :: "'x broker_env \<Rightarrow> 'x broker \<Rightarrow> 'x converter list" where
  "converters_of B s = runtime_converters B (ExchangeRate (br_dyn s)) (br_ext s)"

section \<open>Amounts\<close>

definition swap_fee :: "'x broker_env \<Rightarrow> 'x broker \<Rightarrow> path \<Rightarrow> nat" where
  "swap_fee B s p = unwrap_or (b_swap_fee B) (conv_swap_fee (converters_of B s) p)"

text \<open>In \<open>U256\<close>; a fee above 1000 would make the subtraction panic.\<close>

definition to_amount_with_fee_deducted :: "balance \<Rightarrow> nat \<Rightarrow> broker_error dispatch_error + balance" where
  "to_amount_with_fee_deducted amount fee =
     (if 1000 < fee then Inl (Extern ''panic'')
      else rbind (ok_or (Module BrokerOverflow) (checked_mul 256 amount (1000 - fee))) (\<lambda>m.
           rbind (ok_or (Module BrokerOverflow) (checked_div m 1000)) (\<lambda>q.
             ok_or (Module BrokerOverflow) (try_into 128 q))))"

definition to_amount_with_fee_included :: "balance \<Rightarrow> nat \<Rightarrow> broker_error dispatch_error + balance" where
  "to_amount_with_fee_included amount fee =
     rbind (ok_or (Module BrokerOverflow) (checked_mul 256 amount 1000)) (\<lambda>m.
       if 1000 < fee then Inl (Extern ''panic'')
       else rbind (ok_or (Module BrokerOverflow) (checked_div m (1000 - fee))) (\<lambda>q.
              ok_or (Module BrokerOverflow) (try_into 128 q)))"

definition get_amount_out ::
  "'x broker_env \<Rightarrow> 'x broker \<Rightarrow> balance \<Rightarrow> path \<Rightarrow> bool
   \<Rightarrow> broker_error dispatch_error + balance \<times> balance" where
  "get_amount_out B s amount_in p include_fee =
     rbind (ensure (0 < amount_in) (Module ZeroAmount)) (\<lambda>_.
     rbind (if include_fee then to_amount_with_fee_deducted amount_in (swap_fee B s p)
            else Inr amount_in) (\<lambda>exchange_in.
       let fee = amount_in - exchange_in
       in rbind (ok_or (Module InvalidPath) (conv_amount_out (converters_of B s) p exchange_in)) (\<lambda>amount_out.
          rbind (ensure (0 < amount_out) (Module ZeroAmount)) (\<lambda>_. Inr (amount_out, fee)))))"

definition get_amount_in ::
  "'x broker_env \<Rightarrow> 'x broker \<Rightarrow> balance \<Rightarrow> path \<Rightarrow> bool
   \<Rightarrow> broker_error dispatch_error + balance \<times> balance" where
  "get_amount_in B s amount_out p include_fee =
     rbind (ensure (0 < amount_out) (Module ZeroAmount)) (\<lambda>_.
     rbind (ok_or (Module InvalidPath) (conv_amount_in (converters_of B s) p amount_out)) (\<lambda>exchange0.
       let exchange_in = max exchange0 1
       in rbind (if include_fee then to_amount_with_fee_included exchange_in (swap_fee B s p)
                 else Inr exchange_in) (\<lambda>amount_in.
            Inr (amount_in, amount_in - exchange_in))))"

definition quote_price_tokens_for_exact_tokens ::
  "'x broker_env \<Rightarrow> 'x broker \<Rightarrow> asset_kind \<Rightarrow> asset_kind \<Rightarrow> balance \<Rightarrow> bool \<Rightarrow> balance option" where
  "quote_price_tokens_for_exact_tokens B s asset1 asset2 amount include_fee =
     (case get_amount_in B s amount (asset1, asset2) include_fee of
        Inr (amount_in, _) \<Rightarrow> Some amount_in | Inl _ \<Rightarrow> None)"

definition quote_price_exact_tokens_for_tokens ::
  "'x broker_env \<Rightarrow> 'x broker \<Rightarrow> asset_kind \<Rightarrow> asset_kind \<Rightarrow> balance \<Rightarrow> bool \<Rightarrow> balance option" where
  "quote_price_exact_tokens_for_tokens B s asset1 asset2 amount include_fee =
     (case get_amount_out B s amount (asset1, asset2) include_fee of
        Inr (amount_out, _) \<Rightarrow> Some amount_out | Inl _ \<Rightarrow> None)"

section \<open>Swaps\<close>

definition burn_surplus_energy :: "'x broker_env \<Rightarrow> account \<Rightarrow> 'x broker \<Rightarrow> 'x broker" where
  "burn_surplus_energy B broker s =
     (let burn_amount = bx_balance B (br_ext s) (WithId VNRG) broker - EnergyCapacity s
      in if 0 < burn_amount
         then case bx_burn_from B (WithId VNRG) broker burn_amount (br_ext s) of
                Some (x, amount) \<Rightarrow> br_deposit (BrokerEnergyBurned amount) (s\<lparr>br_ext := x\<rparr>)
              | None \<Rightarrow> s
         else s)"

text \<open>
  \<open>do_swap\<close>; the callers run it in a storage layer, so an error discards what was moved. The world's
  error strings stand for the errors of the assets.
\<close>

definition do_swap ::
  "'x broker_env \<Rightarrow> account \<Rightarrow> account \<Rightarrow> path \<Rightarrow> balance \<times> balance \<Rightarrow> balance \<Rightarrow> bool
   \<Rightarrow> 'x broker \<Rightarrow> 'x broker_call" where
  "do_swap B sender recipient p amounts fee_part keep_alive s =
     (let asset_in = fst p; (amount_in, amount_out) = amounts; cs = converters_of B s
      in rbind (ensure (keep_alive \<longrightarrow> amount_in \<le> bx_reducible B (br_ext s) asset_in sender True)
                  (Extern ''NotExpendable'')) (\<lambda>_.
         let energy_before_swap = bx_balance B (br_ext s) (WithId VNRG) (b_account B)
         in rbind (map_err Extern (bx_withdraw B asset_in sender amount_in keep_alive (br_ext s))) (\<lambda>x1.
            let x2 = bx_fee_target B asset_in (min fee_part amount_in) x1
            in rbind (ok_or (Module BelowMinimum)
                        (conv_resolve cs p (b_account B) (amount_in - fee_part) x2)) (\<lambda>x3.
               rbind (map_err (\<lambda>_. Module InsufficientLiquidity)
                        (conv_withdraw cs p (b_account B) amount_out x3)) (\<lambda>x4.
               rbind (ok_or (Module BelowMinimum) (bx_resolve B (snd p) recipient amount_out x4)) (\<lambda>x5.
                 let s1 = s\<lparr>br_ext := x5\<rparr>;
                     energy_after_swap = bx_balance B x5 (WithId VNRG) (b_account B)
                 in Inr (if energy_before_swap < energy_after_swap
                         then let s2 = burn_surplus_energy B (b_account B) s1
                              in s2\<lparr>br_dyn := dyn_on_energy_sell (energy_after_swap - energy_before_swap)
                                                 (br_dyn s2)\<rparr>
                         else s1)))))))"

definition do_swap_exact_tokens_for_tokens ::
  "'x broker_env \<Rightarrow> account \<Rightarrow> account \<Rightarrow> path \<Rightarrow> balance \<Rightarrow> balance option \<Rightarrow> bool
   \<Rightarrow> 'x broker \<Rightarrow> broker_error dispatch_error + balance \<times> 'x broker" where
  "do_swap_exact_tokens_for_tokens B sender recipient p amount_in amount_out_min keep_alive s =
     rbind (ensure (amount_out_min \<noteq> Some 0) (Module ZeroAmount)) (\<lambda>_.
     rbind (get_amount_out B s amount_in p (\<not> b_feeless B sender)) (\<lambda>(amount_out, fee).
     rbind (ensure (case amount_out_min of None \<Rightarrow> True | Some m \<Rightarrow> m \<le> amount_out)
              (Module ProvidedMinimumNotSufficientForSwap)) (\<lambda>_.
     rbind (do_swap B sender recipient p (amount_in, amount_out) fee keep_alive s) (\<lambda>s1.
       Inr (amount_out, br_deposit (SwapExecuted sender recipient p amount_in amount_out) s1)))))"

definition do_swap_tokens_for_exact_tokens ::
  "'x broker_env \<Rightarrow> account \<Rightarrow> account \<Rightarrow> path \<Rightarrow> balance \<Rightarrow> balance option \<Rightarrow> bool
   \<Rightarrow> 'x broker \<Rightarrow> broker_error dispatch_error + balance \<times> 'x broker" where
  "do_swap_tokens_for_exact_tokens B sender recipient p amount_out amount_in_max keep_alive s =
     rbind (ensure (amount_in_max \<noteq> Some 0) (Module ZeroAmount)) (\<lambda>_.
     rbind (get_amount_in B s amount_out p (\<not> b_feeless B sender)) (\<lambda>(amount_in, fee).
     rbind (ensure (case amount_in_max of None \<Rightarrow> True | Some m \<Rightarrow> amount_in \<le> m)
              (Module ProvidedMaximumNotSufficientForSwap)) (\<lambda>_.
     rbind (do_swap B sender recipient p (amount_in, amount_out) fee keep_alive s) (\<lambda>s1.
       Inr (amount_in, br_deposit (SwapExecuted sender recipient p amount_in amount_out) s1)))))"

definition swap_exact_tokens_for_tokens ::
  "'x broker_env \<Rightarrow> origin \<Rightarrow> account \<Rightarrow> path \<Rightarrow> balance \<Rightarrow> balance option \<Rightarrow> bool
   \<Rightarrow> 'x broker \<Rightarrow> 'x broker_call" where
  "swap_exact_tokens_for_tokens B og recipient p amount_in amount_out_min keep_alive s =
     rbind (ensure_signed og) (\<lambda>sender.
     rbind (do_swap_exact_tokens_for_tokens B sender recipient p amount_in amount_out_min keep_alive s)
       (\<lambda>(_, s1). Inr s1))"

definition swap_tokens_for_exact_tokens ::
  "'x broker_env \<Rightarrow> origin \<Rightarrow> account \<Rightarrow> path \<Rightarrow> balance \<Rightarrow> balance option \<Rightarrow> bool
   \<Rightarrow> 'x broker \<Rightarrow> 'x broker_call" where
  "swap_tokens_for_exact_tokens B og recipient p amount_out amount_in_max keep_alive s =
     rbind (ensure_signed og) (\<lambda>sender.
     rbind (do_swap_tokens_for_exact_tokens B sender recipient p amount_out amount_in_max keep_alive s)
       (\<lambda>(_, s1). Inr s1))"

definition force_add_liquidity ::
  "'x broker_env \<Rightarrow> origin \<Rightarrow> account \<Rightarrow> asset_kind \<Rightarrow> balance \<Rightarrow> bool \<Rightarrow> 'x broker \<Rightarrow> 'x broker_call" where
  "force_add_liquidity B og source asset amount keep_alive s =
     rbind (ensure (b_manage_origin B og) BadOrigin) (\<lambda>_.
     rbind (ok_or (Extern ''Lookup'') (bx_lookup B (br_ext s) source)) (\<lambda>src.
     rbind (map_err Extern (bx_transfer B asset src (b_account B) amount keep_alive (br_ext s))) (\<lambda>x.
       Inr (br_deposit (LiquidityAdded src asset amount) (s\<lparr>br_ext := x\<rparr>)))))"

definition force_set_capacity ::
  "'x broker_env \<Rightarrow> origin \<Rightarrow> balance option \<Rightarrow> 'x broker \<Rightarrow> 'x broker_call" where
  "force_set_capacity B og amount s =
     rbind (ensure (b_manage_origin B og) BadOrigin) (\<lambda>_.
       Inr (br_deposit (EnergyCapacityForceSet amount) (s\<lparr>EnergyCapacityOverride := amount\<rparr>)))"

text \<open>The \<open>Swap\<close> trait on a path of assets, and \<open>NativeEnergyExchange\<close> over it and \<open>QuotePrice\<close>.\<close>

definition trait_swap_exact_tokens_for_tokens ::
  "'x broker_env \<Rightarrow> account \<Rightarrow> asset_kind list \<Rightarrow> balance \<Rightarrow> balance option \<Rightarrow> account \<Rightarrow> bool
   \<Rightarrow> 'x broker \<Rightarrow> broker_error dispatch_error + balance \<times> 'x broker" where
  "trait_swap_exact_tokens_for_tokens B sender p amount_in amount_out_min send_to keep_alive s =
     (case p of [asset_in, asset_out] \<Rightarrow>
        do_swap_exact_tokens_for_tokens B sender send_to (asset_in, asset_out) amount_in amount_out_min
          keep_alive s
      | _ \<Rightarrow> Inl (Module InvalidPath))"

definition trait_swap_tokens_for_exact_tokens ::
  "'x broker_env \<Rightarrow> account \<Rightarrow> asset_kind list \<Rightarrow> balance \<Rightarrow> balance option \<Rightarrow> account \<Rightarrow> bool
   \<Rightarrow> 'x broker \<Rightarrow> broker_error dispatch_error + balance \<times> 'x broker" where
  "trait_swap_tokens_for_exact_tokens B sender p amount_out amount_in_max send_to keep_alive s =
     (case p of [asset_in, asset_out] \<Rightarrow>
        do_swap_tokens_for_exact_tokens B sender send_to (asset_in, asset_out) amount_out amount_in_max
          keep_alive s
      | _ \<Rightarrow> Inl (Module InvalidPath))"

definition native_for_energy_quote_exact ::
  "'x broker_env \<Rightarrow> 'x broker \<Rightarrow> balance \<Rightarrow> bool \<Rightarrow> balance option" where
  "native_for_energy_quote_exact B s = quote_price_exact_tokens_for_tokens B s Native (WithId VNRG)"

definition native_for_energy_quote ::
  "'x broker_env \<Rightarrow> 'x broker \<Rightarrow> balance \<Rightarrow> bool \<Rightarrow> balance option" where
  "native_for_energy_quote B s = quote_price_tokens_for_exact_tokens B s Native (WithId VNRG)"

definition energy_for_native_quote_exact ::
  "'x broker_env \<Rightarrow> 'x broker \<Rightarrow> balance \<Rightarrow> bool \<Rightarrow> balance option" where
  "energy_for_native_quote_exact B s = quote_price_exact_tokens_for_tokens B s (WithId VNRG) Native"

definition energy_for_native_quote ::
  "'x broker_env \<Rightarrow> 'x broker \<Rightarrow> balance \<Rightarrow> bool \<Rightarrow> balance option" where
  "energy_for_native_quote B s = quote_price_tokens_for_exact_tokens B s (WithId VNRG) Native"

definition native_for_energy_swap_exact ::
  "'x broker_env \<Rightarrow> account \<Rightarrow> balance \<Rightarrow> bool \<Rightarrow> 'x broker
   \<Rightarrow> broker_error dispatch_error + balance \<times> 'x broker" where
  "native_for_energy_swap_exact B who amount_in keep_alive =
     trait_swap_exact_tokens_for_tokens B who [Native, WithId VNRG] amount_in None who keep_alive"

definition native_for_energy_swap ::
  "'x broker_env \<Rightarrow> account \<Rightarrow> balance \<Rightarrow> bool \<Rightarrow> 'x broker
   \<Rightarrow> broker_error dispatch_error + balance \<times> 'x broker" where
  "native_for_energy_swap B who amount_out keep_alive =
     trait_swap_tokens_for_exact_tokens B who [Native, WithId VNRG] amount_out None who keep_alive"

definition energy_for_native_swap_exact ::
  "'x broker_env \<Rightarrow> account \<Rightarrow> balance \<Rightarrow> bool \<Rightarrow> 'x broker
   \<Rightarrow> broker_error dispatch_error + balance \<times> 'x broker" where
  "energy_for_native_swap_exact B who amount_in keep_alive =
     trait_swap_exact_tokens_for_tokens B who [WithId VNRG, Native] amount_in None who keep_alive"

definition energy_for_native_swap ::
  "'x broker_env \<Rightarrow> account \<Rightarrow> balance \<Rightarrow> bool \<Rightarrow> 'x broker
   \<Rightarrow> broker_error dispatch_error + balance \<times> 'x broker" where
  "energy_for_native_swap B who amount_out keep_alive =
     trait_swap_tokens_for_exact_tokens B who [WithId VNRG, Native] amount_out None who keep_alive"

section \<open>Hooks\<close>

definition br_on_energy_burn :: "balance \<Rightarrow> 'x broker \<Rightarrow> 'x broker" where
  "br_on_energy_burn amount s = s\<lparr>br_SessionEnergyBurn := sat_add 128 (br_SessionEnergyBurn s) amount\<rparr>"

text \<open>The two counters of \<open>on_new_session\<close>, then the capacity.\<close>

definition count_session_burn :: "nat \<Rightarrow> session \<Rightarrow> 'x broker \<Rightarrow> 'x broker" where
  "count_session_burn n index s =
     (let burned = br_SessionEnergyBurn s;
          s1 = s\<lparr>br_SessionEnergyBurn := 0\<rparr>;
          s2 = (case checked_sub index 1 of
                  Some i \<Rightarrow> s1\<lparr>EnergyBurn := (EnergyBurn s1)(i \<mapsto> burned),
                              TotalEnergyBurn := sat_add 128 (TotalEnergyBurn s1) burned\<rparr>
                | None \<Rightarrow> s1)
      in case checked_sub index (add_w 32 n 1) of
           None \<Rightarrow> s2
         | Some i \<Rightarrow> (case EnergyBurn s2 i of
               None \<Rightarrow> s2
             | Some old_burned \<Rightarrow>
                 s2\<lparr>EnergyBurn := (EnergyBurn s2)(i := None),
                    TotalEnergyBurn := TotalEnergyBurn s2 - old_burned\<rparr>))"

definition br_on_new_session :: "'x broker_env \<Rightarrow> session \<Rightarrow> 'x broker \<Rightarrow> 'x broker" where
  "br_on_new_session B index s =
     (let s1 = count_session_burn (b_burned_sessions B) index s;
          capacity = unwrap_or (TotalEnergyBurn s1) (EnergyCapacityOverride s1)
      in if capacity \<noteq> 0
         then burn_surplus_energy B (b_account B)
                (br_deposit (EnergyCapacityUpdated capacity) (s1\<lparr>EnergyCapacity := capacity\<rparr>))
         else s1)"

definition current_amount :: "'x broker_env \<Rightarrow> 'x broker \<Rightarrow> balance" where
  "current_amount B s = bx_balance B (br_ext s) (WithId VNRG) (b_account B)"

definition max_capacity :: "'x broker \<Rightarrow> balance" where
  "max_capacity s = EnergyCapacity s"

end
