(* ===== verification/BrokerProps.thy ===== *)
theory BrokerProps
  imports EnergyBroker
begin

text \<open>
  Properties of the energy broker: the tuple of converters as a lookup table, the fee arithmetic, the
  window of burned energy, the movements of a swap, and the exchange traits over the runtime's paths.
\<close>

section \<open>The converter tuple\<close>

text \<open>A tuple of converters works as a lookup table when no two of them have the same path.\<close>

locale converter_tuple =
  fixes cs :: "'x converter list"
  assumes distinct_paths: "distinct (conv_paths cs)"
begin

lemma find_member: "c \<in> set cs \<Longrightarrow> conv_find cs (fp_path c) = Some c"
proof -
  have "find (\<lambda>d. fp_path c = fp_path d) ds = Some c" if "c \<in> set ds" "distinct (map fp_path ds)" for ds
    using that by (induction ds) (auto simp: image_iff)
  then show "c \<in> set cs \<Longrightarrow> conv_find cs (fp_path c) = Some c"
    using distinct_paths by (simp add: conv_find_def conv_paths_def)
qed

lemma find_none: "p \<notin> set (conv_paths cs) \<Longrightarrow> conv_find cs p = None"
  by (auto simp: conv_find_def conv_paths_def find_None_iff)

lemma member_methods:
  assumes "c \<in> set cs" "fp_path c = p"
  shows "conv_amount_out cs p v = fp_amount_out c v" "conv_amount_in cs p v = fp_amount_in c v"
    "conv_swap_fee cs p = fp_swap_fee c" "conv_withdraw cs p a v x = fp_withdraw c a v x"
    "conv_resolve cs p a v x = fp_resolve c a v x"
  using find_member [OF assms(1)] assms(2)
  by (simp_all add: conv_amount_out_def conv_amount_in_def conv_swap_fee_def conv_withdraw_def conv_resolve_def)

lemma other_paths:
  assumes "p \<notin> set (conv_paths cs)"
  shows "conv_amount_out cs p v = None" "conv_amount_in cs p v = None" "conv_swap_fee cs p = None"
    "conv_resolve cs p a v x = None"
  using find_none [OF assms]
  by (simp_all add: conv_amount_out_def conv_amount_in_def conv_swap_fee_def conv_resolve_def)

end

lemmas converter_defs = native_to_energy_def liquid_to_native_def static_to_native_def liquid_to_energy_def
  static_to_energy_def

interpretation rt: converter_tuple "runtime_converters B r w"
  for B :: "'x broker_env" and r :: "nat option" and w :: 'x
  by unfold_locales
    (simp add: conv_paths_def runtime_converters_def fp_path_def converter_defs VNRG_def SNRG_def LNRG_def)

lemma runtime_paths:
  "set (conv_paths (runtime_converters B r w)) =
     {(Native, WithId VNRG), (WithId LNRG, Native), (WithId SNRG, Native), (WithId LNRG, WithId VNRG),
      (WithId SNRG, WithId VNRG)}"
  by (auto simp: conv_paths_def runtime_converters_def fp_path_def converter_defs)

lemma runtime_native_to_energy:
  "native_to_energy B r \<in> set (runtime_converters B r w)"
  "fp_path (native_to_energy B r) = (Native, WithId VNRG)"
  by (simp_all add: runtime_converters_def fp_path_def native_to_energy_def)

lemmas buy_energy = rt.member_methods [OF runtime_native_to_energy]

section \<open>Fees\<close>

text \<open>
  Including the fee and deducting it again loses at most one unit and never gains: what arrives after
  the fee of the included amount is the amount asked for or one less.
\<close>

theorem fee_roundtrip:
  assumes "f < 1000" "x < 2 ^ 128" "to_amount_with_fee_included x f = Inr a"
  shows "\<exists>b. to_amount_with_fee_deducted a f = Inr b \<and> b \<le> x \<and> x \<le> b + 1"
proof -
  define k where "k = 1000 - f"
  have k: "0 < k" "k \<le> 1000" using assms(1) by (simp_all add: k_def)
  have "x * 1000 < 2 ^ 256" using assms(2) by simp
  then have m: "checked_mul 256 x 1000 = Some (x * 1000)" by (simp add: le_max_w_iff)
  have a: "a = x * 1000 div k" "a \<le> max_w 128"
    using assms(3) k by (auto simp: to_amount_with_fee_included_def m k_def [symmetric] res_simps split: if_splits)
  have up: "a * k \<le> x * 1000" unfolding a(1) by (rule div_times_less_eq_dividend)
  have lo: "x * 1000 < a * k + k"
    unfolding a(1) using dividend_less_div_times [OF k(1), of "x * 1000"] by (simp add: add.commute)
  have "a * k < 2 ^ 256"
    using up \<open>x * 1000 < 2 ^ 256\<close> by (rule order.strict_trans1)
  then have m': "checked_mul 256 a k = Some (a * k)" by (simp add: le_max_w_iff)
  have b: "a * k div 1000 \<le> x" using up by (simp add: div_le_mono [THEN order_trans])
  have "to_amount_with_fee_deducted a f = Inr (a * k div 1000)"
    unfolding to_amount_with_fee_deducted_def k_def [symmetric] m'
    using assms(1,2) b by (simp add: checked_div_def try_into_def le_max_w_iff)
  moreover have "x \<le> a * k div 1000 + 1"
  proof -
    have "x * 1000 \<le> a * k + 1000" using lo k(2) by linarith
    then have "x * 1000 div 1000 \<le> (a * k + 1000) div 1000" by (rule div_le_mono)
    then show ?thesis by simp
  qed
  ultimately show ?thesis using b by blast
qed

theorem fee_roundtrip_witness:
  "to_amount_with_fee_included 12345 10 = Inr 12469 \<and>
   (\<exists>b. to_amount_with_fee_deducted 12469 10 = Inr b \<and> b \<le> 12345 \<and> 12345 \<le> b + 1)"
proof -
  have "to_amount_with_fee_included 12345 10 = Inr 12469"
    by (simp add: to_amount_with_fee_included_def checked_mul_def checked_div_def try_into_def max_w_def)
  then show ?thesis using fee_roundtrip [of 10 12345 12469] by simp
qed

section \<open>Burned energy\<close>

definition burn_window :: "nat \<Rightarrow> session \<Rightarrow> 'x broker \<Rightarrow> bool" where
  "burn_window n index s \<longleftrightarrow> dom (EnergyBurn s) \<subseteq> {i. i < index \<and> index \<le> i + n} \<and>
     TotalEnergyBurn s = (\<Sum>i \<in> dom (EnergyBurn s). the (EnergyBurn s i))"

lemma burn_window_finite: "burn_window n index s \<Longrightarrow> finite (dom (EnergyBurn s))"
  by (rule finite_subset [of _ "{..<index}"]) (auto simp: burn_window_def)

text \<open>C30.
  The total of the burned energy is the sum over the last \<open>BurnedEnergySessionsCount\<close> sessions: every
  session change in order adds the session that ended, drops the one that left the window, and keeps
  the total exact.
\<close>

theorem burn_total_is_window_sum:
  assumes w: "burn_window n index s" and n: "0 < n" "n + 1 < 2 ^ 32"
    and fit: "TotalEnergyBurn s + br_SessionEnergyBurn s \<le> max_w 128"
  shows "burn_window n (index + 1) (count_session_burn n (index + 1) s) \<and>
    EnergyBurn (count_session_burn n (index + 1) s) index = Some (br_SessionEnergyBurn s) \<and>
    br_SessionEnergyBurn (count_session_burn n (index + 1) s) = 0"
proof -
  let ?b = "br_SessionEnergyBurn s"
  let ?D = "dom (EnergyBurn s)"
  define m where "m = (EnergyBurn s)(index \<mapsto> ?b)"
  define s2 where "s2 = s\<lparr>br_SessionEnergyBurn := 0, EnergyBurn := m, TotalEnergyBurn := TotalEnergyBurn s + ?b\<rparr>"
  have fin: "finite ?D" by (rule burn_window_finite [OF w])
  have new: "index \<notin> ?D" using w by (auto simp: burn_window_def)
  have dm: "dom m = insert index ?D" by (auto simp: m_def)
  have tot: "TotalEnergyBurn s + ?b = (\<Sum>i \<in> dom m. the (m i))"
  proof -
    have "(\<Sum>i \<in> ?D. the (m i)) = (\<Sum>i \<in> ?D. the (EnergyBurn s i))"
      by (rule sum.cong) (use new in \<open>auto simp: m_def\<close>)
    then show ?thesis using w fin new by (simp add: dm burn_window_def m_def)
  qed
  have n1: "add_w 32 n (Suc 0) = n + 1" using n(2) by (simp add: add_w_eq)
  have c: "count_session_burn n (index + 1) s =
      (if n \<le> index then case m (index - n) of None \<Rightarrow> s2
         | Some v \<Rightarrow> s2\<lparr>EnergyBurn := m(index - n := None), TotalEnergyBurn := TotalEnergyBurn s + ?b - v\<rparr> else s2)"
    using fit n(1) new by (cases "m (index - n)")
      (auto simp: count_session_burn_def Let_def s2_def m_def n1 checked_sub_def sat_add_eq)
  have keep: "m index = Some ?b" by (simp add: m_def)
  have sub: "dom m \<subseteq> {i. i < Suc index \<and> index \<le> i + n}" using w n(1) by (auto simp: dm burn_window_def)
  show ?thesis
  proof (cases "n \<le> index \<and> m (index - n) \<noteq> None")
    case True
    then obtain v where v: "n \<le> index" "m (index - n) = Some v" by blast
    have d: "dom (m(index - n := None)) = dom m - {index - n}" by simp
    have "(\<Sum>i \<in> dom m - {index - n}. the ((m(index - n := None)) i)) = (\<Sum>i \<in> dom m - {index - n}. the (m i))"
      by (rule sum.cong) auto
    also have "\<dots> = (\<Sum>i \<in> dom m. the (m i)) - v"
      using v by (subst sum_diff1_nat) (auto intro: domI)
    finally have "TotalEnergyBurn s + ?b - v = (\<Sum>i \<in> dom (m(index - n := None)). the ((m(index - n := None)) i))"
      unfolding d tot by simp
    moreover have "dom m - {index - n} \<subseteq> {i. i < index + 1 \<and> index + 1 \<le> i + n}"
      using sub by (auto simp: le_eq_less_or_eq)
    moreover have "count_session_burn n (index + 1) s =
        s2\<lparr>EnergyBurn := m(index - n := None), TotalEnergyBurn := TotalEnergyBurn s + ?b - v\<rparr>"
      unfolding c using v by simp
    ultimately show ?thesis using v n(1) keep by (simp add: burn_window_def s2_def)
  next
    case False
    then have cs: "count_session_burn n (index + 1) s = s2" unfolding c by (auto split: option.splits)
    have "index \<noteq> i + n" if "i \<in> dom m" for i using False that by auto
    then have "dom m \<subseteq> {i. i < index + 1 \<and> index + 1 \<le> i + n}" using sub by (fastforce simp: le_eq_less_or_eq)
    then show ?thesis using tot keep unfolding cs by (simp add: burn_window_def s2_def)
  qed
qed

text \<open>The world of the witnesses: the balances of the assets.\<close>

type_synonym balances = "asset_kind \<Rightarrow> account \<Rightarrow> balance"

definition upd_balance :: "asset_kind \<Rightarrow> account \<Rightarrow> balance \<Rightarrow> balances \<Rightarrow> balances" where
  "upd_balance k a v x = x(k := (x k)(a := v))"

definition demo_broker_env :: "balances broker_env" where
  "demo_broker_env = \<lparr>b_manage_origin = (\<lambda>og. og = Root), b_account = 1, b_feeless = (\<lambda>_. False),
     b_swap_fee = 10, b_burned_sessions = 2, b_fixed = fixed_ref 128 fixed_div,
     bx_lookup = (\<lambda>_ a. Some a), bx_balance = (\<lambda>x. x), bx_reducible = (\<lambda>x k a _. x k a),
     bx_withdraw = (\<lambda>k a v _ x. if v \<le> x k a then Inr (upd_balance k a (x k a - v) x) else Inl ''FundsUnavailable''),
     bx_resolve = (\<lambda>k a v x. Some (upd_balance k a (x k a + v) x)),
     bx_issue = (\<lambda>_ _ x. x), bx_drop_credit = (\<lambda>_ _ x. x),
     bx_deposit = (\<lambda>k a v x. Some (upd_balance k a (x k a + v) x)), bx_drop_debt = (\<lambda>_ _ x. x),
     bx_transfer = (\<lambda>k a b v _ x. if v \<le> x k a then Inr (upd_balance k b (upd_balance k a (x k a - v) x k b + v)
        (upd_balance k a (x k a - v) x)) else Inl ''FundsUnavailable''),
     bx_burn_from = (\<lambda>k a v x. Some (upd_balance k a (x k a - v) x, min v (x k a))),
     bx_fee_target = (\<lambda>k v x. upd_balance k 2 (x k 2 + v) x),
     bx_rate_from = (\<lambda>_ _ v. Some v), bx_rate_to = (\<lambda>_ _ v. Some v)\<rparr>"

definition demo_broker :: "balances broker" where
  "demo_broker = \<lparr>EnergyCapacity = 1000, EnergyCapacityOverride = None, br_SessionEnergyBurn = 5,
     EnergyBurn = Map.empty, TotalEnergyBurn = 0, br_events = [], br_dyn = demo_dyn,
     br_ext = (\<lambda>k a. if a = 1 then 500 else 200)\<rparr>"

theorem burn_total_is_window_sum_witness:
  "TotalEnergyBurn (count_session_burn 2 1 demo_broker) = 5"
proof -
  have "burn_window 2 0 demo_broker" by (simp add: burn_window_def demo_broker_def)
  from burn_total_is_window_sum [OF this] have "burn_window 2 1 (count_session_burn 2 1 demo_broker)"
    "EnergyBurn (count_session_burn 2 1 demo_broker) 0 = Some 5"
    by (simp_all add: demo_broker_def max_w_def)
  moreover from this have "dom (EnergyBurn (count_session_burn 2 1 demo_broker)) = {0}"
    by (auto simp: burn_window_def)
  ultimately show ?thesis by (simp add: burn_window_def)
qed

lemma demo_swap:
  "\<exists>s'. do_swap_exact_tokens_for_tokens demo_broker_env 3 4 (Native, WithId VNRG) 100 None False demo_broker = Inr (198, s')"
proof -
  let ?B = demo_broker_env and ?s = demo_broker
  have e: "ExchangeRate (br_dyn ?s) = Some 2000000000000000000" by (simp add: demo_broker_def demo_dyn_def)
  have f: "swap_fee ?B ?s (Native, WithId VNRG) = 10"
    by (simp add: swap_fee_def converters_of_def buy_energy native_to_energy_def demo_broker_env_def)
  have d: "to_amount_with_fee_deducted 100 10 = Inr 99"
    by (simp add: to_amount_with_fee_deducted_def checked_mul_def checked_div_def try_into_def max_w_def)
  have o: "dyn_to_asset_balance (b_fixed ?B) True (Some 2000000000000000000) 99 = Some 198"
    by (simp add: dyn_to_asset_balance_def demo_broker_env_def fixed_ref_def max_w_def)
  have q: "get_amount_out ?B ?s 100 (Native, WithId VNRG) True = Inr (198, 1)"
    by (simp add: get_amount_out_def f d converters_of_def buy_energy native_to_energy_def e o)
  show ?thesis
    using q by (simp add: do_swap_exact_tokens_for_tokens_def do_swap_def Let_def converters_of_def buy_energy
        native_to_energy_def default_resolve_def default_withdraw_def)
      (simp add: demo_broker_env_def demo_broker_def upd_balance_def)
qed

section \<open>Swaps\<close>

text \<open>
  What the broker relies on of the assets, for the smallest balance \<open>ed\<close> an account can have of an
  asset. An exact withdrawal needs the amount and takes it, unless it may expend the account and would
  leave a rest below \<open>ed\<close>, which the assets then remove too; resolving a credit puts exactly its amount
  in; a deposit or a burn is at its account alone; issuing, and dropping a credit or debt, moves no
  balance; and the swap fee goes nowhere but to the account \<open>t\<close>, which gets all of a native fee when it
  exists and the sum fits (a credit that cannot be resolved is dropped).
\<close>

definition moved :: "('x \<Rightarrow> asset_kind \<Rightarrow> account \<Rightarrow> balance) \<Rightarrow> asset_kind \<Rightarrow> account \<Rightarrow> int \<Rightarrow> 'x \<Rightarrow> 'x \<Rightarrow> bool" where
  "moved bal k a d x x' \<longleftrightarrow> int (bal x' k a) = int (bal x k a) + d \<and>
     (\<forall>k' a'. k' \<noteq> k \<or> a' \<noteq> a \<longrightarrow> bal x' k' a' = bal x k' a')"

definition only_at :: "('x \<Rightarrow> asset_kind \<Rightarrow> account \<Rightarrow> balance) \<Rightarrow> account \<Rightarrow> 'x \<Rightarrow> 'x \<Rightarrow> bool" where
  "only_at bal a x x' \<longleftrightarrow> (\<forall>k c. c \<noteq> a \<longrightarrow> bal x' k c = bal x k c)"

definition leaves_no_dust :: "(asset_kind \<Rightarrow> balance) \<Rightarrow> asset_kind \<Rightarrow> balance \<Rightarrow> balance \<Rightarrow> bool \<Rightarrow> bool" where
  "leaves_no_dust ed k held v keep \<longleftrightarrow> keep \<or> held = v \<or> ed k + v \<le> held"

definition assets_ok :: "'x broker_env \<Rightarrow> (asset_kind \<Rightarrow> balance) \<Rightarrow> account \<Rightarrow> bool" where
  "assets_ok B ed t \<longleftrightarrow>
     (\<forall>k a v keep x x'. bx_withdraw B k a v keep x = Inr x' \<longrightarrow> v \<le> bx_balance B x k a \<and>
        (leaves_no_dust ed k (bx_balance B x k a) v keep \<longrightarrow> moved (bx_balance B) k a (- int v) x x')) \<and>
     (\<forall>k a v x x'. bx_resolve B k a v x = Some x' \<longrightarrow> moved (bx_balance B) k a (int v) x x') \<and>
     (\<forall>k a v x x'. bx_deposit B k a v x = Some x' \<longrightarrow> only_at (bx_balance B) a x x') \<and>
     (\<forall>k a v x x' n. bx_burn_from B k a v x = Some (x', n) \<longrightarrow> only_at (bx_balance B) a x x') \<and>
     (\<forall>k v x. bx_balance B (bx_issue B k v x) = bx_balance B x \<and>
        bx_balance B (bx_drop_credit B k v x) = bx_balance B x \<and>
        bx_balance B (bx_drop_debt B k v x) = bx_balance B x) \<and>
     (\<forall>k v x. only_at (bx_balance B) t x (bx_fee_target B k v x)) \<and>
     (\<forall>v x. ed Native \<le> bx_balance B x Native t \<longrightarrow> bx_balance B x Native t + v \<le> max_w 128 \<longrightarrow>
        moved (bx_balance B) Native t (int v) x (bx_fee_target B Native v x))"

lemma assets_ok_withdraw:
  assumes "assets_ok B ed t" "bx_withdraw B k a v keep x = Inr x'"
  shows "v \<le> bx_balance B x k a \<and> (leaves_no_dust ed k (bx_balance B x k a) v keep \<longrightarrow>
    moved (bx_balance B) k a (- int v) x x')"
  using conjunct1 [OF assms(1) [unfolded assets_ok_def]] assms(2) by blast

lemma assets_okD:
  assumes "assets_ok B ed t"
  shows "bx_withdraw B k a v True x = Inr x' \<Longrightarrow> moved (bx_balance B) k a (- int v) x x'"
    "bx_resolve B k a v x = Some x' \<Longrightarrow> moved (bx_balance B) k a (int v) x x'"
    "bx_deposit B k a v x = Some x' \<Longrightarrow> only_at (bx_balance B) a x x'"
    "only_at (bx_balance B) t x (bx_fee_target B k v x)"
    "ed Native \<le> bx_balance B x Native t \<Longrightarrow> bx_balance B x Native t + v \<le> max_w 128 \<Longrightarrow>
     moved (bx_balance B) Native t (int v) x (bx_fee_target B Native v x)"
  using assms by (simp_all add: assets_ok_def leaves_no_dust_def)

lemma assets_ok_balances:
  assumes "assets_ok B ed t"
  shows "bx_balance B (bx_issue B k v x) = bx_balance B x"
    "bx_balance B (bx_drop_credit B k v x) = bx_balance B x"
    "bx_balance B (bx_drop_debt B k v x) = bx_balance B x"
  using assms by (simp_all add: assets_ok_def)

lemma assets_ok_burn:
  assumes "assets_ok B ed t" "bx_burn_from B k a v x = Some (x', n)"
  shows "only_at (bx_balance B) a x x'"
  by (rule assms(1) [unfolded assets_ok_def, THEN conjunct2, THEN conjunct2, THEN conjunct2, THEN conjunct1,
        rule_format, OF assms(2)])

lemma moved_at:
  "moved bal k a d x x' \<Longrightarrow> int (bal x' k' c) = int (bal x k' c) + (if k' = k \<and> c = a then d else 0)"
  by (auto simp: moved_def)

lemma moved_only_at: "moved bal k a d x x' \<Longrightarrow> only_at bal a x x'"
  by (auto simp: moved_def only_at_def)

lemma conv_resolve_only_at:
  assumes B: "assets_ok B ed t"
    and "conv_resolve (converters_of B s) p (b_account B) v x = Some x'"
  shows "only_at (bx_balance B) (b_account B) x x'"
  using assms(2) moved_only_at [OF assets_okD(2) [OF B]] assets_okD(3) [OF B] assets_ok_balances [OF B]
  by (auto simp: conv_resolve_def conv_find_def converters_of_def runtime_converters_def converter_defs
      default_resolve_def only_at_def split: if_splits option.splits)

lemma conv_withdraw_only_at:
  assumes B: "assets_ok B ed t"
    and "conv_withdraw (converters_of B s) p (b_account B) v x = Inr x'"
  shows "only_at (bx_balance B) (b_account B) x x'"
  using assms(2) moved_only_at [OF assets_okD(1) [OF B]] assets_ok_balances [OF B]
  by (auto simp: conv_withdraw_def conv_find_def converters_of_def runtime_converters_def converter_defs
      default_withdraw_def only_at_def split: if_splits option.splits)

lemma burn_surplus_only_at:
  assumes B: "assets_ok B ed t"
  shows "only_at (bx_balance B) (b_account B) (br_ext s) (br_ext (burn_surplus_energy B (b_account B) s))"
  using assets_ok_burn [OF B] by (auto simp: burn_surplus_energy_def br_deposit_def only_at_def split: option.splits)

text \<open>
  A swap as its accounts see it: the sender loses the input, the recipient gets the output, and only
  the broker and the fee account see anything else.
\<close>

lemma do_swap_moves:
  assumes B: "assets_ok B ed t"
    and sw: "do_swap B a b (k1, k2) (inp, out) fee keep s = Inr s1"
    and path: "k1 \<noteq> k2" and dust: "leaves_no_dust ed k1 (bx_balance B (br_ext s) k1 a) inp keep"
    and c: "c \<noteq> t" "c \<noteq> b_account B"
  shows "int (bx_balance B (br_ext s1) k c) = int (bx_balance B (br_ext s) k c) +
     (if k = k1 \<and> c = a then - int inp else if k = k2 \<and> c = b then int out else 0)"
proof -
  let ?bal = "bx_balance B" and ?b = "b_account B"
  define cs where "cs = converters_of B s"
  obtain x1 x3 x4 x5 where x1: "bx_withdraw B k1 a inp keep (br_ext s) = Inr x1"
    and x3: "conv_resolve cs (k1, k2) ?b (inp - fee) (bx_fee_target B k1 (min fee inp) x1) = Some x3"
    and x4: "conv_withdraw cs (k1, k2) ?b out x3 = Inr x4"
    and x5: "bx_resolve B k2 b out x4 = Some x5"
    and fin: "s1 = (if ?bal (br_ext s) (WithId VNRG) ?b < ?bal x5 (WithId VNRG) ?b
        then let s2 = burn_surplus_energy B ?b (s\<lparr>br_ext := x5\<rparr>)
             in s2\<lparr>br_dyn := dyn_on_energy_sell (?bal x5 (WithId VNRG) ?b -
                  ?bal (br_ext s) (WithId VNRG) ?b) (br_dyn s2)\<rparr>
        else s\<lparr>br_ext := x5\<rparr>)"
    using sw by (auto simp: do_swap_def cs_def Let_def res_simps)
  have "?bal (br_ext s1) k c = ?bal x5 k c"
    using burn_surplus_only_at [OF B, of "s\<lparr>br_ext := x5\<rparr>"] c by (simp add: fin Let_def only_at_def)
  moreover have "?bal x3 k c = ?bal x1 k c" "?bal x4 k c = ?bal x3 k c" for k
    using conv_resolve_only_at [OF B x3 [unfolded cs_def]] conv_withdraw_only_at [OF B x4 [unfolded cs_def]]
      assets_okD(4) [OF B, of x1 k1 "min fee inp"] c by (simp_all add: only_at_def)
  moreover note assets_ok_withdraw [OF B x1] assets_okD(2) [OF B x5]
  ultimately show ?thesis using path dust by (auto simp: moved_def)
qed

lemma paths_distinct: "(k1, k2) \<in> set (conv_paths (converters_of B s)) \<Longrightarrow> k1 \<noteq> k2"
  by (auto simp: converters_of_def runtime_paths VNRG_def SNRG_def LNRG_def)

lemma path_distinct:
  "conv_amount_out (converters_of B s) (k1, k2) v = Some w \<Longrightarrow> k1 \<noteq> k2"
  "conv_amount_in (converters_of B s) (k1, k2) v = Some w \<Longrightarrow> k1 \<noteq> k2"
proof -
  have "(k1, k2) \<notin> set (conv_paths (converters_of B s)) \<Longrightarrow>
      conv_amount_out (converters_of B s) (k1, k2) v = None \<and> conv_amount_in (converters_of B s) (k1, k2) v = None"
    by (simp add: converters_of_def rt.other_paths)
  then show "conv_amount_out (converters_of B s) (k1, k2) v = Some w \<Longrightarrow> k1 \<noteq> k2"
    "conv_amount_in (converters_of B s) (k1, k2) v = Some w \<Longrightarrow> k1 \<noteq> k2"
    using paths_distinct [of k1 k2 B s] by (metis option.distinct(1))+
qed

text \<open>C21.
  A swap, on whichever of the runtime's paths, charges and pays what was quoted: a successful swap to an
  exact amount takes from the sender exactly the quoted price with the fee that applies to it, at most
  the given maximum, and pays the recipient exactly the amount asked for; a swap of an exact amount
  takes exactly that amount and pays exactly what was quoted, at least the given minimum. No other
  balance of an account moves, but those of the broker and of the fee account.
\<close>

theorem swap_at_quoted_price:
  assumes "assets_ok B ed t" and "{sender, recipient} \<inter> {t, b_account B} = {}"
  shows "(\<forall>price s'. do_swap_tokens_for_exact_tokens B sender recipient (k1, k2) out limit keep s = Inr (price, s') \<longrightarrow>
      leaves_no_dust ed k1 (bx_balance B (br_ext s) k1 sender) price keep \<longrightarrow>
      quote_price_tokens_for_exact_tokens B s k1 k2 out (\<not> b_feeless B sender) = Some price \<and>
      (\<forall>m. limit = Some m \<longrightarrow> price \<le> m) \<and> 0 < out \<and>
      (\<forall>k c. c \<notin> {t, b_account B} \<longrightarrow>
         int (bx_balance B (br_ext s') k c) = int (bx_balance B (br_ext s) k c) +
           (if k = k1 \<and> c = sender then - int price else if k = k2 \<and> c = recipient then int out else 0))) \<and>
   (\<forall>paid s'. do_swap_exact_tokens_for_tokens B sender recipient (k1, k2) inp limit keep s = Inr (paid, s') \<longrightarrow>
      leaves_no_dust ed k1 (bx_balance B (br_ext s) k1 sender) inp keep \<longrightarrow>
      quote_price_exact_tokens_for_tokens B s k1 k2 inp (\<not> b_feeless B sender) = Some paid \<and>
      (\<forall>m. limit = Some m \<longrightarrow> m \<le> paid) \<and> 0 < paid \<and>
      (\<forall>k c. c \<notin> {t, b_account B} \<longrightarrow>
         int (bx_balance B (br_ext s') k c) = int (bx_balance B (br_ext s) k c) +
           (if k = k1 \<and> c = sender then - int inp else if k = k2 \<and> c = recipient then int paid else 0)))"
    (is "(\<forall>price s'. ?to price s' \<longrightarrow> ?dust1 price \<longrightarrow> ?R1 price s') \<and> (\<forall>paid s'. ?of paid s' \<longrightarrow> ?dust2 \<longrightarrow> ?R2 paid s')")
proof (rule conjI; intro allI impI)
  fix price s' assume r: "?to price s'" and dust: "?dust1 price"
  obtain fee s1 where q: "get_amount_in B s out (k1, k2) (\<not> b_feeless B sender) = Inr (price, fee)"
    and lim: "case limit of None \<Rightarrow> True | Some m \<Rightarrow> price \<le> m"
    and sw: "do_swap B sender recipient (k1, k2) (price, out) fee keep s = Inr s1" and s': "br_ext s' = br_ext s1"
    using r by (auto simp: do_swap_tokens_for_exact_tokens_def res_simps br_deposit_def)
  have o: "0 < out" "k1 \<noteq> k2" using q path_distinct(2) [of B s k1 k2 out]
    unfolding get_amount_in_def res_simps by auto
  show "?R1 price s'"
    using q lim o do_swap_moves [OF assms(1) sw o(2) dust]
    by (simp add: quote_price_tokens_for_exact_tokens_def s' split: option.splits)
next
  fix paid s' assume r: "?of paid s'" and dust: ?dust2
  obtain fee s1 where q: "get_amount_out B s inp (k1, k2) (\<not> b_feeless B sender) = Inr (paid, fee)"
    and lim: "case limit of None \<Rightarrow> True | Some m \<Rightarrow> m \<le> paid"
    and sw: "do_swap B sender recipient (k1, k2) (inp, paid) fee keep s = Inr s1" and s': "br_ext s' = br_ext s1"
    using r by (auto simp: do_swap_exact_tokens_for_tokens_def res_simps br_deposit_def)
  have o: "0 < paid" "k1 \<noteq> k2" using q path_distinct(1) [of B s k1 k2]
    unfolding get_amount_out_def res_simps Let_def by auto
  show "?R2 paid s'"
    using q lim o do_swap_moves [OF assms(1) sw o(2) dust]
    by (simp add: quote_price_exact_tokens_for_tokens_def s' split: option.splits)
qed

lemma demo_assets_ok: "assets_ok demo_broker_env (\<lambda>_. 1) 2"
  by (auto simp: assets_ok_def moved_def only_at_def demo_broker_env_def upd_balance_def split: if_splits)

theorem swap_at_quoted_price_witness:
  "\<exists>s'. do_swap_exact_tokens_for_tokens demo_broker_env 3 4 (Native, WithId VNRG) 100 None False demo_broker = Inr (198, s') \<and>
     quote_price_exact_tokens_for_tokens demo_broker_env demo_broker Native (WithId VNRG) 100 True = Some 198 \<and>
     int (bx_balance demo_broker_env (br_ext s') Native 3) = 100 \<and>
     int (bx_balance demo_broker_env (br_ext s') (WithId VNRG) 4) = 398"
proof -
  obtain s' where r: "do_swap_exact_tokens_for_tokens demo_broker_env 3 4 (Native, WithId VNRG) 100 None False
      demo_broker = Inr (198, s')" using demo_swap by blast
  have a: "{3, 4} \<inter> {2, b_account demo_broker_env} = {}" by (simp add: demo_broker_env_def)
  have d: "leaves_no_dust (\<lambda>_. 1) Native (bx_balance demo_broker_env (br_ext demo_broker) Native 3) 100 False"
    "bx_balance demo_broker_env (br_ext demo_broker) Native 3 = 200"
    "bx_balance demo_broker_env (br_ext demo_broker) (WithId VNRG) 4 = 200"
    "\<not> b_feeless demo_broker_env 3" "b_account demo_broker_env = 1"
    by (simp_all add: leaves_no_dust_def demo_broker_env_def demo_broker_def)
  note all = conjunct2 [OF swap_at_quoted_price [OF demo_assets_ok a, where s = demo_broker and ?k1.0 = Native
        and ?k2.0 = "WithId VNRG" and inp = 100 and limit = None and keep = False], rule_format, OF r d(1)]
  note bal = all [THEN conjunct2, THEN conjunct2, THEN conjunct2, rule_format]
  have "int (bx_balance demo_broker_env (br_ext s') Native 3) = 100"
    "int (bx_balance demo_broker_env (br_ext s') (WithId VNRG) 4) = 398"
    using bal [of 3 Native] bal [of 4 "WithId VNRG"] d(2,3,5) by simp_all
  then show ?thesis using all [THEN conjunct1] r d(4) by (intro exI [of _ s']) simp
qed

text \<open>
  The runtime's broker sells energy for native currency but has no path back: through
  \<open>NativeEnergyExchange\<close> every quote and every swap of energy for native currency fails.
\<close>

theorem energy_to_native_unsupported:
  "energy_for_native_quote_exact B s v fee = None \<and> energy_for_native_quote B s v fee = None \<and>
   (\<nexists>r. energy_for_native_swap_exact B who v keep s = Inr r) \<and>
   (\<nexists>r. energy_for_native_swap B who v keep s = Inr r)"
proof -
  have p: "(WithId VNRG, Native) \<notin> set (conv_paths (converters_of B s))"
    by (simp add: converters_of_def runtime_paths VNRG_def SNRG_def LNRG_def)
  have n: "conv_amount_out (converters_of B s) (WithId VNRG, Native) w = None"
    "conv_amount_in (converters_of B s) (WithId VNRG, Native) w = None" for w
    using rt.other_paths(1,2) [OF p [unfolded converters_of_def]] by (simp_all add: converters_of_def)
  have o: "\<nexists>r. get_amount_out B s w (WithId VNRG, Native) fee = Inr r"
    "\<nexists>r. get_amount_in B s w (WithId VNRG, Native) fee = Inr r" for w fee
    by (auto simp: get_amount_out_def get_amount_in_def res_simps n Let_def)
  then show ?thesis
    by (auto simp: energy_for_native_quote_exact_def energy_for_native_quote_def energy_for_native_swap_exact_def
        energy_for_native_swap_def quote_price_tokens_for_exact_tokens_def quote_price_exact_tokens_for_tokens_def
        trait_swap_exact_tokens_for_tokens_def trait_swap_tokens_for_exact_tokens_def
        do_swap_tokens_for_exact_tokens_def do_swap_exact_tokens_for_tokens_def res_simps split: sum.splits)
qed

text \<open>C20.
  Buying energy for native currency moves exactly these amounts: the sender pays the input; the fee on
  it (none for a feeless sender, otherwise what rounding down the share left by the swap fee leaves)
  goes to the fee account, the rest of the input to the broker; and the recipient gets that rest at
  the exchange rate from the broker's stock of energy. No other balance changes.
\<close>

theorem buy_energy_moves:
  assumes B: "assets_ok B ed t" and r: "do_swap_exact_tokens_for_tokens B a b (Native, WithId VNRG) inp limit keep s = Inr (out, s')"
    and diff: "{a, b} \<inter> {t, b_account B} = {}" "t \<noteq> b_account B"
    and dust: "leaves_no_dust ed Native (bx_balance B (br_ext s) Native a) inp keep"
    and t: "ed Native \<le> bx_balance B (br_ext s) Native t"
      "bx_balance B (br_ext s) Native a + bx_balance B (br_ext s) Native t \<le> max_w 128"
  shows "let rest = (if b_feeless B a then inp else inp * (1000 - b_swap_fee B) div 1000) in
    rest \<le> inp \<and> dyn_to_asset_balance (b_fixed B) True (ExchangeRate (br_dyn s)) rest = Some out \<and>
    (\<forall>k c. int (bx_balance B (br_ext s') k c) = int (bx_balance B (br_ext s) k c) +
       (if k = Native \<and> c = a then - int inp else if k = Native \<and> c = t then int inp - int rest
        else if k = Native \<and> c = b_account B then int rest
        else if k = WithId VNRG \<and> c = b_account B then - int out
        else if k = WithId VNRG \<and> c = b then int out else 0))"
proof -
  let ?P = "(Native, WithId VNRG)" and ?b = "b_account B" and ?bal = "bx_balance B"
  have apart: "a \<noteq> t" "a \<noteq> ?b" "b \<noteq> t" "b \<noteq> ?b" using diff(1) by auto
  define rest where "rest = (if b_feeless B a then inp else inp * (1000 - b_swap_fee B) div 1000)"
  have "inp * (1000 - b_swap_fee B) div 1000 \<le> inp * 1000 div 1000"
    by (intro div_le_mono mult_le_mono2) simp
  then have rest: "rest \<le> inp" by (simp add: rest_def)
  obtain fee s1 where q: "get_amount_out B s inp ?P (\<not> b_feeless B a) = Inr (out, fee)"
    and sw: "do_swap B a b ?P (inp, out) fee keep s = Inr s1" and s': "br_ext s' = br_ext s1"
    using r by (auto simp: do_swap_exact_tokens_for_tokens_def res_simps br_deposit_def)
  have f: "swap_fee B s ?P = b_swap_fee B"
    by (simp add: swap_fee_def converters_of_def buy_energy native_to_energy_def)
  have fee: "fee = inp - rest" and rate: "dyn_to_asset_balance (b_fixed B) True (ExchangeRate (br_dyn s)) rest = Some out"
    using q by (auto simp: get_amount_out_def res_simps Let_def rest_def f to_amount_with_fee_deducted_def
        converters_of_def buy_energy native_to_energy_def split: if_splits)
  obtain x1 x3 x4 x5 where w: "bx_withdraw B Native a inp keep (br_ext s) = Inr x1"
    and x3: "bx_resolve B Native ?b rest (bx_fee_target B Native (inp - rest) x1) = Some x3"
    and x4: "bx_withdraw B (WithId VNRG) ?b out True x3 = Inr x4"
    and x5: "bx_resolve B (WithId VNRG) b out x4 = Some x5"
    and fin: "s1 = (if ?bal (br_ext s) (WithId VNRG) ?b < ?bal x5 (WithId VNRG) ?b
        then let s2 = burn_surplus_energy B ?b (s\<lparr>br_ext := x5\<rparr>)
             in s2\<lparr>br_dyn := dyn_on_energy_sell (?bal x5 (WithId VNRG) ?b -
                  ?bal (br_ext s) (WithId VNRG) ?b) (br_dyn s2)\<rparr>
        else s\<lparr>br_ext := x5\<rparr>)"
    using sw rest by (auto simp: do_swap_def Let_def res_simps converters_of_def buy_energy native_to_energy_def
        default_resolve_def default_withdraw_def fee)
  have m1: "moved ?bal Native a (- int inp) (br_ext s) x1" using assets_ok_withdraw [OF B w] dust by blast
  have t1: "?bal x1 Native t = ?bal (br_ext s) Native t" using m1 diff by (auto simp: moved_def)
  have "moved ?bal Native t (int (inp - rest)) x1 (bx_fee_target B Native (inp - rest) x1)"
    by (rule assets_okD(5) [OF B]) (use t conjunct1 [OF assets_ok_withdraw [OF B w]] in \<open>simp_all add: t1\<close>)
  note m = m1 this assets_okD(2) [OF B x3] assets_okD(1) [OF B x4] assets_okD(2) [OF B x5]
  have bal: "int (?bal x5 k c) = int (?bal (br_ext s) k c) +
       (if k = Native \<and> c = a then - int inp else if k = Native \<and> c = t then int inp - int rest
        else if k = Native \<and> c = ?b then int rest
        else if k = WithId VNRG \<and> c = ?b then - int out
        else if k = WithId VNRG \<and> c = b then int out else 0)" for k c
    using moved_at [OF m(1), of k c] moved_at [OF m(2), of k c] moved_at [OF m(3), of k c] moved_at [OF m(4), of k c]
      moved_at [OF m(5), of k c] apart diff(2) rest by (simp split: if_splits)
  have "s1 = s\<lparr>br_ext := x5\<rparr>" using fin bal [of "WithId VNRG" ?b] diff by (auto split: if_splits)
  then show ?thesis using rest rate bal s' unfolding Let_def rest_def [symmetric] by simp
qed

theorem buy_energy_moves_witness:
  "\<exists>s'. do_swap_exact_tokens_for_tokens demo_broker_env 3 4 (Native, WithId VNRG) 100 None False demo_broker = Inr (198, s') \<and>
     int (bx_balance demo_broker_env (br_ext s') Native 3) = 100 \<and>
     int (bx_balance demo_broker_env (br_ext s') Native 2) = 201 \<and>
     int (bx_balance demo_broker_env (br_ext s') Native 1) = 599 \<and>
     int (bx_balance demo_broker_env (br_ext s') (WithId VNRG) 1) = 302 \<and>
     int (bx_balance demo_broker_env (br_ext s') (WithId VNRG) 4) = 398"
proof -
  obtain s' where r: "do_swap_exact_tokens_for_tokens demo_broker_env 3 4 (Native, WithId VNRG) 100 None False
      demo_broker = Inr (198, s')" using demo_swap by blast
  have d: "{3, 4} \<inter> {2, b_account demo_broker_env} = {}" "2 \<noteq> b_account demo_broker_env"
    "leaves_no_dust (\<lambda>_. 1) Native (bx_balance demo_broker_env (br_ext demo_broker) Native 3) 100 False"
    "1 \<le> bx_balance demo_broker_env (br_ext demo_broker) Native 2"
    "bx_balance demo_broker_env (br_ext demo_broker) Native 3 +
     bx_balance demo_broker_env (br_ext demo_broker) Native 2 \<le> max_w 128"
    by (simp_all add: leaves_no_dust_def demo_broker_env_def demo_broker_def max_w_def)
  note all = buy_energy_moves [OF demo_assets_ok r d, unfolded Let_def, THEN conjunct2, THEN conjunct2, rule_format]
  have e: "b_feeless demo_broker_env 3 = False" "b_account demo_broker_env = 1" "b_swap_fee demo_broker_env = 10"
    "bx_balance demo_broker_env (br_ext demo_broker) k c = (if c = 1 then 500 else 200)" for k c
    by (simp_all add: demo_broker_env_def demo_broker_def)
  show ?thesis
    using r all [of Native 3] all [of Native 2] all [of Native 1] all [of "WithId VNRG" 1] all [of "WithId VNRG" 4]
    by (intro exI [of _ s']) (simp add: e)
qed

end
