(* ===== verification/EnergyFee.thy ===== *)
theory EnergyFee
  imports EnergyBroker
begin

text \<open>
  The pallet \<open>pallets/energy-fee\<close> and the runtime's \<open>CustomFee\<close> (\<open>runtime/vitreus/src/lib.rs\<close>): fees are
  paid in energy; what an account lacks is taken from its static energy, then its liquid energy, and
  bought from the energy broker for the rest.

  The energy exchange is \<open>NativeEnergyExchange\<close> over the broker of theory \<open>EnergyBroker\<close>, and the burn
  handlers are the broker's and dynamic energy's, as in the runtime; the state of the broker is a
  field of the pallet's. The fungible assets, the block weights and \<open>compute_fee\<close> of the transaction
  payment pallet are parameters. A credit or debt is its amount.
\<close>

section \<open>Data\<close>

datatype 'b call_fee = Regular 'b | EVM 'b

fun into_inner :: "'b call_fee \<Rightarrow> 'b" where
  "into_inner (Regular fee) = fee"
| "into_inner (EVM fee) = fee"

datatype fee_event =
  EnergyFeePaid account balance
| BurnedEnergyThresholdUpdated balance
| BlockFullnessThresholdUpdated nat
| UpperFeeMultiplierUpdated nat

datatype transaction_error = PaymentInvalid | ExhaustsResources

datatype fee_error = FeeOverflow | FeeExhausted | FromBroker "broker_error dispatch_error" | FromAssets string

record 'x fee_state =
  BurnedEnergy :: balance
  BurnedEnergyThreshold :: "balance option"
  BlockFullnessThreshold :: nat
  UpperFeeMultiplier :: nat
  BaseFee :: balance
  fe_events :: "fee_event list"
  fe_broker :: "'x broker"

text \<open>The calls of the runtime, by the groups of \<open>dispatch_info_to_fee\<close>; other calls carry their pallet's name.\<close>

datatype runtime_call =
  PalletCall string
| EVMCall
| EthereumCall
| UtilityBatch "runtime_call list"
| UtilityBatchAll "runtime_call list"
| UtilityForceBatch "runtime_call list"
| UtilityDispatchAs runtime_call
| UtilityAsDerivative runtime_call
| SudoCall

record weight =
  ref_time :: nat
  proof_size :: nat

record ('x, 'i) fee_env =
  f_manage_origin :: "origin \<Rightarrow> bool"
  f_broker :: "'x broker_env"
  f_perquintill :: perthing
  f_perbill :: perthing
  f_permill :: perthing
  f_fixed :: fixed
  f_next_fee_multiplier :: nat
  f_recycling_rate :: "'x \<Rightarrow> nat"
  f_compute_fee :: "runtime_call \<Rightarrow> 'i option \<Rightarrow> balance"
  f_max_block :: weight
  f_normal_max_total :: "weight option"
  f_normal_block_weight :: weight
  f_min_weight :: "weight \<Rightarrow> weight \<Rightarrow> weight"
  fx_reducible :: "'x \<Rightarrow> asset_kind \<Rightarrow> account \<Rightarrow> balance"
  fx_burn_from :: "asset_kind \<Rightarrow> account \<Rightarrow> balance \<Rightarrow> 'x \<Rightarrow> string + 'x \<times> balance"
  fx_mint_into :: "asset_kind \<Rightarrow> account \<Rightarrow> balance \<Rightarrow> 'x \<Rightarrow> string + 'x \<times> balance"
  fx_withdraw :: "account \<Rightarrow> balance \<Rightarrow> 'x \<Rightarrow> string + 'x"
  fx_deposit :: "account \<Rightarrow> balance \<Rightarrow> 'x \<Rightarrow> ('x \<times> balance) option"
  fx_recycle :: "balance \<Rightarrow> 'x \<Rightarrow> 'x"
  fx_drop_credit :: "balance \<Rightarrow> 'x \<Rightarrow> 'x"
  fx_on_withdraw_fee :: "account \<Rightarrow> 'x \<Rightarrow> 'x"
  fx_account_of :: "nat \<Rightarrow> account"

definition multiplier_one :: nat where "multiplier_one = 1000000000000000000"

definition fe_deposit :: "fee_event \<Rightarrow> 'x fee_state \<Rightarrow> 'x fee_state" where
  "fe_deposit e s = s\<lparr>fe_events := fe_events s @ [e]\<rparr>"

definition fe_world :: "'x fee_state \<Rightarrow> 'x" where
  "fe_world s = br_ext (fe_broker s)"

definition set_world :: "'x \<Rightarrow> 'x fee_state \<Rightarrow> 'x fee_state" where
  "set_world x s = s\<lparr>fe_broker := (fe_broker s)\<lparr>br_ext := x\<rparr>\<rparr>"

section \<open>Parameters\<close>

definition fee_on_initialize :: "'x fee_state \<Rightarrow> 'x fee_state" where
  "fee_on_initialize s = s\<lparr>BurnedEnergy := 0\<rparr>"

definition update_burned_energy_threshold ::
  "('x, 'i) fee_env \<Rightarrow> origin \<Rightarrow> balance \<Rightarrow> 'x fee_state \<Rightarrow> fee_error dispatch_error + 'x fee_state" where
  "update_burned_energy_threshold F og v s = rbind (ensure (f_manage_origin F og) BadOrigin) (\<lambda>_.
     Inr (fe_deposit (BurnedEnergyThresholdUpdated v) (s\<lparr>BurnedEnergyThreshold := Some v\<rparr>)))"

definition update_block_fullness_threshold ::
  "('x, 'i) fee_env \<Rightarrow> origin \<Rightarrow> nat \<Rightarrow> 'x fee_state \<Rightarrow> fee_error dispatch_error + 'x fee_state" where
  "update_block_fullness_threshold F og v s = rbind (ensure (f_manage_origin F og) BadOrigin) (\<lambda>_.
     Inr (fe_deposit (BlockFullnessThresholdUpdated v) (s\<lparr>BlockFullnessThreshold := v\<rparr>)))"

definition update_upper_fee_multiplier ::
  "('x, 'i) fee_env \<Rightarrow> origin \<Rightarrow> nat \<Rightarrow> 'x fee_state \<Rightarrow> fee_error dispatch_error + 'x fee_state" where
  "update_upper_fee_multiplier F og v s = rbind (ensure (f_manage_origin F og) BadOrigin) (\<lambda>_.
     Inr (fe_deposit (UpperFeeMultiplierUpdated v) (s\<lparr>UpperFeeMultiplier := v\<rparr>)))"

definition update_base_fee ::
  "('x, 'i) fee_env \<Rightarrow> origin \<Rightarrow> balance \<Rightarrow> 'x fee_state \<Rightarrow> fee_error dispatch_error + 'x fee_state" where
  "update_base_fee F og v s = rbind (ensure (f_manage_origin F og) BadOrigin) (\<lambda>_. Inr (s\<lparr>BaseFee := v\<rparr>))"

section \<open>The fee of a call\<close>

definition custom_fee_pallets :: "string list" where
  "custom_fee_pallets =
     [''Assets'', ''AssetRate'', ''Auctions'', ''Balances'', ''Bounties'', ''DynamicEnergy'',
      ''EnergyGeneration'', ''EnergyBroker'', ''Nfts'', ''AtomicSwap'', ''Claiming'', ''Kickstart'',
      ''Vesting'', ''NacManaging'', ''ManualBridge'', ''Privileges'', ''Council'', ''TechnicalCommittee'',
      ''TechnicalMembership'', ''Treasury'', ''TechnicalCommitteeTreasury'', ''Democracy'', ''Elections'',
      ''Session'', ''XcmPallet'', ''SimpleVesting'', ''Multisig'', ''Proxy'', ''Reputation'']"

definition custom_fee :: "('x, 'i) fee_env \<Rightarrow> 'x fee_state \<Rightarrow> balance" where
  "custom_fee F s = fx_saturating_mul_int (f_fixed F) (f_next_fee_multiplier F) (BaseFee s)"

definition ethereum_fee :: "('x, 'i) fee_env \<Rightarrow> 'x fee_state \<Rightarrow> balance" where
  "ethereum_fee F s = custom_fee F s"

definition weight_fee :: "('x, 'i) fee_env \<Rightarrow> runtime_call \<Rightarrow> 'i option \<Rightarrow> balance option \<Rightarrow> balance" where
  "weight_fee F call info calculated_fee =
     (case calculated_fee of Some fee \<Rightarrow> fee | None \<Rightarrow> f_compute_fee F call info)"

definition batch_fee :: "balance \<Rightarrow> balance call_fee list \<Rightarrow> balance call_fee" where
  "batch_fee custom fees =
     Regular (max (foldl (\<lambda>acc call_fee. case call_fee of Regular fee \<Rightarrow> sat_add 128 acc fee
                                           | EVM fee \<Rightarrow> sat_add 128 acc fee) 0 fees) custom)"

fun dispatch_info_to_fee ::
  "('x, 'i) fee_env \<Rightarrow> 'x fee_state \<Rightarrow> runtime_call \<Rightarrow> 'i option \<Rightarrow> balance option \<Rightarrow> balance call_fee" where
  "dispatch_info_to_fee F s (PalletCall name) info calculated_fee =
     (if name \<in> set custom_fee_pallets then Regular (custom_fee F s)
      else Regular (weight_fee F (PalletCall name) info calculated_fee))"
| "dispatch_info_to_fee F s EVMCall info calculated_fee = EVM (ethereum_fee F s)"
| "dispatch_info_to_fee F s EthereumCall info calculated_fee = EVM (ethereum_fee F s)"
| "dispatch_info_to_fee F s (UtilityBatch calls) info calculated_fee =
     batch_fee (custom_fee F s) (map (\<lambda>call. dispatch_info_to_fee F s call None None) calls)"
| "dispatch_info_to_fee F s (UtilityBatchAll calls) info calculated_fee =
     batch_fee (custom_fee F s) (map (\<lambda>call. dispatch_info_to_fee F s call None None) calls)"
| "dispatch_info_to_fee F s (UtilityForceBatch calls) info calculated_fee =
     batch_fee (custom_fee F s) (map (\<lambda>call. dispatch_info_to_fee F s call None None) calls)"
| "dispatch_info_to_fee F s (UtilityDispatchAs call) info calculated_fee =
     dispatch_info_to_fee F s call None calculated_fee"
| "dispatch_info_to_fee F s (UtilityAsDerivative call) info calculated_fee =
     dispatch_info_to_fee F s call None calculated_fee"
| "dispatch_info_to_fee F s SudoCall info calculated_fee = Regular 0"

section \<open>Getting the energy\<close>

definition exchange_energy ::
  "('x, 'i) fee_env \<Rightarrow> asset_kind \<Rightarrow> account \<Rightarrow> balance \<Rightarrow> 'x fee_state \<Rightarrow> fee_error + balance \<times> 'x fee_state" where
  "exchange_energy F asset who required s =
     (if fx_reducible F (fe_world s) asset who = 0 then Inr (0, s)
      else rbind (map_err FromAssets (fx_burn_from F asset who required (fe_world s))) (\<lambda>(x, amount).
           rbind (map_err FromAssets (fx_mint_into F (WithId VNRG) who amount x)) (\<lambda>(y, minted).
             Inr (minted, set_world y s))))"

definition ensure_sufficient_energy ::
  "('x, 'i) fee_env \<Rightarrow> account \<Rightarrow> balance \<Rightarrow> 'x fee_state \<Rightarrow> fee_error + 'x fee_state" where
  "ensure_sufficient_energy F who required0 s =
     (let required = required0 - fx_reducible F (fe_world s) (WithId VNRG) who
      in rbind (if 0 < required then
                  rbind (exchange_energy F (WithId SNRG) who required s) (\<lambda>(amount, s1). Inr (required - amount, s1))
                else Inr (required, s)) (\<lambda>(required, s1).
         rbind (if 0 < required then
                  rbind (exchange_energy F (WithId LNRG) who required s1) (\<lambda>(amount, s2). Inr (required - amount, s2))
                else Inr (required, s1)) (\<lambda>(required, s2).
           if 0 < required then
             rbind (map_err FromBroker (native_for_energy_swap (f_broker F) who required True (fe_broker s2)))
               (\<lambda>(_, b). Inr (s2\<lparr>fe_broker := b\<rparr>))
           else Inr s2)))"

definition calculate_fee_parts ::
  "('x, 'i) fee_env \<Rightarrow> account \<Rightarrow> balance \<Rightarrow> 'x fee_state \<Rightarrow> (balance \<times> balance) option" where
  "calculate_fee_parts F who required s =
     (let x = fe_world s;
          e0 = fx_reducible F x (WithId VNRG) who;
          e1 = (if e0 < required then sat_add 128 e0 (fx_reducible F x (WithId SNRG) who) else e0);
          e2 = (if e1 < required then sat_add 128 e1 (fx_reducible F x (WithId LNRG) who) else e1)
      in if e2 < required
         then map_option (\<lambda>amount_in. (e2, amount_in))
                (native_for_energy_quote (f_broker F) (fe_broker s) (required - e2) True)
         else Some (required, 0))"

section \<open>Withdrawing and settling fees\<close>

definition update_burned_energy :: "balance \<Rightarrow> 'x fee_state \<Rightarrow> 'x fee_state" where
  "update_burned_energy amount s =
     (let b = br_on_energy_burn amount (fe_broker s);
          b1 = b\<lparr>br_dyn := dyn_on_energy_burn amount (br_dyn b)\<rparr>
      in s\<lparr>fe_broker := b1, BurnedEnergy := sat_add 128 (BurnedEnergy s) amount\<rparr>)"

definition validate_call_fee :: "balance \<Rightarrow> 'x fee_state \<Rightarrow> fee_error + unit" where
  "validate_call_fee fee_amount s =
     rbind (ok_or FeeOverflow (checked_add 128 (BurnedEnergy s) fee_amount)) (\<lambda>attempted_burned.
       case BurnedEnergyThreshold s of
         Some threshold \<Rightarrow> if attempted_burned \<le> threshold then Inr () else Inl FeeExhausted
       | None \<Rightarrow> Inr ())"

definition fee_pre_dispatch ::
  "('x, 'i) fee_env \<Rightarrow> runtime_call \<Rightarrow> 'i \<Rightarrow> 'x fee_state \<Rightarrow> transaction_error + unit" where
  "fee_pre_dispatch F call info s =
     (let fee = f_compute_fee F call (Some info)
      in map_err (\<lambda>_. ExhaustsResources)
           (validate_call_fee (into_inner (dispatch_info_to_fee F s call (Some info) (Some fee))) s))"

definition fee_withdraw ::
  "('x, 'i) fee_env \<Rightarrow> account \<Rightarrow> balance \<Rightarrow> 'x fee_state \<Rightarrow> fee_error + 'x fee_state" where
  "fee_withdraw F who fee s =
     rbind (ensure_sufficient_energy F who fee s) (\<lambda>s1.
     rbind (map_err FromAssets (fx_withdraw F who fee (fe_world s1))) (\<lambda>x. Inr (set_world x s1)))"

definition withdraw_fee ::
  "('x, 'i) fee_env \<Rightarrow> account \<Rightarrow> runtime_call \<Rightarrow> 'i \<Rightarrow> balance \<Rightarrow> 'x fee_state
   \<Rightarrow> transaction_error + balance option \<times> 'x fee_state" where
  "withdraw_fee F who call info fee s =
     (if fee = 0 then Inr (None, s)
      else rbind (case dispatch_info_to_fee F s call (Some info) (Some fee) of
                    Regular fee \<Rightarrow> Inr (fee, s)
                  | EVM fee \<Rightarrow> rbind (map_err (\<lambda>_. PaymentInvalid) (ensure_sufficient_energy F who fee s))
                                (\<lambda>s1. Inr (0, s1))) (\<lambda>(fee, s1).
             if fee = 0 then Inr (None, s1)
             else rbind (map_err (\<lambda>_. PaymentInvalid) (fee_withdraw F who fee s1)) (\<lambda>s2.
                    Inr (Some fee, set_world (fx_on_withdraw_fee F who (fe_world s2)) s2))))"

text \<open>Splitting off the recycled part of a fee and burning the rest.\<close>

definition recycle_fee :: "('x, 'i) fee_env \<Rightarrow> balance \<Rightarrow> 'x fee_state \<Rightarrow> 'x fee_state" where
  "recycle_fee F fee s =
     (let recycled = min (pt_mul (f_permill F) (f_recycling_rate F (fe_world s)) fee) fee;
          s1 = set_world (fx_recycle F recycled (fe_world s)) s
      in update_burned_energy (fee - recycled) s1)"

definition correct_and_deposit_fee ::
  "('x, 'i) fee_env \<Rightarrow> account \<Rightarrow> bool \<Rightarrow> balance \<Rightarrow> balance option \<Rightarrow> 'x fee_state
   \<Rightarrow> transaction_error + 'x fee_state" where
  "correct_and_deposit_fee F who pays_no tip already_withdrawn s =
     (case already_withdrawn of
        None \<Rightarrow> Inr s
      | Some paid \<Rightarrow>
          let (s1, refund) = (if pays_no then (case fx_deposit F who (paid - tip) (fe_world s) of
                  Some (x, debt) \<Rightarrow> (set_world x s, debt) | None \<Rightarrow> (s, 0)) else (s, 0))
          in rbind (ensure (refund \<le> paid) PaymentInvalid) (\<lambda>_.
               let actual_fee = paid - refund;
                   tip' = min tip actual_fee;
                   fee = actual_fee - tip';
                   s2 = update_burned_energy tip' (recycle_fee F fee s1);
                   s3 = set_world (fx_drop_credit F (actual_fee -
                          min (pt_mul (f_permill F) (f_recycling_rate F (fe_world s1)) fee) fee) (fe_world s2)) s2
               in Inr (fe_deposit (EnergyFeePaid who actual_fee) s3)))"

definition evm_withdraw_fee ::
  "('x, 'i) fee_env \<Rightarrow> nat \<Rightarrow> nat \<Rightarrow> 'x fee_state \<Rightarrow> fee_error + balance option \<times> 'x fee_state" where
  "evm_withdraw_fee F who fee s =
     (if fee = 0 then Inr (None, s)
      else let const_energy_fee = ethereum_fee F s; account_id = fx_account_of F who
           in rbind (fee_withdraw F account_id const_energy_fee s) (\<lambda>s1.
                let s2 = fe_deposit (EnergyFeePaid account_id const_energy_fee) s1
                in Inr (Some const_energy_fee,
                        set_world (fx_on_withdraw_fee F account_id (fe_world s2)) s2)))"

definition evm_correct_and_deposit_fee ::
  "('x, 'i) fee_env \<Rightarrow> balance option \<Rightarrow> 'x fee_state \<Rightarrow> 'x fee_state" where
  "evm_correct_and_deposit_fee F already_withdrawn s =
     (case already_withdrawn of
        None \<Rightarrow> s
      | Some credit \<Rightarrow>
          let s1 = recycle_fee F credit s
          in set_world (fx_drop_credit F (credit -
               min (pt_mul (f_permill F) (f_recycling_rate F (fe_world s)) credit) credit) (fe_world s1)) s1)"

section \<open>The fee multiplier\<close>

definition fee_multiplier_convert :: "('x, 'i) fee_env \<Rightarrow> 'x fee_state \<Rightarrow> nat \<Rightarrow> nat" where
  "fee_multiplier_convert F s _ =
     (let min_multiplier = multiplier_one;
          max_multiplier = UpperFeeMultiplier s;
          normal_max_weight = unwrap_or (f_max_block F) (f_normal_max_total F);
          normal_block_weight = f_min_weight F (f_normal_block_weight F) normal_max_weight;
          normalized_ref_time = pt_from_rational (f_perbill F) (ref_time normal_block_weight)
            (max (ref_time normal_max_weight) 1);
          normalized_proof_size = pt_from_rational (f_perbill F) (proof_size normal_block_weight)
            (max (proof_size normal_max_weight) 1);
          (normal_limiting_dimension, max_limiting_dimension) =
            (if normalized_ref_time < normalized_proof_size
             then (proof_size normal_block_weight, proof_size normal_max_weight)
             else (ref_time normal_block_weight, ref_time normal_max_weight));
          threshold_weight = pt_mul (f_perquintill F) (BlockFullnessThreshold s) max_limiting_dimension
      in if threshold_weight \<le> normal_limiting_dimension then max_multiplier else min_multiplier)"

definition multiplier_min :: nat where "multiplier_min = 0"
definition multiplier_max :: nat where "multiplier_max = max_w 128"
definition multiplier_target :: nat where "multiplier_target = perquintill_one"
definition multiplier_variability :: nat where "multiplier_variability = 0"

end
