(* ===== verification/FeeProps.thy ===== *)
theory FeeProps
  imports EnergyFee BrokerProps
begin

text \<open>
  Properties of the energy fee: the estimate an account gets is what it is charged, and what is burned
  of a fee is counted by the three counters of burned energy.
\<close>

section \<open>Where the energy comes from\<close>

text \<open>
  What the pallet relies on of the assets: burning with best effort takes what is asked for as far as it
  is there, minting reports its amount, and neither touches another asset of the account.
\<close>

definition fee_assets_ok :: "('x, 'i) fee_env \<Rightarrow> bool" where
  "fee_assets_ok F \<longleftrightarrow>
     (\<forall>k a v x y n. fx_burn_from F k a v x = Inr (y, n) \<longrightarrow>
        n = min v (fx_reducible F x k a) \<and> (\<forall>k'. k' \<noteq> k \<longrightarrow> fx_reducible F y k' a = fx_reducible F x k' a)) \<and>
     (\<forall>k a v x y n. fx_mint_into F k a v x = Inr (y, n) \<longrightarrow>
        n = v \<and> (\<forall>k'. k' \<noteq> k \<longrightarrow> fx_reducible F y k' a = fx_reducible F x k' a))"

lemma exchange_energy_InrD:
  assumes F: "fee_assets_ok F" and r: "exchange_energy F k who required s = Inr (n, s')"
  shows "n = min required (fx_reducible F (fe_world s) k who)"
    and "k' \<noteq> k \<Longrightarrow> k' \<noteq> WithId VNRG \<Longrightarrow> fx_reducible F (fe_world s') k' who = fx_reducible F (fe_world s) k' who"
    and "br_dyn (fe_broker s') = br_dyn (fe_broker s)" "br_events (fe_broker s') = br_events (fe_broker s)"
proof -
  have all: "n = min required (fx_reducible F (fe_world s) k who) \<and>
      (k' \<noteq> k \<longrightarrow> k' \<noteq> WithId VNRG \<longrightarrow> fx_reducible F (fe_world s') k' who = fx_reducible F (fe_world s) k' who) \<and>
      br_dyn (fe_broker s') = br_dyn (fe_broker s) \<and> br_events (fe_broker s') = br_events (fe_broker s)" for k'
  proof (cases "fx_reducible F (fe_world s) k who = 0")
    case True
    with r show ?thesis by (simp add: exchange_energy_def)
  next
    case False
    obtain x b y where x: "fx_burn_from F k who required (fe_world s) = Inr (x, b)"
      and y: "fx_mint_into F (WithId VNRG) who b x = Inr (y, n)" and s': "s' = set_world y s"
      using r False by (auto simp: exchange_energy_def res_simps)
    have "b = min required (fx_reducible F (fe_world s) k who)"
      "k' \<noteq> k \<Longrightarrow> fx_reducible F x k' who = fx_reducible F (fe_world s) k' who" for k'
      using F x unfolding fee_assets_ok_def by blast+
    moreover have "n = b" "k' \<noteq> WithId VNRG \<Longrightarrow> fx_reducible F y k' who = fx_reducible F x k' who" for k'
      using F y unfolding fee_assets_ok_def by blast+
    ultimately show ?thesis by (simp add: s' set_world_def fe_world_def)
  qed
  show "n = min required (fx_reducible F (fe_world s) k who)"
    "br_dyn (fe_broker s') = br_dyn (fe_broker s)" "br_events (fe_broker s') = br_events (fe_broker s)"
    using all by blast+
  show "k' \<noteq> k \<Longrightarrow> k' \<noteq> WithId VNRG \<Longrightarrow> fx_reducible F (fe_world s') k' who = fx_reducible F (fe_world s) k' who"
    using all by blast
qed

text \<open>The price of energy depends on the dynamic rate alone.\<close>

lemma native_quote_rate:
  assumes "br_dyn b' = br_dyn b"
  shows "native_for_energy_quote B b' v fee = native_for_energy_quote B b v fee"
proof -
  have "swap_fee B b' (Native, WithId VNRG) = swap_fee B b (Native, WithId VNRG)"
    by (simp add: swap_fee_def converters_of_def buy_energy native_to_energy_def)
  then have "get_amount_in B b' v (Native, WithId VNRG) fee = get_amount_in B b v (Native, WithId VNRG) fee"
    by (simp only: get_amount_in_def converters_of_def buy_energy native_to_energy_def assms converter.simps)
  then show ?thesis by (simp add: native_for_energy_quote_def quote_price_tokens_for_exact_tokens_def)
qed

text \<open>
  What the fee needs of an exchange: a swap to an exact amount charges its quote and reports it, and a
  quote depends on the rate alone.
\<close>

locale quoted_exchange =
  fixes quote :: "'b \<Rightarrow> balance \<Rightarrow> balance option"
    and swap :: "balance \<Rightarrow> 'b \<Rightarrow> 'e + balance \<times> 'b"
    and rate :: "'b \<Rightarrow> 'r"
    and reported :: "'b \<Rightarrow> balance \<Rightarrow> balance \<Rightarrow> bool"
  assumes swap_at_quote: "swap v b = Inr (a, b') \<Longrightarrow> quote b v = Some a \<and> reported b' a v"
    and quote_by_rate: "rate b' = rate b \<Longrightarrow> quote b' v = quote b v"
begin

lemma swap_charges_earlier_quote:
  assumes "rate b1 = rate b" "swap v b1 = Inr (a, b')"
  shows "quote b v = Some a" "reported b' a v"
  using swap_at_quote [OF assms(2)] quote_by_rate [OF assms(1)] by simp_all

end

interpretation native_energy: quoted_exchange "\<lambda>b v. native_for_energy_quote B b v (\<not> b_feeless B who)"
    "\<lambda>v. native_for_energy_swap B who v keep" br_dyn
    "\<lambda>b a v. last (br_events b) = SwapExecuted who who (Native, WithId VNRG) a v" for B who keep
proof
  show "native_for_energy_quote B b v (\<not> b_feeless B who) = Some a \<and>
      last (br_events b') = SwapExecuted who who (Native, WithId VNRG) a v"
    if "native_for_energy_swap B who v keep b = Inr (a, b')" for v b a b'
    using that by (auto simp: native_for_energy_swap_def trait_swap_tokens_for_exact_tokens_def
        do_swap_tokens_for_exact_tokens_def native_for_energy_quote_def quote_price_tokens_for_exact_tokens_def
        res_simps br_deposit_def)
qed (rule native_quote_rate)

lemma sat_add_less: "r \<le> max_w w \<Longrightarrow> sat_add w a b < r \<longleftrightarrow> a + b < r"
  "sat_add w a b < r \<Longrightarrow> r \<le> max_w w \<Longrightarrow> sat_add w a b = a + b"
  by (auto simp: sat_add_def)

lemma fee_parts_sum:
  assumes m: "required \<le> max_w 128"
  shows "((if (if e < required then sat_add 128 e a else e) < required
      then sat_add 128 (if e < required then sat_add 128 e a else e) b else (if e < required then sat_add 128 e a else e)) < required
      \<longleftrightarrow> 0 < required - e - a - b) \<and>
    ((if (if e < required then sat_add 128 e a else e) < required
      then sat_add 128 (if e < required then sat_add 128 e a else e) b else (if e < required then sat_add 128 e a else e)) < required
      \<longrightarrow> (if (if e < required then sat_add 128 e a else e) < required
      then sat_add 128 (if e < required then sat_add 128 e a else e) b else (if e < required then sat_add 128 e a else e)) = e + a + b)"
  using m unfolding sat_add_def by (cases "max_w 128" rule: nat.exhaust) (auto simp: min_def not_less)

lemma rbind_pair_InrE:
  assumes "rbind r f = Inr z"
  obtains x y where "r = Inr (x, y)" "f (x, y) = Inr z"
  using assms by (cases r) auto

lemma exchange_stage_InrD:
  assumes F: "fee_assets_ok F"
    and r: "(if 0 < req then rbind (exchange_energy F k who req s) (\<lambda>(amount, s1). Inr (req - amount, s1))
      else Inr (req, s)) = Inr (r1, s1)"
  shows "r1 = req - fx_reducible F (fe_world s) k who"
    and "br_dyn (fe_broker s1) = br_dyn (fe_broker s)" "br_events (fe_broker s1) = br_events (fe_broker s)"
    and "k' \<noteq> k \<Longrightarrow> k' \<noteq> WithId VNRG \<Longrightarrow> fx_reducible F (fe_world s1) k' who = fx_reducible F (fe_world s) k' who"
proof -
  have "s1 = s \<and> r1 = req \<and> req = 0 \<or> (\<exists>n. exchange_energy F k who req s = Inr (n, s1) \<and> r1 = req - n)"
    using r by (cases "exchange_energy F k who req s") (auto split: if_splits)
  then consider "s1 = s" "r1 = req" "req = 0" | n where "exchange_energy F k who req s = Inr (n, s1)" "r1 = req - n"
    by blast
  note cases = this
  show "r1 = req - fx_reducible F (fe_world s) k who"
    using cases by cases (auto dest: exchange_energy_InrD(1) [OF F])
  show "br_dyn (fe_broker s1) = br_dyn (fe_broker s)" "br_events (fe_broker s1) = br_events (fe_broker s)"
    using cases by (cases; auto dest: exchange_energy_InrD(3,4) [OF F])+
  show "k' \<noteq> k \<Longrightarrow> k' \<noteq> WithId VNRG \<Longrightarrow> fx_reducible F (fe_world s1) k' who = fx_reducible F (fe_world s) k' who"
    using cases by cases (auto dest: exchange_energy_InrD(2) [OF F])
qed

lemma ensure_sufficient_energy_InrD:
  assumes F: "fee_assets_ok F" and r: "ensure_sufficient_energy F who required s = Inr s'"
    and lack: "lack = required - fx_reducible F (fe_world s) (WithId VNRG) who -
      fx_reducible F (fe_world s) (WithId SNRG) who - fx_reducible F (fe_world s) (WithId LNRG) who"
  obtains s2 where "br_dyn (fe_broker s2) = br_dyn (fe_broker s)" "br_events (fe_broker s2) = br_events (fe_broker s)"
    "if 0 < lack then \<exists>a b. native_for_energy_swap (f_broker F) who lack True (fe_broker s2) = Inr (a, b) \<and> s' = s2\<lparr>fe_broker := b\<rparr>
     else s' = s2"
proof -
  let ?x = "fe_world s"
  let ?e = "fx_reducible F ?x (WithId VNRG) who" and ?s = "fx_reducible F ?x (WithId SNRG) who"
    and ?l = "fx_reducible F ?x (WithId LNRG) who"
  let ?f1 = "if 0 < required - ?e then rbind (exchange_energy F (WithId SNRG) who (required - ?e) s)
         (\<lambda>(amount, s1). Inr (required - ?e - amount, s1)) else Inr (required - ?e, s)"
  obtain r1 s1 where 1: "?f1 = Inr (r1, s1)"
    and r': "rbind (if 0 < r1 then rbind (exchange_energy F (WithId LNRG) who r1 s1)
         (\<lambda>(amount, s2). Inr (r1 - amount, s2)) else Inr (r1, s1)) (\<lambda>(required, s2).
           if 0 < required then
             rbind (map_err FromBroker (native_for_energy_swap (f_broker F) who required True (fe_broker s2)))
               (\<lambda>(_, b). Inr (s2\<lparr>fe_broker := b\<rparr>))
           else Inr s2) = Inr s'"
    using r unfolding ensure_sufficient_energy_def Let_def by (rule rbind_pair_InrE) (rule that, assumption, simp only: prod.case)
  obtain r2 s2 where 2: "(if 0 < r1 then rbind (exchange_energy F (WithId LNRG) who r1 s1)
         (\<lambda>(amount, s2). Inr (r1 - amount, s2)) else Inr (r1, s1)) = Inr (r2, s2)"
    and 3: "(if 0 < r2 then rbind (map_err FromBroker (native_for_energy_swap (f_broker F) who r2 True (fe_broker s2)))
          (\<lambda>(_, b). Inr (s2\<lparr>fe_broker := b\<rparr>)) else Inr s2) = Inr s'"
    using r' by (rule rbind_pair_InrE) (rule that, assumption, simp only: prod.case)
  have n: "WithId LNRG \<noteq> WithId SNRG" "WithId LNRG \<noteq> WithId VNRG" by (simp_all add: VNRG_def SNRG_def LNRG_def)
  note k1 = exchange_stage_InrD [OF F 1] and k2 = exchange_stage_InrD [OF F 2]
  have l: "fx_reducible F (fe_world s1) (WithId LNRG) who = ?l" using n by (rule k1(4))
  have r2: "r2 = lack" unfolding k2(1) k1(1) l lack ..
  have k: "br_dyn (fe_broker s2) = br_dyn (fe_broker s)" "br_events (fe_broker s2) = br_events (fe_broker s)"
    by (simp_all only: k1(2,3) k2(2,3))
  show thesis
  proof (rule that [OF k])
    show "if 0 < lack then \<exists>a b. native_for_energy_swap (f_broker F) who lack True (fe_broker s2) = Inr (a, b) \<and> s' = s2\<lparr>fe_broker := b\<rparr>
      else s' = s2" using 3 unfolding r2 by (cases "native_for_energy_swap (f_broker F) who lack True (fe_broker s2)") (auto split: if_splits)
  qed
qed

lemma estimate_matches_charge:
  assumes F: "fee_assets_ok F" and req: "required < 2 ^ 128" and who: "\<not> b_feeless (f_broker F) who"
    and r: "ensure_sufficient_energy F who required s = Inr s'"
  shows "\<exists>energy native. calculate_fee_parts F who required s = Some (energy, native) \<and>
    energy = min required (fx_reducible F (fe_world s) (WithId VNRG) who +
      fx_reducible F (fe_world s) (WithId SNRG) who + fx_reducible F (fe_world s) (WithId LNRG) who) \<and>
    (if energy < required
     then last (br_events (fe_broker s')) = SwapExecuted who who (Native, WithId VNRG) native (required - energy)
     else native = 0 \<and> br_events (fe_broker s') = br_events (fe_broker s))"
proof -
  let ?e = "fx_reducible F (fe_world s) (WithId VNRG) who" and ?s = "fx_reducible F (fe_world s) (WithId SNRG) who"
    and ?l = "fx_reducible F (fe_world s) (WithId LNRG) who"
  define lack where "lack = required - ?e - ?s - ?l"
  have lack: "lack = required - (?e + ?s + ?l)" unfolding lack_def by (simp only: diff_diff_left)
  note swap_rest = ensure_sufficient_energy_InrD [OF F r lack_def]
  obtain s2 where s2: "br_dyn (fe_broker s2) = br_dyn (fe_broker s)" "br_events (fe_broker s2) = br_events (fe_broker s)"
    "if 0 < lack then \<exists>a b. native_for_energy_swap (f_broker F) who lack True (fe_broker s2) = Inr (a, b) \<and> s' = s2\<lparr>fe_broker := b\<rparr>
     else s' = s2" by (rule swap_rest)
  define e1 where "e1 = (if ?e < required then sat_add 128 ?e ?s else ?e)"
  define e2 where "e2 = (if e1 < required then sat_add 128 e1 ?l else e1)"
  have m: "required \<le> max_w 128" using req by (simp add: le_max_w_iff)
  have e2: "(e2 < required \<longleftrightarrow> 0 < lack) \<and> (e2 < required \<longrightarrow> e2 = ?e + ?s + ?l)"
    unfolding e1_def e2_def lack_def by (rule fee_parts_sum [OF m])
  have parts: "calculate_fee_parts F who required s = (if e2 < required
      then map_option (\<lambda>a. (e2, a)) (native_for_energy_quote (f_broker F) (fe_broker s) (required - e2) True)
      else Some (required, 0))"
    unfolding calculate_fee_parts_def Let_def e1_def e2_def ..
  show ?thesis
  proof (cases "0 < lack")
    case True
    have lt: "e2 < required" using e2 True by (elim conjE) (rule iffD2)
    then have sum: "e2 = ?e + ?s + ?l" using e2 by (elim conjE) (rule mp)
    have l: "lack = required - e2" unfolding lack sum ..
    have mn: "min required (?e + ?s + ?l) = e2" using lt unfolding sum by linarith
    obtain a b where swap: "native_for_energy_swap (f_broker F) who (required - e2) True (fe_broker s2) = Inr (a, b)"
      and s': "s' = s2\<lparr>fe_broker := b\<rparr>" using s2(3) unfolding if_P [OF True] unfolding l by blast
    have "native_for_energy_quote (f_broker F) (fe_broker s) (required - e2) True = Some a"
      using native_energy.swap_charges_earlier_quote(1) [OF s2(1) swap] who by simp
    then have p: "calculate_fee_parts F who required s = Some (e2, a)" by (simp add: parts lt)
    have ev: "last (br_events (fe_broker s')) = SwapExecuted who who (Native, WithId VNRG) a (required - e2)"
      by (simp add: s' native_energy.swap_charges_earlier_quote(2) [OF s2(1) swap])
    show ?thesis by (intro exI conjI) (rule p, rule mn [symmetric], simp only: if_P [OF lt] ev)
  next
    case False
    then have ge: "\<not> e2 < required" using e2 by blast
    then have p: "calculate_fee_parts F who required s = Some (required, 0)" by (simp add: parts)
    have mn: "min required (?e + ?s + ?l) = required" using False lack by linarith
    have ev: "br_events (fe_broker s') = br_events (fe_broker s)" using s2(2,3) False by simp
    show ?thesis by (intro exI conjI) (rule p, rule mn [symmetric], simp add: ev)
  qed
qed

text \<open>The estimate is the charge: whenever the energy for a fee can be obtained, the estimate exists, its
  energy part is what the account has in energy, static and liquid energy (at most the fee), and its
  native part is the price of the one swap that is executed for the rest, if there is a rest.
\<close>

theorem fee_estimate_matches_charge:
  assumes F: "fee_assets_ok F" and req: "required < 2 ^ 128" and who: "\<not> b_feeless (f_broker F) who"
    and r: "ensure_sufficient_energy F who required s = Inr s'"
  shows "\<exists>energy native. calculate_fee_parts F who required s = Some (energy, native) \<and>
    energy = min required (fx_reducible F (fe_world s) (WithId VNRG) who +
      fx_reducible F (fe_world s) (WithId SNRG) who + fx_reducible F (fe_world s) (WithId LNRG) who) \<and>
    (if energy < required
     then last (br_events (fe_broker s')) = SwapExecuted who who (Native, WithId VNRG) native (required - energy)
     else native = 0 \<and> br_events (fe_broker s') = br_events (fe_broker s))"
  using assms by (rule estimate_matches_charge)

section \<open>A small world\<close>

definition demo_fee_env :: "(balances, unit) fee_env" where
  "demo_fee_env = \<lparr>f_manage_origin = (\<lambda>og. og = Root), f_broker = demo_broker_env,
     f_perquintill = perthing_ref perquintill_one, f_perbill = perthing_ref perbill_one,
     f_permill = perthing_ref 1000000, f_fixed = fixed_ref 128 fixed_div,
     f_next_fee_multiplier = multiplier_one, f_recycling_rate = (\<lambda>_. 250000), f_compute_fee = (\<lambda>_ _. 7),
     f_max_block = \<lparr>ref_time = 100, proof_size = 100\<rparr>, f_normal_max_total = None,
     f_normal_block_weight = \<lparr>ref_time = 10, proof_size = 20\<rparr>,
     f_min_weight = (\<lambda>a b. \<lparr>ref_time = min (ref_time a) (ref_time b), proof_size = min (proof_size a) (proof_size b)\<rparr>),
     fx_reducible = (\<lambda>x k a. x k a),
     fx_burn_from = (\<lambda>k a v x. Inr (upd_balance k a (x k a - v) x, min v (x k a))),
     fx_mint_into = (\<lambda>k a v x. Inr (upd_balance k a (x k a + v) x, v)),
     fx_withdraw = (\<lambda>a v x. if v \<le> x (WithId VNRG) a then Inr (upd_balance (WithId VNRG) a (x (WithId VNRG) a - v) x)
       else Inl ''FundsUnavailable''),
     fx_deposit = (\<lambda>a v x. Some (upd_balance (WithId VNRG) a (x (WithId VNRG) a + v) x, v)),
     fx_recycle = (\<lambda>v x. upd_balance (WithId VNRG) 2 (x (WithId VNRG) 2 + v) x),
     fx_drop_credit = (\<lambda>_ x. x), fx_on_withdraw_fee = (\<lambda>_ x. x), fx_account_of = (\<lambda>n. n)\<rparr>"

definition demo_fee :: "balances fee_state" where
  "demo_fee = \<lparr>BurnedEnergy = 3, BurnedEnergyThreshold = None, BlockFullnessThreshold = 0,
     UpperFeeMultiplier = multiplier_one, BaseFee = 700, fe_events = [], fe_broker = demo_broker\<rparr>"

lemma demo_fee_ok: "fee_assets_ok demo_fee_env"
  by (simp add: fee_assets_ok_def demo_fee_env_def upd_balance_def)

lemma demo_ensure:
  "\<exists>s'. ensure_sufficient_energy demo_fee_env 3 700 demo_fee = Inr s' \<and> fe_world s' (WithId VNRG) 3 = 700"
proof -
  have r: "fx_reducible demo_fee_env (fe_world demo_fee) (WithId VNRG) 3 = 200"
    by (simp add: demo_fee_env_def fe_world_def demo_fee_def demo_broker_def)
  obtain s1 where s1: "exchange_energy demo_fee_env (WithId SNRG) 3 500 demo_fee = Inr (200, s1)"
    and b1: "br_dyn (fe_broker s1) = demo_dyn"
      "br_ext (fe_broker s1) (WithId LNRG) 3 = 200" "br_ext (fe_broker s1) Native = br_ext demo_broker Native"
      "br_ext (fe_broker s1) (WithId VNRG) 1 = 500" "br_ext (fe_broker s1) (WithId VNRG) 3 = 400"
    by (simp add: exchange_energy_def demo_fee_env_def fe_world_def set_world_def demo_fee_def demo_broker_def
        upd_balance_def VNRG_def SNRG_def LNRG_def map_err_def)
  obtain s2 where s2: "exchange_energy demo_fee_env (WithId LNRG) 3 300 s1 = Inr (200, s2)"
    and b2: "br_dyn (fe_broker s2) = demo_dyn"
      "br_ext (fe_broker s2) Native = br_ext demo_broker Native" "br_ext (fe_broker s2) (WithId VNRG) 1 = 500"
      "br_ext (fe_broker s2) (WithId VNRG) 3 = 600"
    using b1 by (simp add: exchange_energy_def demo_fee_env_def fe_world_def set_world_def
        upd_balance_def VNRG_def SNRG_def LNRG_def map_err_def)
  let ?B = demo_broker_env and ?b = "fe_broker s2"
  have q: "get_amount_in ?B ?b 100 (Native, WithId VNRG) True = Inr (50, 0)"
  proof -
    have e: "ExchangeRate (br_dyn ?b) = Some 2000000000000000000" by (simp add: b2 demo_dyn_def)
    have f: "swap_fee ?B ?b (Native, WithId VNRG) = 10"
      by (simp add: swap_fee_def converters_of_def buy_energy native_to_energy_def demo_broker_env_def)
    have o: "dyn_from_asset_balance (b_fixed ?B) True (Some 2000000000000000000) 100 = Some 50"
      by (simp add: dyn_from_asset_balance_def demo_broker_env_def fixed_ref_def max_w_def)
    show ?thesis
      by (simp add: get_amount_in_def f converters_of_def buy_energy native_to_energy_def e o
        to_amount_with_fee_included_def checked_mul_def checked_div_def try_into_def max_w_def)
  qed
  have "\<exists>a b. native_for_energy_swap ?B 3 100 True ?b = Inr (a, b) \<and> br_ext b (WithId VNRG) 3 = 700"
    using q b2(2-4) by (simp add: native_for_energy_swap_def trait_swap_tokens_for_exact_tokens_def
        do_swap_tokens_for_exact_tokens_def do_swap_def Let_def converters_of_def buy_energy
        native_to_energy_def default_resolve_def default_withdraw_def)
      (simp add: demo_broker_env_def demo_broker_def upd_balance_def VNRG_def br_deposit_def)
  then obtain a b where sw: "native_for_energy_swap (f_broker demo_fee_env) 3 100 True ?b = Inr (a, b)"
    and b: "br_ext b (WithId VNRG) 3 = 700"
    by (auto simp: demo_fee_env_def)
  show ?thesis
    unfolding ensure_sufficient_energy_def Let_def r by (simp add: s1 s2 sw b fe_world_def)
qed

theorem fee_estimate_matches_charge_witness:
  "\<exists>s' native. ensure_sufficient_energy demo_fee_env 3 700 demo_fee = Inr s' \<and>
     calculate_fee_parts demo_fee_env 3 700 demo_fee = Some (600, native) \<and>
     last (br_events (fe_broker s')) = SwapExecuted 3 3 (Native, WithId VNRG) native 100"
proof -
  obtain s' where r: "ensure_sufficient_energy demo_fee_env 3 700 demo_fee = Inr s'" using demo_ensure by blast
  have w: "\<not> b_feeless (f_broker demo_fee_env) 3" by (simp add: demo_fee_env_def demo_broker_env_def)
  have e: "fx_reducible demo_fee_env (fe_world demo_fee) (WithId k) 3 = 200" for k
    by (simp add: demo_fee_env_def fe_world_def demo_fee_def demo_broker_def)
  from fee_estimate_matches_charge [OF demo_fee_ok _ w r] r show ?thesis by (simp add: e)
qed

section \<open>What is burned\<close>

text \<open>C16.
  Of a settled fee nothing is lost. What is not refunded is paid; of that, without the tip, the recycling
  rate's share goes to the recycling destination, and all the rest, tip included, is burned: it is
  dropped from the issuance and added to the burned energy of the block and to the session counters of
  the broker and of dynamic energy alike.
\<close>

theorem settled_fee_is_counted:
  assumes r: "correct_and_deposit_fee F who pays_no tip (Some paid) s = Inr s'"
  shows "let (world, refund) = (if pays_no
           then case fx_deposit F who (paid - tip) (fe_world s) of Some (x, debt) \<Rightarrow> (x, debt) | None \<Rightarrow> (fe_world s, 0)
           else (fe_world s, 0));
      actual = paid - refund; fee = actual - min tip actual;
      recycled = min (pt_mul (f_permill F) (f_recycling_rate F world) fee) fee; burned = actual - recycled
    in refund \<le> paid \<and> recycled \<le> fee \<and>
      fe_world s' = fx_drop_credit F burned (fx_recycle F recycled world) \<and>
      BurnedEnergy s' = sat_add 128 (BurnedEnergy s) burned \<and>
      br_SessionEnergyBurn (fe_broker s') = sat_add 128 (br_SessionEnergyBurn (fe_broker s)) burned \<and>
      dy_SessionEnergyBurn (br_dyn (fe_broker s')) = sat_add 128 (dy_SessionEnergyBurn (br_dyn (fe_broker s))) burned \<and>
      fe_events s' = fe_events s @ [EnergyFeePaid who actual]"
proof -
  obtain world refund where w: "(if pays_no
      then case fx_deposit F who (paid - tip) (fe_world s) of Some (x, debt) \<Rightarrow> (x, debt) | None \<Rightarrow> (fe_world s, 0)
      else (fe_world s, 0)) = (world, refund)" by fastforce
  define s1 where "s1 = set_world world s"
  define actual where "actual = paid - refund"
  define fee where "fee = actual - min tip actual"
  define recycled where "recycled = min (pt_mul (f_permill F) (f_recycling_rate F world) fee) fee"
  have id: "set_world (fe_world s) s = s" by (simp add: set_world_def fe_world_def)
  have pair: "(if pays_no then (case fx_deposit F who (paid - tip) (fe_world s) of
      Some (x, debt) \<Rightarrow> (set_world x s, debt) | None \<Rightarrow> (s, 0)) else (s, 0)) = (s1, refund)"
    using w by (auto simp: s1_def id split: option.splits if_splits)
  have world: "fe_world s1 = world" by (simp add: s1_def set_world_def fe_world_def)
  have le: "refund \<le> paid" and s': "s' = (let s2 = update_burned_energy (min tip actual) (recycle_fee F fee s1)
      in fe_deposit (EnergyFeePaid who actual) (set_world (fx_drop_credit F (actual - recycled) (fe_world s2)) s2))"
    using r unfolding correct_and_deposit_fee_def option.case pair Let_def prod.case rbind_Inr_iff ensure_Inr_iff
    by (simp_all add: actual_def fee_def recycled_def world Let_def)
  have sum: "fee - recycled + min tip actual = actual - recycled"
    unfolding fee_def recycled_def by (auto simp: min_def)
  have "BurnedEnergy s' = sat_add 128 (BurnedEnergy s) (actual - recycled)"
    "br_SessionEnergyBurn (fe_broker s') = sat_add 128 (br_SessionEnergyBurn (fe_broker s)) (actual - recycled)"
    "dy_SessionEnergyBurn (br_dyn (fe_broker s')) = sat_add 128 (dy_SessionEnergyBurn (br_dyn (fe_broker s))) (actual - recycled)"
    "fe_events s' = fe_events s @ [EnergyFeePaid who actual]"
    "fe_world s' = fx_drop_credit F (actual - recycled) (fx_recycle F recycled world)"
    unfolding s' Let_def recycle_fee_def world recycled_def [symmetric]
    by (simp_all add: fe_deposit_def set_world_def fe_world_def update_burned_energy_def Let_def br_on_energy_burn_def
        dyn_on_energy_burn_def sat_add_assoc sum s1_def)
  moreover have "recycled \<le> fee" by (simp add: recycled_def)
  ultimately show ?thesis
    unfolding w Let_def prod.case actual_def [symmetric] fee_def [symmetric] recycled_def [symmetric]
    using le by blast
qed

theorem settled_fee_is_counted_witness:
  "\<exists>s'. correct_and_deposit_fee demo_fee_env 3 False 10 (Some 50) demo_fee = Inr s' \<and>
     fe_events s' = [EnergyFeePaid 3 50] \<and> BurnedEnergy s' = 43 \<and> br_SessionEnergyBurn (fe_broker s') = 45 \<and>
     fe_world s' (WithId VNRG) 2 = 210"
proof -
  have "\<exists>s'. correct_and_deposit_fee demo_fee_env 3 False 10 (Some 50) demo_fee = Inr s'"
    by (simp add: correct_and_deposit_fee_def Let_def)
  then obtain s' where r: "correct_and_deposit_fee demo_fee_env 3 False 10 (Some 50) demo_fee = Inr s'" by blast
  have e: "pt_mul (f_permill demo_fee_env) (f_recycling_rate demo_fee_env w) 40 = 10"
    "fx_drop_credit demo_fee_env v w = w" "fx_recycle demo_fee_env v w = upd_balance (WithId VNRG) 2 (w (WithId VNRG) 2 + v) w"
    "fe_world demo_fee (WithId VNRG) 2 = 200" "BurnedEnergy demo_fee = 3" "fe_events demo_fee = []"
    "br_SessionEnergyBurn (fe_broker demo_fee) = 5" for v w
    by (simp_all add: demo_fee_env_def demo_fee_def perthing_ref_def fe_world_def demo_broker_def)
  from settled_fee_is_counted [OF r] show ?thesis
    by (intro exI [of _ s']) (simp add: r e Let_def sat_add_def max_w_def upd_balance_def)
qed

end
