(* ===== verification/NacManaging.thy ===== *)
theory NacManaging
  imports Reputation Arith
begin

unbundle bit_operations_syntax

text \<open>
  The pallet \<open>pallets/nac-managing\<close>: the NAC of an account (an NFT whose attribute is its access
  level), the amount claimed per account, and the VIPP NFTs minted for claimed amounts and burned when
  the balance of the account falls below them.

  The NFT pallet, the balances, the codec and the hash are the fields of the parameter \<open>N\<close>, acting on
  a world of type \<open>'x\<close>; an operation of the NFT pallet returns its result beside the world, because
  this pallet goes on after some errors. Reputation is the model of theory \<open>Reputation\<close>. \<open>OnVIPPChanged\<close>
  of the runtime is the privileges pallet, whose map \<open>VippMembers\<close> is a field of the state here.
\<close>

section \<open>Effects that keep the state beside the result\<close>

definition then_ok :: "('e + 'a) \<times> 's \<Rightarrow> ('a \<Rightarrow> 's \<Rightarrow> ('e + 'b) \<times> 's) \<Rightarrow> ('e + 'b) \<times> 's" where
  "then_ok r f = (case r of (Inl e, s) \<Rightarrow> (Inl e, s) | (Inr x, s) \<Rightarrow> f x s)"

text \<open>The end of a dispatchable: an error discards the state.\<close>

definition commit :: "('e + unit) \<times> 's \<Rightarrow> 'e + 's" where
  "commit r = (case r of (Inl e, _) \<Rightarrow> Inl e | (Inr _, s) \<Rightarrow> Inr s)"

lemma then_ok_simps [simp]: "then_ok (Inl e, s) f = (Inl e, s)" "then_ok (Inr x, s) f = f x s"
  by (simp_all add: then_ok_def)

lemma then_ok_Inr_iff [res_simps]: "then_ok r f = (Inr y, t) \<longleftrightarrow> (\<exists>x s. r = (Inr x, s) \<and> f x s = (Inr y, t))"
  by (cases r; cases "fst r") auto

lemma commit_Inr_iff [res_simps]: "commit r = Inr s \<longleftrightarrow> r = (Inr (), s)"
  by (cases r; cases "fst r") (auto simp: commit_def)

section \<open>Data\<close>

type_synonym byte_list = "nat list"
type_synonym item = nat
type_synonym collection = nat

definition NAC_LEVEL_ATTRIBUTE_KEY :: byte_list where "NAC_LEVEL_ATTRIBUTE_KEY = [0, 0, 1]"
definition CLAIM_AMOUNT_ATTRIBUTE_KEY :: byte_list where "CLAIM_AMOUNT_ATTRIBUTE_KEY = [0, 0, 2]"
definition VIPP_STATUS_EXIST :: byte_list where "VIPP_STATUS_EXIST = [0, 0, 3]"
definition DEFAULT_NAC_LEVEL :: nat where "DEFAULT_NAC_LEVEL = 1"
definition EXTRINSIC_INDEX :: nat where "EXTRINSIC_INDEX = 135"

datatype nac_event =
  NftMinted account item
| NftUpdated account nat
| UserNacLevel account nat
| VippNftMinted account item

datatype nac_error = NftNotFound | NftAlreadyExist | NacLevelIsIncorrect

text \<open>\<open>VippMemberInfo\<close> of the privileges pallet.\<close>

record vipp_member_info =
  vp_points :: balance
  vp_threshold :: "(item \<times> balance) list"

record 'x nac =
  UsersNft :: "account \<rightharpoonup> item \<times> nat"
  na_events :: "nac_event list"
  na_rep :: rep_state
  VippMembers :: "account \<rightharpoonup> vipp_member_info"
  na_ext :: 'x

type_synonym 'x effect = "'x \<Rightarrow> (string + unit) \<times> 'x"

record 'x nac_env =
  n_admin_origin :: "origin \<Rightarrow> bool"
  n_collection :: collection
  n_vipp_collection :: collection
  n_initial_collection :: collection
  n_key_limit :: nat
  n_value_limit :: nat
  n_libm :: libm
  n_perbill :: perthing
  n_encode :: "balance \<Rightarrow> byte_list"
  n_decode :: "byte_list \<Rightarrow> balance option"
  n_encode_block :: "nat \<Rightarrow> byte_list"
  n_encode_account :: "account \<Rightarrow> byte_list"
  n_hash :: "byte_list \<Rightarrow> byte_list"
  nx_total_balance :: "'x \<Rightarrow> account \<Rightarrow> balance"
  nx_owned_in_collection :: "'x \<Rightarrow> collection \<Rightarrow> account \<Rightarrow> item list"
  nx_system_attribute :: "'x \<Rightarrow> collection \<Rightarrow> item \<Rightarrow> byte_list \<Rightarrow> byte_list option"
  nx_set_attribute :: "collection \<Rightarrow> item \<Rightarrow> byte_list \<Rightarrow> byte_list \<Rightarrow> 'x effect"
  nx_mint_into :: "collection \<Rightarrow> item \<Rightarrow> account \<Rightarrow> 'x effect"
  nx_burn :: "collection \<Rightarrow> item \<Rightarrow> account \<Rightarrow> 'x effect"
  nx_create_collection :: "account \<Rightarrow> 'x effect"

type_synonym 'x nac_result = "nac_error dispatch_error + 'x nac"
type_synonym 'x nac_effect = "(nac_error dispatch_error + unit) \<times> 'x nac"

definition na_deposit :: "nac_event \<Rightarrow> 'x nac \<Rightarrow> 'x nac" where
  "na_deposit e s = s\<lparr>na_events := na_events s @ [e]\<rparr>"

definition nft_do :: "'x effect \<Rightarrow> 'x nac \<Rightarrow> 'x nac_effect" where
  "nft_do f s = (let (r, x) = f (na_ext s) in (map_err Extern r, s\<lparr>na_ext := x\<rparr>))"

text \<open>\<open>BoundedVec::try_from(..).unwrap_or_default()\<close>.\<close>

definition bounded_key :: "'x nac_env \<Rightarrow> byte_list \<Rightarrow> byte_list" where
  "bounded_key N key = (if length key \<le> n_key_limit N then key else [])"

section \<open>VIPP thresholds in the privileges pallet\<close>

definition mint_new_vipp_nft :: "account \<Rightarrow> balance \<Rightarrow> item \<Rightarrow> 'x nac \<Rightarrow> 'x nac" where
  "mint_new_vipp_nft who amount item_id s =
     (case VippMembers s who of
        Some info \<Rightarrow> s\<lparr>VippMembers := (VippMembers s)(who \<mapsto>
            info\<lparr>vp_threshold := vp_threshold info @ [(item_id, amount)]\<rparr>)\<rparr>
      | None \<Rightarrow> s\<lparr>VippMembers := (VippMembers s)(who \<mapsto>
            \<lparr>vp_points = 0, vp_threshold = [(item_id, amount)]\<rparr>)\<rparr>)"

definition drop_vipp_nft :: "account \<Rightarrow> item \<Rightarrow> 'x nac \<Rightarrow> 'x nac" where
  "drop_vipp_nft who current_item_id s =
     (case VippMembers s who of
        None \<Rightarrow> s
      | Some info \<Rightarrow>
          let t = filter (\<lambda>(item_id, _). item_id \<noteq> current_item_id) (vp_threshold info)
          in s\<lparr>VippMembers := (VippMembers s)(who := if t = [] then None
                 else Some (info\<lparr>vp_threshold := t\<rparr>))\<rparr>)"

section \<open>Levels and minting\<close>

definition update_nft_info :: "'x nac_env \<Rightarrow> collection \<Rightarrow> item \<Rightarrow> nat \<Rightarrow> account \<Rightarrow> 'x nac \<Rightarrow> 'x nac_effect" where
  "update_nft_info N c i nac_level owner s =
     (if n_value_limit N = 0 then (Inl (Module NacLevelIsIncorrect), s)
      else then_ok (nft_do (nx_set_attribute N c i (bounded_key N NAC_LEVEL_ATTRIBUTE_KEY) [nac_level]) s)
        (\<lambda>_ s1. (Inr (), na_deposit (NftUpdated owner nac_level)
                           (s1\<lparr>UsersNft := (UsersNft s1)(owner \<mapsto> (i, nac_level))\<rparr>))))"

definition do_mint :: "'x nac_env \<Rightarrow> item \<Rightarrow> account \<Rightarrow> 'x nac \<Rightarrow> 'x nac_effect" where
  "do_mint N i owner s =
     then_ok (nft_do (nx_mint_into N (n_collection N) i owner) s) (\<lambda>_ s1.
       (Inr (), na_deposit (NftMinted owner i)
          (s1\<lparr>na_rep := increase_creating (n_libm N) owner
                 (from_rank (n_libm N) (tier_rank (Vanguard 1))) (na_rep s1)\<rparr>)))"

text \<open>The item id: the first four bytes of the hash, combined by shifts.\<close>

definition le_word :: "byte_list \<Rightarrow> nat" where
  "le_word hash = foldl (\<lambda>r i. r OR push_bit (i * 8) (hash ! i)) 0 [0..<4]"

definition u32_le_bytes :: "nat \<Rightarrow> byte_list" where
  "u32_le_bytes n = map (\<lambda>i. n div 256 ^ i mod 256) [0..<4]"

definition create_unique_item_id :: "'x nac_env \<Rightarrow> nat \<Rightarrow> account \<Rightarrow> item" where
  "create_unique_item_id N now owner =
     le_word (n_hash N (n_encode_block N now @ u32_le_bytes EXTRINSIC_INDEX @ n_encode_account N owner))"

definition create_collection :: "'x nac_env \<Rightarrow> account \<Rightarrow> 'x nac \<Rightarrow> 'x nac_effect" where
  "create_collection N owner s = nft_do (nx_create_collection N owner) s"

definition first_owned :: "'x nac_env \<Rightarrow> 'x \<Rightarrow> account \<Rightarrow> item option" where
  "first_owned N x a = (case nx_owned_in_collection N x (n_collection N) a of [] \<Rightarrow> None | i # _ \<Rightarrow> Some i)"

text \<open>
  The level is the attribute's first byte. \<open>bytes[0]\<close> panics on an empty attribute, where nothing is known of
  \<open>hd\<close> either; \<open>update_nft_info\<close> stores one byte.
\<close>

definition get_nac_level :: "'x nac_env \<Rightarrow> 'x \<Rightarrow> account \<Rightarrow> (nat \<times> item) option" where
  "get_nac_level N x a =
     (case first_owned N x a of
        None \<Rightarrow> None
      | Some i \<Rightarrow> (case nx_system_attribute N x (n_collection N) i NAC_LEVEL_ATTRIBUTE_KEY of
            Some bs \<Rightarrow> Some (hd bs, i)
          | None \<Rightarrow> Some (DEFAULT_NAC_LEVEL, i)))"

definition user_has_access :: "'x nac_env \<Rightarrow> 'x \<Rightarrow> account \<Rightarrow> nat \<Rightarrow> bool" where
  "user_has_access N x a desired_access_level =
     (case get_nac_level N x a of Some (level, _) \<Rightarrow> desired_access_level \<le> level | None \<Rightarrow> False)"

definition nac_convert :: "'x nac_env \<Rightarrow> 'x \<Rightarrow> account \<Rightarrow> nat option" where
  "nac_convert N x who = map_option fst (get_nac_level N x who)"

definition nac_mint :: "'x nac_env \<Rightarrow> nat \<Rightarrow> origin \<Rightarrow> nat \<Rightarrow> account \<Rightarrow> 'x nac \<Rightarrow> 'x nac_result" where
  "nac_mint N now og nac_level owner s =
     rbind (ensure (n_admin_origin N og) BadOrigin) (\<lambda>_.
       case get_nac_level N (na_ext s) owner of
         Some (current_nac_level, i) \<Rightarrow>
           if current_nac_level = nac_level then Inl (Module NftAlreadyExist)
           else commit (update_nft_info N (n_collection N) i nac_level owner s)
       | None \<Rightarrow>
           let i = create_unique_item_id N now owner
           in commit (then_ok (do_mint N i owner s) (\<lambda>_ s1.
                update_nft_info N (n_collection N) i nac_level owner s1)))"

definition update_nft :: "'x nac_env \<Rightarrow> origin \<Rightarrow> nat option \<Rightarrow> account \<Rightarrow> 'x nac \<Rightarrow> 'x nac_result" where
  "update_nft N og new_nac_level owner s =
     rbind (ensure (n_admin_origin N og) BadOrigin) (\<lambda>_.
       case get_nac_level N (na_ext s) owner of
         Some (level, i) \<Rightarrow>
           commit (update_nft_info N (n_collection N) i (unwrap_or level new_nac_level) owner s)
       | None \<Rightarrow> Inl (Module NftNotFound))"

definition check_nac_level :: "'x nac_env \<Rightarrow> origin \<Rightarrow> account \<Rightarrow> 'x nac \<Rightarrow> 'x nac_result" where
  "check_nac_level N og owner s =
     rbind (ensure (n_admin_origin N og) BadOrigin) (\<lambda>_.
     rbind (ok_or (Module NftNotFound) (get_nac_level N (na_ext s) owner)) (\<lambda>(nac_level, _).
       Inr (na_deposit (UserNacLevel owner nac_level) s)))"

section \<open>Claimed amounts and VIPP NFTs\<close>

definition get_claim_balance :: "'x nac_env \<Rightarrow> 'x \<Rightarrow> account \<Rightarrow> (balance \<times> item) option" where
  "get_claim_balance N x a =
     (case first_owned N x a of
        None \<Rightarrow> None
      | Some i \<Rightarrow> (case nx_system_attribute N x (n_collection N) i CLAIM_AMOUNT_ATTRIBUTE_KEY of
            Some bs \<Rightarrow> (case n_decode N bs of Some b \<Rightarrow> Some (b, i) | None \<Rightarrow> None)
          | None \<Rightarrow> None))"

definition perbill_95 :: "'x nac_env \<Rightarrow> nat" where
  "perbill_95 N = pt_from_rational (n_perbill N) 95 100"

definition threshold_meets_vipp_requirements :: "'x nac_env \<Rightarrow> 'x \<Rightarrow> account \<Rightarrow> balance \<Rightarrow> bool" where
  "threshold_meets_vipp_requirements N x a claim_balance \<longleftrightarrow>
     pt_mul (n_perbill N) (perbill_95 N) claim_balance < nx_total_balance N x a"

definition get_active_vipp_amount :: "'x nac_env \<Rightarrow> 'x \<Rightarrow> account \<Rightarrow> balance" where
  "get_active_vipp_amount N x a =
     foldl (\<lambda>total i. case nx_system_attribute N x (n_vipp_collection N) i CLAIM_AMOUNT_ATTRIBUTE_KEY of
         Some bs \<Rightarrow> (case n_decode N bs of Some v \<Rightarrow> add_w 128 total v | None \<Rightarrow> total)
       | None \<Rightarrow> total) 0 (nx_owned_in_collection N x (n_vipp_collection N) a)"

definition mint_vipp_nft :: "'x nac_env \<Rightarrow> nat \<Rightarrow> account \<Rightarrow> 'x nac \<Rightarrow> (balance \<times> item) option \<times> 'x nac" where
  "mint_vipp_nft N now a s =
     (let x = na_ext s; active_vipp_amount = get_active_vipp_amount N x a; V = n_vipp_collection N
      in case get_claim_balance N x a of
           None \<Rightarrow> (None, s)
         | Some (claim_balance, _) \<Rightarrow>
             if threshold_meets_vipp_requirements N x a claim_balance \<and> active_vipp_amount \<le> claim_balance
             then let vipp_id = create_unique_item_id N now a;
                      amount = claim_balance - active_vipp_amount;
                      (result, s1) = nft_do (nx_mint_into N V vipp_id a) s;
                      (second_result, s2) =
                        nft_do (nx_set_attribute N V vipp_id CLAIM_AMOUNT_ATTRIBUTE_KEY (n_encode N amount)) s1
                  in case get_nac_level N (na_ext s2) a of
                       None \<Rightarrow> (None, s2)
                     | Some (_, item_id) \<Rightarrow>
                         if result = Inr () \<and> second_result = Inr ()
                         then (Some (pt_mul (n_perbill N) (perbill_95 N) amount, item_id),
                               na_deposit (VippNftMinted a item_id) s2)
                         else (None, s2)
             else (None, s))"

definition can_mint_vipp :: "'x nac_env \<Rightarrow> nat \<Rightarrow> account \<Rightarrow> 'x nac \<Rightarrow> (balance \<times> item) option \<times> 'x nac" where
  "can_mint_vipp N now a s =
     (case first_owned N (na_ext s) a of
        None \<Rightarrow> (None, s)
      | Some i \<Rightarrow> (case nx_system_attribute N (na_ext s) (n_collection N) i VIPP_STATUS_EXIST of
            Some _ \<Rightarrow> (None, s)
          | None \<Rightarrow> if get_claim_balance N (na_ext s) a \<noteq> None then mint_vipp_nft N now a s else (None, s)))"

text \<open>\<open>Vec<u8>\<close> values are ordered lexicographically.\<close>

fun bytes_less :: "byte_list \<Rightarrow> byte_list \<Rightarrow> bool" where
  "bytes_less _ [] = False"
| "bytes_less [] (_ # _) = True"
| "bytes_less (a # as) (b # bs) = (a < b \<or> a = b \<and> bytes_less as bs)"

text \<open>The loop of \<open>burn_vipp_nft\<close> that looks for the item with the lowest claim value.\<close>

fun lowest_claim ::
  "(item \<Rightarrow> byte_list option) \<Rightarrow> item list \<Rightarrow> (byte_list \<times> item) option \<Rightarrow> (byte_list \<times> item) option" where
  "lowest_claim f [] acc = acc"
| "lowest_claim f (i # is) acc = lowest_claim f is
     (case f i of
        None \<Rightarrow> acc
      | Some claim_value \<Rightarrow> (case acc of
            Some (min_claim, _) \<Rightarrow> if bytes_less claim_value min_claim then Some (claim_value, i) else acc
          | None \<Rightarrow> Some (claim_value, i)))"

definition set_inactive_attribute_vipp :: "'x nac_env \<Rightarrow> account \<Rightarrow> 'x nac \<Rightarrow> 'x nac" where
  "set_inactive_attribute_vipp N a s =
     (case get_nac_level N (na_ext s) a of
        None \<Rightarrow> s
      | Some (_, i) \<Rightarrow>
          let is_exist = (if n_value_limit N = 0 then [] else [1])
          in snd (nft_do (nx_set_attribute N (n_collection N) i (bounded_key N VIPP_STATUS_EXIST) is_exist) s))"

text \<open>The amount stored on the NAC, changed by \<open>f\<close>; \<open>decrease_thrsehold\<close> and \<open>on_claim\<close> share it.\<close>

definition currently_claimed :: "'x nac_env \<Rightarrow> 'x \<Rightarrow> item \<Rightarrow> balance" where
  "currently_claimed N x i = unwrap_or 0 (n_decode N
     (unwrap_or [] (nx_system_attribute N x (n_collection N) i CLAIM_AMOUNT_ATTRIBUTE_KEY)))"

definition set_claimed :: "'x nac_env \<Rightarrow> item \<Rightarrow> balance \<Rightarrow> 'x nac \<Rightarrow> 'x nac_effect" where
  "set_claimed N i v s =
     nft_do (nx_set_attribute N (n_collection N) i CLAIM_AMOUNT_ATTRIBUTE_KEY (n_encode N v)) s"

definition decrease_thrsehold :: "'x nac_env \<Rightarrow> account \<Rightarrow> balance \<Rightarrow> 'x nac \<Rightarrow> 'x nac_effect" where
  "decrease_thrsehold N a amount s =
     (case first_owned N (na_ext s) a of
        None \<Rightarrow> (Inl (Module NftNotFound), s)
      | Some i \<Rightarrow> set_claimed N i (currently_claimed N (na_ext s) i - amount) s)"

definition burn_vipp_nft :: "'x nac_env \<Rightarrow> account \<Rightarrow> 'x nac \<Rightarrow> bool \<times> 'x nac" where
  "burn_vipp_nft N a s =
     (let V = n_vipp_collection N; x = na_ext s
      in case lowest_claim (\<lambda>i. nx_system_attribute N x V i CLAIM_AMOUNT_ATTRIBUTE_KEY)
                (nx_owned_in_collection N x V a) None of
           Some (amount, item_id) \<Rightarrow>
             let s1 = snd (nft_do (nx_burn N V item_id a) s);
                 s2 = drop_vipp_nft a item_id s1
             in (True, snd (decrease_thrsehold N a (unwrap_or 0 (n_decode N amount)) s2))
         | None \<Rightarrow> (False, set_inactive_attribute_vipp N a s))"

partial_function (option) check_account_threshold :: "'x nac_env \<Rightarrow> account \<Rightarrow> 'x nac \<Rightarrow> 'x nac option" where
  "check_account_threshold N a s =
     (case get_claim_balance N (na_ext s) a of
        None \<Rightarrow> Some s
      | Some (claimed, _) \<Rightarrow>
          if \<not> threshold_meets_vipp_requirements N (na_ext s) a claimed
          then if fst (burn_vipp_nft N a s) then check_account_threshold N a (snd (burn_vipp_nft N a s))
               else Some (snd (burn_vipp_nft N a s))
          else Some s)"

text \<open>\<open>while burn_vipp_nft(account) {}\<close> of the privileges pallet.\<close>

partial_function (option) burn_all_vipp :: "'x nac_env \<Rightarrow> account \<Rightarrow> 'x nac \<Rightarrow> 'x nac option" where
  "burn_all_vipp N a s =
     (if fst (burn_vipp_nft N a s) then burn_all_vipp N a (snd (burn_vipp_nft N a s))
      else Some (snd (burn_vipp_nft N a s)))"

section \<open>Hooks\<close>

definition nac_on_new_account :: "'x nac_env \<Rightarrow> nat \<Rightarrow> account \<Rightarrow> 'x nac \<Rightarrow> 'x nac" where
  "nac_on_new_account N now who s =
     (if AccountReputation (na_rep s) who \<noteq> None then s
      else let s1 = s\<lparr>na_rep := rep_insert who (with_blocknumber now) (na_rep s)\<rparr>;
               item_id = create_unique_item_id N now who;
               (r, s2) = do_mint N item_id who s1
           in if r = Inr () then s2\<lparr>UsersNft := (UsersNft s2)(who \<mapsto> (item_id, DEFAULT_NAC_LEVEL))\<rparr>
              else s2)"

definition nac_on_claim :: "'x nac_env \<Rightarrow> nat \<Rightarrow> account \<Rightarrow> balance \<Rightarrow> 'x nac \<Rightarrow> 'x nac_effect" where
  "nac_on_claim N now who amount s =
     (case first_owned N (na_ext s) who of
        None \<Rightarrow> (Inl (Module NftNotFound), s)
      | Some i \<Rightarrow>
          let claimed = currently_claimed N (na_ext s) i
          in then_ok (set_claimed N i (sat_add 128 claimed amount) s) (\<lambda>_ s1.
               if claimed \<noteq> 0
               then case mint_vipp_nft N now who s1 of
                      (Some (v, vipp_item), s2) \<Rightarrow> (Inr (), mint_new_vipp_nft who v vipp_item s2)
                    | (None, s2) \<Rightarrow> (Inr (), s2)
               else (Inr (), s1)))"

definition on_withdraw_fee :: "'x nac_env \<Rightarrow> account \<Rightarrow> 'x nac \<Rightarrow> 'x nac option" where
  "on_withdraw_fee N who s = check_account_threshold N who s"

text \<open>The genesis build; \<open>None\<close> is a failing \<open>expect\<close>.\<close>

fun genesis_accounts :: "'x nac_env \<Rightarrow> nat \<Rightarrow> (account \<times> nat) list \<Rightarrow> 'x nac \<Rightarrow> 'x nac option" where
  "genesis_accounts N n [] s = Some s"
| "genesis_accounts N n ((account, level) # as) s =
     (case then_ok (do_mint N n account s) (\<lambda>_ s1.
         update_nft_info N (n_initial_collection N) n level account s1) of
        (Inl _, _) \<Rightarrow> None
      | (Inr _, s1) \<Rightarrow> genesis_accounts N (Suc n) as s1)"

fun nac_genesis :: "'x nac_env \<Rightarrow> account list \<Rightarrow> (account \<times> nat) list \<Rightarrow> 'x nac \<Rightarrow> 'x nac option" where
  "nac_genesis N [] accounts s = Some s"
| "nac_genesis N (owner # owners) accounts s =
     (case then_ok (create_collection N owner s) (\<lambda>_ s1. create_collection N owner s1) of
        (Inl _, _) \<Rightarrow> None
      | (Inr _, s1) \<Rightarrow> Option.bind (genesis_accounts N 0 accounts s1) (nac_genesis N owners accounts))"

end
