(* ===== verification/Claiming.thy ===== *)
theory Claiming
  imports Prelude
begin

text \<open>
  The pallet \<open>pallets/claiming\<close>: claims of Ethereum addresses on the tokens of the claim account,
  collected with a signature over the destination account, with optional vesting schedules and data.

  A byte is a \<open>nat\<close> below 256. Hashing, the recovery of a public key, the encoding of an account,
  the currency, the vesting pallet and the claim handler are the fields of the parameter \<open>E\<close>; the
  world they act on has the type \<open>'x\<close>, the claim data the type \<open>'d\<close>.
\<close>

section \<open>Data\<close>

type_synonym bytes = "nat list"
type_synonym eth_address = bytes
type_synonym schedule = "balance \<times> balance \<times> nat"

datatype claiming_event = Claimed account balance | TokenMintedToClaim balance

datatype claiming_error =
  NotEnoughTokensForClaim | InvalidEthereumSignature | SignerHasNoClaim | DuplicateVestingSchedule

record ('d, 'x) claiming =
  Claims :: "eth_address \<rightharpoonup> balance"
  cl_Vesting :: "eth_address \<rightharpoonup> schedule"
  ClaimsData :: "eth_address \<rightharpoonup> 'd"
  cl_events :: "claiming_event list"
  cl_ext :: 'x

record ('d, 'x) claiming_env =
  c_prefix :: bytes
  c_claim_account :: account
  c_encode :: "account \<Rightarrow> bytes"
  c_keccak :: "bytes \<Rightarrow> bytes"
  c_recover :: "bytes \<Rightarrow> bytes \<Rightarrow> bytes option"
  cx_transfer :: "account \<Rightarrow> account \<Rightarrow> balance \<Rightarrow> 'x \<Rightarrow> string + 'x"
  cx_deposit_creating :: "account \<Rightarrow> balance \<Rightarrow> 'x \<Rightarrow> 'x"
  cx_add_vesting_schedule :: "account \<Rightarrow> schedule \<Rightarrow> 'x \<Rightarrow> string + 'x"
  cx_on_claim :: "account \<Rightarrow> balance \<Rightarrow> 'd option \<Rightarrow> 'x \<Rightarrow> string + 'x"

datatype 'd claiming_call =
  CallClaim account bytes
| CallMintTokens balance
| CallMintClaim eth_address balance "schedule option" "'d option"

datatype invalid_transaction = InvalidCall | InvalidCustom claiming_error

record valid_transaction =
  vt_priority :: nat
  vt_provides :: "string \<times> eth_address"
  vt_longevity :: nat
  vt_propagate :: bool

type_synonym ('d, 'x) claiming_result = "claiming_error dispatch_error + ('d, 'x) claiming"

definition cl_deposit :: "claiming_event \<Rightarrow> ('d, 'x) claiming \<Rightarrow> ('d, 'x) claiming" where
  "cl_deposit e s = s\<lparr>cl_events := cl_events s @ [e]\<rparr>"

section \<open>The signed message\<close>

definition push_nibble :: "nat \<Rightarrow> nat" where
  "push_nibble n = (if n < 10 then 48 + n else 97 - 10 + n)"

definition to_ascii_hex :: "bytes \<Rightarrow> bytes" where
  "to_ascii_hex data = concat (map (\<lambda>b. [push_nibble (b div 16), push_nibble (b mod 16)]) data)"

text \<open>The loop that collects the decimal digits of the length, last digit first.\<close>

fun rev_digits :: "nat \<Rightarrow> bytes" where
  "rev_digits l = (if 0 < l then (48 + l mod 10) # rev_digits (l div 10) else [])"

declare rev_digits.simps [simp del]

lemma rev_digits_0 [simp]: "rev_digits 0 = []"
  by (simp add: rev_digits.simps)

text \<open>\<open>"\x19Ethereum Signed Message:\n"\<close>.\<close>

definition message_head :: bytes where
  "message_head = [25, 69, 116, 104, 101, 114, 101, 117, 109, 32, 83, 105, 103, 110, 101, 100, 32, 77,
     101, 115, 115, 97, 103, 101, 58, 10]"

definition ethereum_signable_message :: "('d, 'x) claiming_env \<Rightarrow> bytes \<Rightarrow> bytes \<Rightarrow> bytes" where
  "ethereum_signable_message E what extra =
     (let l = length (c_prefix E) + length what + length extra
      in message_head @ rev (rev_digits l) @ c_prefix E @ what @ extra)"

definition eth_recover :: "('d, 'x) claiming_env \<Rightarrow> bytes \<Rightarrow> bytes \<Rightarrow> bytes \<Rightarrow> eth_address option" where
  "eth_recover E sig what extra =
     (let msg = c_keccak E (ethereum_signable_message E what extra)
      in map_option (\<lambda>key. drop 12 (c_keccak E key)) (c_recover E sig msg))"

text \<open>The signer of a claim for \<open>dest\<close>.\<close>

definition claim_signer :: "('d, 'x) claiming_env \<Rightarrow> account \<Rightarrow> bytes \<Rightarrow> eth_address option" where
  "claim_signer E dest sig = eth_recover E sig (to_ascii_hex (c_encode E dest)) []"

section \<open>Addresses as text\<close>

text \<open>\<open>Serialize\<close> and \<open>Deserialize\<close>, with the \<open>rustc_hex\<close> conversions as parameters.\<close>

definition address_serialize :: "(bytes \<Rightarrow> bytes) \<Rightarrow> eth_address \<Rightarrow> bytes" where
  "address_serialize to_hex a = [48, 120] @ to_hex a"

definition address_deserialize :: "(bytes \<Rightarrow> bytes option) \<Rightarrow> bytes \<Rightarrow> eth_address option" where
  "address_deserialize from_hex base =
     (let offset = (if take 2 base = [48, 120] then 2 else 0); s = drop offset base
      in if length s \<noteq> 40 then None else from_hex s)"

section \<open>Operations\<close>

definition process_claim ::
  "('d, 'x) claiming_env \<Rightarrow> eth_address \<Rightarrow> account \<Rightarrow> ('d, 'x) claiming \<Rightarrow> ('d, 'x) claiming_result" where
  "process_claim E signer dest s =
     rbind (ok_or (Module SignerHasNoClaim) (Claims s signer)) (\<lambda>amount.
       let s1 = s\<lparr>Claims := (Claims s)(signer := None)\<rparr>
       in rbind (map_err (\<lambda>_. Module NotEnoughTokensForClaim)
                   (cx_transfer E (c_claim_account E) dest amount (cl_ext s1))) (\<lambda>x.
          let s2 = s1\<lparr>cl_ext := x\<rparr>
          in rbind (case cl_Vesting s2 signer of
                      None \<Rightarrow> Inr s2
                    | Some vs \<Rightarrow>
                        rbind (map_err Extern (cx_add_vesting_schedule E dest vs (cl_ext s2))) (\<lambda>x.
                          Inr (s2\<lparr>cl_Vesting := (cl_Vesting s2)(signer := None), cl_ext := x\<rparr>))) (\<lambda>s3.
             let data = ClaimsData s3 signer;
                 s4 = s3\<lparr>ClaimsData := (ClaimsData s3)(signer := None)\<rparr>
             in rbind (map_err Extern (cx_on_claim E dest amount data (cl_ext s4))) (\<lambda>x.
                  Inr (cl_deposit (Claimed dest amount) (s4\<lparr>cl_ext := x\<rparr>))))))"

definition claim ::
  "('d, 'x) claiming_env \<Rightarrow> origin \<Rightarrow> account \<Rightarrow> bytes \<Rightarrow> ('d, 'x) claiming \<Rightarrow> ('d, 'x) claiming_result" where
  "claim E og dest sig s =
     rbind (ensure_none og) (\<lambda>_.
     rbind (ok_or (Module InvalidEthereumSignature) (claim_signer E dest sig)) (\<lambda>signer.
       process_claim E signer dest s))"

definition mint_tokens_to_claim ::
  "('d, 'x) claiming_env \<Rightarrow> origin \<Rightarrow> balance \<Rightarrow> ('d, 'x) claiming \<Rightarrow> ('d, 'x) claiming_result" where
  "mint_tokens_to_claim E og amount s =
     rbind (ensure_root og) (\<lambda>_.
       Inr (cl_deposit (TokenMintedToClaim amount)
              (s\<lparr>cl_ext := cx_deposit_creating E (c_claim_account E) amount (cl_ext s)\<rparr>)))"

definition mint_claim ::
  "origin \<Rightarrow> eth_address \<Rightarrow> balance \<Rightarrow> schedule option \<Rightarrow> 'd option \<Rightarrow> ('d, 'x) claiming
   \<Rightarrow> ('d, 'x) claiming_result" where
  "mint_claim og who v vesting_schedule data s =
     rbind (ensure_root og) (\<lambda>_.
       let s1 = s\<lparr>Claims := (Claims s)(who \<mapsto> sat_add 128 (unwrap_or 0 (Claims s who)) v)\<rparr>
       in rbind (case vesting_schedule of
                   None \<Rightarrow> Inr s1
                 | Some vs \<Rightarrow>
                     rbind (ensure (cl_Vesting s1 who = None) (Module DuplicateVestingSchedule)) (\<lambda>_.
                       Inr (s1\<lparr>cl_Vesting := (cl_Vesting s1)(who \<mapsto> vs)\<rparr>))) (\<lambda>s2.
            Inr (s2\<lparr>ClaimsData := (ClaimsData s2)(who := data)\<rparr>)))"

definition claiming_validate_unsigned ::
  "('d, 'x) claiming_env \<Rightarrow> 'd claiming_call \<Rightarrow> ('d, 'x) claiming
   \<Rightarrow> invalid_transaction + valid_transaction" where
  "claiming_validate_unsigned E call s =
     (case call of
        CallClaim dest sig \<Rightarrow>
          rbind (ok_or (InvalidCustom InvalidEthereumSignature) (claim_signer E dest sig)) (\<lambda>signer.
          rbind (ensure (Claims s signer \<noteq> None) (InvalidCustom SignerHasNoClaim)) (\<lambda>_.
            Inr \<lparr>vt_priority = 100, vt_provides = (''claiming'', signer), vt_longevity = max_w 64,
                 vt_propagate = True\<rparr>))
      | _ \<Rightarrow> Inl InvalidCall)"

text \<open>Building the genesis; \<open>None\<close> is the panic on a duplicate claim.\<close>

fun genesis_claims :: "(eth_address \<times> balance) list \<Rightarrow> ('d, 'x) claiming \<Rightarrow> ('d, 'x) claiming option" where
  "genesis_claims [] s = Some s"
| "genesis_claims ((a, amount) # cs) s =
     (if Claims s a \<noteq> None then None else genesis_claims cs (s\<lparr>Claims := (Claims s)(a \<mapsto> amount)\<rparr>))"

definition genesis_vesting :: "(eth_address \<times> schedule) list \<Rightarrow> ('d, 'x) claiming \<Rightarrow> ('d, 'x) claiming" where
  "genesis_vesting vs s = fold (\<lambda>(k, v) t. t\<lparr>cl_Vesting := (cl_Vesting t)(k \<mapsto> v)\<rparr>) vs s"

definition claiming_genesis ::
  "(eth_address \<times> balance) list \<Rightarrow> (eth_address \<times> schedule) list \<Rightarrow> ('d, 'x) claiming
   \<Rightarrow> ('d, 'x) claiming option" where
  "claiming_genesis claims vesting s = map_option (genesis_vesting vesting) (genesis_claims claims s)"

section \<open>The encoding of the message\<close>

lemma length_to_ascii_hex: "length (to_ascii_hex d) = 2 * length d"
  by (induction d) (simp_all add: to_ascii_hex_def)

lemma push_nibble_inj: "m < 16 \<Longrightarrow> n < 16 \<Longrightarrow> push_nibble m = push_nibble n \<longleftrightarrow> m = n"
  by (auto simp: push_nibble_def)

lemma to_ascii_hex_inj:
  assumes "\<forall>b \<in> set d. b < 256" "\<forall>b \<in> set d'. b < 256" "to_ascii_hex d = to_ascii_hex d'"
  shows "d = d'"
  using assms
proof (induction d arbitrary: d')
  case Nil
  then show ?case by (cases d') (simp_all add: to_ascii_hex_def)
next
  case (Cons b d)
  obtain c e where d': "d' = c # e" using Cons.prems(3) by (cases d') (simp_all add: to_ascii_hex_def)
  have n: "b div 16 < 16" "c div 16 < 16" "b mod 16 < 16" "c mod 16 < 16" using Cons.prems(1,2) d' by auto
  have "b div 16 = c div 16" "b mod 16 = c mod 16" "to_ascii_hex d = to_ascii_hex e"
    using Cons.prems(3) d' push_nibble_inj [OF n(1,2)] push_nibble_inj [OF n(3,4)]
    by (simp_all add: to_ascii_hex_def)
  moreover from this have "b = c" by (metis div_mult_mod_eq)
  ultimately show ?case using Cons.IH [of e] Cons.prems(1,2) d' by simp
qed

lemma length_rev_digits_mono: "l \<le> m \<Longrightarrow> length (rev_digits l) \<le> length (rev_digits m)"
proof (induction l arbitrary: m rule: rev_digits.induct)
  case (1 l)
  show ?case
  proof (cases "0 < l")
    case True
    then have "length (rev_digits (l div 10)) \<le> length (rev_digits (m div 10))"
      using "1.IH" "1.prems" by (simp add: div_le_mono)
    then show ?thesis using True "1.prems" by (simp add: rev_digits.simps [of l] rev_digits.simps [of m])
  qed (simp add: rev_digits.simps [of l])
qed

text \<open>The digits really are the decimal notation of the length.\<close>

lemma rev_digits_value: "foldr (\<lambda>d n. 10 * n + (d - 48)) (rev_digits l) 0 = l"
proof (induction l rule: rev_digits.induct)
  case (1 l)
  then show ?case by (cases "0 < l") (simp_all add: rev_digits.simps [of l])
qed

text \<open>
  The message a claimant signs determines the destination: different encoded accounts have different
  messages, so a signature made for one destination is not a signature over another one's message.
\<close>

theorem signable_message_injective:
  assumes "\<forall>b \<in> set d. b < 256" "\<forall>b \<in> set d'. b < 256"
    and "ethereum_signable_message E (to_ascii_hex d) [] = ethereum_signable_message E (to_ascii_hex d') []"
  shows "d = d'"
proof -
  define p where "p = length (c_prefix E)"
  define D where "D n = rev_digits (p + 2 * n)" for n
  have eq: "rev (D (length d)) @ c_prefix E @ to_ascii_hex d = rev (D (length d')) @ c_prefix E @ to_ascii_hex d'"
    using assms(3) by (simp add: ethereum_signable_message_def length_to_ascii_hex D_def p_def)
  have len: "length (D (length d)) + 2 * length d = length (D (length d')) + 2 * length d'"
    using arg_cong [OF eq, of length] by (simp add: length_to_ascii_hex)
  have mono: "length (D m) \<le> length (D n)" if "m \<le> n" for m n
    unfolding D_def by (rule length_rev_digits_mono) (use that in simp)
  have "length d = length d'"
    using len mono [of "length d" "length d'"] mono [of "length d'" "length d"] by linarith
  then have "to_ascii_hex d = to_ascii_hex d'" using eq by simp
  then show ?thesis by (rule to_ascii_hex_inj [OF assms(1,2)])
qed

text \<open>The world of the witnesses: free balances; a signature is its own signer behind 12 bytes.\<close>

definition demo_claiming_env :: "(nat, account \<Rightarrow> balance) claiming_env" where
  "demo_claiming_env = \<lparr>c_prefix = [80, 97, 121], c_claim_account = 1, c_encode = (\<lambda>a. [a mod 256]),
     c_keccak = (\<lambda>b. b), c_recover = (\<lambda>sig _. Some (replicate 12 0 @ sig)),
     cx_transfer = (\<lambda>a b v x. if v \<le> x a then Inr (x(a := x a - v, b := x b + v)) else Inl ''funds''),
     cx_deposit_creating = (\<lambda>a v x. x(a := x a + v)),
     cx_add_vesting_schedule = (\<lambda>_ _ x. Inr x), cx_on_claim = (\<lambda>_ _ _ x. Inr x)\<rparr>"

definition demo_claiming :: "(nat, account \<Rightarrow> balance) claiming" where
  "demo_claiming = \<lparr>Claims = [[7] \<mapsto> 40, [8] \<mapsto> 2], cl_Vesting = [[7] \<mapsto> (30, 1, 5)],
     ClaimsData = Map.empty, cl_events = [], cl_ext = (\<lambda>a. if a = 1 then 100 else 0)\<rparr>"

theorem signable_message_injective_witness:
  "ethereum_signable_message demo_claiming_env (to_ascii_hex [171]) [] \<noteq>
   ethereum_signable_message demo_claiming_env (to_ascii_hex [172]) []"
  using signable_message_injective [of "[171]" "[172]" demo_claiming_env] by auto

section \<open>Claims\<close>

lemma process_claim_InrD:
  assumes "process_claim E signer dest s = Inr s'"
  obtains amount x where "Claims s signer = Some amount"
    "cx_transfer E (c_claim_account E) dest amount (cl_ext s) = Inr x"
    "Claims s' = (Claims s)(signer := None)" "cl_Vesting s' = (cl_Vesting s)(signer := None)"
    "ClaimsData s' = (ClaimsData s)(signer := None)" "cl_events s' = cl_events s @ [Claimed dest amount]"
  using assms that
  by (cases "cl_Vesting s signer") (auto simp: process_claim_def Let_def res_simps cl_deposit_def fun_upd_idem)

text \<open>C22.
  A claim pays exactly the stored amount from the claim account, once: afterwards the claim, its
  vesting schedule and its data are gone, nobody else's are touched, and every further claim with a
  signature of the same signer, for whatever destination, is rejected by the dispatchable and by the
  validation of unsigned transactions.
\<close>

theorem claim_pays_once:
  assumes "claim E NoOrigin dest sig s = Inr s'"
  shows "\<exists>signer amount x. claim_signer E dest sig = Some signer \<and> Claims s signer = Some amount \<and>
    cx_transfer E (c_claim_account E) dest amount (cl_ext s) = Inr x \<and>
    Claims s' = (Claims s)(signer := None) \<and> cl_Vesting s' = (cl_Vesting s)(signer := None) \<and>
    ClaimsData s' = (ClaimsData s)(signer := None) \<and>
    (\<forall>dest' sig'. claim_signer E dest' sig' = Some signer \<longrightarrow>
       claim E NoOrigin dest' sig' s' = Inl (Module SignerHasNoClaim) \<and>
       claiming_validate_unsigned E (CallClaim dest' sig') s' = Inl (InvalidCustom SignerHasNoClaim))"
proof -
  obtain signer where sg: "claim_signer E dest sig = Some signer" and p: "process_claim E signer dest s = Inr s'"
    using assms by (auto simp: claim_def res_simps)
  from p show ?thesis
  proof (rule process_claim_InrD)
    fix amount x
    assume *: "Claims s signer = Some amount" "cx_transfer E (c_claim_account E) dest amount (cl_ext s) = Inr x"
      "Claims s' = (Claims s)(signer := None)" "cl_Vesting s' = (cl_Vesting s)(signer := None)"
      "ClaimsData s' = (ClaimsData s)(signer := None)"
    then have "claim E NoOrigin dest' sig' s' = Inl (Module SignerHasNoClaim) \<and>
        claiming_validate_unsigned E (CallClaim dest' sig') s' = Inl (InvalidCustom SignerHasNoClaim)"
      if "claim_signer E dest' sig' = Some signer" for dest' sig'
      using that by (simp add: claim_def process_claim_def claiming_validate_unsigned_def)
    with sg * show ?thesis by blast
  qed
qed

theorem claim_pays_once_witness:
  "\<exists>s'. claim demo_claiming_env NoOrigin 3 [7] demo_claiming = Inr s' \<and> cl_ext s' 3 = 40 \<and> cl_ext s' 1 = 60 \<and>
     claim demo_claiming_env NoOrigin 4 [7] s' = Inl (Module SignerHasNoClaim)"
proof -
  have sg: "claim_signer demo_claiming_env d sig = Some sig" for d sig
    by (simp add: claim_signer_def eth_recover_def demo_claiming_env_def)
  obtain s' where s': "claim demo_claiming_env NoOrigin 3 [7] demo_claiming = Inr s'" "cl_ext s' 3 = 40" "cl_ext s' 1 = 60"
    by (simp add: claim_def sg process_claim_def) (simp add: demo_claiming_env_def demo_claiming_def cl_deposit_def)
  from claim_pays_once [OF s'(1)] have "claim demo_claiming_env NoOrigin 4 [7] s' = Inl (Module SignerHasNoClaim)"
    by (auto simp: sg)
  with s' show ?thesis by blast
qed

text \<open>
  Minting: the claim grows by the amount, other addresses keep theirs, and an address that already has
  a schedule keeps it.
\<close>

lemma mint_claim_effect:
  assumes "mint_claim Root who v vs data s = Inr s'"
  shows "Claims s' = (Claims s)(who \<mapsto> sat_add 128 (unwrap_or 0 (Claims s who)) v)"
    and "cl_Vesting s' = (case vs of None \<Rightarrow> cl_Vesting s | Some x \<Rightarrow> (cl_Vesting s)(who \<mapsto> x))"
    and "vs \<noteq> None \<Longrightarrow> cl_Vesting s who = None" and "ClaimsData s' = (ClaimsData s)(who := data)"
  using assms by (auto simp: mint_claim_def Let_def res_simps split: option.splits)

lemma mint_claim_fails_iff:
  "(\<exists>e. mint_claim og who v vs data s = Inl e) \<longleftrightarrow> og \<noteq> Root \<or> vs \<noteq> None \<and> cl_Vesting s who \<noteq> None"
  by (cases og) (auto simp: mint_claim_def Let_def rbind_Inl_iff ensure_def split: option.splits)

lemma genesis_claims_Some:
  "genesis_claims cs t = Some t' \<Longrightarrow> distinct (map fst cs) \<and> (\<forall>a \<in> fst ` set cs. Claims t a = None) \<and>
     Claims t' = Claims t ++ map_of cs"
proof (induction cs t rule: genesis_claims.induct)
  case (2 a v cs t)
  from "2.prems" have n: "Claims t a = None" by (auto split: if_splits)
  with 2 show ?case
    by (auto simp: map_add_def fun_eq_iff map_of_eq_None_iff image_iff split: option.splits if_splits)
qed simp

lemma genesis_vesting_claims [simp]: "Claims (genesis_vesting vs t) = Claims t"
  unfolding genesis_vesting_def by (induction vs arbitrary: t) (auto split: prod.splits)

lemma claiming_genesis_claims:
  assumes "claiming_genesis claims vesting s = Some s'" "Claims s = Map.empty"
  shows "distinct (map fst claims)" "Claims s' = map_of claims"
  using assms genesis_claims_Some [of claims s] by (auto simp: claiming_genesis_def)

text \<open>Text round trip of an address, for any hexadecimal codec that is a round trip on it.\<close>

lemma address_roundtrip:
  assumes "length (to_hex a) = 40" "from_hex (to_hex a) = Some a"
  shows "address_deserialize from_hex (address_serialize to_hex a) = Some a"
  using assms by (simp add: address_deserialize_def address_serialize_def)

end
