(* ===== verification/EvmAccess.thy ===== *)
theory EvmAccess
  imports EnergyFee NacManaging Claiming
begin

text \<open>
  The EVM's gate in the runtime: \<open>helpers/runner.rs\<close> (a runner that asks for a NAC level before it calls,
  creates or validates), the checks of a self-contained Ethereum transaction and the adapter that makes
  the energy asset the currency of the EVM (both in \<open>runtime/vitreus/src/lib.rs\<close>).

  The stack runner it wraps, the Ethereum pallet and the assets are parameters. The state is the one of
  the energy fee pallet, whose world also holds the NFTs that give the access levels.
\<close>

section \<open>The runner\<close>

definition VALIDATE_ACCESS_LEVEL :: nat where "VALIDATE_ACCESS_LEVEL = 1"
definition CREATE_ACCESS_LEVEL :: nat where "CREATE_ACCESS_LEVEL = 3"
definition CALL_ACCESS_LEVEL :: nat where "CALL_ACCESS_LEVEL = 1"

record runner_args =
  ra_source :: eth_address
  ra_target :: "eth_address option"
  ra_input :: bytes
  ra_salt :: "bytes option"
  ra_value :: nat
  ra_gas_limit :: nat
  ra_max_fee_per_gas :: "nat option"
  ra_max_priority_fee_per_gas :: "nat option"
  ra_nonce :: "nat option"
  ra_access_list :: "(eth_address \<times> bytes list) list"
  ra_is_transactional :: bool
  ra_validate :: bool
  ra_weight_limit :: "weight option"
  ra_proof_size_base_cost :: "nat option"

datatype runner_error = RunnerError string weight

record used_gas =
  ug_standard :: nat
  ug_effective :: nat

record 'r run_info =
  ri_used_gas :: used_gas
  ri_rest :: 'r

record ('x, 'i, 'r) runner_env =
  r_nac :: "'x nac_env"
  r_fee :: "('x, 'i) fee_env"
  r_account :: "eth_address \<Rightarrow> account"
  r_constant_gas_limit :: nat
  rx_validate :: "runner_args \<Rightarrow> 'x fee_state \<Rightarrow> runner_error + unit"
  rx_call :: "runner_args \<Rightarrow> 'x fee_state \<Rightarrow> runner_error + 'r run_info \<times> 'x fee_state"
  rx_create :: "runner_args \<Rightarrow> 'x fee_state \<Rightarrow> runner_error + 'r run_info \<times> 'x fee_state"
  rx_create2 :: "runner_args \<Rightarrow> 'x fee_state \<Rightarrow> runner_error + 'r run_info \<times> 'x fee_state"

definition evm_user_has_permission ::
  "('x, 'i, 'r) runner_env \<Rightarrow> eth_address \<Rightarrow> weight option \<Rightarrow> nat \<Rightarrow> 'x fee_state \<Rightarrow> runner_error + unit" where
  "evm_user_has_permission R source weight_limit access_level s =
     ensure (user_has_access (r_nac R) (fe_world s) (r_account R source) access_level)
       (RunnerError ''Undefined'' (unwrap_or \<lparr>ref_time = 0, proof_size = 0\<rparr> weight_limit))"

definition calculate_gas :: "('x, 'i, 'r) runner_env \<Rightarrow> runtime_call \<Rightarrow> 'x fee_state \<Rightarrow> used_gas" where
  "calculate_gas R call s =
     (let gas = into_inner (dispatch_info_to_fee (r_fee R) s call None None)
      in \<lparr>ug_standard = gas, ug_effective = gas\<rparr>)"

definition nac_validate :: "('x, 'i, 'r) runner_env \<Rightarrow> runner_args \<Rightarrow> 'x fee_state \<Rightarrow> runner_error + unit" where
  "nac_validate R a s =
     rbind (evm_user_has_permission R (ra_source a) (ra_weight_limit a) VALIDATE_ACCESS_LEVEL s) (\<lambda>_. rx_validate R a s)"

text \<open>The calls replace the gas limit by the constant one and the gas used by the fee.\<close>

definition gated_run ::
  "('x, 'i, 'r) runner_env \<Rightarrow> nat \<Rightarrow> (runner_args \<Rightarrow> 'x fee_state \<Rightarrow> runner_error + 'r run_info \<times> 'x fee_state)
   \<Rightarrow> runner_args \<Rightarrow> 'x fee_state \<Rightarrow> runner_error + 'r run_info \<times> 'x fee_state" where
  "gated_run R level run a s =
     rbind (evm_user_has_permission R (ra_source a) (ra_weight_limit a) level s) (\<lambda>_.
       let gas = calculate_gas R EVMCall s
       in rbind (run (a\<lparr>ra_gas_limit := r_constant_gas_limit R\<rparr>) s) (\<lambda>(info, s1).
            Inr (info\<lparr>ri_used_gas := gas\<rparr>, s1)))"

definition nac_call :: "('x, 'i, 'r) runner_env \<Rightarrow> runner_args \<Rightarrow> 'x fee_state \<Rightarrow> runner_error + 'r run_info \<times> 'x fee_state" where
  "nac_call R = gated_run R CALL_ACCESS_LEVEL (rx_call R)"

definition nac_create :: "('x, 'i, 'r) runner_env \<Rightarrow> runner_args \<Rightarrow> 'x fee_state \<Rightarrow> runner_error + 'r run_info \<times> 'x fee_state" where
  "nac_create R = gated_run R CREATE_ACCESS_LEVEL (rx_create R)"

definition nac_create2 :: "('x, 'i, 'r) runner_env \<Rightarrow> runner_args \<Rightarrow> 'x fee_state \<Rightarrow> runner_error + 'r run_info \<times> 'x fee_state" where
  "nac_create2 R = gated_run R CREATE_ACCESS_LEVEL (rx_create2 R)"

lemma gated_run_InrD:
  assumes "gated_run R level run a s = Inr (info, s1)"
  shows "user_has_access (r_nac R) (fe_world s) (r_account R (ra_source a)) level"
    "ri_used_gas info = \<lparr>ug_standard = ethereum_fee (r_fee R) s, ug_effective = ethereum_fee (r_fee R) s\<rparr>"
    "\<exists>i. run (a\<lparr>ra_gas_limit := r_constant_gas_limit R\<rparr>) s = Inr (i, s1)"
  using assms by (auto simp: gated_run_def evm_user_has_permission_def calculate_gas_def res_simps Let_def)

section \<open>Self-contained transactions\<close>

datatype 'e validity_error = PaymentError | AccessRestricted | OtherInvalid 'e

record ('x, 'i, 'c, 'v, 'e) ethereum_env =
  h_nac :: "'x nac_env"
  h_fee :: "('x, 'i) fee_env"
  h_account :: "eth_address \<Rightarrow> account"
  h_is_self_contained :: "'c \<Rightarrow> bool"
  h_check :: "'c \<Rightarrow> ('e + eth_address) option"
  h_validate :: "'c \<Rightarrow> eth_address \<Rightarrow> 'i \<Rightarrow> nat \<Rightarrow> ('e + 'v) option"
  h_pre_dispatch :: "'c \<Rightarrow> eth_address \<Rightarrow> 'i \<Rightarrow> nat \<Rightarrow> ('e + unit) option"
  hx_native_balance :: "'x \<Rightarrow> account \<Rightarrow> balance"

text \<open>A call of the runtime with the Ethereum call it carries, if it is one.\<close>

type_synonym 'c contained_call = "'c option"

definition is_self_contained :: "('x, 'i, 'c, 'v, 'e) ethereum_env \<Rightarrow> 'c contained_call \<Rightarrow> bool" where
  "is_self_contained H call = (case call of Some c \<Rightarrow> h_is_self_contained H c | None \<Rightarrow> False)"

definition check_self_contained :: "('x, 'i, 'c, 'v, 'e) ethereum_env \<Rightarrow> 'c contained_call \<Rightarrow> ('e + eth_address) option" where
  "check_self_contained H call = (case call of Some c \<Rightarrow> h_check H c | None \<Rightarrow> None)"

definition validate_self_contained ::
  "('x, 'i, 'c, 'v, 'e) ethereum_env \<Rightarrow> 'c contained_call \<Rightarrow> eth_address \<Rightarrow> 'i \<Rightarrow> nat \<Rightarrow> 'x fee_state
   \<Rightarrow> ('e validity_error + 'v) option" where
  "validate_self_contained H call info dispatch_info len s =
     (case call of
        None \<Rightarrow> None
      | Some c \<Rightarrow>
          let account_id = h_account H info;
              payable = (case dispatch_info_to_fee (h_fee H) s EthereumCall (Some dispatch_info) None of
                  EVM amount \<Rightarrow> (case calculate_fee_parts (h_fee H) account_id amount s of
                      Some (_, fee_vtrs_amount) \<Rightarrow> fee_vtrs_amount \<le> hx_native_balance H (fe_world s) account_id
                    | None \<Rightarrow> False)
                | Regular _ \<Rightarrow> True)
          in if \<not> payable then Some (Inl PaymentError)
             else if \<not> user_has_access (h_nac H) (fe_world s) account_id CALL_ACCESS_LEVEL
             then Some (Inl AccessRestricted)
             else map_option (map_err OtherInvalid) (h_validate H c info dispatch_info len))"

definition pre_dispatch_self_contained ::
  "('x, 'i, 'c, 'v, 'e) ethereum_env \<Rightarrow> 'c contained_call \<Rightarrow> eth_address \<Rightarrow> 'i \<Rightarrow> nat \<Rightarrow> ('e + unit) option" where
  "pre_dispatch_self_contained H call info dispatch_info len =
     (case call of Some c \<Rightarrow> h_pre_dispatch H c info dispatch_info len | None \<Rightarrow> None)"

text \<open>
  A valid transaction comes from an account with the access level of calls, whose energy covers the fee
  up to a native part that the account has.
\<close>

lemma validated_transaction:
  assumes "validate_self_contained H (Some c) info di len s = Some (Inr v)"
  shows "user_has_access (h_nac H) (fe_world s) (h_account H info) CALL_ACCESS_LEVEL"
    "\<exists>energy native. calculate_fee_parts (h_fee H) (h_account H info) (ethereum_fee (h_fee H) s) s = Some (energy, native) \<and>
       native \<le> hx_native_balance H (fe_world s) (h_account H info)"
    "h_validate H c info di len = Some (Inr v)"
  using assms by (auto simp: validate_self_contained_def Let_def map_err_Inr_iff split: if_splits option.splits)

section \<open>The energy asset as a currency\<close>

record 'x asset =
  q_total_balance :: "'x \<Rightarrow> account \<Rightarrow> balance"
  q_total_issuance :: "'x \<Rightarrow> balance"
  q_minimum_balance :: "'x \<Rightarrow> balance"
  q_balance :: "'x \<Rightarrow> account \<Rightarrow> balance"
  q_reducible :: "'x \<Rightarrow> account \<Rightarrow> bool \<Rightarrow> balance"
  q_can_withdraw :: "'x \<Rightarrow> account \<Rightarrow> balance \<Rightarrow> string + unit"
  q_rescind :: "balance \<Rightarrow> 'x \<Rightarrow> 'x \<times> balance"
  q_issue :: "balance \<Rightarrow> 'x \<Rightarrow> 'x \<times> balance"
  q_transfer :: "account \<Rightarrow> account \<Rightarrow> balance \<Rightarrow> bool \<Rightarrow> 'x \<Rightarrow> string + 'x"
  q_withdraw_best_effort :: "account \<Rightarrow> balance \<Rightarrow> 'x \<Rightarrow> string + 'x \<times> balance"
  q_withdraw_exact :: "account \<Rightarrow> balance \<Rightarrow> bool \<Rightarrow> 'x \<Rightarrow> string + 'x \<times> balance"
  q_deposit_exact :: "account \<Rightarrow> balance \<Rightarrow> 'x \<Rightarrow> string + 'x \<times> balance"
  q_set_balance :: "account \<Rightarrow> balance \<Rightarrow> 'x \<Rightarrow> 'x"

text \<open>\<open>True\<close> preserves the account. Imbalances are their amounts.\<close>

definition ca_free_balance :: "'x asset \<Rightarrow> 'x \<Rightarrow> account \<Rightarrow> balance" where
  "ca_free_balance Q x who = q_reducible Q x who True"

definition ca_can_slash :: "'x asset \<Rightarrow> 'x \<Rightarrow> account \<Rightarrow> balance \<Rightarrow> bool" where
  "ca_can_slash Q x who v = (v = 0 \<or> v \<le> ca_free_balance Q x who)"

definition ca_burn :: "'x asset \<Rightarrow> balance \<Rightarrow> 'x \<Rightarrow> 'x \<times> balance" where
  "ca_burn Q amount x = (if amount = 0 then (x, 0) else q_rescind Q amount x)"

definition ca_issue :: "'x asset \<Rightarrow> balance \<Rightarrow> 'x \<Rightarrow> 'x \<times> balance" where
  "ca_issue Q amount x = (if amount = 0 then (x, 0) else q_issue Q amount x)"

definition ca_ensure_can_withdraw :: "'x asset \<Rightarrow> 'x \<Rightarrow> account \<Rightarrow> balance \<Rightarrow> string + unit" where
  "ca_ensure_can_withdraw Q x who amount = (if amount = 0 then Inr () else q_can_withdraw Q x who amount)"

definition ca_transfer :: "'x asset \<Rightarrow> account \<Rightarrow> account \<Rightarrow> balance \<Rightarrow> bool \<Rightarrow> 'x \<Rightarrow> string + 'x" where
  "ca_transfer Q source dest v keep_alive x =
     (if v = 0 then Inr x else q_transfer Q source dest v keep_alive x)"

definition ca_slash :: "'x asset \<Rightarrow> account \<Rightarrow> balance \<Rightarrow> 'x \<Rightarrow> 'x \<times> balance \<times> balance" where
  "ca_slash Q who v x =
     (if v = 0 then (x, 0, 0)
      else let (y, imbalance) = (case q_withdraw_best_effort Q who v x of Inr r \<Rightarrow> r | Inl _ \<Rightarrow> (x, 0))
           in (y, imbalance, v - imbalance))"

definition ca_deposit_into_existing :: "'x asset \<Rightarrow> account \<Rightarrow> balance \<Rightarrow> 'x \<Rightarrow> string + 'x \<times> balance" where
  "ca_deposit_into_existing Q who v x = (if v = 0 then Inr (x, 0) else q_deposit_exact Q who v x)"

definition ca_deposit_creating :: "'x asset \<Rightarrow> account \<Rightarrow> balance \<Rightarrow> 'x \<Rightarrow> 'x \<times> balance" where
  "ca_deposit_creating Q who v x =
     (if v = 0 then (x, 0) else (case q_deposit_exact Q who v x of Inr r \<Rightarrow> r | Inl _ \<Rightarrow> (x, 0)))"

definition ca_withdraw :: "'x asset \<Rightarrow> account \<Rightarrow> balance \<Rightarrow> bool \<Rightarrow> 'x \<Rightarrow> string + 'x \<times> balance" where
  "ca_withdraw Q who v keep_alive x = (if v = 0 then Inr (x, 0) else q_withdraw_exact Q who v keep_alive x)"

definition ca_make_free_balance_be :: "'x asset \<Rightarrow> account \<Rightarrow> balance \<Rightarrow> 'x \<Rightarrow> 'x \<times> balance" where
  "ca_make_free_balance_be Q who b x = (q_set_balance Q who b x, 0)"

text \<open>A slash takes what is there and reports what is missing.\<close>

lemma ca_slash_parts:
  assumes "\<And>y n. q_withdraw_best_effort Q who v x = Inr (y, n) \<Longrightarrow> n \<le> v" "ca_slash Q who v x = (y, taken, remaining)"
  shows "taken + remaining = v"
  using assms by (auto simp: ca_slash_def split: if_splits sum.splits)

section \<open>The configuration of the EVM\<close>

text \<open>The name, symbol and decimals of the ERC-20 face of the native currency, which is not the EVM's own.\<close>

record erc20_metadata =
  em_name :: string
  em_symbol :: string
  em_decimals :: nat
  em_is_native_currency :: bool

definition native_erc20_metadata :: erc20_metadata where
  "native_erc20_metadata = \<lparr>em_name = ''VTRS token'', em_symbol = ''VTRS'', em_decimals = 18,
     em_is_native_currency = False\<rparr>"

datatype precompile = ECRecover | Sha256 | Ripemd160 | IdentityPrecompile | Modexp | Sha3FIPS256
  | ECRecoverPublicKey | Erc20Balances

datatype precompile_check = AcceptDelegateCall | CallableByContract | CallableByPrecompile

definition EthereumPrecompilesChecks :: "precompile_check set" where
  "EthereumPrecompilesChecks = {AcceptDelegateCall, CallableByContract, CallableByPrecompile}"

definition vitreus_precompiles_at :: "nat \<rightharpoonup> precompile \<times> precompile_check set" where
  "vitreus_precompiles_at = map_of
     [(1, ECRecover, EthereumPrecompilesChecks), (2, Sha256, EthereumPrecompilesChecks),
      (3, Ripemd160, EthereumPrecompilesChecks), (4, IdentityPrecompile, EthereumPrecompilesChecks),
      (5, Modexp, EthereumPrecompilesChecks),
      (1024, Sha3FIPS256, {CallableByContract, CallableByPrecompile}),
      (1025, ECRecoverPublicKey, {CallableByContract, CallableByPrecompile}),
      (2048, Erc20Balances, {CallableByContract, CallableByPrecompile})]"

definition vitreus_precompiles :: "nat \<Rightarrow> (precompile \<times> precompile_check set) option" where
  "vitreus_precompiles address = (if 1 \<le> address \<and> address \<le> 4095 then vitreus_precompiles_at address else None)"

text \<open>Every precompile is inside the range that is searched, and only Ethereum's own accept a delegate call.\<close>

lemma precompiles_in_range: "vitreus_precompiles = vitreus_precompiles_at"
  by (auto simp: vitreus_precompiles_def vitreus_precompiles_at_def fun_eq_iff)

lemma delegate_calls:
  "vitreus_precompiles address = Some (p, cs) \<Longrightarrow> AcceptDelegateCall \<in> cs \<longleftrightarrow> address < 1024"
  by (auto simp: precompiles_in_range vitreus_precompiles_at_def EthereumPrecompilesChecks_def split: if_splits)

definition fixed_min_gas_price :: "nat \<times> weight" where
  "fixed_min_gas_price = (1, \<lparr>ref_time = 0, proof_size = 0\<rparr>)"

text \<open>
  The author of a block in the EVM: twenty bytes of the public key of the Babe authority the digests name.
  \<open>None\<close> is the panic of an index out of range; \<open>find_index\<close> is Babe's own search in the digests.
\<close>

definition find_author_truncated ::
  "('d \<Rightarrow> nat option) \<Rightarrow> (bytes \<times> nat) list \<Rightarrow> 'd \<Rightarrow> bytes option option" where
  "find_author_truncated find_index authorities digests =
     (case find_index digests of
        None \<Rightarrow> Some None
      | Some author_index \<Rightarrow>
          if author_index < length authorities \<and> 24 \<le> length (fst (authorities ! author_index))
          then Some (Some (take 20 (drop 4 (fst (authorities ! author_index))))) else None)"

text \<open>The digest of a pending block (\<open>rpc/src/consensus_data_providers.rs\<close>): a plain slot of the first authority.\<close>

datatype pre_digest = SecondaryPlain nat nat
datatype inherent_error = InherentError string | MissingInherent

definition create_digest :: "string + nat option \<Rightarrow> inherent_error + pre_digest list" where
  "create_digest babe_inherent_data =
     (case babe_inherent_data of
        Inl e \<Rightarrow> Inl (InherentError e)
      | Inr None \<Rightarrow> Inl MissingInherent
      | Inr (Some slot) \<Rightarrow> Inr [SecondaryPlain slot 0])"

text \<open>A pending block is the first authority's, whoever will author it.\<close>

lemma pending_author:
  assumes "create_digest data = Inr digests"
    and "\<And>slot i. find_index [SecondaryPlain slot i] = Some i"
    and "authorities = (public, w) # rest" and "length public = 32"
  shows "find_author_truncated find_index authorities digests = Some (Some (take 20 (drop 4 public)))"
  using assms by (auto simp: create_digest_def find_author_truncated_def split: sum.splits option.splits)

section \<open>Transactions signed off chain\<close>

text \<open>\<open>u32::checked_next_power_of_two\<close>, and the mortality of a transaction that an off-chain worker signs.\<close>

fun power_above :: "nat \<Rightarrow> nat \<Rightarrow> nat \<Rightarrow> nat option" where
  "power_above 0 p n = None"
| "power_above (Suc k) p n = (if n \<le> p then Some p else power_above k (2 * p) n)"

definition checked_next_power_of_two :: "nat \<Rightarrow> nat option" where
  "checked_next_power_of_two n = power_above 32 1 n"

definition offchain_mortality :: "nat \<Rightarrow> nat \<Rightarrow> nat \<times> nat" where
  "offchain_mortality block_hash_count block_number =
     (unwrap_or 2 (map_option (\<lambda>c. c div 2) (checked_next_power_of_two block_hash_count)), block_number - 1)"

lemma power_above_Some: "power_above k p n = Some q \<Longrightarrow> n \<le> q \<and> (q = p \<or> q < 2 * n)"
  by (induction k p n rule: power_above.induct) (fastforce split: if_splits)+

text \<open>A transaction signed off chain never outlives the block hashes the chain remembers.\<close>

lemma offchain_mortality_remembered:
  "2 \<le> n \<Longrightarrow> fst (offchain_mortality n b) \<le> n"
  using power_above_Some [of 32 1 n]
  by (cases "checked_next_power_of_two n") (auto simp: offchain_mortality_def checked_next_power_of_two_def)

end
