(* ===== verification/RuntimePolicy.thy ===== *)
theory RuntimePolicy
  imports Reputation Arith Claiming EnergyFee
begin

text \<open>
  Policies the runtime itself defines (\<open>runtime/vitreus/src\<close>): the exposure bonus of a reputation tier,
  the kickstart claim handler, the filter of proxies, the order of origins in the scheduler, and the XCM
  adapter that takes fees on wrapped tokens.
\<close>

section \<open>The exposure multiplier\<close>

definition tier_bonus :: "(nat \<Rightarrow> nat \<Rightarrow> nat) \<Rightarrow> tier \<Rightarrow> nat" where
  "tier_bonus from_rational k =
     (case k of
        Vanguard r \<Rightarrow>
          if r = 2 then from_rational 2 100 else if r = 3 then from_rational 4 100 else 0
      | Trailblazer r \<Rightarrow>
          if r = 0 then from_rational 5 100 else if r = 1 then from_rational 8 100
          else if r = 2 then from_rational 10 100 else if r = 3 then from_rational 12 100 else 0
      | Ultramodern r \<Rightarrow>
          if r = 0 then from_rational 13 100 else if r = 1 then from_rational 16 100
          else if r = 2 then from_rational 18 100 else if r = 3 then from_rational 20 100
          else let additional_percentage = r - RANKS_PER_TIER
               in from_rational (sat_add 8 20 additional_percentage) 100)"

definition bonus_part :: "(nat \<Rightarrow> nat \<Rightarrow> nat) \<Rightarrow> rep_state \<Rightarrow> account \<Rightarrow> nat" where
  "bonus_part from_rational R account_id =
     (case AccountReputation R account_id of
        None \<Rightarrow> 0
      | Some record \<Rightarrow> (case rep_tier (rr_reputation record) of None \<Rightarrow> 0 | Some k \<Rightarrow> tier_bonus from_rational k))"

text \<open>The parts of a tuple of multipliers are added; the total has a base of one.\<close>

definition tuple_bonus_part :: "(account \<Rightarrow> nat) list \<Rightarrow> account \<Rightarrow> nat" where
  "tuple_bonus_part parts account_id = foldl (\<lambda>acc part. sat_add 64 acc (part account_id)) 0 parts"

definition exposure_multiplier :: "(account \<Rightarrow> nat) \<Rightarrow> account \<Rightarrow> nat" where
  "exposure_multiplier bonus account_id = sat_add 64 1000000000 (bonus account_id)"

text \<open>A higher tier never has a lower bonus.\<close>

lemma tier_bonus_mono:
  assumes mono: "\<And>a b. a \<le> b \<Longrightarrow> from_rational a 100 \<le> (from_rational b 100 :: nat)"
    and wf: "tier_wf a" "tier_wf b" and le: "a \<le> b"
  shows "tier_bonus from_rational a \<le> tier_bonus from_rational b"
proof -
  define pct where "pct k = (case k of
      Vanguard r \<Rightarrow> if r \<le> 1 then 0 else 2 * (r - 1)
    | Trailblazer r \<Rightarrow> [5, 8, 10, 12] ! r
    | Ultramodern r \<Rightarrow> if r \<le> 3 then [13, 16, 18, 20] ! r else sat_add 8 20 (r - 3))" for k :: tier
  have b: "tier_bonus from_rational k = (if k = Vanguard 1 then 0 else from_rational (pct k) 100)" if "tier_wf k" for k
  proof (cases k)
    case (Vanguard r)
    then have "r = 1 \<or> r = 2 \<or> r = 3" using that by auto
    then show ?thesis using Vanguard by (auto simp: tier_bonus_def pct_def)
  next
    case (Trailblazer r)
    then have "r = 0 \<or> r = 1 \<or> r = 2 \<or> r = 3" using that by auto
    then show ?thesis using Trailblazer by (auto simp: tier_bonus_def pct_def)
  next
    case (Ultramodern r)
    then show ?thesis
      by (cases "r = 0 \<or> r = 1 \<or> r = 2 \<or> r = 3") (auto simp: tier_bonus_def pct_def RANKS_PER_TIER_def Let_def)
  qed
  have v: "pct (Vanguard r) \<le> 4" if "r \<le> 3" for r using that by (auto simp: pct_def)
  have t: "5 \<le> pct (Trailblazer r) \<and> pct (Trailblazer r) \<le> 12" if "r \<le> 3" for r
    using that by (auto simp: pct_def nth_Cons' )
  have u: "13 \<le> pct (Ultramodern r)" for r by (auto simp: pct_def nth_Cons' sat_add_def max_w_def)
  have p: "pct a \<le> pct b"
  proof (cases a; cases b)
    fix r q assume "a = Trailblazer r" "b = Trailblazer q"
    then show ?thesis using wf le by (auto simp: pct_def tier_order nth_Cons')
  next
    fix r q assume "a = Ultramodern r" "b = Ultramodern q"
    then show ?thesis using wf le by (auto simp: pct_def tier_order nth_Cons' sat_add_def max_w_def)
  next
    fix r q assume "a = Vanguard r" "b = Vanguard q"
    then show ?thesis using wf le by (auto simp: pct_def tier_order)
  next
    fix r q assume "a = Vanguard r" "b = Trailblazer q"
    then show ?thesis using v [of r] t [of q] wf by auto
  next
    fix r q assume "a = Vanguard r" "b = Ultramodern q"
    then show ?thesis using v [of r] u [of q] wf by auto
  next
    fix r q assume "a = Trailblazer r" "b = Ultramodern q"
    then show ?thesis using t [of r] u [of q] wf by auto
  qed (use le in \<open>auto simp: tier_order\<close>)
  show ?thesis
  proof (cases "a = Vanguard 1")
    case False
    then have "b \<noteq> Vanguard 1" using le wf by (cases a) (auto simp: tier_order)
    then show ?thesis using False b wf mono [OF p] by simp
  qed (simp add: b wf)
qed

section \<open>Kickstart claims\<close>

record kickstart_claim_data =
  kc_collection :: nat
  kc_item :: nat
  kc_level :: nat

definition kickstart_on_claim ::
  "(nat \<Rightarrow> nat \<Rightarrow> account \<Rightarrow> 'x \<Rightarrow> string + 'x) \<Rightarrow> (nat \<Rightarrow> nat \<Rightarrow> bytes \<Rightarrow> bytes \<Rightarrow> 'x \<Rightarrow> string + 'x)
   \<Rightarrow> account \<Rightarrow> balance \<Rightarrow> kickstart_claim_data option \<Rightarrow> 'x \<Rightarrow> string + 'x" where
  "kickstart_on_claim mint_into set_attribute who amount data x =
     (case data of
        None \<Rightarrow> Inr x
      | Some d \<Rightarrow>
          rbind (mint_into (kc_collection d) (kc_item d) who x) (\<lambda>y.
            set_attribute (kc_collection d) (kc_item d) [0, 0, 1]
              (map (\<lambda>i. kc_level d div 256 ^ i mod 256) [0..<4]) y))"

section \<open>Proxies and origins\<close>

datatype proxy_type = ProxyAny | ProxyStaking

definition proxy_filter :: "proxy_type \<Rightarrow> runtime_call \<Rightarrow> bool" where
  "proxy_filter p c =
     (case p of
        ProxyAny \<Rightarrow> True
      | ProxyStaking \<Rightarrow> (case c of
          PalletCall name \<Rightarrow> name \<in> {''EnergyGeneration'', ''Session'', ''Utility''}
        | UtilityBatch _ \<Rightarrow> True | UtilityBatchAll _ \<Rightarrow> True | UtilityForceBatch _ \<Rightarrow> True
        | UtilityDispatchAs _ \<Rightarrow> True | UtilityAsDerivative _ \<Rightarrow> True | _ \<Rightarrow> False))"

definition proxy_is_superset :: "proxy_type \<Rightarrow> proxy_type \<Rightarrow> bool" where
  "proxy_is_superset p o' = (if p = o' then True else (case p of ProxyAny \<Rightarrow> True | ProxyStaking \<Rightarrow> False))"

lemma proxy_superset_filter: "proxy_is_superset p q \<Longrightarrow> proxy_filter q c \<Longrightarrow> proxy_filter p c"
  by (auto simp: proxy_is_superset_def proxy_filter_def split: proxy_type.splits if_splits)

datatype origin_caller = RootCaller | CouncilMembers nat nat | OtherCaller nat

datatype cmp_ordering = CmpLess | CmpEqual | CmpGreater

definition cmp_nat :: "nat \<Rightarrow> nat \<Rightarrow> cmp_ordering" where
  "cmp_nat a b = (if a < b then CmpLess else if a = b then CmpEqual else CmpGreater)"

text \<open>Votes and members are \<open>u32\<close>; the products wrap.\<close>

definition cmp_privilege :: "origin_caller \<Rightarrow> origin_caller \<Rightarrow> cmp_ordering option" where
  "cmp_privilege left right =
     (if left = right then Some CmpEqual
      else (case (left, right) of
          (RootCaller, _) \<Rightarrow> Some CmpGreater
        | (CouncilMembers l_yes_votes l_count, CouncilMembers r_yes_votes r_count) \<Rightarrow>
            Some (cmp_nat (mul_w 32 l_yes_votes r_count) (mul_w 32 r_yes_votes l_count))
        | _ \<Rightarrow> None))"

text \<open>Councils compare by their share of yes votes.\<close>

lemma cmp_privilege_council:
  assumes "l * rc < 2 ^ 32" "r * lc < 2 ^ 32" "0 < lc" "0 < rc"
  shows "cmp_privilege (CouncilMembers l lc) (CouncilMembers r rc) = Some CmpGreater \<longleftrightarrow> r * lc < l * rc"
    and "cmp_privilege (CouncilMembers r rc) (CouncilMembers l lc) = Some CmpLess \<longleftrightarrow> r * lc < l * rc"
  using assms by (auto simp: cmp_privilege_def cmp_nat_def mul_w_def)

section \<open>Fees on wrapped tokens\<close>

datatype xcm_error = AssetNotFound | AccountIdConversionFailed | NotWithdrawable | FailedToTransact string

record ('x, 'a, 'l) xcm_env =
  z_matches_fungible :: "'a \<Rightarrow> balance option"
  z_convert_location :: "'l \<Rightarrow> account option"
  z_percent :: perthing
  z_from_percent :: "nat \<Rightarrow> nat"
  z_deposit_fee_percent :: nat
  z_withdrawal_fee_percent :: nat
  z_fee_receiver :: account
  zx_free_balance :: "'x \<Rightarrow> account \<Rightarrow> balance"
  zx_ensure_can_withdraw :: "account \<Rightarrow> balance \<Rightarrow> balance \<Rightarrow> 'x \<Rightarrow> string + unit"
  zx_deposit_creating :: "account \<Rightarrow> balance \<Rightarrow> 'x \<Rightarrow> 'x"
  zx_withdraw :: "account \<Rightarrow> balance \<Rightarrow> 'x \<Rightarrow> string + 'x"
  zx_transfer :: "account \<Rightarrow> account \<Rightarrow> balance \<Rightarrow> 'x \<Rightarrow> string + 'x"

definition match_asset :: "('x, 'a, 'l) xcm_env \<Rightarrow> 'a \<Rightarrow> 'l \<Rightarrow> xcm_error + balance \<times> account" where
  "match_asset Z what who =
     rbind (ok_or AssetNotFound (z_matches_fungible Z what)) (\<lambda>amount.
     rbind (ok_or AccountIdConversionFailed (z_convert_location Z who)) (\<lambda>a. Inr (amount, a)))"

definition deposit_asset :: "('x, 'a, 'l) xcm_env \<Rightarrow> 'a \<Rightarrow> 'l \<Rightarrow> 'x \<Rightarrow> xcm_error + 'x" where
  "deposit_asset Z what who x =
     rbind (match_asset Z what who) (\<lambda>(amount, a).
       let fee_amount = pt_mul_floor (z_percent Z) (z_from_percent Z (z_deposit_fee_percent Z)) amount
       in Inr (zx_deposit_creating Z (z_fee_receiver Z) fee_amount (zx_deposit_creating Z a (amount - fee_amount) x)))"

definition withdraw_asset :: "('x, 'a, 'l) xcm_env \<Rightarrow> 'a \<Rightarrow> 'l \<Rightarrow> 'x \<Rightarrow> xcm_error + 'a \<times> 'x" where
  "withdraw_asset Z what who x =
     rbind (match_asset Z what who) (\<lambda>(amount, a).
       let fee_amount = pt_mul_floor (z_percent Z) (z_from_percent Z (z_withdrawal_fee_percent Z)) amount;
           amount_with_fee = sat_add 128 amount fee_amount
       in rbind (ok_or NotWithdrawable (checked_sub (zx_free_balance Z x a) amount_with_fee)) (\<lambda>new_balance.
          rbind (map_err (\<lambda>_. NotWithdrawable) (zx_ensure_can_withdraw Z a amount_with_fee new_balance x)) (\<lambda>_.
          rbind (map_err FailedToTransact (zx_withdraw Z a amount x)) (\<lambda>y.
          rbind (map_err FailedToTransact (zx_transfer Z a (z_fee_receiver Z) fee_amount y)) (\<lambda>z.
            Inr (what, z))))))"

text \<open>A withdrawal needs the amount and the fee before anything moves.\<close>

lemma withdraw_asset_covered:
  assumes "withdraw_asset Z what who x = Inr (held, y)"
  shows "held = what \<and> (\<exists>amount a. match_asset Z what who = Inr (amount, a) \<and>
    sat_add 128 amount (pt_mul_floor (z_percent Z) (z_from_percent Z (z_withdrawal_fee_percent Z)) amount)
      \<le> zx_free_balance Z x a)"
  using assms by (auto simp: withdraw_asset_def res_simps Let_def)

end
