(* ===== verification/Democracy.thy ===== *)
theory Democracy
  imports Arith
begin

text \<open>
  The pallet \<open>pallets/democracy-extension\<close>: the electorate that democracy counts against, and the share
  of approving votes a referendum needs. The pallet forwards every other function of the currency to the
  configured one. The referenda, the square root of integers and \<open>FixedU128\<close> are parameters.
\<close>

section \<open>Operations\<close>

datatype vote_threshold = SuperMajorityApprove | SuperMajorityAgainst | SimpleMajority

datatype referendum_info = Ongoing nat vote_threshold | Finished

datatype democracy_event = ElectorateSet balance

record 'x democracy =
  Electorate :: balance
  de_events :: "democracy_event list"
  de_ext :: 'x

record 'x democracy_env =
  m_manage_origin :: "origin \<Rightarrow> bool"
  m_sqrt :: "nat \<Rightarrow> nat"
  m_fixed :: fixed
  m_div :: "nat \<Rightarrow> nat \<Rightarrow> nat"
  m_from_rational :: "nat \<Rightarrow> nat \<Rightarrow> nat"
  m_plus_one :: "nat \<Rightarrow> nat"
  m_percent :: perthing
  mx_total_issuance :: "'x \<Rightarrow> balance"
  mx_referendum :: "'x \<Rightarrow> nat \<Rightarrow> referendum_info option"

abbreviation fixed_one :: nat where "fixed_one \<equiv> 1000000000000000000"

definition set_electorate :: "'x democracy_env \<Rightarrow> origin \<Rightarrow> balance \<Rightarrow> 'x democracy \<Rightarrow> unit dispatch_error + 'x democracy" where
  "set_electorate M og v s =
     rbind (ensure (m_manage_origin M og) BadOrigin) (\<lambda>_.
       Inr (s\<lparr>Electorate := v, de_events := de_events s @ [ElectorateSet v]\<rparr>))"

definition electorate_issuance :: "'x democracy_env \<Rightarrow> 'x democracy \<Rightarrow> balance" where
  "electorate_issuance M s =
     (let amount = Electorate s in if amount = 0 then mx_total_issuance M (de_ext s) else amount)"

text \<open>
  The turnout is the ratio of the square roots; \<open>None\<close> where the referendum is not ongoing or the ratio
  does not exist. The currency of the democracy pallet is this pallet, as the runtime configures it.
\<close>

definition referendum_threshold :: "'x democracy_env \<Rightarrow> nat \<Rightarrow> 'x democracy \<Rightarrow> nat option" where
  "referendum_threshold M ref_index s =
     (case mx_referendum M (de_ext s) ref_index of
        Some (Ongoing tally_turnout kind) \<Rightarrow>
          Option.bind (fx_checked_from_rational (m_fixed M) (m_sqrt M tally_turnout) (m_sqrt M (electorate_issuance M s)))
            (\<lambda>turnout.
              let threshold = (case kind of
                    SuperMajorityApprove \<Rightarrow> m_div M fixed_one (m_plus_one M turnout)
                  | SuperMajorityAgainst \<Rightarrow> m_div M turnout (m_plus_one M turnout)
                  | SimpleMajority \<Rightarrow> m_from_rational M 1 2)
              in Some (pt_from_rational (m_percent M) threshold fixed_one))
      | _ \<Rightarrow> None)"

section \<open>Majorities\<close>

text \<open>The documented behaviour of the fixed-point and percent operations used, on the inner integers.\<close>

definition democracy_fixed_ok :: "'x democracy_env \<Rightarrow> bool" where
  "democracy_fixed_ok M \<longleftrightarrow> (\<forall>a b. 0 < b \<longrightarrow> m_div M a b = a * fixed_one div b) \<and>
     (\<forall>a. a \<le> fixed_one \<longrightarrow> m_plus_one M a = a + fixed_one) \<and>
     m_from_rational M 1 2 = fixed_one div 2 \<and>
     (\<forall>p. p \<le> fixed_one \<longrightarrow> pt_from_rational (m_percent M) p fixed_one = p * 100 div fixed_one)"

text \<open>
  With a turnout of at most the electorate, a super majority for approval needs at least half of the
  votes, a super majority against at most half, and a simple majority is half.
\<close>

lemma referendum_threshold_majorities:
  assumes M: "democracy_fixed_ok M" and ref: "mx_referendum M (de_ext s) i = Some (Ongoing n kind)"
    and t: "fx_checked_from_rational (m_fixed M) (m_sqrt M n) (m_sqrt M (electorate_issuance M s)) = Some turnout" "turnout \<le> fixed_one"
  shows "\<exists>p. referendum_threshold M i s = Some p \<and>
    (kind = SuperMajorityApprove \<longrightarrow> 50 \<le> p) \<and> (kind = SuperMajorityAgainst \<longrightarrow> p \<le> 50) \<and> (kind = SimpleMajority \<longrightarrow> p = 50)"
proof -
  let ?q = "turnout + fixed_one"
  have q: "0 < ?q" "?q \<le> 2 * fixed_one" using t(2) by simp_all
  have plus: "m_plus_one M turnout = ?q" using M t(2) by (simp add: democracy_fixed_ok_def)
  have half: "fixed_one div 2 \<le> fixed_one * fixed_one div ?q"
    using div_le_mono2 [OF q, of "fixed_one * fixed_one"] by simp
  have against: "turnout * fixed_one div ?q \<le> fixed_one div 2"
  proof -
    have "turnout * 2 \<le> ?q" using t(2) by simp
    then have "turnout * fixed_one \<le> fixed_one div 2 * ?q" by simp
    from div_le_mono [OF this, of ?q]
    show ?thesis using q(1) by (simp only: nonzero_mult_div_cancel_right neq0_conv)
  qed
  have one: "fixed_one * fixed_one div ?q \<le> fixed_one"
    using div_le_mono2 [of fixed_one ?q "fixed_one * fixed_one"] by simp
  note ok = M [unfolded democracy_fixed_ok_def]
  have pct: "pt_from_rational (m_percent M) p fixed_one = p * 100 div fixed_one" if "p \<le> fixed_one" for p
    by (rule ok [THEN conjunct2, THEN conjunct2, THEN conjunct2, THEN spec, THEN mp, OF that])
  have mono: "a \<le> b \<Longrightarrow> a * 100 div fixed_one \<le> b * 100 div fixed_one" for a b
    by (intro div_le_mono mult_le_mono1)
  have d: "m_div M a ?q = a * fixed_one div ?q" for a
    by (rule ok [THEN conjunct1, THEN spec, THEN spec, THEN mp, OF q(1)])
  obtain a where a: "m_div M fixed_one ?q = a" "fixed_one div 2 \<le> a" "a \<le> fixed_one"
    using d [of fixed_one] half one by metis
  obtain b where b: "m_div M turnout ?q = b" "b \<le> fixed_one div 2"
    using d [of turnout] against by metis
  have b1: "b \<le> fixed_one" using b(2) by simp
  show ?thesis
  proof (cases kind)
    case SuperMajorityApprove
    then show ?thesis using mono [OF a(2)] by (simp add: referendum_threshold_def ref t plus a(1) pct [OF a(3)])
  next
    case SuperMajorityAgainst
    then show ?thesis using mono [OF b(2)] by (simp add: referendum_threshold_def ref t plus b(1) pct [OF b1])
  next
    case SimpleMajority
    have h: "m_from_rational M 1 2 = fixed_one div 2" by (rule ok [THEN conjunct2, THEN conjunct2, THEN conjunct1])
    have le: "fixed_one div 2 \<le> fixed_one" by simp
    show ?thesis using SimpleMajority by (simp only: referendum_threshold_def ref t option.case referendum_info.case
        vote_threshold.case bind.bind_lunit Let_def h pct [OF le]) simp
  qed
qed

end
