(* ===== verification/RuntimeApi.thy ===== *)
theory RuntimeApi
  imports FeeProps EvmAccess RuntimePolicy Democracy StakingEra NacManaging
begin

text \<open>
  What the runtime's APIs compute themselves (\<open>impl_runtime_apis!\<close> of \<open>runtime/vitreus/src/lib.rs\<close>): EVM
  calls for the Ethereum RPC, the fees and quotes it reports, self-contained transactions; and the RPC
  servers of the broker, the fee and the staking pallet. APIs that only forward to a pallet are left out.
\<close>

section \<open>Ethereum transactions\<close>

text \<open>A transaction is its gas limit and the other fields of its version.\<close>

datatype 't eth_transaction = LegacyTx nat 't | EIP1559Tx nat 't | EIP2930Tx nat 't

datatype 't ethereum_call = Transact "'t eth_transaction" | OtherEthereumCall

definition GetConstantGasLimit :: nat where "GetConstantGasLimit = 100000"
definition GetConstantEnergyFee :: balance where "GetConstantEnergyFee = 1000000000"

fun transact_with_new_gas_limit :: "'t ethereum_call \<Rightarrow> 't ethereum_call" where
  "transact_with_new_gas_limit (Transact (LegacyTx _ tx)) = Transact (LegacyTx GetConstantGasLimit tx)"
| "transact_with_new_gas_limit (Transact (EIP1559Tx _ tx)) = Transact (EIP1559Tx GetConstantGasLimit tx)"
| "transact_with_new_gas_limit (Transact (EIP2930Tx _ tx)) = Transact (EIP2930Tx GetConstantGasLimit tx)"
| "transact_with_new_gas_limit OtherEthereumCall = OtherEthereumCall"

text \<open>A call of the runtime, with the Ethereum call if it is one.\<close>

definition apply_self_contained ::
  "('t ethereum_call \<Rightarrow> eth_address \<Rightarrow> 'd) \<Rightarrow> 't ethereum_call contained_call \<Rightarrow> eth_address \<Rightarrow> 'd option" where
  "apply_self_contained dispatch call info =
     (case call of
        Some (Transact t) \<Rightarrow> Some (dispatch (Transact t) info)
      | _ \<Rightarrow> None)"

definition extrinsic_filter :: "'t ethereum_call contained_call list \<Rightarrow> 't eth_transaction list" where
  "extrinsic_filter xts = List.map_filter (\<lambda>xt. case xt of Some (Transact t) \<Rightarrow> Some t | _ \<Rightarrow> None) xts"

definition convert_transaction :: "'t eth_transaction \<Rightarrow> 't ethereum_call contained_call" where
  "convert_transaction transaction = Some (Transact transaction)"

text \<open>The pending block applies the extrinsics, whatever they return, and finalizes the next block.\<close>

definition pending_block ::
  "('e \<Rightarrow> 'x \<Rightarrow> 'x) \<Rightarrow> (nat \<Rightarrow> 'x \<Rightarrow> 'x) \<Rightarrow> ('x \<Rightarrow> nat) \<Rightarrow> ('x \<Rightarrow> 'b) \<Rightarrow> ('x \<Rightarrow> 'st) \<Rightarrow> 'e list \<Rightarrow> 'x \<Rightarrow> 'b \<times> 'st" where
  "pending_block apply_extrinsic finalize block_number current_block current_statuses xts x =
     (let x1 = foldl (\<lambda>x ext. apply_extrinsic ext x) x xts;
          x2 = finalize (add_w 32 (block_number x1) 1) x1
      in (current_block x2, current_statuses x2))"

section \<open>EVM calls for the RPC\<close>

type_synonym access_list = "(eth_address \<times> bytes list) list"

record rpc_request =
  rq_from :: eth_address
  rq_data :: bytes
  rq_value :: nat
  rq_gas_limit :: nat
  rq_max_fee_per_gas :: "nat option"
  rq_max_priority_fee_per_gas :: "nat option"
  rq_nonce :: "nat option"
  rq_estimate :: bool
  rq_access_list :: "access_list option"

record ('c, 'x, 'r) rpc_env =
  rp_config :: 'c
  rp_with_estimate :: "'c \<Rightarrow> 'c"
  rp_gas_to_weight :: "nat \<Rightarrow> bool \<Rightarrow> weight"
  rp_encoded_size :: "access_list option \<Rightarrow> nat"
  rp_call :: "runner_args \<Rightarrow> 'c \<Rightarrow> 'x \<Rightarrow> runner_error + 'r"
  rp_create :: "runner_args \<Rightarrow> 'c \<Rightarrow> 'x \<Rightarrow> runner_error + 'r"

fun runner_dispatch_error :: "runner_error \<Rightarrow> string" where
  "runner_dispatch_error (RunnerError e w) = e"

definition low_u64 :: "nat \<Rightarrow> nat" where "low_u64 n = n mod 2 ^ 64"
definition low_u128 :: "nat \<Rightarrow> nat" where "low_u128 n = n mod 2 ^ 128"

definition estimated_call_len :: "('c, 'x, 'r) rpc_env \<Rightarrow> rpc_request \<Rightarrow> nat" where
  "estimated_call_len P q =
     (let len0 = length (rq_data q) + 20 + 20 + 32 + 32 + 32 + 1 + 8 + 65;
          len1 = (if rq_max_fee_per_gas q \<noteq> None then len0 + 32 else len0);
          len2 = (if rq_max_priority_fee_per_gas q \<noteq> None then len1 + 32 else len1)
      in if rq_access_list q \<noteq> None then len2 + rp_encoded_size P (rq_access_list q) else len2)"

definition estimated_create_len :: "('c, 'x, 'r) rpc_env \<Rightarrow> rpc_request \<Rightarrow> nat" where
  "estimated_create_len P q =
     (let len0 = length (rq_data q) + 20 + 32 + 32 + 32 + 1 + 8 + 65;
          len1 = (if rq_max_fee_per_gas q \<noteq> None then len0 + 32 else len0);
          len2 = (if rq_max_priority_fee_per_gas q \<noteq> None then len1 + 32 else len1)
      in if rq_access_list q \<noteq> None then len2 + rp_encoded_size P (rq_access_list q) else len2)"

definition call_gas_limit :: "nat \<Rightarrow> nat" where
  "call_gas_limit gas_limit = low_u64 (min gas_limit (max_w 64))"

definition create_gas_limit :: "nat \<Rightarrow> nat" where
  "create_gas_limit gas_limit = (if max_w 64 < gas_limit then max_w 64 else low_u64 gas_limit)"

definition rpc_weight_limit :: "('c, 'x, 'r) rpc_env \<Rightarrow> nat \<Rightarrow> nat \<Rightarrow> weight option \<times> nat option" where
  "rpc_weight_limit P gas_limit len =
     (let weight_limit = rp_gas_to_weight P gas_limit True
      in if 0 < proof_size weight_limit then (Some weight_limit, Some (low_u64 len)) else (None, None))"

definition rpc_args ::
  "rpc_request \<Rightarrow> eth_address option \<Rightarrow> nat \<Rightarrow> weight option \<times> nat option \<Rightarrow> runner_args" where
  "rpc_args q target gas_limit limits =
     \<lparr>ra_source = rq_from q, ra_target = target, ra_input = rq_data q, ra_salt = None, ra_value = rq_value q,
      ra_gas_limit = gas_limit, ra_max_fee_per_gas = rq_max_fee_per_gas q,
      ra_max_priority_fee_per_gas = rq_max_priority_fee_per_gas q, ra_nonce = rq_nonce q,
      ra_access_list = unwrap_or [] (rq_access_list q), ra_is_transactional = False, ra_validate = True,
      ra_weight_limit = fst limits, ra_proof_size_base_cost = snd limits\<rparr>"

definition rpc_evm_config :: "('c, 'x, 'r) rpc_env \<Rightarrow> rpc_request \<Rightarrow> 'c" where
  "rpc_evm_config P q = (if rq_estimate q then rp_with_estimate P (rp_config P) else rp_config P)"

definition rpc_evm_call :: "('c, 'x, 'r) rpc_env \<Rightarrow> eth_address \<Rightarrow> rpc_request \<Rightarrow> 'x \<Rightarrow> string + 'r" where
  "rpc_evm_call P to' q x =
     (let len = estimated_call_len P q;
          gas_limit = call_gas_limit (rq_gas_limit q);
          limits = rpc_weight_limit P gas_limit len
      in map_err runner_dispatch_error (rp_call P (rpc_args q (Some to') gas_limit limits) (rpc_evm_config P q) x))"

definition rpc_evm_create :: "('c, 'x, 'r) rpc_env \<Rightarrow> rpc_request \<Rightarrow> 'x \<Rightarrow> string + 'r" where
  "rpc_evm_create P q x =
     (let len = estimated_create_len P q;
          gas_limit = create_gas_limit (rq_gas_limit q);
          limits = rpc_weight_limit P gas_limit len
      in map_err runner_dispatch_error (rp_create P (rpc_args q None gas_limit limits) (rpc_evm_config P q) x))"

text \<open>The two ways of clamping the gas limit agree, and the estimated lengths differ by the target.\<close>

lemma gas_limits_agree: "call_gas_limit n = min n (max_w 64)" "create_gas_limit n = min n (max_w 64)"
proof -
  have "min n (max_w 64) < 2 ^ 64" by (simp add: max_w_def min_less_iff_disj)
  then show "call_gas_limit n = min n (max_w 64)" by (simp add: call_gas_limit_def low_u64_def)
  show "create_gas_limit n = min n (max_w 64)"
    by (auto simp: create_gas_limit_def low_u64_def max_w_def)
qed

lemma estimated_lens: "estimated_call_len P q = estimated_create_len P q + 20"
  by (simp add: estimated_call_len_def estimated_create_len_def Let_def)

section \<open>Fees\<close>

record eth_call_request =
  er_from :: "eth_address option"
  er_to :: "eth_address option"
  er_max_fee_per_gas :: "nat option"
  er_max_priority_fee_per_gas :: "nat option"
  er_gas :: "nat option"
  er_value :: "nat option"
  er_data :: "bytes option"
  er_nonce :: "nat option"
  er_access_list :: "access_list option"

text \<open>The calls that the estimate builds, and what the fee pallet distinguishes of them.\<close>

datatype estimated_call =
  EvmCall eth_address eth_address bytes nat nat nat "nat option" "nat option" access_list
| TransferAllowDeath eth_address balance

fun call_kind :: "estimated_call \<Rightarrow> runtime_call" where
  "call_kind (EvmCall source target input value gas_limit max_fee max_priority nonce access_list) = EVMCall"
| "call_kind (TransferAllowDeath dest value) = PalletCall ''Balances''"

definition zero_address :: eth_address where "zero_address = replicate 20 0"

definition estimated_call_of :: "eth_call_request \<Rightarrow> estimated_call option" where
  "estimated_call_of q =
     (case er_data q of
        Some data \<Rightarrow>
          Some (EvmCall (unwrap_or zero_address (er_from q)) (unwrap_or zero_address (er_to q)) data
            (unwrap_or 0 (er_value q)) (low_u64 (unwrap_or 21000 (er_gas q)))
            (unwrap_or 0 (er_max_fee_per_gas q)) (er_max_priority_fee_per_gas q) (er_nonce q)
            (unwrap_or [] (er_access_list q)))
      | None \<Rightarrow>
          (case (er_to q, er_value q) of
             (Some to', Some value) \<Rightarrow> Some (TransferAllowDeath to' (low_u128 value))
           | _ \<Rightarrow> None))"

definition estimate_gas :: "('x, 'i) fee_env \<Rightarrow> eth_call_request \<Rightarrow> 'x fee_state \<Rightarrow> balance" where
  "estimate_gas F q s =
     (case estimated_call_of q of
        Some call \<Rightarrow> into_inner (dispatch_info_to_fee F s (call_kind call) None None)
      | None \<Rightarrow> GetConstantEnergyFee)"

record fee_details =
  fd_vtrs :: balance
  fd_vnrg :: balance

definition estimate_call_fee ::
  "('x, 'i) fee_env \<Rightarrow> account \<Rightarrow> runtime_call \<Rightarrow> 'x fee_state \<Rightarrow> fee_details option" where
  "estimate_call_fee F who call s =
     (let fee = into_inner (dispatch_info_to_fee F s call None None)
      in map_option (\<lambda>fees. \<lparr>fd_vtrs = snd fees, fd_vnrg = fst fees\<rparr>) (calculate_fee_parts F who fee s))"

record 'w dispatch_info_fee =
  df_weight :: 'w
  df_class :: nat
  df_partial_fee :: balance

definition query_info ::
  "('x, 'i) fee_env \<Rightarrow> (runtime_call \<Rightarrow> nat \<Rightarrow> 'w dispatch_info_fee) \<Rightarrow> runtime_call \<Rightarrow> nat \<Rightarrow> 'x fee_state
   \<Rightarrow> 'w dispatch_info_fee" where
  "query_info F payment_query_info call len s =
     (let fee = dispatch_info_to_fee F s call None None
      in (payment_query_info call len)\<lparr>df_partial_fee := into_inner fee\<rparr>)"

record inclusion_fee =
  if_base_fee :: balance
  if_len_fee :: balance
  if_adjusted_weight_fee :: balance

definition query_fee_details ::
  "('x, 'i) fee_env \<Rightarrow> (runtime_call \<Rightarrow> nat \<Rightarrow> inclusion_fee option \<times> balance) \<Rightarrow> runtime_call \<Rightarrow> nat
   \<Rightarrow> 'x fee_state \<Rightarrow> inclusion_fee option \<times> balance" where
  "query_fee_details F payment_fee_details call len s =
     (let fee = into_inner (dispatch_info_to_fee F s call None None)
      in case payment_fee_details call len of
           (Some f, tip) \<Rightarrow> (Some (f\<lparr>if_adjusted_weight_fee := fee\<rparr>), tip)
         | (None, tip) \<Rightarrow> (None, tip))"

text \<open>
  The call whose weight gives the fee of a call, if any does: the pallets with a custom fee, the EVM and
  the batches have none, and a wrapper has that of the call inside.
\<close>

fun weight_priced :: "runtime_call \<Rightarrow> runtime_call option" where
  "weight_priced (PalletCall name) = (if name \<in> set custom_fee_pallets then None else Some (PalletCall name))"
| "weight_priced (UtilityDispatchAs call) = weight_priced call"
| "weight_priced (UtilityAsDerivative call) = weight_priced call"
| "weight_priced _ = None"

lemma weight_priced_dispatch:
  "dispatch_info_to_fee F s call info (Some fee) =
     (case weight_priced call of None \<Rightarrow> dispatch_info_to_fee F s call None None | Some c \<Rightarrow> Regular fee)"
  by (induction call arbitrary: info rule: weight_priced.induct) (simp_all add: weight_fee_def split: option.split)

lemma weight_priced_report:
  "weight_priced call = Some c \<Longrightarrow> dispatch_info_to_fee F s call None None = Regular (f_compute_fee F c None)"
  by (induction call rule: weight_priced.induct) (simp_all add: weight_fee_def split: if_splits)

lemma set_world_events [simp]: "br_events (fe_broker (set_world x s)) = br_events (fe_broker s)"
  by (simp add: set_world_def)

text \<open>For an EVM call the estimated gas is the energy that is charged.\<close>

lemma estimated_gas_is_charged:
  assumes "er_data q \<noteq> None" and "evm_withdraw_fee F source fee s = Inr (Some energy, s')"
  shows "energy = estimate_gas F q s"
  using assms by (auto simp: estimate_gas_def estimated_call_of_def evm_withdraw_fee_def res_simps Let_def split: if_splits)

text \<open>C17. What the fee APIs report is what is charged, for every call of an account that pays the broker's
  fees. A withdrawn fee is the reported one and the estimated gas; only where a weight prices the call,
  the fee of the transaction is charged instead, so there the report is the charge when the two agree.
  Then an estimate of its parts exists, and when energy is missing the native part is the price of the
  swap that was executed for it. For an EVM call the estimated gas is the energy that is withdrawn.\<close>

theorem reported_fee_is_charged:
  assumes "fee_assets_ok F" and "\<not> b_feeless (f_broker F) who"
    and "reported = df_partial_fee (query_info F payment call len s)" "reported < 2 ^ 128"
    and "withdraw_fee F who call info fee s = Inr (Some paid, s')"
  shows "paid = (case weight_priced call of None \<Rightarrow> reported | Some _ \<Rightarrow> fee) \<and>
    (case weight_priced call of None \<Rightarrow> True | Some c \<Rightarrow> reported = f_compute_fee F c None) \<and>
    (paid = reported \<longrightarrow>
      (\<forall>q c. estimated_call_of q = Some c \<longrightarrow> call_kind c = call \<longrightarrow> estimate_gas F q s = paid) \<and>
      (\<exists>parts. estimate_call_fee F who call s = Some parts \<and> fd_vnrg parts \<le> paid \<and>
        (if fd_vnrg parts < paid
         then last (br_events (fe_broker s')) = SwapExecuted who who (Native, WithId VNRG) (fd_vtrs parts) (paid - fd_vnrg parts)
         else fd_vtrs parts = 0 \<and> br_events (fe_broker s') = br_events (fe_broker s)))) \<and>
    (\<forall>q source gas_fee energy s2. er_data q \<noteq> None \<longrightarrow>
      evm_withdraw_fee F source gas_fee s = Inr (Some energy, s2) \<longrightarrow> energy = estimate_gas F q s)"
proof -
  let ?fee = "dispatch_info_to_fee F s call None None"
  have rep: "reported = into_inner ?fee" using assms(3) by (simp add: query_info_def)
  have "\<exists>s2. fee_withdraw F who paid s = Inr s2 \<and> s' = set_world (fx_on_withdraw_fee F who (fe_world s2)) s2"
    and paid: "paid = (case weight_priced call of None \<Rightarrow> reported | Some _ \<Rightarrow> fee)"
    using assms(5) rep unfolding withdraw_fee_def weight_priced_dispatch
    by (cases "weight_priced call"; cases ?fee; auto simp: res_simps split: if_splits)+
  then obtain s2 where s2: "fee_withdraw F who paid s = Inr s2" "s' = set_world (fx_on_withdraw_fee F who (fe_world s2)) s2"
    by blast
  then obtain s1 x where s1: "ensure_sufficient_energy F who paid s = Inr s1" "s2 = set_world x s1"
    by (auto simp: fee_withdraw_def res_simps)
  have ev: "br_events (fe_broker s') = br_events (fe_broker s1)" by (simp add: s1(2) s2(2))
  have parts: "\<exists>parts. estimate_call_fee F who call s = Some parts \<and> fd_vnrg parts \<le> paid \<and>
      (if fd_vnrg parts < paid
       then last (br_events (fe_broker s')) = SwapExecuted who who (Native, WithId VNRG) (fd_vtrs parts) (paid - fd_vnrg parts)
       else fd_vtrs parts = 0 \<and> br_events (fe_broker s') = br_events (fe_broker s))" if eq: "paid = reported"
  proof -
    from estimate_matches_charge [OF assms(1) _ assms(2) s1(1)] assms(4) obtain energy native where
      "calculate_fee_parts F who paid s = Some (energy, native)" "energy \<le> paid"
      "if energy < paid then last (br_events (fe_broker s1)) = SwapExecuted who who (Native, WithId VNRG) native (paid - energy)
       else native = 0 \<and> br_events (fe_broker s1) = br_events (fe_broker s)"
      unfolding eq by fastforce
    then show ?thesis using rep by (auto simp: estimate_call_fee_def Let_def ev eq split: if_splits)
  qed
  have gas: "estimate_gas F q s = reported" if "estimated_call_of q = Some c" "call_kind c = call" for q c
    using that rep by (simp add: estimate_gas_def)
  have priced: "case weight_priced call of None \<Rightarrow> True | Some c \<Rightarrow> reported = f_compute_fee F c None"
    using rep by (auto simp: weight_priced_report split: option.split)
  show ?thesis
    by (intro conjI allI impI paid priced parts) (simp_all add: gas estimated_gas_is_charged)
qed

theorem reported_fee_is_charged_witness:
  "\<exists>s'. withdraw_fee demo_fee_env 3 (PalletCall ''Balances'') () 7 demo_fee = Inr (Some 700, s') \<and>
     (\<exists>parts. estimate_call_fee demo_fee_env 3 (PalletCall ''Balances'') demo_fee = Some parts \<and>
        fd_vnrg parts = 600 \<and>
        last (br_events (fe_broker s')) = SwapExecuted 3 3 (Native, WithId VNRG) (fd_vtrs parts) 100)"
proof -
  let ?c = "PalletCall ''Balances''"
  have c: "custom_fee demo_fee_env demo_fee = 700"
    by (simp add: custom_fee_def demo_fee_env_def demo_fee_def fixed_ref_def multiplier_one_def max_w_def)
  have b: "''Balances'' \<in> set custom_fee_pallets" by (simp add: custom_fee_pallets_def)
  then have d: "dispatch_info_to_fee demo_fee_env demo_fee ?c i f = Regular 700" for i f by (simp add: c)
  obtain s1 where s1: "ensure_sufficient_energy demo_fee_env 3 700 demo_fee = Inr s1" "fe_world s1 (WithId VNRG) 3 = 700"
    using demo_ensure by blast
  moreover have "\<exists>x. fx_withdraw demo_fee_env 3 700 (fe_world s1) = Inr x"
    by (simp add: demo_fee_env_def s1(2))
  ultimately obtain s2 where "fee_withdraw demo_fee_env 3 700 demo_fee = Inr s2"
    by (auto simp: fee_withdraw_def)
  then obtain s' where w: "withdraw_fee demo_fee_env 3 ?c () 7 demo_fee = Inr (Some 700, s')"
    by (simp add: withdraw_fee_def d del: dispatch_info_to_fee.simps)
  let ?payment = "\<lambda>_ _. \<lparr>df_weight = (), df_class = 0, df_partial_fee = 0\<rparr>"
  have q: "df_partial_fee (query_info demo_fee_env ?payment ?c 0 demo_fee) = 700"
    by (simp add: query_info_def d del: dispatch_info_to_fee.simps)
  have f: "\<not> b_feeless (f_broker demo_fee_env) 3" by (simp add: demo_fee_env_def demo_broker_env_def)
  obtain parts where p: "estimate_call_fee demo_fee_env 3 ?c demo_fee = Some parts"
    and sw: "if fd_vnrg parts < 700
      then last (br_events (fe_broker s')) = SwapExecuted 3 3 (Native, WithId VNRG) (fd_vtrs parts) (700 - fd_vnrg parts)
      else fd_vtrs parts = 0 \<and> br_events (fe_broker s') = br_events (fe_broker demo_fee)"
    using reported_fee_is_charged [OF demo_fee_ok f refl _ w, of ?payment 0] unfolding q by auto
  have "fx_reducible demo_fee_env (fe_world demo_fee) (WithId k) 3 = 200" for k
    by (simp add: demo_fee_env_def fe_world_def demo_fee_def demo_broker_def)
  then have "fd_vnrg parts = 600"
    using p by (auto simp: estimate_call_fee_def calculate_fee_parts_def d sat_add_def max_w_def Let_def
        simp del: dispatch_info_to_fee.simps)
  then show ?thesis using w p sw by auto
qed

section \<open>Quotes and rates\<close>

definition estimate_energy_from_native :: "'x broker_env \<Rightarrow> 'x broker \<Rightarrow> balance \<Rightarrow> balance option" where
  "estimate_energy_from_native B s amount = quote_price_exact_tokens_for_tokens B s Native (WithId VNRG) amount True"

definition estimate_native_from_energy :: "'x broker_env \<Rightarrow> 'x broker \<Rightarrow> balance \<Rightarrow> balance option" where
  "estimate_native_from_energy B s amount = quote_price_exact_tokens_for_tokens B s (WithId LNRG) Native amount True"

definition current_warehouse_level :: "perthing \<Rightarrow> 'x broker_env \<Rightarrow> 'x broker \<Rightarrow> nat" where
  "current_warehouse_level percent B s = pt_from_rational percent (current_amount B s) (max_capacity s)"

definition energy_reward_per_stake :: "'x staking \<Rightarrow> nat" where
  "energy_reward_per_stake s =
     unwrap_or 0 (Option.bind (Option.bind (ActiveEra s) (\<lambda>era. checked_sub (ae_index era) 1))
       (ErasEnergyPerStakeCurrency s))"

text \<open>For an account that pays the swap fee, the reported amounts are what an exact swap pays out.\<close>

lemma estimates_are_paid:
  assumes "\<not> b_feeless B who"
  shows "do_swap_exact_tokens_for_tokens B who recipient (Native, WithId VNRG) v limit keep s = Inr (out, s') \<Longrightarrow>
      estimate_energy_from_native B s v = Some out"
    "do_swap_exact_tokens_for_tokens B who recipient (WithId LNRG, Native) v limit keep s = Inr (out, s') \<Longrightarrow>
      estimate_native_from_energy B s v = Some out"
  using assms
  by (auto simp: estimate_energy_from_native_def estimate_native_from_energy_def do_swap_exact_tokens_for_tokens_def
      quote_price_exact_tokens_for_tokens_def res_simps)

section \<open>The RPC servers\<close>

text \<open>
  The servers of \<open>pallets/energy-broker/rpc\<close>, \<open>energy-fee/rpc\<close> and \<open>energy-generation/rpc\<close>: \<open>best\<close> is the best
  block, \<open>api\<close> the runtime API at a block, whose error is its text; numbers and calls are decoded by third-party code.
\<close>

datatype rpc_code = InternalError | InvalidParams

record rpc_error =
  re_code :: rpc_code
  re_message :: string
  re_data :: "string option"

definition internal_error :: "string \<Rightarrow> string \<Rightarrow> rpc_error" where
  "internal_error message e = \<lparr>re_code = InternalError, re_message = message, re_data = Some e\<rparr>"

definition parse_amount :: "('n \<Rightarrow> balance option) \<Rightarrow> 'n \<Rightarrow> rpc_error + balance" where
  "parse_amount to_balance amount =
     ok_or \<lparr>re_code = InvalidParams, re_message = ''Unable to parse amount.'', re_data = None\<rparr> (to_balance amount)"

definition rpc_estimate_energy_from_native ::
  "('n \<Rightarrow> balance option) \<Rightarrow> (balance \<Rightarrow> 'n) \<Rightarrow> 'h \<Rightarrow> ('h \<Rightarrow> balance \<Rightarrow> string + balance option) \<Rightarrow> 'n \<Rightarrow> 'h option
   \<Rightarrow> rpc_error + 'n option" where
  "rpc_estimate_energy_from_native to_balance of_balance best api amount block =
     rbind (parse_amount to_balance amount) (\<lambda>amount.
     rbind (map_err (internal_error ''Unable to query estimate_energy_from_native.'') (api (unwrap_or best block) amount))
       (\<lambda>v. Inr (map_option of_balance v)))"

definition rpc_estimate_native_from_energy ::
  "('n \<Rightarrow> balance option) \<Rightarrow> (balance \<Rightarrow> 'n) \<Rightarrow> 'h \<Rightarrow> ('h \<Rightarrow> balance \<Rightarrow> string + balance option) \<Rightarrow> 'n \<Rightarrow> 'h option
   \<Rightarrow> rpc_error + 'n option" where
  "rpc_estimate_native_from_energy to_balance of_balance best api amount block =
     rbind (parse_amount to_balance amount) (\<lambda>amount.
     rbind (map_err (internal_error ''Unable to query estimate_native_from_energy.'') (api (unwrap_or best block) amount))
       (\<lambda>v. Inr (map_option of_balance v)))"

definition rpc_energy_exchange_rate :: "'h \<Rightarrow> ('h \<Rightarrow> string + nat option) \<Rightarrow> 'h option \<Rightarrow> rpc_error + nat option" where
  "rpc_energy_exchange_rate best api block =
     map_err (internal_error ''Unable to query energy_exchange_rate.'') (api (unwrap_or best block))"

definition rpc_current_warehouse_level :: "'h \<Rightarrow> ('h \<Rightarrow> string + nat) \<Rightarrow> 'h option \<Rightarrow> rpc_error + nat" where
  "rpc_current_warehouse_level best api block =
     map_err (internal_error ''Unable to query current_warehouse_level.'') (api (unwrap_or best block))"

definition rpc_estimate_gas ::
  "'h \<Rightarrow> ('h \<Rightarrow> eth_call_request \<Rightarrow> string + nat) \<Rightarrow> eth_call_request \<Rightarrow> 'h option \<Rightarrow> rpc_error + nat" where
  "rpc_estimate_gas best api request block =
     map_err (internal_error ''Unable to query estimate_gas.'') (api (unwrap_or best block) request)"

definition rpc_estimate_call_fee ::
  "(bytes \<Rightarrow> string + runtime_call) \<Rightarrow> 'h \<Rightarrow> ('h \<Rightarrow> account \<Rightarrow> runtime_call \<Rightarrow> string + fee_details option)
   \<Rightarrow> account \<Rightarrow> bytes \<Rightarrow> 'h option \<Rightarrow> rpc_error + fee_details option" where
  "rpc_estimate_call_fee decode best api account encoded_call block =
     rbind (map_err (internal_error ''Unable to decode call.'') (decode encoded_call)) (\<lambda>call.
       map_err (internal_error ''Unable to query estimate_call_fee.'') (api (unwrap_or best block) account call))"

definition rpc_energy_reward_per_stake :: "'h \<Rightarrow> ('h \<Rightarrow> string + nat) \<Rightarrow> 'h option \<Rightarrow> rpc_error + nat" where
  "rpc_energy_reward_per_stake best api block =
     map_err (internal_error ''Unable to query energy_reward_per_stake.'') (api (unwrap_or best block))"

definition rpc_validator_exposure_multiplier ::
  "'h \<Rightarrow> ('h \<Rightarrow> account \<Rightarrow> string + nat) \<Rightarrow> 'h option \<Rightarrow> account \<Rightarrow> rpc_error + nat" where
  "rpc_validator_exposure_multiplier best api block account =
     map_err (internal_error ''Unable to query validator_exposure_multiplier.'') (api (unwrap_or best block) account)"

definition rpc_cooperator_exposure_multiplier ::
  "'h \<Rightarrow> ('h \<Rightarrow> account \<Rightarrow> string + nat) \<Rightarrow> 'h option \<Rightarrow> account \<Rightarrow> rpc_error + nat" where
  "rpc_cooperator_exposure_multiplier best api block account =
     map_err (internal_error ''Unable to query cooperator_exposure_multiplier.'') (api (unwrap_or best block) account)"

text \<open>
  A served estimate is the runtime's at the best block; only an amount that does not parse is the client's
  error, and it never reaches the runtime.
\<close>

lemma rpc_estimate_served:
  "rpc_estimate_energy_from_native to_balance of_balance best api amount None = Inr r \<longleftrightarrow>
     (\<exists>v e. to_balance amount = Some v \<and> api best v = Inr e \<and> r = map_option of_balance e)"
  by (auto simp: rpc_estimate_energy_from_native_def parse_amount_def res_simps)

lemma rpc_estimate_invalid:
  "(\<exists>d. rpc_estimate_energy_from_native to_balance of_balance best api amount block =
      Inl \<lparr>re_code = InvalidParams, re_message = d, re_data = None\<rparr>) \<longleftrightarrow> to_balance amount = None"
proof (cases "to_balance amount")
  case (Some v)
  then show ?thesis
    by (cases "api (unwrap_or best block) v")
      (simp_all add: rpc_estimate_energy_from_native_def parse_amount_def internal_error_def)
qed (simp add: rpc_estimate_energy_from_native_def parse_amount_def)

end
