(* ===== verification/Privileges.thy ===== *)
theory Privileges
  imports NacManaging StakingCalls
begin

text \<open>
  The pallet \<open>pallets/privileges\<close>: VIP and VIPP members, the points they collect day by day, the
  penalty for leaving, and the yearly rewards.

  The pallet calls the staking pallet (theories \<open>Staking\<close> to \<open>StakingCalls\<close>) and the NAC pallet
  (theory \<open>NacManaging\<close>), and the staking pallet calls it back. Its storage, with the storage of the
  NAC pallet, is the world of the staking pallet here, so the state of a call is an
  \<open>'y privileges staking\<close>; \<open>nac_of\<close> is the view of the NAC pallet on it. \<open>'y\<close> is the world of the NFT
  pallet and the balances. The calendar (crate \<open>chrono\<close>) and the \<open>PerThing\<close> types are parameters.
\<close>

section \<open>Dates\<close>

type_synonym date = "int \<times> nat \<times> nat"

text \<open>\<open>NaiveDate\<close> by its year, month and day.\<close>

record calendar =
  cal_valid :: "date \<Rightarrow> bool"
  cal_day_of_year :: "date \<Rightarrow> nat"
  cal_add_days :: "nat \<Rightarrow> date \<Rightarrow> date option"
  cal_from_timestamp :: "nat \<Rightarrow> date"

record date_info =
  cd_year :: int
  cd_month :: nat
  cd_day :: nat
  cd_quarter :: nat
  cd_days :: nat

datatype penalty_type = Declining | Flat

record vip_member_info =
  vm_start :: nat
  vm_tax_type :: penalty_type
  vm_points :: balance
  vm_active_stake :: balance

record rewards_info =
  ri_vip_points :: balance
  ri_vip_rewards :: balance
  ri_vipp_points :: balance
  ri_vipp_rewards :: balance

datatype privileges_event =
  NewVipMember account
| PenaltyTypeChanged account penalty_type
| LeftVip account nat
| RewardsPaid account balance balance
| VipPointsForced nat account balance
| VippPointsForced nat account balance

datatype privileges_error =
  AccountNotLegitForVip | AlreadyVipMember | AccountHasNotVipStatus | IsNotPenaltyFreePeriod
| NotCorrectDate | NoRewardsForAccount | YearRewardsAlreadySet | NotEnoughTokensForRewards
| FromStaking staking_error

record 'y privileges =
  VipMembers :: "account \<rightharpoonup> vip_member_info"
  pr_VippMembers :: "account \<rightharpoonup> vipp_member_info"
  VipPoints :: "nat \<times> account \<rightharpoonup> balance"
  VippPoints :: "nat \<times> account \<rightharpoonup> balance"
  Rewards :: "nat \<rightharpoonup> rewards_info"
  CurrentDate :: date_info
  pr_events :: "privileges_event list"
  pr_UsersNft :: "account \<rightharpoonup> item \<times> nat"
  pr_nac_events :: "nac_event list"
  pr_ext :: 'y

record 'y privileges_env =
  p_calendar :: calendar
  p_perbill :: perthing
  p_perquintill :: perthing
  p_from_percent :: "nat \<Rightarrow> nat"
  p_account :: account
  p_nac :: "'y nac_env"
  p_staking :: "'y privileges staking_env"
  px_transfer :: "account \<Rightarrow> account \<Rightarrow> balance \<Rightarrow> 'y \<Rightarrow> string + 'y"

type_synonym 'y vip_state = "'y privileges staking"
type_synonym 'y vip_result = "privileges_error dispatch_error + 'y vip_state"

definition INCREASE_VIP_POINTS_CONSTANT :: nat where "INCREASE_VIP_POINTS_CONSTANT = 50"
definition MAX_UPDATE_DAYS :: nat where "MAX_UPDATE_DAYS = 366"
definition FREE_PENALTY_PERIOD_MONTH_NUMBER :: nat where "FREE_PENALTY_PERIOD_MONTH_NUMBER = 1"
definition YEAR_FIRST_MONTH :: nat where "YEAR_FIRST_MONTH = 1"
definition YEAR_FIRST_DAY :: nat where "YEAR_FIRST_DAY = 1"

definition pr_deposit :: "privileges_event \<Rightarrow> 'y privileges \<Rightarrow> 'y privileges" where
  "pr_deposit e w = w\<lparr>pr_events := pr_events w @ [e]\<rparr>"

definition on_world :: "('y privileges \<Rightarrow> 'y privileges) \<Rightarrow> 'y vip_state \<Rightarrow> 'y vip_state" where
  "on_world f s = s\<lparr>st_ext := f (st_ext s)\<rparr>"

text \<open>The NAC pallet's view and its operations.\<close>

definition nac_of :: "'y vip_state \<Rightarrow> 'y nac" where
  "nac_of s = \<lparr>UsersNft = pr_UsersNft (st_ext s), na_events = pr_nac_events (st_ext s), na_rep = st_rep s,
     VippMembers = pr_VippMembers (st_ext s), na_ext = pr_ext (st_ext s)\<rparr>"

definition put_nac :: "'y nac \<Rightarrow> 'y vip_state \<Rightarrow> 'y vip_state" where
  "put_nac n s = on_world (\<lambda>w. w\<lparr>pr_UsersNft := UsersNft n, pr_nac_events := na_events n,
     pr_VippMembers := VippMembers n, pr_ext := na_ext n\<rparr>) (s\<lparr>st_rep := na_rep n\<rparr>)"

section \<open>Calendar arithmetic\<close>

definition check_quarter :: "nat \<Rightarrow> nat option" where
  "check_quarter month =
     (if 1 \<le> month \<and> month \<le> 3 then Some 1 else if 4 \<le> month \<and> month \<le> 6 then Some 2
      else if 7 \<le> month \<and> month \<le> 9 then Some 3 else if 10 \<le> month \<and> month \<le> 12 then Some 4 else None)"

definition check_days_since_new_year :: "calendar \<Rightarrow> date \<Rightarrow> nat option" where
  "check_days_since_new_year C d =
     (if cal_valid C (fst d, 1, 1) \<and> cal_valid C d then Some (cal_day_of_year C d) else None)"

text \<open>\<open>CurrentDateInfo::new\<close>; every error is \<open>NotCorrectDate\<close>, here \<open>None\<close>.\<close>

definition date_info_new :: "calendar \<Rightarrow> date \<Rightarrow> date_info option" where
  "date_info_new C d =
     (let (y, m, day) = d
      in Option.bind (check_quarter m) (\<lambda>q.
         Option.bind (check_days_since_new_year C d) (\<lambda>n.
           Some \<lparr>cd_year = y, cd_month = m, cd_day = day, cd_quarter = q, cd_days = n\<rparr>)))"

definition add_days :: "calendar \<Rightarrow> nat \<Rightarrow> date_info \<Rightarrow> date_info option" where
  "add_days C days_num i =
     (if \<not> cal_valid C (cd_year i, cd_month i, cd_day i) then None
      else Option.bind (cal_add_days C days_num (cd_year i, cd_month i, cd_day i)) (\<lambda>(y, m, day).
           Option.bind (check_quarter m) (\<lambda>q.
           Option.bind (check_days_since_new_year C (y, m, day)) (\<lambda>n.
             Some \<lparr>cd_year = y, cd_month = m, cd_day = day, cd_quarter = q, cd_days = n\<rparr>))))"

definition check_correct_date :: "date_info \<Rightarrow> date_info \<Rightarrow> bool" where
  "check_correct_date last_date new_date \<longleftrightarrow>
     cd_year last_date < cd_year new_date \<or>
     cd_year new_date = cd_year last_date \<and> cd_days last_date < cd_days new_date"

text \<open>\<open>current_year as u32\<close>.\<close>

definition year_u32 :: "int \<Rightarrow> nat" where
  "year_u32 y = nat (y mod 2 ^ 32)"

definition penalty_percent :: "'y privileges_env \<Rightarrow> penalty_type \<Rightarrow> nat \<Rightarrow> nat" where
  "penalty_percent P t current_quarter =
     (case t of Flat \<Rightarrow> pt_from_rational (p_perbill P) 7 40
      | Declining \<Rightarrow> p_from_percent P (sub_w 32 30 (5 * current_quarter)))"

section \<open>Points\<close>

definition calculate_multiplier :: "'y privileges_env \<Rightarrow> nat \<Rightarrow> nat" where
  "calculate_multiplier P elapsed_day =
     pt_from_rational (p_perquintill P) 1 (add_w 64 INCREASE_VIP_POINTS_CONSTANT elapsed_day)"

definition calculate_points :: "'y privileges_env \<Rightarrow> balance \<Rightarrow> nat \<Rightarrow> balance" where
  "calculate_points P active_stake multiplier = pt_mul (p_perquintill P) multiplier active_stake"

definition vip_update_points :: "'y privileges_env \<Rightarrow> nat \<Rightarrow> 'y privileges \<Rightarrow> 'y privileges" where
  "vip_update_points P elapsed_day w =
     (if elapsed_day = 0 then w
      else w\<lparr>VipMembers := map_values (\<lambda>info. info\<lparr>vm_points := sat_add 128 (vm_points info)
               (calculate_points P (vm_active_stake info) (calculate_multiplier P elapsed_day))\<rparr>) (VipMembers w)\<rparr>)"

definition update_vipp_points :: "nat \<Rightarrow> 'y privileges \<Rightarrow> 'y privileges" where
  "update_vipp_points elapsed_day w =
     (if elapsed_day = 0 then w
      else w\<lparr>pr_VippMembers := (\<lambda>a. map_option (\<lambda>info.
               let threshold = foldl (\<lambda>acc (_, b). add_w 128 acc b) 0 (vp_threshold info);
                   active_stake = (case VipMembers w a of None \<Rightarrow> 0 | Some v \<Rightarrow> vm_active_stake v)
               in if active_stake \<le> threshold
                  then info\<lparr>vp_points := sat_add 128 (vp_points info) active_stake\<rparr>
                  else info\<lparr>vp_points := sat_add 128 (vp_points info) threshold\<rparr>) (pr_VippMembers w a))\<rparr>)"

definition save_year_info :: "nat \<Rightarrow> 'y privileges \<Rightarrow> 'y privileges" where
  "save_year_info year w =
     w\<lparr>VipPoints := (\<lambda>(y, a). if y = year \<and> VipMembers w a \<noteq> None
          then map_option vm_points (VipMembers w a) else VipPoints w (y, a)),
       VipMembers := map_values (\<lambda>info. info\<lparr>vm_points := 0\<rparr>) (VipMembers w),
       VippPoints := (\<lambda>(y, a). if y = year \<and> pr_VippMembers w a \<noteq> None
          then map_option vp_points (pr_VippMembers w a) else VippPoints w (y, a)),
       pr_VippMembers := map_values (\<lambda>info. info\<lparr>vp_points := 0\<rparr>) (pr_VippMembers w)\<rparr>"

text \<open>What happens on one day, in \<open>update_time\<close> and in \<open>update_quarter_info\<close>.\<close>

definition day_step :: "'y privileges_env \<Rightarrow> date_info \<Rightarrow> 'y privileges \<Rightarrow> 'y privileges" where
  "day_step P d w =
     (let w1 = update_vipp_points (cd_days d) (vip_update_points P (cd_days d) w)
      in if cd_month d = YEAR_FIRST_MONTH \<and> cd_day d = YEAR_FIRST_DAY
         then save_year_info (sub_w 32 (year_u32 (cd_year d)) 1) w1 else w1)"

fun update_days ::
  "'y privileges_env \<Rightarrow> date_info \<Rightarrow> nat \<Rightarrow> date_info \<Rightarrow> 'y privileges
   \<Rightarrow> privileges_error dispatch_error + 'y privileges" where
  "update_days P new_date 0 current w = Inr w"
| "update_days P new_date (Suc n) current w =
     (if check_correct_date current new_date
      then rbind (ok_or (Module NotCorrectDate) (add_days (p_calendar P) 1 current)) (\<lambda>current1.
             update_days P new_date n current1 (day_step P current1 w))
      else Inr w)"

definition date_from_millis :: "'y privileges_env \<Rightarrow> nat \<Rightarrow> date" where
  "date_from_millis P now_millis = cal_from_timestamp (p_calendar P) (sat_into 64 now_millis div 1000)"

text \<open>\<open>update_quarter_info\<close> at the time \<open>now_millis\<close>; \<open>None\<close> is a failing \<open>unwrap\<close>.\<close>

definition update_quarter_info :: "'y privileges_env \<Rightarrow> nat \<Rightarrow> 'y privileges \<Rightarrow> 'y privileges option" where
  "update_quarter_info P now_millis w =
     Option.bind (date_info_new (p_calendar P) (date_from_millis P now_millis)) (\<lambda>new_date.
       Some (if cd_days (CurrentDate w) \<noteq> cd_days new_date
             then (day_step P new_date w)\<lparr>CurrentDate := new_date\<rparr> else w))"

section \<open>Callbacks of the staking pallet\<close>

definition is_penalty_free_period :: "'y privileges \<Rightarrow> bool" where
  "is_penalty_free_period w \<longleftrightarrow> cd_month (CurrentDate w) = FREE_PENALTY_PERIOD_MONTH_NUMBER"

definition get_tax_percent :: "'y privileges_env \<Rightarrow> 'y privileges \<Rightarrow> account \<Rightarrow> nat" where
  "get_tax_percent P w a =
     (case VipMembers w a of
        Some info \<Rightarrow> if \<not> is_penalty_free_period w
                     then penalty_percent P (vm_tax_type info) (cd_quarter (CurrentDate w)) else 0
      | None \<Rightarrow> 0)"

definition set_member_stake :: "account \<Rightarrow> balance \<Rightarrow> 'y privileges \<Rightarrow> 'y privileges" where
  "set_member_stake a v w = w\<lparr>VipMembers := (VipMembers w)(a :=
     map_option (\<lambda>info. info\<lparr>vm_active_stake := v\<rparr>) (VipMembers w a))\<rparr>"

definition kick_account_from_vip :: "account \<Rightarrow> 'y privileges \<Rightarrow> 'y privileges" where
  "kick_account_from_vip a w = set_member_stake a 0 w"

definition vip_update_active_stake :: "(account \<Rightarrow> balance) \<Rightarrow> account \<Rightarrow> 'y privileges \<Rightarrow> 'y privileges" where
  "vip_update_active_stake active_stake a w = set_member_stake a (active_stake a) w"

section \<open>Membership\<close>

definition is_legit_for_vip :: "'y vip_state \<Rightarrow> account \<Rightarrow> bool" where
  "is_legit_for_vip s a \<longleftrightarrow> is_user_validator s a \<or>
     (case Cooperators s a of Some cooperation \<Rightarrow> co_targets cooperation \<noteq> [] | None \<Rightarrow> False)"

definition do_set_vipp_status :: "'y privileges_env \<Rightarrow> account \<Rightarrow> 'y vip_state \<Rightarrow> 'y vip_state" where
  "do_set_vipp_status P a s =
     (let (r, n) = can_mint_vipp (p_nac P) (x_block_number (p_staking P) (st_ext s)) a (nac_of s);
          s1 = put_nac n s
      in case r of
           None \<Rightarrow> s1
         | Some (amount, i) \<Rightarrow> on_world (\<lambda>w. w\<lparr>pr_VippMembers := (pr_VippMembers w)(a \<mapsto>
               \<lparr>vp_points = 0, vp_threshold = [(i, amount)]\<rparr>)\<rparr>) s1)"

definition do_set_user_privilege :: "'y privileges_env \<Rightarrow> account \<Rightarrow> penalty_type \<Rightarrow> 'y vip_state \<Rightarrow> 'y vip_state" where
  "do_set_user_privilege P a tax_type s =
     (let now = sat_into 64 (x_now_millis (p_staking P) (st_ext s));
          info = \<lparr>vm_start = now, vm_tax_type = tax_type, vm_points = 0, vm_active_stake = get_active_stake s a\<rparr>
      in do_set_vipp_status P a (on_world (\<lambda>w. w\<lparr>VipMembers := (VipMembers w)(a \<mapsto> info)\<rparr>) s))"

definition become_vip_status ::
  "'y privileges_env \<Rightarrow> origin \<Rightarrow> penalty_type \<Rightarrow> 'y vip_state \<Rightarrow> 'y vip_result" where
  "become_vip_status P og tax_type s =
     rbind (ensure_signed og) (\<lambda>who.
     rbind (ensure (VipMembers (st_ext s) who = None) (Module AlreadyVipMember)) (\<lambda>_.
       if is_legit_for_vip s who
       then Inr (on_world (pr_deposit (NewVipMember who)) (do_set_user_privilege P who tax_type s))
       else Inl (Module AccountNotLegitForVip)))"

definition from_staking :: "staking_error dispatch_error \<Rightarrow> privileges_error dispatch_error" where
  "from_staking e = (case e of BadOrigin \<Rightarrow> BadOrigin | Module m \<Rightarrow> Module (FromStaking m) | Extern m \<Rightarrow> Extern m)"

text \<open>\<open>do_exit_vip\<close>; \<open>None\<close> when the loop over the VIPP NFTs does not return.\<close>

definition leave_vipp :: "'y privileges_env \<Rightarrow> account \<Rightarrow> 'y vip_state \<Rightarrow> 'y vip_state option" where
  "leave_vipp P a s =
     (if pr_VippMembers (st_ext s) a \<noteq> None
      then let s1 = on_world (\<lambda>w. w\<lparr>pr_VippMembers := (pr_VippMembers w)(a := None)\<rparr>) s
           in map_option (\<lambda>n. put_nac n s1) (burn_all_vipp (p_nac P) a (nac_of s1))
      else Some s)"

definition do_exit_vip :: "'y privileges_env \<Rightarrow> account \<Rightarrow> 'y vip_state \<Rightarrow> 'y vip_result option" where
  "do_exit_vip P a s =
     (case VipMembers (st_ext s) a of
        None \<Rightarrow> Some (Inl (Module AccountHasNotVipStatus))
      | Some info \<Rightarrow>
          let slash_percent = penalty_percent P (vm_tax_type info) (cd_quarter (CurrentDate (st_ext s)));
              (penalty, r) = (if \<not> is_penalty_free_period (st_ext s)
                then (slash_percent, map_err from_staking (slash_vip_account (p_staking P) a slash_percent s))
                else (0, Inr s))
          in case r of
               Inl e \<Rightarrow> Some (Inl e)
             | Inr s1 \<Rightarrow> map_option (\<lambda>s2. Inr (on_world (pr_deposit (LeftVip a penalty)) s2))
                 (leave_vipp P a (on_world (\<lambda>w. w\<lparr>VipMembers := (VipMembers w)(a := None)\<rparr>) s1)))"

definition exit_vip :: "'y privileges_env \<Rightarrow> origin \<Rightarrow> 'y vip_state \<Rightarrow> 'y vip_result option" where
  "exit_vip P og s =
     (case ensure_signed og of Inl e \<Rightarrow> Some (Inl e) | Inr who \<Rightarrow> do_exit_vip P who s)"

definition do_change_penalty_type :: "account \<Rightarrow> penalty_type \<Rightarrow> 'y privileges
    \<Rightarrow> privileges_error dispatch_error + 'y privileges" where
  "do_change_penalty_type a new_penalty_type w =
     rbind (ensure (is_penalty_free_period w) (Module IsNotPenaltyFreePeriod)) (\<lambda>_.
     rbind (ok_or (Module AccountHasNotVipStatus) (VipMembers w a)) (\<lambda>vip.
       Inr (pr_deposit (PenaltyTypeChanged a new_penalty_type)
              (w\<lparr>VipMembers := (VipMembers w)(a \<mapsto> vip\<lparr>vm_tax_type := new_penalty_type\<rparr>)\<rparr>))))"

definition change_penalty_type :: "origin \<Rightarrow> penalty_type \<Rightarrow> 'y privileges
    \<Rightarrow> privileges_error dispatch_error + 'y privileges" where
  "change_penalty_type og new_tax_type w = rbind (ensure_signed og) (\<lambda>who. do_change_penalty_type who new_tax_type w)"

definition update_time :: "'y privileges_env \<Rightarrow> origin \<Rightarrow> int \<Rightarrow> nat \<Rightarrow> nat \<Rightarrow> 'y privileges
    \<Rightarrow> privileges_error dispatch_error + 'y privileges" where
  "update_time P og y m d w =
     rbind (ensure_root og) (\<lambda>_.
     rbind (ok_or (Module NotCorrectDate) (date_info_new (p_calendar P) (y, m, d))) (\<lambda>new_date.
     rbind (ensure (check_correct_date (CurrentDate w) new_date) (Module NotCorrectDate)) (\<lambda>_.
     rbind (update_days P new_date MAX_UPDATE_DAYS (CurrentDate w) w) (\<lambda>w1.
       Inr (w1\<lparr>CurrentDate := new_date\<rparr>)))))"

section \<open>Points by decree and rewards\<close>

definition are_rewards_not_set :: "nat \<Rightarrow> 'y privileges \<Rightarrow> bool" where
  "are_rewards_not_set year w \<longleftrightarrow> Rewards w year = None"

definition force_set_vip_points :: "origin \<Rightarrow> nat \<Rightarrow> account \<Rightarrow> balance \<Rightarrow> 'y privileges
    \<Rightarrow> privileges_error dispatch_error + 'y privileges" where
  "force_set_vip_points og year a points w =
     rbind (ensure_root og) (\<lambda>_.
       let current_year = year_u32 (cd_year (CurrentDate w))
       in rbind (ensure (year \<le> current_year) (Module NotCorrectDate)) (\<lambda>_.
          rbind (ensure (are_rewards_not_set year w) (Module YearRewardsAlreadySet)) (\<lambda>_.
          rbind (if year = current_year
                 then rbind (ok_or (Module AccountHasNotVipStatus) (VipMembers w a)) (\<lambda>info.
                        Inr (w\<lparr>VipMembers := (VipMembers w)(a \<mapsto> info\<lparr>vm_points := points\<rparr>)\<rparr>))
                 else Inr (w\<lparr>VipPoints := (VipPoints w)((year, a) \<mapsto> points)\<rparr>)) (\<lambda>w1.
            Inr (pr_deposit (VipPointsForced year a points) w1)))))"

definition force_set_vipp_points :: "origin \<Rightarrow> nat \<Rightarrow> account \<Rightarrow> balance \<Rightarrow> 'y privileges
    \<Rightarrow> privileges_error dispatch_error + 'y privileges" where
  "force_set_vipp_points og year a points w =
     rbind (ensure_root og) (\<lambda>_.
       let current_year = year_u32 (cd_year (CurrentDate w))
       in rbind (ensure (year \<le> current_year) (Module NotCorrectDate)) (\<lambda>_.
          rbind (ensure (are_rewards_not_set year w) (Module YearRewardsAlreadySet)) (\<lambda>_.
          rbind (if year = current_year
                 then rbind (ok_or (Module AccountHasNotVipStatus) (pr_VippMembers w a)) (\<lambda>info.
                        Inr (w\<lparr>pr_VippMembers := (pr_VippMembers w)(a \<mapsto> info\<lparr>vp_points := points\<rparr>)\<rparr>))
                 else Inr (w\<lparr>VippPoints := (VippPoints w)((year, a) \<mapsto> points)\<rparr>)) (\<lambda>w1.
            Inr (pr_deposit (VippPointsForced year a points) w1)))))"

text \<open>\<open>iter_prefix_values\<close>, in an order given by the storage.\<close>

definition points_of_year :: "'y privileges_env \<Rightarrow> (nat \<times> account \<rightharpoonup> balance) \<Rightarrow> nat \<Rightarrow> balance list" where
  "points_of_year P m year = map (\<lambda>a. the (m (year, a))) (x_iter (p_staking P) {a. m (year, a) \<noteq> None})"

definition set_rewards :: "'y privileges_env \<Rightarrow> origin \<Rightarrow> nat \<Rightarrow> balance \<Rightarrow> balance \<Rightarrow> 'y privileges
    \<Rightarrow> privileges_error dispatch_error + 'y privileges" where
  "set_rewards P og year vip_rewards vipp_rewards w =
     rbind (ensure_root og) (\<lambda>_.
       let current_year = year_u32 (cd_year (CurrentDate w))
       in rbind (ensure (year < current_year) (Module NotCorrectDate)) (\<lambda>_.
          rbind (ensure (are_rewards_not_set year w) (Module YearRewardsAlreadySet)) (\<lambda>_.
            Inr (w\<lparr>Rewards := (Rewards w)(year \<mapsto>
                   \<lparr>ri_vip_points = sat_sum 128 (points_of_year P (VipPoints w) year), ri_vip_rewards = vip_rewards,
                    ri_vipp_points = sat_sum 128 (points_of_year P (VippPoints w) year),
                    ri_vipp_rewards = vipp_rewards\<rparr>)\<rparr>))))"

definition reward_share :: "'y privileges_env \<Rightarrow> balance \<Rightarrow> balance \<Rightarrow> balance \<Rightarrow> balance" where
  "reward_share P points total_points rewards =
     pt_mul (p_perquintill P) (pt_from_rational (p_perquintill P) points total_points) rewards"

definition claim_rewards :: "'y privileges_env \<Rightarrow> origin \<Rightarrow> nat \<Rightarrow> 'y privileges
    \<Rightarrow> privileges_error dispatch_error + 'y privileges" where
  "claim_rewards P og year w =
     rbind (ensure_signed og) (\<lambda>who.
     rbind (ok_or (Module NoRewardsForAccount) (Rewards w year)) (\<lambda>rewards.
     rbind (ok_or (Module NoRewardsForAccount) (VipPoints w (year, who))) (\<lambda>vip_points.
       let vip_rewards = reward_share P vip_points (ri_vip_points rewards) (ri_vip_rewards rewards);
           w1 = w\<lparr>VipPoints := (VipPoints w)((year, who) := None)\<rparr>;
           vipp_rewards = (case VippPoints w1 (year, who) of
               Some vipp_points \<Rightarrow> reward_share P vipp_points (ri_vipp_points rewards) (ri_vipp_rewards rewards)
             | None \<Rightarrow> 0);
           w2 = w1\<lparr>VippPoints := (VippPoints w1)((year, who) := None)\<rparr>
       in rbind (map_err (\<lambda>_. Module NotEnoughTokensForRewards)
                   (px_transfer P (p_account P) who (sat_add 128 vip_rewards vipp_rewards) (pr_ext w2))) (\<lambda>x.
            Inr (pr_deposit (RewardsPaid who vip_rewards vipp_rewards) (w2\<lparr>pr_ext := x\<rparr>))))))"

text \<open>The genesis build: the configured date or today's; \<open>None\<close> is a failing \<open>unwrap\<close>.\<close>

definition privileges_genesis :: "'y privileges_env \<Rightarrow> date option \<Rightarrow> nat \<Rightarrow> 'y privileges \<Rightarrow> 'y privileges option" where
  "privileges_genesis P date now_millis w =
     (let d = (case date of Some d \<Rightarrow> d | None \<Rightarrow> date_from_millis P now_millis)
      in map_option (\<lambda>i. w\<lparr>CurrentDate := i\<rparr>) (date_info_new (p_calendar P) d))"

end
