(* ===== verification/NacProps.thy ===== *)
theory NacProps
  imports NacManaging
begin

text \<open>
  Properties of the NAC pallet: the loops over an account's VIPP NFTs return, the item that is burned,
  the entries of the privileges pallet that burning leaves behind, and the claimed amount.
\<close>

section \<open>The NFT pallet\<close>

text \<open>
  What the loops rely on of the NFT pallet, for the account \<open>a\<close>. The pallet may refuse to burn an item (a
  locked one, say), and then it changes nothing. When it burns the item, the item leaves the account's
  list, and the other items keep their attributes and can be burned exactly as before. Setting an
  attribute moves no item, and in another collection than that of the VIPP NFTs it touches neither
  their attributes nor whether they can be burned.
\<close>

definition owned_vipp :: "'x nac_env \<Rightarrow> account \<Rightarrow> 'x \<Rightarrow> item list" where
  "owned_vipp N a x = nx_owned_in_collection N x (n_vipp_collection N) a"

definition claim_of :: "'x nac_env \<Rightarrow> 'x \<Rightarrow> item \<Rightarrow> byte_list option" where
  "claim_of N x i = nx_system_attribute N x (n_vipp_collection N) i CLAIM_AMOUNT_ATTRIBUTE_KEY"

definition burnable :: "'x nac_env \<Rightarrow> account \<Rightarrow> 'x \<Rightarrow> item \<Rightarrow> bool" where
  "burnable N a x i \<longleftrightarrow> \<not> isl (fst (nx_burn N (n_vipp_collection N) i a x))"

definition nfts_ok :: "'x nac_env \<Rightarrow> account \<Rightarrow> bool" where
  "nfts_ok N a \<longleftrightarrow>
     (\<forall>x i. let y = snd (nx_burn N (n_vipp_collection N) i a x) in
        if burnable N a x i
        then owned_vipp N a y = filter (\<lambda>j. j \<noteq> i) (owned_vipp N a x) \<and>
          (\<forall>j. j \<noteq> i \<longrightarrow> claim_of N y j = claim_of N x j \<and> burnable N a y j = burnable N a x j)
        else y = x) \<and>
     (\<forall>c i k v x. let y = snd (nx_set_attribute N c i k v x) in
        owned_vipp N a y = owned_vipp N a x \<and>
        (c \<noteq> n_vipp_collection N \<longrightarrow> claim_of N y = claim_of N x \<and> burnable N a y = burnable N a x))"

lemma nft_do_ext [simp]: "na_ext (snd (nft_do f s)) = snd (f (na_ext s))"
  "VippMembers (snd (nft_do f s)) = VippMembers s" "na_rep (snd (nft_do f s)) = na_rep s"
  by (simp_all add: nft_do_def split: prod.splits)

lemma drop_vipp_nft_ext [simp]: "na_ext (drop_vipp_nft a i s) = na_ext s"
  by (simp add: drop_vipp_nft_def Let_def split: option.splits)

lemma decrease_thrsehold_members: "VippMembers (snd (decrease_thrsehold N b v s)) = VippMembers s"
  by (simp add: decrease_thrsehold_def set_claimed_def split: option.splits)

lemma nfts_okD:
  assumes "nfts_ok N a"
  shows "\<not> burnable N a x i \<Longrightarrow> snd (nx_burn N (n_vipp_collection N) i a x) = x"
    and "burnable N a x i \<Longrightarrow> owned_vipp N a (snd (nx_burn N (n_vipp_collection N) i a x)) =
      filter (\<lambda>j. j \<noteq> i) (owned_vipp N a x)"
    and "burnable N a x i \<Longrightarrow> j \<noteq> i \<Longrightarrow>
      claim_of N (snd (nx_burn N (n_vipp_collection N) i a x)) j = claim_of N x j"
    and "burnable N a x i \<Longrightarrow> j \<noteq> i \<Longrightarrow>
      burnable N a (snd (nx_burn N (n_vipp_collection N) i a x)) j = burnable N a x j"
    and "owned_vipp N a (snd (nx_set_attribute N c i k v x)) = owned_vipp N a x"
    and "c \<noteq> n_vipp_collection N \<Longrightarrow> claim_of N (snd (nx_set_attribute N c i k v x)) = claim_of N x"
    and "c \<noteq> n_vipp_collection N \<Longrightarrow> burnable N a (snd (nx_set_attribute N c i k v x)) = burnable N a x"
  using assms unfolding nfts_ok_def Let_def by metis+

text \<open>The VIPP NFTs of the account as the loops see them: its items, their claims, and which can be burned.\<close>

lemma nac_item_keeps_vipp:
  assumes "nfts_ok N a" "n_collection N \<noteq> n_vipp_collection N"
  shows "owned_vipp N a (na_ext (snd (decrease_thrsehold N b v s))) = owned_vipp N a (na_ext s)"
    and "claim_of N (na_ext (snd (decrease_thrsehold N b v s))) = claim_of N (na_ext s)"
    and "burnable N a (na_ext (snd (decrease_thrsehold N b v s))) = burnable N a (na_ext s)"
    and "owned_vipp N a (na_ext (set_inactive_attribute_vipp N b s)) = owned_vipp N a (na_ext s)"
    and "claim_of N (na_ext (set_inactive_attribute_vipp N b s)) = claim_of N (na_ext s)"
  using nfts_okD(5-7) [OF assms(1)] assms(2)
  by (auto simp: decrease_thrsehold_def set_claimed_def set_inactive_attribute_vipp_def Let_def split: option.splits)

section \<open>The item that is burned\<close>

lemma bytes_less_irrefl [simp]: "\<not> bytes_less v v"
  by (induction v) auto

lemma bytes_less_trans: "bytes_less u v \<Longrightarrow> bytes_less v w \<Longrightarrow> bytes_less u w"
proof (induction u v arbitrary: w rule: bytes_less.induct)
  case (2 a u)
  then show ?case by (cases w) auto
next
  case (3 a u b v)
  then show ?case by (cases w) auto
qed simp

lemma bytes_less_total: "bytes_less v w \<or> v = w \<or> bytes_less w v"
proof (induction v w rule: bytes_less.induct)
  case (1 v)
  then show ?case by (cases v) auto
qed auto

lemma lowest_claim_acc:
  assumes "lowest_claim f ids (Some acc) = r"
  obtains v i where "r = Some (v, i)" "(v, i) = acc \<or> i \<in> set ids \<and> f i = Some v"
    "\<not> bytes_less (fst acc) v" "\<forall>j \<in> set ids. \<forall>w. f j = Some w \<longrightarrow> \<not> bytes_less w v"
  using assms
proof (induction ids arbitrary: acc thesis)
  case Nil
  then show ?case by (cases acc) auto
next
  case (Cons i ids)
  obtain m k where acc: "acc = (m, k)" by (cases acc)
  show ?case
  proof (cases "\<exists>v. f i = Some v \<and> bytes_less v m")
    case True
    then obtain v where v: "f i = Some v" "bytes_less v m" by blast
    with Cons.prems(2) acc have "lowest_claim f ids (Some (v, i)) = r" by simp
    then obtain u j where u: "r = Some (u, j)" "(u, j) = (v, i) \<or> j \<in> set ids \<and> f j = Some u"
      "\<not> bytes_less v u" "\<forall>j \<in> set ids. \<forall>w. f j = Some w \<longrightarrow> \<not> bytes_less w u"
      using Cons.IH [of "(v, i)"] by auto
    have "\<not> bytes_less m u" using u(3) v(2) bytes_less_trans by blast
    with u v(1) acc show ?thesis by (intro Cons.prems(1) [OF u(1)]) auto
  next
    case False
    then have "lowest_claim f ids (Some acc) = r" using Cons.prems(2) acc by (auto split: option.splits)
    then obtain u j where u: "r = Some (u, j)" "(u, j) = acc \<or> j \<in> set ids \<and> f j = Some u"
      "\<not> bytes_less (fst acc) u" "\<forall>j \<in> set ids. \<forall>w. f j = Some w \<longrightarrow> \<not> bytes_less w u"
      using Cons.IH by blast
    have "\<not> bytes_less w u" if "f i = Some w" for w
    proof
      assume "bytes_less w u"
      moreover have "\<not> bytes_less w m" using False that by blast
      then have "bytes_less m w \<or> m = w" using bytes_less_total by blast
      ultimately have "bytes_less m u" using bytes_less_trans by blast
      then show False using u(3) acc by simp
    qed
    with u show ?thesis by (intro Cons.prems(1) [OF u(1)]) auto
  qed
qed

lemma lowest_claim_spec:
  shows "lowest_claim f ids None = None \<longleftrightarrow> (\<forall>i \<in> set ids. f i = None)"
    and "lowest_claim f ids None = Some (v, i) \<Longrightarrow> i \<in> set ids \<and> f i = Some v \<and>
      (\<forall>j \<in> set ids. \<forall>w. f j = Some w \<longrightarrow> \<not> bytes_less w v)"
proof -
  have "(lowest_claim f ids None = None \<longleftrightarrow> (\<forall>i \<in> set ids. f i = None)) \<and>
    (\<forall>v i. lowest_claim f ids None = Some (v, i) \<longrightarrow> i \<in> set ids \<and> f i = Some v \<and>
      (\<forall>j \<in> set ids. \<forall>w. f j = Some w \<longrightarrow> \<not> bytes_less w v))"
  proof (induction ids)
    case (Cons k ks)
    show ?case
    proof (cases "f k")
      case None
      with Cons show ?thesis by auto
    next
      case (Some u)
      obtain v i where "lowest_claim f ks (Some (u, k)) = Some (v, i)" "(v, i) = (u, k) \<or> i \<in> set ks \<and> f i = Some v"
        "\<not> bytes_less u v" "\<forall>j \<in> set ks. \<forall>w. f j = Some w \<longrightarrow> \<not> bytes_less w v"
        by (rule lowest_claim_acc [OF refl, where f = f and ids = ks and acc = "(u, k)"]) auto
      with Some show ?thesis by auto
    qed
  qed simp
  then show "lowest_claim f ids None = None \<longleftrightarrow> (\<forall>i \<in> set ids. f i = None)"
    and "lowest_claim f ids None = Some (v, i) \<Longrightarrow> i \<in> set ids \<and> f i = Some v \<and>
      (\<forall>j \<in> set ids. \<forall>w. f j = Some w \<longrightarrow> \<not> bytes_less w v)" by blast+
qed

text \<open>
  The order is that of the encoded bytes. A little-endian encoding puts 256 before 1, so the item with
  the lowest value is not always the one that is burned.
\<close>

lemma bytes_order_is_not_numeric:
  "lowest_claim [1 \<mapsto> u32_le_bytes 1, 2 \<mapsto> u32_le_bytes 256] [1, 2] None = Some (u32_le_bytes 256, 2)"
  by (simp add: u32_le_bytes_def upt_rec)

section \<open>The loops return\<close>

text \<open>One turn: an item with a claim is picked; it goes when it can be burned, and all stays otherwise.\<close>

lemma burn_vipp_nft_turn:
  assumes N: "nfts_ok N a" "n_collection N \<noteq> n_vipp_collection N" and r: "fst (burn_vipp_nft N a s)"
  obtains i where "i \<in> set (owned_vipp N a (na_ext s))" "claim_of N (na_ext s) i \<noteq> None"
    "owned_vipp N a (na_ext (snd (burn_vipp_nft N a s))) =
      (if burnable N a (na_ext s) i then filter (\<lambda>j. j \<noteq> i) (owned_vipp N a (na_ext s)) else owned_vipp N a (na_ext s))"
    "\<And>j. j \<noteq> i \<or> \<not> burnable N a (na_ext s) i \<Longrightarrow>
      claim_of N (na_ext (snd (burn_vipp_nft N a s))) j = claim_of N (na_ext s) j \<and>
      burnable N a (na_ext (snd (burn_vipp_nft N a s))) j = burnable N a (na_ext s) j"
proof -
  let ?x = "na_ext s"
  obtain v i where l: "lowest_claim (\<lambda>i. nx_system_attribute N ?x (n_vipp_collection N) i CLAIM_AMOUNT_ATTRIBUTE_KEY)
      (nx_owned_in_collection N ?x (n_vipp_collection N) a) None = Some (v, i)"
    using r by (auto simp: burn_vipp_nft_def Let_def split: option.splits)
  note spec = lowest_claim_spec(2) [OF l] and D = nfts_okD [OF N(1), where x = ?x and i = i]
  show ?thesis
  proof (rule that [of i])
    show "i \<in> set (owned_vipp N a ?x)" "claim_of N ?x i \<noteq> None"
      using spec by (simp_all add: owned_vipp_def claim_of_def)
  qed (cases "burnable N a ?x i"; simp add: burn_vipp_nft_def Let_def l nac_item_keeps_vipp [OF N] D(1-4))+
qed

lemma burn_vipp_nft_stops:
  assumes N: "nfts_ok N a" "n_collection N \<noteq> n_vipp_collection N"
  shows "fst (burn_vipp_nft N a s) \<longleftrightarrow> (\<exists>i \<in> set (owned_vipp N a (na_ext s)). claim_of N (na_ext s) i \<noteq> None)"
    and "\<not> fst (burn_vipp_nft N a s) \<Longrightarrow>
      owned_vipp N a (na_ext (snd (burn_vipp_nft N a s))) = owned_vipp N a (na_ext s) \<and>
      claim_of N (na_ext (snd (burn_vipp_nft N a s))) = claim_of N (na_ext s)"
proof -
  let ?l = "lowest_claim (\<lambda>i. nx_system_attribute N (na_ext s) (n_vipp_collection N) i CLAIM_AMOUNT_ATTRIBUTE_KEY)
      (nx_owned_in_collection N (na_ext s) (n_vipp_collection N) a) None"
  have "fst (burn_vipp_nft N a s) \<longleftrightarrow> ?l \<noteq> None"
    by (auto simp: burn_vipp_nft_def Let_def split: option.splits)
  then show "fst (burn_vipp_nft N a s) \<longleftrightarrow> (\<exists>i \<in> set (owned_vipp N a (na_ext s)). claim_of N (na_ext s) i \<noteq> None)"
    by (simp add: lowest_claim_spec(1) owned_vipp_def claim_of_def)
  assume "\<not> fst (burn_vipp_nft N a s)"
  then have "snd (burn_vipp_nft N a s) = set_inactive_attribute_vipp N a s"
    by (auto simp: burn_vipp_nft_def Let_def split: option.splits)
  then show "owned_vipp N a (na_ext (snd (burn_vipp_nft N a s))) = owned_vipp N a (na_ext s) \<and>
      claim_of N (na_ext (snd (burn_vipp_nft N a s))) = claim_of N (na_ext s)"
    by (simp add: nac_item_keeps_vipp [OF N])
qed

text \<open>What the loops can finish, and that it shrinks with every turn as long as it holds.\<close>

definition all_burnable :: "'x nac_env \<Rightarrow> account \<Rightarrow> 'x \<Rightarrow> bool" where
  "all_burnable N a x \<longleftrightarrow> (\<forall>i \<in> set (owned_vipp N a x). claim_of N x i \<noteq> None \<longrightarrow> burnable N a x i)"

lemma burn_vipp_nft_all_burnable:
  assumes N: "nfts_ok N a" "n_collection N \<noteq> n_vipp_collection N" and r: "fst (burn_vipp_nft N a s)"
  shows "all_burnable N a (na_ext (snd (burn_vipp_nft N a s))) \<longleftrightarrow> all_burnable N a (na_ext s)"
    and "all_burnable N a (na_ext s) \<Longrightarrow>
      length (owned_vipp N a (na_ext (snd (burn_vipp_nft N a s)))) < length (owned_vipp N a (na_ext s))"
    and "all_burnable N a (na_ext s) \<Longrightarrow>
      filter (\<lambda>i. claim_of N (na_ext (snd (burn_vipp_nft N a s))) i = None) (owned_vipp N a (na_ext (snd (burn_vipp_nft N a s)))) =
      filter (\<lambda>i. claim_of N (na_ext s) i = None) (owned_vipp N a (na_ext s))"
proof -
  obtain i where i: "i \<in> set (owned_vipp N a (na_ext s))" "claim_of N (na_ext s) i \<noteq> None"
    "owned_vipp N a (na_ext (snd (burn_vipp_nft N a s))) =
      (if burnable N a (na_ext s) i then filter (\<lambda>j. j \<noteq> i) (owned_vipp N a (na_ext s)) else owned_vipp N a (na_ext s))"
    "\<And>j. j \<noteq> i \<or> \<not> burnable N a (na_ext s) i \<Longrightarrow>
      claim_of N (na_ext (snd (burn_vipp_nft N a s))) j = claim_of N (na_ext s) j \<and>
      burnable N a (na_ext (snd (burn_vipp_nft N a s))) j = burnable N a (na_ext s) j"
    using burn_vipp_nft_turn [OF assms] by blast
  show "all_burnable N a (na_ext (snd (burn_vipp_nft N a s))) \<longleftrightarrow> all_burnable N a (na_ext s)"
    using i unfolding all_burnable_def by (cases "burnable N a (na_ext s) i") auto
  assume "all_burnable N a (na_ext s)"
  with i(1,2) have b: "burnable N a (na_ext s) i" by (simp add: all_burnable_def)
  show "length (owned_vipp N a (na_ext (snd (burn_vipp_nft N a s)))) < length (owned_vipp N a (na_ext s))"
    using i(1,3) b by (simp add: length_filter_less)
  have "filter (\<lambda>i. claim_of N (na_ext (snd (burn_vipp_nft N a s))) i = None) (filter (\<lambda>j. j \<noteq> i) xs) =
      filter (\<lambda>i. claim_of N (na_ext s) i = None) xs" for xs
    using i(2) i(4) by (induction xs) auto
  then show "filter (\<lambda>i. claim_of N (na_ext (snd (burn_vipp_nft N a s))) i = None)
        (owned_vipp N a (na_ext (snd (burn_vipp_nft N a s)))) =
      filter (\<lambda>i. claim_of N (na_ext s) i = None) (owned_vipp N a (na_ext s))"
    using i(3) b by simp
qed

lemma burn_all_vipp_returns_lemma:
  assumes N: "nfts_ok N a" "n_collection N \<noteq> n_vipp_collection N" and "all_burnable N a (na_ext s)"
  shows "\<exists>s'. burn_all_vipp N a s = Some s' \<and>
    owned_vipp N a (na_ext s') = filter (\<lambda>i. claim_of N (na_ext s) i = None) (owned_vipp N a (na_ext s))"
  using assms(3)
proof (induction "length (owned_vipp N a (na_ext s))" arbitrary: s rule: less_induct)
  case less
  show ?case
  proof (cases "fst (burn_vipp_nft N a s)")
    case True
    note B = burn_vipp_nft_all_burnable [OF N True]
    from less(1) [OF B(2) [OF less(2)]] B(1,3) less(2) True show ?thesis
      by (subst burn_all_vipp.simps) auto
  next
    case False
    then have "filter (\<lambda>i. claim_of N (na_ext s) i = None) (owned_vipp N a (na_ext s)) = owned_vipp N a (na_ext s)"
      unfolding burn_vipp_nft_stops(1) [OF N] by (auto simp: filter_id_conv)
    with burn_vipp_nft_stops(2) [OF N False] False show ?thesis by (subst burn_all_vipp.simps) simp
  qed
qed

text \<open>An item that has a claim and cannot be burned is picked over and over: the loop does not return.\<close>

lemma burn_all_vipp_all_burnable:
  assumes r: "burn_all_vipp N a s = Some s'" and N: "nfts_ok N a" "n_collection N \<noteq> n_vipp_collection N"
  shows "all_burnable N a (na_ext s)"
proof -
  have "nfts_ok N a \<and> n_collection N \<noteq> n_vipp_collection N \<longrightarrow> all_burnable N a (na_ext s)"
  proof (rule burn_all_vipp.raw_induct [where P = "\<lambda>N a s s'. nfts_ok N a \<and>
      n_collection N \<noteq> n_vipp_collection N \<longrightarrow> all_burnable N a (na_ext s)", OF _ r], rule impI, elim conjE)
    fix loop :: "'a nac_env \<Rightarrow> account \<Rightarrow> 'a nac \<Rightarrow> 'a nac option" and N :: "'a nac_env" and a s s'
    assume IH: "\<And>N a s s'. loop N a s = Some s' \<Longrightarrow>
        nfts_ok N a \<and> n_collection N \<noteq> n_vipp_collection N \<longrightarrow> all_burnable N a (na_ext s)"
      and body: "(if fst (burn_vipp_nft N a s) then loop N a (snd (burn_vipp_nft N a s))
        else Some (snd (burn_vipp_nft N a s))) = Some s'"
      and N: "nfts_ok N a" "n_collection N \<noteq> n_vipp_collection N"
    show "all_burnable N a (na_ext s)"
    proof (cases "fst (burn_vipp_nft N a s)")
      case True
      with body have "loop N a (snd (burn_vipp_nft N a s)) = Some s'" by simp
      from IH [OF this] N have "all_burnable N a (na_ext (snd (burn_vipp_nft N a s)))" by blast
      then show ?thesis by (simp add: burn_vipp_nft_all_burnable(1) [OF N True])
    next
      case False
      then show ?thesis by (auto simp: burn_vipp_nft_stops(1) [OF N] all_burnable_def)
    qed
  qed
  with N show ?thesis by blast
qed

text \<open>C29.
  When leaving VIP ends: the loop that burns an account's VIPP NFTs returns exactly when the NFT pallet
  burns each of those that carry a claimed amount, and then the account is left with those that carry
  none, in their order. The error of a refused burn is ignored, so one item that cannot be burned keeps
  the loop going for ever.
\<close>

theorem burn_all_vipp_returns:
  assumes "nfts_ok N a" "n_collection N \<noteq> n_vipp_collection N"
  shows "((\<exists>s'. burn_all_vipp N a s = Some s') \<longleftrightarrow>
      (\<forall>i \<in> set (owned_vipp N a (na_ext s)). claim_of N (na_ext s) i \<noteq> None \<longrightarrow> burnable N a (na_ext s) i)) \<and>
    (\<forall>s'. burn_all_vipp N a s = Some s' \<longrightarrow>
      owned_vipp N a (na_ext s') = filter (\<lambda>i. claim_of N (na_ext s) i = None) (owned_vipp N a (na_ext s)))"
  using burn_all_vipp_returns_lemma [OF assms, of s] burn_all_vipp_all_burnable [OF _ assms, of s]
  unfolding all_burnable_def by fastforce

text \<open>The check after every withdrawn fee returns for the same reason.\<close>

lemma check_account_threshold_returns:
  assumes N: "nfts_ok N a" "n_collection N \<noteq> n_vipp_collection N" and "all_burnable N a (na_ext s)"
  shows "\<exists>s'. check_account_threshold N a s = Some s'"
  using assms(3)
proof (induction "length (owned_vipp N a (na_ext s))" arbitrary: s rule: less_induct)
  case less
  show ?case
  proof (cases "fst (burn_vipp_nft N a s)")
    case True
    note B = burn_vipp_nft_all_burnable [OF N True]
    from less(1) [OF B(2) [OF less(2)]] B(1) less(2) show ?thesis
      by (subst check_account_threshold.simps) (auto split: option.splits)
  next
    case False
    then show ?thesis by (subst check_account_threshold.simps) (auto split: option.splits)
  qed
qed

section \<open>The entries of the privileges pallet\<close>

text \<open>C28.
  A VIPP entry outlives its NFT: minting hands the id of the account's NAC to the privileges pallet,
  burning the id of the VIPP NFT, so as long as the VIPP NFTs of the account have other ids than its
  NAC, burning one leaves the thresholds of the account as they were.
\<close>

theorem vipp_entry_outlives_nft:
  assumes mint: "mint_vipp_nft N now a s = (Some (v, i), s1)"
    and other: "i \<notin> set (nx_owned_in_collection N (na_ext s2) (n_vipp_collection N) a)"
    and entry: "VippMembers s2 a = Some info" "\<forall>e \<in> set (vp_threshold info). fst e = i" "vp_threshold info \<noteq> []"
  shows "Some i = first_owned N (na_ext s1) a \<and>
    VippMembers (snd (burn_vipp_nft N a s2)) = VippMembers s2"
proof
  show "Some i = first_owned N (na_ext s1) a"
    using mint by (auto simp: mint_vipp_nft_def get_nac_level_def Let_def na_deposit_def
        split: option.splits if_splits prod.splits)
  let ?V = "n_vipp_collection N"
  let ?l = "lowest_claim (\<lambda>i. nx_system_attribute N (na_ext s2) ?V i CLAIM_AMOUNT_ATTRIBUTE_KEY)
    (nx_owned_in_collection N (na_ext s2) ?V a) None"
  show "VippMembers (snd (burn_vipp_nft N a s2)) = VippMembers s2"
  proof (cases ?l)
    case None
    then show ?thesis
      by (simp add: burn_vipp_nft_def Let_def set_inactive_attribute_vipp_def split: option.splits prod.splits)
  next
    case (Some p)
    then obtain w j where l: "?l = Some (w, j)" by (cases p) auto
    then have "j \<noteq> i" using lowest_claim_spec(2) [OF l] other by blast
    then have "filter (\<lambda>(item_id, _). item_id \<noteq> j) (vp_threshold info) = vp_threshold info"
      using entry(2) by (auto simp: filter_id_conv)
    then have "VippMembers (drop_vipp_nft a j t) = VippMembers t" if "VippMembers t = VippMembers s2" for t :: "'a nac"
      using entry that by (auto simp: drop_vipp_nft_def Let_def fun_upd_idem)
    then show ?thesis
      by (simp add: burn_vipp_nft_def Let_def l decrease_thrsehold_members)
  qed
qed

section \<open>Witnesses\<close>

text \<open>A small NFT pallet: owned items and attributes; item 13 is locked.\<close>

record nft_world =
  w_owned :: "collection \<Rightarrow> account \<Rightarrow> item list"
  w_attr :: "collection \<Rightarrow> item \<Rightarrow> byte_list \<Rightarrow> byte_list option"
  w_balance :: "account \<Rightarrow> balance"

definition upd2 :: "('a \<Rightarrow> 'b \<Rightarrow> 'c) \<Rightarrow> 'a \<Rightarrow> 'b \<Rightarrow> 'c \<Rightarrow> 'a \<Rightarrow> 'b \<Rightarrow> 'c" where
  "upd2 f a b v = f(a := (f a)(b := v))"

definition demo_nac_env :: "nft_world nac_env" where
  "demo_nac_env = \<lparr>n_admin_origin = (\<lambda>og. og = Root), n_collection = 0, n_vipp_collection = 1,
     n_initial_collection = 0, n_key_limit = 50, n_value_limit = 50, n_libm = \<lparr>lm_pow = (\<lambda>x y. x), lm_ceil = (\<lambda>x. x)\<rparr>,
     n_perbill = perthing_ref perbill_one, n_encode = (\<lambda>v. [v]),
     n_decode = (\<lambda>bs. case bs of [v] \<Rightarrow> Some v | _ \<Rightarrow> None),
     n_encode_block = (\<lambda>n. [n]), n_encode_account = (\<lambda>a. [a]), n_hash = (\<lambda>_. [9, 0, 0, 0]),
     nx_total_balance = w_balance, nx_owned_in_collection = w_owned, nx_system_attribute = w_attr,
     nx_set_attribute = (\<lambda>c i k v x. (Inr (), x\<lparr>w_attr := upd2 (w_attr x) c i ((w_attr x c i)(k \<mapsto> v))\<rparr>)),
     nx_mint_into = (\<lambda>c i a x. (Inr (), x\<lparr>w_owned := upd2 (w_owned x) c a (w_owned x c a @ [i])\<rparr>)),
     nx_burn = (\<lambda>c i a x. if i = 13 \<or> i \<notin> set (w_owned x c a) then (Inl ''ItemLocked'', x)
        else (Inr (), x\<lparr>w_owned := upd2 (w_owned x) c a (filter (\<lambda>j. j \<noteq> i) (w_owned x c a))\<rparr>)),
     nx_create_collection = (\<lambda>_ x. (Inr (), x))\<rparr>"

lemma demo_nfts_ok: "nfts_ok demo_nac_env a"
  by (simp add: nfts_ok_def burnable_def owned_vipp_def claim_of_def demo_nac_env_def upd2_def Let_def fun_eq_iff)

definition demo_nac :: "nft_world nac" where
  "demo_nac = \<lparr>UsersNft = Map.empty, na_events = [], na_rep = \<lparr>AccountReputation = Map.empty, rep_events = []\<rparr>,
     VippMembers = Map.empty,
     na_ext = \<lparr>w_owned = (\<lambda>c a. if c = 0 \<and> a = 5 then [1] else []),
               w_attr = (\<lambda>c i k. if c = 0 \<and> i = 1 \<and> k = CLAIM_AMOUNT_ATTRIBUTE_KEY then Some [100] else None),
               w_balance = (\<lambda>_. 1000)\<rparr>\<rparr>"

text \<open>The account 5 with the VIPP NFTs of a list, of which 4 carries no claim.\<close>

definition demo_vipp_owner :: "item list \<Rightarrow> nft_world nac" where
  "demo_vipp_owner is = demo_nac\<lparr>na_ext := (na_ext demo_nac)
     \<lparr>w_owned := (\<lambda>c a. if c = 1 then is else []), w_attr := (\<lambda>_ i _. if i = 4 then None else Some [7])\<rparr>\<rparr>"

theorem burn_all_vipp_returns_witness:
  "(\<exists>s'. burn_all_vipp demo_nac_env 5 (demo_vipp_owner [3, 4, 6]) = Some s' \<and> w_owned (na_ext s') 1 5 = [4]) \<and>
   burn_all_vipp demo_nac_env 5 (demo_vipp_owner [3, 4, 13]) = None"
proof
  have n: "n_collection demo_nac_env \<noteq> n_vipp_collection demo_nac_env" by (simp add: demo_nac_env_def)
  note C29 = burn_all_vipp_returns [OF demo_nfts_ok n]
  note defs = burnable_def owned_vipp_def claim_of_def demo_nac_env_def demo_vipp_owner_def
  have "\<exists>s'. burn_all_vipp demo_nac_env 5 (demo_vipp_owner [3, 4, 6]) = Some s'"
    unfolding C29 [THEN conjunct1] by (simp add: defs)
  then obtain s' where s': "burn_all_vipp demo_nac_env 5 (demo_vipp_owner [3, 4, 6]) = Some s'" by blast
  with C29 [THEN conjunct2, rule_format, OF s']
  show "\<exists>s'. burn_all_vipp demo_nac_env 5 (demo_vipp_owner [3, 4, 6]) = Some s' \<and> w_owned (na_ext s') 1 5 = [4]"
    by (simp add: defs)
  have "\<not> (\<exists>s'. burn_all_vipp demo_nac_env 5 (demo_vipp_owner [3, 4, 13]) = Some s')"
    unfolding C29 [THEN conjunct1] by (simp add: defs)
  then show "burn_all_vipp demo_nac_env 5 (demo_vipp_owner [3, 4, 13]) = None" by simp
qed

lemma demo_mint: "\<exists>s1. mint_vipp_nft demo_nac_env 3 5 demo_nac = (Some (95, 1), s1) \<and>
    VippMembers s1 = Map.empty \<and> w_owned (na_ext s1) 1 5 = [9]"
proof -
  let ?N = demo_nac_env and ?x = "na_ext demo_nac"
  have "le_word [9, 0, 0, 0] = 9" by (simp add: le_word_def upt_rec)
  then have i: "create_unique_item_id ?N 3 5 = 9" by (simp add: create_unique_item_id_def demo_nac_env_def)
  have p: "perbill_95 ?N = 950000000" by (simp add: perbill_95_def demo_nac_env_def perthing_ref_def)
  have c: "get_claim_balance ?N ?x 5 = Some (100, 1)"
    by (simp add: get_claim_balance_def first_owned_def demo_nac_env_def demo_nac_def)
  have m: "threshold_meets_vipp_requirements ?N ?x 5 100"
    unfolding threshold_meets_vipp_requirements_def p by (simp add: demo_nac_env_def demo_nac_def perthing_ref_def)
  have a: "get_active_vipp_amount ?N ?x 5 = 0"
    by (simp add: get_active_vipp_amount_def demo_nac_env_def demo_nac_def)
  show ?thesis
    unfolding mint_vipp_nft_def Let_def c a i p prod.case option.case
    by (simp add: m) (simp add: demo_nac_env_def demo_nac_def upd2_def perthing_ref_def nft_do_def get_nac_level_def
        first_owned_def na_deposit_def CLAIM_AMOUNT_ATTRIBUTE_KEY_def NAC_LEVEL_ATTRIBUTE_KEY_def)
qed

theorem vipp_entry_outlives_nft_witness:
  "\<exists>v i s1. mint_vipp_nft demo_nac_env 3 5 demo_nac = (Some (v, i), s1) \<and>
     VippMembers (snd (burn_vipp_nft demo_nac_env 5 (mint_new_vipp_nft 5 v i s1))) 5 =
       Some \<lparr>vp_points = 0, vp_threshold = [(i, v)]\<rparr>"
proof -
  obtain s1 where m: "mint_vipp_nft demo_nac_env 3 5 demo_nac = (Some (95, 1), s1)"
    and s1: "VippMembers s1 = Map.empty" "w_owned (na_ext s1) 1 5 = [9]" using demo_mint by blast
  let ?s2 = "mint_new_vipp_nft 5 95 1 s1"
  have s2: "VippMembers ?s2 5 = Some \<lparr>vp_points = 0, vp_threshold = [(1, 95)]\<rparr>" "na_ext ?s2 = na_ext s1"
    using s1 by (simp_all add: mint_new_vipp_nft_def)
  have "1 \<notin> set (nx_owned_in_collection demo_nac_env (na_ext ?s2) (n_vipp_collection demo_nac_env) 5)"
    using s1(2) s2(2) by (simp add: demo_nac_env_def)
  from vipp_entry_outlives_nft [OF m this s2(1)] show ?thesis using m s2(1) by auto
qed

end
