(* ===== verification/PrivilegesProps.thy ===== *)
theory PrivilegesProps
  imports Privileges NacProps
begin

text \<open>
  Properties of the privileges pallet: \<open>update_time\<close> visits the days one by one, the rewards of a year,
  the end of leaving VIP, and the callbacks the staking pallet uses.
\<close>

section \<open>The calendar\<close>

text \<open>
  What the pallet relies on of the calendar: the day after a valid date is a valid date, either the next
  day of the same year or the first day of the next one.
\<close>

definition calendar_ok :: "calendar \<Rightarrow> bool" where
  "calendar_ok C \<longleftrightarrow>
     (\<forall>y m d. cal_valid C (y, m, d) \<longrightarrow> cal_valid C (y, 1, 1) \<and> 1 \<le> m \<and> m \<le> 12 \<and>
        (\<exists>d'. cal_add_days C 1 (y, m, d) = Some d' \<and> cal_valid C d' \<and>
           (fst d' = y \<and> cal_day_of_year C d' = Suc (cal_day_of_year C (y, m, d)) \<or>
            d' = (y + 1, 1, 1) \<and> cal_day_of_year C d' = 0)))"

definition next_day :: "calendar \<Rightarrow> date \<Rightarrow> date" where
  "next_day C d = the (cal_add_days C 1 d)"

definition quarter_of :: "nat \<Rightarrow> nat" where
  "quarter_of m = (m - 1) div 3 + 1"

definition info_of :: "calendar \<Rightarrow> date \<Rightarrow> date_info" where
  "info_of C d = (let (y, m, day) = d in
     \<lparr>cd_year = y, cd_month = m, cd_day = day, cd_quarter = quarter_of m, cd_days = cal_day_of_year C d\<rparr>)"

lemma check_quarter_eq:
  assumes "1 \<le> m" "m \<le> 12"
  shows "check_quarter m = Some (quarter_of m)"
proof -
  have "quarter_of m = (if m \<le> 3 then 1 else if m \<le> 6 then 2 else if m \<le> 9 then 3 else 4)"
    using assms unfolding quarter_of_def by presburger
  then show ?thesis using assms by (simp add: check_quarter_def)
qed

lemma date_info_new_eq:
  assumes "calendar_ok C" "cal_valid C d"
  shows "date_info_new C d = Some (info_of C d)"
proof -
  obtain y m day where d: "d = (y, m, day)" by (cases d)
  have "1 \<le> m" "m \<le> 12" "cal_valid C (y, 1, 1)" using assms unfolding calendar_ok_def d by blast+
  then show ?thesis using assms(2)
    by (simp add: d date_info_new_def info_of_def check_quarter_eq check_days_since_new_year_def)
qed

lemma next_day:
  assumes "calendar_ok C" "cal_valid C d"
  shows "cal_add_days C 1 d = Some (next_day C d)" "cal_valid C (next_day C d)"
    "fst (next_day C d) = fst d \<and> cal_day_of_year C (next_day C d) = Suc (cal_day_of_year C d) \<or>
     fst (next_day C d) = fst d + 1"
proof -
  obtain y m day where d: "d = (y, m, day)" by (cases d)
  obtain d' where d': "cal_add_days C 1 d = Some d'" "cal_valid C d'"
    "fst d' = y \<and> cal_day_of_year C d' = Suc (cal_day_of_year C d) \<or> d' = (y + 1, 1, 1)"
    using assms unfolding calendar_ok_def d by blast
  then show "cal_add_days C 1 d = Some (next_day C d)" "cal_valid C (next_day C d)"
    "fst (next_day C d) = fst d \<and> cal_day_of_year C (next_day C d) = Suc (cal_day_of_year C d) \<or>
     fst (next_day C d) = fst d + 1" by (auto simp: next_day_def d)
qed

lemma days_valid: "calendar_ok C \<Longrightarrow> cal_valid C d \<Longrightarrow> cal_valid C ((next_day C ^^ k) d)"
  by (induction k) (auto simp: next_day(2))

lemma add_days_next:
  assumes "calendar_ok C" "cal_valid C d"
  shows "add_days C 1 (info_of C d) = Some (info_of C (next_day C d))"
proof -
  obtain y m day where d: "d = (y, m, day)" by (cases d)
  obtain y' m' day' where n: "next_day C d = (y', m', day')" by (cases "next_day C d")
  have v: "cal_valid C (y', m', day')" using next_day(2) [OF assms] n by simp
  have "1 \<le> m'" "m' \<le> 12" "cal_valid C (y', 1, 1)" using assms(1) v unfolding calendar_ok_def by blast+
  then show ?thesis using next_day(1) [OF assms] assms(2) v n
    by (simp add: add_days_def info_of_def d check_quarter_eq check_days_since_new_year_def)
qed

lemma check_correct_date_days:
  assumes "calendar_ok C" "cal_valid C d"
  shows "check_correct_date (info_of C ((next_day C ^^ i) d)) (info_of C ((next_day C ^^ k) d)) \<longleftrightarrow> i < k"
proof -
  let ?d = "\<lambda>i. (next_day C ^^ i) d"
  define less where "less a b \<longleftrightarrow> fst a < fst b \<or> fst a = fst b \<and> cal_day_of_year C a < cal_day_of_year C b" for a b :: date
  have step: "less (?d j) (?d (Suc j))" for j
    using next_day(3) [OF assms(1) days_valid [OF assms, of j]] by (auto simp: less_def)
  have up: "less (?d i) (?d (i + Suc n))" for i n
  proof (induction n)
    case (Suc n)
    then show ?case using step [of "i + Suc n"] by (auto simp: less_def)
  qed (use step [of i] in simp)
  have "less (?d i) (?d k) \<longleftrightarrow> i < k"
  proof
    assume l: "less (?d i) (?d k)"
    show "i < k"
    proof (rule ccontr)
      assume "\<not> i < k"
      then obtain n where "i = k \<or> i = k + Suc n" by (metis less_imp_Suc_add linorder_neqE_nat add_Suc_right)
      then show False using l up [of k n] by (auto simp: less_def)
    qed
  next
    assume "i < k"
    then obtain n where "k = i + Suc n" by (metis less_imp_Suc_add add_Suc_right)
    then show "less (?d i) (?d k)" using up [of i n] by simp
  qed
  then show ?thesis by (auto simp: check_correct_date_def info_of_def less_def split: prod.splits)
qed

lemma update_days_eq:
  assumes "calendar_ok (p_calendar P)" "cal_valid (p_calendar P) d" "i \<le> k"
  shows "update_days P (info_of (p_calendar P) ((next_day (p_calendar P) ^^ k) d)) n
      (info_of (p_calendar P) ((next_day (p_calendar P) ^^ i) d)) w =
    Inr (fold (\<lambda>j. day_step P (info_of (p_calendar P) ((next_day (p_calendar P) ^^ j) d)))
      [Suc i..<Suc (min k (i + n))] w)"
  using assms(3)
proof (induction n arbitrary: i w)
  case 0
  then show ?case by simp
next
  case (Suc n)
  let ?C = "p_calendar P"
  let ?d = "\<lambda>j. (next_day ?C ^^ j) d"
  note v = days_valid [OF assms(1,2)]
  show ?case
  proof (cases "i < k")
    case True
    have a: "add_days ?C 1 (info_of ?C (?d i)) = Some (info_of ?C (?d (Suc i)))"
      using add_days_next [OF assms(1) v [of i]] by simp
    have c: "check_correct_date (info_of ?C (?d i)) (info_of ?C (?d k))"
      using check_correct_date_days [OF assms(1,2)] True by blast
    have l: "[Suc i..<Suc (min k (i + Suc n))] = Suc i # [Suc (Suc i)..<Suc (min k (Suc i + n))]"
      using True by (subst upt_conv_Cons) auto
    have IH: "update_days P (info_of ?C (?d k)) n (info_of ?C (?d (Suc i))) w' =
        Inr (fold (\<lambda>j. day_step P (info_of ?C (?d j))) [Suc (Suc i)..<Suc (min k (Suc i + n))] w')" for w'
      by (rule Suc.IH) (use True in simp)
    show ?thesis unfolding update_days.simps a
      by (simp only: c if_True ok_or_simps rbind_Inr IH l fold.simps o_apply)
  next
    case False
    then have "\<not> check_correct_date (info_of ?C (?d i)) (info_of ?C (?d k))"
      using check_correct_date_days [OF assms(1,2)] by blast
    then show ?thesis using False Suc.prems by simp
  qed
qed

text \<open>C26.
  \<open>update_time\<close> to the \<open>k\<close>-th day after the current date accrues the points of the days in between one
  by one, in order, each exactly once and closing the years it passes; beyond \<open>MAX_UPDATE_DAYS\<close> the
  remaining days are skipped, and the date is the given one all the same.
\<close>

theorem update_time_visits_each_day:
  assumes "calendar_ok (p_calendar P)" "cal_valid (p_calendar P) d" "CurrentDate w = info_of (p_calendar P) d"
    and "0 < k" and new: "(next_day (p_calendar P) ^^ k) d = (y, m, day)"
  shows "update_time P Root y m day w =
    Inr ((fold (\<lambda>j. day_step P (info_of (p_calendar P) ((next_day (p_calendar P) ^^ j) d)))
       [1..<Suc (min k MAX_UPDATE_DAYS)] w)\<lparr>CurrentDate := info_of (p_calendar P) (y, m, day)\<rparr>)"
proof -
  let ?C = "p_calendar P"
  have n: "date_info_new ?C (y, m, day) = Some (info_of ?C (y, m, day))"
    using date_info_new_eq [OF assms(1) days_valid [OF assms(1,2), of k]] new by simp
  have c: "check_correct_date (info_of ?C d) (info_of ?C (y, m, day))"
    using check_correct_date_days [OF assms(1,2), of 0 k] assms(4) new by simp
  have "update_days P (info_of ?C (y, m, day)) MAX_UPDATE_DAYS (info_of ?C d) w =
      Inr (fold (\<lambda>j. day_step P (info_of ?C ((next_day ?C ^^ j) d))) [1..<Suc (min k MAX_UPDATE_DAYS)] w)"
    using update_days_eq [OF assms(1,2), of 0 k MAX_UPDATE_DAYS w] new by simp
  then show ?thesis unfolding update_time_def n assms(3) by (simp add: c)
qed

text \<open>The Gregorian calendar, by counting.\<close>

definition leap :: "int \<Rightarrow> bool" where
  "leap y \<longleftrightarrow> y mod 4 = 0 \<and> (y mod 100 \<noteq> 0 \<or> y mod 400 = 0)"

definition month_length :: "int \<Rightarrow> nat \<Rightarrow> nat" where
  "month_length y m = (if m \<in> {4, 6, 9, 11} then 30 else if m = 2 then if leap y then 29 else 28 else 31)"

definition gregorian_next :: "date \<Rightarrow> date" where
  "gregorian_next d = (let (y, m, day) = d in
     if day < month_length y m then (y, m, day + 1) else if m < 12 then (y, m + 1, 1) else (y + 1, 1, 1))"

definition gregorian :: calendar where
  "gregorian = \<lparr>cal_valid = (\<lambda>(y, m, d). 1 \<le> m \<and> m \<le> 12 \<and> 1 \<le> d \<and> d \<le> month_length y m),
     cal_day_of_year = (\<lambda>(y, m, d). (\<Sum>i \<leftarrow> [1..<m]. month_length y i) + d - 1),
     cal_add_days = (\<lambda>n d. Some ((gregorian_next ^^ n) d)),
     cal_from_timestamp = (\<lambda>t. (gregorian_next ^^ (t div 86400)) (1970, 1, 1))\<rparr>"

lemma month_length_pos: "1 \<le> month_length y m"
  by (simp add: month_length_def)

lemma gregorian_ok: "calendar_ok gregorian"
proof -
  have "\<exists>d'. gregorian_next (y, m, d) = d' \<and> cal_valid gregorian d' \<and>
      (fst d' = y \<and> cal_day_of_year gregorian d' = Suc (cal_day_of_year gregorian (y, m, d)) \<or>
       d' = (y + 1, 1, 1) \<and> cal_day_of_year gregorian d' = 0)"
    if v: "1 \<le> m" "m \<le> 12" "1 \<le> d" "d \<le> month_length y m" for y m d
  proof (cases "d < month_length y m")
    case True
    with v show ?thesis by (auto simp: gregorian_next_def gregorian_def)
  next
    case day: False
    show ?thesis
    proof (cases "m < 12")
      case True
      have "[1..<m + 1] = [1..<m] @ [m]" using v(1) by simp
      then show ?thesis using day True v month_length_pos [of y "m + 1"]
        by (auto simp: gregorian_next_def gregorian_def)
    next
      case False
      with day v month_length_pos [of "y + 1" 1] show ?thesis by (auto simp: gregorian_next_def gregorian_def)
    qed
  qed
  moreover have "1 \<le> month_length y 1" for y by (rule month_length_pos)
  ultimately show ?thesis by (auto simp: calendar_ok_def gregorian_def)
qed

section \<open>Rewards\<close>

lemma claim_rewards_InrD:
  assumes "claim_rewards P (Signed who) year w = Inr w'"
  obtains r p x where "Rewards w year = Some r" "VipPoints w (year, who) = Some p"
    "px_transfer P (p_account P) who (sat_add 128 (reward_share P p (ri_vip_points r) (ri_vip_rewards r))
       (case VippPoints w (year, who) of None \<Rightarrow> 0
        | Some q \<Rightarrow> reward_share P q (ri_vipp_points r) (ri_vipp_rewards r))) (pr_ext w) = Inr x"
    "VipPoints w' = (VipPoints w)((year, who) := None)" "VippPoints w' = (VippPoints w)((year, who) := None)"
    "Rewards w' = Rewards w" "pr_ext w' = x"
  using assms by (cases "VippPoints w (year, who)") (auto simp: claim_rewards_def Let_def res_simps pr_deposit_def)

text \<open>A year's rewards are paid to an account once.\<close>

lemma claim_rewards_once:
  assumes "claim_rewards P (Signed who) year w = Inr w'"
  shows "claim_rewards P (Signed who) year w' = Inl (Module NoRewardsForAccount)"
    and "a \<noteq> who \<or> y \<noteq> year \<Longrightarrow> VipPoints w' (y, a) = VipPoints w (y, a) \<and> VippPoints w' (y, a) = VippPoints w (y, a)"
proof -
  obtain r where *: "Rewards w' year = Some r" "VipPoints w' = (VipPoints w)((year, who) := None)"
    "VippPoints w' = (VippPoints w)((year, who) := None)"
    by (rule claim_rewards_InrD [OF assms]) simp
  then show "claim_rewards P (Signed who) year w' = Inl (Module NoRewardsForAccount)"
    by (simp add: claim_rewards_def)
  show "a \<noteq> who \<or> y \<noteq> year \<Longrightarrow> VipPoints w' (y, a) = VipPoints w (y, a) \<and> VippPoints w' (y, a) = VippPoints w (y, a)"
    unfolding * by auto
qed

lemma sum_div_le: "finite A \<Longrightarrow> (\<Sum>a \<in> A. f a div n) \<le> (\<Sum>a \<in> A. f a) div (n :: nat)"
proof (induction A rule: finite_induct)
  case (insert a A)
  have "f a div n + (\<Sum>a \<in> A. f a) div n \<le> (f a + (\<Sum>a \<in> A. f a)) div n"
    by (subst div_add1_eq) simp
  with insert show ?case by simp
qed simp

lemma ceil_div_le_Suc: "0 < b \<Longrightarrow> ceil_div a b \<le> a div b + 1"
  by (rule ceil_div_le) (simp_all add: add_mult_distrib less_imp_le dividend_less_div_times)

lemma shares_in_pot:
  assumes Q: "perthing_ok one Q" and A: "finite A" and T: "(\<Sum>a \<in> A. p a) \<le> T" "0 < T"
  shows "(\<Sum>a \<in> A. pt_mul Q (pt_from_rational Q (p a) T) V) \<le> V + card A"
proof -
  let ?r = "\<lambda>a. pt_from_rational Q (p a) T"
  have one: "0 < one" by (rule perthing_okD(1) [OF Q])
  have p: "p a \<le> T" if "a \<in> A" for a
    using member_le_sum [of a A p] that A T(1) by simp
  have "?r a * T \<le> p a * one" if "a \<in> A" for a
    using p [OF that] perthing_okD(3,4) [OF Q, of T "p a"] perthing_okD(4) [OF Q, of "p a" T] perthing_okD(2) [OF Q, of "p a" T]
    by (cases "p a = T") auto
  then have "(\<Sum>a \<in> A. ?r a * T) \<le> (\<Sum>a \<in> A. p a * one)" by (rule sum_mono)
  moreover have "(\<Sum>a \<in> A. p a * one) \<le> one * T"
    unfolding sum_distrib_right [symmetric] using mult_le_mono1 [OF T(1), of one] by (simp only: mult.commute)
  moreover have "(\<Sum>a \<in> A. ?r a * T) = (\<Sum>a \<in> A. ?r a) * T" by (rule sum_distrib_right [symmetric])
  ultimately have "(\<Sum>a \<in> A. ?r a) * T \<le> one * T" by linarith
  then have r: "(\<Sum>a \<in> A. ?r a) \<le> one" using T(2) by (simp only: mult_le_cancel2) 
  have "(\<Sum>a \<in> A. pt_mul Q (?r a) V) \<le> (\<Sum>a \<in> A. ?r a * V div one + 1)"
    using perthing_okD(7) [OF Q perthing_okD(2) [OF Q]] ceil_div_le_Suc [OF one]
    by (intro sum_mono) (meson order_trans)
  also have "\<dots> = (\<Sum>a \<in> A. ?r a * V div one) + card A" by (simp only: sum.distrib) simp
  also have "(\<Sum>a \<in> A. ?r a * V div one) \<le> (\<Sum>a \<in> A. ?r a * V) div one" by (rule sum_div_le [OF A])
  also have "(\<Sum>a \<in> A. ?r a * V) div one \<le> one * V div one"
    unfolding sum_distrib_right [symmetric] by (intro div_le_mono mult_le_mono1 r)
  finally show ?thesis using one by simp
qed

text \<open>What an account is paid for a year, and a claim of one account, which changes nothing when it fails.\<close>

definition vip_share :: "'y privileges_env \<Rightarrow> nat \<Rightarrow> rewards_info \<Rightarrow> 'y privileges \<Rightarrow> account \<Rightarrow> balance" where
  "vip_share P year r w a = reward_share P (the (VipPoints w (year, a))) (ri_vip_points r) (ri_vip_rewards r)"

definition vipp_share :: "'y privileges_env \<Rightarrow> nat \<Rightarrow> rewards_info \<Rightarrow> 'y privileges \<Rightarrow> account \<Rightarrow> balance" where
  "vipp_share P year r w a = (case VippPoints w (year, a) of None \<Rightarrow> 0
     | Some q \<Rightarrow> reward_share P q (ri_vipp_points r) (ri_vipp_rewards r))"

definition claim_or_keep :: "'y privileges_env \<Rightarrow> nat \<Rightarrow> 'y privileges \<Rightarrow> account \<Rightarrow> 'y privileges" where
  "claim_or_keep P year w who = (case claim_rewards P (Signed who) year w of Inr w' \<Rightarrow> w' | Inl _ \<Rightarrow> w)"

text \<open>The pallet's account can pay whatever is claimed.\<close>

definition pot_pays :: "'y privileges_env \<Rightarrow> bool" where
  "pot_pays P \<longleftrightarrow> (\<forall>who v x. \<exists>y. px_transfer P (p_account P) who v x = Inr y)"

lemma claim_rewards_event:
  assumes "claim_rewards P (Signed who) year w = Inr w'" "Rewards w year = Some r"
  shows "VipPoints w (year, who) \<noteq> None" "Rewards w' = Rewards w"
    "pr_events w' = pr_events w @ [RewardsPaid who (vip_share P year r w who) (vipp_share P year r w who)]"
    "VipPoints w' = (VipPoints w)((year, who) := None)" "VippPoints w' = (VippPoints w)((year, who) := None)"
  using assms by (auto simp: claim_rewards_def vip_share_def vipp_share_def Let_def res_simps pr_deposit_def)

lemma claim_rewards_refused:
  assumes "claim_rewards P (Signed who) year w = Inl e" "Rewards w year = Some r" "pot_pays P"
  shows "VipPoints w (year, who) = None"
proof (rule ccontr)
  assume "VipPoints w (year, who) \<noteq> None"
  then obtain p where "VipPoints w (year, who) = Some p" by blast
  moreover obtain pay where "\<And>v x. px_transfer P (p_account P) who v x = Inr (pay v x)"
    using assms(3) unfolding pot_pays_def by metis
  ultimately show False
    using assms by (cases "VippPoints w (year, who)") (auto simp: claim_rewards_def Let_def)
qed

lemma claims_paid:
  assumes "Rewards w year = Some r"
  shows "\<exists>ds. distinct ds \<and> set ds \<subseteq> set whos \<and> (\<forall>a \<in> set ds. VipPoints w (year, a) \<noteq> None) \<and>
    (pot_pays P \<longrightarrow> (\<forall>a \<in> set whos. VipPoints w (year, a) \<noteq> None \<longrightarrow> a \<in> set ds)) \<and>
    pr_events (foldl (claim_or_keep P year) w whos) = pr_events w @
      map (\<lambda>a. RewardsPaid a (vip_share P year r w a) (vipp_share P year r w a)) ds"
  using assms
proof (induction whos arbitrary: w)
  case (Cons who whos)
  show ?case
  proof (cases "claim_rewards P (Signed who) year w")
    case (Inl e)
    then have "claim_or_keep P year w who = w" by (simp add: claim_or_keep_def)
    moreover have "pot_pays P \<Longrightarrow> VipPoints w (year, who) = None" by (rule claim_rewards_refused [OF Inl Cons.prems])
    moreover obtain ds where "distinct ds \<and> set ds \<subseteq> set whos \<and> (\<forall>a \<in> set ds. VipPoints w (year, a) \<noteq> None) \<and>
      (pot_pays P \<longrightarrow> (\<forall>a \<in> set whos. VipPoints w (year, a) \<noteq> None \<longrightarrow> a \<in> set ds)) \<and>
      pr_events (foldl (claim_or_keep P year) w whos) = pr_events w @
        map (\<lambda>a. RewardsPaid a (vip_share P year r w a) (vipp_share P year r w a)) ds"
      using Cons.IH [OF Cons.prems] by blast
    ultimately show ?thesis by (intro exI [of _ ds]) auto
  next
    case (Inr w')
    note E = claim_rewards_event [OF Inr Cons.prems]
    obtain ds where ds: "distinct ds" "set ds \<subseteq> set whos" "\<forall>a \<in> set ds. VipPoints w' (year, a) \<noteq> None"
      "pr_events (foldl (claim_or_keep P year) w' whos) = pr_events w' @
        map (\<lambda>a. RewardsPaid a (vip_share P year r w' a) (vipp_share P year r w' a)) ds"
      and all: "pot_pays P \<longrightarrow> (\<forall>a \<in> set whos. VipPoints w' (year, a) \<noteq> None \<longrightarrow> a \<in> set ds)"
      using Cons.IH [of w'] Cons.prems E(2) by auto
    have new: "who \<notin> set ds" using ds(3) E(4) by auto
    then have "vip_share P year r w' a = vip_share P year r w a" "vipp_share P year r w' a = vipp_share P year r w a"
      if "a \<in> set ds" for a using that E(4,5) by (auto simp: vip_share_def vipp_share_def)
    then have "map (\<lambda>a. RewardsPaid a (vip_share P year r w' a) (vipp_share P year r w' a)) ds =
        map (\<lambda>a. RewardsPaid a (vip_share P year r w a) (vipp_share P year r w a)) ds" by simp
    moreover have "VipPoints w (year, a) \<noteq> None" if "a \<in> set ds" for a using that ds(3) E(4) by (auto split: if_splits)
    moreover have "pot_pays P \<longrightarrow> (\<forall>a \<in> set (who # whos). VipPoints w (year, a) \<noteq> None \<longrightarrow> a \<in> set (who # ds))"
    proof (intro impI ballI)
      fix a assume a: "pot_pays P" "a \<in> set (who # whos)" "VipPoints w (year, a) \<noteq> None"
      show "a \<in> set (who # ds)"
      proof (cases "a = who")
        case False
        then have "VipPoints w' (year, a) \<noteq> None" using a(3) E(4) by simp
        with False a(1,2) all show ?thesis by simp
      qed simp
    qed
    moreover have "claim_or_keep P year w who = w'" by (simp add: claim_or_keep_def Inr)
    ultimately show ?thesis using ds new E(1,3) by (intro exI [of _ "who # ds"]) auto
  qed
qed simp

lemma points_of_year_sum:
  assumes it: "\<And>A. finite A \<Longrightarrow> set (x_iter (p_staking P) A) = A \<and> distinct (x_iter (p_staking P) A)"
    and fin: "finite {a. m (year, a) \<noteq> None}" and fit: "(\<Sum>a | m (year, a) \<noteq> None. the (m (year, a))) < 2 ^ 128"
  shows "sat_sum 128 (points_of_year P m year) = (\<Sum>a | m (year, a) \<noteq> None. the (m (year, a)))"
proof -
  let ?A = "{a. m (year, a) \<noteq> None}"
  have it: "set (x_iter (p_staking P) ?A) = ?A" "distinct (x_iter (p_staking P) ?A)"
    using it [OF fin] by blast+
  have "sum_list (points_of_year P m year) = (\<Sum>a \<in> ?A. the (m (year, a)))"
    unfolding points_of_year_def using sum_list_distinct_conv_sum_set [OF it(2)] it(1) by simp
  with fit show ?thesis by (simp add: sat_sum_eq le_max_w_iff min_absorb1)
qed

lemma paid_in_pot:
  assumes Q: "perthing_ok perquintill_one (p_perquintill P)" and fin: "finite {a. m (year, a) \<noteq> None}"
    and ds: "distinct ds" and T: "T = (\<Sum>a | m (year, a) \<noteq> None. the (m (year, a)))"
  shows "if 0 < T
    then (\<Sum>a \<leftarrow> ds. case m (year, a) of None \<Rightarrow> 0 | Some p \<Rightarrow> reward_share P p T V) \<le> V + length ds
    else \<forall>a p. m (year, a) = Some p \<longrightarrow> reward_share P p T V = V"
proof (cases "0 < T")
  case True
  let ?p = "\<lambda>a. case m (year, a) of None \<Rightarrow> 0 | Some p \<Rightarrow> p"
  have "(\<Sum>a \<in> set ds. ?p a) = (\<Sum>a \<in> set ds \<inter> {a. m (year, a) \<noteq> None}. the (m (year, a)))"
    by (rule sum.mono_neutral_cong_right) (auto split: option.splits)
  also have "\<dots> \<le> T" unfolding T by (rule sum_mono2) (use fin in auto)
  finally have le: "(\<Sum>a \<in> set ds. ?p a) \<le> T" .
  have "(\<Sum>a \<in> set ds. case m (year, a) of None \<Rightarrow> 0 | Some p \<Rightarrow> reward_share P p T V)
      \<le> (\<Sum>a \<in> set ds. pt_mul (p_perquintill P) (pt_from_rational (p_perquintill P) (?p a) T) V)"
    by (rule sum_mono) (auto simp: reward_share_def split: option.splits)
  also have "\<dots> \<le> V + card (set ds)" by (rule shares_in_pot [OF Q _ le True]) simp
  finally show ?thesis using True ds by (simp add: sum_list_distinct_conv_sum_set distinct_card)
next
  case False
  have "reward_share P p T V = V" for p
    using False perthing_okD(3) [OF Q, of 0 p] pt_mul_one(1) [OF Q] by (simp add: reward_share_def)
  with False show ?thesis by simp
qed

text \<open>C27.
  Whoever claims the rewards of a year, and however often, an account with VIP points is paid at most
  once (exactly once, when the pallet's account can pay), its share by points. What the accounts are paid
  may exceed a pot, but by no more than one unit of rounding for each account paid, in the VIP and the
  VIPP pot alike. Only when the points of a pot add up to zero is every account with an entry paid that
  whole pot.
\<close>

theorem year_rewards_in_pot:
  assumes Q: "perthing_ok perquintill_one (p_perquintill P)" and it: "\<And>A. finite A \<Longrightarrow> set (x_iter (p_staking P) A) = A \<and> distinct (x_iter (p_staking P) A)"
    and r: "set_rewards P Root year V V' w = Inr w1"
    and fin: "finite {a. VipPoints w (year, a) \<noteq> None}" "finite {a. VippPoints w (year, a) \<noteq> None}"
    and T: "T = (\<Sum>a | VipPoints w (year, a) \<noteq> None. the (VipPoints w (year, a)))" "T < 2 ^ 128"
      "T' = (\<Sum>a | VippPoints w (year, a) \<noteq> None. the (VippPoints w (year, a)))" "T' < 2 ^ 128"
  shows "let vip = (\<lambda>a. case VipPoints w (year, a) of None \<Rightarrow> 0 | Some p \<Rightarrow> reward_share P p T V);
      vipp = (\<lambda>a. case VippPoints w (year, a) of None \<Rightarrow> 0 | Some p \<Rightarrow> reward_share P p T' V')
    in \<exists>ds. distinct ds \<and> set ds \<subseteq> {a \<in> set whos. VipPoints w (year, a) \<noteq> None} \<and>
      (pot_pays P \<longrightarrow> set ds = {a \<in> set whos. VipPoints w (year, a) \<noteq> None}) \<and>
      pr_events (foldl (claim_or_keep P year) w1 whos) = pr_events w @ map (\<lambda>a. RewardsPaid a (vip a) (vipp a)) ds \<and>
      (if 0 < T then (\<Sum>a \<leftarrow> ds. vip a) \<le> V + length ds else \<forall>a \<in> set ds. vip a = V) \<and>
      (if 0 < T' then (\<Sum>a \<leftarrow> ds. vipp a) \<le> V' + length ds
       else \<forall>a \<in> set ds. VippPoints w (year, a) \<noteq> None \<longrightarrow> vipp a = V')"
proof -
  have tot: "sat_sum 128 (points_of_year P (VipPoints w) year) = T" "sat_sum 128 (points_of_year P (VippPoints w) year) = T'"
    using points_of_year_sum [OF it fin(1)] points_of_year_sum [OF it fin(2)] T by simp_all
  define i where "i = \<lparr>ri_vip_points = T, ri_vip_rewards = V, ri_vipp_points = T', ri_vipp_rewards = V'\<rparr>"
  have w1: "w1 = w\<lparr>Rewards := (Rewards w)(year \<mapsto> i)\<rparr>"
    using r by (auto simp: set_rewards_def Let_def res_simps tot i_def)
  have i: "Rewards w1 year = Some i" "ri_vip_rewards i = V" "ri_vipp_rewards i = V'"
    "ri_vip_points i = T" "ri_vipp_points i = T'"
    and keep: "VipPoints w1 = VipPoints w" "VippPoints w1 = VippPoints w" "pr_events w1 = pr_events w"
    by (simp_all add: w1 i_def)
  obtain ds where ds: "distinct ds" "set ds \<subseteq> set whos" "\<forall>a \<in> set ds. VipPoints w (year, a) \<noteq> None"
    "pr_events (foldl (claim_or_keep P year) w1 whos) = pr_events w @
       map (\<lambda>a. RewardsPaid a (vip_share P year i w1 a) (vipp_share P year i w1 a)) ds"
    and all: "pot_pays P \<longrightarrow> (\<forall>a \<in> set whos. VipPoints w (year, a) \<noteq> None \<longrightarrow> a \<in> set ds)"
    using claims_paid [OF i(1)] unfolding keep by blast
  have "map (\<lambda>a. RewardsPaid a (vip_share P year i w1 a) (vipp_share P year i w1 a)) ds =
    map (\<lambda>a. RewardsPaid a (case VipPoints w (year, a) of None \<Rightarrow> 0 | Some p \<Rightarrow> reward_share P p T V)
      (case VippPoints w (year, a) of None \<Rightarrow> 0 | Some p \<Rightarrow> reward_share P p T' V')) ds"
    using ds(3) by (auto simp: vip_share_def vipp_share_def keep i split: option.splits)
  note events = ds(4) [unfolded this]
  note pots = paid_in_pot [OF Q fin(1) ds(1) T(1), of V] paid_in_pot [OF Q fin(2) ds(1) T(3), of V']
  show ?thesis
    unfolding Let_def by (intro exI [of _ ds] conjI ds(1) events) (use ds(2,3) all pots in \<open>auto split: if_splits\<close>)
qed

section \<open>Callbacks and leaving\<close>

text \<open>The percentages of the penalty types: 17.5 percent flat, or 25 percent down to 10 over the quarters.\<close>

lemma declining_penalty:
  "q \<in> {1, 2, 3, 4} \<Longrightarrow> penalty_percent P Declining q = p_from_percent P (30 - 5 * q)"
  by (auto simp: penalty_percent_def sub_w_eq)

lemma penalty_free_in_january: "cd_month (CurrentDate w) = 1 \<Longrightarrow> get_tax_percent P w a = 0"
  by (simp add: get_tax_percent_def is_penalty_free_period_def FREE_PENALTY_PERIOD_MONTH_NUMBER_def split: option.splits)

text \<open>A member that leaves has no entry left, whatever the NFT pallet does with its items.\<close>

lemma do_exit_vip_removes:
  assumes "do_exit_vip P a s = Some (Inr s')"
  shows "VipMembers (st_ext s') a = None" "VipMembers (st_ext s) a \<noteq> None"
  using assms by (auto simp: do_exit_vip_def leave_vipp_def Let_def on_world_def put_nac_def pr_deposit_def
      split: option.splits sum.splits prod.splits if_splits)

text \<open>Leaving returns when the NFT pallet burns the items of the account that carry a claim.\<close>

lemma do_exit_vip_returns:
  assumes "nfts_ok (p_nac P) a" "n_collection (p_nac P) \<noteq> n_vipp_collection (p_nac P)"
    and "\<And>x. all_burnable (p_nac P) a x"
  shows "\<exists>r. do_exit_vip P a s = Some r"
proof -
  have "\<exists>t. burn_all_vipp (p_nac P) a n = Some t" for n
    using burn_all_vipp_returns_lemma [OF assms] by blast
  then have "\<exists>t. leave_vipp P a u = Some t" for u
    by (auto simp: leave_vipp_def Let_def)
  then show ?thesis by (fastforce simp: do_exit_vip_def Let_def split: option.splits sum.splits prod.splits)
qed

section \<open>Witnesses\<close>

text \<open>A staking environment whose world does nothing, and the privileges environment on it.\<close>

definition quiet_env :: "'x staking_env" where
  "quiet_env = \<lparr>c_perbill = perthing_ref perbill_one, c_perquintill = perthing_ref perquintill_one,
     c_percent = perthing_ref 100, c_fixed = fixed_ref 128 perquintill_one,
     c_libm = \<lparr>lm_pow = (\<lambda>x y. x), lm_ceil = (\<lambda>x. x)\<rparr>,
     c_max_cooperations = 16, c_history_depth = 84, c_sessions_per_era = 6, c_bonding_duration = 28,
     c_slash_defer_duration = 27, c_max_rewarded = 64, c_max_unlocking_chunks = 32,
     c_validator_tier = Vanguard 1, c_collab_tier = Trailblazer 1, c_disabling_factor = 3,
     c_admin_origin = (\<lambda>og. og = Root), x_block_number = (\<lambda>_. 0), x_lookup = (\<lambda>_ a. Some a),
     x_minimum_balance = 1, x_free_balance = (\<lambda>_ _. 0), x_total_balance = (\<lambda>_ _. 0),
     x_set_lock = (\<lambda>_ _ x. x), x_remove_lock = (\<lambda>_ x. x), x_slash = (\<lambda>_ v x. (x, 0, v)),
     x_resolve_creating = (\<lambda>_ _ x. x), x_slash_unbalanced = (\<lambda>_ x. x), x_drop_imbalance = (\<lambda>_ x. x),
     x_inc_consumers = (\<lambda>_ x. Some x), x_dec_consumers = (\<lambda>_ x. x), x_deposit_energy = (\<lambda>_ v x. Some (x, v)),
     x_reward_unbalanced = (\<lambda>_ x. x), x_on_slash = (\<lambda>_ _ _ _ x. x), x_nac_level = (\<lambda>_ _. Some 1),
     x_validator_exposure = (\<lambda>_ _ v. v), x_cooperator_exposure = (\<lambda>_ _ v. v),
     x_validators = (\<lambda>_. []), x_disable_validator = (\<lambda>_ x. x), x_prune_historical = (\<lambda>_ x. x),
     x_on_new_session = (\<lambda>_ x. x), x_now_millis = (\<lambda>_. 0), x_era_energy = (\<lambda>_ _. Some 0),
     x_change_quarter_info = (\<lambda>x. x), x_tax_percent = (\<lambda>_ _. 0), x_update_active_stake = (\<lambda>_ _ x. x),
     x_iter = sorted_list_of_set\<rparr>"

definition demo_privileges_env :: "nft_world privileges_env" where
  "demo_privileges_env = \<lparr>p_calendar = gregorian, p_perbill = perthing_ref perbill_one,
     p_perquintill = perthing_ref perquintill_one, p_from_percent = (\<lambda>n. min n 100 * 10000000),
     p_account = 1, p_nac = demo_nac_env, p_staking = quiet_env, px_transfer = (\<lambda>_ _ _ y. Inr y)\<rparr>"

definition demo_member :: "balance \<Rightarrow> vip_member_info" where
  "demo_member v = \<lparr>vm_start = 0, vm_tax_type = Flat, vm_points = 0, vm_active_stake = v\<rparr>"

definition demo_privileges :: "nft_world privileges" where
  "demo_privileges = \<lparr>VipMembers = [5 \<mapsto> demo_member 5200], pr_VippMembers = Map.empty,
     VipPoints = [(2023, 5) \<mapsto> 30, (2023, 6) \<mapsto> 10], VippPoints = Map.empty, Rewards = Map.empty,
     CurrentDate = info_of gregorian (2024, 12, 30), pr_events = [], pr_UsersNft = Map.empty, pr_nac_events = [],
     pr_ext = na_ext demo_nac\<rparr>"

text \<open>Over the end of a leap year: two days, the second one closes the year.\<close>

theorem update_time_visits_each_day_witness:
  "update_time demo_privileges_env Root 2025 1 1 demo_privileges =
     Inr ((day_step demo_privileges_env (info_of gregorian (2025, 1, 1))
            (day_step demo_privileges_env (info_of gregorian (2024, 12, 31)) demo_privileges))
          \<lparr>CurrentDate := info_of gregorian (2025, 1, 1)\<rparr>)"
proof -
  have n: "next_day gregorian (2024, 12, 30) = (2024, 12, 31)" "next_day gregorian (2024, 12, 31) = (2025, 1, 1)"
    by (simp_all add: next_day_def gregorian_def gregorian_next_def month_length_def)
  have v: "cal_valid gregorian (2024, 12, 30)" by (simp add: gregorian_def month_length_def)
  have k: "(next_day gregorian ^^ 2) (2024, 12, 30) = (2025, 1, 1)" using n by (simp add: numeral_2_eq_2)
  have l: "[1..<Suc (min 2 MAX_UPDATE_DAYS)] = [1, 2]" by (simp add: MAX_UPDATE_DAYS_def upt_rec)
  have c: "p_calendar demo_privileges_env = gregorian" by (simp add: demo_privileges_env_def)
  have "update_time demo_privileges_env Root 2025 1 1 demo_privileges =
      Inr ((fold (\<lambda>j. day_step demo_privileges_env (info_of gregorian ((next_day gregorian ^^ j) (2024, 12, 30))))
        [1..<Suc (min 2 MAX_UPDATE_DAYS)] demo_privileges)\<lparr>CurrentDate := info_of gregorian (2025, 1, 1)\<rparr>)"
    by (rule update_time_visits_each_day [of demo_privileges_env, unfolded c, OF gregorian_ok v _ _ k])
      (simp_all add: demo_privileges_def)
  then show ?thesis unfolding l using n k by simp
qed

theorem year_rewards_in_pot_witness:
  "\<exists>w1 ds. set_rewards demo_privileges_env Root 2023 1000 0 demo_privileges = Inr w1 \<and>
     pr_events (foldl (claim_or_keep demo_privileges_env 2023) w1 [6, 5, 6, 7]) = map (\<lambda>a. RewardsPaid a
       (case VipPoints demo_privileges (2023, a) of None \<Rightarrow> 0 | Some p \<Rightarrow> reward_share demo_privileges_env p 40 1000) 0) ds \<and>
     set ds = {5, 6} \<and>
     (\<Sum>a \<leftarrow> ds. case VipPoints demo_privileges (2023, a) of None \<Rightarrow> 0
        | Some p \<Rightarrow> reward_share demo_privileges_env p 40 1000) \<le> 1000 + length ds"
proof -
  have y: "year_u32 (cd_year (CurrentDate demo_privileges)) = 2024"
    by (simp add: demo_privileges_def info_of_def year_u32_def)
  obtain w1 where r: "set_rewards demo_privileges_env Root 2023 1000 0 demo_privileges = Inr w1"
    unfolding set_rewards_def Let_def y by (simp add: are_rewards_not_set_def demo_privileges_def)
  have A: "{a. VipPoints demo_privileges (2023, a) \<noteq> None} = {5, 6}"
    and none: "VippPoints demo_privileges (2023, a) = None" "pr_events demo_privileges = []" for a
    by (auto simp: demo_privileges_def)
  have f: "finite {a. VipPoints demo_privileges (2023, a) \<noteq> None}" "finite {a. VippPoints demo_privileges (2023, a) \<noteq> None}"
    unfolding A none by simp_all
  have s: "40 = (\<Sum>a | VipPoints demo_privileges (2023, a) \<noteq> None. the (VipPoints demo_privileges (2023, a)))"
    "0 = (\<Sum>a | VippPoints demo_privileges (2023, a) \<noteq> None. the (VippPoints demo_privileges (2023, a)))"
    unfolding A none by (simp_all add: demo_privileges_def)
  have ok: "perthing_ok perquintill_one (p_perquintill demo_privileges_env)" "finite A \<Longrightarrow>
      set (x_iter (p_staking demo_privileges_env) A) = A \<and> distinct (x_iter (p_staking demo_privileges_env) A)" for A
    by (simp_all add: demo_privileges_env_def perthing_ref_ok quiet_env_def)
  have p: "pot_pays demo_privileges_env" by (simp add: pot_pays_def demo_privileges_env_def)
  have "{a \<in> set [6, 5, 6, 7]. VipPoints demo_privileges (2023, a) \<noteq> None} = {5, 6}" using A by auto
  then show ?thesis
    using year_rewards_in_pot [OF ok r f s(1) _ s(2), of "[6, 5, 6, 7]"] r p
    unfolding Let_def none by auto
qed

end
