(* ===== verification/RewardLog.thy ===== *)
theory RewardLog
  imports Arith Complex_Main
begin

text \<open>
  The binary logarithm of \<open>energy-generation/reward-curve/src/log.rs\<close>, which runs at compile time on
  32-bit and 128-bit integers, and its error against the real logarithm.

  A computation here may panic or not return: it is a value of \<open>(panic + 'a) option\<close>, \<open>None\<close> when it
  does not return. Plain arithmetic wraps, as the macro is built without overflow checks in release.
\<close>

section \<open>Computations that may panic or not return\<close>

datatype panic = Panic

type_synonym 'a run = "(panic + 'a) option"

definition ret :: "'a \<Rightarrow> 'a run" where
  "ret x = Some (Inr x)"

definition panics :: "'a run" where
  "panics = Some (Inl Panic)"

definition run_bind :: "'a run \<Rightarrow> ('a \<Rightarrow> 'b run) \<Rightarrow> 'b run" where
  "run_bind m f = (case m of None \<Rightarrow> None | Some (Inl e) \<Rightarrow> Some (Inl e) | Some (Inr x) \<Rightarrow> f x)"

definition assert_run :: "bool \<Rightarrow> 'a run \<Rightarrow> 'a run" where
  "assert_run c m = (if c then m else panics)"

definition unwrap_run :: "'a option \<Rightarrow> 'a run" where
  "unwrap_run x = (case x of None \<Rightarrow> panics | Some v \<Rightarrow> ret v)"

definition div_run :: "nat \<Rightarrow> nat \<Rightarrow> nat run" where
  "div_run a b = (if b = 0 then panics else ret (a div b))"

lemma run_bind_simps [simp]:
  "run_bind None f = None" "run_bind panics f = panics" "run_bind (ret x) f = f x"
  by (simp_all add: run_bind_def panics_def ret_def)

lemma assert_run_simps [simp]: "assert_run True m = m" "assert_run False m = panics"
  by (simp_all add: assert_run_def)

lemma unwrap_run_simps [simp]: "unwrap_run (Some x) = ret x" "unwrap_run None = panics"
  by (simp_all add: unwrap_run_def)

lemma unwrap_try_into: "a \<le> max_w w \<Longrightarrow> unwrap_run (try_into w a) = ret a"
  by (simp add: try_into_def)

lemma ret_inject [simp]: "ret x = ret y \<longleftrightarrow> x = y"
  by (simp add: ret_def)

lemma ret_not_panics [simp]: "ret x \<noteq> panics" "panics \<noteq> ret x" "ret x \<noteq> None" "panics \<noteq> None"
  by (simp_all add: ret_def panics_def)

lemma run_bind_mono [partial_function_mono]:
  assumes "\<And>y. mono_option (\<lambda>f. C y f)"
  shows "mono_option (\<lambda>f. run_bind m (\<lambda>y. C y f))"
  using assms by (auto simp: run_bind_def monotone_def flat_ord_def split: option.splits sum.splits)

section \<open>The code\<close>

definition pow2 :: "nat \<Rightarrow> nat" where
  "pow2 n = 2 ^ (n mod 32)"

definition pow_w :: "nat \<Rightarrow> nat \<Rightarrow> nat \<Rightarrow> nat" where
  "pow_w w a e = a ^ e mod 2 ^ w"

definition two_div_ln_2 :: nat where "two_div_ln_2 = 2885390"

fun taylor_scale :: "nat \<Rightarrow> nat \<Rightarrow> nat \<Rightarrow> nat \<Rightarrow> nat run" where
  "taylor_scale 0 y_num y_den res = ret res"
| "taylor_scale (Suc i) y_num y_den res =
     run_bind (div_run (mul_w 128 res (pow_w 128 y_num 2)) (pow_w 128 y_den 2)) (taylor_scale i y_num y_den)"

definition taylor_term :: "nat \<Rightarrow> nat \<Rightarrow> nat \<Rightarrow> nat run" where
  "taylor_term k y_num y_den =
     (if k = 0
      then run_bind (div_run (mul_w 128 two_div_ln_2 (pow_w 128 y_num 1)) (pow_w 128 y_den 1))
             (\<lambda>t. unwrap_run (try_into 32 t))
      else run_bind (div_run (mul_w 128 two_div_ln_2 (pow_w 128 y_num 3)) (pow_w 128 y_den 3))
             (\<lambda>res. run_bind (taylor_scale (k - 1) y_num y_den res)
               (\<lambda>res. unwrap_run (try_into 32 (res div (2 * k + 1))))))"

text \<open>The search for the power of two, whose assertion ends it after 32 rounds.\<close>

function log2_power :: "nat \<Rightarrow> nat \<Rightarrow> nat \<Rightarrow> nat run" where
  "log2_power p q n =
     (if p < mul_w 32 (pow2 n) q \<or> mul_w 32 (pow2 (n + 1)) q \<le> p
      then if n + 1 < 32 then log2_power p q (n + 1) else panics
      else ret n)"
  by pat_completeness auto

termination
  by (relation "measure (\<lambda>(p, q, n). 32 - n)") auto

declare log2_power.simps [simp del]

partial_function (option) log2_loop :: "nat \<Rightarrow> nat \<Rightarrow> nat \<Rightarrow> nat \<Rightarrow> nat run" where
  "log2_loop y_num y_den k res =
     run_bind (taylor_term k y_num y_den)
       (\<lambda>t. if t = 0 then ret res else log2_loop y_num y_den (add_w 32 k 1) (add_w 32 res t))"

definition log2 :: "nat \<Rightarrow> nat \<Rightarrow> nat run" where
  "log2 p q =
     assert_run (q \<le> p) (assert_run (p \<le> max_w 32 div 2) (assert_run (p \<le> 1000000) (assert_run (q \<le> 1000000)
       (if p = q then ret 0
        else run_bind (log2_power p q 0) (\<lambda>n.
          assert_run (p < mul_w 32 (pow2 (n + 1)) q)
            (let y_num = sub_w 32 p (mul_w 32 (pow2 n) q);
                 y_den = add_w 32 p (mul_w 32 (pow2 n) q)
             in log2_loop y_num y_den 0 (mul_w 32 n 1000000)))))))"

section \<open>The terms without wrap-around\<close>

definition scale :: "nat \<Rightarrow> nat \<Rightarrow> nat \<Rightarrow> nat" where
  "scale a b x = x * a ^ 2 div b ^ 2"

definition chain :: "nat \<Rightarrow> nat \<Rightarrow> nat \<Rightarrow> nat" where
  "chain a b i = (scale a b ^^ i) (two_div_ln_2 * a ^ 3 div b ^ 3)"

definition log_term :: "nat \<Rightarrow> nat \<Rightarrow> nat \<Rightarrow> nat" where
  "log_term a b k = (if k = 0 then two_div_ln_2 * a div b else chain a b (k - 1) div (2 * k + 1))"

lemma chain_Suc: "chain a b (Suc i) = chain a b i * a ^ 2 div b ^ 2"
  by (simp add: chain_def scale_def)

lemma mult_div_le: "a \<le> b \<Longrightarrow> x * a div b \<le> (x::nat)"
  by (metis div_le_mono div_mult_self_is_m div_0 div_by_0 le0 mult_le_mono2 nat_less_le neq0_conv zero_less_iff_neq_zero)

lemma scale_le: "a \<le> b \<Longrightarrow> scale a b x \<le> x"
  unfolding scale_def by (intro mult_div_le power_mono) simp_all

lemma chain_le: "a \<le> b \<Longrightarrow> chain a b i \<le> two_div_ln_2"
proof (induction i)
  case 0
  then show ?case by (simp add: chain_def mult_div_le power_mono)
next
  case (Suc i)
  then show ?case using scale_le [of a b "chain a b i"] by (simp add: chain_Suc scale_def)
qed

section \<open>The loop without wrap-around\<close>

lemma pow_w_eq:
  assumes "a < 2 ^ 21" and "e \<le> 3"
  shows "pow_w 128 a e = a ^ e"
proof -
  have "a ^ e \<le> (2 ^ 21) ^ e" using assms(1) by (intro power_mono) simp_all
  also have "\<dots> \<le> (2 ^ 21) ^ 3" using assms(2) by (intro power_increasing) simp_all
  also have "\<dots> < (2::nat) ^ 128" by (simp add: power_mult [symmetric])
  finally show ?thesis by (simp add: pow_w_def)
qed

lemma mul_pow_eq:
  assumes "x \<le> two_div_ln_2" and "a < 2 ^ 21" and "e \<le> 3"
  shows "mul_w 128 x (pow_w 128 a e) = x * a ^ e"
proof -
  have "a ^ e \<le> (2 ^ 21) ^ e" using assms(2) by (intro power_mono) simp_all
  also have "\<dots> \<le> (2 ^ 21) ^ 3" using assms(3) by (intro power_increasing) simp_all
  finally have "x * a ^ e \<le> 2885390 * (2 ^ 21) ^ 3"
    using assms(1) unfolding two_div_ln_2_def by (rule mult_le_mono [rotated])
  also have "\<dots> < (2::nat) ^ 128" by simp
  finally show ?thesis using assms(2,3) by (simp add: pow_w_eq mul_w_def)
qed

lemma taylor_scale_eq:
  assumes "0 < b" and "a \<le> b" and "b < 2 ^ 21"
  shows "x \<le> two_div_ln_2 \<Longrightarrow> taylor_scale i a b x = ret ((scale a b ^^ i) x)"
proof (induction i arbitrary: x)
  case 0
  then show ?case by simp
next
  case (Suc i)
  have "mul_w 128 x (pow_w 128 a 2) = x * a ^ 2" "pow_w 128 b 2 = b ^ 2"
    using mul_pow_eq [OF Suc.prems, of a 2] pow_w_eq [of b 2] assms by simp_all
  moreover have "scale a b x \<le> two_div_ln_2"
    using scale_le [OF assms(2), of x] Suc.prems by linarith
  ultimately show ?case
    using Suc.IH [of "scale a b x"] assms(1)
    by (simp add: div_run_def funpow_swap1 [of "scale a b" i x]) (simp add: scale_def)
qed

lemma log_term_le:
  assumes "a \<le> b"
  shows "log_term a b k \<le> two_div_ln_2"
proof (cases "k = 0")
  case True
  then show ?thesis using assms by (simp add: log_term_def mult_div_le)
next
  case False
  have "chain a b (k - 1) div (2 * k + 1) \<le> chain a b (k - 1)" by (rule div_le_dividend)
  then show ?thesis using False order_trans [OF _ chain_le [OF assms, of "k - 1"]] by (simp add: log_term_def)
qed

lemma taylor_term_eq:
  assumes "0 < b" and "a \<le> b" and "b < 2 ^ 21"
  shows "taylor_term k a b = ret (log_term a b k)"
proof -
  have fits: "unwrap_run (try_into 32 (log_term a b k)) = ret (log_term a b k)"
    using log_term_le [OF assms(2), of k] by (intro unwrap_try_into) (simp add: two_div_ln_2_def max_w_def)
  have a: "a < 2 ^ 21" using assms by linarith
  note pw = mul_pow_eq [OF order_refl a] pow_w_eq [OF a] pow_w_eq [OF assms(3)]
  show ?thesis
  proof (cases "k = 0")
    case True
    have "mul_w 128 two_div_ln_2 (pow_w 128 a (Suc 0)) = two_div_ln_2 * a" "pow_w 128 b (Suc 0) = b"
      using pw(1) [of "Suc 0"] pw(3) [of "Suc 0"] by simp_all
    then show ?thesis using True fits assms(1)
      by (simp add: taylor_term_def log_term_def div_run_def)
  next
    case False
    have "mul_w 128 two_div_ln_2 (pow_w 128 a 3) = two_div_ln_2 * a ^ 3" "pow_w 128 b 3 = b ^ 3"
      using pw(1) [of 3] pw(3) [of 3] by simp_all
    moreover have "taylor_scale (k - 1) a b (two_div_ln_2 * a ^ 3 div b ^ 3) = ret (chain a b (k - 1))"
      using taylor_scale_eq [OF assms] chain_le [OF assms(2), of 0] by (simp add: chain_def)
    ultimately show ?thesis using False fits assms(1)
      by (simp add: taylor_term_def log_term_def div_run_def)
  qed
qed

text \<open>For \<open>3 a < b\<close>, as the search gives it, the terms fall and are zero from the seventh on.\<close>

lemma scale_ninth:
  assumes "3 * a < b"
  shows "9 * scale a b x \<le> x"
proof -
  have "9 * (x * a ^ 2) \<le> x * b ^ 2"
  proof -
    have "(3 * a) ^ 2 \<le> b ^ 2" using assms by (intro power_mono) simp_all
    then show ?thesis by (simp add: power_mult_distrib)
  qed
  moreover have "9 * scale a b x * b ^ 2 \<le> 9 * (x * a ^ 2)"
    unfolding scale_def using div_times_less_eq_dividend [of "x * a ^ 2" "b ^ 2"] by simp
  ultimately have "9 * scale a b x * b ^ 2 \<le> x * b ^ 2" by linarith
  then show ?thesis using assms by simp
qed

lemma chain_bound:
  assumes "3 * a < b"
  shows "27 * 9 ^ i * chain a b i \<le> two_div_ln_2"
proof (induction i)
  case 0
  have "(3 * a) ^ 3 \<le> b ^ 3" using assms by (intro power_mono) simp_all
  then have "27 * (two_div_ln_2 * a ^ 3) \<le> two_div_ln_2 * b ^ 3" by (simp add: power_mult_distrib)
  moreover have "27 * chain a b 0 * b ^ 3 \<le> 27 * (two_div_ln_2 * a ^ 3)"
    using div_times_less_eq_dividend [of "two_div_ln_2 * a ^ 3" "b ^ 3"] by (simp add: chain_def)
  ultimately have "27 * chain a b 0 * b ^ 3 \<le> two_div_ln_2 * b ^ 3" by linarith
  then show ?case using assms by simp
next
  case (Suc i)
  have "9 * chain a b (Suc i) \<le> chain a b i"
    using scale_ninth [OF assms, of "chain a b i"] by (simp add: chain_Suc scale_def)
  then have "27 * 9 ^ i * (9 * chain a b (Suc i)) \<le> 27 * 9 ^ i * chain a b i" by (rule mult_le_mono2)
  then have "27 * 9 ^ Suc i * chain a b (Suc i) \<le> 27 * 9 ^ i * chain a b i" by (simp only: power_Suc ac_simps)
  then show ?case using Suc.IH by (rule order_trans)
qed

lemma chain_antimono: "a \<le> b \<Longrightarrow> chain a b (Suc i) \<le> chain a b i"
  using scale_le [of a b "chain a b i"] by (simp add: chain_Suc scale_def)

lemma log_term_seven:
  assumes "3 * a < b"
  shows "log_term a b 7 = 0"
proof -
  have "27 * 9 ^ 6 * chain a b 6 \<le> 2885390"
    using chain_bound [OF assms, of 6] by (simp only: two_div_ln_2_def)
  then have "chain a b 6 = 0" by simp
  then show ?thesis by (simp add: log_term_def)
qed

lemma log_term_antimono:
  assumes "a \<le> b"
  shows "log_term a b (Suc k) \<le> log_term a b k"
proof (cases k)
  case 0
  have "chain a b 0 \<le> two_div_ln_2 * a div b"
  proof (cases "b = 0")
    case False
    have "two_div_ln_2 * a ^ 3 div b ^ 3 = two_div_ln_2 * a * a ^ 2 div b ^ 2 div b"
      by (simp add: div_mult2_eq [symmetric] power3_eq_cube power2_eq_square mult.assoc)
    also have "\<dots> \<le> two_div_ln_2 * a div b"
      using assms by (intro div_le_mono mult_div_le power_mono) simp_all
    finally show ?thesis by (simp add: chain_def)
  qed (simp add: chain_def)
  then show ?thesis using 0 by (simp add: log_term_def)
next
  case (Suc j)
  have "chain a b (Suc j) div (2 * Suc (Suc j) + 1) \<le> chain a b j div (2 * Suc j + 1)"
    by (rule order_trans [OF div_le_mono [OF chain_antimono [OF assms]] div_le_mono2]) simp_all
  then show ?thesis using Suc by (simp add: log_term_def)
qed

lemma log_term_zero:
  assumes "a \<le> b" and "log_term a b k = 0" and "k \<le> i"
  shows "log_term a b i = 0"
  using assms(3)
proof (induction i rule: dec_induct)
  case base
  show ?case by (rule assms(2))
next
  case (step n)
  then show ?case using log_term_antimono [OF assms(1), of n] by simp
qed

definition log_sum :: "nat \<Rightarrow> nat \<Rightarrow> nat" where
  "log_sum a b = (\<Sum>k = 0..<7. log_term a b k)"

lemma log2_loop_from:
  assumes "3 * a < b" and "b < 2 ^ 21"
  shows "k \<le> 7 \<Longrightarrow> res + (\<Sum>i = k..<7. log_term a b i) < 2 ^ 32
    \<Longrightarrow> log2_loop a b k res = ret (res + (\<Sum>i = k..<7. log_term a b i))"
proof (induction "7 - k" arbitrary: k res)
  case 0
  then have "k = 7" by simp
  moreover have "log2_loop a b 7 res = ret res"
    using assms log_term_seven [OF assms(1)]
    by (subst log2_loop.simps) (simp add: taylor_term_eq)
  ultimately show ?case by simp
next
  case (Suc n)
  have t: "taylor_term k a b = ret (log_term a b k)" using assms by (intro taylor_term_eq) simp_all
  have sum: "(\<Sum>i = k..<7. log_term a b i) = log_term a b k + (\<Sum>i = Suc k..<7. log_term a b i)"
    using Suc.hyps(2) by (intro sum.atLeast_Suc_lessThan) simp
  show ?case
  proof (cases "log_term a b k = 0")
    case True
    then have "(\<Sum>i = k..<7. log_term a b i) = 0"
      using log_term_zero [OF _ True] assms(1) by simp
    then show ?thesis using True by (subst log2_loop.simps) (simp add: t)
  next
    case False
    have fit: "add_w 32 res (log_term a b k) = res + log_term a b k" "add_w 32 k 1 = Suc k"
      using Suc.prems sum by (simp_all add: add_w_def)
    have "log2_loop a b (Suc k) (res + log_term a b k) =
      ret (res + log_term a b k + (\<Sum>i = Suc k..<7. log_term a b i))"
      using Suc.prems Suc.hyps(2) sum by (intro Suc.hyps(1)) simp_all
    then show ?thesis using False sum fit by (subst log2_loop.simps) (simp add: t)
  qed
qed

lemma log_sum_le:
  assumes "a \<le> b"
  shows "log_sum a b \<le> 7 * two_div_ln_2"
  using sum_bounded_above [of "{0..<7::nat}" "log_term a b" two_div_ln_2] log_term_le [OF assms]
  by (simp add: log_sum_def)

lemma log2_loop_eq:
  assumes "3 * a < b" and "b < 2 ^ 21" and "n < 20"
  shows "log2_loop a b 0 (mul_w 32 n 1000000) = ret (n * 1000000 + log_sum a b)"
proof -
  have "log_sum a b \<le> 20197730" using log_sum_le [of a b] assms(1) by (simp add: two_div_ln_2_def)
  moreover have "n * 1000000 \<le> 20 * 1000000" using assms(3) by (intro mult_le_mono1) simp
  ultimately have "n * 1000000 + log_sum a b < 2 ^ 32" "mul_w 32 n 1000000 = n * 1000000"
    by (simp_all add: mul_w_def)
  then show ?thesis
    using log2_loop_from [OF assms(1,2), of 0 "n * 1000000"] by (simp add: log_sum_def)
qed

text \<open>The search finds the octave of \<open>p / q\<close>.\<close>

definition in_octave :: "nat \<Rightarrow> nat \<Rightarrow> nat \<Rightarrow> bool" where
  "in_octave p q m \<longleftrightarrow> 2 ^ m * q \<le> p \<and> p < 2 ^ Suc m * q"

lemma octave_exists:
  assumes "0 < q" and "q \<le> p"
  shows "\<exists>m. in_octave p q m"
proof -
  have "1 \<le> p div q" using assms div_le_mono [of q p q] by simp
  then obtain m where "2 ^ m \<le> p div q" "p div q < 2 ^ (m + 1)"
    using ex_power_ivl1 [of 2 "p div q"] by auto
  then have "2 ^ m * q \<le> p" "p < 2 ^ Suc m * q"
    using assms(1) by (simp_all add: less_eq_div_iff_mult_less_eq div_less_iff_less_mult)
  then show ?thesis unfolding in_octave_def by blast
qed

lemma octave_less:
  assumes "in_octave p q m" and "p \<le> 1000000" and "0 < q"
  shows "m < 20"
proof (rule ccontr)
  assume "\<not> m < 20"
  then have "(2::nat) ^ 20 \<le> 2 ^ m" by (intro power_increasing) simp_all
  also have "\<dots> \<le> 2 ^ m * q" using assms(3) by simp
  also have "\<dots> \<le> 1000000" using assms(1,2) by (simp add: in_octave_def)
  finally show False by simp
qed

lemma octave_mono:
  assumes "in_octave p q m" and "in_octave p q' m'" and "q' \<le> q"
  shows "m \<le> m'"
proof (rule ccontr)
  assume "\<not> m \<le> m'"
  then have "2 ^ Suc m' \<le> (2::nat) ^ m" by (intro power_increasing) simp_all
  then have "2 ^ Suc m' * q' \<le> 2 ^ m * q" using assms(3) by (intro mult_le_mono)
  then show False using assms(1,2) by (simp add: in_octave_def)
qed

lemma pow2_mul_eq:
  assumes "in_octave p q m" and "p \<le> 1000000" and "0 < q" and "n \<le> Suc m"
  shows "mul_w 32 (pow2 n) q = 2 ^ n * q"
proof -
  have "2 ^ n * q \<le> 2 ^ Suc m * q" using assms(4) by (intro mult_le_mono1 power_increasing) simp_all
  also have "\<dots> \<le> 2 * p" using assms(1) by (simp add: in_octave_def)
  finally have "2 ^ n * q < 2 ^ 32" using assms(2) by simp
  moreover have "n < 32" using octave_less [OF assms(1-3)] assms(4) by simp
  ultimately show ?thesis by (simp add: mul_w_def pow2_def)
qed

lemma log2_power_eq:
  assumes oct: "in_octave p q m" and p: "p \<le> 1000000" and q: "0 < q"
  shows "n \<le> m \<Longrightarrow> log2_power p q n = ret m"
proof (induction "m - n" arbitrary: n)
  case 0
  then have "n = m" by simp
  then show ?case
    using oct by (subst log2_power.simps) (simp add: pow2_mul_eq [OF assms] in_octave_def)
next
  case (Suc d)
  then have n: "Suc n \<le> m" "n + 1 < 32" using octave_less [OF assms] by simp_all
  have "2 ^ Suc n * q \<le> 2 ^ m * q" using n by (intro mult_le_mono1 power_increasing) simp_all
  then have "2 ^ Suc n * q \<le> p" using oct unfolding in_octave_def by linarith
  then have "mul_w 32 (pow2 (n + 1)) q \<le> p" using pow2_mul_eq [OF assms, of "Suc n"] n by simp
  then have "log2_power p q n = log2_power p q (n + 1)" using n by (subst log2_power.simps) simp
  then show ?case using Suc.hyps n by simp
qed

text \<open>The value of \<open>log2\<close>: whole octaves, and the terms for what is left.\<close>

definition log2_value :: "nat \<Rightarrow> nat \<Rightarrow> nat \<Rightarrow> nat" where
  "log2_value p q m = m * 1000000 + log_sum (p - 2 ^ m * q) (p + 2 ^ m * q)"

lemma log_sum_0 [simp]: "log_sum 0 b = 0"
proof -
  have "log_term 0 b k = 0" for k by (rule log_term_zero [OF _ _ le0]) (simp_all add: log_term_def)
  then show ?thesis by (simp add: log_sum_def)
qed

lemma log2_eq:
  assumes oct: "in_octave p q m" and p: "p \<le> 1000000" and q: "0 < q"
  shows "log2 p q = ret (log2_value p q m)"
proof -
  let ?Q = "2 ^ m * q"
  have Q: "?Q \<le> p" "p < 2 * ?Q" "q \<le> ?Q" using oct by (simp_all add: in_octave_def)
  have w: "sub_w 32 p ?Q = p - ?Q" "add_w 32 p ?Q = p + ?Q"
    using Q p by (intro sub_w_eq add_w_eq; simp)+
  show ?thesis
  proof (cases "p = q")
    case True
    then have "(2::nat) ^ m \<le> 1" using Q(1) q by simp
    then have "m = 0" using power_increasing [of 1 m "2::nat"] by (cases "m = 0") simp_all
    then show ?thesis using True p by (simp add: log2_def log2_value_def max_w_def)
  next
    case False
    have "log2_loop (p - ?Q) (p + ?Q) 0 (mul_w 32 m 1000000) = ret (m * 1000000 + log_sum (p - ?Q) (p + ?Q))"
      using Q p by (intro log2_loop_eq octave_less [OF assms]) simp_all
    moreover have le: "q \<le> p" "q \<le> 1000000" using Q p by linarith+
    ultimately show ?thesis
      using False Q(1,2) p oct w
      by (simp add: le log2_def log2_value_def max_w_def log2_power_eq [OF assms] pow2_mul_eq [OF assms] in_octave_def)
  qed
qed

text \<open>The terms grow with the fraction.\<close>

lemma div_frac_mono:
  fixes x :: nat
  assumes "x \<le> y" and "A * B' \<le> A' * B" and "0 < B" and "0 < B'"
  shows "x * A div B \<le> y * A' div B'"
proof -
  have "x * A div B * B \<le> x * A" by simp
  then have "x * A div B * B * B' \<le> x * A * B'" by (rule mult_le_mono1)
  also have "\<dots> \<le> y * (A' * B)"
    using mult_le_mono [OF assms(1,2)] by (simp only: mult.assoc)
  finally have "(x * A div B * B') * B \<le> (y * A') * B" by (simp only: ac_simps)
  then have "x * A div B * B' \<le> y * A'" using assms(3) by simp
  then show ?thesis using assms(4) by (simp add: less_eq_div_iff_mult_less_eq)
qed

lemma log_term_mono:
  assumes "a * b' \<le> a' * b" and "0 < b" and "0 < b'"
  shows "log_term a b k \<le> log_term a' b' k"
proof -
  have pow: "a ^ e * b' ^ e \<le> a' ^ e * b ^ e" for e
    using power_mono [OF assms(1), of e] by (simp add: power_mult_distrib)
  have chain: "chain a b i \<le> chain a' b' i" for i
  proof (induction i)
    case 0
    show ?case using assms pow [of 3] by (auto simp: chain_def intro!: div_frac_mono)
  next
    case (Suc i)
    then show ?case using assms pow [of 2] by (auto simp: chain_Suc intro!: div_frac_mono)
  qed
  show ?thesis
    using assms chain by (auto simp: log_term_def intro!: div_frac_mono div_le_mono)
qed

lemma log_sum_mono:
  assumes "a * b' \<le> a' * b" and "0 < b" and "0 < b'"
  shows "log_sum a b \<le> log_sum a' b'"
  unfolding log_sum_def by (intro sum_mono log_term_mono assms)

text \<open>Within an octave the value falls as the divisor grows.\<close>

lemma log2_value_antimono:
  assumes "q' \<le> q" and "0 < q'" and "2 ^ m * q \<le> p"
  shows "log2_value p q m \<le> log2_value p q' m"
proof -
  have "2 ^ m * q' \<le> 2 ^ m * q" using assms(1) by simp
  then obtain d where d: "2 ^ m * q = 2 ^ m * q' + d" by (metis le_iff_add)
  obtain e where e: "p = 2 ^ m * q + e" using assms(3) by (metis le_iff_add)
  have "(p - 2 ^ m * q) * (p + 2 ^ m * q') \<le> (p - 2 ^ m * q') * (p + 2 ^ m * q)"
    unfolding d e by (simp add: algebra_simps)
  then show ?thesis
    using assms by (auto simp: log2_value_def intro!: log_sum_mono)
qed

end
