(* ===== verification/RewardAccuracy.thy ===== *)
theory RewardAccuracy
  imports RewardLog
begin

text \<open>
  The compile-time logarithm of \<open>reward-curve/src/log.rs\<close> against the real one: what it returns is below
  the real value by less than nine millionths, and falls as its divisor grows.
\<close>

section \<open>The series\<close>

definition artanh_part :: "nat \<Rightarrow> real \<Rightarrow> real" where
  "artanh_part n r = (\<Sum>k = 0..<n. r ^ (2 * k + 1) / real (2 * k + 1))"

definition half_ln :: "real \<Rightarrow> real" where
  "half_ln r = (ln (1 + r) - ln (1 - r)) / 2"

lemma monomial_deriv:
  "((\<lambda>x::real. x ^ (2 * k + 1) / real (2 * k + 1)) has_real_derivative r ^ (2 * k)) (at r)"
  using DERIV_cdivide [OF DERIV_pow [of "2 * k + 1" r UNIV], of "real (2 * k + 1)"] by (simp del: of_nat_add)

lemma artanh_part_deriv:
  assumes "r\<^sup>2 \<noteq> 1"
  shows "(artanh_part n has_real_derivative (1 - r ^ (2 * n)) / (1 - r\<^sup>2)) (at r)"
proof -
  have "(artanh_part n has_real_derivative (\<Sum>k = 0..<n. r ^ (2 * k))) (at r)"
    unfolding artanh_part_def [abs_def] by (intro DERIV_sum monomial_deriv)
  also have "(\<Sum>k = 0..<n. r ^ (2 * k)) = (\<Sum>k = 0..<n. (r\<^sup>2) ^ k)" by (simp only: power_mult)
  also have "\<dots> = ((r\<^sup>2) ^ n - 1) / (r\<^sup>2 - 1)"
    unfolding atLeast0LessThan by (rule geometric_sum [OF assms])
  also have "\<dots> = (1 - r ^ (2 * n)) / (1 - r\<^sup>2)"
    by (simp only: power_mult minus_divide_divide [of "(r\<^sup>2) ^ n - 1", symmetric] minus_diff_eq)
  finally show ?thesis .
qed

lemma half_ln_deriv:
  assumes "0 \<le> r" and "r < 1"
  shows "(half_ln has_real_derivative 1 / (1 - r\<^sup>2)) (at r)"
proof -
  have "1 / (1 - r\<^sup>2) = (inverse (1 + r) + inverse (1 - r)) / 2"
  proof -
    have "1 - r\<^sup>2 = (1 + r) * (1 - r)" by (simp add: power2_eq_square algebra_simps)
    moreover have "inverse (1 + r) + inverse (1 - r) = 2 / ((1 + r) * (1 - r))"
      using assms add_frac_eq [of "1 + r" "1 - r" 1 1] by (simp add: inverse_eq_divide)
    ultimately show ?thesis by simp
  qed
  moreover have "(half_ln has_real_derivative (inverse (1 + r) + inverse (1 - r)) / 2) (at r)"
    unfolding half_ln_def [abs_def] using assms
    by (auto intro!: derivative_eq_intros simp: divide_simps)
  ultimately show ?thesis by (simp only:)
qed

lemma square_less_one: "0 \<le> r \<Longrightarrow> r < 1 \<Longrightarrow> r\<^sup>2 < (1::real)"
  by (rule power_less_one_iff [THEN iffD2]) simp_all

lemma artanh_part_le:
  assumes "0 \<le> r" and "r < 1"
  shows "artanh_part n r \<le> half_ln r"
proof -
  let ?f = "\<lambda>x. half_ln x - artanh_part n x"
  have "?f 0 \<le> ?f r"
  proof (rule DERIV_nonneg_imp_nondecreasing [OF assms(1)])
    fix x assume x: "0 \<le> x" "x \<le> r"
    then have sq: "x\<^sup>2 < 1" using assms by (intro square_less_one) simp_all
    have "(?f has_real_derivative 1 / (1 - x\<^sup>2) - (1 - x ^ (2 * n)) / (1 - x\<^sup>2)) (at x)"
      using x assms sq by (intro DERIV_diff half_ln_deriv artanh_part_deriv) simp_all
    moreover have "0 \<le> 1 / (1 - x\<^sup>2) - (1 - x ^ (2 * n)) / (1 - x\<^sup>2)"
      using x sq by (simp add: diff_divide_distrib [symmetric])
    ultimately show "\<exists>y. (?f has_real_derivative y) (at x) \<and> 0 \<le> y" by blast
  qed
  then show ?thesis by (simp add: half_ln_def artanh_part_def)
qed

lemma tail_identity:
  fixes D :: real
  assumes "D \<noteq> 0"
  shows "(1 - P) / D + 9 / 8 * P - 1 / D = P * ((9 * D - 8) / (8 * D))"
  using assms by (simp add: field_simps)

lemma half_ln_le:
  assumes "0 \<le> r" and "r \<le> 1 / 3"
  shows "half_ln r \<le> artanh_part n r + 9 / 8 * (r ^ (2 * n + 1) / real (2 * n + 1))"
proof -
  let ?f = "\<lambda>x. artanh_part n x + 9 / 8 * (x ^ (2 * n + 1) / real (2 * n + 1)) - half_ln x"
  have "?f 0 \<le> ?f r"
  proof (rule DERIV_nonneg_imp_nondecreasing [OF assms(1)])
    fix x assume x: "0 \<le> x" "x \<le> r"
    then have sq: "x\<^sup>2 < 1" using assms by (intro square_less_one) simp_all
    have "x\<^sup>2 \<le> (1 / 3)\<^sup>2" using x assms by (intro power_mono) simp_all
    then have ninth: "9 * x\<^sup>2 \<le> 1" by (simp add: power2_eq_square)
    have "((\<lambda>x. 9 / 8 * (x ^ (2 * n + 1) / real (2 * n + 1))) has_real_derivative 9 / 8 * x ^ (2 * n)) (at x)"
      by (intro DERIV_cmult monomial_deriv)
    then have "(?f has_real_derivative
      (1 - x ^ (2 * n)) / (1 - x\<^sup>2) + 9 / 8 * x ^ (2 * n) - 1 / (1 - x\<^sup>2)) (at x)"
      using x assms sq by (intro DERIV_diff DERIV_add half_ln_deriv artanh_part_deriv) simp_all
    moreover have "(1 - x ^ (2 * n)) / (1 - x\<^sup>2) + 9 / 8 * x ^ (2 * n) - 1 / (1 - x\<^sup>2) =
      x ^ (2 * n) * ((1 - 9 * x\<^sup>2) / (8 * (1 - x\<^sup>2)))"
      using tail_identity [of "1 - x\<^sup>2" "x ^ (2 * n)"] sq by simp
    moreover have "0 \<le> x ^ (2 * n) * ((1 - 9 * x\<^sup>2) / (8 * (1 - x\<^sup>2)))"
      using x sq ninth by simp
    ultimately show "\<exists>y. (?f has_real_derivative y) (at x) \<and> 0 \<le> y" by (auto simp only:)
  qed
  then show ?thesis by (simp add: half_ln_def artanh_part_def)
qed

lemma artanh_part_7:
  "artanh_part 7 r = r + r ^ 3 / 3 + r ^ 5 / 5 + r ^ 7 / 7 + r ^ 9 / 9 + r ^ 11 / 11 + r ^ 13 / 13"
  by (simp add: artanh_part_def eval_nat_numeral)

lemma half_ln_third: "half_ln (1 / 3) = ln 2 / 2"
proof -
  have "ln (4 / 3) - ln (2 / 3 :: real) = ln 2" using ln_div [of "4 / 3" "2 / 3 :: real"] by simp
  then show ?thesis by (simp add: half_ln_def)
qed

lemma ln_2_bounds: "6931471 / 10000000 \<le> ln (2 :: real)" "ln 2 \<le> 200000 / (288539 :: real)"
proof -
  have "6931471 / 20000000 \<le> artanh_part 7 (1 / 3)" by (simp add: artanh_part_7 power_divide)
  then show "6931471 / 10000000 \<le> ln (2 :: real)"
    using artanh_part_le [of "1 / 3" 7] half_ln_third by simp
  have "artanh_part 7 (1 / 3) + 9 / 8 * ((1 / 3) ^ 15 / 15) \<le> 100000 / (288539 :: real)"
    by (simp add: artanh_part_7 power_divide)
  then show "ln 2 \<le> 200000 / (288539 :: real)"
    using half_ln_le [of "1 / 3" 7] half_ln_third by simp
qed

section \<open>The truncated terms\<close>

lemma real_div_bounds:
  "real (x div y) \<le> real x / real y" "real x / real y \<le> real (x div y) + 1"
  using real_of_int_div4 [of "int x" "int y"] real_of_int_div3 [of "int x" "int y"]
  by (simp_all add: of_nat_div [symmetric])

lemma chain_real:
  assumes "3 * a < b"
  defines "r \<equiv> real a / real b"
  shows "real (chain a b i) \<le> 2885390 * r ^ (2 * i + 3) \<and> 2885390 * r ^ (2 * i + 3) \<le> real (chain a b i) + 9 / 8"
proof (induction i)
  case 0
  have "real (two_div_ln_2 * a ^ 3) / real (b ^ 3) = 2885390 * r ^ 3"
    by (simp add: two_div_ln_2_def r_def power_divide)
  then show ?case using real_div_bounds [of "two_div_ln_2 * a ^ 3" "b ^ 3"] by (simp add: chain_def)
next
  case (Suc i)
  let ?c = "real (chain a b i)"
  have r: "0 \<le> r\<^sup>2" "r\<^sup>2 \<le> 1 / 9"
  proof -
    have "r \<le> 1 / 3" using assms(1) by (simp add: r_def field_simps)
    then have "r\<^sup>2 \<le> (1 / 3)\<^sup>2" by (intro power_mono) (simp_all add: r_def)
    then show "r\<^sup>2 \<le> 1 / 9" by (simp add: power_divide)
  qed simp
  have split: "2885390 * r ^ (2 * Suc i + 3) = 2885390 * r ^ (2 * i + 3) * r\<^sup>2"
    by (simp add: power_add eval_nat_numeral)
  have "real (chain a b i * a ^ 2) / real (b ^ 2) = ?c * r\<^sup>2" by (simp add: r_def power_divide)
  then have b: "real (chain a b (Suc i)) \<le> ?c * r\<^sup>2" "?c * r\<^sup>2 \<le> real (chain a b (Suc i)) + 1"
    using real_div_bounds [of "chain a b i * a ^ 2" "b ^ 2"] by (simp_all add: chain_Suc)
  have "?c * r\<^sup>2 \<le> 2885390 * r ^ (2 * i + 3) * r\<^sup>2" using Suc.IH r by (intro mult_right_mono) simp_all
  moreover have "2885390 * r ^ (2 * i + 3) * r\<^sup>2 \<le> (?c + 9 / 8) * r\<^sup>2"
    using Suc.IH r by (intro mult_right_mono) simp_all
  moreover have "(?c + 9 / 8) * r\<^sup>2 \<le> ?c * r\<^sup>2 + 1 / 8" using r by (simp add: distrib_right)
  ultimately show ?case unfolding split using b by linarith
qed

definition term_error :: "nat \<Rightarrow> real" where
  "term_error k = (if k = 0 then 1 else 1 + 9 / 8 / real (2 * k + 1))"

lemma log_term_real:
  assumes "3 * a < b"
  defines "r \<equiv> real a / real b"
  shows "real (log_term a b k) \<le> 2885390 * (r ^ (2 * k + 1) / real (2 * k + 1))"
    and "2885390 * (r ^ (2 * k + 1) / real (2 * k + 1)) \<le> real (log_term a b k) + term_error k"
proof -
  let ?t = "2885390 * (r ^ (2 * k + 1) / real (2 * k + 1))"
  have "real (log_term a b k) \<le> ?t \<and> ?t \<le> real (log_term a b k) + term_error k"
  proof (cases k)
    case 0
    have "real (two_div_ln_2 * a) / real b = 2885390 * r" by (simp add: two_div_ln_2_def r_def)
    then show ?thesis
      using real_div_bounds [of "two_div_ln_2 * a" b] 0 by (simp add: log_term_def term_error_def)
  next
    case (Suc j)
    let ?c = "real (chain a b j)" and ?n = "real (2 * k + 1)"
    have "?t = 2885390 * r ^ (2 * j + 3) / ?n" using Suc by (simp add: numeral_3_eq_3)
    moreover have "?c / ?n \<le> 2885390 * r ^ (2 * j + 3) / ?n" "2885390 * r ^ (2 * j + 3) / ?n \<le> (?c + 9 / 8) / ?n"
      using chain_real [OF assms(1), of j] by (intro divide_right_mono; simp add: r_def)+
    moreover have "real (log_term a b k) = real (chain a b j div (2 * k + 1))" using Suc by (simp add: log_term_def)
    moreover have "(?c + 9 / 8) / ?n = ?c / ?n + 9 / 8 / ?n" by (rule add_divide_distrib)
    moreover have "term_error k = 1 + 9 / 8 / ?n" using Suc by (simp add: term_error_def)
    ultimately show ?thesis using real_div_bounds [of "chain a b j" "2 * k + 1"] by linarith
  qed
  then show "real (log_term a b k) \<le> ?t" "?t \<le> real (log_term a b k) + term_error k" by simp_all
qed

lemma term_error_sum: "(\<Sum>k = 0..<7. term_error k) \<le> 81 / 10"
  by (simp add: term_error_def eval_nat_numeral)

lemma log_sum_real:
  assumes "3 * a < b"
  defines "r \<equiv> real a / real b"
  shows "real (log_sum a b) \<le> 2885390 * artanh_part 7 r"
    and "2885390 * artanh_part 7 r \<le> real (log_sum a b) + 81 / 10"
proof -
  have part: "2885390 * artanh_part 7 r = (\<Sum>k = 0..<7. 2885390 * (r ^ (2 * k + 1) / real (2 * k + 1)))"
    by (simp add: artanh_part_def sum_distrib_left)
  have sum: "real (log_sum a b) = (\<Sum>k = 0..<7. real (log_term a b k))" by (simp add: log_sum_def)
  show "real (log_sum a b) \<le> 2885390 * artanh_part 7 r"
    unfolding part sum unfolding r_def by (intro sum_mono log_term_real assms(1))
  have "2885390 * artanh_part 7 r \<le> (\<Sum>k = 0..<7. real (log_term a b k) + term_error k)"
    unfolding part unfolding r_def by (intro sum_mono log_term_real assms(1))
  also have "\<dots> = real (log_sum a b) + (\<Sum>k = 0..<7. term_error k)" by (simp only: sum sum.distrib)
  finally show "2885390 * artanh_part 7 r \<le> real (log_sum a b) + 81 / 10" using term_error_sum by linarith
qed

section \<open>The logarithm\<close>

lemma octave_third: "in_octave p q m \<Longrightarrow> 3 * (p - 2 ^ m * q) < p + 2 ^ m * q"
  unfolding in_octave_def power_Suc mult.assoc by linarith

lemma half_ln_ratio:
  assumes "0 < Q" and "Q \<le> p" and "p < 2 * (Q::real)"
  shows "half_ln ((p - Q) / (p + Q)) = ln (p / Q) / 2"
proof -
  have "1 + (p - Q) / (p + Q) = 2 * p / (p + Q)" "1 - (p - Q) / (p + Q) = 2 * Q / (p + Q)"
    using assms by (simp_all add: field_simps)
  then have "half_ln ((p - Q) / (p + Q)) = (ln (2 * p / (p + Q)) - ln (2 * Q / (p + Q))) / 2"
    by (simp add: half_ln_def)
  also have "\<dots> = ln (p / Q) / 2" using assms by (simp add: ln_div ln_mult)
  finally show ?thesis .
qed

lemma log2_value_real:
  assumes oct: "in_octave p q m" and q: "0 < q"
  shows "real (log2_value p q m) \<le> 1000000 * log 2 (real p / real q)"
    and "1000000 * log 2 (real p / real q) \<le> real (log2_value p q m) + 9"
proof -
  let ?Q = "real (2 ^ m * q)" and ?S = "real (log_sum (p - 2 ^ m * q) (p + 2 ^ m * q))"
  let ?x = "log 2 (real p / ?Q)"
  define r where "r = real (p - 2 ^ m * q) / real (p + 2 ^ m * q)"
  have Q: "0 < ?Q" "?Q \<le> real p" "real p < 2 * ?Q"
  proof -
    have nat: "0 < 2 ^ m * q" "2 ^ m * q \<le> p" "p < 2 * (2 ^ m * q)"
      using oct q by (simp_all add: in_octave_def mult.assoc)
    show "0 < ?Q" using nat(1) by (simp only: of_nat_0_less_iff)
    show "?Q \<le> real p" using nat(2) by (simp only: of_nat_le_iff)
    have "real p < real (2 * (2 ^ m * q))" using nat(3) by (simp only: of_nat_less_iff)
    then show "real p < 2 * ?Q" by simp
  qed
  have third: "0 \<le> r" "r \<le> 1 / 3"
  proof -
    show "0 \<le> r" by (simp add: r_def)
    have "real (3 * (p - 2 ^ m * q)) \<le> real (p + 2 ^ m * q)"
      using octave_third [OF oct] by (simp only: of_nat_le_iff less_imp_le)
    moreover have "0 < real (p + 2 ^ m * q)" using Q by simp
    ultimately show "r \<le> 1 / 3" unfolding r_def by (simp only: pos_divide_le_eq) simp
  qed
  have r: "half_ln r = ln (real p / ?Q) / 2"
  proof -
    have "2 ^ m * q \<le> p" using Q(2) by (simp only: of_nat_le_iff)
    then have "r = (real p - ?Q) / (real p + ?Q)" by (simp only: r_def of_nat_diff of_nat_add)
    then show ?thesis using half_ln_ratio [OF Q] by simp
  qed
  have ln2: "0 < ln (2::real)" by simp
  have hx: "2 * half_ln r = ?x * ln 2" using r by (simp add: log_def)
  have x: "0 \<le> ?x" "?x \<le> 1"
    using Q by (simp_all add: divide_simps)
  have split: "1000000 * log 2 (real p / real q) = 1000000 * real m + 1000000 * ?x"
  proof -
    have "log 2 (real p / real q) = log 2 (2 ^ m * (real p / ?Q))" using q by simp
    also have "\<dots> = real m + ?x" using Q q by (subst log_mult) (simp_all add: log_nat_power)
    finally show ?thesis by simp
  qed
  have val: "real (log2_value p q m) = 1000000 * real m + ?S" by (simp add: log2_value_def)
  note S = log_sum_real [OF octave_third [OF oct], folded r_def]
  have "2885390 * half_ln r \<le> 1000000 * ?x"
  proof -
    have "2885390 * half_ln r = 1442695 * (?x * ln 2)" using hx by simp
    also have "\<dots> \<le> 1442695 * (?x * (200000 / 288539))" using x ln_2_bounds by (intro mult_left_mono) simp_all
    finally show ?thesis by simp
  qed
  then show "real (log2_value p q m) \<le> 1000000 * log 2 (real p / real q)"
    using S(1) artanh_part_le [of r 7] third unfolding split val by linarith
  have "1000000 * ?x \<le> 2885390 * half_ln r + 1 / 2"
  proof -
    have "1442695 * (?x * (6931471 / 10000000)) \<le> 1442695 * (?x * ln 2)"
      using x ln_2_bounds by (intro mult_left_mono) simp_all
    moreover have "1442695 * (?x * ln 2) = 2885390 * half_ln r" using hx by simp
    ultimately show ?thesis using x(2) by linarith
  qed
  moreover have "half_ln r \<le> artanh_part 7 r + 1 / 10000000"
  proof -
    have "r ^ 15 \<le> (1 / 3) ^ 15" using third by (intro power_mono)
    then show ?thesis using half_ln_le [OF third, of 7] by (simp add: power_divide)
  qed
  ultimately show "1000000 * log 2 (real p / real q) \<le> real (log2_value p q m) + 9"
    using S(2) unfolding split val by linarith
qed

text \<open>It falls as the divisor grows, across octaves too.\<close>

lemma log2_value_mono:
  assumes "in_octave p q m" and "in_octave p q' m'" and "q' \<le> q" and "0 < q'"
  shows "log2_value p q m \<le> log2_value p q' m'"
proof (cases "m = m'")
  case True
  then show ?thesis using assms log2_value_antimono [of q' q m p] by (simp add: in_octave_def)
next
  case False
  then have less: "Suc m \<le> m'" using octave_mono [OF assms(1-3)] by simp
  have "log 2 (real p / real q) \<le> real (Suc m)"
  proof -
    have "0 < 2 ^ m * q" using assms(3,4) by simp
    then have "0 < p" using assms(1) unfolding in_octave_def by linarith
    moreover have "real p / real q \<le> 2 ^ Suc m"
    proof -
      have "real p \<le> real (2 ^ Suc m * q)"
        using assms(1) unfolding in_octave_def of_nat_le_iff by linarith
      then show ?thesis using assms(3,4) by (simp add: divide_simps)
    qed
    ultimately show ?thesis using assms(3,4) by (subst log_le_iff) (simp_all add: powr_realpow powr_add)
  qed
  then have "real (log2_value p q m) \<le> 1000000 * real (Suc m)"
    using log2_value_real(1) [OF assms(1)] assms(3,4) by simp
  also have "\<dots> \<le> real (m' * 1000000)" using less by simp
  also have "\<dots> \<le> real (log2_value p q' m')" by (simp add: log2_value_def)
  finally show ?thesis by simp
qed

text \<open>C39. For \<open>0 < q \<le> p \<le> 1000000\<close> the loops of \<open>log2\<close> end, nothing wraps or panics, and the result is
  below a million times the real \<open>log2 (p / q)\<close> by at most nine.\<close>

theorem log2_accurate:
  assumes "0 < q" and "q \<le> p" and "p \<le> 1000000"
  shows "\<exists>v. log2 p q = ret v \<and> real v \<le> 1000000 * log 2 (real p / real q)
    \<and> 1000000 * log 2 (real p / real q) \<le> real v + 9"
proof -
  obtain m where m: "in_octave p q m" using octave_exists [OF assms(1,2)] by blast
  then show ?thesis using log2_eq [OF m assms(3,1)] log2_value_real [OF m assms(1)] by blast
qed

theorem log2_accurate_witness:
  "\<exists>v. log2 1000000 1 = ret v \<and> real v \<le> 1000000 * log 2 1000000 \<and> 1000000 * log 2 1000000 \<le> real v + 9"
  using log2_accurate [of 1 1000000] by simp

text \<open>For one dividend the result falls as the divisor grows.\<close>

lemma log2_antimono:
  assumes "0 < q'" and "q' \<le> q" and "q \<le> p" and "p \<le> 1000000" and "log2 p q = ret v" and "log2 p q' = ret v'"
  shows "v \<le> v'"
proof -
  obtain m where m: "in_octave p q m" using octave_exists [of q p] assms by auto
  obtain m' where m': "in_octave p q' m'" using octave_exists [of q' p] assms by auto
  show ?thesis
    using log2_value_mono [OF m m' assms(2,1)] log2_eq [OF m assms(4)] log2_eq [OF m' assms(4,1)] assms by simp
qed

end
