(* ===== verification/RewardCurve.thy ===== *)
theory RewardCurve
  imports RewardAccuracy
begin

text \<open>
  The macro \<open>curve!\<close> of \<open>energy-generation/reward-curve/src/lib.rs\<close>: the checks of its parameters, the
  points of the piecewise linear approximation and the curve it generates. The tokens are parsed by
  \<open>syn\<close>; the model starts from the six values. The generated tests are left out.
\<close>

section \<open>Parameters\<close>

definition MILLION :: nat where "MILLION = 1000000"

record inpos_input =
  in_min_inflation :: nat
  in_ideal_stake :: nat
  in_max_inflation :: nat
  in_falloff :: nat
  in_max_piece_count :: nat
  in_test_precision :: nat

record bounds =
  bound_min :: nat
  bound_min_strict :: bool
  bound_max :: nat
  bound_max_strict :: bool

definition bounds_check :: "bounds \<Rightarrow> nat \<Rightarrow> bool" where
  "bounds_check b v =
     (let wrong = (bound_min_strict b \<and> v \<le> bound_min b) \<or> (\<not> bound_min_strict b \<and> v < bound_min b) \<or>
                  (bound_max_strict b \<and> bound_max b \<le> v) \<or> (\<not> bound_max_strict b \<and> bound_max b < v)
      in \<not> wrong)"

definition bounds_of :: "nat \<Rightarrow> bool \<Rightarrow> nat \<Rightarrow> bool \<Rightarrow> bounds" where
  "bounds_of lo los hi his = \<lparr>bound_min = lo, bound_min_strict = los, bound_max = hi, bound_max_strict = his\<rparr>"

definition parse_field :: "string \<Rightarrow> nat \<Rightarrow> bounds \<Rightarrow> string + nat" where
  "parse_field token v b = rbind (ensure (bounds_check b v) token) (\<lambda>_. Inr v)"

text \<open>The error names the field.\<close>

definition parse_inpos_input :: "nat \<Rightarrow> nat \<Rightarrow> nat \<Rightarrow> nat \<Rightarrow> nat \<Rightarrow> nat \<Rightarrow> string + inpos_input" where
  "parse_inpos_input mini maxi ideal fall pieces precision =
     rbind (parse_field ''min_inflation'' mini (bounds_of 0 True 1000000 False)) (\<lambda>min_inflation.
     rbind (parse_field ''max_inflation'' maxi (bounds_of min_inflation True 1000000 False)) (\<lambda>max_inflation.
     rbind (parse_field ''ideal_stake'' ideal (bounds_of 100000 False 900000 False)) (\<lambda>ideal_stake.
     rbind (parse_field ''falloff'' fall (bounds_of 10000 False 1000000 False)) (\<lambda>falloff.
     rbind (parse_field ''max_piece_count'' pieces (bounds_of 2 False 1000 False)) (\<lambda>max_piece_count.
     rbind (parse_field ''test_precision'' precision (bounds_of 0 False 1000000 False)) (\<lambda>test_precision.
       Inr \<lparr>in_min_inflation = min_inflation, in_ideal_stake = ideal_stake, in_max_inflation = max_inflation,
            in_falloff = falloff, in_max_piece_count = max_piece_count,
            in_test_precision = test_precision\<rparr>))))))"

section \<open>The points\<close>

record inpos =
  i_0 :: nat
  i_ideal_times_x_ideal :: nat
  i_ideal :: nat
  x_ideal :: nat
  inpos_d :: nat

definition inpos_from_input :: "inpos_input \<Rightarrow> inpos run" where
  "inpos_from_input input =
     run_bind (div_run (mul_w 64 (in_max_inflation input) MILLION) (in_ideal_stake input)) (\<lambda>i.
     run_bind (unwrap_run (try_into 32 i)) (\<lambda>i.
       ret \<lparr>i_0 = in_min_inflation input, i_ideal_times_x_ideal = in_max_inflation input, i_ideal = i,
            x_ideal = in_ideal_stake input, inpos_d = in_falloff input\<rparr>))"

definition compute_opposite_after_x_ideal :: "inpos \<Rightarrow> nat \<Rightarrow> nat run" where
  "compute_opposite_after_x_ideal I y =
     (if y = i_0 I then ret (max_w 32)
      else run_bind (log2 (sub_w 32 (i_ideal_times_x_ideal I) (i_0 I)) (sub_w 32 y (i_0 I))) (\<lambda>l.
           run_bind (unwrap_run (try_into 32 (mul_w 64 (inpos_d I) l div 1000000))) (\<lambda>term.
             ret (add_w 32 (x_ideal I) term))))"

type_synonym points = "(nat \<times> nat) list"

partial_function (option) points_loop ::
  "inpos \<Rightarrow> nat \<Rightarrow> nat \<Rightarrow> nat \<Rightarrow> nat \<Rightarrow> points \<Rightarrow> points run" where
  "points_loop I min_inflation max_length delta_y y points =
     (if delta_y = 0 then ret (points @ [(1000000, i_0 I)])
      else let next_y = sub_w 32 y delta_y
           in if next_y \<le> min_inflation then points_loop I min_inflation max_length (delta_y - 1) y points
              else run_bind (compute_opposite_after_x_ideal I next_y) (\<lambda>next_x.
                if max_length < sub_w 32 next_x (fst (last points))
                then points_loop I min_inflation max_length (delta_y - 1) y points
                else if 1000000 \<le> next_x
                then let prev = last points
                     in run_bind (div_run (mul_w 64 (sub_w 32 next_x 1000000) (sub_w 32 (snd prev) next_y))
                                    (sub_w 32 next_x (fst prev))) (\<lambda>d.
                        run_bind (unwrap_run (try_into 32 d)) (\<lambda>delta_y.
                          ret (points @ [(1000000, add_w 32 next_y delta_y)])))
                else points_loop I min_inflation max_length delta_y next_y (points @ [(next_x, next_y)])))"

definition compute_points :: "inpos_input \<Rightarrow> points run" where
  "compute_points input =
     run_bind (inpos_from_input input) (\<lambda>I.
       let points = [(0, i_0 I), (x_ideal I, i_ideal_times_x_ideal I)]
       in run_bind (div_run (sub_w 32 (add_w 32 (sub_w 32 (in_max_inflation input) (in_min_inflation input)) 1000000)
                               (x_ideal I))
                      (sub_w 32 (in_max_piece_count input) 1)) (\<lambda>max_length.
            points_loop I (in_min_inflation input) max_length max_length (in_max_inflation input) points))"

section \<open>The curve\<close>

record piecewise_linear =
  curve_points :: points
  curve_maximum :: nat

fun perbill_points :: "points \<Rightarrow> points run" where
  "perbill_points [] = ret []"
| "perbill_points ((x, y) # ps) =
     run_bind (unwrap_run (checked_mul 32 x 1000)) (\<lambda>x_perbill.
     run_bind (unwrap_run (checked_mul 32 y 1000)) (\<lambda>y_perbill.
     run_bind (perbill_points ps) (\<lambda>qs. ret ((x_perbill, y_perbill) # qs))))"

definition generate_piecewise_linear :: "points \<Rightarrow> piecewise_linear run" where
  "generate_piecewise_linear points =
     (let maximum = unwrap_or 1000000000 (checked_mul 32 (Max (insert 0 (set (map snd points)))) 1000)
      in run_bind (perbill_points points) (\<lambda>qs. ret \<lparr>curve_points = qs, curve_maximum = maximum\<rparr>))"

definition build_curve :: "inpos_input \<Rightarrow> piecewise_linear run" where
  "build_curve input = run_bind (compute_points input) generate_piecewise_linear"

section \<open>The inverse of the curve\<close>

lemma bounds_check_of [simp]:
  "bounds_check (bounds_of lo los hi his) v \<longleftrightarrow>
     (if los then lo < v else lo \<le> v) \<and> (if his then v < hi else v \<le> hi)"
  by (auto simp: bounds_check_def bounds_of_def Let_def)

definition valid_input :: "inpos_input \<Rightarrow> bool" where
  "valid_input input \<longleftrightarrow> 0 < in_min_inflation input \<and> in_min_inflation input < in_max_inflation input
     \<and> in_max_inflation input \<le> 1000000 \<and> 100000 \<le> in_ideal_stake input \<and> in_ideal_stake input \<le> 900000
     \<and> 10000 \<le> in_falloff input \<and> in_falloff input \<le> 1000000
     \<and> 2 \<le> in_max_piece_count input \<and> in_max_piece_count input \<le> 1000"

lemma parse_inpos_input_valid: "parse_inpos_input a b c d e f = Inr input \<Longrightarrow> valid_input input"
  by (auto simp: parse_inpos_input_def parse_field_def valid_input_def res_simps)

definition valid_inpos :: "inpos \<Rightarrow> bool" where
  "valid_inpos I \<longleftrightarrow> i_0 I < i_ideal_times_x_ideal I \<and> i_ideal_times_x_ideal I \<le> 1000000
     \<and> x_ideal I \<le> 900000 \<and> inpos_d I \<le> 1000000"

lemma inpos_from_input_eq:
  assumes "valid_input input"
  shows "\<exists>i. inpos_from_input input = ret \<lparr>i_0 = in_min_inflation input,
    i_ideal_times_x_ideal = in_max_inflation input, i_ideal = i, x_ideal = in_ideal_stake input,
    inpos_d = in_falloff input\<rparr>"
proof -
  let ?x = "in_max_inflation input * MILLION"
  have le: "?x \<le> 1000000 * 1000000" using assms by (simp add: valid_input_def MILLION_def)
  then have "mul_w 64 (in_max_inflation input) MILLION = ?x" by (intro mul_w_eq) simp
  moreover have "?x div in_ideal_stake input \<le> 1000000 * 1000000 div 100000"
    using assms by (intro order_trans [OF div_le_mono2 div_le_mono [OF le]]) (simp_all add: valid_input_def)
  ultimately show ?thesis
    using assms by (simp add: inpos_from_input_def div_run_def unwrap_try_into max_w_def valid_input_def)
qed

lemma log2_total:
  assumes "0 < q" and "q \<le> p" and "p \<le> 1000000"
  shows "\<exists>v. log2 p q = ret v \<and> v \<le> 40197730"
proof -
  obtain m where m: "in_octave p q m" using octave_exists [OF assms(1,2)] by blast
  have "m < 20" by (rule octave_less [OF m assms(3,1)])
  moreover have "log_sum (p - 2 ^ m * q) (p + 2 ^ m * q) \<le> 20197730"
    using log_sum_le [of "p - 2 ^ m * q" "p + 2 ^ m * q"] by (simp add: two_div_ln_2_def)
  ultimately have "log2_value p q m \<le> 40197730" by (simp add: log2_value_def)
  then show ?thesis using log2_eq [OF m assms(3,1)] by blast
qed

definition opposite :: "inpos \<Rightarrow> nat \<Rightarrow> nat" where
  "opposite I y = (case compute_opposite_after_x_ideal I y of Some (Inr x) \<Rightarrow> x | _ \<Rightarrow> 0)"

lemma compute_opposite_log:
  assumes "valid_inpos I" and "i_0 I < y" and "y \<le> i_ideal_times_x_ideal I"
  shows "\<exists>v. log2 (i_ideal_times_x_ideal I - i_0 I) (y - i_0 I) = ret v \<and>
    compute_opposite_after_x_ideal I y = ret (x_ideal I + inpos_d I * v div 1000000) \<and>
    x_ideal I + inpos_d I * v div 1000000 \<le> 41097730"
proof -
  let ?p = "i_ideal_times_x_ideal I - i_0 I" and ?q = "y - i_0 I"
  have pq: "0 < ?q" "?q \<le> ?p" "?p \<le> 1000000" using assms by (auto simp: valid_inpos_def)
  obtain v where v: "log2 ?p ?q = ret v" "v \<le> 40197730" using log2_total [OF pq] by blast
  have sub: "sub_w 32 (i_ideal_times_x_ideal I) (i_0 I) = ?p" "sub_w 32 y (i_0 I) = ?q"
    using assms by (auto simp: valid_inpos_def intro!: sub_w_eq)
  have dv: "inpos_d I * v \<le> 1000000 * 40197730"
    using assms(1) v(2) by (intro mult_le_mono) (simp_all add: valid_inpos_def)
  then have tm: "inpos_d I * v div 1000000 \<le> 40197730" using div_le_mono [OF dv, of 1000000] by simp
  have mul: "mul_w 64 (inpos_d I) v = inpos_d I * v" using dv by (intro mul_w_eq) simp
  have "x_ideal I + inpos_d I * v div 1000000 \<le> 41097730" using tm assms(1) by (simp add: valid_inpos_def)
  moreover have "add_w 32 (x_ideal I) (inpos_d I * v div 1000000) = x_ideal I + inpos_d I * v div 1000000"
    using calculation by (intro add_w_eq) simp
  ultimately show ?thesis
    using assms(2) v(1) tm
    by (simp add: compute_opposite_after_x_ideal_def sub mul unwrap_try_into max_w_def)
qed

lemma compute_opposite_eq:
  assumes "valid_inpos I" and "i_0 I < y" and "y \<le> i_ideal_times_x_ideal I"
  shows "compute_opposite_after_x_ideal I y = ret (opposite I y)" "x_ideal I \<le> opposite I y"
    "opposite I y \<le> 41097730"
  using compute_opposite_log [OF assms] by (auto simp: opposite_def ret_def)

lemma opposite_antimono:
  assumes "valid_inpos I" and "i_0 I < y'" and "y' \<le> y" and "y \<le> i_ideal_times_x_ideal I"
  shows "opposite I y \<le> opposite I y'"
proof -
  let ?p = "i_ideal_times_x_ideal I - i_0 I"
  obtain v where v: "log2 ?p (y - i_0 I) = ret v" "opposite I y = x_ideal I + inpos_d I * v div 1000000"
    using compute_opposite_log [of I y] compute_opposite_eq(1) [of I y] assms by auto
  obtain v' where v': "log2 ?p (y' - i_0 I) = ret v'" "opposite I y' = x_ideal I + inpos_d I * v' div 1000000"
    using compute_opposite_log [of I y'] compute_opposite_eq(1) [of I y'] assms by auto
  have "v \<le> v'"
    using assms by (intro log2_antimono [OF _ _ _ _ v(1) v'(1)]) (auto simp: valid_inpos_def)
  then show ?thesis unfolding v v' by (simp add: div_le_mono)
qed

text \<open>A subtraction that wrapped below the floor ends in the assertion of \<open>log2\<close>.\<close>

lemma compute_opposite_wrapped:
  assumes "valid_inpos I" and "2000000 < y" and "y < 2 ^ 32"
  shows "compute_opposite_after_x_ideal I y = panics"
proof -
  have "sub_w 32 y (i_0 I) = y - i_0 I" "sub_w 32 (i_ideal_times_x_ideal I) (i_0 I) = i_ideal_times_x_ideal I - i_0 I"
    using assms by (auto simp: valid_inpos_def intro!: sub_w_eq)
  moreover have "y \<noteq> i_0 I" "\<not> y - i_0 I \<le> i_ideal_times_x_ideal I - i_0 I"
    using assms by (auto simp: valid_inpos_def)
  ultimately show ?thesis by (simp add: compute_opposite_after_x_ideal_def log2_def)
qed

section \<open>The loop\<close>

text \<open>
  The points so far: the first at 0, the peak at the ideal stake, then to the right and strictly down
  to the height \<open>y\<close>.
\<close>

definition points_ok :: "inpos \<Rightarrow> points \<Rightarrow> bool" where
  "points_ok I ps \<longleftrightarrow> (\<exists>rest. ps = (0, i_0 I) # (x_ideal I, i_ideal_times_x_ideal I) # rest)
     \<and> sorted (map fst ps) \<and> sorted_wrt (>) (map snd (tl ps))
     \<and> (\<forall>y \<in> set (map snd ps). i_0 I \<le> y \<and> y \<le> i_ideal_times_x_ideal I)"

definition loop_ok :: "inpos \<Rightarrow> nat \<Rightarrow> points \<Rightarrow> bool" where
  "loop_ok I y ps \<longleftrightarrow> points_ok I ps \<and> snd (last ps) = y \<and> i_0 I < y \<and> y \<le> i_ideal_times_x_ideal I
     \<and> fst (last ps) < 1000000 \<and> (\<forall>y'. i_0 I < y' \<longrightarrow> y' < y \<longrightarrow> fst (last ps) \<le> opposite I y')"

text \<open>A point further right and lower can be added.\<close>

lemma sorted_wrt_snoc:
  "transp P \<Longrightarrow> xs \<noteq> [] \<Longrightarrow> sorted_wrt P (xs @ [x]) \<longleftrightarrow> sorted_wrt P xs \<and> P (last xs) x"
  by (induction xs) (auto simp: transp_def split: if_splits, metis last_in_set)

lemma points_ok_nonempty: "points_ok I ps \<Longrightarrow> ps \<noteq> [] \<and> tl ps \<noteq> []"
  by (auto simp: points_ok_def)

lemma points_ok_snoc:
  assumes "points_ok I ps" and "fst (last ps) \<le> x" and "y < snd (last ps)" and "i_0 I \<le> y"
  shows "points_ok I (ps @ [(x, y)])"
proof -
  have ne: "ps \<noteq> []" "tl ps \<noteq> []" using points_ok_nonempty [OF assms(1)] by simp_all
  have "snd (last ps) \<in> set (map snd ps)" using ne by simp
  then have "y \<le> i_ideal_times_x_ideal I" using assms(1,3) by (fastforce simp: points_ok_def)
  moreover have "sorted (map fst (ps @ [(x, y)]))"
    using assms(1,2) ne by (simp add: points_ok_def sorted_wrt_snoc last_map)
  moreover have "sorted_wrt (>) (map snd (tl (ps @ [(x, y)])))"
    using assms(1,3) ne by (simp add: points_ok_def sorted_wrt_snoc last_map last_tl transp_def)
  ultimately show ?thesis using assms(1,4) by (auto simp: points_ok_def)
qed

text \<open>The last point is placed on the segment that crosses 1, strictly below the point before it.\<close>

lemma crossing_height:
  fixes x :: nat
  assumes "px < 1000000" and "1000000 \<le> x" and "y < py"
  shows "y + (x - 1000000) * (py - y) div (x - px) < py"
proof -
  have "(x - 1000000) * (py - y) < (x - px) * (py - y)" using assms by (intro mult_strict_right_mono) simp_all
  then have "(x - 1000000) * (py - y) div (x - px) < py - y"
    using assms by (simp add: div_less_iff_less_mult mult.commute)
  then show ?thesis using assms(3) by simp
qed

lemma crossing_run:
  assumes "px < 1000000" and "1000000 \<le> x" and "x \<le> 41097730" and "y < py" and "py \<le> 1000000"
  shows "run_bind (div_run (mul_w 64 (sub_w 32 x 1000000) (sub_w 32 py y)) (sub_w 32 x px)) (\<lambda>d.
      run_bind (unwrap_run (try_into 32 d)) (\<lambda>e. ret (ps @ [(1000000, add_w 32 y e)]))) =
    ret (ps @ [(1000000, y + (x - 1000000) * (py - y) div (x - px))])"
proof -
  let ?d = "(x - 1000000) * (py - y) div (x - px)"
  have sub: "sub_w 32 x 1000000 = x - 1000000" "sub_w 32 py y = py - y" "sub_w 32 x px = x - px"
    using assms by (auto intro!: sub_w_eq)
  have "(x - 1000000) * (py - y) \<le> 41097730 * 1000000" using assms by (intro mult_le_mono) simp_all
  then have mul: "mul_w 64 (x - 1000000) (py - y) = (x - 1000000) * (py - y)" by (intro mul_w_eq) simp
  have less: "y + ?d < py" by (rule crossing_height [OF assms(1,2,4)])
  then have "unwrap_run (try_into 32 ?d) = ret ?d" "add_w 32 y ?d = y + ?d"
    using assms(5) by (simp_all add: unwrap_try_into max_w_def add_w_eq)
  then show ?thesis using assms(1,2) by (simp add: sub mul div_run_def)
qed

definition ends_ok :: "inpos \<Rightarrow> points \<Rightarrow> bool" where
  "ends_ok I ps \<longleftrightarrow> points_ok I ps \<and> fst (last ps) = 1000000"

lemma ends_ok_crossing:
  assumes "points_ok I ps" and "fst (last ps) < 1000000" and "snd (last ps) = y" and "1000000 \<le> x"
    and "n < y" and "i_0 I < n"
  shows "ends_ok I (ps @ [(1000000, n + (x - 1000000) * (y - n) div (x - fst (last ps)))])"
  using assms crossing_height [of "fst (last ps)" x n y]
  by (auto simp: ends_ok_def intro!: points_ok_snoc)

lemma points_loop_ok:
  assumes I: "valid_inpos I" and L: "L \<le> 2000000"
  shows "loop_ok I y ps \<Longrightarrow> delta_y \<le> L \<Longrightarrow>
    (points_loop I (i_0 I) L delta_y y ps = panics \<and> i_0 I + 1 < L) \<or>
    (\<exists>qs. points_loop I (i_0 I) L delta_y y ps = ret qs \<and> ends_ok I qs)"
proof (induction "delta_y + y" arbitrary: delta_y y ps rule: less_induct)
  case less
  note ok = less.prems(1) [unfolded loop_ok_def]
  have y: "y \<le> 1000000" using ok I by (simp add: valid_inpos_def)
  let ?next = "y - delta_y"
  let ?r = "points_loop I (i_0 I) L delta_y y ps"
  have shrink: "?case" if "?r = points_loop I (i_0 I) L (delta_y - 1) y ps" "delta_y \<noteq> 0"
  proof -
    have "delta_y - 1 + y < delta_y + y" "delta_y - 1 \<le> L" using that(2) less.prems(2) by simp_all
    then show ?case using less.hyps [of "delta_y - 1" y ps] less.prems(1) that(1) by simp
  qed
  consider "delta_y = 0" | "delta_y \<noteq> 0" "y < delta_y" | "delta_y \<noteq> 0" "delta_y \<le> y" "?next \<le> i_0 I"
    | "delta_y \<noteq> 0" "delta_y \<le> y" "i_0 I < ?next" by linarith
  then show ?case
  proof cases
    case 1
    then have "?r = ret (ps @ [(1000000, i_0 I)])" by (subst points_loop.simps) simp
    moreover have "ends_ok I (ps @ [(1000000, i_0 I)])"
      using ok by (auto simp: ends_ok_def intro!: points_ok_snoc)
    ultimately show ?thesis by blast
  next
    case 2
    have "sub_w 32 y delta_y = y + 2 ^ 32 - delta_y"
      using 2 less.prems(2) L y by (simp add: sub_w_def)
    moreover have "compute_opposite_after_x_ideal I (y + 2 ^ 32 - delta_y) = panics"
      using 2 less.prems(2) L y by (intro compute_opposite_wrapped I) simp_all
    moreover have "\<not> y + 2 ^ 32 - delta_y \<le> i_0 I"
    proof -
      have "i_0 I < y" using ok by simp
      then show ?thesis using less.prems(2) L y by simp
    qed
    ultimately have "?r = panics" using 2 by (subst points_loop.simps) simp
    moreover have "i_0 I + 1 < L" using ok 2 less.prems(2) by simp
    ultimately show ?thesis by blast
  next
    case 3
    then have "sub_w 32 y delta_y = ?next" using y by (intro sub_w_eq) simp_all
    then have "?r = points_loop I (i_0 I) L (delta_y - 1) y ps" using 3 by (subst points_loop.simps) simp
    then show ?thesis using 3 shrink by simp
  next
    case 4
    let ?x = "opposite I ?next"
    have sub: "sub_w 32 y delta_y = ?next" using 4 y by (intro sub_w_eq) simp_all
    have lt: "?next < y" using 4 by simp
    have opp: "compute_opposite_after_x_ideal I ?next = ret ?x" "?x \<le> 41097730"
    proof -
      have "i_0 I < ?next" "?next \<le> i_ideal_times_x_ideal I" using 4 ok by auto
      then show "compute_opposite_after_x_ideal I ?next = ret ?x" "?x \<le> 41097730"
        using compute_opposite_eq [OF I] by simp_all
    qed
    have left: "fst (last ps) \<le> ?x" using ok 4 lt by blast
    have gap: "sub_w 32 ?x (fst (last ps)) = ?x - fst (last ps)" using left opp by (intro sub_w_eq) simp_all
    consider "L < ?x - fst (last ps)" | "?x - fst (last ps) \<le> L" "1000000 \<le> ?x"
      | "?x - fst (last ps) \<le> L" "?x < 1000000" by linarith
    then show ?thesis
    proof cases
      case 1
      then have "?r = points_loop I (i_0 I) L (delta_y - 1) y ps"
        using 4 sub gap opp by (subst points_loop.simps) simp
      then show ?thesis using 4 shrink by simp
    next
      case 2
      have "?r = ret (ps @ [(1000000, ?next + (?x - 1000000) * (y - ?next) div (?x - fst (last ps)))])"
        using 2 4 sub gap opp ok
          crossing_run [of "fst (last ps)" ?x ?next y ps] lt y
        by (subst points_loop.simps) (simp add: Let_def)
      moreover have "ends_ok I (ps @ [(1000000, ?next + (?x - 1000000) * (y - ?next) div (?x - fst (last ps)))])"
        using ok 2 4 lt by (intro ends_ok_crossing) simp_all
      ultimately show ?thesis by blast
    next
      case 3
      have "?r = points_loop I (i_0 I) L delta_y ?next (ps @ [(?x, ?next)])"
        using 3 4 sub gap opp by (subst points_loop.simps) (simp add: Let_def)
      moreover have "loop_ok I ?next (ps @ [(?x, ?next)])"
        using ok 3 4 lt left opposite_antimono [OF I]
        by (auto simp: loop_ok_def intro!: points_ok_snoc)
      ultimately show ?thesis
        using less.hyps [of delta_y ?next "ps @ [(?x, ?next)]"] less.prems(2) lt by simp
    qed
  qed
qed

section \<open>The generated curve\<close>

lemma perbill_points_eq:
  "\<forall>(x, y) \<in> set ps. x \<le> 1000000 \<and> y \<le> 1000000 \<Longrightarrow>
   perbill_points ps = ret (map (\<lambda>(x, y). (1000 * x, 1000 * y)) ps)"
proof (induction ps)
  case Nil
  then show ?case by simp
next
  case (Cons p ps)
  obtain x y where p: "p = (x, y)" by fastforce
  have "x \<le> 1000000" "y \<le> 1000000" using Cons.prems p by simp_all
  then have "checked_mul 32 x 1000 = Some (1000 * x)" "checked_mul 32 y 1000 = Some (1000 * y)"
    by (simp_all add: checked_mul_def max_w_def)
  then show ?case using Cons p by (simp del: checked_mul_Some)
qed

text \<open>What \<open>PiecewiseLinear\<close> expects: fractions in order from 0 to 1, and the maximum of the heights.\<close>

definition curve_ok :: "inpos_input \<Rightarrow> piecewise_linear \<Rightarrow> bool" where
  "curve_ok input c \<longleftrightarrow> (\<exists>rest. curve_points c =
       (0, 1000 * in_min_inflation input) # (1000 * in_ideal_stake input, 1000 * in_max_inflation input) # rest)
     \<and> sorted (map fst (curve_points c)) \<and> fst (last (curve_points c)) = 1000000000
     \<and> sorted_wrt (>) (map snd (tl (curve_points c)))
     \<and> (\<forall>y \<in> set (map snd (curve_points c)). 1000 * in_min_inflation input \<le> y \<and> y \<le> curve_maximum c)
     \<and> curve_maximum c = 1000 * in_max_inflation input"

definition segment_length :: "inpos_input \<Rightarrow> nat" where
  "segment_length input =
     (in_max_inflation input - in_min_inflation input + 1000000 - in_ideal_stake input)
     div (in_max_piece_count input - 1)"

lemma compute_points_ok:
  assumes valid: "valid_input input"
  shows "(compute_points input = panics \<and> in_min_inflation input + 1 < segment_length input) \<or>
    (\<exists>I ps. compute_points input = ret ps \<and> ends_ok I ps \<and> i_0 I = in_min_inflation input
      \<and> i_ideal_times_x_ideal I = in_max_inflation input \<and> x_ideal I = in_ideal_stake input)"
proof -
  obtain i where "inpos_from_input input = ret \<lparr>i_0 = in_min_inflation input,
      i_ideal_times_x_ideal = in_max_inflation input, i_ideal = i, x_ideal = in_ideal_stake input,
      inpos_d = in_falloff input\<rparr>" (is "_ = ret ?I")
    using inpos_from_input_eq [OF valid] by blast
  moreover have "add_w 32 (sub_w 32 (in_max_inflation input) (in_min_inflation input)) 1000000 =
      in_max_inflation input - in_min_inflation input + 1000000"
  proof -
    have "sub_w 32 (in_max_inflation input) (in_min_inflation input) = in_max_inflation input - in_min_inflation input"
      using valid by (intro sub_w_eq) (simp_all add: valid_input_def)
    then show ?thesis using valid by (simp only:) (intro add_w_eq, unfold valid_input_def, simp, linarith)
  qed
  moreover have "sub_w 32 (in_max_inflation input - in_min_inflation input + 1000000) (in_ideal_stake input) =
      in_max_inflation input - in_min_inflation input + 1000000 - in_ideal_stake input"
    using valid unfolding valid_input_def by (intro sub_w_eq) (linarith, simp, linarith)
  moreover have "sub_w 32 (in_max_piece_count input) 1 = in_max_piece_count input - 1"
    using valid by (auto simp: valid_input_def intro!: sub_w_eq)
  ultimately have run: "compute_points input =
      points_loop ?I (i_0 ?I) (segment_length input) (segment_length input) (in_max_inflation input)
        [(0, i_0 ?I), (x_ideal ?I, i_ideal_times_x_ideal ?I)]"
    using valid by (simp add: compute_points_def div_run_def segment_length_def valid_input_def Let_def)
  have I: "valid_inpos ?I" using valid by (simp add: valid_input_def valid_inpos_def)
  have "segment_length input \<le> 2000000"
    using valid unfolding segment_length_def valid_input_def
    by (intro order_trans [OF div_le_dividend]) linarith
  moreover have "loop_ok ?I (in_max_inflation input) [(0, i_0 ?I), (x_ideal ?I, i_ideal_times_x_ideal ?I)]"
    using valid compute_opposite_eq(2) [OF I] by (auto simp: loop_ok_def points_ok_def valid_input_def)
  ultimately show ?thesis
    using points_loop_ok [OF I, of "segment_length input" "in_max_inflation input" _ "segment_length input"]
    unfolding run by (metis inpos.simps(1-3) inpos.simps(4) order_refl)
qed

lemma sorted_last: "sorted xs \<Longrightarrow> x \<in> set xs \<Longrightarrow> x \<le> last xs"
  by (induction xs) auto

lemma generate_ok:
  assumes "ends_ok I ps" and "i_ideal_times_x_ideal I \<le> 1000000"
  shows "generate_piecewise_linear ps = ret \<lparr>curve_points = map (\<lambda>(x, y). (1000 * x, 1000 * y)) ps,
    curve_maximum = 1000 * i_ideal_times_x_ideal I\<rparr>"
proof -
  have ok: "points_ok I ps" "fst (last ps) = 1000000" using assms(1) by (simp_all add: ends_ok_def)
  have "sorted (map fst ps)" using ok by (simp add: points_ok_def)
  then have x: "x \<le> 1000000" if "(x, y) \<in> set ps" for x y
    using that ok sorted_last [of "map fst ps" x] points_ok_nonempty [OF ok(1)] by (force simp: last_map)
  have y: "y \<le> i_ideal_times_x_ideal I" if "(x, y) \<in> set ps" for x y
    using that ok(1) by (force simp: points_ok_def)
  have "Max (insert 0 (set (map snd ps))) = i_ideal_times_x_ideal I"
    using ok(1) by (intro Max_eqI) (auto simp: points_ok_def)
  then have "unwrap_or 1000000000 (checked_mul 32 (Max (insert 0 (set (map snd ps)))) 1000) =
      1000 * i_ideal_times_x_ideal I"
    using assms(2) by (simp add: checked_mul_def max_w_def)
  moreover have "perbill_points ps = ret (map (\<lambda>(x, y). (1000 * x, 1000 * y)) ps)"
    using x y assms(2) by (intro perbill_points_eq) fastforce
  ultimately show ?thesis by (simp add: generate_piecewise_linear_def)
qed

lemma ends_ok_curve:
  assumes "ends_ok I ps" and "i_0 I = in_min_inflation input"
    and "i_ideal_times_x_ideal I = in_max_inflation input" and "x_ideal I = in_ideal_stake input"
  shows "curve_ok input \<lparr>curve_points = map (\<lambda>(x, y). (1000 * x, 1000 * y)) ps,
    curve_maximum = 1000 * in_max_inflation input\<rparr>"
proof -
  have ok: "points_ok I ps" "fst (last ps) = 1000000" using assms(1) by (simp_all add: ends_ok_def)
  obtain rest where ps: "ps = (0, i_0 I) # (x_ideal I, i_ideal_times_x_ideal I) # rest"
    using ok by (auto simp: points_ok_def)
  let ?qs = "map (\<lambda>(x, y). (1000 * x, 1000 * y)) ps"
  have maps: "map fst ?qs = map ((*) 1000) (map fst ps)" "map snd ?qs = map ((*) 1000) (map snd ps)"
    "map snd (tl ?qs) = map ((*) 1000) (map snd (tl ps))"
    by (simp_all add: case_prod_beta map_tl [symmetric])
  have "sorted (map fst ?qs)" "sorted_wrt (>) (map snd (tl ?qs))"
    using ok(1) unfolding maps points_ok_def by (auto simp: sorted_wrt_map)
  moreover have "fst (last ?qs) = 1000000000" using ok points_ok_nonempty [OF ok(1)] by (simp add: last_map case_prod_beta)
  moreover have "\<forall>y \<in> set (map snd ?qs). 1000 * in_min_inflation input \<le> y \<and> y \<le> 1000 * in_max_inflation input"
    using ok(1) assms(2,3) unfolding maps points_ok_def by auto
  moreover have "\<exists>rest. ?qs = (0, 1000 * in_min_inflation input) #
    (1000 * in_ideal_stake input, 1000 * in_max_inflation input) # rest"
    unfolding ps using assms by simp
  ultimately show ?thesis unfolding curve_ok_def by simp
qed

lemma build_curve_cases:
  assumes valid: "valid_input input"
  shows "(\<exists>c. build_curve input = ret c \<and> curve_ok input c) \<or>
    (build_curve input = panics \<and> in_min_inflation input + 1 < segment_length input)"
proof -
  from compute_points_ok [OF valid] consider
    "compute_points input = panics" "in_min_inflation input + 1 < segment_length input"
    | I ps where "compute_points input = ret ps" "ends_ok I ps" "i_0 I = in_min_inflation input"
      "i_ideal_times_x_ideal I = in_max_inflation input" "x_ideal I = in_ideal_stake input" by blast
  then show ?thesis
  proof cases
    case 1
    then show ?thesis by (simp add: build_curve_def)
  next
    case 2
    let ?c = "\<lparr>curve_points = map (\<lambda>(x, y). (1000 * x, 1000 * y)) ps, curve_maximum = 1000 * in_max_inflation input\<rparr>"
    have "build_curve input = ret ?c"
      using 2 generate_ok [OF 2(2)] valid by (simp add: build_curve_def valid_input_def)
    moreover have "curve_ok input ?c" using 2 by (intro ends_ok_curve) simp_all
    ultimately show ?thesis by blast
  qed
qed

text \<open>C37. For every accepted input the macro ends. It gives a curve of fractions in order from 0 to 1, with
  the given maximum at the ideal stake and strictly falling after it, or it panics; a panic needs segments
  longer than the smallest inflation and one.\<close>

theorem build_curve_well_formed:
  assumes "parse_inpos_input mini maxi ideal fall pieces precision = Inr input"
  shows "(\<exists>c. build_curve input = ret c \<and> curve_ok input c) \<or>
    (build_curve input = panics \<and> mini + 1 < segment_length input)"
proof -
  have "in_min_inflation input = mini"
    using assms by (auto simp: parse_inpos_input_def parse_field_def res_simps)
  then show ?thesis using build_curve_cases [OF parse_inpos_input_valid [OF assms]] by simp
qed

theorem build_curve_well_formed_witness:
  "\<exists>input. parse_inpos_input 25000 100000 500000 50000 40 5000 = Inr input
    \<and> (\<exists>c. build_curve input = ret c \<and> curve_ok input c)"
proof -
  let ?in = "\<lparr>in_min_inflation = 25000, in_ideal_stake = 500000, in_max_inflation = 100000, in_falloff = 50000,
    in_max_piece_count = 40, in_test_precision = 5000\<rparr>"
  have "parse_inpos_input 25000 100000 500000 50000 40 5000 = Inr ?in"
    by (simp add: parse_inpos_input_def parse_field_def)
  then show ?thesis
    using build_curve_well_formed [of 25000 100000 500000 50000 40 5000 ?in] by (auto simp: segment_length_def)
qed

text \<open>The bounds that the parameters are checked against let through inputs for which the macro panics.\<close>

theorem accepted_input_panics:
  "\<exists>input. parse_inpos_input 1 2 900000 50000 2 5000 = Inr input \<and> build_curve input = panics"
proof -
  let ?in = "\<lparr>in_min_inflation = 1, in_ideal_stake = 900000, in_max_inflation = 2, in_falloff = 50000,
    in_max_piece_count = 2, in_test_precision = 5000\<rparr>"
  have "parse_inpos_input 1 2 900000 50000 2 5000 = Inr ?in"
    by (simp add: parse_inpos_input_def parse_field_def)
  moreover have "compute_points ?in = panics"
    by (simp add: compute_points_def inpos_from_input_def MILLION_def div_run_def mul_w_def sub_w_def add_w_def
        max_w_def unwrap_try_into points_loop.simps compute_opposite_after_x_ideal_def log2_def)
  ultimately show ?thesis by (auto simp: build_curve_def)
qed

end
