(* ===== verification/RuntimeConfig.thy ===== *)
theory RuntimeConfig
  imports TryState RewardCurve ReputationInv
begin

text \<open>
  The constants of the runtime (\<open>runtime/vitreus/src/lib.rs\<close>): time in blocks, the units of the currency,
  the thresholds of reputation and the staking pallet's configuration. \<open>fast\<close> is the feature
  \<open>fast-runtime\<close>, which \<open>prod_or_fast!\<close> reads.
\<close>

section \<open>Time and units\<close>

definition prod_or_fast :: "bool \<Rightarrow> 'a \<Rightarrow> 'a \<Rightarrow> 'a" where
  "prod_or_fast fast a b = (if fast then b else a)"

definition MILLISECS_PER_BLOCK :: nat where "MILLISECS_PER_BLOCK = 6000"
definition SECS_PER_BLOCK :: nat where "SECS_PER_BLOCK = MILLISECS_PER_BLOCK div 1000"
definition SLOT_DURATION :: nat where "SLOT_DURATION = MILLISECS_PER_BLOCK"
definition MINUTES :: nat where "MINUTES = 60000 div MILLISECS_PER_BLOCK"
definition HOURS :: nat where "HOURS = mul_w 32 MINUTES 60"
definition DAYS :: nat where "DAYS = mul_w 32 HOURS 24"
definition WEEKS :: nat where "WEEKS = mul_w 32 DAYS 7"
definition YEARS :: nat where "YEARS = mul_w 32 36525 (DAYS div 100)"
definition MONTHS :: nat where "MONTHS = YEARS div 12"

definition EPOCH_DURATION_IN_BLOCKS :: "bool \<Rightarrow> nat" where
  "EPOCH_DURATION_IN_BLOCKS fast = prod_or_fast fast (mul_w 32 60 MINUTES) (mul_w 32 10 MINUTES)"

definition EPOCH_DURATION_IN_SLOTS :: "bool \<Rightarrow> nat" where
  "EPOCH_DURATION_IN_SLOTS fast =
     (let slot_fill_rate = f64_div (f64_of_nat MILLISECS_PER_BLOCK) (f64_of_nat SLOT_DURATION)
      in f64_as 64 (f64_mul (f64_of_nat (EPOCH_DURATION_IN_BLOCKS fast)) slot_fill_rate))"

datatype allowed_slots = PrimarySlots | PrimaryAndSecondaryPlainSlots | PrimaryAndSecondaryVRFSlots

definition PRIMARY_PROBABILITY :: "nat \<times> nat" where "PRIMARY_PROBABILITY = (1, 4)"
definition BABE_GENESIS_EPOCH_CONFIG :: "(nat \<times> nat) \<times> allowed_slots" where
  "BABE_GENESIS_EPOCH_CONFIG = (PRIMARY_PROBABILITY, PrimaryAndSecondaryVRFSlots)"

definition UNITS :: balance where "UNITS = 1000000000000000000"
definition FEMTO_VTRS :: balance where "FEMTO_VTRS = 1000"
definition PICO_VTRS :: balance where "PICO_VTRS = 1000 * FEMTO_VTRS"
definition NANO_VTRS :: balance where "NANO_VTRS = 1000 * PICO_VTRS"
definition MICRO_VTRS :: balance where "MICRO_VTRS = 1000 * NANO_VTRS"
definition MILLI_VTRS :: balance where "MILLI_VTRS = 1000 * MICRO_VTRS"
definition EXISTENTIAL_DEPOSIT :: balance where "EXISTENTIAL_DEPOSIT = 100 * MICRO_VTRS"
definition SS58Prefix :: nat where "SS58Prefix = 1943"

definition deposit :: "nat \<Rightarrow> nat \<Rightarrow> balance" where
  "deposit items bytes = add_w 128 (mul_w 128 (mul_w 128 items 200) NANO_VTRS) (mul_w 128 bytes PICO_VTRS)"

lemmas time_defs = MILLISECS_PER_BLOCK_def SECS_PER_BLOCK_def SLOT_DURATION_def MINUTES_def HOURS_def DAYS_def
  WEEKS_def YEARS_def MONTHS_def mul_w_def

lemmas unit_defs = UNITS_def FEMTO_VTRS_def PICO_VTRS_def NANO_VTRS_def MICRO_VTRS_def MILLI_VTRS_def
  EXISTENTIAL_DEPOSIT_def

lemma time_values:
  "DAYS = 14400" "MONTHS = 438300" "YEARS = 5259600" "12 * MONTHS = YEARS"
  by (simp_all add: time_defs)

lemma epoch_slots: "EPOCH_DURATION_IN_SLOTS fast = EPOCH_DURATION_IN_BLOCKS fast"
  by (simp add: EPOCH_DURATION_IN_SLOTS_def EPOCH_DURATION_IN_BLOCKS_def prod_or_fast_def time_defs f64_eval
      f64_as_def max_w_def)

text \<open>A deposit is exact: no number of items and bytes of 32 bits wraps it.\<close>

lemma deposit_exact:
  assumes "items < 2 ^ 32" "bytes < 2 ^ 32"
  shows "deposit items bytes = items * 200 * NANO_VTRS + bytes * PICO_VTRS"
proof -
  have "items * 200 * NANO_VTRS + bytes * PICO_VTRS < 2 ^ 128" "items * 200 * NANO_VTRS < 2 ^ 128"
    "bytes * PICO_VTRS < 2 ^ 128" "items * 200 < 2 ^ 128"
    using assms by (simp_all add: unit_defs)
  then show ?thesis by (simp add: deposit_def mul_w_def add_w_def)
qed

section \<open>The staking pallet's configuration\<close>

definition VALIDATOR_REPUTATION_THRESHOLD :: nat where
  "VALIDATOR_REPUTATION_THRESHOLD = mul_w 64 REPUTATION_POINTS_PER_DAY 30"
definition COLLABORATIVE_VALIDATOR_REPUTATION_THRESHOLD :: nat where
  "COLLABORATIVE_VALIDATOR_REPUTATION_THRESHOLD = mul_w 64 REPUTATION_POINTS_PER_DAY 30"

definition SessionsPerEra :: "bool \<Rightarrow> nat" where "SessionsPerEra fast = prod_or_fast fast 4 1"
definition BondingDuration :: "bool \<Rightarrow> nat" where "BondingDuration fast = prod_or_fast fast 42 5"
definition SlashDeferDuration :: "bool \<Rightarrow> nat" where "SlashDeferDuration fast = prod_or_fast fast 36 0"
definition MaxCooperations :: nat where "MaxCooperations = 256"
definition HistoryDepth :: nat where "HistoryDepth = 84"
definition MaxUnlockingChunks :: nat where "MaxUnlockingChunks = 64"
definition ValidatorReputationTier :: tier where "ValidatorReputationTier = Vanguard 1"
definition CollaborativeValidatorReputationTier :: tier where
  "CollaborativeValidatorReputationTier = Vanguard 1"
definition DISABLING_LIMIT_FACTOR :: nat where "DISABLING_LIMIT_FACTOR = 3"

definition ReportLongevity :: "bool \<Rightarrow> nat" where
  "ReportLongevity fast = mul_w 64 (24 * 28 * 6) (EPOCH_DURATION_IN_SLOTS fast)"
definition BeefySetIdSessionEntries :: "bool \<Rightarrow> nat" where
  "BeefySetIdSessionEntries fast = mul_w 32 (BondingDuration fast) (SessionsPerEra fast)"

text \<open>What the runtime sets in \<open>pallet_energy_generation::Config\<close>; \<open>E\<close> has the pallets it names.\<close>

definition runtime_staking_env :: "bool \<Rightarrow> 'x staking_env \<Rightarrow> 'x staking_env" where
  "runtime_staking_env fast E = E\<lparr>c_max_cooperations := MaxCooperations, c_history_depth := HistoryDepth,
     c_sessions_per_era := SessionsPerEra fast, c_bonding_duration := BondingDuration fast,
     c_slash_defer_duration := SlashDeferDuration fast, c_max_rewarded := 128,
     c_max_unlocking_chunks := MaxUnlockingChunks, c_validator_tier := ValidatorReputationTier,
     c_collab_tier := CollaborativeValidatorReputationTier, c_disabling_factor := DISABLING_LIMIT_FACTOR,
     x_minimum_balance := EXISTENTIAL_DEPOSIT\<rparr>"

definition I_NPOS :: "string + inpos_input" where
  "I_NPOS = parse_inpos_input 25000 100000 500000 50000 40 5000"

lemmas staking_consts = SessionsPerEra_def BondingDuration_def SlashDeferDuration_def MaxCooperations_def
  HistoryDepth_def MaxUnlockingChunks_def ValidatorReputationTier_def CollaborativeValidatorReputationTier_def
  DISABLING_LIMIT_FACTOR_def prod_or_fast_def

section \<open>The configuration is consistent\<close>

text \<open>
  Both builds pass the pallet's own \<open>integrity_test\<close>. Unbonding outlasts the deferral of a slash, a report
  stays valid for the whole bonding period, and the eras of history cover it.
\<close>

lemma runtime_passes_integrity_test:
  "integrity_test (runtime_staking_env fast E) \<and> SlashDeferDuration fast < BondingDuration fast \<and>
   BondingDuration fast * SessionsPerEra fast * EPOCH_DURATION_IN_SLOTS fast \<le> ReportLongevity fast \<and>
   BondingDuration fast * SessionsPerEra fast \<le> BeefySetIdSessionEntries fast \<and>
   BondingDuration fast < HistoryDepth"
  by (simp add: integrity_test_def runtime_staking_env_def staking_consts ReportLongevity_def
      BeefySetIdSessionEntries_def epoch_slots EPOCH_DURATION_IN_BLOCKS_def time_defs)

lemma runtime_env_ok: "env_ok (runtime_staking_env fast E) = env_ok E" "iter_ok (runtime_staking_env fast E) = iter_ok E"
  by (simp_all add: env_ok_def iter_ok_def runtime_staking_env_def)

text \<open>The runtime's reward curve is built, without a panic.\<close>

lemma runtime_curve_built: "\<exists>input c. I_NPOS = Inr input \<and> build_curve input = ret c \<and> curve_ok input c"
proof -
  let ?in = "\<lparr>in_min_inflation = 25000, in_ideal_stake = 500000, in_max_inflation = 100000, in_falloff = 50000,
    in_max_piece_count = 40, in_test_precision = 5000\<rparr>"
  have p: "I_NPOS = Inr ?in" by (simp add: I_NPOS_def parse_inpos_input_def parse_field_def)
  from build_curve_cases [OF parse_inpos_input_valid [OF p [unfolded I_NPOS_def]]] p
  show ?thesis by (auto simp: segment_length_def)
qed

section \<open>The reputation of a genesis validator\<close>

lemma curve_1_2: "curve 1 \<le> 9216000" "12000000 \<le> curve 2"
proof -
  have "(1 / 9 :: real) powr CURVATURE \<le> (1 / 9) powr (3 / 2)"
    by (intro powr_mono_both') (simp_all add: CURVATURE_eq)
  also have "(1 / 9 :: real) powr (3 / 2) = 1 / 27"
  proof -
    have "(1 / 9 :: real) powr (3 / 2) = (((1 / 3) powr 2)) powr (3 / 2)" by (simp add: power2_eq_square)
    also have "\<dots> = (1 / 3) powr 3" by (simp only: powr_powr) simp
    finally show ?thesis by (simp add: power3_eq_cube)
  qed
  finally show "curve 1 \<le> 9216000" by (simp add: curve_def)
  have "(2 / 9 :: real) powr 2 \<le> (2 / 9) powr CURVATURE"
    using CURVATURE_bounds by (intro powr_mono_both') simp_all
  then show "12000000 \<le> curve 2" by (simp add: curve_def power2_eq_square)
qed

text \<open>
  The threshold that the genesis gives its validators has rank one. The comment says a month of blocks;
  27 days are enough.
\<close>

lemma threshold_rank:
  assumes L: "libm_accurate L"
  shows "points_rank L COLLABORATIVE_VALIDATOR_REPUTATION_THRESHOLD = 1"
    "from_rank L 1 \<le> 27 * REPUTATION_POINTS_PER_DAY"
proof -
  have p: "COLLABORATIVE_VALIDATOR_REPUTATION_THRESHOLD = 10368000"
    by (simp add: COLLABORATIVE_VALIDATOR_REPUTATION_THRESHOLD_def mul_w_def reputation_consts)
  have up: "real (from_rank L 1) \<le> 9216000 + 1 / 2"
    using from_rank_upper [OF L, of 1] curve_1_2(1) by simp
  then show "from_rank L 1 \<le> 27 * REPUTATION_POINTS_PER_DAY" by (simp add: reputation_consts)
  have "12000000 * (1 - 1 / 2 ^ 49) \<le> curve 2 * (1 - 1 / 2 ^ 49)"
    using curve_1_2(2) by (intro mult_right_mono) simp_all
  then have "real (from_rank L 2) > 10368000" using from_rank_near(1) [OF L, of 2] by simp
  then have lo: "10368000 < from_rank L 2" by linarith
  have ok: "ranks_ok L 10368000" by (rule ranks_accurate [OF L]) simp
  have "1 \<le> points_rank L 10368000" using up by (intro rank_ge_if_points_ge [OF ok]) linarith+
  moreover have "points_rank L 10368000 < 2" by (rule rank_less_if_points_less [OF ok]) (simp_all add: lo)
  ultimately show "points_rank L COLLABORATIVE_VALIDATOR_REPUTATION_THRESHOLD = 1" by (simp add: p)
qed

lemma threshold_tier:
  "libm_accurate L \<Longrightarrow>
    rep_tier (rr_reputation (record_from_points L COLLABORATIVE_VALIDATOR_REPUTATION_THRESHOLD)) = Some (Vanguard 1)"
  by (simp add: record_from_points_def rep_from_points_def threshold_rank try_from_rank_def RANKS_PER_TIER_def)

end
