(* ===== verification/GenesisKeys.thy ===== *)
theory GenesisKeys
  imports Claiming
begin

text \<open>
  The accounts and keys of the chain specifications (modules \<open>devnet_keys\<close>, \<open>testnet_keys\<close> and
  \<open>mainnet_keys\<close> of \<open>node/chain-spec/src/lib.rs\<close>) and the build script that turns the lists of claims,
  vestings and validator nodes into code (\<open>node/chain-spec/build.rs\<close>). A key or an account is the number
  its bytes spell.
\<close>

section \<open>Keys\<close>

record authority_keys =
  ak_stash :: account
  ak_controller :: account
  ak_babe :: nat
  ak_grandpa :: nat
  ak_im_online :: nat
  ak_para_validator :: nat
  ak_para_assignment :: nat
  ak_authority_discovery :: nat
  ak_beefy :: nat

text \<open>Deriving keys from seeds (\<open>Pair::from_string\<close>, \<open>into_account\<close>) belongs to \<open>sp_core\<close>.\<close>

record key_env =
  k_sr25519 :: "string \<Rightarrow> nat"
  k_ed25519 :: "string \<Rightarrow> nat"
  k_ecdsa :: "string \<Rightarrow> nat"
  k_into_account :: "nat \<Rightarrow> account"

definition derive_dev :: "(string \<Rightarrow> nat) \<Rightarrow> string \<Rightarrow> nat" where
  "derive_dev from_string seed = from_string (''//'' @ seed)"

definition get_account_id_from_seed :: "key_env \<Rightarrow> string \<Rightarrow> account" where
  "get_account_id_from_seed K seed = k_into_account K (derive_dev (k_ecdsa K) seed)"

definition authority_keys_from_seed :: "key_env \<Rightarrow> string \<Rightarrow> authority_keys" where
  "authority_keys_from_seed K s =
     \<lparr>ak_stash = get_account_id_from_seed K (s @ ''//stash''), ak_controller = get_account_id_from_seed K s,
      ak_babe = derive_dev (k_sr25519 K) s, ak_grandpa = derive_dev (k_ed25519 K) s,
      ak_im_online = derive_dev (k_sr25519 K) s, ak_para_validator = derive_dev (k_sr25519 K) s,
      ak_para_assignment = derive_dev (k_sr25519 K) s, ak_authority_discovery = derive_dev (k_sr25519 K) s,
      ak_beefy = derive_dev (k_ecdsa K) s\<rparr>"

record session_keys =
  sk_grandpa :: nat
  sk_babe :: nat
  sk_im_online :: nat
  sk_para_validator :: nat
  sk_para_assignment :: nat
  sk_authority_discovery :: nat
  sk_beefy :: nat

definition session_keys_of :: "authority_keys \<Rightarrow> session_keys" where
  "session_keys_of x = \<lparr>sk_grandpa = ak_grandpa x, sk_babe = ak_babe x, sk_im_online = ak_im_online x,
     sk_para_validator = ak_para_validator x, sk_para_assignment = ak_para_assignment x,
     sk_authority_discovery = ak_authority_discovery x, sk_beefy = ak_beefy x\<rparr>"

section \<open>The accounts of the specifications\<close>

definition alith :: account where "alith = 0xf24FF3a9CF04c71Dbc94D0b566f7A27B94566cac"
definition baltathar :: account where "baltathar = 0x3Cd0A705a2DC65e5b1E1205896BaA2be8A07c6e0"
definition charleth :: account where "charleth = 0x798d4Ba9baf0064Ec19eB4F0a1a45785ae9D6DFc"
definition dorothy :: account where "dorothy = 0x773539d4Ac0e786233D90A233654ccEE26a613D9"
definition ethan :: account where "ethan = 0xFf64d3F6efE2317EE2807d223a0Bdc4c0c49dfDB"
definition faith :: account where "faith = 0xC0F0f4ab324C46e55D02D0033343B4Be8A55532d"
definition goliath :: account where "goliath = 0x7BF369283338E12C90514468aa3868A551AB2929"

definition testnet_root :: account where "testnet_root = 0x2F8CF06C0c21CA40eC4006d35C01B92a63d15d66"
definition testnet_validator_1 :: account where "testnet_validator_1 = 0xBE2839a4F6fadCdc651151b307568FC8daEB670D"
definition testnet_validator_2 :: account where "testnet_validator_2 = 0x3862660d31edcF2e84fB5c551768a84ac7259bfb"
definition testnet_validator_3 :: account where "testnet_validator_3 = 0xA4A86AD2cC74A7f289Eb9921CF805e22eB2Bb2BF"
definition testnet_account_1 :: account where "testnet_account_1 = 0x624B523D1d80B7527e4444F5dbBE37A43df8819b"
definition testnet_account_2 :: account where "testnet_account_2 = 0x156C92352EEcA66E54B755D63538C911fF3D6d3E"
definition testnet_account_3 :: account where "testnet_account_3 = 0xE0E337F0753CB3099B17c6Af6D3E7C41e99FF83D"

definition mainnet_root :: account where "mainnet_root = 0xcD3a7509cE9869902FA5F8132c686014d1A6ef07"

definition testnet_validator_1_keys :: authority_keys where
  "testnet_validator_1_keys = \<lparr>ak_stash = 0x784e69Feba8a2FCCc938A722D5a66E9EbfA3A14A, ak_controller = testnet_validator_1,
     ak_babe = 0xf29f3491dc2baf6ffeffd01702a1b5289519c00a229d41544edc357d0355db51,
     ak_grandpa = 0x275fad28e7f2904a0341b5baa66b40f8941b09a22739a8b141f99b91e0dd9458,
     ak_im_online = 0x408300338038bb359afc7f32a0622d3be520988b5a89c3af5af0272e6745de5e,
     ak_para_validator = 0xf870a88d596c9207b9df17fbc7960ba9f7fa25296fc3d17a844bc7680287011e,
     ak_para_assignment = 0x164b92db1487c67254182e9e231823b662fb39ffdee4e1ffe73559f600bebd25,
     ak_authority_discovery = 0x7297d91787b2ec39853efaf1a553b4a5b58f834161a11f03575116e0340ada62,
     ak_beefy = 0x023a9999783ffc163ade9e2ac21a33c546b5bc7a4622641860f0f869a97f1e78d0\<rparr>"

definition testnet_validator_2_keys :: authority_keys where
  "testnet_validator_2_keys = \<lparr>ak_stash = 0x309753d1BAc45489B9C4BdDEf28963d862AdCb13, ak_controller = testnet_validator_2,
     ak_babe = 0x80b57a74ddb35163ada69d61022d518cdad36eb63f766a04f9d2db35da28052f,
     ak_grandpa = 0xa4e37cd11ee58c2a6d529f42b13195295179df0921bf20d9f634145d71e817f1,
     ak_im_online = 0x527844f460f369100ca67a1fa084b9a29b71d984cd90479ce5bcd7efb74bde1c,
     ak_para_validator = 0x7aec7e56d3de6cf85d23d38fea64107523ffeb43e17e27de6899cac625199a3d,
     ak_para_assignment = 0xacc2c4d8acefa119eee9a88a880bc490895c0aeb2a661daeccf2b6fcba30da3f,
     ak_authority_discovery = 0xd2d0a556d5526c8114e7312a9d7220869894db1ae01f3ef7696f9f784fc58a4f,
     ak_beefy = 0x0247fc249f19a0a751d379c56e5f92be6f16942312f0b9fa8ecd09636e68c5d5e7\<rparr>"

definition testnet_validator_3_keys :: authority_keys where
  "testnet_validator_3_keys = \<lparr>ak_stash = 0xA6543B65DD9cFA7e324AF616A339D3c1a13fa685, ak_controller = testnet_validator_3,
     ak_babe = 0xc2335d394c89693254fb1a323dc74d9c1a14f43ad3292081b331930f9fa8d072,
     ak_grandpa = 0x281a3b47515392d492faca42d616fa09e609b5fbbaa98716293ebf5c6d4e6248,
     ak_im_online = 0x3e99fe54593eeaf568029ec4989106286fd3384fc9c7b723d0e60bc3c3c02479,
     ak_para_validator = 0x1eb253fc5186d7ec1bf2d28cc8120d97431745ead18381aca1cff47ebae0a83c,
     ak_para_assignment = 0x0075191c5441c7a2134c234f3ab393866deded809f21a37c9a6025ce26884556,
     ak_authority_discovery = 0x5425357e3002c6d2972e803362fe8648156837e70f3951929f13c0b9ba75c93b,
     ak_beefy = 0x03117d68a11002855b405c67d164e41a7244bb5fb5eced2d081f8a04458e1ee11d\<rparr>"

definition mainnet_validator_1_keys :: authority_keys where
  "mainnet_validator_1_keys = \<lparr>ak_stash = 0xf3612fF49FE440e46faAc08C71d141249D71ff12, ak_controller = 0x03a6b4755F58f91731735d5B881054Fe6eCA7cc8,
     ak_babe = 0xbc35dc7c4bb874005361848b08cc7b5cba87e10391f60f124cc04bf5d34c981c,
     ak_grandpa = 0x24c7ac8c11718f7056b01f6755c7da3d5d16423243334f22b2d560e658def8eb,
     ak_im_online = 0x4c2ff1cedac25109f367826a420e1bd74047ab37aa78132bb42fbf1dd689e876,
     ak_para_validator = 0x0a803acb3451a91d84c27757c5af3a45b295741df3170853d9f6a8073e202300,
     ak_para_assignment = 0x84a974507ccea0dc46d5beb4287d71665a65d83d47bf9da40b1f62ddaa2b804c,
     ak_authority_discovery = 0x864507801e50051b2bb691c7839b2eb66d288f4f6f5d070681f79f7aac8c613f,
     ak_beefy = 0x03978bb6768a1f5c3d8e8d32f3922b103fc015b37703c3316d95dab985853809a8\<rparr>"

definition mainnet_validator_2_keys :: authority_keys where
  "mainnet_validator_2_keys = \<lparr>ak_stash = 0xe9De3598e78Ac90d45de4f6B19666B280ec4886b, ak_controller = 0x1d1D7cd4469c5997a665ce219fB3aE6B18FF5E52,
     ak_babe = 0x74dcc8c2138cd579b8cc80d2de4cca3a37cdb6a4dde08a8b8dd309a0106b9c79,
     ak_grandpa = 0x370f55c79dab485740ef10881d92ec515332292652f0ad9ed61f3450edc13fc7,
     ak_im_online = 0xa25d0e79e61aeef2e7baa9814f1d4744afeecab9d8df9891307500b122752d74,
     ak_para_validator = 0x2c46c1d5dcdfe94e5a8543ad749a235e3a2285f197798f534669e97140517b34,
     ak_para_assignment = 0x9e7d5d82b966eb206efe40e7e3e8d1b37b4fdb0764c651b32ae207b760ae4e74,
     ak_authority_discovery = 0xc47aea1cf8270930ef66afd4a04f14c7baf003bc1993c76a2c17807c019c303d,
     ak_beefy = 0x02937d3a749345420dd7465d0991b27a75b3be42317be211cd57a38da7d16dcb75\<rparr>"

definition mainnet_validator_3_keys :: authority_keys where
  "mainnet_validator_3_keys = \<lparr>ak_stash = 0x66c93481CbF5F1951C0D5E0685540D4e59C3C454, ak_controller = 0x3Ff5AD852f15a22F5b39DF53C400314C8b8F8ACb,
     ak_babe = 0xb2d683cc8c70417182d724244c284b22ad47ec61a872bd7873958c4ee757a966,
     ak_grandpa = 0x42fe4d0b5298eaf62062cef16143eb3458a1f0c7b66b92dfa3cbb21141c4681d,
     ak_im_online = 0x14958d70c481dc72925df4a8701743f3069241818bf6a725060bbcce008bea09,
     ak_para_validator = 0x62c90e97adf3f99cad816b0585e8a64d1604929cc76ff7d23f5edcb825f0980e,
     ak_para_assignment = 0xae5600a1039bd46927c0927673491df50e2e4787970bf2e948f4aefb65601768,
     ak_authority_discovery = 0xe49adf172ddb764215d7ba5a4633dec04991fb3bd9d876f34740f10f439ebf0a,
     ak_beefy = 0x03ac73cc8989b932ffab5f220d5733c63dfc241b75175581d4b31b231386c47412\<rparr>"

definition mainnet_validator_4_keys :: authority_keys where
  "mainnet_validator_4_keys = \<lparr>ak_stash = 0x29f8AE257C8Ab3607AB7F37215606b52a54849D1, ak_controller = 0x1b2f4c7A4863587987e2083c8c7D023856996116,
     ak_babe = 0x2ae1ee0f0df43aaa1f071bda8f8f58e849a1024f59bfbe35063bd06a5bd90d57,
     ak_grandpa = 0xf2a1fef4dc58a00843f38f792b4854ae4d35e641784577df018d1017f69098e4,
     ak_im_online = 0xeeb0fc7fcf71296f88a83ccf937fffa6752f7eb3da64a8bb4eab601488c43850,
     ak_para_validator = 0x4010ccfaa632f6aa8d026174dec6a2b27bd4036d1dc4f92c4c66df78e7af1313,
     ak_para_assignment = 0xa6e02f71a4723f4e671cb4e67bbc60307cdf393406d2690c9a54c66f4e210b75,
     ak_authority_discovery = 0x341a2e2fd269d9d56c8b1f5b4bf0de3bf05c3f1b7dab48a40f06e66818dd067e,
     ak_beefy = 0x0272616c3ca4d1ddc05b091cb2b9086855674768e6798aae79ab35b4291e6f10a4\<rparr>"

definition mainnet_validator_5_keys :: authority_keys where
  "mainnet_validator_5_keys = \<lparr>ak_stash = 0x8136A3A57a52bA0b8370E46D8c5e3B99f20b4c0a, ak_controller = 0xD913FDf697CA06e3BDa32169C58C0e51d0E38db7,
     ak_babe = 0x64676f9a84208fa8039ea15ab8235532a1ae11368d583f8ab12be5f2721e6b3b,
     ak_grandpa = 0xf2616ad5f85d65c2d67e85e3d555f05f1f5dd597d791f289eeb124fd1eaf57c7,
     ak_im_online = 0xd08221bccf384c180108c7fd0eccd4976f0306503da336950b7bd8a6f5c0d77e,
     ak_para_validator = 0x929751cb0df5782a5800d133b1dbd72d6a30f22a4024b8968001fb8d4b896553,
     ak_para_assignment = 0x801067636cb11406d8ec953f0e57b9de3784537fb1f1fd425e27fe2d6e9f2a01,
     ak_authority_discovery = 0x60c50d14148a65996718014822b528ca2ad0e75a66cddd07e8b80ea78f223955,
     ak_beefy = 0x036e09b9279fd790a9a9611cc28fbe5786813b6b818d3a3c7453b7c587104e64a6\<rparr>"

section \<open>The build script\<close>

text \<open>
  A record of a file is the list of its fields; \<open>None\<close> is a build that fails. The literal of an address
  (\<open>hex_literal\<close>) is a parameter \<open>hex\<close>. The generated code is the list it evaluates to.
\<close>

definition strip_hex_prefix :: "string \<Rightarrow> string" where
  "strip_hex_prefix s = (if take 2 s = ''0x'' then drop 2 s else s)"

definition is_whitespace :: "char \<Rightarrow> bool" where
  "is_whitespace c \<longleftrightarrow> of_char c \<in> {9, 10, 11, 12, 13, 32 :: nat}"

definition trim :: "string \<Rightarrow> string" where
  "trim s = rev (dropWhile is_whitespace (rev (dropWhile is_whitespace s)))"

definition digit :: "char \<Rightarrow> nat option" where
  "digit c = (if 48 \<le> (of_char c :: nat) \<and> (of_char c :: nat) \<le> 57 then Some (of_char c - 48) else None)"

text \<open>\<open>from_str\<close> of a \<open>w\<close> bit integer: a sign is allowed, an empty string and an overflow are errors.\<close>

fun parse_digits :: "nat \<Rightarrow> nat \<Rightarrow> string \<Rightarrow> nat option" where
  "parse_digits w acc [] = Some acc"
| "parse_digits w acc (c # cs) = Option.bind (digit c) (\<lambda>d.
     Option.bind (checked_mul w acc 10) (\<lambda>m.
       Option.bind (checked_add w m d) (\<lambda>a. parse_digits w a cs)))"

definition from_str :: "nat \<Rightarrow> string \<Rightarrow> nat option" where
  "from_str w s =
     (let cs = (case s of c # cs \<Rightarrow> if c = CHR ''+'' then cs else s | [] \<Rightarrow> [])
      in if cs = [] then None else parse_digits w 0 cs)"

definition field :: "string list \<Rightarrow> nat \<Rightarrow> string option" where
  "field record i = (if i < length record then Some (record ! i) else None)"

fun all_records :: "('r \<Rightarrow> 'a option) \<Rightarrow> 'r list \<Rightarrow> 'a list option" where
  "all_records f [] = Some []"
| "all_records f (r # rs) = Option.bind (f r) (\<lambda>a. map_option ((#) a) (all_records f rs))"

definition process_claiming ::
  "(string \<Rightarrow> 'h option) \<Rightarrow> string list list \<Rightarrow> ('h \<times> balance) list option" where
  "process_claiming hex = all_records (\<lambda>record.
     Option.bind (field record 0) (\<lambda>address.
     Option.bind (Option.bind (field record 1) (from_str 128 \<circ> trim)) (\<lambda>amount.
       map_option (\<lambda>a. (a, amount)) (hex (strip_hex_prefix address)))))"

definition process_vesting ::
  "(string \<Rightarrow> 'h option) \<Rightarrow> string list list \<Rightarrow> ('h \<times> balance \<times> nat \<times> nat) list option" where
  "process_vesting hex = all_records (\<lambda>record.
     Option.bind (field record 0) (\<lambda>address.
     Option.bind (Option.bind (field record 1) (from_str 128 \<circ> trim)) (\<lambda>amount.
     Option.bind (Option.bind (field record 2) (from_str 32 \<circ> trim)) (\<lambda>start.
     Option.bind (Option.bind (field record 3) (from_str 32 \<circ> trim)) (\<lambda>period.
       map_option (\<lambda>a. (a, amount, start, period)) (hex (strip_hex_prefix address)))))))"

definition process_vnode :: "(string \<Rightarrow> 'h option) \<Rightarrow> string list list \<Rightarrow> 'h list option" where
  "process_vnode hex = all_records (\<lambda>record.
     Option.bind (field record 0) (hex \<circ> strip_hex_prefix))"

end
