(* ===== verification/SimpleVesting.thy ===== *)
theory SimpleVesting
  imports Prelude
begin

text \<open>
  The pallet \<open>pallets/simple-vesting\<close>: one linear schedule per account, whose locked part is held in
  the named reserve \<open>VESTING_ID\<close> of the account.

  The currency, the account providers and the conversion of a block number into a balance are the
  fields of the parameter \<open>V\<close>; a negative imbalance is its amount. The block number is the argument
  \<open>now\<close> of the calls that read it.
\<close>

section \<open>Schedules\<close>

record vesting_info =
  vi_locked :: balance
  vi_per_block :: balance
  vi_starting_block :: nat

definition vesting_info_new :: "balance \<Rightarrow> balance \<Rightarrow> nat \<Rightarrow> vesting_info" where
  "vesting_info_new locked per_block starting_block =
     \<lparr>vi_locked = locked, vi_per_block = per_block, vi_starting_block = starting_block\<rparr>"

definition vi_is_valid :: "vesting_info \<Rightarrow> bool" where
  "vi_is_valid i \<longleftrightarrow> vi_locked i \<noteq> 0 \<and> vi_per_block i \<noteq> 0"

definition locked_at :: "(nat \<Rightarrow> balance) \<Rightarrow> vesting_info \<Rightarrow> nat \<Rightarrow> balance" where
  "locked_at conv i n =
     (let vested_block_count = conv (n - vi_starting_block i)
      in unwrap_or 0 (map_option (\<lambda>to_unlock. vi_locked i - to_unlock)
           (checked_mul 128 vested_block_count (max (vi_per_block i) 1))))"

section \<open>State and operations\<close>

datatype vesting_event =
  VestingCreated account balance
| VestingUpdated account balance
| VestingCompleted account
| VestingRemoved account balance

datatype vesting_error = NotVesting | AlreadyVesting | InvalidScheduleParams

record 'x vesting =
  Vesting :: "account \<rightharpoonup> vesting_info"
  ve_events :: "vesting_event list"
  ve_ext :: 'x

record 'x vesting_env =
  v_convert :: "nat \<Rightarrow> balance"
  vx_free :: "'x \<Rightarrow> account \<Rightarrow> balance"
  vx_reserved :: "'x \<Rightarrow> account \<Rightarrow> balance"
  vx_transfer :: "account \<Rightarrow> account \<Rightarrow> balance \<Rightarrow> 'x \<Rightarrow> string + 'x"
  vx_reserve_named :: "account \<Rightarrow> balance \<Rightarrow> 'x \<Rightarrow> string + 'x"
  vx_ensure_reserved_named :: "account \<Rightarrow> balance \<Rightarrow> 'x \<Rightarrow> string + 'x"
  vx_slash_reserved_named :: "account \<Rightarrow> balance \<Rightarrow> 'x \<Rightarrow> 'x \<times> balance \<times> balance"
  vx_slash :: "balance \<Rightarrow> 'x \<Rightarrow> 'x"
  vx_inc_providers :: "account \<Rightarrow> 'x \<Rightarrow> 'x"
  vx_dec_providers :: "account \<Rightarrow> 'x \<Rightarrow> string + 'x"

type_synonym 'x vesting_result = "vesting_error dispatch_error + 'x vesting"

definition ve_deposit :: "vesting_event \<Rightarrow> 'x vesting \<Rightarrow> 'x vesting" where
  "ve_deposit e s = s\<lparr>ve_events := ve_events s @ [e]\<rparr>"

definition do_vest :: "'x vesting_env \<Rightarrow> nat \<Rightarrow> account \<Rightarrow> 'x vesting \<Rightarrow> 'x vesting_result" where
  "do_vest V now who s =
     rbind (ok_or (Module NotVesting) (Vesting s who)) (\<lambda>vesting.
       let locked = locked_at (v_convert V) vesting now
       in rbind (map_err Extern (vx_ensure_reserved_named V who locked (ve_ext s))) (\<lambda>x.
          if locked = 0
          then rbind (map_err Extern (vx_dec_providers V who x)) (\<lambda>y.
                 Inr (ve_deposit (VestingCompleted who)
                        (s\<lparr>Vesting := (Vesting s)(who := None), ve_ext := y\<rparr>)))
          else Inr (ve_deposit (VestingUpdated who locked) (s\<lparr>ve_ext := x\<rparr>))))"

definition vest :: "'x vesting_env \<Rightarrow> nat \<Rightarrow> origin \<Rightarrow> 'x vesting \<Rightarrow> 'x vesting_result" where
  "vest V now og s = rbind (ensure_signed og) (\<lambda>who. do_vest V now who s)"

definition force_vested_transfer ::
  "'x vesting_env \<Rightarrow> origin \<Rightarrow> account \<Rightarrow> account \<Rightarrow> vesting_info \<Rightarrow> 'x vesting \<Rightarrow> 'x vesting_result" where
  "force_vested_transfer V og source dest schedule s =
     rbind (ensure_root og) (\<lambda>_.
     rbind (ensure (vi_is_valid schedule) (Module InvalidScheduleParams)) (\<lambda>_.
     rbind (ensure (Vesting s dest = None) (Module AlreadyVesting)) (\<lambda>_.
     rbind (map_err Extern (vx_transfer V source dest (vi_locked schedule) (ve_ext s))) (\<lambda>x.
       let s1 = s\<lparr>Vesting := (Vesting s)(dest \<mapsto> schedule), ve_ext := vx_inc_providers V dest x\<rparr>
       in rbind (map_err Extern (vx_reserve_named V dest (vi_locked schedule) (ve_ext s1))) (\<lambda>y.
            Inr (ve_deposit (VestingCreated dest (vi_locked schedule)) (s1\<lparr>ve_ext := y\<rparr>)))))))"

definition force_remove_vesting ::
  "'x vesting_env \<Rightarrow> origin \<Rightarrow> account \<Rightarrow> 'x vesting \<Rightarrow> 'x vesting_result" where
  "force_remove_vesting V og who s =
     rbind (ensure_root og) (\<lambda>_.
     rbind (ok_or (Module NotVesting) (Vesting s who)) (\<lambda>schedule.
       let s1 = s\<lparr>Vesting := (Vesting s)(who := None)\<rparr>;
           (x, imbalance, unslashed) = vx_slash_reserved_named V who (vi_locked schedule) (ve_ext s1);
           slashed = vi_locked schedule - unslashed
       in rbind (map_err Extern (vx_dec_providers V who (vx_slash V imbalance x))) (\<lambda>y.
            Inr (ve_deposit (VestingRemoved who slashed) (s1\<lparr>ve_ext := y\<rparr>)))))"

text \<open>One entry of the genesis build, and the loop; \<open>None\<close> is a panic.\<close>

definition genesis_vesting_entry ::
  "'x vesting_env \<Rightarrow> account \<times> nat \<times> nat \<times> balance \<Rightarrow> 'x vesting \<Rightarrow> 'x vesting option" where
  "genesis_vesting_entry V entry s =
     (let (who, begin', length', liquid) = entry;
          balance = vx_free V (ve_ext s) who;
          locked = balance - liquid;
          length_as_balance = v_convert V length';
          per_block = locked div max length_as_balance 1;
          vesting_info = vesting_info_new locked per_block begin'
      in if balance = 0 \<or> \<not> vi_is_valid vesting_info then None
         else let s1 = s\<lparr>Vesting := (Vesting s)(who \<mapsto> vesting_info),
                         ve_ext := vx_inc_providers V who (ve_ext s)\<rparr>
              in case vx_reserve_named V who locked (ve_ext s1) of
                   Inl _ \<Rightarrow> None | Inr x \<Rightarrow> Some (s1\<lparr>ve_ext := x\<rparr>))"

fun vesting_genesis ::
  "'x vesting_env \<Rightarrow> (account \<times> nat \<times> nat \<times> balance) list \<Rightarrow> 'x vesting \<Rightarrow> 'x vesting option" where
  "vesting_genesis V [] s = Some s"
| "vesting_genesis V (e # es) s = Option.bind (genesis_vesting_entry V e s) (vesting_genesis V es)"

section \<open>Properties\<close>

text \<open>
  The multiplication overflows only after the schedule has ended, so the code computes the exact linear
  schedule.
\<close>

lemma locked_at_exact:
  assumes "vi_locked i < 2 ^ 128" "vi_is_valid i"
  shows "locked_at conv i n = vi_locked i - conv (n - vi_starting_block i) * vi_per_block i"
proof -
  have m: "max (vi_per_block i) 1 = vi_per_block i" using assms(2) by (simp add: vi_is_valid_def max_def)
  show ?thesis
  proof (cases "conv (n - vi_starting_block i) * vi_per_block i < 2 ^ 128")
    case True
    then show ?thesis unfolding locked_at_def Let_def m by (simp add: checked_mul_def le_max_w_iff)
  next
    case False
    then have "vi_locked i - conv (n - vi_starting_block i) * vi_per_block i = 0" using assms(1) by simp
    then show ?thesis unfolding locked_at_def Let_def m using False by (simp add: checked_mul_def le_max_w_iff)
  qed
qed

lemma locked_at_antitone:
  assumes "vi_locked i < 2 ^ 128" "vi_is_valid i" "mono conv" "m \<le> n"
  shows "locked_at conv i n \<le> locked_at conv i m"
  unfolding locked_at_exact [OF assms(1,2)]
  by (intro diff_le_mono2 mult_le_mono1 monoD [OF assms(3)] diff_le_mono assms(4))

text \<open>What the pallet relies on of the named reserve.\<close>

definition reserves_ok :: "'x vesting_env \<Rightarrow> bool" where
  "reserves_ok V \<longleftrightarrow>
     (\<forall>who v x y. vx_ensure_reserved_named V who v x = Inr y \<longrightarrow>
        vx_reserved V y = (vx_reserved V x)(who := v)) \<and>
     (\<forall>who v x y. vx_reserve_named V who v x = Inr y \<longrightarrow>
        vx_reserved V y = (vx_reserved V x)(who := vx_reserved V x who + v)) \<and>
     (\<forall>who x y. vx_dec_providers V who x = Inr y \<longrightarrow> vx_reserved V y = vx_reserved V x) \<and>
     (\<forall>who x. vx_reserved V (vx_inc_providers V who x) = vx_reserved V x) \<and>
     (\<forall>a b v x y. vx_transfer V a b v x = Inr y \<longrightarrow> vx_reserved V y = vx_reserved V x)"

text \<open>C32.
  A successful \<open>vest\<close> at block \<open>n\<close> leaves exactly the linear schedule's remainder in reserve: the
  locked amount less the per-block amount for every block since the start (nothing before it), with the
  other accounts' reserves and schedules as they were; the schedule is removed exactly when nothing is
  left, and vesting earlier never leaves less in reserve.
\<close>

theorem vest_follows_schedule:
  assumes V: "reserves_ok V" and r: "vest V n (Signed who) s = Inr s'" and i: "Vesting s who = Some i"
    and ok: "vi_is_valid i" "vi_locked i < 2 ^ 128" and c: "mono (v_convert V)"
  shows "\<exists>left. left = vi_locked i - v_convert V (n - vi_starting_block i) * vi_per_block i \<and>
    vx_reserved V (ve_ext s') = (vx_reserved V (ve_ext s))(who := left) \<and>
    Vesting s' = (if left = 0 then (Vesting s)(who := None) else Vesting s) \<and>
    (\<forall>m \<le> n. left \<le> vi_locked i - v_convert V (m - vi_starting_block i) * vi_per_block i)"
proof -
  let ?left = "locked_at (v_convert V) i n"
  obtain x where x: "vx_ensure_reserved_named V who ?left (ve_ext s) = Inr x"
    and s': "(if ?left = 0 then rbind (map_err Extern (vx_dec_providers V who x)) (\<lambda>y.
         Inr (ve_deposit (VestingCompleted who) (s\<lparr>Vesting := (Vesting s)(who := None), ve_ext := y\<rparr>)))
       else Inr (ve_deposit (VestingUpdated who ?left) (s\<lparr>ve_ext := x\<rparr>))) = (Inr s' :: 'a vesting_result)"
    using r i by (auto simp: vest_def do_vest_def Let_def res_simps simp del: split_paired_Ex)
  have "vx_reserved V x = (vx_reserved V (ve_ext s))(who := ?left)"
    using V x unfolding reserves_ok_def by blast
  then have res: "vx_reserved V (ve_ext s') = (vx_reserved V (ve_ext s))(who := ?left)"
    using s' V by (auto simp: ve_deposit_def res_simps reserves_ok_def split: if_splits)
  have "Vesting s' = (if ?left = 0 then (Vesting s)(who := None) else Vesting s)"
    using s' by (auto simp: ve_deposit_def res_simps split: if_splits)
  with res locked_at_antitone [OF ok(2,1) c, where n = n] show ?thesis
    unfolding locked_at_exact [OF ok(2,1)] by blast
qed

text \<open>Every stored schedule is valid: the genesis build and the calls keep it so.\<close>

definition schedules_valid :: "'x vesting \<Rightarrow> bool" where
  "schedules_valid s \<longleftrightarrow> (\<forall>a i. Vesting s a = Some i \<longrightarrow> vi_is_valid i)"

lemma vest_schedules: "vest V n og s = Inr s' \<Longrightarrow> schedules_valid s \<Longrightarrow> schedules_valid s'"
  by (auto simp: vest_def do_vest_def Let_def res_simps ve_deposit_def schedules_valid_def split: if_splits)

lemma force_vested_transfer_schedules:
  "force_vested_transfer V og a b i s = Inr s' \<Longrightarrow> schedules_valid s \<Longrightarrow> schedules_valid s'"
  by (auto simp: force_vested_transfer_def Let_def res_simps ve_deposit_def schedules_valid_def split: if_splits)

lemma force_remove_schedules:
  "force_remove_vesting V og a s = Inr s' \<Longrightarrow> schedules_valid s \<Longrightarrow> schedules_valid s'"
  unfolding force_remove_vesting_def Let_def rbind_Inr_iff
  by (elim exE conjE) (auto simp: res_simps ve_deposit_def schedules_valid_def split: prod.splits if_splits)

lemma genesis_vesting_entry_schedules:
  "genesis_vesting_entry V e s = Some t \<Longrightarrow> schedules_valid s \<Longrightarrow> schedules_valid t"
  unfolding genesis_vesting_entry_def Let_def
  by (auto simp: schedules_valid_def split: prod.splits sum.splits if_splits)

lemma vesting_genesis_schedules:
  "vesting_genesis V es s = Some s' \<Longrightarrow> schedules_valid s \<Longrightarrow> schedules_valid s'"
  by (induction V es s rule: vesting_genesis.induct)
    (auto simp: Option.bind_eq_Some_conv dest: genesis_vesting_entry_schedules)

text \<open>The world of the witness: free and reserved balances.\<close>

type_synonym funds = "(account \<Rightarrow> balance) \<times> (account \<Rightarrow> balance)"

definition demo_vesting_env :: "funds vesting_env" where
  "demo_vesting_env = \<lparr>v_convert = (\<lambda>n. n), vx_free = fst, vx_reserved = snd,
     vx_transfer = (\<lambda>a b v (f, r). if v \<le> f a then Inr (f(a := f a - v, b := f b + v), r) else Inl ''funds''),
     vx_reserve_named = (\<lambda>a v (f, r). if v \<le> f a then Inr (f(a := f a - v), r(a := r a + v)) else Inl ''funds''),
     vx_ensure_reserved_named = (\<lambda>a v (f, r). if v \<le> f a + r a then Inr (f(a := f a + r a - v), r(a := v)) else Inl ''funds''),
     vx_slash_reserved_named = (\<lambda>a v (f, r). ((f, r(a := r a - v)), min v (r a), v - r a)),
     vx_slash = (\<lambda>_ x. x), vx_inc_providers = (\<lambda>_ x. x), vx_dec_providers = (\<lambda>_ x. Inr x)\<rparr>"

lemma demo_reserves_ok: "reserves_ok demo_vesting_env"
  by (auto simp: reserves_ok_def demo_vesting_env_def split: if_splits)

definition demo_vesting :: "funds vesting" where
  "demo_vesting = \<lparr>Vesting = [5 \<mapsto> vesting_info_new 100 10 20], ve_events = [],
     ve_ext = ((\<lambda>_. 0), (\<lambda>a. if a = 5 then 100 else 0))\<rparr>"

theorem vest_follows_schedule_witness:
  "\<exists>s'. vest demo_vesting_env 23 (Signed 5) demo_vesting = Inr s' \<and>
     vx_reserved demo_vesting_env (ve_ext s') 5 = 70 \<and> Vesting s' 5 \<noteq> None"
proof -
  let ?i = "vesting_info_new 100 10 20"
  have l: "locked_at (\<lambda>n. n) ?i 23 = 70"
    by (simp add: locked_at_def vesting_info_new_def checked_mul_def max_w_def)
  obtain s' where r: "vest demo_vesting_env 23 (Signed 5) demo_vesting = Inr s'"
    by (simp add: vest_def do_vest_def demo_vesting_env_def demo_vesting_def l)
  have "mono (v_convert demo_vesting_env)" by (simp add: demo_vesting_env_def mono_def)
  from vest_follows_schedule [OF demo_reserves_ok r _ _ _ this, of ?i] show ?thesis
    using r by (simp add: demo_vesting_def demo_vesting_env_def vesting_info_new_def vi_is_valid_def)
qed

end
