(* ===== verification/ChainSpec.thy ===== *)
theory ChainSpec
  imports RuntimeConfig GenesisKeys SimpleVesting Privileges EnergyBroker
begin

text \<open>
  The genesis configurations of \<open>node/chain-spec/src/lib.rs\<close> and the chain specifications built on them.
  A configuration has the fields that are not their pallet's default. The generated lists of claims,
  vestings and validator nodes are \<open>chain_data\<close>; keys derived from seeds, accounts of pallets, the
  constants of \<open>polkadot_primitives\<close> and the random generator are parameters. A panic is \<open>None\<close>.
\<close>

section \<open>Configurations\<close>

record chain_data =
  cd_claims :: "(eth_address \<times> balance) list"
  cd_vesting :: "(account \<times> balance \<times> nat \<times> nat) list"
  cd_vnode :: "account list"

record spec_env = key_env +
  sx_pallet_account :: "string \<Rightarrow> account"
  sx_claim_account :: account
  sx_libm :: libm
  sx_max_code_size :: nat
  sx_max_pov_size :: nat

record 'g rng =
  rg_gen :: "'g \<Rightarrow> nat \<times> 'g"
  rg_choose_multiple :: "authority_keys list \<Rightarrow> nat \<Rightarrow> 'g \<Rightarrow> authority_keys list \<times> 'g"

record host_configuration =
  hc_validation_upgrade_cooldown :: nat
  hc_validation_upgrade_delay :: nat
  hc_code_retention_period :: nat
  hc_max_code_size :: nat
  hc_max_pov_size :: nat
  hc_max_head_data_size :: nat
  hc_max_upward_queue_count :: nat
  hc_max_upward_queue_size :: nat
  hc_max_downward_message_size :: nat
  hc_max_upward_message_size :: nat
  hc_max_upward_message_num_per_candidate :: nat
  hc_hrmp_sender_deposit :: nat
  hc_hrmp_recipient_deposit :: nat
  hc_hrmp_channel_max_capacity :: nat
  hc_hrmp_channel_max_total_size :: nat
  hc_hrmp_max_parachain_inbound_channels :: nat
  hc_hrmp_channel_max_message_size :: nat
  hc_hrmp_max_parachain_outbound_channels :: nat
  hc_hrmp_max_message_num_per_candidate :: nat
  hc_dispute_period :: nat
  hc_no_show_slots :: nat
  hc_n_delay_tranches :: nat
  hc_needed_approvals :: nat
  hc_relay_vrf_modulo_samples :: nat
  hc_zeroth_delay_tranche_width :: nat
  hc_minimum_validation_upgrade_delay :: nat

definition default_parachains_host_configuration :: "spec_env \<Rightarrow> host_configuration" where
  "default_parachains_host_configuration X =
     \<lparr>hc_validation_upgrade_cooldown = 2, hc_validation_upgrade_delay = 2, hc_code_retention_period = 1200,
      hc_max_code_size = sx_max_code_size X, hc_max_pov_size = sx_max_pov_size X,
      hc_max_head_data_size = 32 * 1024, hc_max_upward_queue_count = 8,
      hc_max_upward_queue_size = 1024 * 1024, hc_max_downward_message_size = 1024 * 1024,
      hc_max_upward_message_size = 50 * 1024, hc_max_upward_message_num_per_candidate = 5,
      hc_hrmp_sender_deposit = 0, hc_hrmp_recipient_deposit = 0, hc_hrmp_channel_max_capacity = 8,
      hc_hrmp_channel_max_total_size = 8 * 1024, hc_hrmp_max_parachain_inbound_channels = 4,
      hc_hrmp_channel_max_message_size = 1024 * 1024, hc_hrmp_max_parachain_outbound_channels = 4,
      hc_hrmp_max_message_num_per_candidate = 5, hc_dispute_period = 6, hc_no_show_slots = 2,
      hc_n_delay_tranches = 25, hc_needed_approvals = 2, hc_relay_vrf_modulo_samples = 2,
      hc_zeroth_delay_tranche_width = 0, hc_minimum_validation_upgrade_delay = 5\<rparr>"

record claiming_config =
  cc_claims :: "(eth_address \<times> balance) list"
  cc_vesting :: "(eth_address \<times> schedule) list"

record assets_config =
  as_assets :: "(nat \<times> account \<times> bool \<times> balance) list"
  as_metadata :: "(nat \<times> string \<times> string \<times> nat) list"
  as_accounts :: "(nat \<times> account \<times> balance) list"

record runtime_genesis =
  rg_sudo :: "account option"
  rg_balances :: "(account \<times> balance) list"
  rg_claiming :: claiming_config
  rg_simple_vesting :: "(account \<times> nat \<times> nat \<times> balance) list"
  rg_babe :: "(nat \<times> nat) \<times> allowed_slots"
  rg_council :: "account list"
  rg_evm_chain_id :: nat
  rg_energy_capacity :: balance
  rg_assets :: assets_config
  rg_reputation :: "(account \<times> reputation_record) list"
  rg_nac_accounts :: "(account \<times> nat) list"
  rg_nac_owners :: "account list"
  rg_date :: "date option"
  rg_session_keys :: "(account \<times> account \<times> session_keys) list"
  rg_technical_committee :: "account list"
  rg_energy_burn :: balance
  rg_energy_sale :: balance
  rg_total_stake :: balance
  rg_staking :: genesis_config
  rg_im_online :: "nat list"
  rg_authority_discovery :: "nat list"
  rg_configuration :: host_configuration

definition INITIAL_ENERGY_BALANCE :: balance where "INITIAL_ENERGY_BALANCE = 100000000000000000000"
definition MIN_COMMON_VALIDATOR_BOND :: balance where "MIN_COMMON_VALIDATOR_BOND = 1000000 * UNITS"
definition MIN_TRUST_VALIDATOR_BOND :: balance where "MIN_TRUST_VALIDATOR_BOND = 1 * UNITS"
definition MIN_COOPERATOR_BOND :: balance where "MIN_COOPERATOR_BOND = 1000000000000000000"
definition ENERGY_PER_STAKE_CURRENCY :: balance where "ENERGY_PER_STAKE_CURRENCY = 19909091036891"

text \<open>The default of \<open>EnergyGenerationConfig\<close>.\<close>

definition default_staking_config :: genesis_config where
  "default_staking_config = \<lparr>g_validator_count = 0, g_minimum_validator_count = 0, g_invulnerables = [],
     g_force_era = NotForcing, g_canceled_payout = 0, g_slash_reward_fraction = 0, g_min_cooperator_bond = 0,
     g_energy_per_stake_currency = 0, g_block_authoring_reward = 0, g_min_commission = 0,
     g_min_common_validator_bond = 0, g_min_trust_validator_bond = 0, g_max_validator_count = None,
     g_max_cooperator_count = None, g_disable_collaboration = False, g_stakers = []\<rparr>"

section \<open>The tables of the genesis\<close>

definition treasury_address :: "spec_env \<Rightarrow> account" where
  "treasury_address X = sx_pallet_account X ''py/trsry''"
definition staking_rewards :: "spec_env \<Rightarrow> account" where
  "staking_rewards X = sx_pallet_account X ''stknrwrd''"
definition liquidity :: "spec_env \<Rightarrow> account" where
  "liquidity X = sx_pallet_account X ''liquidty''"
definition liquidity_reserves :: "spec_env \<Rightarrow> account" where
  "liquidity_reserves X = sx_pallet_account X ''liqresrv''"

definition tech_allocation :: "spec_env \<Rightarrow> (account \<times> balance) list" where
  "tech_allocation X =
     [(treasury_address X, 68364887120 * MILLI_VTRS), (staking_rewards X, 170000000 * UNITS),
      (liquidity X, 10000000 * UNITS), (liquidity_reserves X, 125000000 * UNITS)]"

definition vested_balance :: "chain_data \<Rightarrow> (account \<times> balance) list" where
  "vested_balance D = map (\<lambda>(account, amount, _, _). (account, amount)) (cd_vesting D)"

definition vnode_accounts :: "chain_data \<Rightarrow> account list" where
  "vnode_accounts D = cd_vnode D"

definition simple_vesting_config :: "chain_data \<Rightarrow> (account \<times> nat \<times> nat \<times> balance) list" where
  "simple_vesting_config D =
     map (\<lambda>(address, _, start, period). (address, mul_w 32 start MONTHS, mul_w 32 period MONTHS, 0)) (cd_vesting D)"

text \<open>The twenty bytes of \<open>hex!\<close>.\<close>

definition eth_hex :: "nat \<Rightarrow> eth_address" where
  "eth_hex n = map (\<lambda>i. n div 256 ^ (19 - i) mod 256) [0..<20]"

definition listed_claims :: "(eth_address \<times> balance \<times> (balance option \<times> nat \<times> nat) option) list" where
  "listed_claims =
     [(eth_hex 0x3e743911188753601C688F42510d7d9fF34bfEFf, 375083500000000000000000, Some (None, 1, 1)),
      (eth_hex 0x2902213Ae1122D9D23c41AaC3961Da8d4dcb8588, 629210000000000000000, Some (None, 1, 1)),
      (eth_hex 0xDa67BB5318003a8Cd5D68cC2Fc042958ed4262F2, 26000000000000000000000, Some (None, 1, 1)),
      (eth_hex 0xE5b8524a2613472972cA7Ea11c6Fa2DA65379C2b, 1100000000000000000000, Some (None, 1, 1)),
      (eth_hex 0xcEcb9661f49255d7f814a49018Bc74069Cc0AD45, 260000000000000000000000, Some (None, 1, 1)),
      (eth_hex 0xfb8B24C9072A93BC3F6A5aF7C3F55a0655Eee509, 1360000000000000000000, Some (None, 1, 1)),
      (eth_hex 0xDc5419Ce5633a3608b1d19F26377D84BD8b0168f, 22046888888888800000000 + 2040000000000000000000,
       Some (Some 2040000000000000000000, 1, 1)),
      (eth_hex 0x5b7d4c4b7243bfad283472c1ff3a4fb1949cb309, 60627000000000000000000, None),
      (eth_hex 0x21ECD0192945a534EA5faf594f1a5aDa6CBAD4C0, 160353820000000000000000, None),
      (eth_hex 0x205Be1AD81b62E49ed9D34E97cb52F31D3644A04, 100540000000000000000000, None),
      (eth_hex 0xAb404525918C62F7A751Db4096f8Bb04E4D12309, 10000000000000000000000, None)]"

definition push_claim ::
  "claiming_config \<Rightarrow> eth_address \<times> balance \<times> (balance option \<times> nat \<times> nat) option \<Rightarrow> claiming_config" where
  "push_claim config entry =
     (let (address, amount, vesting) = entry;
          config1 = config\<lparr>cc_claims := cc_claims config @ [(address, amount)]\<rparr>
      in case vesting of
           None \<Rightarrow> config1
         | Some (vesting_amount, start, period) \<Rightarrow>
             let start = mul_w 32 start YEARS;
                 period = mul_w 32 period YEARS;
                 vesting_amount = unwrap_or amount vesting_amount;
                 amount_per_block = vesting_amount div period
             in config1\<lparr>cc_vesting := cc_vesting config1 @ [(address, vesting_amount, amount_per_block, start)]\<rparr>)"

definition genesis_claiming_config :: "chain_data \<Rightarrow> claiming_config" where
  "genesis_claiming_config D = foldl push_claim \<lparr>cc_claims = cd_claims D, cc_vesting = []\<rparr> listed_claims"

definition council_config :: "account list" where
  "council_config =
     [0x5f53d6893b5ca9b80a98e66f16f966e8c7d0b29c, 0x51C7b0F6Ec0b45b1Fa644Aa1c7560d45D7506c91,
      0x56fef4e5500eb9b8546c722f22e437e26d45f33c, 0x2A27793bDe97A121050093285a6D75a6EbCD9Cf1,
      0xd3a58ebcbab95c9950aa45d143eb4ca241ff4563, 0xe6a32e4b99f2c40f1999db38456e8b1a4d4a9884,
      0x7bD754C60e252ac4Ea5E583EA8F4ee34Bf7Cb3DC, 0x6096991707a190f97e2cb9146fabba23f5fc8cdd,
      0x93518a144178d7cea1421c7a754b1493ad47f439]"

definition technical_committee_config :: "account list" where
  "technical_committee_config =
     [0xB91De9Bdb5A04ecD5f1ddb875E96e39926F7AFE1, 0x0646fc56f259b366a6b05b38c128275b06a68b41]"

definition session_config :: "authority_keys list \<Rightarrow> (account \<times> account \<times> session_keys) list" where
  "session_config validators = map (\<lambda>x. (ak_controller x, ak_stash x, session_keys_of x)) validators"

definition reputation_config ::
  "spec_env \<Rightarrow> (account \<times> account \<times> balance \<times> staker_status) list \<Rightarrow> (account \<times> reputation_record) list" where
  "reputation_config X stakers = concat (map (\<lambda>(stash, controller, _, _).
     [(stash, record_from_points (sx_libm X) COLLABORATIVE_VALIDATOR_REPUTATION_THRESHOLD),
      (controller, record_from_points (sx_libm X) COLLABORATIVE_VALIDATOR_REPUTATION_THRESHOLD)]) stakers)"

definition energy_assets :: "account \<Rightarrow> (nat \<times> account \<times> bool \<times> balance) list" where
  "energy_assets owner = [(VNRG, owner, False, 1), (SNRG, owner, False, 1), (LNRG, owner, False, 1)]"

definition energy_metadata :: "(nat \<times> string \<times> string \<times> nat) list" where
  "energy_metadata = [(VNRG, ''Energy'', ''VNRG'', 18), (SNRG, ''Static Energy'', ''SNRG'', 18),
     (LNRG, ''Liquid Energy'', ''LNRG'', 18)]"

definition sum_stakes :: "(account \<times> account \<times> balance \<times> staker_status) list \<Rightarrow> balance" where
  "sum_stakes stakers = foldl (\<lambda>acc (_, _, stake, _). add_w 128 acc stake) 0 stakers"

definition validator_stakers ::
  "balance \<Rightarrow> authority_keys list \<Rightarrow> (account \<times> account \<times> balance \<times> staker_status) list" where
  "validator_stakers stash validators = map (\<lambda>x. (ak_stash x, ak_controller x, stash, IsValidator)) validators"

section \<open>The genesis of the test networks\<close>

definition endow :: "account list \<Rightarrow> account list \<Rightarrow> account list" where
  "endow endowed accounts = foldl (\<lambda>acc i. if i \<in> set acc then acc else acc @ [i]) endowed accounts"

definition TESTNET_ENDOWMENT :: balance where "TESTNET_ENDOWMENT = 1000000 * UNITS"
definition TESTNET_STASH :: balance where "TESTNET_STASH = TESTNET_ENDOWMENT div 1000000"

text \<open>
  One initial cooperator; the remainder and the quotient panic when the divisor is zero. The cooperators
  are taken in order, each with what the generator gives next.
\<close>

definition cooperator_staker ::
  "'g rng \<Rightarrow> authority_keys list \<Rightarrow> account \<Rightarrow> 'g
   \<Rightarrow> ((account \<times> account \<times> balance \<times> staker_status) \<times> 'g) option" where
  "cooperator_staker G validators x g =
     (let limit = min MaxCooperations (length validators);
          (r, g1) = rg_gen G g
      in if limit = 0 then None
         else let count = r mod limit
              in if count = 0 then None
                 else let stake = TESTNET_STASH div count;
                          (chosen, g2) = rg_choose_multiple G validators count g1;
                          cooperations = map (\<lambda>choice. (ak_stash choice, stake)) chosen
                      in Some ((x, x, TESTNET_STASH, IsCooperator cooperations), g2))"

fun cooperator_stakers ::
  "'g rng \<Rightarrow> authority_keys list \<Rightarrow> account list \<Rightarrow> 'g
   \<Rightarrow> (account \<times> account \<times> balance \<times> staker_status) list option" where
  "cooperator_stakers G validators [] g = Some []"
| "cooperator_stakers G validators (x # xs) g =
     Option.bind (cooperator_staker G validators x g) (\<lambda>(s, g').
       map_option ((#) s) (cooperator_stakers G validators xs g'))"

definition testnet_genesis ::
  "spec_env \<Rightarrow> chain_data \<Rightarrow> 'g rng \<Rightarrow> 'g \<Rightarrow> account \<Rightarrow> account list \<Rightarrow> authority_keys list \<Rightarrow> account list
   \<Rightarrow> nat \<Rightarrow> runtime_genesis option" where
  "testnet_genesis X D G g root_key endowed0 initial_validators initial_cooperators chain_id =
     (let endowed = endow endowed0 (concat (map (\<lambda>x. [ak_stash x, ak_controller x]) initial_validators)
                      @ concat (map (\<lambda>x. [x, x]) initial_cooperators))
      in map_option (\<lambda>cooperators.
           let stakers = validator_stakers TESTNET_STASH initial_validators @ cooperators
           in \<lparr>rg_sudo = Some root_key,
               rg_balances = map (\<lambda>k. (k, TESTNET_ENDOWMENT)) endowed,
               rg_claiming = genesis_claiming_config D,
               rg_simple_vesting = [],
               rg_babe = BABE_GENESIS_EPOCH_CONFIG,
               rg_council = take 3 endowed,
               rg_evm_chain_id = chain_id,
               rg_energy_capacity = 1000000000000,
               rg_assets = \<lparr>as_assets = energy_assets root_key, as_metadata = energy_metadata,
                 as_accounts = map (\<lambda>account. (VNRG, account, INITIAL_ENERGY_BALANCE)) endowed\<rparr>,
               rg_reputation = reputation_config X stakers,
               rg_nac_accounts = map (\<lambda>x. (x, 2)) endowed,
               rg_nac_owners = [root_key],
               rg_date = Some (2024, 5, 15),
               rg_session_keys = session_config initial_validators,
               rg_technical_committee = take 3 (drop 3 endowed),
               rg_energy_burn = 10000000000, rg_energy_sale = 10000000000,
               rg_total_stake = sum_stakes stakers,
               rg_staking = default_staking_config\<lparr>g_validator_count := 125,
                 g_minimum_validator_count := length initial_validators mod 2 ^ 32,
                 g_invulnerables := map ak_stash initial_validators,
                 g_slash_reward_fraction := 100000000,
                 g_min_cooperator_bond := MIN_COOPERATOR_BOND,
                 g_min_common_validator_bond := MIN_COMMON_VALIDATOR_BOND,
                 g_min_trust_validator_bond := MIN_TRUST_VALIDATOR_BOND,
                 g_stakers := stakers,
                 g_energy_per_stake_currency := ENERGY_PER_STAKE_CURRENCY,
                 g_block_authoring_reward := 24\<rparr>,
               rg_im_online = [], rg_authority_discovery = [],
               rg_configuration = default_parachains_host_configuration X\<rparr>)
         (cooperator_stakers G initial_validators initial_cooperators g))"

section \<open>The genesis of the main networks\<close>

definition MAINNET_ENDOWMENT :: balance where "MAINNET_ENDOWMENT = 1000 * UNITS"
definition MAINNET_STASH :: balance where "MAINNET_STASH = 1 * UNITS"

definition claiming_balance :: "claiming_config \<Rightarrow> balance" where
  "claiming_balance config =
     foldl (\<lambda>total claim. sat_add 128 total (snd claim)) (15000000 * UNITS) (cc_claims config)"

definition mainnet_genesis ::
  "spec_env \<Rightarrow> chain_data \<Rightarrow> account \<Rightarrow> authority_keys list \<Rightarrow> account list \<Rightarrow> runtime_genesis" where
  "mainnet_genesis X D root_key initial_validators invulnerables =
     (let endowed = [root_key];
          stakers = validator_stakers MAINNET_STASH initial_validators;
          claiming = genesis_claiming_config D
      in \<lparr>rg_sudo = Some root_key,
          rg_balances = map (\<lambda>k. (k, MAINNET_ENDOWMENT)) endowed
            @ [(sx_claim_account X, claiming_balance claiming)]
            @ map (\<lambda>x. (ak_stash x, MAINNET_STASH)) initial_validators
            @ vested_balance D @ tech_allocation X,
          rg_claiming = claiming,
          rg_simple_vesting = simple_vesting_config D,
          rg_babe = BABE_GENESIS_EPOCH_CONFIG,
          rg_council = council_config,
          rg_evm_chain_id = SS58Prefix,
          rg_energy_capacity = 1000000000000,
          rg_assets = \<lparr>as_assets = energy_assets (treasury_address X), as_metadata = energy_metadata, as_accounts = []\<rparr>,
          rg_reputation = reputation_config X stakers,
          rg_nac_accounts = map (\<lambda>account. (account, 2)) (map ak_stash initial_validators @ vnode_accounts D),
          rg_nac_owners = [root_key],
          rg_date = Some (2024, 5, 15),
          rg_session_keys = session_config initial_validators,
          rg_technical_committee = technical_committee_config,
          rg_energy_burn = 10000000000, rg_energy_sale = 10000000000,
          rg_total_stake = sum_stakes stakers,
          rg_staking = default_staking_config\<lparr>
            g_validator_count := length initial_validators mod 2 ^ 32,
            g_minimum_validator_count := sub_w 32 (length initial_validators mod 2 ^ 32) 1,
            g_invulnerables := invulnerables,
            g_slash_reward_fraction := 100000000,
            g_min_commission := 200000000,
            g_min_cooperator_bond := MIN_COOPERATOR_BOND,
            g_min_common_validator_bond := MIN_COMMON_VALIDATOR_BOND,
            g_min_trust_validator_bond := MIN_TRUST_VALIDATOR_BOND,
            g_stakers := stakers,
            g_disable_collaboration := True,
            g_energy_per_stake_currency := ENERGY_PER_STAKE_CURRENCY,
            g_block_authoring_reward := 24\<rparr>,
          rg_im_online = [], rg_authority_discovery = [],
          rg_configuration = default_parachains_host_configuration X\<rparr>)"

section \<open>The specifications\<close>

datatype chain_type = DevelopmentChain | LocalChain | LiveChain | CustomChain string

datatype json = JBool bool | JNum nat | JStr string

record chain_spec =
  cs_name :: string
  cs_id :: string
  cs_type :: chain_type
  cs_properties :: "(string \<times> json) list"
  cs_genesis :: runtime_genesis

definition spec_properties :: "(string \<times> json) list" where
  "spec_properties = [(''isEthereum'', JBool True), (''ss58Format'', JNum SS58Prefix),
     (''tokenSymbol'', JStr ''VTRS''), (''tokenDecimals'', JNum 18)]"

definition dev_accounts :: "spec_env \<Rightarrow> account list" where
  "dev_accounts X = [alith, baltathar, charleth, dorothy, ethan, faith, goliath, treasury_address X]"

definition development_config :: "spec_env \<Rightarrow> chain_data \<Rightarrow> 'g rng \<Rightarrow> 'g \<Rightarrow> chain_spec option" where
  "development_config X D G g = map_option (\<lambda>genesis.
     \<lparr>cs_name = ''Development'', cs_id = ''dev'', cs_type = DevelopmentChain,
      cs_properties = spec_properties, cs_genesis = genesis\<rparr>)
     (testnet_genesis X D G g alith (dev_accounts X)
        [authority_keys_from_seed (key_env.truncate X) ''Alice''] [] SS58Prefix)"

definition devnet_config :: "spec_env \<Rightarrow> chain_data \<Rightarrow> 'g rng \<Rightarrow> 'g \<Rightarrow> chain_spec option" where
  "devnet_config X D G g = map_option (\<lambda>genesis.
     \<lparr>cs_name = ''Devnet'', cs_id = ''devnet'', cs_type = CustomChain ''Devnet'',
      cs_properties = spec_properties, cs_genesis = genesis\<rparr>)
     (testnet_genesis X D G g alith (dev_accounts X)
        [authority_keys_from_seed (key_env.truncate X) ''Alice'',
         authority_keys_from_seed (key_env.truncate X) ''Bob''] [] SS58Prefix)"

definition localnet_config :: "spec_env \<Rightarrow> chain_data \<Rightarrow> 'g rng \<Rightarrow> 'g \<Rightarrow> chain_spec option" where
  "localnet_config X D G g = map_option (\<lambda>genesis.
     \<lparr>cs_name = ''Localnet'', cs_id = ''localnet'', cs_type = LocalChain,
      cs_properties = spec_properties, cs_genesis = genesis\<rparr>)
     (testnet_genesis X D G g alith (dev_accounts X)
        [authority_keys_from_seed (key_env.truncate X) ''Alice'',
         authority_keys_from_seed (key_env.truncate X) ''Bob''] [] SS58Prefix)"

definition testnet_config :: "spec_env \<Rightarrow> chain_data \<Rightarrow> 'g rng \<Rightarrow> 'g \<Rightarrow> chain_spec option" where
  "testnet_config X D G g = map_option (\<lambda>genesis.
     \<lparr>cs_name = ''Testnet'', cs_id = ''testnet'', cs_type = CustomChain ''Testnet'',
      cs_properties = spec_properties, cs_genesis = genesis\<rparr>)
     (testnet_genesis X D G g testnet_root
        [testnet_root, testnet_account_1, testnet_account_2, testnet_account_3]
        [testnet_validator_1_keys, testnet_validator_2_keys, testnet_validator_3_keys] [] SS58Prefix)"

definition stagenet_config :: "spec_env \<Rightarrow> chain_data \<Rightarrow> chain_spec" where
  "stagenet_config X D =
     (let validators = [testnet_validator_1_keys, testnet_validator_2_keys, testnet_validator_3_keys];
          invulnerables = map ak_stash validators
      in \<lparr>cs_name = ''Stagenet'', cs_id = ''stagenet'', cs_type = CustomChain ''Stagenet'',
          cs_properties = spec_properties,
          cs_genesis = mainnet_genesis X D testnet_root validators invulnerables\<rparr>)"

definition mainnet_validators :: "authority_keys list" where
  "mainnet_validators = [mainnet_validator_1_keys, mainnet_validator_2_keys, mainnet_validator_3_keys,
     mainnet_validator_4_keys, mainnet_validator_5_keys]"

definition mainnet_config :: "spec_env \<Rightarrow> chain_data \<Rightarrow> chain_spec" where
  "mainnet_config X D =
     \<lparr>cs_name = ''Mainnet'', cs_id = ''mainnet'', cs_type = LiveChain, cs_properties = spec_properties,
      cs_genesis = mainnet_genesis X D mainnet_root mainnet_validators []\<rparr>"

text \<open>
  \<open>load_spec\<close> of the command line (\<open>cli/src/command.rs\<close>), for the networks the build was compiled with;
  any other name is the path of a file.
\<close>

definition load_spec ::
  "bool \<Rightarrow> bool \<Rightarrow> (string \<Rightarrow> string + chain_spec) \<Rightarrow> spec_env \<Rightarrow> chain_data \<Rightarrow> 'g rng \<Rightarrow> 'g \<Rightarrow> string
   \<Rightarrow> (string + chain_spec) option" where
  "load_spec mainnet_native testnet_native from_json_file X D G g name =
     (if mainnet_native \<and> name = ''mainnet'' then Some (Inr (mainnet_config X D))
      else if mainnet_native \<and> name = ''stagenet'' then Some (Inr (stagenet_config X D))
      else if testnet_native \<and> name = ''testnet'' then map_option Inr (testnet_config X D G g)
      else if testnet_native \<and> name = ''dev'' then map_option Inr (development_config X D G g)
      else if testnet_native \<and> name = ''devnet'' then map_option Inr (devnet_config X D G g)
      else if testnet_native \<and> (name = '''' \<or> name = ''localnet'') then map_option Inr (localnet_config X D G g)
      else Some (from_json_file name))"

end
