(* ===== verification/ChainSpecProps.thy ===== *)
theory ChainSpecProps
  imports ChainSpec
begin

text \<open>
  What the genesis configurations give the pallets: the staking pallet starts with every initial validator,
  the claims are funded and their vestings fit, the vesting pallet accepts its table, accounts and session
  keys are unique, and which initial cooperators make the construction panic.
\<close>

section \<open>Bonding and validating at genesis\<close>

text \<open>
  What bonding needs of the other pallets: a stash holds the amount and a NAC above level one
  (\<open>trusted\<close>), accounts refer to themselves, and locks, consumers and the hook of the VIP pallet change
  neither balances nor NACs; \<open>ready\<close> are the accounts that take another consumer.
\<close>

definition trusted :: "'x staking_env \<Rightarrow> balance \<Rightarrow> 'x \<Rightarrow> account \<Rightarrow> bool" where
  "trusted E amount x a \<longleftrightarrow> amount \<le> x_free_balance E x a \<and> (\<exists>l. x_nac_level E x a = Some l \<and> 1 < l)"

definition genesis_world :: "'x staking_env \<Rightarrow> balance \<Rightarrow> ('x \<Rightarrow> account \<Rightarrow> bool) \<Rightarrow> bool" where
  "genesis_world E amount ready \<longleftrightarrow>
     (\<forall>x a. x_lookup E x a = Some a) \<and>
     (\<forall>x a. ready x a \<longrightarrow> x_inc_consumers E a x \<noteq> None) \<and>
     (\<forall>x y a b. x_inc_consumers E a x = Some y \<longrightarrow>
        (trusted E amount x b \<longrightarrow> trusted E amount y b) \<and> (b \<noteq> a \<longrightarrow> ready x b \<longrightarrow> ready y b)) \<and>
     (\<forall>x a v b. trusted E amount x b \<longrightarrow> trusted E amount (x_set_lock E a v x) b) \<and>
     (\<forall>x a v b. ready x b \<longrightarrow> ready (x_set_lock E a v x) b) \<and>
     (\<forall>x f a b. trusted E amount x b \<longrightarrow> trusted E amount (x_update_active_stake E f a x) b) \<and>
     (\<forall>x f a b. ready x b \<longrightarrow> ready (x_update_active_stake E f a x) b)"

definition genesis_ledger :: "account \<Rightarrow> balance \<Rightarrow> ledger" where
  "genesis_ledger stash amount =
     \<lparr>l_stash = stash, l_total = amount, l_active = amount, l_unlocking = [], l_claimed = []\<rparr>"

definition genesis_prefs :: "'x staking_env \<Rightarrow> genesis_config \<Rightarrow> validator_prefs" where
  "genesis_prefs E g = update_prefs E (default_prefs\<lparr>vp_collaborative := \<not> g_disable_collaboration g,
     vp_commission := g_min_commission g\<rparr>)"

text \<open>A state of the genesis in which the accounts may still be bonded.\<close>

definition bondable :: "'x staking_env \<Rightarrow> genesis_config \<Rightarrow> balance \<Rightarrow> ('x \<Rightarrow> account \<Rightarrow> bool)
    \<Rightarrow> (account \<times> account) list \<Rightarrow> 'x staking \<Rightarrow> bool" where
  "bondable E g amount ready vs s \<longleftrightarrow>
     (\<forall>(st, c) \<in> set vs. Bonded s st = None \<and> Ledger s c = None \<and> trusted E amount (st_ext s) st \<and>
        ready (st_ext s) st \<and> is_legit_for_validator E s st \<and> is_legit_for_collab E s st) \<and>
     Cooperators s = Map.empty \<and> MaxValidatorsCount s = None \<and> MinTrustValidatorBond s \<le> amount \<and>
     MinCommission s = g_min_commission g \<and> CurrentEra s = None"

lemma legit_cong:
  "st_rep s = st_rep t \<Longrightarrow> is_legit_for_validator E s = is_legit_for_validator E t"
  "st_rep s = st_rep t \<Longrightarrow> is_legit_for_collab E s = is_legit_for_collab E t"
  by (auto simp: is_legit_for_validator_def is_legit_for_collab_def)

lemma trusted_bond:
  assumes "trusted E amount (st_ext s) st"
  shows "min_bond_for_validator E s st = MinTrustValidatorBond s" "min amount (x_free_balance E (st_ext s) st) = amount"
  using assms by (auto simp: trusted_def min_bond_for_validator_def)

lemma genesis_bond:
  assumes W: "genesis_world E amount ready" and min: "x_minimum_balance E \<le> amount"
    and b: "bondable E g amount ready ((st, c) # vs) s" and d: "st \<notin> fst ` set vs" "c \<notin> snd ` set vs"
  shows "\<exists>s'. bond E (Signed st) c amount ToController s = Inr s' \<and> bondable E g amount ready vs s' \<and>
    trusted E amount (st_ext s') st \<and> is_legit_for_validator E s' st \<and> is_legit_for_collab E s' st \<and>
    Bonded s' = (Bonded s)(st \<mapsto> c) \<and> Ledger s' = (Ledger s)(c \<mapsto> genesis_ledger st amount) \<and>
    Validators s' = Validators s"
proof -
  note W = W [unfolded genesis_world_def] and b = b [unfolded bondable_def]
  obtain y where y: "x_inc_consumers E st (st_ext s) = Some y"
    using W b by (metis (no_types, lifting) case_prodD list.set_intros(1) not_Some_eq)
  have inc: "trusted E amount (st_ext s) a \<Longrightarrow> trusted E amount y a"
    "a \<noteq> st \<Longrightarrow> ready (st_ext s) a \<Longrightarrow> ready y a" for a
    using W y by blast+
  have ty: "trusted E amount y st" using b by (intro inc) simp
  define s1 where "s1 = update_ledger E c (genesis_ledger st amount)
    (st_deposit (EvBonded st amount) (s\<lparr>st_ext := y, Bonded := (Bonded s)(st \<mapsto> c), Payee := (Payee s)(st \<mapsto> ToController)\<rparr>))"
  have bd: "bond E (Signed st) c amount ToController s = Inr s1"
    using W b y min ty
    by (simp add: bond_def s1_def genesis_ledger_def trusted_def min_def)
  have f: "Bonded s1 = (Bonded s)(st \<mapsto> c)" "Ledger s1 = (Ledger s)(c \<mapsto> genesis_ledger st amount)"
    "Validators s1 = Validators s" "st_rep s1 = st_rep s" "Cooperators s1 = Cooperators s"
    "MaxValidatorsCount s1 = MaxValidatorsCount s" "MinTrustValidatorBond s1 = MinTrustValidatorBond s"
    "MinCommission s1 = MinCommission s" "CurrentEra s1 = CurrentEra s"
    by (simp_all add: s1_def update_ledger_def update_active_stake_def st_world_def st_deposit_def Let_def)
  have x: "trusted E amount x a \<Longrightarrow> trusted E amount (x_update_active_stake E f c (x_set_lock E st v x)) a"
    "ready x a \<Longrightarrow> ready (x_update_active_stake E f c (x_set_lock E st v x)) a" for x a v f
    using W by blast+
  have ext: "\<exists>f. st_ext s1 = x_update_active_stake E f c (x_set_lock E st amount y)"
    by (auto simp: s1_def update_ledger_def update_active_stake_def st_world_def st_deposit_def Let_def genesis_ledger_def)
  have keep: "trusted E amount y a \<Longrightarrow> trusted E amount (st_ext s1) a" "ready y a \<Longrightarrow> ready (st_ext s1) a" for a
    using x ext by metis+
  have "bondable E g amount ready vs s1"
    unfolding bondable_def
  proof (intro conjI ballI, goal_cases)
    case (1 p)
    obtain st' c' where p: "p = (st', c')" by (cases p)
    then have "st' \<noteq> st" "c' \<noteq> c" using d 1 by force+
    moreover have "trusted E amount (st_ext s) st'" "ready (st_ext s) st'" using b 1 p by auto
    then have "trusted E amount y st'" "ready y st'" using \<open>st' \<noteq> st\<close> by (auto intro: inc)
    ultimately show ?case using b 1 p keep by (auto simp: f legit_cong [OF f(4)])
  qed (use b f in auto)
  moreover have "is_legit_for_validator E s1 st" "is_legit_for_collab E s1 st"
    using b by (simp_all add: legit_cong [OF f(4)])
  ultimately show ?thesis using bd f(1-3) keep(1) [OF ty] by (intro exI [of _ s1] conjI) assumption+
qed

lemma genesis_validate:
  assumes W: "genesis_world E amount ready" and b: "bondable E g amount ready vs s"
    and l: "Ledger s c = Some (genesis_ledger st amount)"
    and st: "trusted E amount (st_ext s) st" "is_legit_for_validator E s st" "is_legit_for_collab E s st"
  shows "\<exists>s'. validate E (Signed c) (default_prefs\<lparr>vp_collaborative := (\<not> g_disable_collaboration g \<and>
      is_legit_for_collab E s st), vp_commission := g_min_commission g\<rparr>) s = Inr s' \<and>
    bondable E g amount ready vs s' \<and> Bonded s' = Bonded s \<and> Ledger s' = Ledger s \<and>
    Validators s' = (Validators s)(st \<mapsto> genesis_prefs E g)"
proof -
  note W = W [unfolded genesis_world_def] and b' = b [unfolded bondable_def]
  define s1 where "s1 = update_active_stake E st
    (st_deposit (EvValidatorPrefsSet st (genesis_prefs E g)) (do_add_validator st (genesis_prefs E g) s))"
  have v: "validate E (Signed c) (default_prefs\<lparr>vp_collaborative := (\<not> g_disable_collaboration g \<and>
      is_legit_for_collab E s st), vp_commission := g_min_commission g\<rparr>) s = Inr s1"
    using b' l st trusted_bond [OF st(1)]
    by (simp add: validate_def Let_def genesis_ledger_def s1_def genesis_prefs_def update_prefs_def below_max_def
        do_remove_cooperator_def)
  have f: "Bonded s1 = Bonded s" "Ledger s1 = Ledger s" "Validators s1 = (Validators s)(st \<mapsto> genesis_prefs E g)"
    "st_rep s1 = st_rep s" "Cooperators s1 = Cooperators s"
    "MaxValidatorsCount s1 = MaxValidatorsCount s" "MinTrustValidatorBond s1 = MinTrustValidatorBond s"
    "MinCommission s1 = MinCommission s" "CurrentEra s1 = CurrentEra s"
    by (simp_all add: s1_def update_active_stake_def st_world_def st_deposit_def do_add_validator_def)
  have "\<exists>f. st_ext s1 = x_update_active_stake E f st (st_ext s)"
    by (auto simp: s1_def update_active_stake_def st_world_def st_deposit_def do_add_validator_def)
  then have keep: "trusted E amount (st_ext s) a \<Longrightarrow> trusted E amount (st_ext s1) a"
    "ready (st_ext s) a \<Longrightarrow> ready (st_ext s1) a" for a
    using W by metis+
  have "bondable E g amount ready vs s1"
    using b' f keep legit_cong [OF f(4)] by (auto simp: bondable_def)
  then show ?thesis using v f by blast
qed


lemma genesis_validators:
  assumes W: "genesis_world E amount ready" and min: "x_minimum_balance E \<le> amount"
  shows "bondable E g amount ready (map (\<lambda>x. (ak_stash x, ak_controller x)) vs) s \<Longrightarrow>
    distinct (map ak_stash vs) \<Longrightarrow> distinct (map ak_controller vs) \<Longrightarrow>
    (\<And>a. a \<in> ak_stash ` set vs \<Longrightarrow> amount \<le> x_free_balance E (st_ext s) a) \<Longrightarrow>
    \<exists>s'. genesis_stakers E g (validator_stakers amount vs) s = Some s' \<and>
      Bonded s' = Bonded s ++ map_of (map (\<lambda>x. (ak_stash x, ak_controller x)) vs) \<and>
      Ledger s' = Ledger s ++ map_of (map (\<lambda>x. (ak_controller x, genesis_ledger (ak_stash x) amount)) vs) \<and>
      Validators s' = Validators s ++ map_of (map (\<lambda>x. (ak_stash x, genesis_prefs E g)) vs)"
proof (induction vs arbitrary: s)
  case Nil
  then show ?case by (simp add: validator_stakers_def)
next
  case (Cons v vs)
  let ?st = "ak_stash v" and ?c = "ak_controller v" and ?vs = "map (\<lambda>x. (ak_stash x, ak_controller x)) vs"
  have "?st \<notin> fst ` set ?vs" "?c \<notin> snd ` set ?vs" using Cons.prems(2,3) by (auto simp: image_image)
  then obtain s1 where s1: "bond E (Signed ?st) ?c amount ToController s = Inr s1" "bondable E g amount ready ?vs s1"
    "trusted E amount (st_ext s1) ?st" "is_legit_for_validator E s1 ?st" "is_legit_for_collab E s1 ?st"
    "Bonded s1 = (Bonded s)(?st \<mapsto> ?c)" "Ledger s1 = (Ledger s)(?c \<mapsto> genesis_ledger ?st amount)"
    "Validators s1 = Validators s"
    using genesis_bond [OF W min, of g ?st ?c ?vs s] Cons.prems(1) by auto
  obtain s2 where s2: "validate E (Signed ?c) (default_prefs\<lparr>vp_collaborative := (\<not> g_disable_collaboration g \<and>
      is_legit_for_collab E s1 ?st), vp_commission := g_min_commission g\<rparr>) s1 = Inr s2"
    "bondable E g amount ready ?vs s2" "Bonded s2 = Bonded s1" "Ledger s2 = Ledger s1"
    "Validators s2 = (Validators s1)(?st \<mapsto> genesis_prefs E g)"
    using genesis_validate [OF W s1(2) _ s1(3-5), of ?c] s1(7) by auto
  have funds: "amount \<le> x_free_balance E (st_ext s) ?st" by (rule Cons.prems(4)) simp
  have one: "genesis_staker E g (?st, ?c, amount, IsValidator) s = Some s2"
    using funds s1(1) s2(1) by (simp add: genesis_staker_def Let_def)
  have "amount \<le> x_free_balance E (st_ext s2) a" if "a \<in> ak_stash ` set vs" for a
    using s2(2) that by (auto simp: bondable_def trusted_def)
  then obtain s' where s': "genesis_stakers E g (validator_stakers amount vs) s2 = Some s'"
    "Bonded s' = Bonded s2 ++ map_of ?vs"
    "Ledger s' = Ledger s2 ++ map_of (map (\<lambda>x. (ak_controller x, genesis_ledger (ak_stash x) amount)) vs)"
    "Validators s' = Validators s2 ++ map_of (map (\<lambda>x. (ak_stash x, genesis_prefs E g)) vs)"
    using Cons.IH [OF s2(2)] Cons.prems(2,3) by auto
  have swap: "m(k \<mapsto> w) ++ map_of (map (\<lambda>x. (h x, f x)) vs) = m ++ (map_of (map (\<lambda>x. (h x, f x)) vs))(k \<mapsto> w)"
    if "k \<notin> h ` set vs" for m k w h f
  proof -
    have "map_of (map (\<lambda>x. (h x, f x)) vs) k = None" using that by (auto simp: map_of_eq_None_iff image_image)
    then show ?thesis by (auto simp: map_add_def fun_eq_iff split: option.splits)
  qed
  show ?case
    using one s' Cons.prems(2,3)
    by (simp add: validator_stakers_def s2(3-5) s1(6-8) swap)
      (auto simp: map_add_def fun_eq_iff split: option.splits)
qed

section \<open>The validators start\<close>

lemma rep_genesis_lookup:
  "(\<forall>(b, r) \<in> set xs. r = rec) \<Longrightarrow> a \<in> fst ` set xs \<or> AccountReputation s a = Some rec \<Longrightarrow>
    AccountReputation (rep_genesis_build xs s) a = Some rec"
proof (induction xs arbitrary: s)
  case (Cons x xs)
  obtain b r where x: "x = (b, r)" by (cases x)
  have "AccountReputation (rep_genesis_build xs (rep_insert b r s)) a = Some rec"
    using Cons.prems by (intro Cons.IH) (auto simp: x rep_insert_def)
  then show ?case by (simp add: x rep_genesis_build_def)
qed (auto simp: rep_genesis_build_def)

lemma reputation_config_lookup:
  assumes "v \<in> set vs"
  shows "AccountReputation (rep_genesis_build (reputation_config X (validator_stakers amount vs)) s) (ak_stash v) =
    Some (record_from_points (sx_libm X) COLLABORATIVE_VALIDATOR_REPUTATION_THRESHOLD)"
  by (rule rep_genesis_lookup) (use assms in \<open>auto simp: reputation_config_def validator_stakers_def image_UN\<close>)

lemma sum_stakes_validators:
  assumes "length vs * amount < 2 ^ 128"
  shows "sum_stakes (validator_stakers amount vs) = length vs * amount"
proof -
  have "foldl (\<lambda>acc p. add_w 128 acc (fst (snd (snd p)))) 0 (validator_stakers amount vs) =
      0 + sum_list (map (\<lambda>p. fst (snd (snd p))) (validator_stakers amount vs))"
    using assms by (intro foldl_add_w) (simp add: validator_stakers_def comp_def sum_list_triv max_w_def)
  moreover have "(\<lambda>acc (_, _, stake, _). add_w 128 acc stake) =
      (\<lambda>acc (p :: account \<times> account \<times> balance \<times> staker_status). add_w 128 acc (fst (snd (snd p))))"
    by (simp add: fun_eq_iff case_prod_beta)
  ultimately show ?thesis
    by (simp add: sum_stakes_def validator_stakers_def comp_def sum_list_triv)
qed

definition started :: "'x staking \<Rightarrow> authority_keys list \<Rightarrow> balance \<Rightarrow> nat \<Rightarrow> bool \<Rightarrow> bool" where
  "started s vs amount commission collaborative \<longleftrightarrow> dom (Validators s) = ak_stash ` set vs \<and>
     (\<forall>v \<in> set vs. Bonded s (ak_stash v) = Some (ak_controller v) \<and>
        Ledger s (ak_controller v) = Some (genesis_ledger (ak_stash v) amount) \<and>
        (\<exists>p. Validators s (ak_stash v) = Some p \<and> vp_commission p = commission \<and> vp_collaborative p = collaborative))"

lemma map_of_keys: "distinct (map h vs) \<Longrightarrow> v \<in> set vs \<Longrightarrow> map_of (map (\<lambda>x. (h x, f x)) vs) (h v) = Some (f v)"
  by (induction vs) (auto simp: rev_image_eqI)

lemma staking_starts:
  assumes W: "genesis_world E amount ready" and min: "x_minimum_balance E \<le> amount"
    and L: "libm_accurate (sx_libm X)" and tiers: "c_validator_tier E = Vanguard 1" "c_collab_tier E = Vanguard 1"
    and d: "distinct (map ak_stash vs)" "distinct (map ak_controller vs)"
    and x: "\<forall>v \<in> set vs. trusted E amount x (ak_stash v) \<and> ready x (ak_stash v)"
    and g: "g_stakers g = validator_stakers amount vs" "g_max_validator_count g = None"
      "g_min_trust_validator_bond g \<le> amount"
  shows "\<exists>s. staking_genesis E g (rep_genesis_build (reputation_config X (validator_stakers amount vs)) rep_empty) x = Some s
    \<and> started s vs amount (g_min_commission g) (\<not> g_disable_collaboration g)"
proof -
  let ?R = "rep_genesis_build (reputation_config X (validator_stakers amount vs)) rep_empty"
  let ?s = "genesis_storage g ?R x" and ?vs = "map (\<lambda>x. (ak_stash x, ak_controller x)) vs"
  have legit: "tier_at_least (Vanguard 1) ?R (ak_stash v)" if "v \<in> set vs" for v
    using threshold_tier [OF L] reputation_config_lookup [OF that, of X amount rep_empty]
    by (simp add: tier_at_least_def)
  have "bondable E g amount ready ?vs ?s"
    using x g legit tiers
    by (auto simp: bondable_def genesis_storage_def is_legit_for_validator_def is_legit_for_collab_def)
  moreover have "\<And>a. a \<in> ak_stash ` set vs \<Longrightarrow> amount \<le> x_free_balance E (st_ext ?s) a"
    using x by (auto simp: genesis_storage_def trusted_def)
  ultimately obtain s where s: "genesis_stakers E g (validator_stakers amount vs) ?s = Some s"
    "Bonded s = Bonded ?s ++ map_of ?vs"
    "Ledger s = Ledger ?s ++ map_of (map (\<lambda>x. (ak_controller x, genesis_ledger (ak_stash x) amount)) vs)"
    "Validators s = Validators ?s ++ map_of (map (\<lambda>x. (ak_stash x, genesis_prefs E g)) vs)"
    using genesis_validators [OF W min _ d, of g ?s] by blast
  have empty: "Bonded ?s = Map.empty" "Ledger ?s = Map.empty" "Validators ?s = Map.empty"
    by (simp_all add: genesis_storage_def)
  have "started s vs amount (g_min_commission g) (\<not> g_disable_collaboration g)"
    unfolding started_def s(2-4) empty
    by (auto simp: map_of_keys [OF d(1)] map_of_keys [OF d(2)] dom_map_of_conv_image_fst image_image
        genesis_prefs_def update_prefs_def)
  then show ?thesis using s(1) g(1) by (auto simp: staking_genesis_def)
qed

text \<open>C33. The staking pallet's genesis succeeds on the configuration of the main networks and on that of the
  test networks (without initial cooperators): every initial validator is bonded with one unit to its
  controller and validates, on the main networks with a commission of a fifth and closed to cooperators,
  on the test networks without commission and open to them; and the total stake that the dynamic energy
  pallet starts with is what the ledgers hold.\<close>

theorem genesis_validators_start:
  assumes "E = runtime_staking_env fast E0" and "genesis_world E UNITS ready" and "libm_accurate (sx_libm X)"
    and "distinct (map ak_stash vs)" "distinct (map ak_controller vs)" "length vs < 2 ^ 32"
    and "\<forall>v \<in> set vs. trusted E UNITS x (ak_stash v) \<and> ready x (ak_stash v)"
    and "genesis = mainnet_genesis X D root_key vs invulnerables \<and> mainnet \<or>
      testnet_genesis X D G g root_key endowed vs [] chain_id = Some genesis \<and> \<not> mainnet"
  shows "(\<exists>s. staking_genesis E (rg_staking genesis) (rep_genesis_build (rg_reputation genesis) rep_empty) x = Some s
      \<and> started s vs UNITS (if mainnet then 200000000 else 0) (\<not> mainnet))
    \<and> rg_total_stake genesis = length vs * UNITS"
proof -
  have E: "x_minimum_balance E \<le> UNITS" "c_validator_tier E = Vanguard 1" "c_collab_tier E = Vanguard 1"
    by (simp_all add: assms(1) runtime_staking_env_def staking_consts unit_defs)
  have g: "rg_reputation genesis = reputation_config X (validator_stakers UNITS vs)"
    "rg_total_stake genesis = sum_stakes (validator_stakers UNITS vs)"
    "g_stakers (rg_staking genesis) = validator_stakers UNITS vs"
    "g_max_validator_count (rg_staking genesis) = None" "g_min_trust_validator_bond (rg_staking genesis) \<le> UNITS"
    "g_min_commission (rg_staking genesis) = (if mainnet then 200000000 else 0)"
    "g_disable_collaboration (rg_staking genesis) = mainnet"
    using assms(8)
    by (auto simp: mainnet_genesis_def testnet_genesis_def Let_def default_staking_config_def MAINNET_STASH_def
        TESTNET_STASH_def TESTNET_ENDOWMENT_def MIN_TRUST_VALIDATOR_BOND_def)
  have "length vs * UNITS < 2 ^ 32 * 2 ^ 64" using assms(6) by (intro mult_strict_mono) (simp_all add: UNITS_def)
  then have "sum_stakes (validator_stakers UNITS vs) = length vs * UNITS" by (intro sum_stakes_validators) simp
  then show ?thesis
    using staking_starts [OF assms(2) E(1) assms(3) E(2,3) assms(4,5,7) g(3-5)] unfolding g by simp
qed

definition demo_start_env :: "(account \<Rightarrow> balance) staking_env" where
  "demo_start_env = runtime_staking_env False (demo_env\<lparr>x_nac_level := \<lambda>_ _. Some 2\<rparr>)"

definition demo_spec :: spec_env where
  "demo_spec = \<lparr>k_sr25519 = length, k_ed25519 = length, k_ecdsa = length, k_into_account = id,
     sx_pallet_account = length, sx_claim_account = 7, sx_libm = libm_exact, sx_max_code_size = 3145728,
     sx_max_pov_size = 5242880\<rparr>"

definition demo_chain_data :: chain_data where
  "demo_chain_data = \<lparr>cd_claims = [(eth_hex 1, 1246174757580000000000000)],
     cd_vesting = [(0x92a2b9249eeda86eccae8fdc0d94a87c85bf6654, 5333333000000000000000000, 12, 12)],
     cd_vnode = [0x92a2b9249eeda86eccae8fdc0d94a87c85bf6654]\<rparr>"

definition demo_rng :: "nat rng" where
  "demo_rng = \<lparr>rg_gen = \<lambda>g. (g, g + 1), rg_choose_multiple = \<lambda>xs n g. (take n xs, g + 1)\<rparr>"

lemma mainnet_keys_distinct:
  "distinct (map ak_stash mainnet_validators)" "distinct (map ak_controller mainnet_validators)"
  by (simp_all add: mainnet_validators_def mainnet_validator_1_keys_def mainnet_validator_2_keys_def
      mainnet_validator_3_keys_def mainnet_validator_4_keys_def mainnet_validator_5_keys_def)

lemma demo_start_world: "genesis_world demo_start_env UNITS (\<lambda>_ _. True)"
  by (simp add: genesis_world_def demo_start_env_def runtime_staking_env_def demo_env_def trusted_def)

theorem genesis_validators_start_witness:
  "\<exists>s. staking_genesis demo_start_env (rg_staking (cs_genesis (mainnet_config demo_spec demo_chain_data)))
      (rep_genesis_build (rg_reputation (cs_genesis (mainnet_config demo_spec demo_chain_data))) rep_empty)
      (\<lambda>_. UNITS) = Some s \<and> started s mainnet_validators UNITS 200000000 False"
proof -
  have "\<forall>v \<in> set mainnet_validators. trusted demo_start_env UNITS (\<lambda>_. UNITS) (ak_stash v) \<and> True"
    by (simp add: trusted_def demo_start_env_def runtime_staking_env_def demo_env_def UNITS_def max_w_def)
  moreover have "length mainnet_validators < 2 ^ 32" by (simp add: mainnet_validators_def)
  moreover have "libm_accurate (sx_libm demo_spec)" by (simp add: demo_spec_def libm_exact_accurate)
  ultimately show ?thesis
    using genesis_validators_start [of demo_start_env False _ "\<lambda>_ _. True" demo_spec mainnet_validators
        "\<lambda>_. UNITS" "cs_genesis (mainnet_config demo_spec demo_chain_data)" demo_chain_data mainnet_root "[]" True]
      mainnet_keys_distinct demo_start_world
    by (auto simp: demo_start_env_def mainnet_config_def)
qed

section \<open>Unique accounts and keys\<close>

lemma endow_spec:
  "set (endow xs ys) = set xs \<union> set ys" "distinct xs \<Longrightarrow> distinct (endow xs ys)"
  "\<exists>zs. endow xs ys = xs @ zs"
proof (induction ys rule: rev_induct)
  case (snoc y ys)
  { case 1 then show ?case using snoc by (auto simp: endow_def) }
  { case 2 then show ?case using snoc by (auto simp: endow_def) }
  { case 3 then show ?case using snoc by (auto simp: endow_def) }
qed (simp_all add: endow_def)

text \<open>No two validators share a key of any kind: the session pallet refuses duplicate keys.\<close>

definition keys_unique :: "(account \<times> account \<times> session_keys) list \<Rightarrow> bool" where
  "keys_unique ks \<longleftrightarrow> distinct (map fst ks) \<and> distinct (map (fst \<circ> snd) ks) \<and>
     (\<forall>f \<in> set [sk_grandpa, sk_babe, sk_im_online, sk_para_validator, sk_para_assignment,
        sk_authority_discovery, sk_beefy]. distinct (map (f \<circ> snd \<circ> snd) ks))"

lemmas listed_keys = testnet_validator_1_keys_def testnet_validator_2_keys_def testnet_validator_3_keys_def
  testnet_validator_1_def testnet_validator_2_def testnet_validator_3_def testnet_root_def testnet_account_1_def
  testnet_account_2_def testnet_account_3_def

lemma session_keys_unique:
  "keys_unique (session_config mainnet_validators)"
  "keys_unique (session_config [testnet_validator_1_keys, testnet_validator_2_keys, testnet_validator_3_keys])"
  by (simp_all add: keys_unique_def session_config_def session_keys_of_def listed_keys mainnet_validators_def
      mainnet_validator_1_keys_def mainnet_validator_2_keys_def mainnet_validator_3_keys_def
      mainnet_validator_4_keys_def mainnet_validator_5_keys_def)

text \<open>A network that starts from \<open>testnet_genesis\<close> has an account list without duplicates (the balances
  pallet refuses them) that holds every account it was given and the stash and the controller of every
  validator, all with the same endowment, and its council and technical committee share no member; and the
  validators of every network with listed keys share no session key.\<close>

theorem genesis_accounts_unique:
  assumes "testnet_genesis X D G g root_key endowed vs cs chain_id = Some genesis" and "distinct endowed"
  shows "distinct (map fst (rg_balances genesis)) \<and>
    set (rg_balances genesis) =
      (set endowed \<union> ak_stash ` set vs \<union> ak_controller ` set vs \<union> set cs) \<times> {1000000 * UNITS} \<and>
    set (rg_council genesis) \<inter> set (rg_technical_committee genesis) = {} \<and>
    keys_unique (session_config mainnet_validators) \<and>
    keys_unique (session_config [testnet_validator_1_keys, testnet_validator_2_keys, testnet_validator_3_keys])"
proof -
  let ?all = "endow endowed (concat (map (\<lambda>x. [ak_stash x, ak_controller x]) vs) @ concat (map (\<lambda>x. [x, x]) cs))"
  have g: "rg_balances genesis = map (\<lambda>k. (k, 1000000 * UNITS)) ?all" "rg_council genesis = take 3 ?all"
    "rg_technical_committee genesis = take 3 (drop 3 ?all)"
    using assms(1) by (auto simp: testnet_genesis_def Let_def TESTNET_ENDOWMENT_def)
  have d: "distinct ?all" by (rule endow_spec(2) [OF assms(2)])
  have "set (take 3 ?all) \<inter> set (take 3 (drop 3 ?all)) = {}"
    using set_take_disj_set_drop_if_distinct [OF d order_refl, of 3] set_take_subset [of 3 "drop 3 ?all"] by blast
  moreover have "set ?all = set endowed \<union> ak_stash ` set vs \<union> ak_controller ` set vs \<union> set cs"
    by (auto simp: endow_spec(1))
  moreover have "set (map (\<lambda>k. (k, 1000000 * UNITS)) ?all) = set ?all \<times> {1000000 * UNITS}" by auto
  moreover have "map fst (map (\<lambda>k. (k, 1000000 * UNITS)) ?all) = ?all" by (simp add: comp_def)
  ultimately show ?thesis unfolding g using d session_keys_unique by simp
qed

theorem genesis_accounts_unique_witness:
  "\<exists>spec. testnet_config demo_spec demo_chain_data demo_rng (0 :: nat) = Some spec \<and>
     distinct (map fst (rg_balances (cs_genesis spec))) \<and>
     (ak_controller testnet_validator_2_keys, 1000000 * UNITS) \<in> set (rg_balances (cs_genesis spec))"
proof -
  let ?e = "[testnet_root, testnet_account_1, testnet_account_2, testnet_account_3]"
    and ?v = "[testnet_validator_1_keys, testnet_validator_2_keys, testnet_validator_3_keys]"
  obtain genesis where g: "testnet_genesis demo_spec demo_chain_data demo_rng (0 :: nat) testnet_root ?e ?v [] SS58Prefix
      = Some genesis"
    by (auto simp: testnet_genesis_def Let_def)
  have "distinct ?e" by (simp add: listed_keys)
  from genesis_accounts_unique [OF g this] g show ?thesis by (auto simp: testnet_config_def)
qed

section \<open>Claims\<close>

lemma genesis_claims_total:
  "distinct (map fst cs) \<Longrightarrow> \<forall>a \<in> fst ` set cs. Claims t a = None \<Longrightarrow>
    \<exists>t'. genesis_claims cs t = Some t' \<and> cl_Vesting t' = cl_Vesting t"
proof (induction cs arbitrary: t)
  case (Cons c cs)
  obtain a v where c: "c = (a, v)" by (cases c)
  let ?t = "t\<lparr>Claims := (Claims t)(a \<mapsto> v)\<rparr>"
  have "\<forall>b \<in> fst ` set cs. Claims ?t b = None" using Cons.prems c by auto
  from Cons.IH [OF _ this] show ?case using Cons.prems c by auto
qed simp

lemma genesis_vesting_lookup:
  "cl_Vesting (genesis_vesting vs t) a = Some x \<Longrightarrow> (a, x) \<in> set vs \<or> cl_Vesting t a = Some x"
proof (induction vs arbitrary: t)
  case (Cons p vs)
  obtain b y where p: "p = (b, y)" by (cases p)
  from Cons show ?case by (fastforce simp: p genesis_vesting_def split: if_splits)
qed (simp add: genesis_vesting_def)

lemma push_claims:
  "cc_claims (foldl push_claim config xs) = cc_claims config @ map (\<lambda>(a, v, _). (a, v)) xs"
  by (induction xs arbitrary: config) (auto simp: push_claim_def Let_def split: prod.splits option.splits)

definition vesting_of :: "eth_address \<times> balance \<times> (balance option \<times> nat \<times> nat) option \<Rightarrow> (eth_address \<times> schedule) list" where
  "vesting_of entry = cc_vesting (push_claim \<lparr>cc_claims = [], cc_vesting = []\<rparr> entry)"

lemma config_claims:
  "cc_claims (genesis_claiming_config D) = cd_claims D @ map (\<lambda>(a, v, _). (a, v)) listed_claims"
  by (simp add: genesis_claiming_config_def push_claims)

lemma push_vestings: "cc_vesting (foldl push_claim config xs) = cc_vesting config @ concat (map vesting_of xs)"
proof (induction xs arbitrary: config)
  case (Cons x xs)
  have "cc_vesting (push_claim config x) = cc_vesting config @ vesting_of x"
    by (auto simp: push_claim_def vesting_of_def Let_def split: prod.splits option.splits)
  then show ?case by (simp add: Cons.IH)
qed simp

text \<open>A vesting of a listed claim: within the claim, from the first year on, over one year of blocks.\<close>

definition vesting_fits :: "balance \<Rightarrow> schedule \<Rightarrow> bool" where
  "vesting_fits amount v \<longleftrightarrow> (case v of (locked, per_block, start) \<Rightarrow>
     locked \<le> amount \<and> 0 < per_block \<and> per_block * YEARS \<le> locked \<and> locked < (per_block + 1) * YEARS \<and> start = YEARS)"

lemma listed_vestings_fit:
  "\<forall>(a, amount, v) \<in> set listed_claims. \<forall>(b, x) \<in> set (vesting_of (a, amount, v)). b = a \<and> vesting_fits amount x"
  by (simp add: listed_claims_def vesting_of_def push_claim_def vesting_fits_def time_values mul_w_def)

lemma claiming_balance_exact:
  "15000000 * UNITS + sum_list (map snd cs) \<le> max_w 128 \<Longrightarrow>
    foldl (\<lambda>total claim. sat_add 128 total (snd claim)) (15000000 * UNITS) cs = 15000000 * UNITS + sum_list (map snd cs)"
proof -
  have "a + sum_list (map snd cs) \<le> max_w 128 \<Longrightarrow>
      foldl (\<lambda>total claim. sat_add 128 total (snd claim)) a cs = a + sum_list (map snd cs)" for a
    by (induction cs arbitrary: a) (simp_all add: sat_add_def)
  then show "15000000 * UNITS + sum_list (map snd cs) \<le> max_w 128 \<Longrightarrow> ?thesis" by blast
qed

text \<open>C35. Whenever the generated claims have distinct addresses, none of them a listed one, the claiming
  pallet's genesis accepts the configuration; every vesting it stores belongs to a claim, locks at most the
  claim, and unlocks over one year of blocks from the first year on; and the claim account starts with
  fifteen million units more than all claims together.\<close>

theorem genesis_claims_funded:
  assumes "distinct (map fst (cd_claims D @ map (\<lambda>(a, v, _). (a, v)) listed_claims))"
    and "Claims s0 = Map.empty" "cl_Vesting s0 = Map.empty"
    and "config = genesis_claiming_config D"
    and "15000000 * UNITS + sum_list (map snd (cc_claims config)) \<le> max_w 128"
  shows "\<exists>s. claiming_genesis (cc_claims config) (cc_vesting config) s0 = Some s \<and>
    (\<forall>a v. cl_Vesting s a = Some v \<longrightarrow> (\<exists>amount. Claims s a = Some amount \<and> vesting_fits amount v)) \<and>
    (sx_claim_account X, 15000000 * UNITS + sum_list (map snd (cc_claims config)))
      \<in> set (rg_balances (mainnet_genesis X D root_key vs invulnerables))"
proof -
  have claims: "cc_claims config = cd_claims D @ map (\<lambda>(a, v, _). (a, v)) listed_claims"
    and vest: "cc_vesting config = concat (map vesting_of listed_claims)"
    by (simp_all add: assms(4) config_claims) (simp add: genesis_claiming_config_def push_vestings)
  have d: "distinct (map fst (cc_claims config))" using assms(1) by (simp only: claims)
  obtain t where t: "genesis_claims (cc_claims config) s0 = Some t" "cl_Vesting t = Map.empty"
    using genesis_claims_total [OF d, of s0] assms(2,3) by auto
  let ?s = "genesis_vesting (cc_vesting config) t"
  have "\<exists>amount. Claims ?s a = Some amount \<and> vesting_fits amount v" if "cl_Vesting ?s a = Some v" for a v
  proof -
    have "(a, v) \<in> set (cc_vesting config)" using genesis_vesting_lookup [OF that] t(2) by simp
    then obtain b amount w where l: "(b, amount, w) \<in> set listed_claims" "(a, v) \<in> set (vesting_of (b, amount, w))"
      by (auto simp: vest)
    then have "a = b" "vesting_fits amount v" using listed_vestings_fit by fastforce+
    moreover have "(b, amount) \<in> set (cc_claims config)" using l(1) by (force simp: claims)
    then have "Claims t b = Some amount"
      using genesis_claims_Some [OF t(1)] assms(2) d by simp
    ultimately show ?thesis by simp
  qed
  moreover have "claiming_balance config = 15000000 * UNITS + sum_list (map snd (cc_claims config))"
    unfolding claiming_balance_def by (rule claiming_balance_exact [OF assms(5)])
  ultimately show ?thesis
    using t(1) by (auto simp: claiming_genesis_def mainnet_genesis_def Let_def assms(4))
qed

lemma listed_addresses_distinct: "distinct (map fst (cd_claims demo_chain_data @ map (\<lambda>(a, v, _). (a, v)) listed_claims))"
  by (simp add: listed_claims_def demo_chain_data_def eth_hex_def upt_rec)

theorem genesis_claims_funded_witness:
  "(7, 15000000 * UNITS + sum_list (map snd (cc_claims (genesis_claiming_config demo_chain_data))))
     \<in> set (rg_balances (cs_genesis (mainnet_config demo_spec demo_chain_data)))"
proof -
  let ?s0 = "\<lparr>Claims = Map.empty, cl_Vesting = Map.empty, ClaimsData = Map.empty, cl_events = [], cl_ext = ()\<rparr>"
  have "15000000 * UNITS + sum_list (map snd (cc_claims (genesis_claiming_config demo_chain_data))) \<le> max_w 128"
    unfolding config_claims by (simp add: listed_claims_def demo_chain_data_def UNITS_def max_w_def)
  then show ?thesis
    using genesis_claims_funded [OF listed_addresses_distinct, of ?s0 _ demo_spec mainnet_root mainnet_validators "[]"]
    by (auto simp: mainnet_config_def) (simp add: demo_spec_def)
qed

section \<open>Vesting\<close>

text \<open>What the vesting pallet's genesis needs of the currency: a reserve within the free balance succeeds
  and touches no other account.\<close>

definition vesting_world :: "'x vesting_env \<Rightarrow> bool" where
  "vesting_world V \<longleftrightarrow> v_convert V = (\<lambda>n. n) \<and>
     (\<forall>x a. vx_free V (vx_inc_providers V a x) = vx_free V x) \<and>
     (\<forall>x a v. v \<le> vx_free V x a \<longrightarrow> (\<exists>y. vx_reserve_named V a v x = Inr y)) \<and>
     (\<forall>x a v y b. vx_reserve_named V a v x = Inr y \<longrightarrow> b \<noteq> a \<longrightarrow> vx_free V y b = vx_free V x b)"

lemma vesting_genesis_entries:
  assumes V: "vesting_world V"
  shows "distinct (map fst es) \<Longrightarrow>
    (\<forall>(a, begin', len, liquid) \<in> set es. 0 < len \<and> liquid = 0 \<and> len \<le> vx_free V (ve_ext s) a) \<Longrightarrow>
    \<exists>s'. vesting_genesis V es s = Some s' \<and> (\<forall>a. a \<notin> fst ` set es \<longrightarrow> Vesting s' a = Vesting s a) \<and>
      (\<forall>(a, begin', len, liquid) \<in> set es. Vesting s' a =
         Some (vesting_info_new (vx_free V (ve_ext s) a) (vx_free V (ve_ext s) a div len) begin'))"
proof (induction es arbitrary: s)
  case (Cons e es)
  note V = V [unfolded vesting_world_def]
  obtain a begin' len liquid where e: "e = (a, begin', len, liquid)" by (cases e)
  let ?f = "vx_free V (ve_ext s) a"
  have c: "0 < len" "liquid = 0" "len \<le> ?f" using Cons.prems(2) e by auto
  then have pos: "0 < ?f" "0 < ?f div len" by (simp_all add: div_greater_zero_iff)
  let ?s1 = "s\<lparr>Vesting := (Vesting s)(a \<mapsto> vesting_info_new ?f (?f div len) begin'),
    ve_ext := vx_inc_providers V a (ve_ext s)\<rparr>"
  have "?f \<le> vx_free V (vx_inc_providers V a (ve_ext s)) a" using V by simp
  then obtain y where y: "vx_reserve_named V a ?f (ve_ext ?s1) = Inr y" using V by fastforce
  let ?s2 = "?s1\<lparr>ve_ext := y\<rparr>"
  have one: "genesis_vesting_entry V e s = Some ?s2"
    using V c(2) pos y max_absorb1 [of 1 len] c(1)
    by (simp add: genesis_vesting_entry_def e vi_is_valid_def vesting_info_new_def Let_def)
  have free: "vx_free V y b = vx_free V (ve_ext s) b" if "b \<noteq> a" for b using V y that by auto
  have na: "a \<notin> fst ` set es" using Cons.prems(1) e by simp
  then have "\<forall>(b, begin', len, liquid) \<in> set es. 0 < len \<and> liquid = 0 \<and> len \<le> vx_free V (ve_ext ?s2) b"
    using Cons.prems(2) free by fastforce
  then obtain s' where s': "vesting_genesis V es ?s2 = Some s'"
    "\<forall>b. b \<notin> fst ` set es \<longrightarrow> Vesting s' b = Vesting ?s2 b"
    "\<forall>(b, begin', len, liquid) \<in> set es. Vesting s' b =
       Some (vesting_info_new (vx_free V y b) (vx_free V y b div len) begin')"
    using Cons.IH [of ?s2] Cons.prems(1) by auto
  have "\<forall>(b, begin', len, liquid) \<in> set es. Vesting s' b =
       Some (vesting_info_new (vx_free V (ve_ext s) b) (vx_free V (ve_ext s) b div len) begin')"
    using s'(3) na free by fastforce
  then show ?case using one s' na by (auto simp: e)
qed simp

text \<open>C34. The vesting pallet's genesis accepts the main network's table whenever its accounts are distinct
  and hold the amounts that the same table gives them, at least a unit a block; the account's schedule then
  locks the whole amount until the given month, and after the given number of months at most the remainder
  of the division is left.\<close>

theorem genesis_vesting_schedules:
  assumes "vesting_world V" and "distinct (map fst (cd_vesting D))"
    and "\<forall>(a, amount, start, period) \<in> set (cd_vesting D). amount < 2 ^ 128 \<and> vx_free V (ve_ext s0) a = amount \<and>
      0 < period \<and> start * MONTHS < 2 ^ 32 \<and> period * MONTHS < 2 ^ 32 \<and> period * MONTHS \<le> amount"
  shows "\<exists>s. vesting_genesis V (rg_simple_vesting (mainnet_genesis X D root_key vs invulnerables)) s0 = Some s \<and>
    (\<forall>(a, amount, start, period) \<in> set (cd_vesting D). (a, amount) \<in> set (rg_balances (mainnet_genesis X D root_key vs invulnerables))
      \<and> (\<exists>i. Vesting s a = Some i \<and> (\<forall>n \<le> start * MONTHS. locked_at (v_convert V) i n = amount) \<and>
        (\<forall>n \<ge> start * MONTHS + period * MONTHS. locked_at (v_convert V) i n \<le> amount mod (period * MONTHS))))"
proof -
  have conv: "v_convert V = (\<lambda>n. n)" using assms(1) by (simp add: vesting_world_def)
  have M: "MONTHS = 438300" by (rule time_values)
  have cfg: "rg_simple_vesting (mainnet_genesis X D root_key vs invulnerables) = simple_vesting_config D"
    by (simp add: mainnet_genesis_def Let_def)
  have d: "distinct (map fst (simple_vesting_config D))"
    using assms(2) by (simp add: simple_vesting_config_def comp_def case_prod_beta)
  have pre: "\<forall>(a, begin', len, liquid) \<in> set (simple_vesting_config D). 0 < len \<and> liquid = 0 \<and> len \<le> vx_free V (ve_ext s0) a"
    using assms(3) by (auto simp: simple_vesting_config_def mul_w_def M)
  obtain s where s: "vesting_genesis V (simple_vesting_config D) s0 = Some s"
    "\<forall>(a, begin', len, liquid) \<in> set (simple_vesting_config D). Vesting s a =
       Some (vesting_info_new (vx_free V (ve_ext s0) a) (vx_free V (ve_ext s0) a div len) begin')"
    using vesting_genesis_entries [OF assms(1) d pre] by blast
  have "(\<exists>i. Vesting s a = Some i \<and> (\<forall>n \<le> start * MONTHS. locked_at (v_convert V) i n = amount) \<and>
      (\<forall>n \<ge> start * MONTHS + period * MONTHS. locked_at (v_convert V) i n \<le> amount mod (period * MONTHS)))"
    if e: "(a, amount, start, period) \<in> set (cd_vesting D)" for a amount start period
  proof -
    from assms(3) e have h: "amount < 2 ^ 128" "vx_free V (ve_ext s0) a = amount" "0 < period * MONTHS"
      "start * MONTHS < 2 ^ 32" "period * MONTHS < 2 ^ 32" "period * MONTHS \<le> amount" by (auto simp: M)
    let ?len = "period * MONTHS" and ?i = "vesting_info_new amount (amount div (period * MONTHS)) (start * MONTHS)"
    have "(a, start * MONTHS, ?len, 0) \<in> set (simple_vesting_config D)"
      using e h(4,5) by (force simp: simple_vesting_config_def mul_w_def)
    then have i: "Vesting s a = Some ?i" using s(2) h(2) by fastforce
    have "0 < amount div ?len" using h(3,6) by (simp add: div_greater_zero_iff)
    moreover have "0 < amount" using h(3,6) by linarith
    ultimately have valid: "vi_is_valid ?i" by (simp add: vi_is_valid_def vesting_info_new_def)
    have exact: "locked_at (v_convert V) ?i n = amount - (n - start * MONTHS) * (amount div ?len)" for n
      using locked_at_exact [OF _ valid, of "v_convert V" n] h(1) by (simp add: conv vesting_info_new_def)
    have "amount - (n - start * MONTHS) * (amount div ?len) \<le> amount mod ?len" if "start * MONTHS + ?len \<le> n" for n
    proof -
      have "?len * (amount div ?len) \<le> (n - start * MONTHS) * (amount div ?len)"
        using that by (intro mult_le_mono1) linarith
      moreover have "amount - ?len * (amount div ?len) = amount mod ?len" by (rule minus_mult_div_eq_mod)
      ultimately show ?thesis by linarith
    qed
    then show ?thesis using i by (intro exI [of _ ?i]) (simp add: exact)
  qed
  moreover have "(a, amount) \<in> set (rg_balances (mainnet_genesis X D root_key vs invulnerables))"
    if "(a, amount, start, period) \<in> set (cd_vesting D)" for a amount start period
    using that by (force simp: mainnet_genesis_def Let_def vested_balance_def)
  ultimately show ?thesis unfolding cfg using s(1) by blast
qed

theorem genesis_vesting_schedules_witness:
  "\<exists>s. vesting_genesis demo_vesting_env (rg_simple_vesting (cs_genesis (mainnet_config demo_spec demo_chain_data)))
      (demo_vesting\<lparr>ve_ext := (\<lambda>_. 5333333000000000000000000, \<lambda>_. 0)\<rparr>) = Some s \<and>
    Vesting s 0x92a2b9249eeda86eccae8fdc0d94a87c85bf6654 \<noteq> None"
proof -
  have V: "vesting_world demo_vesting_env"
    by (auto simp: vesting_world_def demo_vesting_env_def split: if_splits)
  have d: "distinct (map fst (cd_vesting demo_chain_data))" by (simp add: demo_chain_data_def)
  let ?s = "demo_vesting\<lparr>ve_ext := (\<lambda>_. 5333333000000000000000000, \<lambda>_. 0)\<rparr>"
  have "\<forall>(a, amount, start, period) \<in> set (cd_vesting demo_chain_data). amount < 2 ^ 128 \<and>
      vx_free demo_vesting_env (ve_ext ?s) a = amount \<and> 0 < period \<and> start * MONTHS < 2 ^ 32 \<and>
      period * MONTHS < 2 ^ 32 \<and> period * MONTHS \<le> amount"
    by (simp add: demo_chain_data_def demo_vesting_env_def time_values)
  from genesis_vesting_schedules [OF V d this, of demo_spec mainnet_root mainnet_validators "[]"] show ?thesis
    by (auto simp: mainnet_config_def demo_chain_data_def)
qed

section \<open>Initial cooperators\<close>

text \<open>\<open>choose_multiple\<close> of \<open>rand\<close> gives that many elements, and no more than there are.\<close>

definition choose_ok :: "'g rng \<Rightarrow> bool" where
  "choose_ok G \<longleftrightarrow> (\<forall>xs n g. length (fst (rg_choose_multiple G xs n g)) = min n (length xs))"

definition cooperation_fits :: "account \<times> account \<times> balance \<times> staker_status \<Rightarrow> bool" where
  "cooperation_fits p \<longleftrightarrow> (case p of (stash, controller, amount, status) \<Rightarrow>
     stash = controller \<and> amount = UNITS \<and>
     (\<exists>ts. status = IsCooperator ts \<and> ts \<noteq> [] \<and> length ts \<le> MaxCooperations \<and> sum_list (map snd ts) \<le> amount))"

lemma cooperator_staker_cases:
  "(cooperator_staker G vs x g = None) = (length vs = 0 \<or> fst (rg_gen G g) mod min MaxCooperations (length vs) = 0)"
  "choose_ok G \<Longrightarrow> cooperator_staker G vs x g = Some (p, g') \<Longrightarrow> fst p = x \<and> cooperation_fits p"
proof -
  show "(cooperator_staker G vs x g = None) = (length vs = 0 \<or> fst (rg_gen G g) mod min MaxCooperations (length vs) = 0)"
    by (cases vs) (auto simp: cooperator_staker_def Let_def MaxCooperations_def split: prod.splits)
next
  assume G: "choose_ok G" and p: "cooperator_staker G vs x g = Some (p, g')"
  let ?limit = "min MaxCooperations (length vs)"
  let ?count = "fst (rg_gen G g) mod ?limit"
  define chosen where "chosen = fst (rg_choose_multiple G vs ?count (snd (rg_gen G g)))"
  have c: "?limit \<noteq> 0" "?count \<noteq> 0" and p: "p = (x, x, TESTNET_STASH, IsCooperator
      (map (\<lambda>choice. (ak_stash choice, TESTNET_STASH div ?count)) chosen))"
    using p by (auto simp: cooperator_staker_def Let_def chosen_def split: prod.splits if_splits)
  have "?count < ?limit" using c(1) by (intro mod_less_divisor) linarith
  then have len: "length chosen = ?count" "?count \<le> MaxCooperations"
    using G [unfolded choose_ok_def, rule_format, of vs ?count "snd (rg_gen G g)"] by (simp_all add: chosen_def)
  have "sum_list (map snd (map (\<lambda>choice. (ak_stash choice, TESTNET_STASH div ?count)) chosen)) =
      ?count * (TESTNET_STASH div ?count)"
    by (simp add: comp_def sum_list_triv len(1))
  also have "\<dots> \<le> TESTNET_STASH" by simp
  finally show "fst p = x \<and> cooperation_fits p"
    using c(2) len by (auto simp: p cooperation_fits_def TESTNET_STASH_def TESTNET_ENDOWMENT_def)
qed

lemma cooperator_stakers_fit:
  "choose_ok G \<Longrightarrow> cooperator_stakers G vs cs g = Some ps \<Longrightarrow> map fst ps = cs \<and> (\<forall>p \<in> set ps. cooperation_fits p)"
proof (induction cs arbitrary: g ps)
  case (Cons c cs)
  from Cons.prems(2) obtain p g' ps' where s: "cooperator_staker G vs c g = Some (p, g')"
    "cooperator_stakers G vs cs g' = Some ps'" "ps = p # ps'"
    by (auto simp: bind_eq_Some_conv)
  then show ?case using Cons.IH [OF Cons.prems(1) s(2)] cooperator_staker_cases(2) [OF Cons.prems(1) s(1)] by simp
qed simp

text \<open>An initial cooperator makes the genesis panic whenever the random number is a multiple of the number
  of validators (at most 256), so always with a single validator or none; when it does not panic, each
  cooperator backs at least one validator, at most 256, with no more than its stake.\<close>

theorem initial_cooperators_may_panic:
  "(fst (rg_gen G g) mod min 256 (length vs) = 0 \<longrightarrow>
      testnet_genesis X D G g root_key endowed vs (c # cs) chain_id = None) \<and>
   (length vs \<le> 1 \<longrightarrow> testnet_genesis X D G g root_key endowed vs (c # cs) chain_id = None) \<and>
   (choose_ok G \<longrightarrow> (\<forall>genesis. testnet_genesis X D G g root_key endowed vs (c # cs) chain_id = Some genesis \<longrightarrow>
      (\<exists>ps. g_stakers (rg_staking genesis) = validator_stakers UNITS vs @ ps \<and> map fst ps = c # cs \<and>
        (\<forall>p \<in> set ps. cooperation_fits p))))"
proof (intro conjI impI allI)
  have none: "testnet_genesis X D G g root_key endowed vs (c # cs) chain_id = None"
    if "cooperator_staker G vs c g = None"
    using that by (simp add: testnet_genesis_def Let_def)
  show "testnet_genesis X D G g root_key endowed vs (c # cs) chain_id = None"
    if "fst (rg_gen G g) mod min 256 (length vs) = 0"
    using that by (intro none) (simp add: cooperator_staker_cases MaxCooperations_def)
  show "testnet_genesis X D G g root_key endowed vs (c # cs) chain_id = None" if "length vs \<le> 1"
  proof (intro none)
    have "length vs = 0 \<or> min MaxCooperations (length vs) = 1" using that by (cases vs) (auto simp: MaxCooperations_def)
    then show "cooperator_staker G vs c g = None" unfolding cooperator_staker_cases by auto
  qed
next
  fix genesis
  assume G: "choose_ok G" and "testnet_genesis X D G g root_key endowed vs (c # cs) chain_id = Some genesis"
  then obtain ps where "cooperator_stakers G vs (c # cs) g = Some ps"
    "g_stakers (rg_staking genesis) = validator_stakers UNITS vs @ ps"
    by (auto simp: testnet_genesis_def Let_def TESTNET_STASH_def TESTNET_ENDOWMENT_def simp del: cooperator_stakers.simps)
  with cooperator_stakers_fit [OF G this(1)]
  show "\<exists>ps. g_stakers (rg_staking genesis) = validator_stakers UNITS vs @ ps \<and> map fst ps = c # cs \<and>
      (\<forall>p \<in> set ps. cooperation_fits p)" by (intro exI [of _ ps] conjI) simp_all
qed

theorem initial_cooperators_may_panic_witness:
  "testnet_genesis demo_spec demo_chain_data demo_rng 3 alith [] [testnet_validator_1_keys] [5] 1 = None \<and>
   (\<exists>genesis ps. testnet_genesis demo_spec demo_chain_data demo_rng 3 alith []
        [testnet_validator_1_keys, testnet_validator_2_keys] [5] 1 = Some genesis \<and>
      g_stakers (rg_staking genesis) = validator_stakers UNITS [testnet_validator_1_keys, testnet_validator_2_keys] @ ps \<and>
      cooperation_fits (hd ps))"
proof -
  have "choose_ok demo_rng" by (simp add: choose_ok_def demo_rng_def min_def)
  moreover have "cooperator_staker demo_rng [testnet_validator_1_keys, testnet_validator_2_keys] 5 3 \<noteq> None"
    unfolding cooperator_staker_cases by (simp add: demo_rng_def MaxCooperations_def numeral_2_eq_2 [symmetric])
  then obtain genesis where g: "testnet_genesis demo_spec demo_chain_data demo_rng 3 alith []
        [testnet_validator_1_keys, testnet_validator_2_keys] [5] 1 = Some genesis"
    by (auto simp: testnet_genesis_def Let_def)
  ultimately obtain ps where "g_stakers (rg_staking genesis) =
      validator_stakers UNITS [testnet_validator_1_keys, testnet_validator_2_keys] @ ps"
    "map fst ps = [5]" "\<forall>p \<in> set ps. cooperation_fits p"
    using initial_cooperators_may_panic [of demo_rng 3 "[testnet_validator_1_keys, testnet_validator_2_keys]" demo_spec
        demo_chain_data alith "[]" 5 "[]" 1, THEN conjunct2, THEN conjunct2, rule_format, OF _ g] by auto
  then show ?thesis
    using g initial_cooperators_may_panic [of demo_rng 3 "[testnet_validator_1_keys]" demo_spec demo_chain_data alith "[]" 5 "[]" 1]
    by (cases ps) auto
qed

end
