(* ===== verification/Bridge.thy ===== *)
theory Bridge
  imports Arith Claiming
begin

text \<open>
  The pallet \<open>pallets/manual-bridge\<close>: native currency goes to the bridge account against a withdrawal
  fee, and is paid out of it against a deposit fee. The currency is a parameter over a world of type
  \<open>'x\<close>; an imbalance is its amount, and \<open>extract\<close> takes at most what is there.
\<close>

section \<open>Operations\<close>

datatype bridge_event = BridgeTransfer account eth_address balance | BridgePaid account balance

record 'x bridge =
  bg_events :: "bridge_event list"
  bg_ext :: 'x

record 'x bridge_env =
  g_payout_origin :: "origin \<Rightarrow> bool"
  g_bridge_account :: account
  g_fee_receiver :: account
  g_deposit_fee_percent :: nat
  g_withdrawal_fee_percent :: nat
  g_percent :: perthing
  g_from_percent :: "nat \<Rightarrow> nat"
  gx_withdraw :: "account \<Rightarrow> balance \<Rightarrow> 'x \<Rightarrow> string + 'x"
  gx_resolve_creating :: "account \<Rightarrow> balance \<Rightarrow> 'x \<Rightarrow> 'x"

type_synonym 'x bridge_result = "unit dispatch_error + 'x bridge"

definition bg_deposit :: "bridge_event \<Rightarrow> 'x bridge \<Rightarrow> 'x bridge" where
  "bg_deposit e s = s\<lparr>bg_events := bg_events s @ [e]\<rparr>"

text \<open>Both calls end by splitting the fee off what was withdrawn.\<close>

definition split_and_resolve :: "'x bridge_env \<Rightarrow> balance \<Rightarrow> balance \<Rightarrow> account \<Rightarrow> 'x \<Rightarrow> balance \<times> 'x" where
  "split_and_resolve G withdrawn fee_amount receiver x =
     (let fee = min withdrawn fee_amount; amount = withdrawn - fee
      in (amount, gx_resolve_creating G (g_fee_receiver G) fee (gx_resolve_creating G receiver amount x)))"

definition bridge_transfer :: "'x bridge_env \<Rightarrow> origin \<Rightarrow> eth_address \<Rightarrow> balance \<Rightarrow> 'x bridge \<Rightarrow> 'x bridge_result" where
  "bridge_transfer G og dest amount0 s =
     rbind (ensure_signed og) (\<lambda>who.
       let fee_amount = pt_mul_floor (g_percent G) (g_from_percent G (g_withdrawal_fee_percent G)) amount0;
           withdrawn = sat_add 128 amount0 fee_amount
       in rbind (map_err Extern (gx_withdraw G who withdrawn (bg_ext s))) (\<lambda>x.
            let (amount, y) = split_and_resolve G withdrawn fee_amount (g_bridge_account G) x
            in Inr (bg_deposit (BridgeTransfer who dest amount) (s\<lparr>bg_ext := y\<rparr>))))"

definition bridge_payout :: "'x bridge_env \<Rightarrow> origin \<Rightarrow> account \<Rightarrow> balance \<Rightarrow> 'x bridge \<Rightarrow> 'x bridge_result" where
  "bridge_payout G og dest amount0 s =
     rbind (ensure (g_payout_origin G og) BadOrigin) (\<lambda>_.
       let fee_amount = pt_mul_floor (g_percent G) (g_from_percent G (g_deposit_fee_percent G)) amount0
       in rbind (map_err Extern (gx_withdraw G (g_bridge_account G) amount0 (bg_ext s))) (\<lambda>x.
            let (amount, y) = split_and_resolve G amount0 fee_amount dest x
            in Inr (bg_deposit (BridgePaid dest amount) (s\<lparr>bg_ext := y\<rparr>))))"

section \<open>Fees\<close>

text \<open>
  A sender pays the amount and the fee, and the bridge gets exactly the amount, as long as the sum fits;
  a payout's fee comes out of the amount.
\<close>

lemma bridge_transfer_amount:
  assumes "bridge_transfer G og dest amount s = Inr s'"
    "amount + pt_mul_floor (g_percent G) (g_from_percent G (g_withdrawal_fee_percent G)) amount \<le> max_w 128"
  shows "\<exists>who x. og = Signed who \<and> bg_events s' = bg_events s @ [BridgeTransfer who dest amount] \<and>
    gx_withdraw G who (amount + pt_mul_floor (g_percent G) (g_from_percent G (g_withdrawal_fee_percent G)) amount) (bg_ext s) = Inr x"
  using assms by (auto simp: bridge_transfer_def split_and_resolve_def bg_deposit_def sat_add_eq res_simps Let_def)

lemma bridge_payout_amount:
  assumes "bridge_payout G og dest amount s = Inr s'" "perthing_ok one (g_percent G)" "g_from_percent G (g_deposit_fee_percent G) \<le> one" "0 < one"
  shows "\<exists>paid fee. paid + fee = amount \<and> bg_events s' = bg_events s @ [BridgePaid dest paid] \<and>
    fee = g_from_percent G (g_deposit_fee_percent G) * amount div one"
proof -
  let ?r = "g_from_percent G (g_deposit_fee_percent G)"
  have fee: "pt_mul_floor (g_percent G) ?r amount = ?r * amount div one"
    using assms(2,3) by (simp add: perthing_ok_def)
  have "?r * amount div one \<le> amount"
    using div_le_mono [OF mult_le_mono1 [OF assms(3), of amount], of one] assms(4) by simp
  then show ?thesis
    using assms(1) by (auto simp: bridge_payout_def split_and_resolve_def bg_deposit_def res_simps fee Let_def)
qed

end
