(* ===== verification/Treasury.thy ===== *)
theory Treasury
  imports Arith
begin

text \<open>
  The pallet \<open>pallets/treasury-extension\<close>: at the end of a spend period the treasury recycles the part of
  its threshold that was not spent and sets the share of fees it takes from then on; at a session change
  it turns its energy into native currency.

  The pot, the energy assets, the exchanges and the handler of recycled funds are parameters over a world
  of type \<open>'x\<close>. An imbalance is its amount. \<open>FixedU64\<close> is given by the operations used, on the inner
  integer; weights are not modelled.
\<close>

section \<open>Data\<close>

datatype treasury_event = Recycled balance | EnergyExchanged balance

record 'x treasury =
  FeeRecyclingRate :: nat
  tr_events :: "treasury_event list"
  tr_ext :: 'x

record 'x treasury_env =
  t_spend_threshold :: nat
  t_target_balance :: balance
  t_base_rate :: nat
  t_scaling_factor :: nat
  t_permill :: perthing
  t_from_permill :: "nat \<Rightarrow> nat"
  t_saturating_from_rational :: "nat \<Rightarrow> nat \<Rightarrow> nat"
  t_fixed_mul :: "nat \<Rightarrow> nat \<Rightarrow> nat option"
  t_into_clamped_permill :: "nat \<Rightarrow> nat"
  tx_pot :: "'x \<Rightarrow> balance"
  tx_energy_balance :: "'x \<Rightarrow> balance"
  tx_static_balance :: "'x \<Rightarrow> balance"
  tx_liquid_balance :: "'x \<Rightarrow> balance"
  tx_burn_energy :: "balance \<Rightarrow> 'x \<Rightarrow> string + 'x \<times> balance"
  tx_mint_liquid :: "balance \<Rightarrow> 'x \<Rightarrow> string + 'x \<times> balance"
  tx_swap_static :: "balance \<Rightarrow> 'x \<Rightarrow> string + 'x"
  tx_swap_liquid :: "balance \<Rightarrow> 'x \<Rightarrow> string + 'x"
  tx_on_recycled :: "balance \<Rightarrow> 'x \<Rightarrow> 'x"

text \<open>What \<open>pallet_treasury\<close> hands to \<open>spend_funds\<close> and gets back changed.\<close>

record spending =
  sp_budget_remaining :: balance
  sp_imbalance :: balance
  sp_missed_any :: bool

definition tr_deposit :: "treasury_event \<Rightarrow> 'x treasury \<Rightarrow> 'x treasury" where
  "tr_deposit e s = s\<lparr>tr_events := tr_events s @ [e]\<rparr>"

definition treasury_balance :: "'x treasury_env \<Rightarrow> 'x treasury \<Rightarrow> balance" where
  "treasury_balance T s = tx_pot T (tr_ext s)"

section \<open>Energy\<close>

definition convert_energy_to_liquid_energy :: "'x treasury_env \<Rightarrow> 'x \<Rightarrow> string + 'x \<times> balance" where
  "convert_energy_to_liquid_energy T x =
     (let energy_balance = tx_energy_balance T x
      in if energy_balance \<noteq> 0
         then rbind (tx_burn_energy T energy_balance x) (\<lambda>(y, burned_amount). tx_mint_liquid T burned_amount y)
         else Inr (x, 0))"

text \<open>Swapping a balance that is not zero; a failing swap changes nothing and does not count.\<close>

definition swap_all :: "(balance \<Rightarrow> 'x \<Rightarrow> string + 'x) \<Rightarrow> balance \<Rightarrow> balance \<times> 'x \<Rightarrow> balance \<times> 'x" where
  "swap_all swap balance acc =
     (let (amount, x) = acc
      in if balance \<noteq> 0
         then (case swap balance x of Inr y \<Rightarrow> (sat_add 128 amount balance, y) | Inl _ \<Rightarrow> acc)
         else acc)"

definition treasury_exchange_energy :: "'x treasury_env \<Rightarrow> 'x treasury \<Rightarrow> 'x treasury" where
  "treasury_exchange_energy T s =
     (let x1 = (case convert_energy_to_liquid_energy T (tr_ext s) of Inr (x, _) \<Rightarrow> x | Inl _ \<Rightarrow> tr_ext s);
          (amount, x2) = swap_all (tx_swap_static T) (tx_static_balance T x1) (0, x1);
          (amount, x3) = swap_all (tx_swap_liquid T) (tx_liquid_balance T x2) (amount, x2)
      in tr_deposit (EnergyExchanged amount) (s\<lparr>tr_ext := x3\<rparr>))"

definition treasury_on_new_session :: "'x treasury_env \<Rightarrow> nat \<Rightarrow> 'x treasury \<Rightarrow> 'x treasury" where
  "treasury_on_new_session T index s = treasury_exchange_energy T s"

section \<open>Recycling\<close>

text \<open>\<open>None\<close> is the panic of \<open>*\<close> on an overflow.\<close>

definition update_fee_recycling_rate :: "'x treasury_env \<Rightarrow> 'x treasury \<Rightarrow> 'x treasury option" where
  "update_fee_recycling_rate T s =
     (let target_balance = t_target_balance T
      in map_option (\<lambda>rate. s\<lparr>FeeRecyclingRate := rate\<rparr>)
           (if target_balance \<noteq> 0
            then let base_rate = t_from_permill T (t_base_rate T);
                     scaling_factor = t_from_permill T (t_scaling_factor T);
                     ratio = t_saturating_from_rational T (treasury_balance T s) target_balance
                 in map_option (\<lambda>scaled. t_into_clamped_permill T (sat_add 64 base_rate scaling_factor - scaled))
                      (t_fixed_mul T scaling_factor ratio)
            else Some 0))"

definition spend_funds :: "'x treasury_env \<Rightarrow> spending \<Rightarrow> 'x treasury \<Rightarrow> (spending \<times> 'x treasury) option" where
  "spend_funds T p s =
     (let p1 = p\<lparr>sp_missed_any := True\<rparr>;
          fraction_for_recycle = pt_mul_ceil (t_permill T) (t_spend_threshold T) (treasury_balance T s);
          imbalance_amount = sp_imbalance p1
      in if fraction_for_recycle \<le> imbalance_amount then Some (p1, s)
         else let unrecycled_amount = fraction_for_recycle - imbalance_amount;
                  p2 = p1\<lparr>sp_imbalance := sat_add 128 imbalance_amount unrecycled_amount,
                        sp_budget_remaining := sp_budget_remaining p1 - unrecycled_amount\<rparr>;
                  s1 = tr_deposit (Recycled unrecycled_amount)
                         (s\<lparr>tr_ext := tx_on_recycled T unrecycled_amount (tr_ext s)\<rparr>)
              in map_option (\<lambda>s2. (p2, s2)) (update_fee_recycling_rate T s1))"

definition treasury_get :: "'x treasury \<Rightarrow> nat" where
  "treasury_get s = FeeRecyclingRate s"

section \<open>Properties\<close>

text \<open>
  The documented behaviour of \<open>FixedU64\<close>, whose one is \<open>10 ^ 9\<close>: a permill becomes the same ratio, a
  rational is rounded down and saturates, the product is rounded and panics when it does not fit, and
  the conversion back cuts off at the whole.
\<close>

definition fixed64_ok :: "'x treasury_env \<Rightarrow> bool" where
  "fixed64_ok T \<longleftrightarrow>
     (\<forall>p. t_from_permill T p = p * 1000) \<and>
     (\<forall>n d. 0 < d \<longrightarrow> t_saturating_from_rational T n d = min (n * 1000000000 div d) (max_w 64)) \<and>
     (\<forall>a b. a * b div 1000000000 \<le> max_w 64 \<longrightarrow> (\<exists>c. t_fixed_mul T a b = Some c \<and>
        a * b div 1000000000 \<le> c \<and> c \<le> ceil_div (a * b) 1000000000)) \<and>
     (\<forall>a. t_into_clamped_permill T a = min (a div 1000) 1000000)"

lemma mul_le_fixed:
  assumes f: "fixed64_ok T" and a: "a \<le> 1000000000" and b: "b \<le> max_w 64"
  shows "\<exists>c. t_fixed_mul T a b = Some c \<and> a * b div 1000000000 \<le> c \<and> c \<le> ceil_div (a * b) 1000000000"
proof -
  have "a * b div 1000000000 \<le> b"
    using div_le_mono [OF mult_le_mono1 [OF a, of b], of 1000000000] by simp
  then have "a * b div 1000000000 \<le> max_w 64" using b by (rule le_trans)
  with f show ?thesis unfolding fixed64_ok_def by blast
qed

text \<open>Updating the rate never panics.\<close>

lemma update_fee_recycling_rate_returns:
  assumes f: "fixed64_ok T" and sc: "t_scaling_factor T \<le> 1000000"
  shows "\<exists>s'. update_fee_recycling_rate T s = Some s'"
proof (cases "t_target_balance T = 0")
  case False
  have "t_from_permill T (t_scaling_factor T) \<le> 1000000000" "t_saturating_from_rational T (treasury_balance T s) (t_target_balance T) \<le> max_w 64"
    using f sc False by (simp_all add: fixed64_ok_def)
  then obtain c where "t_fixed_mul T (t_from_permill T (t_scaling_factor T))
      (t_saturating_from_rational T (treasury_balance T s) (t_target_balance T)) = Some c"
    using mul_le_fixed [OF f] by blast
  then show ?thesis using False by (simp add: update_fee_recycling_rate_def)
qed (simp add: update_fee_recycling_rate_def)

lemma ceil_div_exact: "0 < b \<Longrightarrow> ceil_div (a * b) b = a"
  using div_mult_self1 [of b "b - 1" a] by (simp add: ceil_div_def add.commute)

lemma ceil_div_mono: "a \<le> a' \<Longrightarrow> ceil_div a b \<le> ceil_div a' b"
  by (simp add: ceil_div_def div_le_mono)

text \<open>The scaled ratio against the scaling factor.\<close>

lemma scaled_bounds:
  assumes f: "fixed64_ok T" and sc: "t_scaling_factor T \<le> 1000000" and t: "0 < t_target_balance T"
  obtains c where "t_fixed_mul T (t_scaling_factor T * 1000) (min (n * 1000000000 div t_target_balance T) (max_w 64)) = Some c"
    "n \<le> t_target_balance T \<longrightarrow> c \<le> t_scaling_factor T * 1000"
    "t_target_balance T \<le> n \<longrightarrow> t_scaling_factor T * 1000 \<le> c"
proof -
  let ?a = "t_scaling_factor T * 1000" and ?d = "t_target_balance T"
  let ?r = "min (n * 1000000000 div ?d) (max_w 64)"
  have a: "?a \<le> 1000000000" using sc by simp
  have r: "?r \<le> max_w 64" by (rule min.cobounded2)
  obtain c where c: "t_fixed_mul T ?a ?r = Some c" "?a * ?r div 1000000000 \<le> c" "c \<le> ceil_div (?a * ?r) 1000000000"
    using mul_le_fixed [OF f a r] by blast
  show thesis
  proof (rule that [OF c(1)]; rule impI)
    assume "n \<le> ?d"
    then have "n * 1000000000 div ?d \<le> 1000000000" using div_le_mono [OF mult_le_mono1, of n ?d 1000000000 ?d] t by simp
    then have "?r \<le> 1000000000" by (rule min.coboundedI1)
    then have "?a * ?r \<le> ?a * 1000000000" by (rule mult_le_mono2)
    then have "ceil_div (?a * ?r) 1000000000 \<le> ceil_div (?a * 1000000000) 1000000000" by (rule ceil_div_mono)
    also have "\<dots> = ?a" by (rule ceil_div_exact) simp
    finally show "c \<le> ?a" using c(3) by simp
  next
    assume "?d \<le> n"
    then have "1000000000 \<le> n * 1000000000 div ?d" using div_le_mono [OF mult_le_mono1, of ?d n 1000000000 ?d] t by simp
    moreover have "(1000000000::nat) \<le> max_w 64" by (simp add: max_w_def)
    ultimately have "1000000000 \<le> ?r" by (rule min.boundedI)
    then have "?a * 1000000000 \<le> ?a * ?r" by (rule mult_le_mono2)
    then have "?a * 1000000000 div 1000000000 \<le> ?a * ?r div 1000000000" by (rule div_le_mono)
    then show "?a \<le> c" using c(2) by simp
  qed
qed

text \<open>C31.
  The share of fees the treasury takes follows its balance: it is the base rate exactly when the pot is
  at the target, at least the base rate below the target and at most the base rate above it, and never
  more than the whole or the base rate plus the scaling factor; without a target it is zero.
\<close>

theorem recycling_rate_tracks_target:
  assumes f: "fixed64_ok T" and b: "t_base_rate T \<le> 1000000" and sc: "t_scaling_factor T \<le> 1000000"
  shows "\<exists>rate. update_fee_recycling_rate T s = Some (s\<lparr>FeeRecyclingRate := rate\<rparr>) \<and>
    rate \<le> min (t_base_rate T + t_scaling_factor T) 1000000 \<and>
    (t_target_balance T = 0 \<longrightarrow> rate = 0) \<and>
    (0 < t_target_balance T \<longrightarrow>
      (treasury_balance T s \<le> t_target_balance T \<longrightarrow> t_base_rate T \<le> rate) \<and>
      (t_target_balance T \<le> treasury_balance T s \<longrightarrow> rate \<le> t_base_rate T))"
proof (cases "t_target_balance T = 0")
  case True
  then show ?thesis by (simp add: update_fee_recycling_rate_def)
next
  case False
  then have t: "0 < t_target_balance T" by simp
  let ?b = "t_base_rate T" and ?sc = "t_scaling_factor T" and ?n = "treasury_balance T s"
  obtain c where c: "t_fixed_mul T (?sc * 1000) (min (?n * 1000000000 div t_target_balance T) (max_w 64)) = Some c"
    "?n \<le> t_target_balance T \<longrightarrow> c \<le> ?sc * 1000" "t_target_balance T \<le> ?n \<longrightarrow> ?sc * 1000 \<le> c"
    by (rule scaled_bounds [OF f sc t, of ?n])
  define rate where "rate = min ((?b * 1000 + ?sc * 1000 - c) div 1000) 1000000"
  have "?b * 1000 + ?sc * 1000 \<le> max_w 64" using b sc by (simp add: max_w_def)
  then have u: "update_fee_recycling_rate T s = Some (s\<lparr>FeeRecyclingRate := rate\<rparr>)"
    using f t c(1) by (simp add: update_fee_recycling_rate_def fixed64_ok_def rate_def sat_add_eq)
  have "(?b * 1000 + ?sc * 1000 - c) div 1000 \<le> ?b + ?sc" by linarith
  then have le: "rate \<le> ?b + ?sc" unfolding rate_def by (rule min.coboundedI1)
  have whole: "rate \<le> 1000000" by (simp add: rate_def)
  have below: "?b \<le> rate" if "?n \<le> t_target_balance T" using c(2) that b by (simp add: rate_def)
  have above: "rate \<le> ?b" if "t_target_balance T \<le> ?n"
  proof -
    have "?sc * 1000 \<le> c" using c(3) that by blast
    then have "(?b * 1000 + ?sc * 1000 - c) div 1000 \<le> ?b" by linarith
    then show ?thesis unfolding rate_def by (rule min.coboundedI1)
  qed
  from u le whole below above t show ?thesis by (intro exI [of _ rate]) simp
qed

text \<open>
  A spend period uses the threshold up: what proposals left of it is recycled, so that the amount spent
  and recycled is at least the threshold's part of the pot; and the treasury burns nothing.
\<close>

lemma spend_funds_uses_threshold:
  assumes "spend_funds T p s = Some (p', s')" "sp_imbalance p \<le> max_w 128"
    "pt_mul_ceil (t_permill T) (t_spend_threshold T) (treasury_balance T s) \<le> max_w 128"
  shows "sp_imbalance p' = max (sp_imbalance p) (pt_mul_ceil (t_permill T) (t_spend_threshold T) (treasury_balance T s))"
    "sp_budget_remaining p' = sp_budget_remaining p - (sp_imbalance p' - sp_imbalance p)" "sp_missed_any p'"
  using assms by (auto simp: spend_funds_def Let_def sat_add_eq max_def split: if_splits)

definition demo_treasury_env :: "(nat \<times> nat) treasury_env" where
  "demo_treasury_env = \<lparr>t_spend_threshold = 250000, t_target_balance = 1000, t_base_rate = 300000,
     t_scaling_factor = 200000, t_permill = perthing_ref 1000000, t_from_permill = (\<lambda>p. p * 1000),
     t_saturating_from_rational = (\<lambda>n d. min (n * 1000000000 div d) (max_w 64)),
     t_fixed_mul = (\<lambda>a b. if a * b div 1000000000 \<le> max_w 64 then Some (a * b div 1000000000) else None),
     t_into_clamped_permill = (\<lambda>a. min (a div 1000) 1000000), tx_pot = fst, tx_energy_balance = snd,
     tx_static_balance = (\<lambda>_. 0), tx_liquid_balance = (\<lambda>_. 0), tx_burn_energy = (\<lambda>n x. Inr (x, n)),
     tx_mint_liquid = (\<lambda>n x. Inr (x, n)), tx_swap_static = (\<lambda>_. Inr), tx_swap_liquid = (\<lambda>_. Inr), tx_on_recycled = (\<lambda>_ x. x)\<rparr>"

definition demo_treasury :: "(nat \<times> nat) treasury" where
  "demo_treasury = \<lparr>FeeRecyclingRate = 0, tr_events = [], tr_ext = (500, 0)\<rparr>"

lemma demo_fixed64: "fixed64_ok demo_treasury_env"
  using div_le_ceil_div by (auto simp: fixed64_ok_def demo_treasury_env_def)

theorem recycling_rate_tracks_target_witness:
  "\<exists>rate. update_fee_recycling_rate demo_treasury_env demo_treasury = Some (demo_treasury\<lparr>FeeRecyclingRate := rate\<rparr>) \<and>
     300000 \<le> rate \<and> rate \<le> 500000"
proof -
  have "t_base_rate demo_treasury_env = 300000" "t_scaling_factor demo_treasury_env = 200000"
    "t_target_balance demo_treasury_env = 1000" "treasury_balance demo_treasury_env demo_treasury = 500"
    by (simp_all add: demo_treasury_env_def demo_treasury_def treasury_balance_def)
  with recycling_rate_tracks_target [OF demo_fixed64, of demo_treasury] show ?thesis by auto
qed

end
