(* ===== verification/Faucet.thy ===== *)
theory Faucet
  imports Prelude
begin

text \<open>
  The pallet \<open>pallets/faucet\<close>: funds on request, limited to \<open>MaxAmount\<close> per accumulation period of an
  account. The accumulation period is not a sliding window: it starts with the first request after the
  previous one has ended.

  \<open>Requests\<close> is a map with the default \<open>(0, 0)\<close>. The balances of \<open>pallet_balances\<close> are the world
  \<open>'x\<close>. Calls are executed at the block number \<open>now\<close>.
\<close>

section \<open>The pallet\<close>

datatype faucet_event = FundsSent account balance

datatype faucet_error = AmountTooHigh | RequestLimitExceeded

record 'x faucet =
  Requests :: "account \<Rightarrow> balance \<times> nat"
  fa_events :: "faucet_event list"
  fa_ext :: 'x

record 'x faucet_env =
  MaxAmount :: balance
  AccumulationPeriod :: nat
  fx_deposit_creating :: "account \<Rightarrow> balance \<Rightarrow> 'x \<Rightarrow> 'x"

definition request_funds ::
  "'x faucet_env \<Rightarrow> nat \<Rightarrow> origin \<Rightarrow> account \<Rightarrow> balance \<Rightarrow> 'x faucet
   \<Rightarrow> faucet_error dispatch_error + 'x faucet" where
  "request_funds F block og who amount s =
     rbind (ensure_none og) (\<lambda>_.
     rbind (ensure (amount \<le> MaxAmount F) (Module AmountTooHigh)) (\<lambda>_.
       let (balance, timestamp) = Requests s who;
           now = block;
           period = sub_w 32 now timestamp;
           (total, now) = (if AccumulationPeriod F \<le> period then (amount, now)
                           else (add_w 128 balance amount, timestamp))
       in rbind (ensure (total \<le> MaxAmount F) (Module RequestLimitExceeded)) (\<lambda>_.
            Inr (s\<lparr>fa_ext := fx_deposit_creating F who amount (fa_ext s),
                   Requests := (Requests s)(who := (total, now)),
                   fa_events := fa_events s @ [FundsSent who amount]\<rparr>))))"

datatype faucet_call = RequestFunds account balance

record faucet_validity =
  fv_tag_prefix :: string
  fv_provides :: "account \<times> balance"
  fv_propagate :: bool

definition faucet_validate_unsigned :: "faucet_call \<Rightarrow> faucet_validity" where
  "faucet_validate_unsigned call =
     (case call of RequestFunds who amount \<Rightarrow>
        \<lparr>fv_tag_prefix = ''Faucet'', fv_provides = (who, amount), fv_propagate = True\<rparr>)"

text \<open>
  A run: requests in the order of their blocks, where a failing call changes nothing. It collects what
  was granted, with the block.
\<close>

fun faucet_run ::
  "'x faucet_env \<Rightarrow> (nat \<times> account \<times> balance) list \<Rightarrow> 'x faucet \<Rightarrow> (nat \<times> account \<times> balance) list" where
  "faucet_run F [] s = []"
| "faucet_run F ((now, who, amount) # rs) s =
     (case request_funds F now NoOrigin who amount s of
        Inl _ \<Rightarrow> faucet_run F rs s
      | Inr s' \<Rightarrow> (now, who, amount) # faucet_run F rs s')"

definition granted :: "(nat \<times> account \<times> balance) list \<Rightarrow> account \<Rightarrow> nat \<Rightarrow> nat \<Rightarrow> balance" where
  "granted gs who lo hi = (\<Sum>(t, a, v) \<leftarrow> gs. if a = who \<and> lo \<le> t \<and> t < hi then v else 0)"

section \<open>The limit over a run\<close>

lemma granted_simps [simp]:
  "granted [] who lo hi = 0"
  "granted ((t, a, v) # gs) who lo hi = (if a = who \<and> lo \<le> t \<and> t < hi then v else 0) + granted gs who lo hi"
  "granted (gs @ hs) who lo hi = granted gs who lo hi + granted hs who lo hi"
  by (simp_all add: granted_def)

lemma granted_split: "lo \<le> m \<Longrightarrow> m \<le> hi \<Longrightarrow> granted gs who lo hi = granted gs who lo m + granted gs who m hi"
  by (induction gs) (auto split: prod.splits)

lemma granted_mono: "lo' \<le> lo \<Longrightarrow> hi \<le> hi' \<Longrightarrow> granted gs who lo hi \<le> granted gs who lo' hi'"
  by (induction gs) (auto split: prod.splits intro: add_mono trans_le_add2)

lemma granted_none: "\<forall>(t, a, v) \<in> set gs. a = who \<longrightarrow> t < lo \<Longrightarrow> granted gs who lo hi = 0"
  by (induction gs) auto

text \<open>
  What a run keeps for one account: its current period holds what it granted, and the blocks before the
  period, back to one period before its start, granted at most the maximum too.
\<close>

definition period_inv ::
  "'x faucet_env \<Rightarrow> account \<Rightarrow> nat \<Rightarrow> (nat \<times> account \<times> balance) list \<Rightarrow> balance \<Rightarrow> nat \<Rightarrow> bool" where
  "period_inv F who now gs bal ts \<longleftrightarrow>
     ts \<le> now \<and> bal \<le> MaxAmount F \<and> granted gs who ts (ts + AccumulationPeriod F) \<le> bal \<and>
     (\<forall>(t, a, v) \<in> set gs. a = who \<longrightarrow> t < ts + AccumulationPeriod F \<and> t \<le> now) \<and>
     (\<forall>lo. ts < lo + AccumulationPeriod F \<longrightarrow> granted gs who lo ts \<le> MaxAmount F) \<and>
     (\<forall>lo. granted gs who lo (lo + AccumulationPeriod F) \<le> 2 * MaxAmount F)"

definition faucet_inv :: "'x faucet_env \<Rightarrow> account \<Rightarrow> nat \<Rightarrow> (nat \<times> account \<times> balance) list \<Rightarrow> 'x faucet \<Rightarrow> bool" where
  "faucet_inv F who now gs s \<longleftrightarrow> period_inv F who now gs (fst (Requests s who)) (snd (Requests s who))"

lemma period_inv_later: "period_inv F who now gs bal ts \<Longrightarrow> now \<le> t \<Longrightarrow> period_inv F who t gs bal ts"
  unfolding period_inv_def by fastforce

lemma period_inv_other:
  "period_inv F who now gs bal ts \<Longrightarrow> acc \<noteq> who \<Longrightarrow> period_inv F who now (gs @ [(t, acc, v)]) bal ts"
  unfolding period_inv_def by simp

lemma faucet_inv_step:
  assumes inv: "faucet_inv F who now0 gs s" and n: "now0 \<le> now" "now < 2 ^ 32" and P: "0 < AccumulationPeriod F"
    and M: "2 * MaxAmount F < 2 ^ 128" and r: "request_funds F now NoOrigin acc v s = Inr s'"
  shows "faucet_inv F who now (gs @ [(now, acc, v)]) s'"
proof (cases "acc = who")
  case False
  then have "Requests s' who = Requests s who"
    using r by (auto simp: request_funds_def res_simps Let_def split: prod.splits if_splits)
  with inv n False show ?thesis
    unfolding faucet_inv_def by (simp add: period_inv_other period_inv_later)
next
  case True
  let ?P = "AccumulationPeriod F" and ?M = "MaxAmount F"
  obtain bal ts where rq: "Requests s who = (bal, ts)" by fastforce
  have I: "ts \<le> now0" "bal \<le> ?M" "granted gs who ts (ts + ?P) \<le> bal"
    "\<forall>(t, a, v) \<in> set gs. a = who \<longrightarrow> t < ts + ?P \<and> t \<le> now0"
    "\<And>lo. ts < lo + ?P \<Longrightarrow> granted gs who lo ts \<le> ?M" "\<And>lo. granted gs who lo (lo + ?P) \<le> 2 * ?M"
    using inv unfolding faucet_inv_def period_inv_def rq by auto
  have v: "v \<le> ?M" using r by (auto simp: request_funds_def res_simps)
  have sub: "sub_w 32 now ts = now - ts" using I(1) n by (simp add: sub_w_eq)
  have old: "\<forall>(t, a, v) \<in> set gs. a = who \<longrightarrow> t \<le> now" using I(4) n(1) by fastforce
  show ?thesis
  proof (cases "?P \<le> now - ts")
    case False
    have add: "add_w 128 bal v = bal + v" using I(2) v M by (simp add: add_w_eq)
    have s': "Requests s' who = (bal + v, ts)" and le: "bal + v \<le> ?M"
      using r True rq sub False add by (auto simp: request_funds_def res_simps split: if_splits)
    have nts: "ts \<le> now" "now < ts + ?P" using False I(1) n(1) by auto
    let ?gs = "gs @ [(now, who, v)]"
    have g: "granted ?gs who ts (ts + ?P) \<le> bal + v" using I(3) by simp
    have "granted ?gs who lo (lo + ?P) \<le> 2 * ?M" for lo
    proof (cases "lo \<le> now \<and> now < lo + ?P")
      case in_window: True
      show ?thesis
      proof (cases "lo \<le> ts")
        case True
        then have "granted ?gs who lo (lo + ?P) = granted ?gs who lo ts + granted ?gs who ts (lo + ?P)"
          using in_window nts by (intro granted_split) auto
        moreover have "granted ?gs who ts (lo + ?P) \<le> granted ?gs who ts (ts + ?P)"
          using True by (intro granted_mono) auto
        moreover have "granted ?gs who lo ts \<le> ?M" using I(5) [of lo] in_window nts by simp
        ultimately show ?thesis using g le by linarith
      next
        case False
        have z: "granted ?gs who (ts + ?P) (lo + ?P) = 0" using I(4) nts(2) by (intro granted_none) fastforce
        have "granted ?gs who lo (lo + ?P) \<le> granted ?gs who ts (lo + ?P)"
          using False by (intro granted_mono) auto
        also have "\<dots> = granted ?gs who ts (ts + ?P)"
          using False by (subst granted_split [where m = "ts + ?P"]) (auto simp: z simp del: granted_simps)
        finally show ?thesis using g le by linarith
      qed
    next
      case False
      then have "granted [(now, who, v)] who lo (lo + ?P) = 0" by auto
      then show ?thesis unfolding granted_simps(3) using I(6) [of lo] by linarith
    qed
    moreover have "granted ?gs who lo ts \<le> ?M" if "ts < lo + ?P" for lo using I(5) [OF that] nts(1) by simp
    ultimately show ?thesis unfolding faucet_inv_def period_inv_def True s' using nts le g I(4) old by auto
  next
    case True
    have new: "ts + ?P \<le> now" using True P by linarith
    have s': "Requests s' who = (v, now)" using r \<open>acc = who\<close> rq sub True by (auto simp: request_funds_def res_simps split: if_splits)
    let ?gs = "gs @ [(now, who, v)]"
    have before: "granted gs who lo now \<le> ?M" if "now < lo + ?P" for lo
    proof (cases "lo \<le> now")
      case True
      have "granted gs who lo now \<le> granted gs who ts now" using that new P by (intro granted_mono) auto
      also have "\<dots> = granted gs who ts (ts + ?P) + granted gs who (ts + ?P) now"
        using new I(1) n(1) by (intro granted_split) auto
      also have "granted gs who (ts + ?P) now = 0" using I(4) by (intro granted_none) fastforce
      finally show ?thesis using I(2,3) by linarith
    next
      case False
      then have "granted gs who lo now = 0" using old by (intro granted_none) fastforce
      then show ?thesis by simp
    qed
    have from_now: "granted gs who now hi = 0" for hi using I(4) new by (intro granted_none) fastforce
    have "granted ?gs who lo (lo + ?P) \<le> 2 * ?M" for lo
    proof (cases "lo \<le> now \<and> now < lo + ?P")
      case True
      then have "granted gs who lo (lo + ?P) = granted gs who lo now"
        using granted_split [of lo now "lo + ?P" gs who] from_now by simp
      then show ?thesis using before [of lo] True v by simp
    next
      case False
      then have "granted [(now, who, v)] who lo (lo + ?P) = 0" by auto
      then show ?thesis unfolding granted_simps(3) using I(6) [of lo] by linarith
    qed
    moreover have "granted ?gs who lo now \<le> ?M" if "now < lo + ?P" for lo using before [OF that] by simp
    moreover have "granted ?gs who now (now + ?P) \<le> v" using from_now by simp
    ultimately show ?thesis unfolding faucet_inv_def period_inv_def \<open>acc = who\<close> s' using P v old by auto
  qed
qed

lemma faucet_run_inv:
  assumes "faucet_inv F who now gs s" "sorted (now # map fst rs)" "\<forall>(t, a, v) \<in> set rs. t < 2 ^ 32"
    and "0 < AccumulationPeriod F" "2 * MaxAmount F < 2 ^ 128"
  shows "\<exists>now' s'. faucet_inv F who now' (gs @ faucet_run F rs s) s'"
  using assms(1-3)
proof (induction rs arbitrary: now gs s)
  case Nil
  then show ?case by auto
next
  case (Cons r rs)
  obtain t a v where r: "r = (t, a, v)" by (cases r)
  have later: "sorted (t # map fst rs)" "\<forall>(t, a, v) \<in> set rs. t < 2 ^ 32" "now \<le> t" "t < 2 ^ 32"
    using Cons.prems r by auto
  show ?case
  proof (cases "request_funds F t NoOrigin a v s")
    case (Inl e)
    have "faucet_inv F who t gs s"
      using Cons.prems(1) later(3) unfolding faucet_inv_def by (rule period_inv_later)
    from Cons.IH [OF this later(1,2)] Inl show ?thesis by (simp add: r)
  next
    case (Inr s1)
    from Cons.IH [OF faucet_inv_step [OF Cons.prems(1) later(3,4) assms(4,5) Inr] later(1,2)] Inr
    show ?thesis by (simp add: r)
  qed
qed

text \<open>C36.
  Over any run of requests from the initial state, an account is granted at most twice \<open>MaxAmount\<close> in
  any stretch of \<open>AccumulationPeriod\<close> blocks.
\<close>

theorem faucet_rate_limit:
  assumes "Requests s = (\<lambda>_. (0, 0))" "sorted (map fst rs)" "\<forall>(t, a, v) \<in> set rs. t < 2 ^ 32"
    and "0 < AccumulationPeriod F" "2 * MaxAmount F < 2 ^ 128"
  shows "granted (faucet_run F rs s) who lo (lo + AccumulationPeriod F) \<le> 2 * MaxAmount F"
proof -
  have "faucet_inv F who 0 [] s" using assms(1) by (simp add: faucet_inv_def period_inv_def)
  from faucet_run_inv [OF this _ assms(3-5)] assms(2) show ?thesis
    by (auto simp: faucet_inv_def period_inv_def)
qed

text \<open>The bound is attained: the end of one period and the start of the next are neighbours.\<close>

definition demo_faucet_env :: "(account \<Rightarrow> balance) faucet_env" where
  "demo_faucet_env = \<lparr>MaxAmount = 10, AccumulationPeriod = 5,
     fx_deposit_creating = (\<lambda>a v x. x(a := x a + v))\<rparr>"

definition demo_faucet :: "(account \<Rightarrow> balance) faucet" where
  "demo_faucet = \<lparr>Requests = (\<lambda>_. (0, 0)), fa_events = [], fa_ext = (\<lambda>_. 0)\<rparr>"

definition demo_requests :: "(nat \<times> account \<times> balance) list" where
  "demo_requests = [(1, 7, 1), (2, 8, 11), (4, 7, 9), (4, 7, 1), (5, 7, 10)]"

lemma demo_faucet_run: "faucet_run demo_faucet_env demo_requests demo_faucet = [(1, 7, 1), (4, 7, 9), (5, 7, 10)]"
  by (simp add: demo_requests_def request_funds_def demo_faucet_env_def demo_faucet_def sub_w_eq add_w_eq)

theorem faucet_rate_limit_witness:
  "granted (faucet_run demo_faucet_env demo_requests demo_faucet) 7 1 6 = 2 * MaxAmount demo_faucet_env"
proof (rule antisym)
  show "granted (faucet_run demo_faucet_env demo_requests demo_faucet) 7 1 6 \<le> 2 * MaxAmount demo_faucet_env"
    using faucet_rate_limit [of demo_faucet demo_requests demo_faucet_env 7 1]
    by (simp add: demo_faucet_def demo_requests_def demo_faucet_env_def)
  show "2 * MaxAmount demo_faucet_env \<le> granted (faucet_run demo_faucet_env demo_requests demo_faucet) 7 1 6"
    unfolding demo_faucet_run by (simp add: demo_faucet_env_def)
qed

end
