(* ===== verification/Governance.thy ===== *)
theory Governance
  imports ChainSpecProps EnergyFee NacManaging Privileges Bridge Democracy Treasury Faucet
begin

text \<open>
  Who may do what in the runtime: the origins of \<open>runtime/vitreus/src/areas/governance.rs\<close>, \<open>utility.rs\<close> and
  \<open>lib.rs\<close>, the constants of the governance pallets, and the environments of the pallets with the origins
  and constants the runtime gives them. The checks of the collective pallet are parameters.
\<close>

section \<open>Origins\<close>

record gov_env =
  gv_at_least :: "collective \<Rightarrow> nat \<Rightarrow> nat \<Rightarrow> origin \<Rightarrow> bool"
  gv_more_than :: "collective \<Rightarrow> nat \<Rightarrow> nat \<Rightarrow> origin \<Rightarrow> bool"
  gv_member :: "collective \<Rightarrow> origin \<Rightarrow> account option"

text \<open>
  What \<open>pallet_collective\<close> documents of \<open>EnsureProportionAtLeast\<close>, \<open>EnsureProportionMoreThan\<close> and
  \<open>EnsureMember\<close>: a motion passes when its ayes are at least (more than) the proportion of the members.
\<close>

definition proportions_ok :: "gov_env \<Rightarrow> bool" where
  "proportions_ok G \<longleftrightarrow>
     (\<forall>c n d og. gv_at_least G c n d og \<longleftrightarrow> (\<exists>yes m. og = CollectiveMembers c yes m \<and> n * m \<le> yes * d)) \<and>
     (\<forall>c n d og. gv_more_than G c n d og \<longleftrightarrow> (\<exists>yes m. og = CollectiveMembers c yes m \<and> n * m < yes * d)) \<and>
     (\<forall>c og a. gv_member G c og = Some a \<longleftrightarrow> og = CollectiveMember c a)"

definition MoreThanHalfCouncil :: "gov_env \<Rightarrow> origin \<Rightarrow> bool" where
  "MoreThanHalfCouncil G og \<longleftrightarrow> og = Root \<or> gv_more_than G CouncilCollective 1 2 og"

definition EnergyGenerationAdminOrigin :: "gov_env \<Rightarrow> origin \<Rightarrow> bool" where
  "EnergyGenerationAdminOrigin G og \<longleftrightarrow> og = Root \<or> gv_at_least G CouncilCollective 3 4 og"

definition ScheduleOrigin :: "gov_env \<Rightarrow> origin \<Rightarrow> bool" where
  "ScheduleOrigin G og \<longleftrightarrow> og = Root \<or> gv_at_least G CouncilCollective 1 2 og"

definition PayoutOrigin :: "gov_env \<Rightarrow> origin \<Rightarrow> bool" where
  "PayoutOrigin G og \<longleftrightarrow> gv_at_least G CouncilCollective 1 2 og"

definition ElectorateManageOrigin :: "gov_env \<Rightarrow> origin \<Rightarrow> bool" where
  "ElectorateManageOrigin G og \<longleftrightarrow> gv_at_least G TechnicalCollective 2 3 og \<or> og = Root"

text \<open>Spending from the treasuries succeeds with the largest amount.\<close>

definition RootSpendOriginMaxAmount :: balance where "RootSpendOriginMaxAmount = max_w 128"
definition CouncilSpendOriginMaxAmount :: balance where "CouncilSpendOriginMaxAmount = 500000 * UNITS"
definition TechnicalCommitteeSpendOriginMaxAmount :: balance where
  "TechnicalCommitteeSpendOriginMaxAmount = 1000000 * UNITS"

definition SpendOrigin :: "gov_env \<Rightarrow> origin \<Rightarrow> balance option" where
  "SpendOrigin G og =
     (if og = Root then Some RootSpendOriginMaxAmount
      else if gv_at_least G CouncilCollective 3 5 og then Some CouncilSpendOriginMaxAmount else None)"

definition TechnicalSpendOrigin :: "gov_env \<Rightarrow> origin \<Rightarrow> balance option" where
  "TechnicalSpendOrigin G og =
     (if og = Root then Some RootSpendOriginMaxAmount
      else if gv_at_least G TechnicalCollective 2 3 og then Some TechnicalCommitteeSpendOriginMaxAmount else None)"

definition TechnicalRejectOrigin :: "gov_env \<Rightarrow> origin \<Rightarrow> bool" where
  "TechnicalRejectOrigin G og \<longleftrightarrow> og = Root \<or> gv_more_than G TechnicalCollective 1 2 og"

text \<open>The origins of the democracy pallet.\<close>

definition ExternalOrigin :: "gov_env \<Rightarrow> origin \<Rightarrow> bool" where
  "ExternalOrigin G og \<longleftrightarrow> gv_at_least G CouncilCollective 1 2 og \<or> og = Root"
definition ExternalMajorityOrigin :: "gov_env \<Rightarrow> origin \<Rightarrow> bool" where
  "ExternalMajorityOrigin G og \<longleftrightarrow> gv_at_least G CouncilCollective 3 5 og \<or> og = Root"
definition ExternalDefaultOrigin :: "gov_env \<Rightarrow> origin \<Rightarrow> bool" where
  "ExternalDefaultOrigin G og \<longleftrightarrow> gv_at_least G CouncilCollective 1 1 og \<or> og = Root"
definition SubmitOrigin :: "origin \<Rightarrow> account option" where
  "SubmitOrigin og = (case og of Signed a \<Rightarrow> Some a | _ \<Rightarrow> None)"
definition FastTrackOrigin :: "gov_env \<Rightarrow> origin \<Rightarrow> bool" where
  "FastTrackOrigin G og \<longleftrightarrow> gv_at_least G TechnicalCollective 2 3 og \<or> og = Root"
definition InstantOrigin :: "gov_env \<Rightarrow> origin \<Rightarrow> bool" where
  "InstantOrigin G og \<longleftrightarrow> gv_at_least G TechnicalCollective 1 1 og \<or> og = Root"
definition CancellationOrigin :: "gov_env \<Rightarrow> origin \<Rightarrow> bool" where
  "CancellationOrigin G og \<longleftrightarrow> gv_at_least G CouncilCollective 2 3 og \<or> og = Root"
definition BlacklistOrigin :: "origin \<Rightarrow> bool" where
  "BlacklistOrigin og \<longleftrightarrow> og = Root"
definition CancelProposalOrigin :: "gov_env \<Rightarrow> origin \<Rightarrow> bool" where
  "CancelProposalOrigin G og \<longleftrightarrow> gv_at_least G TechnicalCollective 1 1 og \<or> og = Root"
definition VetoOrigin :: "gov_env \<Rightarrow> origin \<Rightarrow> account option" where
  "VetoOrigin G og = gv_member G TechnicalCollective og"

lemmas origin_defs = MoreThanHalfCouncil_def EnergyGenerationAdminOrigin_def ScheduleOrigin_def PayoutOrigin_def
  ElectorateManageOrigin_def SpendOrigin_def TechnicalSpendOrigin_def TechnicalRejectOrigin_def
  ExternalOrigin_def ExternalMajorityOrigin_def ExternalDefaultOrigin_def FastTrackOrigin_def InstantOrigin_def
  CancellationOrigin_def BlacklistOrigin_def CancelProposalOrigin_def VetoOrigin_def

section \<open>Constants\<close>

text \<open>
  \<open>prod_or_fast!\<close> with a variable: in the fast runtime a number the variable holds at compile time,
  \<open>var\<close> here, replaces the default.
\<close>

definition prod_or_fast_env :: "bool \<Rightarrow> nat \<Rightarrow> nat \<Rightarrow> nat option \<Rightarrow> nat" where
  "prod_or_fast_env fast a b var = (if fast then unwrap_or b var else a)"

definition PreimageBaseDeposit :: balance where "PreimageBaseDeposit = deposit 2 64"
definition PreimageByteDeposit :: balance where "PreimageByteDeposit = deposit 0 1"
definition CouncilMotionDuration :: "bool \<Rightarrow> nat option \<Rightarrow> nat" where
  "CouncilMotionDuration fast var = prod_or_fast_env fast (mul_w 32 7 DAYS) (mul_w 32 5 MINUTES) var"
definition CouncilMaxProposals :: nat where "CouncilMaxProposals = 100"
definition CouncilMaxMembers :: nat where "CouncilMaxMembers = 100"
definition DepositBase :: balance where "DepositBase = deposit 1 88"
definition DepositFactor :: balance where "DepositFactor = deposit 0 32"
definition MaxSignatories :: nat where "MaxSignatories = 100"
definition CandidacyBond :: balance where "CandidacyBond = 1 * UNITS"
definition VotingBondBase :: balance where "VotingBondBase = deposit 1 64"
definition VotingBondFactor :: balance where "VotingBondFactor = deposit 0 32"
definition DesiredMembers :: nat where "DesiredMembers = 7"
definition DesiredRunnersUp :: nat where "DesiredRunnersUp = 7"
definition TermDuration :: "bool \<Rightarrow> nat" where
  "TermDuration fast = prod_or_fast fast (mul_w 32 6 MONTHS) (mul_w 32 10 MINUTES)"
definition MaxCandidates :: nat where "MaxCandidates = 64"
definition TechnicalMotionDuration :: "bool \<Rightarrow> nat option \<Rightarrow> nat" where
  "TechnicalMotionDuration fast var = prod_or_fast_env fast (mul_w 32 7 DAYS) (mul_w 32 5 MINUTES) var"
definition TechnicalMaxMembers :: nat where "TechnicalMaxMembers = 100"
definition ProposalBondMinimum :: balance where "ProposalBondMinimum = 10 * MILLI_VTRS"
definition ProposalBondMaximum :: balance where "ProposalBondMaximum = 10 * UNITS"
definition SpendPeriod :: "bool \<Rightarrow> nat option \<Rightarrow> nat" where
  "SpendPeriod fast var = prod_or_fast_env fast (mul_w 32 24 DAYS) 40 var"
definition PayoutSpendPeriod :: nat where "PayoutSpendPeriod = mul_w 32 30 DAYS"
definition DataDepositPerByte :: balance where "DataDepositPerByte = 100 * PICO_VTRS"
definition BountyDepositBase :: balance where "BountyDepositBase = 10 * NANO_VTRS"
definition BountyDepositPayoutDelay :: "bool \<Rightarrow> nat option \<Rightarrow> nat" where
  "BountyDepositPayoutDelay fast var = prod_or_fast_env fast (mul_w 32 8 DAYS) (mul_w 32 6 MINUTES) var"
definition BountyUpdatePeriod :: "bool \<Rightarrow> nat option \<Rightarrow> nat" where
  "BountyUpdatePeriod fast var = prod_or_fast_env fast (mul_w 32 90 DAYS) (mul_w 32 40 MINUTES) var"
definition CuratorDepositMin :: balance where "CuratorDepositMin = 100 * NANO_VTRS"
definition CuratorDepositMax :: balance where "CuratorDepositMax = 2 * MICRO_VTRS"
definition BountyValueMinimum :: balance where "BountyValueMinimum = 100 * NANO_VTRS"
definition LaunchPeriod :: "bool \<Rightarrow> nat option \<Rightarrow> nat" where
  "LaunchPeriod fast var = prod_or_fast_env fast (mul_w 32 3 DAYS) (mul_w 32 3 MINUTES) var"
definition VotingPeriod :: "bool \<Rightarrow> nat option \<Rightarrow> nat" where
  "VotingPeriod fast var = prod_or_fast_env fast (mul_w 32 3 DAYS) (mul_w 32 3 MINUTES) var"
definition FastTrackVotingPeriod :: "bool \<Rightarrow> nat option \<Rightarrow> nat" where
  "FastTrackVotingPeriod fast var = prod_or_fast_env fast (mul_w 32 3 HOURS) MINUTES var"
definition MinimumDeposit :: balance where "MinimumDeposit = UNITS"
definition EnactmentPeriod :: "bool \<Rightarrow> nat option \<Rightarrow> nat" where
  "EnactmentPeriod fast var = prod_or_fast_env fast (mul_w 32 3 DAYS) MINUTES var"
definition CooloffPeriod :: "bool \<Rightarrow> nat option \<Rightarrow> nat" where
  "CooloffPeriod fast var = prod_or_fast_env fast (mul_w 32 7 DAYS) MINUTES var"

lemmas governance_consts = CouncilMotionDuration_def TechnicalMotionDuration_def TermDuration_def SpendPeriod_def
  PayoutSpendPeriod_def BountyDepositPayoutDelay_def BountyUpdatePeriod_def LaunchPeriod_def VotingPeriod_def
  FastTrackVotingPeriod_def EnactmentPeriod_def CooloffPeriod_def prod_or_fast_env_def prod_or_fast_def

text \<open>
  The constants fit each other: bounds are ordered, the genesis collectives fit, a fast-tracked vote is
  not longer than a normal one, and a council term outlasts every motion.
\<close>

lemma governance_constants_fit:
  "DesiredMembers \<le> CouncilMaxMembers" "DesiredMembers + DesiredRunnersUp \<le> MaxCandidates"
  "length council_config \<le> CouncilMaxMembers" "length technical_committee_config \<le> TechnicalMaxMembers"
  "ProposalBondMinimum \<le> ProposalBondMaximum" "CuratorDepositMin \<le> CuratorDepositMax"
  "FastTrackVotingPeriod fast None \<le> VotingPeriod fast None"
  "BountyDepositPayoutDelay fast None \<le> BountyUpdatePeriod fast None"
  "CouncilMotionDuration fast None < TermDuration fast"
  by (simp_all add: DesiredMembers_def CouncilMaxMembers_def DesiredRunnersUp_def MaxCandidates_def
      TechnicalMaxMembers_def council_config_def technical_committee_config_def ProposalBondMinimum_def
      ProposalBondMaximum_def CuratorDepositMin_def CuratorDepositMax_def governance_consts time_defs unit_defs)

section \<open>The pallets' environments in the runtime\<close>

definition SwapFee :: nat where "SwapFee = 10"
definition BurnedEnergySessionsCount :: "bool \<Rightarrow> nat" where
  "BurnedEnergySessionsCount fast = mul_w 32 84 (SessionsPerEra fast)"
definition ExpectedSessionDuration :: "bool \<Rightarrow> nat" where
  "ExpectedSessionDuration fast = mul_w 32 (EPOCH_DURATION_IN_BLOCKS fast) (SECS_PER_BLOCK mod 2 ^ 32)"
definition DefaultDepositFeePercent :: nat where "DefaultDepositFeePercent = 1"
definition DefaultWithdrawalFeePercent :: nat where "DefaultWithdrawalFeePercent = 9"
definition FaucetMaxAmount :: balance where "FaucetMaxAmount = 1000 * UNITS"
definition FaucetAccumulationPeriod :: nat where "FaucetAccumulationPeriod = mul_w 32 1 DAYS"

text \<open>A percentage of \<open>Permill\<close> is ten thousand millionths.\<close>

definition SpendThreshold :: nat where "SpendThreshold = 10 * 10000"
definition TreasuryTargetBalance :: balance where "TreasuryTargetBalance = 100000000 * UNITS"
definition FeeRecyclingBaseRate :: nat where "FeeRecyclingBaseRate = 12 * 10000"
definition FeeRecyclingScalingFactor :: nat where "FeeRecyclingScalingFactor = 2 * 10000"

definition governed_staking_env :: "gov_env \<Rightarrow> bool \<Rightarrow> 'x staking_env \<Rightarrow> 'x staking_env" where
  "governed_staking_env G fast E = (runtime_staking_env fast E)\<lparr>c_admin_origin := EnergyGenerationAdminOrigin G\<rparr>"

definition runtime_dyn_env :: "bool \<Rightarrow> dyn_env \<Rightarrow> dyn_env" where
  "runtime_dyn_env fast D = D\<lparr>d_manage_origin := (\<lambda>og. og = Root), d_sessions_per_era := SessionsPerEra fast,
     d_expected_session_duration := ExpectedSessionDuration fast\<rparr>"

definition runtime_broker_env :: "spec_env \<Rightarrow> bool \<Rightarrow> 'x broker_env \<Rightarrow> 'x broker_env" where
  "runtime_broker_env X fast B = B\<lparr>b_manage_origin := (\<lambda>og. og = Root), b_feeless := (\<lambda>a. a = treasury_address X),
     b_swap_fee := SwapFee, b_burned_sessions := BurnedEnergySessionsCount fast\<rparr>"

definition runtime_fee_env :: "gov_env \<Rightarrow> spec_env \<Rightarrow> bool \<Rightarrow> ('x, 'i) fee_env \<Rightarrow> ('x, 'i) fee_env" where
  "runtime_fee_env G X fast F = F\<lparr>f_manage_origin := MoreThanHalfCouncil G,
     f_broker := runtime_broker_env X fast (f_broker F)\<rparr>"

definition runtime_nac_env :: "'x nac_env \<Rightarrow> 'x nac_env" where
  "runtime_nac_env N = N\<lparr>n_admin_origin := (\<lambda>og. og = Root), n_collection := 0, n_vipp_collection := 1,
     n_key_limit := 50, n_value_limit := 50\<rparr>"

definition runtime_bridge_env :: "gov_env \<Rightarrow> spec_env \<Rightarrow> account \<Rightarrow> 'x bridge_env \<Rightarrow> 'x bridge_env" where
  "runtime_bridge_env G X check_account Z = Z\<lparr>g_payout_origin := PayoutOrigin G, g_bridge_account := check_account,
     g_fee_receiver := treasury_address X, g_deposit_fee_percent := DefaultDepositFeePercent,
     g_withdrawal_fee_percent := DefaultWithdrawalFeePercent\<rparr>"

definition runtime_democracy_env :: "gov_env \<Rightarrow> 'x democracy_env \<Rightarrow> 'x democracy_env" where
  "runtime_democracy_env G M = M\<lparr>m_manage_origin := ElectorateManageOrigin G\<rparr>"

definition runtime_treasury_env :: "'x treasury_env \<Rightarrow> 'x treasury_env" where
  "runtime_treasury_env T = T\<lparr>t_spend_threshold := SpendThreshold, t_target_balance := TreasuryTargetBalance,
     t_base_rate := FeeRecyclingBaseRate, t_scaling_factor := FeeRecyclingScalingFactor\<rparr>"

definition runtime_faucet_env :: "'x faucet_env \<Rightarrow> 'x faucet_env" where
  "runtime_faucet_env F = F\<lparr>MaxAmount := FaucetMaxAmount, AccumulationPeriod := FaucetAccumulationPeriod\<rparr>"

lemmas runtime_envs = governed_staking_env_def runtime_dyn_env_def runtime_broker_env_def runtime_fee_env_def
  runtime_nac_env_def runtime_bridge_env_def runtime_democracy_env_def

text \<open>
  The windows of the runtime agree: the broker counts as many sessions as the staking history has eras,
  and a session lasts as long as the blocks of an epoch. The swap fee of ten is one percent.
\<close>

lemma runtime_windows:
  "BurnedEnergySessionsCount fast = HistoryDepth * SessionsPerEra fast"
  "ExpectedSessionDuration fast * 1000 = EPOCH_DURATION_IN_BLOCKS fast * MILLISECS_PER_BLOCK"
  by (simp_all add: BurnedEnergySessionsCount_def ExpectedSessionDuration_def staking_consts mul_w_def
      EPOCH_DURATION_IN_BLOCKS_def time_defs)

lemma swap_fee_is_one_percent:
  assumes "amount < 2 ^ 128"
  shows "to_amount_with_fee_deducted amount SwapFee = Inr (amount * 99 div 100)"
proof -
  have "amount * 990 div 1000 = (amount * 99 * 10) div (100 * 10)" by simp
  also have "\<dots> = amount * 99 div 100" by (rule div_mult_mult2) simp
  finally have q: "amount * 990 div 1000 = amount * 99 div 100" .
  then show ?thesis
    using assms by (simp add: to_amount_with_fee_deducted_def SwapFee_def checked_mul_def checked_div_def try_into_def
        max_w_def)
qed

section \<open>Administration\<close>

text \<open>Whether an origin may make a staking call: who signs, what only the root may do, what the council may.\<close>

definition council_at_least :: "nat \<Rightarrow> nat \<Rightarrow> origin \<Rightarrow> bool" where
  "council_at_least n d og \<longleftrightarrow> (\<exists>yes m. og = CollectiveMembers CouncilCollective yes m \<and> n * m \<le> d * yes)"

definition root_call :: "staking_call \<Rightarrow> bool" where
  "root_call call = (case call of
     Call_set_validator_count _ \<Rightarrow> True | Call_increase_validator_count _ \<Rightarrow> True
   | Call_scale_validator_count _ \<Rightarrow> True | Call_set_core_nodes_count _ \<Rightarrow> True | Call_force_no_eras \<Rightarrow> True
   | Call_force_new_era \<Rightarrow> True | Call_set_invulnerables _ \<Rightarrow> True | Call_force_unstake _ _ \<Rightarrow> True
   | Call_force_new_era_always \<Rightarrow> True | Call_set_staking_configs _ _ _ _ _ _ _ \<Rightarrow> True
   | Call_force_chill _ \<Rightarrow> True | _ \<Rightarrow> False)"

definition council_call :: "staking_call \<Rightarrow> bool" where
  "council_call call = (case call of
     Call_cancel_deferred_slash _ _ \<Rightarrow> True | Call_set_min_commission _ \<Rightarrow> True
   | Call_set_energy_per_stake_currency _ \<Rightarrow> True | Call_set_block_authoring_reward _ \<Rightarrow> True | _ \<Rightarrow> False)"

lemma proportionsD:
  assumes "proportions_ok G"
  shows "gv_at_least G c n d og \<longleftrightarrow> (\<exists>yes m. og = CollectiveMembers c yes m \<and> n * m \<le> yes * d)"
    "gv_more_than G c n d og \<longleftrightarrow> (\<exists>yes m. og = CollectiveMembers c yes m \<and> n * m < yes * d)"
    "gv_member G c og = Some a \<longleftrightarrow> og = CollectiveMember c a"
  using assms by (simp_all add: proportions_ok_def)

lemma refused:
  "\<nexists>a. og = Signed a \<Longrightarrow> ensure_signed og = Inl BadOrigin" "og \<noteq> Root \<Longrightarrow> ensure_root og = Inl BadOrigin"
  by (cases og; simp)+

lemma rbind_weak_cong: "r = r' \<Longrightarrow> rbind r f = rbind r' f"
  by simp

lemma admin_refused:
  assumes "proportions_ok G" "og \<noteq> Root" "\<not> council_at_least 3 4 og"
  shows "ensure_admin (governed_staking_env G fast E) og = Inl BadOrigin"
  using assms(2,3)
  by (auto simp: ensure_admin_def governed_staking_env_def EnergyGenerationAdminOrigin_def council_at_least_def
      proportionsD [OF assms(1)] mult.commute ensure_def)

lemmas signed_calls = bond_def bond_extra_def unbond_def withdraw_unbonded_def validate_def cooperate_def chill_def
  set_payee_def set_controller_def payout_stakers_def rebond_def reap_stash_def kick_def chill_other_def
  make_collaborative_def force_apply_min_commission_def

lemmas root_calls = set_validator_count_def increase_validator_count_def scale_validator_count_def
  set_core_nodes_count_def force_no_eras_def force_new_era_def force_new_era_always_def force_era_mode_def
  set_invulnerables_def force_unstake_def set_staking_configs_def force_chill_def

lemmas admin_calls = cancel_deferred_slash_def set_min_commission_def set_energy_per_stake_currency_def
  set_block_authoring_reward_def

lemma staking_call_gated:
  assumes "proportions_ok G" "staking_dispatch (governed_staking_env G fast E) og call s = Inr s'"
  shows "if root_call call then og = Root
    else if council_call call then og = Root \<or> council_at_least 3 4 og
    else \<exists>a. og = Signed a"
proof (rule ccontr)
  assume bad: "\<not> ?thesis"
  have False if "root_call call"
  proof -
    have "og \<noteq> Root" using bad that by simp
    note r = refused(2) [OF this]
    from assms(2) that show False
      by (cases call) (simp_all only: staking_dispatch.simps root_calls r rbind_Inl sum.distinct root_call_def
        staking_call.case cong: rbind_weak_cong)
  qed
  moreover have False if "council_call call" "\<not> root_call call"
  proof -
    have "og \<noteq> Root" "\<not> council_at_least 3 4 og" using bad that by simp_all
    then have "ensure_admin (governed_staking_env G fast E) og = Inl BadOrigin" by (rule admin_refused [OF assms(1)])
    with assms(2) that show False
      by (cases call) (simp_all only: staking_dispatch.simps admin_calls rbind_Inl sum.distinct council_call_def
        staking_call.case cong: rbind_weak_cong)
  qed
  moreover have False if "\<not> council_call call" "\<not> root_call call"
  proof -
    have "\<nexists>a. og = Signed a" using bad that by simp
    note r = refused(1) [OF this]
    from assms(2) that show False
      by (cases call) (simp_all only: staking_dispatch.simps signed_calls r rbind_Inl sum.distinct root_call_def
        council_call_def staking_call.case not_False_eq_True not_True_eq_False cong: rbind_weak_cong)
  qed
  ultimately show False by blast
qed

definition council_more_than_half :: "origin \<Rightarrow> bool" where
  "council_more_than_half og \<longleftrightarrow> (\<exists>yes m. og = CollectiveMembers CouncilCollective yes m \<and> m < 2 * yes)"

definition committee_at_least :: "nat \<Rightarrow> nat \<Rightarrow> origin \<Rightarrow> bool" where
  "committee_at_least n d og \<longleftrightarrow> (\<exists>yes m. og = CollectiveMembers TechnicalCollective yes m \<and> n * m \<le> d * yes)"

lemma runtime_origins:
  assumes "proportions_ok G"
  shows "MoreThanHalfCouncil G og \<longleftrightarrow> og = Root \<or> council_more_than_half og"
    "EnergyGenerationAdminOrigin G og \<longleftrightarrow> og = Root \<or> council_at_least 3 4 og"
    "PayoutOrigin G og \<longleftrightarrow> council_at_least 1 2 og"
    "ElectorateManageOrigin G og \<longleftrightarrow> og = Root \<or> committee_at_least 2 3 og"
  by (auto simp: origin_defs proportionsD [OF assms] council_more_than_half_def council_at_least_def
      committee_at_least_def mult.commute)

lemma bound_refused:
  "og \<noteq> Root \<Longrightarrow> isl (rbind (ensure_root og) f)" "\<not> b \<Longrightarrow> isl (rbind (ensure b BadOrigin) f)"
  by (simp_all add: refused(2) ensure_def)

lemma gate: "(\<not> allowed \<Longrightarrow> \<forall>r\<in>A. isl r) \<Longrightarrow> \<forall>r\<in>A. \<not> isl r \<longrightarrow> allowed"
  by blast

lemma fee_calls_gated:
  assumes "proportions_ok G" "\<not> (og = Root \<or> council_more_than_half og)"
  shows "isl (update_burned_energy_threshold (runtime_fee_env G X fast F) og v s)"
    "isl (update_block_fullness_threshold (runtime_fee_env G X fast F) og n s)"
    "isl (update_upper_fee_multiplier (runtime_fee_env G X fast F) og n s)"
    "isl (update_base_fee (runtime_fee_env G X fast F) og v s)"
  using assms(2)
  by (simp_all add: runtime_fee_env_def runtime_origins [OF assms(1)] bound_refused update_burned_energy_threshold_def
      update_block_fullness_threshold_def update_upper_fee_multiplier_def update_base_fee_def)

lemma broker_calls_gated:
  assumes "og \<noteq> Root"
  shows "isl (force_add_liquidity (runtime_broker_env X fast B) og source asset v keep s)"
    "isl (force_set_capacity (runtime_broker_env X fast B) og c s)"
  using assms by (simp_all add: runtime_broker_env_def bound_refused force_add_liquidity_def force_set_capacity_def)

lemma dyn_calls_gated:
  assumes "og \<noteq> Root"
  shows "isl (force_set_energy_burn (runtime_dyn_env fast D) og v s)"
    "isl (force_set_energy_sale (runtime_dyn_env fast D) og v s)"
    "isl (force_set_total_stake (runtime_dyn_env fast D) og v s)"
    "isl (set_annual_percentage_rate (runtime_dyn_env fast D) og n s)"
    "isl (set_generation_rate_smooth_factor (runtime_dyn_env fast D) og n s)"
    "isl (set_exchange_rate_smooth_factor (runtime_dyn_env fast D) og n s)"
    "isl (set_multiplier_coefficients (runtime_dyn_env fast D) og a b c d s)"
    "isl (set_minimum_energy_generation (runtime_dyn_env fast D) og v s)"
  using assms
  by (simp_all add: runtime_dyn_env_def ensure_manager_def bound_refused force_set_energy_burn_def force_set_energy_sale_def
      force_set_total_stake_def set_annual_percentage_rate_def set_generation_rate_smooth_factor_def
      set_exchange_rate_smooth_factor_def set_multiplier_coefficients_def set_minimum_energy_generation_def)

lemma nac_calls_gated:
  assumes "og \<noteq> Root"
  shows "isl (nac_mint (runtime_nac_env N) now og level owner s)" "isl (update_nft (runtime_nac_env N) og l owner s)"
    "isl (check_nac_level (runtime_nac_env N) og owner s)"
  using assms by (simp_all add: runtime_nac_env_def bound_refused nac_mint_def update_nft_def check_nac_level_def)

lemma reputation_calls_gated:
  assumes "og \<noteq> Root"
  shows "isl (force_set_points L now og a points s)" "isl (increase_points L og a points s)"
    "isl (slash_points L now og a points s)" "isl (force_reset_points L now og s)"
  using assms
  by (simp_all add: bound_refused force_set_points_def increase_points_def slash_points_def force_reset_points_def)

lemma privileges_calls_gated:
  assumes "og \<noteq> Root"
  shows "isl (update_time P og y m d w)" "isl (force_set_vip_points og year a v w)"
    "isl (force_set_vipp_points og year a v w)" "isl (set_rewards P og year v v' w)"
  using assms
  by (simp_all add: bound_refused update_time_def force_set_vip_points_def force_set_vipp_points_def set_rewards_def)

lemma funds_calls_gated:
  assumes "og \<noteq> Root"
  shows "isl (mint_tokens_to_claim C og v cs)" "isl (mint_claim og eth v schedule data cs)"
    "isl (force_vested_transfer V og source dest info vs)" "isl (force_remove_vesting V og who vs)"
  using assms
  by (simp_all add: bound_refused mint_tokens_to_claim_def mint_claim_def force_vested_transfer_def
      force_remove_vesting_def)

text \<open>C18. In the runtime every administrative call of the program's own pallets is gated: unless it comes from
  the root, it fails, but for a motion of the council with three quarters of the ayes for the staking
  pallet's parameters and deferred slashes, of more than half for the fee parameters, of half for a payout
  of the bridge (which the root itself cannot make), and a motion of two thirds of the technical
  committee for the electorate. No account and no single member of a collective administers anything,
  and the staking calls of users are signed.\<close>

theorem administration_gated:
  assumes "proportions_ok G"
  shows "(\<not> isl (staking_dispatch (governed_staking_env G fast E) og call s) \<longrightarrow>
       (if root_call call then og = Root else if council_call call then og = Root \<or> council_at_least 3 4 og
        else \<exists>a. og = Signed a)) \<and>
     (\<forall>r \<in> {update_base_fee (runtime_fee_env G X fast F) og v fs,
           update_burned_energy_threshold (runtime_fee_env G X fast F) og v fs,
           update_block_fullness_threshold (runtime_fee_env G X fast F) og n fs,
           update_upper_fee_multiplier (runtime_fee_env G X fast F) og n fs}.
       \<not> isl r \<longrightarrow> og = Root \<or> council_more_than_half og) \<and>
     (\<not> isl (bridge_payout (runtime_bridge_env G X check Z) og dest v bs) \<longrightarrow> council_at_least 1 2 og) \<and>
     (\<not> isl (set_electorate (runtime_democracy_env G M) og v ds) \<longrightarrow> og = Root \<or> committee_at_least 2 3 og) \<and>
     (\<forall>r \<in> {force_set_capacity (runtime_broker_env X fast B) og opt rs,
           force_add_liquidity (runtime_broker_env X fast B) og source asset v keep rs}.
       \<not> isl r \<longrightarrow> og = Root) \<and>
     (\<forall>r \<in> {force_set_energy_burn (runtime_dyn_env fast D) og opt ys, force_set_energy_sale (runtime_dyn_env fast D) og opt ys,
           force_set_total_stake (runtime_dyn_env fast D) og opt ys, set_annual_percentage_rate (runtime_dyn_env fast D) og n ys,
           set_generation_rate_smooth_factor (runtime_dyn_env fast D) og n ys,
           set_exchange_rate_smooth_factor (runtime_dyn_env fast D) og n ys,
           set_multiplier_coefficients (runtime_dyn_env fast D) og c0 c1 c2 c3 ys,
           set_minimum_energy_generation (runtime_dyn_env fast D) og opt ys}.
       \<not> isl r \<longrightarrow> og = Root) \<and>
     (\<forall>r \<in> {nac_mint (runtime_nac_env N) now og level owner ns, update_nft (runtime_nac_env N) og new_level owner ns,
           check_nac_level (runtime_nac_env N) og owner ns}.
       \<not> isl r \<longrightarrow> og = Root) \<and>
     (\<forall>r \<in> {force_set_points L now og who n ps, increase_points L og who n ps, slash_points L now og who n ps,
           force_reset_points L now og ps}.
       \<not> isl r \<longrightarrow> og = Root) \<and>
     (\<forall>r \<in> {update_time P og y m d ws, force_set_vip_points og year who v ws, force_set_vipp_points og year who v ws,
           set_rewards P og year v v' ws}.
       \<not> isl r \<longrightarrow> og = Root) \<and>
     (\<forall>r \<in> {mint_tokens_to_claim C og v cs, mint_claim og eth v schedule data cs}. \<not> isl r \<longrightarrow> og = Root) \<and>
     (\<forall>r \<in> {force_vested_transfer V og source dest info vs, force_remove_vesting V og who vs}. \<not> isl r \<longrightarrow> og = Root)"
proof -
  have staking: "if root_call call then og = Root else if council_call call then og = Root \<or> council_at_least 3 4 og
      else \<exists>a. og = Signed a" if ok: "\<not> isl (staking_dispatch (governed_staking_env G fast E) og call s)"
  proof -
    obtain s' where "staking_dispatch (governed_staking_env G fast E) og call s = Inr s'"
      using ok by (cases "staking_dispatch (governed_staking_env G fast E) og call s") simp_all
    then show ?thesis by (rule staking_call_gated [OF assms])
  qed
  have bridge: "isl (bridge_payout (runtime_bridge_env G X check Z) og dest v bs)" if "\<not> council_at_least 1 2 og"
    using that by (simp add: bridge_payout_def runtime_bridge_env_def runtime_origins [OF assms] bound_refused)
  have electorate: "isl (set_electorate (runtime_democracy_env G M) og v ds)"
    if "\<not> (og = Root \<or> committee_at_least 2 3 og)"
    using that by (simp add: set_electorate_def runtime_democracy_env_def runtime_origins [OF assms] bound_refused)
  note root_only = broker_calls_gated dyn_calls_gated nac_calls_gated reputation_calls_gated
    privileges_calls_gated funds_calls_gated
  show ?thesis
  proof (intro conjI)
    show "\<not> isl (staking_dispatch (governed_staking_env G fast E) og call s) \<longrightarrow>
       (if root_call call then og = Root else if council_call call then og = Root \<or> council_at_least 3 4 og
        else \<exists>a. og = Signed a)"
      using staking by (rule impI)
    show "\<not> isl (bridge_payout (runtime_bridge_env G X check Z) og dest v bs) \<longrightarrow> council_at_least 1 2 og"
      "\<not> isl (set_electorate (runtime_democracy_env G M) og v ds) \<longrightarrow> og = Root \<or> committee_at_least 2 3 og"
      using bridge electorate by blast+
  qed (rule gate, simp add: fee_calls_gated [OF assms] root_only)+
qed

definition demo_gov :: gov_env where
  "demo_gov = \<lparr>gv_at_least = (\<lambda>c n d og. case og of CollectiveMembers c' yes m \<Rightarrow> c' = c \<and> n * m \<le> yes * d | _ \<Rightarrow> False),
     gv_more_than = (\<lambda>c n d og. case og of CollectiveMembers c' yes m \<Rightarrow> c' = c \<and> n * m < yes * d | _ \<Rightarrow> False),
     gv_member = (\<lambda>c og. case og of CollectiveMember c' a \<Rightarrow> if c' = c then Some a else None | _ \<Rightarrow> None)\<rparr>"

lemma demo_gov_ok: "proportions_ok demo_gov"
  by (auto simp: proportions_ok_def demo_gov_def split: origin.splits if_splits)

theorem administration_gated_witness:
  "\<exists>s'. staking_dispatch (governed_staking_env demo_gov True demo_env) (CollectiveMembers CouncilCollective 7 9)
       (Call_set_min_commission 5) demo_state = Inr s' \<and> MinCommission s' = 5 \<and>
     council_at_least 3 4 (CollectiveMembers CouncilCollective 7 9)"
proof -
  let ?og = "CollectiveMembers CouncilCollective 7 9"
  obtain s' where s: "staking_dispatch (governed_staking_env demo_gov True demo_env) ?og (Call_set_min_commission 5)
      demo_state = Inr s'" "MinCommission s' = 5"
    by (simp add: set_min_commission_def ensure_admin_def governed_staking_env_def EnergyGenerationAdminOrigin_def
        demo_gov_def)
  moreover have "council_at_least 3 4 ?og"
    using conjunct1 [OF administration_gated [OF demo_gov_ok, where fast = True and E = demo_env and og = ?og
        and call = "Call_set_min_commission 5" and s = demo_state]] s(1)
    by (simp add: root_call_def council_call_def)
  ultimately show ?thesis by blast
qed

section \<open>Majorities\<close>

text \<open>
  Among the council's origins a stricter one implies a laxer one, whatever the size of the council; the
  technical committee's likewise.
\<close>

lemma stricter_motions_pass:
  assumes G: "proportions_ok G"
  shows "ExternalDefaultOrigin G og \<Longrightarrow> EnergyGenerationAdminOrigin G og"
    "EnergyGenerationAdminOrigin G og \<Longrightarrow> CancellationOrigin G og"
    "CancellationOrigin G og \<Longrightarrow> ExternalMajorityOrigin G og"
    "ExternalMajorityOrigin G og \<Longrightarrow> SpendOrigin G og \<noteq> None"
    "ExternalMajorityOrigin G og \<Longrightarrow> ExternalOrigin G og"
    "MoreThanHalfCouncil G og \<Longrightarrow> ScheduleOrigin G og"
    "InstantOrigin G og \<Longrightarrow> FastTrackOrigin G og"
    "CancelProposalOrigin G og \<longleftrightarrow> InstantOrigin G og"
  by (auto simp: origin_defs proportionsD [OF G])

text \<open>Half of an even council is at least one half, but no majority.\<close>

lemma half_is_no_majority:
  assumes G: "proportions_ok G"
  shows "ExternalOrigin G (CollectiveMembers CouncilCollective k (2 * k))"
    "PayoutOrigin G (CollectiveMembers CouncilCollective k (2 * k))"
    "\<not> MoreThanHalfCouncil G (CollectiveMembers CouncilCollective k (2 * k))"
  by (auto simp: origin_defs proportionsD [OF G])

text \<open>C19. With the council and the technical committee of the main network's genesis, a motion of the council
  needs exactly: five of the nine ayes to change a fee, to pay out of the bridge, to schedule a call and to
  table a referendum; six to spend from the treasury, then at most 500000 units, and to cancel a
  referendum; seven to change a staking parameter; all nine for a referendum that passes by default. It
  never sets the electorate. The committee of two needs both ayes for anything, then spends at most a
  million units, and one member alone can only veto.\<close>

theorem genesis_council_majorities:
  assumes "proportions_ok G" and "genesis = mainnet_genesis X D root_key vs invulnerables"
    and "council = CollectiveMembers CouncilCollective ayes (length (rg_council genesis))" "ayes \<le> length (rg_council genesis)"
    and "committee = CollectiveMembers TechnicalCollective tech (length (rg_technical_committee genesis))"
      "tech \<le> length (rg_technical_committee genesis)"
  shows "((\<exists>s'. update_base_fee (runtime_fee_env G X fast F) council v fs = Inr s') \<longleftrightarrow> 5 \<le> ayes) \<and>
    (PayoutOrigin G council \<longleftrightarrow> 5 \<le> ayes) \<and> (ScheduleOrigin G council \<longleftrightarrow> 5 \<le> ayes) \<and>
    (ExternalOrigin G council \<longleftrightarrow> 5 \<le> ayes) \<and>
    SpendOrigin G council = (if 6 \<le> ayes then Some (500000 * UNITS) else None) \<and>
    (CancellationOrigin G council \<longleftrightarrow> 6 \<le> ayes) \<and>
    ((\<exists>s'. set_min_commission (governed_staking_env G fast E) council n s = Inr s') \<longleftrightarrow> 7 \<le> ayes) \<and>
    (ExternalDefaultOrigin G council \<longleftrightarrow> ayes = 9) \<and>
    set_electorate (runtime_democracy_env G M) council v ds = Inl BadOrigin \<and>
    ((\<exists>s'. set_electorate (runtime_democracy_env G M) committee v ds = Inr s') \<longleftrightarrow> tech = 2) \<and>
    (FastTrackOrigin G committee \<longleftrightarrow> tech = 2) \<and> (InstantOrigin G committee \<longleftrightarrow> tech = 2) \<and>
    TechnicalSpendOrigin G committee = (if tech = 2 then Some (1000000 * UNITS) else None) \<and>
    (TechnicalRejectOrigin G committee \<longleftrightarrow> tech = 2) \<and>
    VetoOrigin G (CollectiveMember TechnicalCollective a) = Some a \<and>
    \<not> FastTrackOrigin G (CollectiveMember TechnicalCollective a)"
proof -
  have c: "council = CollectiveMembers CouncilCollective ayes 9" "ayes \<le> 9"
    and t: "committee = CollectiveMembers TechnicalCollective tech 2" "tech \<le> 2"
    using assms(2-6) by (simp_all add: mainnet_genesis_def Let_def council_config_def technical_committee_config_def)
  note p = proportionsD [OF assms(1)]
  have "(\<exists>s'. update_base_fee (runtime_fee_env G X fast F) council v fs = Inr s') \<longleftrightarrow> 5 \<le> ayes"
    by (auto simp: update_base_fee_def runtime_fee_env_def MoreThanHalfCouncil_def p c(1) ensure_def)
  moreover have "PayoutOrigin G council \<longleftrightarrow> 5 \<le> ayes" "ScheduleOrigin G council \<longleftrightarrow> 5 \<le> ayes"
    "ExternalOrigin G council \<longleftrightarrow> 5 \<le> ayes" "CancellationOrigin G council \<longleftrightarrow> 6 \<le> ayes"
    "ExternalDefaultOrigin G council \<longleftrightarrow> ayes = 9" "FastTrackOrigin G committee \<longleftrightarrow> tech = 2"
    "InstantOrigin G committee \<longleftrightarrow> tech = 2" "TechnicalRejectOrigin G committee \<longleftrightarrow> tech = 2"
    using c(2) t(2) by (auto simp: origin_defs p c(1) t(1))
  moreover have "SpendOrigin G council = (if 6 \<le> ayes then Some (500000 * UNITS) else None)"
    "TechnicalSpendOrigin G committee = (if tech = 2 then Some (1000000 * UNITS) else None)"
    using t(2) by (auto simp: origin_defs p c(1) t(1) CouncilSpendOriginMaxAmount_def TechnicalCommitteeSpendOriginMaxAmount_def)
  moreover have "(\<exists>s'. set_min_commission (governed_staking_env G fast E) council n s = Inr s') \<longleftrightarrow> 7 \<le> ayes"
    by (auto simp: set_min_commission_def ensure_admin_def governed_staking_env_def EnergyGenerationAdminOrigin_def p c(1)
        ensure_def)
  moreover have "set_electorate (runtime_democracy_env G M) council v ds = Inl BadOrigin"
    "(\<exists>s'. set_electorate (runtime_democracy_env G M) committee v ds = Inr s') \<longleftrightarrow> tech = 2"
    using t(2) by (auto simp: set_electorate_def runtime_democracy_env_def ElectorateManageOrigin_def p c(1) t(1) ensure_def)
  moreover have "VetoOrigin G (CollectiveMember TechnicalCollective a) = Some a"
    "\<not> FastTrackOrigin G (CollectiveMember TechnicalCollective a)"
    by (auto simp: VetoOrigin_def FastTrackOrigin_def p)
  ultimately show ?thesis by (intro conjI) assumption+
qed

theorem genesis_council_majorities_witness:
  "(\<exists>s'. set_min_commission (governed_staking_env demo_gov False demo_env) (CollectiveMembers CouncilCollective 7 9) 5
       demo_state = Inr s') \<and>
   \<not> (\<exists>s'. set_min_commission (governed_staking_env demo_gov False demo_env) (CollectiveMembers CouncilCollective 6 9) 5
       demo_state = Inr s')"
proof -
  let ?g = "mainnet_genesis demo_spec demo_chain_data mainnet_root mainnet_validators []"
  have len: "length (rg_council ?g) = 9" "length (rg_technical_committee ?g) = 2"
    by (simp_all add: mainnet_genesis_def Let_def council_config_def technical_committee_config_def)
  have k: "(\<exists>s'. set_min_commission (governed_staking_env demo_gov False demo_env) (CollectiveMembers CouncilCollective k 9) 5
      demo_state = Inr s') \<longleftrightarrow> 7 \<le> k" if "k \<le> 9" for k
    using that by (intro genesis_council_majorities [OF demo_gov_ok refl refl _ refl, where X = demo_spec and ayes = k
        and D = demo_chain_data and root_key = mainnet_root and vs = mainnet_validators and invulnerables = "[]" and tech = 1,
        unfolded len, THEN conjunct2, THEN conjunct2, THEN conjunct2, THEN conjunct2, THEN conjunct2, THEN conjunct2,
        THEN conjunct1]) simp_all
  show ?thesis using k [of 7] k [of 6] by simp
qed

end
