(* ===== verification/Erc20.thy ===== *)
theory Erc20
  imports Claiming
begin

text \<open>
  The precompile \<open>precompiles/balances-erc20\<close>: the native balances as an ERC-20 token for the EVM, with
  allowances of its own and permits by signature (EIP-2612).

  The handle of the EVM (gas, logs), the dispatch of \<open>transfer_allow_death\<close> with its gas, the balances,
  the clock, Keccak, the recovery of a public key and the Solidity encoding are fields of the parameter
  \<open>E\<close>; the handle and the balances are one world of type \<open>'x\<close>. A failing call discards its state. An
  address is a list of 20 bytes, a \<open>U256\<close> a \<open>nat\<close> below \<open>2 ^ 256\<close>, a balance is a \<open>u128\<close>.
\<close>

section \<open>Data\<close>

datatype revert_reason = CustomRevert string | ValueTooLarge string | UnknownSelector

datatype evm_error = Revert revert_reason "string list" | EvmExit string | EvmPanic

datatype evm_log = EvmLog eth_address "bytes list" bytes

datatype sol_value = SolH256 bytes | SolAddress eth_address | SolU256 nat

record evm_context =
  cx_address :: eth_address
  cx_caller :: eth_address
  cx_apparent_value :: nat

record 'x erc20 =
  Approves :: "account \<times> account \<rightharpoonup> balance"
  Nonces :: "eth_address \<Rightarrow> nat"
  er_ext :: 'x

type_synonym 'x evm_effect = "'x \<Rightarrow> evm_error + 'x"

record 'x erc20_env =
  e_account :: "eth_address \<Rightarrow> account"
  e_name :: string
  e_symbol :: string
  e_decimals :: nat
  e_is_native_currency :: bool
  e_chain_id :: nat
  e_write_gas :: nat
  e_keccak :: "bytes \<Rightarrow> bytes"
  e_recover :: "bytes \<Rightarrow> bytes \<Rightarrow> bytes option"
  e_encode_arguments :: "sol_value list \<Rightarrow> bytes"
  e_event_data :: "nat \<Rightarrow> bytes"
  ex_db_read :: "nat \<Rightarrow> 'x evm_effect"
  ex_record_cost :: "nat \<Rightarrow> 'x evm_effect"
  ex_log_costs :: "nat \<Rightarrow> nat \<Rightarrow> 'x evm_effect"
  ex_log :: "evm_log \<Rightarrow> 'x evm_effect"
  ex_transfer_allow_death :: "account \<Rightarrow> account \<Rightarrow> balance \<Rightarrow> 'x evm_effect"
  ex_total_issuance :: "'x \<Rightarrow> balance"
  ex_usable_balance :: "'x \<Rightarrow> account \<Rightarrow> balance"
  ex_now :: "'x \<Rightarrow> nat"

type_synonym 'x erc20_result = "evm_error + 'x erc20"

definition text_bytes :: "string \<Rightarrow> bytes" where
  "text_bytes s = map of_char s"

definition SELECTOR_LOG_TRANSFER :: "'x erc20_env \<Rightarrow> bytes" where
  "SELECTOR_LOG_TRANSFER E = e_keccak E (text_bytes ''Transfer(address,address,uint256)'')"

definition SELECTOR_LOG_APPROVAL :: "'x erc20_env \<Rightarrow> bytes" where
  "SELECTOR_LOG_APPROVAL E = e_keccak E (text_bytes ''Approval(address,address,uint256)'')"

definition SELECTOR_LOG_DEPOSIT :: "'x erc20_env \<Rightarrow> bytes" where
  "SELECTOR_LOG_DEPOSIT E = e_keccak E (text_bytes ''Deposit(address,uint256)'')"

definition SELECTOR_LOG_WITHDRAWAL :: "'x erc20_env \<Rightarrow> bytes" where
  "SELECTOR_LOG_WITHDRAWAL E = e_keccak E (text_bytes ''Withdrawal(address,uint256)'')"

definition PERMIT_TYPEHASH :: "'x erc20_env \<Rightarrow> bytes" where
  "PERMIT_TYPEHASH E = e_keccak E (text_bytes
     ''Permit(address owner,address spender,uint256 value,uint256 nonce,uint256 deadline)'')"

definition PERMIT_DOMAIN :: "'x erc20_env \<Rightarrow> bytes" where
  "PERMIT_DOMAIN E = e_keccak E (text_bytes
     ''EIP712Domain(string name,string version,uint256 chainId,address verifyingContract)'')"

section \<open>The handle\<close>

definition ext_do :: "'x evm_effect \<Rightarrow> 'x erc20 \<Rightarrow> 'x erc20_result" where
  "ext_do f s = rbind (f (er_ext s)) (\<lambda>x. Inr (s\<lparr>er_ext := x\<rparr>))"

text \<open>A topic of a log is 32 bytes; an address is padded on the left. \<open>H160::from(H256)\<close> drops the padding.\<close>

definition h256_of_address :: "eth_address \<Rightarrow> bytes" where
  "h256_of_address a = replicate 12 0 @ a"

definition h160_of_h256 :: "bytes \<Rightarrow> eth_address" where
  "h160_of_h256 h = drop 12 h"

definition h160_zero :: eth_address where
  "h160_zero = replicate 20 0"

definition log3 :: "'x erc20_env \<Rightarrow> eth_address \<Rightarrow> bytes \<Rightarrow> eth_address \<Rightarrow> eth_address \<Rightarrow> nat \<Rightarrow> 'x erc20 \<Rightarrow> 'x erc20_result" where
  "log3 E address selector a b value' =
     ext_do (ex_log E (EvmLog address [selector, h256_of_address a, h256_of_address b] (e_event_data E value')))"

definition log2 :: "'x erc20_env \<Rightarrow> eth_address \<Rightarrow> bytes \<Rightarrow> eth_address \<Rightarrow> nat \<Rightarrow> 'x erc20 \<Rightarrow> 'x erc20_result" where
  "log2 E address selector a value' =
     ext_do (ex_log E (EvmLog address [selector, h256_of_address a] (e_event_data E value')))"

definition revert :: "string \<Rightarrow> evm_error" where
  "revert reason = Revert (CustomRevert reason) []"

definition in_field :: "string \<Rightarrow> evm_error + 'a \<Rightarrow> evm_error + 'a" where
  "in_field f = map_err (\<lambda>e. case e of Revert r trace \<Rightarrow> Revert r (f # trace) | _ \<Rightarrow> e)"

definition u256_to_amount :: "nat \<Rightarrow> evm_error + balance" where
  "u256_to_amount value' = ok_or (Revert (ValueTooLarge ''balance type'') []) (try_into 128 value')"

text \<open>\<open>u256_to_amount(value).unwrap_or_else(|_| Bounded::max_value())\<close>.\<close>

definition clamped_amount :: "nat \<Rightarrow> balance" where
  "clamped_amount value' = (case u256_to_amount value' of Inl _ \<Rightarrow> max_w 128 | Inr a \<Rightarrow> a)"

section \<open>Views\<close>

definition total_supply :: "'x erc20_env \<Rightarrow> 'x erc20 \<Rightarrow> evm_error + nat \<times> 'x erc20" where
  "total_supply E s = rbind (ext_do (ex_db_read E 16) s) (\<lambda>s1. Inr (ex_total_issuance E (er_ext s1), s1))"

definition balance_of :: "'x erc20_env \<Rightarrow> eth_address \<Rightarrow> 'x erc20 \<Rightarrow> evm_error + nat \<times> 'x erc20" where
  "balance_of E owner s = rbind (ext_do (ex_db_read E 116) s) (\<lambda>s1.
     Inr (ex_usable_balance E (er_ext s1) (e_account E owner), s1))"

definition allowance :: "'x erc20_env \<Rightarrow> eth_address \<Rightarrow> eth_address \<Rightarrow> 'x erc20 \<Rightarrow> evm_error + nat \<times> 'x erc20" where
  "allowance E owner spender s = rbind (ext_do (ex_db_read E 88) s) (\<lambda>s1.
     Inr (unwrap_or 0 (Approves s1 (e_account E owner, e_account E spender)), s1))"

definition erc_name :: "'x erc20_env \<Rightarrow> evm_error + string" where
  "erc_name E = Inr (e_name E)"

definition erc_symbol :: "'x erc20_env \<Rightarrow> evm_error + string" where
  "erc_symbol E = Inr (e_symbol E)"

definition erc_decimals :: "'x erc20_env \<Rightarrow> evm_error + nat" where
  "erc_decimals E = Inr (e_decimals E)"

section \<open>Approving and transferring\<close>

definition approve :: "'x erc20_env \<Rightarrow> evm_context \<Rightarrow> eth_address \<Rightarrow> nat \<Rightarrow> 'x erc20 \<Rightarrow> 'x erc20_result" where
  "approve E c spender value' s =
     rbind (ext_do (ex_record_cost E (e_write_gas E)) s) (\<lambda>s1.
     rbind (ext_do (ex_log_costs E 3 32) s1) (\<lambda>s2.
       let caller = e_account E (cx_caller c);
           s3 = s2\<lparr>Approves := (Approves s2)((caller, e_account E spender) \<mapsto> clamped_amount value')\<rparr>
       in log3 E (cx_address c) (SELECTOR_LOG_APPROVAL E) (cx_caller c) spender value' s3))"

definition erc_transfer :: "'x erc20_env \<Rightarrow> evm_context \<Rightarrow> eth_address \<Rightarrow> nat \<Rightarrow> 'x erc20 \<Rightarrow> 'x erc20_result" where
  "erc_transfer E c to value' s =
     rbind (ext_do (ex_log_costs E 3 32) s) (\<lambda>s1.
     rbind (in_field ''value'' (u256_to_amount value')) (\<lambda>amount.
     rbind (ext_do (ex_transfer_allow_death E (e_account E (cx_caller c)) (e_account E to) amount) s1) (\<lambda>s2.
       log3 E (cx_address c) (SELECTOR_LOG_TRANSFER E) (cx_caller c) to value' s2)))"

definition spend_allowance :: "account \<Rightarrow> account \<Rightarrow> balance \<Rightarrow> 'x erc20 \<Rightarrow> 'x erc20_result" where
  "spend_allowance from' caller amount s =
     rbind (ok_or (revert ''spender not allowed'') (Approves s (from', caller))) (\<lambda>allowed.
     rbind (ok_or (revert ''trying to spend more than allowed'') (checked_sub allowed amount)) (\<lambda>left.
       Inr (s\<lparr>Approves := (Approves s)((from', caller) \<mapsto> left)\<rparr>)))"

definition transfer_from ::
  "'x erc20_env \<Rightarrow> evm_context \<Rightarrow> eth_address \<Rightarrow> eth_address \<Rightarrow> nat \<Rightarrow> 'x erc20 \<Rightarrow> 'x erc20_result" where
  "transfer_from E c from' to value' s =
     rbind (ext_do (ex_db_read E 88) s) (\<lambda>s1.
     rbind (ext_do (ex_record_cost E (e_write_gas E)) s1) (\<lambda>s2.
     rbind (ext_do (ex_log_costs E 3 32) s2) (\<lambda>s3.
       let caller = e_account E (cx_caller c); source = e_account E from'; dest = e_account E to
       in rbind (in_field ''value'' (u256_to_amount value')) (\<lambda>amount.
          rbind (if caller \<noteq> source then spend_allowance source caller amount s3 else Inr s3) (\<lambda>s4.
          rbind (ext_do (ex_transfer_allow_death E source dest amount) s4) (\<lambda>s5.
            log3 E (cx_address c) (SELECTOR_LOG_TRANSFER E) from' to value' s5))))))"

definition erc_deposit :: "'x erc20_env \<Rightarrow> evm_context \<Rightarrow> 'x erc20 \<Rightarrow> 'x erc20_result" where
  "erc_deposit E c s =
     rbind (ensure (e_is_native_currency E) (Revert UnknownSelector [])) (\<lambda>_.
       let caller = e_account E (cx_caller c); precompile = e_account E (cx_address c)
       in rbind (u256_to_amount (cx_apparent_value c)) (\<lambda>amount.
          rbind (ensure (amount \<noteq> 0) (revert ''deposited amount must be non-zero'')) (\<lambda>_.
          rbind (ext_do (ex_log_costs E 2 32) s) (\<lambda>s1.
          rbind (ext_do (ex_transfer_allow_death E precompile caller amount) s1) (\<lambda>s2.
            log2 E (cx_address c) (SELECTOR_LOG_DEPOSIT E) (cx_caller c) (cx_apparent_value c) s2)))))"

definition erc_withdraw :: "'x erc20_env \<Rightarrow> evm_context \<Rightarrow> nat \<Rightarrow> 'x erc20 \<Rightarrow> 'x erc20_result" where
  "erc_withdraw E c value' s =
     rbind (ensure (e_is_native_currency E) (Revert UnknownSelector [])) (\<lambda>_.
     rbind (ext_do (ex_log_costs E 2 32) s) (\<lambda>s1.
       let account_amount = ex_usable_balance E (er_ext s1) (e_account E (cx_caller c))
       in rbind (ensure (value' \<le> account_amount) (revert ''Trying to withdraw more than owned'')) (\<lambda>_.
            log2 E (cx_address c) (SELECTOR_LOG_WITHDRAWAL E) (cx_caller c) value' s1)))"

section \<open>Permits\<close>

definition compute_domain_separator :: "'x erc20_env \<Rightarrow> eth_address \<Rightarrow> bytes" where
  "compute_domain_separator E address =
     e_keccak E (e_encode_arguments E
       [SolH256 (PERMIT_DOMAIN E), SolH256 (e_keccak E (text_bytes (e_name E))),
        SolH256 (e_keccak E (text_bytes ''1'')), SolU256 (e_chain_id E), SolAddress address])"

definition generate_permit ::
  "'x erc20_env \<Rightarrow> eth_address \<Rightarrow> eth_address \<Rightarrow> eth_address \<Rightarrow> nat \<Rightarrow> nat \<Rightarrow> nat \<Rightarrow> bytes" where
  "generate_permit E address owner spender value' nonce deadline =
     (let domain_separator = compute_domain_separator E address;
          permit_content = e_keccak E (e_encode_arguments E
            [SolH256 (PERMIT_TYPEHASH E), SolAddress owner, SolAddress spender, SolU256 value', SolU256 nonce,
             SolU256 deadline])
      in e_keccak E ([25, 1] @ domain_separator @ permit_content))"

text \<open>The address that signed; \<open>None\<close> is a signature from which no key is recovered. \<open>sig\<close> is \<open>r\<close>, \<open>s\<close> and \<open>v\<close>.\<close>

definition permit_signer :: "'x erc20_env \<Rightarrow> bytes \<Rightarrow> bytes \<Rightarrow> eth_address option" where
  "permit_signer E sig permit' = map_option (\<lambda>key. h160_of_h256 (e_keccak E key)) (e_recover E sig permit')"

definition permit ::
  "'x erc20_env \<Rightarrow> evm_context \<Rightarrow> eth_address \<Rightarrow> eth_address \<Rightarrow> nat \<Rightarrow> nat \<Rightarrow> nat \<Rightarrow> bytes \<Rightarrow> bytes
   \<Rightarrow> 'x erc20 \<Rightarrow> 'x erc20_result" where
  "permit E c owner spender value' deadline v r s st =
     rbind (ext_do (ex_db_read E 104) st) (\<lambda>st1.
       let timestamp = sat_into 128 (ex_now E (er_ext st1)) div 1000
       in rbind (ensure (timestamp \<le> deadline) (revert ''Permit expired'')) (\<lambda>_.
            let nonce = Nonces st1 owner;
                permit' = generate_permit E (cx_address c) owner spender value' nonce deadline
            in rbind (ok_or (revert ''Invalid permit'') (permit_signer E (r @ s @ [v]) permit')) (\<lambda>signer.
               rbind (ensure (signer \<noteq> h160_zero \<and> signer = owner) (revert ''Invalid permit'')) (\<lambda>_.
               rbind (ok_or EvmPanic (checked_add 256 nonce 1)) (\<lambda>nonce1.
                 let st2 = st1\<lparr>Nonces := (Nonces st1)(owner := nonce1),
                       Approves := (Approves st1)((e_account E owner, e_account E spender) \<mapsto> clamped_amount value')\<rparr>
                 in log3 E (cx_address c) (SELECTOR_LOG_APPROVAL E) owner spender value' st2)))))"

definition erc_nonces :: "'x erc20_env \<Rightarrow> eth_address \<Rightarrow> 'x erc20 \<Rightarrow> evm_error + nat \<times> 'x erc20" where
  "erc_nonces E owner s = rbind (ext_do (ex_db_read E 104) s) (\<lambda>s1. Inr (Nonces s1 owner, s1))"

definition domain_separator :: "'x erc20_env \<Rightarrow> evm_context \<Rightarrow> 'x erc20 \<Rightarrow> evm_error + bytes \<times> 'x erc20" where
  "domain_separator E c s = rbind (ext_do (ex_db_read E 8) s) (\<lambda>s1.
     Inr (compute_domain_separator E (cx_address c), s1))"

section \<open>The calls that change the state\<close>

datatype erc20_call =
  Approve eth_address nat
| Transfer eth_address nat
| TransferFrom eth_address eth_address nat
| Deposit
| Withdraw nat
| Permit eth_address eth_address nat nat nat bytes bytes

fun erc20_dispatch :: "'x erc20_env \<Rightarrow> evm_context \<Rightarrow> erc20_call \<Rightarrow> 'x erc20 \<Rightarrow> 'x erc20_result" where
  "erc20_dispatch E c (Approve spender v) = approve E c spender v"
| "erc20_dispatch E c (Transfer to v) = erc_transfer E c to v"
| "erc20_dispatch E c (TransferFrom from' to v) = transfer_from E c from' to v"
| "erc20_dispatch E c Deposit = erc_deposit E c"
| "erc20_dispatch E c (Withdraw v) = erc_withdraw E c v"
| "erc20_dispatch E c (Permit owner spender v deadline sv r s) = permit E c owner spender v deadline sv r s"

text \<open>Calls one after the other; the state of a failing call is reverted.\<close>

fun erc20_run :: "'x erc20_env \<Rightarrow> (evm_context \<times> erc20_call) list \<Rightarrow> 'x erc20 \<Rightarrow> 'x erc20" where
  "erc20_run E [] s = s"
| "erc20_run E ((c, call) # calls) s =
     erc20_run E calls (case erc20_dispatch E c call s of Inl _ \<Rightarrow> s | Inr s' \<Rightarrow> s')"

end
