(* ===== verification/Erc20Props.thy ===== *)
theory Erc20Props
  imports Erc20
begin

text \<open>
  The ERC-20 precompile refines an abstract token: balances and allowances, on which approving sets an
  allowance, transferring moves an amount, and transferring for another account uses its allowance up.
  What an account can spend of another's is then bounded by what was approved; and each nonce of a
  permit is used once.
\<close>

section \<open>The abstract token\<close>

record token =
  tk_balance :: "account \<Rightarrow> nat"
  tk_allowance :: "account \<Rightarrow> account \<Rightarrow> nat"

datatype token_call =
  TkApprove account account nat
| TkTransfer account account nat
| TkTransferFrom account account account nat
| TkNothing

text \<open>
  Moving an amount. What stays below the existential deposit on the paying account may be removed with
  the account, so the balance there goes down by at least the amount.
\<close>

definition moves :: "account \<Rightarrow> account \<Rightarrow> nat \<Rightarrow> (account \<Rightarrow> nat) \<Rightarrow> (account \<Rightarrow> nat) \<Rightarrow> bool" where
  "moves a b v f g \<longleftrightarrow> v \<le> f a \<and>
     (if a = b then g = f else g b = f b + v \<and> g a + v \<le> f a \<and> (\<forall>c. c \<noteq> a \<longrightarrow> c \<noteq> b \<longrightarrow> g c = f c))"

inductive token_step :: "token \<Rightarrow> token_call \<Rightarrow> token \<Rightarrow> bool" where
  tk_approve: "token_step t (TkApprove owner spender v)
     (t\<lparr>tk_allowance := (tk_allowance t)(owner := (tk_allowance t owner)(spender := v))\<rparr>)"
| tk_transfer: "moves a b v (tk_balance t) f \<Longrightarrow> token_step t (TkTransfer a b v) (t\<lparr>tk_balance := f\<rparr>)"
| tk_transfer_from: "spender \<noteq> a \<Longrightarrow> v \<le> tk_allowance t a spender \<Longrightarrow> moves a b v (tk_balance t) f \<Longrightarrow>
     token_step t (TkTransferFrom spender a b v)
       (t\<lparr>tk_allowance := (tk_allowance t)(a := (tk_allowance t a)(spender := tk_allowance t a spender - v)),
          tk_balance := f\<rparr>)"
| tk_nothing: "token_step t TkNothing t"

inductive_cases token_stepE: "token_step t c u"

inductive token_steps :: "token \<Rightarrow> token_call list \<Rightarrow> token \<Rightarrow> bool" where
  tk_done: "token_steps t [] t"
| tk_more: "token_step t c u \<Longrightarrow> token_steps u cs w \<Longrightarrow> token_steps t (c # cs) w"

fun approved :: "account \<Rightarrow> account \<Rightarrow> token_call list \<Rightarrow> nat" where
  "approved a b [] = 0"
| "approved a b (TkApprove x y v # cs) = (if x = a \<and> y = b then v else 0) + approved a b cs"
| "approved a b (_ # cs) = approved a b cs"

fun spent :: "account \<Rightarrow> account \<Rightarrow> token_call list \<Rightarrow> nat" where
  "spent a b [] = 0"
| "spent a b (TkTransferFrom y x _ v # cs) = (if x = a \<and> y = b then v else 0) + spent a b cs"
| "spent a b (_ # cs) = spent a b cs"

lemma token_step_allowance:
  "token_step t c u \<Longrightarrow> spent a b [c] + tk_allowance u a b \<le> tk_allowance t a b + approved a b [c]"
  by (induction rule: token_step.induct) auto

lemma spent_Cons: "spent a b (c # cs) = spent a b [c] + spent a b cs"
  and approved_Cons: "approved a b (c # cs) = approved a b [c] + approved a b cs"
  by (cases c; simp)+

lemma token_steps_allowance:
  "token_steps t cs u \<Longrightarrow> spent a b cs + tk_allowance u a b \<le> tk_allowance t a b + approved a b cs"
proof (induction rule: token_steps.induct)
  case (tk_more t c u cs w)
  then show ?case using token_step_allowance [OF tk_more.hyps(1), of a b]
    unfolding spent_Cons [of a b c cs] approved_Cons [of a b c cs] by linarith
qed simp

section \<open>The precompile as a token\<close>

text \<open>
  What the precompile relies on of its world: gas and logs do not touch the balances \<open>bal\<close>, and a
  dispatched transfer that succeeds moves the amount.
\<close>

definition token_world :: "'x erc20_env \<Rightarrow> ('x \<Rightarrow> account \<Rightarrow> nat) \<Rightarrow> bool" where
  "token_world E bal \<longleftrightarrow>
     (\<forall>n x y. ex_db_read E n x = Inr y \<longrightarrow> bal y = bal x) \<and>
     (\<forall>n x y. ex_record_cost E n x = Inr y \<longrightarrow> bal y = bal x) \<and>
     (\<forall>n m x y. ex_log_costs E n m x = Inr y \<longrightarrow> bal y = bal x) \<and>
     (\<forall>l x y. ex_log E l x = Inr y \<longrightarrow> bal y = bal x) \<and>
     (\<forall>a b v x y. ex_transfer_allow_death E a b v x = Inr y \<longrightarrow> moves a b v (bal x) (bal y))"

definition token_of :: "('x \<Rightarrow> account \<Rightarrow> nat) \<Rightarrow> 'x erc20 \<Rightarrow> token" where
  "token_of bal s = \<lparr>tk_balance = bal (er_ext s), tk_allowance = (\<lambda>a b. unwrap_or 0 (Approves s (a, b)))\<rparr>"

fun token_effect :: "'x erc20_env \<Rightarrow> evm_context \<Rightarrow> erc20_call \<Rightarrow> token_call" where
  "token_effect E c (Approve spender v) =
     TkApprove (e_account E (cx_caller c)) (e_account E spender) (min v (max_w 128))"
| "token_effect E c (Transfer to v) = TkTransfer (e_account E (cx_caller c)) (e_account E to) v"
| "token_effect E c (TransferFrom a b v) =
     (if e_account E (cx_caller c) = e_account E a then TkTransfer (e_account E a) (e_account E b) v
      else TkTransferFrom (e_account E (cx_caller c)) (e_account E a) (e_account E b) v)"
| "token_effect E c Deposit =
     TkTransfer (e_account E (cx_address c)) (e_account E (cx_caller c)) (cx_apparent_value c)"
| "token_effect E c (Withdraw v) = TkNothing"
| "token_effect E c (Permit owner spender v _ _ _ _) =
     TkApprove (e_account E owner) (e_account E spender) (min v (max_w 128))"

lemma ext_do_Inr_iff [res_simps]: "ext_do f s = Inr s' \<longleftrightarrow> (\<exists>x. f (er_ext s) = Inr x \<and> s' = s\<lparr>er_ext := x\<rparr>)"
  by (auto simp: ext_do_def res_simps)

lemma in_field_Inr_iff [res_simps]: "in_field f r = Inr x \<longleftrightarrow> r = Inr x"
  by (simp add: in_field_def res_simps)

lemma u256_to_amount_Inr_iff [res_simps]: "u256_to_amount v = Inr a \<longleftrightarrow> a = v \<and> v \<le> max_w 128"
  by (auto simp: u256_to_amount_def res_simps try_into_Some)

lemma clamped_amount_min: "clamped_amount v = min v (max_w 128)"
  by (auto simp: clamped_amount_def u256_to_amount_def try_into_def ok_or_def)

lemma token_of_simps:
  "token_of bal (s\<lparr>Nonces := n\<rparr>) = token_of bal s"
  "token_of bal (s\<lparr>Approves := (Approves s)((a, b) \<mapsto> v)\<rparr>) =
     (token_of bal s)\<lparr>tk_allowance := (tk_allowance (token_of bal s))(a := (tk_allowance (token_of bal s) a)(b := v))\<rparr>"
  "tk_allowance (token_of bal s) a b = unwrap_or 0 (Approves s (a, b))"
  by (auto simp: token_of_def fun_eq_iff)

text \<open>Gas and logs are invisible; a dispatched transfer moves the amount and leaves the allowances.\<close>

lemma quiet_effects:
  assumes w: "token_world E bal"
  shows "ext_do (ex_db_read E n) s = Inr s' \<Longrightarrow> token_of bal s' = token_of bal s"
    "ext_do (ex_record_cost E n) s = Inr s' \<Longrightarrow> token_of bal s' = token_of bal s"
    "ext_do (ex_log_costs E n m) s = Inr s' \<Longrightarrow> token_of bal s' = token_of bal s"
    "log3 E addr sel a b v s = Inr s' \<Longrightarrow> token_of bal s' = token_of bal s"
    "log2 E addr sel a v s = Inr s' \<Longrightarrow> token_of bal s' = token_of bal s"
  using w unfolding token_world_def
  by (auto simp: log3_def log2_def res_simps token_of_def)

lemma transfer_effect:
  assumes w: "token_world E bal" and r: "ext_do (ex_transfer_allow_death E a b v) s = Inr s'"
  obtains f where "moves a b v (tk_balance (token_of bal s)) f" "token_of bal s' = (token_of bal s)\<lparr>tk_balance := f\<rparr>"
proof
  show "moves a b v (tk_balance (token_of bal s)) (bal (er_ext s'))"
    using w r unfolding token_world_def by (auto simp: res_simps token_of_def)
  show "token_of bal s' = (token_of bal s)\<lparr>tk_balance := bal (er_ext s')\<rparr>"
    using r by (auto simp: res_simps token_of_def)
qed

lemma approve_refines:
  assumes w: "token_world E bal" and r: "approve E c spender v s = Inr s'"
  shows "token_step (token_of bal s) (token_effect E c (Approve spender v)) (token_of bal s')"
proof -
  obtain s1 s2 where e: "ext_do (ex_record_cost E (e_write_gas E)) s = Inr s1" "ext_do (ex_log_costs E 3 32) s1 = Inr s2"
    and l: "log3 E (cx_address c) (SELECTOR_LOG_APPROVAL E) (cx_caller c) spender v
      (s2\<lparr>Approves := (Approves s2)((e_account E (cx_caller c), e_account E spender) \<mapsto> clamped_amount v)\<rparr>) = Inr s'"
    using r by (auto simp: approve_def Let_def rbind_Inr_iff)
  show ?thesis
    using tk_approve [of "token_of bal s"]
    by (simp add: quiet_effects(4) [OF w l] token_of_simps(2) clamped_amount_min quiet_effects(2) [OF w e(1)] quiet_effects(3) [OF w e(2)])
qed

lemma erc_transfer_refines:
  assumes w: "token_world E bal" and r: "erc_transfer E c to v s = Inr s'"
  shows "token_step (token_of bal s) (token_effect E c (Transfer to v)) (token_of bal s')"
proof -
  obtain s1 s2 where e: "ext_do (ex_log_costs E 3 32) s = Inr s1"
    and t: "ext_do (ex_transfer_allow_death E (e_account E (cx_caller c)) (e_account E to) v) s1 = Inr s2"
    and l: "log3 E (cx_address c) (SELECTOR_LOG_TRANSFER E) (cx_caller c) to v s2 = Inr s'"
    using r by (auto simp: erc_transfer_def rbind_Inr_iff in_field_Inr_iff u256_to_amount_Inr_iff)
  obtain f where f: "moves (e_account E (cx_caller c)) (e_account E to) v (tk_balance (token_of bal s)) f"
      "token_of bal s2 = (token_of bal s)\<lparr>tk_balance := f\<rparr>"
    by (rule transfer_effect [OF w t, unfolded quiet_effects(3) [OF w e]])
  show ?thesis
    unfolding token_effect.simps quiet_effects(4) [OF w l] f(2) by (rule tk_transfer [OF f(1)])
qed

lemma spend_allowance_effect:
  assumes "spend_allowance a caller v s = Inr s'"
  shows "v \<le> tk_allowance (token_of bal s) a caller"
    "token_of bal s' = (token_of bal s)\<lparr>tk_allowance := (tk_allowance (token_of bal s))(a :=
       (tk_allowance (token_of bal s) a)(caller := tk_allowance (token_of bal s) a caller - v))\<rparr>"
  using assms by (auto simp: spend_allowance_def rbind_Inr_iff ok_or_Inr_iff token_of_simps)

lemma transfer_from_refines:
  assumes w: "token_world E bal" and r: "transfer_from E c a b v s = Inr s'"
  shows "token_step (token_of bal s) (token_effect E c (TransferFrom a b v)) (token_of bal s')"
proof -
  let ?caller = "e_account E (cx_caller c)" and ?a = "e_account E a" and ?b = "e_account E b"
  obtain s1 s2 s3 s4 s5 where e: "ext_do (ex_db_read E 88) s = Inr s1"
      "ext_do (ex_record_cost E (e_write_gas E)) s1 = Inr s2" "ext_do (ex_log_costs E 3 32) s2 = Inr s3"
    and p: "(if ?caller \<noteq> ?a then spend_allowance ?a ?caller v s3 else Inr s3) = Inr s4"
    and t: "ext_do (ex_transfer_allow_death E ?a ?b v) s4 = Inr s5"
    and l: "log3 E (cx_address c) (SELECTOR_LOG_TRANSFER E) a b v s5 = Inr s'"
    using r unfolding transfer_from_def Let_def rbind_Inr_iff in_field_Inr_iff u256_to_amount_Inr_iff
    by (elim exE conjE) (simp only:)
  have q: "token_of bal s3 = token_of bal s"
    by (simp only: quiet_effects(3) [OF w e(3)] quiet_effects(2) [OF w e(2)] quiet_effects(1) [OF w e(1)])
  obtain f where f: "moves ?a ?b v (tk_balance (token_of bal s4)) f" "token_of bal s' = (token_of bal s4)\<lparr>tk_balance := f\<rparr>"
    using transfer_effect [OF w t] quiet_effects(4) [OF w l] by metis
  show ?thesis
  proof (cases "?caller = ?a")
    case True
    then have "token_of bal s4 = token_of bal s" using p q by simp
    then show ?thesis using f True by (simp add: tk_transfer)
  next
    case False
    then have sp: "spend_allowance ?a ?caller v s3 = Inr s4" using p by simp
    note al = spend_allowance_effect [OF sp, of bal, unfolded q]
    have "token_step (token_of bal s) (TkTransferFrom ?caller ?a ?b v)
      ((token_of bal s)\<lparr>tk_allowance := (tk_allowance (token_of bal s))(?a :=
         (tk_allowance (token_of bal s) ?a)(?caller := tk_allowance (token_of bal s) ?a ?caller - v)), tk_balance := f\<rparr>)"
      using False al(1) f(1) unfolding al(2) by (intro tk_transfer_from) simp_all
    then show ?thesis using False unfolding f(2) al(2) by simp
  qed
qed

lemma erc_deposit_refines:
  assumes w: "token_world E bal" and r: "erc_deposit E c s = Inr s'"
  shows "token_step (token_of bal s) (token_effect E c Deposit) (token_of bal s')"
proof -
  let ?v = "cx_apparent_value c"
  obtain s1 s2 where e: "ext_do (ex_log_costs E 2 32) s = Inr s1"
    and t: "ext_do (ex_transfer_allow_death E (e_account E (cx_address c)) (e_account E (cx_caller c)) ?v) s1 = Inr s2"
    and l: "log2 E (cx_address c) (SELECTOR_LOG_DEPOSIT E) (cx_caller c) ?v s2 = Inr s'"
    using r unfolding erc_deposit_def Let_def rbind_Inr_iff u256_to_amount_Inr_iff by (elim exE conjE) (simp only:)
  obtain f where f: "moves (e_account E (cx_address c)) (e_account E (cx_caller c)) ?v (tk_balance (token_of bal s)) f"
      "token_of bal s2 = (token_of bal s)\<lparr>tk_balance := f\<rparr>"
    by (rule transfer_effect [OF w t, unfolded quiet_effects(3) [OF w e]])
  show ?thesis
    unfolding token_effect.simps quiet_effects(5) [OF w l] f(2) by (rule tk_transfer [OF f(1)])
qed

lemma erc_withdraw_refines:
  assumes w: "token_world E bal" and r: "erc_withdraw E c v s = Inr s'"
  shows "token_step (token_of bal s) (token_effect E c (Withdraw v)) (token_of bal s')"
proof -
  obtain s1 where e: "ext_do (ex_log_costs E 2 32) s = Inr s1"
    and l: "log2 E (cx_address c) (SELECTOR_LOG_WITHDRAWAL E) (cx_caller c) v s1 = Inr s'"
    using r unfolding erc_withdraw_def Let_def rbind_Inr_iff by (elim exE conjE) (rule that)
  show ?thesis
    unfolding token_effect.simps quiet_effects(5) [OF w l] quiet_effects(3) [OF w e] by (rule tk_nothing)
qed

text \<open>What a successful permit has checked and what it leaves.\<close>

lemma permit_InrD:
  assumes "permit E c owner spender v deadline sv r s st = Inr st'"
  obtains st1 where "ext_do (ex_db_read E 104) st = Inr st1"
    "sat_into 128 (ex_now E (er_ext st1)) div 1000 \<le> deadline"
    "permit_signer E (r @ s @ [sv]) (generate_permit E (cx_address c) owner spender v (Nonces st1 owner) deadline) = Some owner"
    "owner \<noteq> h160_zero" "Suc (Nonces st1 owner) \<le> max_w 256"
    "log3 E (cx_address c) (SELECTOR_LOG_APPROVAL E) owner spender v
       (st1\<lparr>Nonces := (Nonces st1)(owner := Suc (Nonces st1 owner)),
         Approves := (Approves st1)((e_account E owner, e_account E spender) \<mapsto> clamped_amount v)\<rparr>) = Inr st'"
  using assms unfolding permit_def Let_def rbind_Inr_iff ensure_Inr_iff ok_or_Inr_iff checked_add_Some
  by (elim exE conjE) (rule that; simp)

lemma permit_refines:
  assumes w: "token_world E bal" and r: "permit E c owner spender v deadline sv r s st = Inr st'"
  shows "token_step (token_of bal st) (token_effect E c (Permit owner spender v deadline sv r s)) (token_of bal st')"
proof (rule permit_InrD [OF r])
  fix st1
  assume e: "ext_do (ex_db_read E 104) st = Inr st1"
    and l: "log3 E (cx_address c) (SELECTOR_LOG_APPROVAL E) owner spender v
       (st1\<lparr>Nonces := (Nonces st1)(owner := Suc (Nonces st1 owner)),
         Approves := (Approves st1)((e_account E owner, e_account E spender) \<mapsto> clamped_amount v)\<rparr>) = Inr st'"
  have "token_of bal st' = (token_of bal st)\<lparr>tk_allowance := (tk_allowance (token_of bal st))(e_account E owner :=
      (tk_allowance (token_of bal st) (e_account E owner))(e_account E spender := clamped_amount v))\<rparr>"
    using token_of_simps(2) [of bal "st1\<lparr>Nonces := (Nonces st1)(owner := Suc (Nonces st1 owner))\<rparr>"]
    by (simp add: quiet_effects(4) [OF w l] quiet_effects(1) [OF w e] token_of_simps(1))
  then show ?thesis by (simp add: clamped_amount_min tk_approve)
qed

lemma dispatch_refines:
  assumes "token_world E bal" "erc20_dispatch E c call s = Inr s'"
  shows "token_step (token_of bal s) (token_effect E c call) (token_of bal s')"
  using assms
  by (cases call)
    (simp_all only: erc20_dispatch.simps approve_refines erc_transfer_refines transfer_from_refines erc_deposit_refines
      erc_withdraw_refines permit_refines)

text \<open>C13.
  The precompile refines the abstract token: every call that succeeds is the step of the token that the
  call stands for, seen through the balances of the world and the stored allowances; amounts beyond 128
  bits are approved as the largest balance, and a transfer from the caller's own account needs no
  allowance.
\<close>

theorem erc20_refines_token:
  assumes "token_world E bal" "erc20_dispatch E c call s = Inr s'"
  shows "token_step (token_of bal s) (token_effect E c call) (token_of bal s')"
  using assms by (rule dispatch_refines)

text \<open>The calls of a run that succeed, as calls of the token.\<close>

fun effects :: "'x erc20_env \<Rightarrow> (evm_context \<times> erc20_call) list \<Rightarrow> 'x erc20 \<Rightarrow> token_call list" where
  "effects E [] s = []"
| "effects E ((c, call) # calls) s =
     (case erc20_dispatch E c call s of
        Inl _ \<Rightarrow> effects E calls s
      | Inr s' \<Rightarrow> token_effect E c call # effects E calls s')"

lemma run_refines:
  assumes "token_world E bal"
  shows "token_steps (token_of bal s) (effects E calls s) (token_of bal (erc20_run E calls s))"
  using assms
proof (induction calls arbitrary: s)
  case (Cons cc calls)
  obtain c call where cc: "cc = (c, call)" by (cases cc)
  show ?case
    using Cons dispatch_refines [OF Cons.prems, of c call s]
    by (cases "erc20_dispatch E c call s") (auto simp: cc intro: tk_more)
qed (simp add: tk_done)

text \<open>C14.
  What is spent was approved: over any sequence of calls by anyone, what a spender moved out of an
  owner's account with \<open>transferFrom\<close>, plus the allowance that is left, is at most the allowance at the
  start plus what the owner approved, by calls and permits.
\<close>

theorem spending_within_approvals:
  assumes w: "token_world E bal"
  shows "spent owner spender (effects E calls s) + unwrap_or 0 (Approves (erc20_run E calls s) (owner, spender))
    \<le> unwrap_or 0 (Approves s (owner, spender)) + approved owner spender (effects E calls s)"
  using token_steps_allowance [OF run_refines [OF w, where calls = calls and s = s], of owner spender]
  by (simp add: token_of_simps(3))

section \<open>Nonces\<close>

text \<open>The permits a run accepts, as pairs of the owner and the nonce that was signed.\<close>

fun accepted_permits :: "'x erc20_env \<Rightarrow> (evm_context \<times> erc20_call) list \<Rightarrow> 'x erc20 \<Rightarrow> (eth_address \<times> nat) list" where
  "accepted_permits E [] s = []"
| "accepted_permits E ((c, call) # calls) s =
     (case erc20_dispatch E c call s of
        Inl _ \<Rightarrow> accepted_permits E calls s
      | Inr s' \<Rightarrow> (case call of Permit owner _ _ _ _ _ _ \<Rightarrow> [(owner, Nonces s owner)] | _ \<Rightarrow> []) @ accepted_permits E calls s')"

lemma ext_do_Nonces: "ext_do f s = Inr s' \<Longrightarrow> Nonces s' = Nonces s"
  by (auto simp: res_simps)

lemma log_Nonces: "log3 E addr sel a b v s = Inr s' \<Longrightarrow> Nonces s' = Nonces s" "log2 E addr sel a v s = Inr s' \<Longrightarrow> Nonces s' = Nonces s"
  unfolding log3_def log2_def by (rule ext_do_Nonces, assumption)+

lemma spend_allowance_Nonces: "spend_allowance a b v s = Inr s' \<Longrightarrow> Nonces s' = Nonces s"
  by (auto simp: spend_allowance_def res_simps)

lemmas nonces_kept = ext_do_Nonces log_Nonces spend_allowance_Nonces

lemma permit_Nonces:
  assumes "permit E c owner spender v deadline sv r t s = Inr s'"
  shows "Nonces s' = (Nonces s)(owner := Suc (Nonces s owner))"
  by (rule permit_InrD [OF assms]) (drule ext_do_Nonces, drule log_Nonces(1), simp)

lemma other_Nonces:
  "approve E c spender v s = Inr s' \<Longrightarrow> Nonces s' = Nonces s"
  "erc_transfer E c to v s = Inr s' \<Longrightarrow> Nonces s' = Nonces s"
  "erc_deposit E c s = Inr s' \<Longrightarrow> Nonces s' = Nonces s"
  "erc_withdraw E c v s = Inr s' \<Longrightarrow> Nonces s' = Nonces s"
proof -
  show "approve E c spender v s = Inr s' \<Longrightarrow> Nonces s' = Nonces s"
    unfolding approve_def Let_def rbind_Inr_iff by (elim exE conjE) (drule nonces_kept; simp)+
  show "erc_transfer E c to v s = Inr s' \<Longrightarrow> Nonces s' = Nonces s"
    unfolding erc_transfer_def rbind_Inr_iff by (elim exE conjE) (drule ext_do_Nonces log_Nonces; simp)+
  show "erc_deposit E c s = Inr s' \<Longrightarrow> Nonces s' = Nonces s"
    unfolding erc_deposit_def Let_def rbind_Inr_iff by (elim exE conjE) (drule ext_do_Nonces log_Nonces; simp)+
  show "erc_withdraw E c v s = Inr s' \<Longrightarrow> Nonces s' = Nonces s"
    unfolding erc_withdraw_def Let_def rbind_Inr_iff by (elim exE conjE) (drule ext_do_Nonces log_Nonces; simp)+
qed

lemma transfer_from_Nonces:
  assumes "transfer_from E c a b v s = Inr s'"
  shows "Nonces s' = Nonces s"
  using assms unfolding transfer_from_def Let_def rbind_Inr_iff
  by (elim exE conjE) (auto dest!: nonces_kept split: if_splits)

lemma dispatch_Nonces:
  assumes "erc20_dispatch E c call s = Inr s'"
  shows "Nonces s' = (case call of Permit owner _ _ _ _ _ _ \<Rightarrow> (Nonces s)(owner := Suc (Nonces s owner)) | _ \<Rightarrow> Nonces s)"
  using assms by (cases call) (simp_all add: permit_Nonces other_Nonces transfer_from_Nonces)

lemma upt_split: "i \<le> j \<Longrightarrow> j \<le> k \<Longrightarrow> [i..<k] = [i..<j] @ [j..<k]"
  using upt_add_eq_append [of i j "k - j"] by simp

lemma accepted_nonces:
  "map snd (filter (\<lambda>p. fst p = owner) (accepted_permits E calls s)) = [Nonces s owner..<Nonces (erc20_run E calls s) owner]"
  (is "?nonces calls s = _")
proof -
  have "Nonces s owner \<le> Nonces (erc20_run E calls s) owner \<and>
    ?nonces calls s = [Nonces s owner..<Nonces (erc20_run E calls s) owner]"
  proof (induction calls arbitrary: s)
    case (Cons cc calls)
    obtain c call where cc: "cc = (c, call)" by (cases cc)
    show ?case
    proof (cases "erc20_dispatch E c call s")
      case (Inl e)
      then show ?thesis using Cons [of s] by (simp add: cc)
    next
      case (Inr s')
      have "Nonces s owner \<le> Nonces s' owner \<and>
        map snd (filter (\<lambda>p. fst p = owner) (case call of Permit owner _ _ _ _ _ _ \<Rightarrow> [(owner, Nonces s owner)] | _ \<Rightarrow> []))
          = [Nonces s owner..<Nonces s' owner]"
        using dispatch_Nonces [OF Inr] by (cases call) auto
      moreover note Cons [of s']
      ultimately show ?thesis
        using upt_split [of "Nonces s owner" "Nonces s' owner" "Nonces (erc20_run E calls s') owner"]
        by (simp add: cc Inr)
    qed
  qed simp
  then show ?thesis by blast
qed

lemma distinct_of_filters: "(\<And>k. distinct (map snd (filter (\<lambda>p. fst p = k) xs))) \<Longrightarrow> distinct xs"
proof (induction xs)
  case (Cons x xs)
  have "distinct (map snd (filter (\<lambda>p. fst p = k) xs))" for k
    using Cons.prems [of k] by (auto split: if_splits)
  moreover have "x \<notin> set xs"
    using Cons.prems [of "fst x"] by (auto simp: image_iff)
  ultimately show ?case using Cons.IH by simp
qed simp

text \<open>C15.
  A permit is used once: over any sequence of calls, the nonces of the permits accepted for an owner are
  exactly the numbers from its nonce before to its nonce after, in order, so no pair of owner and nonce
  is accepted twice.
\<close>

theorem permits_use_each_nonce_once:
  "map snd (filter (\<lambda>p. fst p = owner) (accepted_permits E calls s)) = [Nonces s owner..<Nonces (erc20_run E calls s) owner] \<and>
   distinct (accepted_permits E calls s)"
  by (intro conjI accepted_nonces distinct_of_filters) (simp add: accepted_nonces)

section \<open>A small world\<close>

text \<open>A world of balances in which nothing costs gas and a transfer needs the funds.\<close>

definition demo_erc20_env :: "(account \<Rightarrow> nat) erc20_env" where
  "demo_erc20_env = \<lparr>e_account = (\<lambda>a. hd a), e_name = ''VTRS'', e_symbol = ''VTRS'', e_decimals = 18,
     e_is_native_currency = True, e_chain_id = 1943, e_write_gas = 0, e_keccak = (\<lambda>_. []), e_recover = (\<lambda>_ _. None),
     e_encode_arguments = (\<lambda>_. []), e_event_data = (\<lambda>_. []), ex_db_read = (\<lambda>_. Inr), ex_record_cost = (\<lambda>_. Inr),
     ex_log_costs = (\<lambda>_ _. Inr), ex_log = (\<lambda>_. Inr),
     ex_transfer_allow_death = (\<lambda>a b v x. if v \<le> x a
       then Inr (if a = b then x else x(a := x a - v, b := x b + v)) else Inl (EvmExit ''funds'')),
     ex_total_issuance = (\<lambda>_. 1000), ex_usable_balance = (\<lambda>x. x), ex_now = (\<lambda>_. 0)\<rparr>"

definition demo_erc20 :: "(account \<Rightarrow> nat) erc20" where
  "demo_erc20 = \<lparr>Approves = [(1, 2) \<mapsto> 50], Nonces = (\<lambda>_. 0), er_ext = (\<lambda>_. 100)\<rparr>"

definition demo_erc20_calls :: "(evm_context \<times> erc20_call) list" where
  "demo_erc20_calls =
     [(\<lparr>cx_address = [9], cx_caller = [2], cx_apparent_value = 0\<rparr>, TransferFrom [1] [3] 30),
      (\<lparr>cx_address = [9], cx_caller = [2], cx_apparent_value = 0\<rparr>, TransferFrom [1] [3] 30)]"

lemma demo_token_world: "token_world demo_erc20_env (\<lambda>x. x)"
  by (auto simp: token_world_def demo_erc20_env_def moves_def)

lemma demo_transfer_from:
  "erc20_dispatch demo_erc20_env \<lparr>cx_address = [9], cx_caller = [2], cx_apparent_value = 0\<rparr> (TransferFrom [1] [3] 30) demo_erc20
     = Inr \<lparr>Approves = [(1, 2) \<mapsto> 20], Nonces = (\<lambda>_. 0), er_ext = (\<lambda>_. 100)(1 := 70, 3 := 130)\<rparr>"
  by (simp add: transfer_from_def ext_do_def in_field_def u256_to_amount_def spend_allowance_def try_into_def max_w_def
      checked_sub_def log3_def Let_def demo_erc20_def) (simp add: demo_erc20_env_def spend_allowance_def checked_sub_def)

theorem erc20_refines_token_witness:
  "token_step (token_of (\<lambda>x. x) demo_erc20) (TkTransferFrom 2 1 3 30)
     (token_of (\<lambda>x. x) \<lparr>Approves = [(1, 2) \<mapsto> 20], Nonces = (\<lambda>_. 0), er_ext = (\<lambda>_. 100)(1 := 70, 3 := 130)\<rparr>)"
  using erc20_refines_token [OF demo_token_world demo_transfer_from] by (simp add: demo_erc20_env_def)

theorem spending_within_approvals_witness:
  "spent 1 2 (effects demo_erc20_env demo_erc20_calls demo_erc20) \<le> 50 + approved 1 2 (effects demo_erc20_env demo_erc20_calls demo_erc20)"
  using spending_within_approvals [OF demo_token_world, of 1 2 demo_erc20_calls demo_erc20] by (simp add: demo_erc20_def)

end
