(* ===== verification/Inflation.thy ===== *)
theory Inflation
  imports Arith
begin

text \<open>
  The inflation formula of \<open>energy-generation/reward-fn\<close>, \<open>2 ^ ((x_ideal - x) / d)\<close> by its Taylor series
  over big integers, and the payout of \<open>energy-generation/src/inflation.rs\<close>.

  A \<open>BigUint\<close> is its value; the limbs it has are counted after stripping, as the code strips before it
  looks. The operations of \<open>BigUint\<close>, of the \<open>PerThing\<close> type (a value is its parts) and of the piecewise
  linear curve are parameters.
\<close>

section \<open>Operations\<close>

record big =
  big_len :: "nat \<Rightarrow> nat"
  big_mul :: "nat \<Rightarrow> nat \<Rightarrow> nat"
  big_add :: "nat \<Rightarrow> nat \<Rightarrow> nat"
  big_sub :: "nat \<Rightarrow> nat \<Rightarrow> nat + nat"
  big_div_unit :: "nat \<Rightarrow> nat \<Rightarrow> nat"
  big_div :: "nat \<Rightarrow> nat \<Rightarrow> nat option"

record inflation_env =
  i_big :: big
  i_accuracy :: nat
  i_div :: "nat \<Rightarrow> nat \<Rightarrow> nat"
  i_one_percent :: nat
  i_from_rational :: "nat \<Rightarrow> nat \<Rightarrow> nat"

record inpos_param =
  ip_ln2_div_d :: nat
  ip_x_ideal :: nat
  ip_x :: nat
  ip_accuracy :: nat

definition div_by_stripped :: "big \<Rightarrow> nat \<Rightarrow> nat \<Rightarrow> nat" where
  "div_by_stripped B a b =
     (if big_len B b = 0 then 0
      else if big_len B b = 1 then big_div_unit B a b
      else if big_len B a < big_len B b then 0
      else if big_len B b = big_len B a
      then let new_a = big_mul B a (100000 ^ 2)
           in big_div_unit B (big_div_unit B (unwrap_or 0 (big_div B new_a b)) 100000) 100000
      else unwrap_or 0 (big_div B a b))"

definition either_value :: "'a + 'a \<Rightarrow> 'a" where
  "either_value r = (case r of Inl x \<Rightarrow> x | Inr x \<Rightarrow> x)"

definition compute_taylor_term :: "big \<Rightarrow> nat \<Rightarrow> nat \<Rightarrow> inpos_param \<Rightarrow> nat" where
  "compute_taylor_term B k previous_taylor_term p =
     (let x_minus_x_ideal = (case big_sub B (ip_x p) (ip_x_ideal p) of Inr d \<Rightarrow> d | Inl _ \<Rightarrow> 0);
          res = big_div_unit B (big_mul B (big_mul B previous_taylor_term x_minus_x_ideal) (ip_ln2_div_d p)) k
      in div_by_stripped B (div_by_stripped B res (ip_accuracy p)) (ip_accuracy p))"

text \<open>The loop over \<open>k\<close>, which ends at the first term that is zero.\<close>

fun taylor_loop :: "big \<Rightarrow> inpos_param \<Rightarrow> nat list \<Rightarrow> nat \<Rightarrow> bool \<Rightarrow> nat \<Rightarrow> bool \<times> nat" where
  "taylor_loop B p [] last_taylor_term taylor_sum_positive taylor_sum = (taylor_sum_positive, taylor_sum)"
| "taylor_loop B p (k # ks) last_taylor_term taylor_sum_positive taylor_sum =
     (let last_taylor_term = compute_taylor_term B k last_taylor_term p
      in if last_taylor_term = 0 then (taylor_sum_positive, taylor_sum)
         else let last_taylor_term_positive = even k
              in if taylor_sum_positive = last_taylor_term_positive
                 then taylor_loop B p ks last_taylor_term taylor_sum_positive (big_add B taylor_sum last_taylor_term)
                 else if last_taylor_term \<le> taylor_sum
                 then taylor_loop B p ks last_taylor_term taylor_sum_positive
                        (either_value (big_sub B taylor_sum last_taylor_term))
                 else taylor_loop B p ks last_taylor_term (\<not> taylor_sum_positive)
                        (either_value (big_sub B last_taylor_term taylor_sum)))"

definition compute_taylor_serie_part :: "big \<Rightarrow> inpos_param \<Rightarrow> nat" where
  "compute_taylor_serie_part B p =
     (let (taylor_sum_positive, taylor_sum) = taylor_loop B p [1..<300] (ip_accuracy p) True (ip_accuracy p)
      in if \<not> taylor_sum_positive then 0 else taylor_sum)"

definition LN2 :: nat where "LN2 = 693147180559945309"

definition compute_inflation :: "inflation_env \<Rightarrow> nat \<Rightarrow> nat \<Rightarrow> nat \<Rightarrow> nat" where
  "compute_inflation I stake ideal_stake falloff =
     (if stake < ideal_stake then i_div I stake ideal_stake
      else if falloff < i_one_percent I then 0
      else let accuracy = i_accuracy I;
               ln2 = i_from_rational I LN2 perquintill_one;
               ln2_div_d = div_by_stripped (i_big I) (big_mul (i_big I) ln2 accuracy) falloff;
               res = compute_taylor_serie_part (i_big I)
                 \<lparr>ip_ln2_div_d = ln2_div_d, ip_x_ideal = ideal_stake, ip_x = stake, ip_accuracy = accuracy\<rparr>
           in if res \<le> max_w 128 \<and> res \<le> accuracy then res else 0)"

text \<open>The payout of an era; the curve's value at the stake and its maximum are handed in as functions.\<close>

definition MILLISECONDS_PER_YEAR :: nat where
  "MILLISECONDS_PER_YEAR = 1000 * 3600 * 24 * 36525 div 100"

definition compute_total_payout ::
  "perthing \<Rightarrow> (nat \<Rightarrow> nat \<Rightarrow> nat) \<Rightarrow> nat \<Rightarrow> nat \<Rightarrow> nat \<Rightarrow> nat \<Rightarrow> nat \<times> nat" where
  "compute_total_payout P calculate_for_fraction_times_denominator maximum npos_token_staked total_tokens era_duration =
     (let portion = pt_from_rational P era_duration MILLISECONDS_PER_YEAR
      in (pt_mul P portion (calculate_for_fraction_times_denominator npos_token_staked total_tokens),
          pt_mul P portion (pt_mul P maximum total_tokens)))"

section \<open>The division\<close>

text \<open>
  The documented behaviour of \<open>BigUint\<close>: limbs of 32 bits, exact operations; the long division works
  for a divisor of at least two limbs that is shorter than the dividend.
\<close>

definition big_ok :: "big \<Rightarrow> bool" where
  "big_ok B \<longleftrightarrow>
     (\<forall>n k. 0 < n \<or> 0 < k \<longrightarrow> (big_len B n \<le> k \<longleftrightarrow> n < 2 ^ (32 * k))) \<and>
     (\<forall>a b. big_mul B a b = a * b) \<and> (\<forall>a b. big_add B a b = a + b) \<and>
     (\<forall>a b. b \<le> a \<longrightarrow> big_sub B a b = Inr (a - b)) \<and>
     (\<forall>a u. 0 < u \<longrightarrow> u < 2 ^ 32 \<longrightarrow> big_div_unit B a u = a div u) \<and>
     (\<forall>a b. 1 < big_len B b \<longrightarrow> big_len B b < big_len B a \<longrightarrow> big_div B a b = Some (a div b))"

lemma big_okD:
  assumes "big_ok B"
  shows "0 < n \<or> 0 < k \<Longrightarrow> big_len B n \<le> k \<longleftrightarrow> n < 2 ^ (32 * k)" "big_mul B a b = a * b" "big_add B a b = a + b"
    "b \<le> a \<Longrightarrow> big_sub B a b = Inr (a - b)"
    "0 < b \<Longrightarrow> b < 4294967296 \<Longrightarrow> big_div_unit B a b = a div b"
    "1 < big_len B b \<Longrightarrow> big_len B b < big_len B a \<Longrightarrow> big_div B a b = Some (a div b)"
  using assms by (auto simp: big_ok_def)

text \<open>The division by a stripped number is the division, in each of its cases.\<close>

lemma div_by_stripped_eq:
  assumes B: "big_ok B" and b: "0 < b"
  shows "div_by_stripped B a b = a div b"
proof -
  note len = big_okD(1) [OF B]
  have b0: "big_len B b \<noteq> 0" using len [of b 0] b by simp
  show ?thesis
  proof (cases "big_len B b = 1")
    case True
    then have "b < 4294967296" using len [of b 1] by simp
    then show ?thesis using True b by (simp add: div_by_stripped_def big_okD(5) [OF B])
  next
    case False
    then have two: "1 < big_len B b" using b0 by simp
    consider "big_len B a < big_len B b" | "big_len B b = big_len B a" | "big_len B b < big_len B a" by linarith
    then show ?thesis
    proof cases
      case 1
      have "a < b"
      proof (cases "a = 0")
        case True
        then show ?thesis using b by simp
      next
        case False
        then have "a < 2 ^ (32 * big_len B a)" "\<not> b < 2 ^ (32 * big_len B a)"
          using len [of a "big_len B a"] len [of b "big_len B a"] 1 b by simp_all
        then show ?thesis by linarith
      qed
      then show ?thesis using 1 two by (simp add: div_by_stripped_def)
    next
      case 2
      have "\<not> big_len B a \<le> big_len B a - 1" using 2 two by linarith
      moreover have "0 < big_len B a - 1" using 2 two by simp
      ultimately have "\<not> a < 2 ^ (32 * (big_len B a - 1))" using len [of a "big_len B a - 1"] by blast
      then have "2 ^ (32 * (big_len B a - 1)) * 2 ^ 32 \<le> a * 100000 ^ 2"
        by (intro mult_mono) simp_all
      moreover have "32 * (big_len B a - 1) + 32 = 32 * big_len B a" using 2 two by simp
      ultimately have "\<not> a * 100000 ^ 2 < 2 ^ (32 * big_len B b)"
        using 2 by (simp only: power_add [symmetric] not_less)
      then have "big_len B b < big_len B (a * 100000 ^ 2)" using len [of "a * 100000 ^ 2" "big_len B b"] two
        by (metis less_nat_zero_code not_gr_zero not_le_imp_less)
      then have "big_div B (a * 100000 ^ 2) b = Some (a * 100000 ^ 2 div b)" by (rule big_okD(6) [OF B two])
      then have "div_by_stripped B a b = a * 100000 ^ 2 div b div 100000 div 100000"
        using 2 two by (simp add: div_by_stripped_def big_okD(2,5) [OF B])
      also have "\<dots> = a * 10000000000 div (b * 10000000000)" by (simp add: div_mult2_eq [symmetric] mult.assoc)
      also have "\<dots> = a div b" by simp
      finally show ?thesis .
    next
      case 3
      then show ?thesis using two by (simp add: div_by_stripped_def big_okD(6) [OF B])
    qed
  qed
qed

section \<open>The series\<close>

text \<open>The code keeps a sign and an absolute value; the reference sums integers with alternating signs.\<close>

fun reference_term :: "inpos_param \<Rightarrow> nat \<Rightarrow> nat" where
  "reference_term p 0 = ip_accuracy p"
| "reference_term p (Suc k) =
     reference_term p k * (ip_x p - ip_x_ideal p) * ip_ln2_div_d p div Suc k
       div ip_accuracy p div ip_accuracy p"

definition reference_sum :: "inpos_param \<Rightarrow> nat \<Rightarrow> int" where
  "reference_sum p n = (\<Sum>k = 0..<n. (- 1) ^ k * int (reference_term p k))"

definition signed :: "bool \<times> nat \<Rightarrow> int" where
  "signed r = (if fst r then int (snd r) else - int (snd r))"

lemma compute_taylor_term_eq:
  assumes B: "big_ok B" and p: "ip_x_ideal p \<le> ip_x p" "0 < ip_accuracy p" and k: "Suc k < 4294967296"
  shows "compute_taylor_term B (Suc k) (reference_term p k) p = reference_term p (Suc k)"
  using p k by (simp add: compute_taylor_term_def div_by_stripped_eq [OF B] big_okD(2,4,5) [OF B])

lemma reference_term_zero: "reference_term p k = 0 \<Longrightarrow> k \<le> n \<Longrightarrow> reference_term p n = 0"
  by (induction n) (auto simp: le_Suc_eq)

lemma taylor_loop_eq:
  assumes B: "big_ok B" and p: "ip_x_ideal p \<le> ip_x p" "0 < ip_accuracy p" and n: "n \<le> 4294967296"
  shows "Suc k \<le> n \<Longrightarrow>
    signed (taylor_loop B p [Suc k..<n] (reference_term p k) pos s) =
    signed (pos, s) + (\<Sum>i = Suc k..<n. (- 1) ^ i * int (reference_term p i))"
proof (induction "n - Suc k" arbitrary: k pos s)
  case 0
  then have "[Suc k..<n] = []" by simp
  then show ?case using 0 by simp
next
  case (Suc d)
  then have lt: "Suc k < n" by simp
  let ?t = "reference_term p (Suc k)"
  have list: "[Suc k..<n] = Suc k # [Suc (Suc k)..<n]" using lt by (rule upt_conv_Cons)
  have t: "compute_taylor_term B (Suc k) (reference_term p k) p = ?t"
    using lt n by (intro compute_taylor_term_eq [OF B p]) simp
  have sum: "(\<Sum>i = Suc k..<n. (- 1) ^ i * int (reference_term p i)) =
    (- 1) ^ Suc k * int ?t + (\<Sum>i = Suc (Suc k)..<n. (- 1) ^ i * int (reference_term p i))"
    using lt by (rule sum.atLeast_Suc_lessThan)
  show ?case
  proof (cases "?t = 0")
    case True
    have "(\<Sum>i = Suc k..<n. (- 1) ^ i * int (reference_term p i)) = 0"
      using reference_term_zero [OF True] by (intro sum.neutral) simp
    then show ?thesis using True t list by simp
  next
    case False
    have IH: "signed (taylor_loop B p [Suc (Suc k)..<n] ?t pos' s') =
      signed (pos', s') + (\<Sum>i = Suc (Suc k)..<n. (- 1) ^ i * int (reference_term p i))" for pos' s'
      using Suc.hyps(1) [of "Suc k" pos' s'] Suc.hyps(2) lt by (simp del: reference_term.simps)
    have step: "taylor_loop B p [Suc k..<n] (reference_term p k) pos s =
      (if pos = even (Suc k) then taylor_loop B p [Suc (Suc k)..<n] ?t pos (s + ?t)
       else if ?t \<le> s then taylor_loop B p [Suc (Suc k)..<n] ?t pos (s - ?t)
       else taylor_loop B p [Suc (Suc k)..<n] ?t (\<not> pos) (?t - s))"
      unfolding list using False by (simp add: Let_def t big_okD(3,4) [OF B] either_value_def del: reference_term.simps)
    let ?next = "if pos = even (Suc k) then (pos, s + ?t) else if ?t \<le> s then (pos, s - ?t) else (\<not> pos, ?t - s)"
    have "signed (taylor_loop B p [Suc k..<n] (reference_term p k) pos s) =
      signed ?next + (\<Sum>i = Suc (Suc k)..<n. (- 1) ^ i * int (reference_term p i))"
      unfolding step by (simp add: IH del: reference_term.simps)
    moreover have "signed ?next = signed (pos, s) + (- 1) ^ Suc k * int ?t"
      by (auto simp: signed_def of_nat_diff minus_one_power_iff simp del: reference_term.simps)
    ultimately show ?thesis unfolding sum by linarith
  qed
qed

text \<open>With exact big integers \<open>compute_inflation\<close> at or above the ideal stake is the alternating sum of
  the first 300 terms, and zero when that sum is negative or more than one.\<close>

theorem compute_inflation_reference:
  assumes B: "big_ok (i_big I)" and "ideal_stake \<le> stake" and "i_one_percent I \<le> falloff"
    and "0 < falloff" and "0 < i_accuracy I" and "i_accuracy I \<le> max_w 128"
  defines "p \<equiv> \<lparr>ip_ln2_div_d = i_from_rational I LN2 perquintill_one * i_accuracy I div falloff,
    ip_x_ideal = ideal_stake, ip_x = stake, ip_accuracy = i_accuracy I\<rparr>"
  shows "compute_inflation I stake ideal_stake falloff =
    (if reference_sum p 300 \<le> int (i_accuracy I) then nat (reference_sum p 300) else 0)"
proof -
  let ?r = "taylor_loop (i_big I) p [1..<300] (ip_accuracy p) True (ip_accuracy p)"
  have p: "ip_x_ideal p \<le> ip_x p" "0 < ip_accuracy p" using assms by (simp_all add: p_def)
  have "signed ?r = int (ip_accuracy p) + (\<Sum>i = 1..<300. (- 1) ^ i * int (reference_term p i))"
    using taylor_loop_eq [OF B p, of 300 0 True "ip_accuracy p"] by (simp add: signed_def)
  also have "\<dots> = reference_sum p 300"
    unfolding reference_sum_def by (subst (2) sum.atLeast_Suc_lessThan) simp_all
  finally have "compute_taylor_serie_part (i_big I) p = nat (reference_sum p 300)"
    by (cases ?r) (auto simp: compute_taylor_serie_part_def signed_def split: if_splits)
  then have "compute_inflation I stake ideal_stake falloff =
      (let res = nat (reference_sum p 300) in if res \<le> max_w 128 \<and> res \<le> i_accuracy I then res else 0)"
    using assms(2-4) by (simp add: compute_inflation_def div_by_stripped_eq [OF B] big_okD(2) [OF B] p_def Let_def)
  then show ?thesis using assms(5,6) by (auto simp: Let_def nat_le_iff)
qed

text \<open>Big integers as the documentation has them: a stripped number keeps at least one limb.\<close>

fun limbs :: "nat \<Rightarrow> nat" where
  "limbs n = (if n < 2 ^ 32 then 1 else Suc (limbs (n div 2 ^ 32)))"

declare limbs.simps [simp del]

definition big_ref :: big where
  "big_ref = \<lparr>big_len = limbs, big_mul = (*), big_add = (+),
     big_sub = (\<lambda>a b. if b \<le> a then Inr (a - b) else Inl 0), big_div_unit = (div),
     big_div = (\<lambda>a b. Some (a div b))\<rparr>"

lemma limbs_pos: "0 < limbs n"
  by (subst limbs.simps) simp

lemma limbs_le: "0 < k \<Longrightarrow> limbs n \<le> k \<longleftrightarrow> n < 2 ^ (32 * k)"
proof (induction n arbitrary: k rule: limbs.induct)
  case (1 n)
  obtain j where k: "k = Suc j" using "1.prems" by (cases k) auto
  show ?case
  proof (cases "n < 2 ^ 32")
    case True
    have "n < 2 ^ (32 * k)" using k by (intro less_le_trans [OF True power_increasing]) simp_all
    then show ?thesis using True k by (simp add: limbs.simps [of n])
  next
    case False
    have "n < 2 ^ (32 * k) \<longleftrightarrow> n div 2 ^ 32 < 2 ^ (32 * j)"
      by (simp add: k div_less_iff_less_mult power_add mult.commute)
    moreover have "limbs n \<le> k \<longleftrightarrow> limbs (n div 2 ^ 32) \<le> j"
      using False by (simp add: limbs.simps [of n] k)
    moreover have "limbs (n div 2 ^ 32) \<le> j \<longleftrightarrow> n div 2 ^ 32 < 2 ^ (32 * j)"
    proof (cases "j = 0")
      case True
      then show ?thesis using False limbs_pos [of "n div 2 ^ 32"] by (simp add: not_less div_greater_zero_iff)
    next
      case j: False
      show ?thesis by (rule "1.IH" [OF False]) (use j in simp)
    qed
    ultimately show ?thesis by simp
  qed
qed

lemma big_ref_ok: "big_ok big_ref"
proof -
  have "limbs n \<le> k \<longleftrightarrow> n < 2 ^ (32 * k)" if "0 < n \<or> 0 < k" for n k
  proof (cases k)
    case 0
    then show ?thesis using that by (auto simp: limbs.simps [of n])
  next
    case (Suc j)
    then show ?thesis by (simp only: limbs_le zero_less_Suc)
  qed
  then show ?thesis by (simp add: big_ok_def big_ref_def)
qed

theorem compute_inflation_reference_witness:
  "\<exists>I. big_ok (i_big I) \<and> compute_inflation I 600000000 500000000 50000000 =
    (let s = reference_sum \<lparr>ip_ln2_div_d = 693147180 * 1000000000 div 50000000,
       ip_x_ideal = 500000000, ip_x = 600000000, ip_accuracy = 1000000000\<rparr> 300
     in if s \<le> 1000000000 then nat s else 0)"
proof -
  let ?I = "\<lparr>i_big = big_ref, i_accuracy = 1000000000, i_div = (\<lambda>a b. a * 1000000000 div b),
    i_one_percent = 10000000, i_from_rational = (\<lambda>a b. a * 1000000000 div b)\<rparr>"
  have "i_from_rational ?I LN2 perquintill_one = 693147180" by (simp add: LN2_def)
  then show ?thesis
    using compute_inflation_reference [of ?I 500000000 600000000 50000000] big_ref_ok
    by (intro exI [of _ ?I]) (simp add: Let_def max_w_def)
qed

end
