(* ===== verification/Migrations.thy ===== *)
theory Migrations
  imports StakingProps EnergyBroker Privileges
begin

text \<open>
  The storage migrations: of the staking pallet (\<open>energy-generation/src/migrations.rs\<close>), of privileges,
  dynamic energy and the broker (\<open>migration.rs\<close>), and of the runtime (\<open>runtime/vitreus/src/migrations.rs\<close>).
  \<open>VersionedMigration\<close>, which runs one only at its version, is third-party code, and weights are left out:
  a migration is a function of the storage it works on. A storage item that no pallet has any more is an
  argument. The counters are kept where the code's own checks after an upgrade speak of them.
\<close>

section \<open>Staking\<close>

text \<open>
  \<open>OffendingValidators\<close> becomes \<open>DisabledValidators\<close>: the disabled ones, up to the limit of the default
  disabling strategy. The old list is taken, so an empty one stays.
\<close>

definition migrate_v14_to_v15 ::
  "'x staking_env \<Rightarrow> (nat \<times> bool) list \<Rightarrow> 'x staking \<Rightarrow> (nat \<times> bool) list \<times> 'x staking" where
  "migrate_v14_to_v15 E offending s =
     (let migrated = map fst (filter snd offending);
          migrated = take (disable_limit 3 (length (x_validators E (st_ext s)))) migrated
      in ([], s\<lparr>st_slash := (st_slash s)\<lparr>DisabledValidators := migrated\<rparr>\<rparr>))"

text \<open>\<open>translate_values\<close> keeps an entry when its translation is a value and removes it otherwise.\<close>

definition migrate_v15_to_v16 :: "'x staking_env \<Rightarrow> 'x staking \<Rightarrow> 'x staking" where
  "migrate_v15_to_v16 E s = s\<lparr>ErasEnergyPerStakeCurrency := (\<lambda>era.
     case ErasEnergyPerStakeCurrency s era of
       None \<Rightarrow> None
     | Some rate \<Rightarrow> fx_checked_from_rational (c_fixed E) 1 rate)\<rparr>"

text \<open>The loop of \<open>FixCooperatorStake\<close> over the ledgers, with its two counters.\<close>

definition fix_cooperator_step ::
  "'x staking_env \<Rightarrow> account \<Rightarrow> 'x staking \<times> nat \<times> nat \<Rightarrow> 'x staking \<times> nat \<times> nat" where
  "fix_cooperator_step E c = (\<lambda>(s, count, fixed).
     case Ledger s c of
       None \<Rightarrow> (s, count, fixed)
     | Some ledger \<Rightarrow>
         case Cooperators s (l_stash ledger) of
           None \<Rightarrow> (s, count + 1, fixed)
         | Some cooperations \<Rightarrow>
             let targets_stake = cooperations_total cooperations
             in if l_active ledger < targets_stake
                then (adjust_cooperator_targets E (l_stash ledger) (l_active ledger) s, count + 1, fixed + 1)
                else (s, count + 1, fixed))"

definition fix_cooperator_stake :: "'x staking_env \<Rightarrow> 'x staking \<Rightarrow> 'x staking \<times> nat \<times> nat" where
  "fix_cooperator_stake E s = fold (fix_cooperator_step E) (x_iter E (dom (Ledger s))) (s, 0, 0)"

text \<open>The check \<open>post_upgrade\<close> makes after it.\<close>

definition fix_cooperator_post :: "'x staking_env \<Rightarrow> 'x staking \<Rightarrow> bool" where
  "fix_cooperator_post E s = list_all (\<lambda>c.
     case Ledger s c of
       None \<Rightarrow> True
     | Some ledger \<Rightarrow>
         (case Cooperators s (l_stash ledger) of
            None \<Rightarrow> True
          | Some cooperations \<Rightarrow> cooperations_total cooperations \<le> l_active ledger))
     (x_iter E (dom (Ledger s)))"

section \<open>Privileges\<close>

text \<open>The results of a year move into the points of the members; \<open>year as u32\<close> wraps.\<close>

definition year_as_u32 :: "int \<Rightarrow> nat" where
  "year_as_u32 year = nat (year mod 2 ^ 32)"

definition migrate_year ::
  "int \<times> (account \<times> balance) list \<Rightarrow> (nat \<times> account \<rightharpoonup> balance) \<Rightarrow> (nat \<times> account \<rightharpoonup> balance)" where
  "migrate_year = (\<lambda>(year, results) m.
     fold (\<lambda>(a, points) m. if points \<noteq> 0 then m((year_as_u32 year, a) \<mapsto> points) else m) results m)"

text \<open>The old maps are drained: they arrive as the list of their entries.\<close>

definition privileges_migrate_to_v1 ::
  "(int \<times> (account \<times> balance) list) list \<Rightarrow> (int \<times> (account \<times> balance) list) list \<Rightarrow> 'y privileges \<Rightarrow> 'y privileges" where
  "privileges_migrate_to_v1 vip_results vipp_results w =
     w\<lparr>VipPoints := fold migrate_year vip_results (VipPoints w),
       VippPoints := fold migrate_year vipp_results (VippPoints w)\<rparr>"

section \<open>Energy\<close>

record initialize_params =
  im_exchange_rate :: nat
  im_energy_burn :: balance
  im_energy_sale :: balance
  im_total_stake :: balance

definition dyn_initialize ::
  "initialize_params \<Rightarrow> era option \<Rightarrow> (era \<Rightarrow> (session \<times> session) option) \<Rightarrow> dyn_state \<Rightarrow> dyn_state" where
  "dyn_initialize I act range_for_era s =
     (if ExchangeRate s = None then
        let s1 = s\<lparr>ExchangeRate := Some (im_exchange_rate I), EnergyBurnOverride := Some (im_energy_burn I),
                  EnergySaleOverride := Some (im_energy_sale I), TotalStakeOverride := Some (im_total_stake I)\<rparr>
        in (case Option.bind act range_for_era of
              None \<Rightarrow> s1
            | Some (start, end') \<Rightarrow>
                s1\<lparr>EnergyGeneration := fold (\<lambda>i m. m(i \<mapsto> im_energy_burn I)) [start..<end'] (EnergyGeneration s1)\<rparr>)
      else s)"

definition broker_migrate_to_v1 :: "balance \<Rightarrow> 'x broker \<Rightarrow> 'x broker" where
  "broker_migrate_to_v1 capacity b = b\<lparr>EnergyCapacity := capacity, EnergyCapacityOverride := Some capacity\<rparr>"

text \<open>The technical committee's treasury gets the minimum balance; a failing transfer is only logged.\<close>

record 'x treasury_init =
  ti_account_exists :: "'x \<Rightarrow> account \<Rightarrow> bool"
  ti_treasury :: account
  ti_technical :: account
  ti_minimum_balance :: balance
  ti_transfer :: "account \<Rightarrow> account \<Rightarrow> balance \<Rightarrow> 'x \<Rightarrow> string + 'x"

definition init_technical_committee_treasury :: "'x treasury_init \<Rightarrow> 'x \<Rightarrow> 'x" where
  "init_technical_committee_treasury T x =
     (if \<not> ti_account_exists T x (ti_technical T)
      then case ti_transfer T (ti_treasury T) (ti_technical T) (ti_minimum_balance T) x of
             Inr x' \<Rightarrow> x'
           | Inl _ \<Rightarrow> x
      else x)"

section \<open>The cooperators' stake\<close>

lemma sum_list_floor:
  fixes one :: nat
  shows "sum_list (map (\<lambda>x. r * x div one) xs) \<le> r * sum_list xs div one"
proof (induction xs)
  case Nil
  then show ?case by simp
next
  case (Cons x xs)
  have "r * x div one + r * sum_list xs div one \<le> (r * x + r * sum_list xs) div one"
    using div_add1_eq [of "r * x" "r * sum_list xs" one] by simp
  with Cons show ?case by (simp add: distrib_left)
qed

text \<open>Adjusting never raises what a cooperator targets, and brings it under the active stake.\<close>

lemma adjusted_total:
  assumes P: "perthing_ok perbill_one P" and fit: "sum_list (map snd ts) \<le> max_w 128"
    and less: "active < sum_list (map snd ts)"
  defines "r \<equiv> pt_from_rational P active (sum_list (map snd ts))"
  shows "r < perbill_one" "sum_list (map (\<lambda>x. pt_mul_floor P r (snd x)) ts) \<le> active"
proof -
  let ?T = "sum_list (map snd ts)"
  have r: "r * ?T \<le> active * perbill_one" using perthing_okD(4) [OF P less] by (simp add: r_def)
  show lt: "r < perbill_one"
  proof (rule ccontr)
    assume "\<not> r < perbill_one"
    then have "perbill_one * ?T \<le> r * ?T" by (intro mult_le_mono1) simp
    then have "?T * perbill_one \<le> active * perbill_one" using r by linarith
    then show False using less by simp
  qed
  have "sum_list (map (\<lambda>x. pt_mul_floor P r (snd x)) ts) = sum_list (map (\<lambda>x. r * x div perbill_one) (map snd ts))"
    using lt perthing_okD(9) [OF P, of r] by (simp add: comp_def)
  also have "\<dots> \<le> r * ?T div perbill_one" by (rule sum_list_floor)
  also have "\<dots> \<le> active" using div_le_mono [OF r, of perbill_one] by simp
  finally show "sum_list (map (\<lambda>x. pt_mul_floor P r (snd x)) ts) \<le> active" .
qed

definition coop_total :: "'x staking \<Rightarrow> account \<Rightarrow> balance" where
  "coop_total s a = (case Cooperators s a of None \<Rightarrow> 0 | Some co \<Rightarrow> sum_list (map snd (co_targets co)))"

definition totals_fit :: "'x staking \<Rightarrow> bool" where
  "totals_fit s \<longleftrightarrow> (\<forall>a. coop_total s a \<le> max_w 128)"

lemma cooperations_total_eq:
  "totals_fit s \<Longrightarrow> Cooperators s a = Some co \<Longrightarrow> cooperations_total co = coop_total s a"
  by (auto simp: totals_fit_def coop_total_def cooperations_total_def sat_sum_eq dest!: spec [of _ a])

lemma coop_total_adjust:
  assumes P: "perthing_ok perbill_one (c_perbill E)" and fit: "totals_fit s" and less: "v < coop_total s a"
  shows "coop_total (adjust_cooperator_targets E a v s) b = coop_total s b \<or>
      a = b \<and> coop_total (adjust_cooperator_targets E a v s) a \<le> v"
    and "coop_total (adjust_cooperator_targets E a v s) a \<le> v"
proof -
  obtain co where co: "Cooperators s a = Some co" using less by (auto simp: coop_total_def split: option.splits)
  have T: "sum_list (map snd (co_targets co)) \<le> max_w 128" "v < sum_list (map snd (co_targets co))"
    using fit less co by (auto simp: totals_fit_def coop_total_def dest!: spec [of _ a])
  show "coop_total (adjust_cooperator_targets E a v s) a \<le> v"
    using adjusted_total [OF P T] co cooperations_total_eq [OF fit co] T
    by (simp add: adjust_cooperator_targets_def Let_def coop_total_def comp_def case_prod_beta)
  then show "coop_total (adjust_cooperator_targets E a v s) b = coop_total s b \<or>
      a = b \<and> coop_total (adjust_cooperator_targets E a v s) a \<le> v"
    using co by (cases "a = b") (simp_all add: adjust_cooperator_targets_def Let_def coop_total_def)
qed

lemma fix_step_sound:
  assumes P: "perthing_ok perbill_one (c_perbill E)" and fit: "totals_fit s"
    and step: "fix_cooperator_step E c (s, n, m) = (s', n', m')"
  shows "Ledger s' = Ledger s" "totals_fit s'" "coop_total s' b \<le> coop_total s b"
    "Ledger s c = Some l \<Longrightarrow> coop_total s' (l_stash l) \<le> l_active l"
    "dom (Cooperators s') = dom (Cooperators s)"
proof -
  consider "s' = s" "\<And>l. Ledger s c = Some l \<Longrightarrow> coop_total s (l_stash l) \<le> l_active l"
    | l where "Ledger s c = Some l" "l_active l < coop_total s (l_stash l)"
        "s' = adjust_cooperator_targets E (l_stash l) (l_active l) s"
  proof (cases "Ledger s c")
    case None
    then show ?thesis using that(1) step by (simp add: fix_cooperator_step_def)
  next
    case (Some l)
    show ?thesis
    proof (cases "Cooperators s (l_stash l)")
      case None
      then show ?thesis using that(1) step Some by (simp add: fix_cooperator_step_def coop_total_def)
    next
      case (Some co)
      then show ?thesis
        using that \<open>Ledger s c = Some l\<close> step cooperations_total_eq [OF fit Some]
        by (auto simp: fix_cooperator_step_def Let_def not_less split: if_splits)
    qed
  qed
  then have "Ledger s' = Ledger s \<and> dom (Cooperators s') = dom (Cooperators s)
    \<and> (\<forall>b. coop_total s' b \<le> coop_total s b) \<and> (\<forall>l. Ledger s c = Some l \<longrightarrow> coop_total s' (l_stash l) \<le> l_active l)"
  proof cases
    case 1
    then show ?thesis by simp
  next
    case (2 l)
    have "coop_total s' b \<le> coop_total s b" for b
      using coop_total_adjust(1) [OF P fit 2(2), of b] 2(2,3) by auto
    then show ?thesis
      using 2 coop_total_adjust(2) [OF P fit 2(2)]
      by (auto simp: adjust_cooperator_targets_def Let_def split: option.splits if_splits)
  qed
  then show "Ledger s' = Ledger s" "coop_total s' b \<le> coop_total s b" "dom (Cooperators s') = dom (Cooperators s)"
    "Ledger s c = Some l \<Longrightarrow> coop_total s' (l_stash l) \<le> l_active l" "totals_fit s'"
    using fit by (auto simp: totals_fit_def intro: order_trans)
qed

lemma fix_fold_sound:
  assumes P: "perthing_ok perbill_one (c_perbill E)"
  shows "totals_fit s \<Longrightarrow> fold (fix_cooperator_step E) cs (s, n, m) = (s', n', m') \<Longrightarrow>
    Ledger s' = Ledger s \<and> totals_fit s' \<and> (\<forall>b. coop_total s' b \<le> coop_total s b)
    \<and> dom (Cooperators s') = dom (Cooperators s)
    \<and> (\<forall>c \<in> set cs. \<forall>l. Ledger s c = Some l \<longrightarrow> coop_total s' (l_stash l) \<le> l_active l)"
proof (induction cs arbitrary: s n m)
  case Nil
  then show ?case by simp
next
  case (Cons c cs)
  obtain t i j where t: "fix_cooperator_step E c (s, n, m) = (t, i, j)" by (cases "fix_cooperator_step E c (s, n, m)")
  note step = fix_step_sound [OF P Cons.prems(1) t]
  have "fold (fix_cooperator_step E) cs (t, i, j) = (s', n', m')" using Cons.prems(2) t by simp
  note IH = Cons.IH [OF step(2) this]
  show ?case using IH step by (auto intro: order_trans)
qed

text \<open>C40. \<open>FixCooperatorStake\<close> passes its own check: afterwards no cooperator whose ledger it visits targets
  more than the ledger's active stake; no ledger changes, no total grows and no cooperator is lost.\<close>

theorem fix_cooperator_stake_passes_check:
  assumes "perthing_ok perbill_one (c_perbill E)"
    and "\<forall>a co. Cooperators s a = Some co \<longrightarrow> sum_list (map snd (co_targets co)) \<le> max_w 128"
    and "fix_cooperator_stake E s = (s', count, fixed)"
  shows "fix_cooperator_post E s' \<and> Ledger s' = Ledger s \<and> dom (Cooperators s') = dom (Cooperators s)
    \<and> (\<forall>a. coop_total s' a \<le> coop_total s a)"
proof (intro conjI)
  have fit: "totals_fit s" using assms(2) by (auto simp: totals_fit_def coop_total_def split: option.splits)
  note f = fix_fold_sound [OF assms(1) fit assms(3) [unfolded fix_cooperator_stake_def]]
  then show "Ledger s' = Ledger s" "dom (Cooperators s') = dom (Cooperators s)" "\<forall>a. coop_total s' a \<le> coop_total s a"
    by auto
  show "fix_cooperator_post E s'"
    using f cooperations_total_eq [of s']
    by (fastforce simp: fix_cooperator_post_def list_all_iff split: option.splits)
qed

definition demo_overcommitted :: "(account \<Rightarrow> balance) staking" where
  "demo_overcommitted = demo_state\<lparr>Ledger := [10 \<mapsto> demo_ledger],
     Cooperators := [11 \<mapsto> \<lparr>co_targets = [(1, 90), (2, 60)], co_submitted_in = 0, co_suppressed = False\<rparr>]\<rparr>"

theorem fix_cooperator_stake_passes_check_witness:
  "cooperations_total (the (Cooperators demo_overcommitted 11)) = 150 \<and>
   coop_total (fst (fix_cooperator_stake demo_env demo_overcommitted)) 11 \<le> 100"
proof -
  obtain s' n m where run: "fix_cooperator_stake demo_env demo_overcommitted = (s', n, m)"
    by (cases "fix_cooperator_stake demo_env demo_overcommitted")
  have P: "perthing_ok perbill_one (c_perbill demo_env)" by (simp add: demo_env_def perthing_ref_ok)
  have fit: "\<forall>a co. Cooperators demo_overcommitted a = Some co \<longrightarrow> sum_list (map snd (co_targets co)) \<le> max_w 128"
    by (simp add: demo_overcommitted_def max_w_def)
  have f: "fix_cooperator_post demo_env s'" "Ledger s' = Ledger demo_overcommitted"
    "coop_total s' 11 \<le> coop_total demo_overcommitted 11"
    using fix_cooperator_stake_passes_check [OF P fit run] by auto
  have ledger: "Ledger s' = [10 \<mapsto> demo_ledger]" using f by (simp add: demo_overcommitted_def)
  have post: "case Cooperators s' 11 of None \<Rightarrow> True | Some co \<Rightarrow> cooperations_total co \<le> 100"
    using f(1) by (simp add: fix_cooperator_post_def ledger demo_env_def demo_ledger_def split: option.splits)
  have "coop_total demo_overcommitted 11 = 150" by (simp add: demo_overcommitted_def coop_total_def)
  then have total: "coop_total s' 11 \<le> 150" using f(3) by simp
  have "coop_total s' 11 \<le> 100"
    using post total by (auto simp: coop_total_def cooperations_total_def sat_sum_eq max_w_def split: option.splits)
  moreover have "cooperations_total (the (Cooperators demo_overcommitted 11)) = 150"
    by (simp add: demo_overcommitted_def cooperations_total_def sat_sum_eq max_w_def)
  ultimately show ?thesis by (simp add: run)
qed

section \<open>The points of the years\<close>

lemma migrate_results:
  assumes "distinct (map fst results)"
  shows "migrate_year (year, results) m k =
    (case map_of (filter (\<lambda>r. snd r \<noteq> 0) results) (snd k) of
       Some p \<Rightarrow> if fst k = year_as_u32 year then Some p else m k
     | None \<Rightarrow> m k)"
  using assms
proof (induction results arbitrary: m)
  case Nil
  then show ?case by (simp add: migrate_year_def)
next
  case (Cons r rs)
  obtain a p where r: "r = (a, p)" by fastforce
  obtain y b where k: "k = (y, b)" by fastforce
  have notin: "map_of (filter (\<lambda>r. snd r \<noteq> 0) rs) a = None"
    using Cons.prems r by (force simp: map_of_eq_None_iff)
  have "migrate_year (year, r # rs) m = migrate_year (year, rs) (if p \<noteq> 0 then m((year_as_u32 year, a) \<mapsto> p) else m)"
    by (simp add: migrate_year_def r)
  then show ?case using Cons.IH Cons.prems notin r k by (auto split: option.splits)
qed

lemma year_as_u32_inject:
  assumes "- (2 ^ 31) \<le> x" "x < 2 ^ 31" "- (2 ^ 31) \<le> y" "y < 2 ^ 31" "year_as_u32 x = year_as_u32 y"
  shows "x = y"
proof -
  have "x mod 2 ^ 32 = y mod 2 ^ 32" using assms(5) by (simp add: year_as_u32_def)
  then have "2 ^ 32 dvd x - y" by (simp add: mod_eq_dvd_iff)
  then obtain k where k: "x - y = 2 ^ 32 * k" by (elim dvdE)
  then have "- 1 < k" "k < 1" using assms(1-4) by simp_all
  then show ?thesis using k by simp
qed

lemma migrate_years_other:
  assumes "\<forall>(yr, res) \<in> set rs. distinct (map fst res)"
    and "\<forall>(yr, res) \<in> set rs. year_as_u32 yr \<noteq> y"
  shows "fold migrate_year rs m (y, a) = m (y, a)"
  using assms
proof (induction rs arbitrary: m)
  case Nil
  then show ?case by simp
next
  case (Cons r rs)
  then show ?case by (cases r) (auto simp: migrate_results split: option.splits)
qed

lemma migrate_years_at:
  assumes "distinct (map fst rs)" and "\<forall>(yr, res) \<in> set rs. distinct (map fst res) \<and> - (2 ^ 31) \<le> yr \<and> yr < 2 ^ 31"
    and "(yr, res) \<in> set rs"
  shows "fold migrate_year rs m (year_as_u32 yr, a) =
    (case map_of (filter (\<lambda>r. snd r \<noteq> 0) res) a of Some p \<Rightarrow> Some p | None \<Rightarrow> m (year_as_u32 yr, a))"
  using assms
proof (induction rs arbitrary: m)
  case Nil
  then show ?case by simp
next
  case (Cons r rs)
  show ?case
  proof (cases "r = (yr, res)")
    case True
    have "year_as_u32 yr' \<noteq> year_as_u32 yr" if "(yr', res') \<in> set rs" for yr' res'
      using that Cons.prems year_as_u32_inject [of yr' yr] True by force
    then have "fold migrate_year rs (migrate_year r m) (year_as_u32 yr, a) = migrate_year r m (year_as_u32 yr, a)"
      using Cons.prems by (intro migrate_years_other) auto
    then show ?thesis using True Cons.prems by (simp add: migrate_results split: option.split)
  next
    case False
    obtain yr' res' where r: "r = (yr', res')" by fastforce
    have "(yr, res) \<in> set rs" using Cons.prems False by simp
    then have "yr' \<noteq> yr" using Cons.prems r by force
    then have "year_as_u32 yr' \<noteq> year_as_u32 yr"
      using year_as_u32_inject [of yr' yr] Cons.prems r by auto
    then have same: "migrate_year r m (year_as_u32 yr, b) = m (year_as_u32 yr, b)" for b
      using Cons.prems r by (auto simp: migrate_results split: option.splits)
    have "fold migrate_year rs (migrate_year r m) (year_as_u32 yr, a) =
      (case map_of (filter (\<lambda>r. snd r \<noteq> 0) res) a of Some p \<Rightarrow> Some p | None \<Rightarrow> migrate_year r m (year_as_u32 yr, a))"
      using Cons.prems \<open>(yr, res) \<in> set rs\<close> by (intro Cons.IH) auto
    then show ?thesis by (simp add: same split: option.split)
  qed
qed

text \<open>
  No result of a year is lost: each member's nonzero points arrive under their year, nothing else of that
  year changes, and years without results keep their points.
\<close>

theorem privileges_migration_lossless:
  assumes "distinct (map fst vip)"
    and "\<forall>(yr, res) \<in> set vip. distinct (map fst res) \<and> - (2 ^ 31) \<le> yr \<and> yr < 2 ^ 31"
    and w'_def: "w' = privileges_migrate_to_v1 vip vipp w"
  shows "\<lbrakk>(yr, res) \<in> set vip; (a, p) \<in> set res; p \<noteq> 0\<rbrakk> \<Longrightarrow> VipPoints w' (year_as_u32 yr, a) = Some p"
    and "\<lbrakk>(yr, res) \<in> set vip; \<forall>p. (a, p) \<in> set res \<longrightarrow> p = 0\<rbrakk> \<Longrightarrow> VipPoints w' (year_as_u32 yr, a) = VipPoints w (year_as_u32 yr, a)"
    and "\<forall>(yr, res) \<in> set vip. year_as_u32 yr \<noteq> y \<Longrightarrow> VipPoints w' (y, a) = VipPoints w (y, a)"
proof -
  assume A: "(yr, res) \<in> set vip" "(a, p) \<in> set res" "p \<noteq> 0"
  have "distinct (map fst (filter (\<lambda>r. snd r \<noteq> 0) res))" using assms(2) A(1) by (auto intro: distinct_map_filter)
  then have "map_of (filter (\<lambda>r. snd r \<noteq> 0) res) a = Some p" using A by (intro map_of_is_SomeI) simp_all
  then show "VipPoints w' (year_as_u32 yr, a) = Some p"
    using migrate_years_at [OF assms(1,2) A(1)] by (simp add: w'_def privileges_migrate_to_v1_def)
next
  assume A: "(yr, res) \<in> set vip" "\<forall>p. (a, p) \<in> set res \<longrightarrow> p = 0"
  have "map_of (filter (\<lambda>r. snd r \<noteq> 0) res) a = None" using A(2) by (force simp: map_of_eq_None_iff)
  then show "VipPoints w' (year_as_u32 yr, a) = VipPoints w (year_as_u32 yr, a)"
    using migrate_years_at [OF assms(1,2) A(1)] by (simp add: w'_def privileges_migrate_to_v1_def)
next
  assume "\<forall>(yr, res) \<in> set vip. year_as_u32 yr \<noteq> y"
  then show "VipPoints w' (y, a) = VipPoints w (y, a)"
    using assms(2) by (auto simp: w'_def privileges_migrate_to_v1_def intro!: migrate_years_other)
qed

section \<open>The other migrations\<close>

text \<open>Sorted offenders become a sorted list of disabled validators within the limit.\<close>

lemma disabled_after_v15:
  assumes "sorted_wrt (<) (map fst offending)" and "migrate_v14_to_v15 E offending s = (old, s')"
  shows "sorted_wrt (<) (DisabledValidators (st_slash s'))"
    "length (DisabledValidators (st_slash s')) \<le> disable_limit 3 (length (x_validators E (st_ext s)))"
    "set (DisabledValidators (st_slash s')) \<subseteq> {i. (i, True) \<in> set offending}" "old = []"
proof -
  have "sorted_wrt (<) (map fst (filter snd offending))"
    using assms(1) by (auto simp: sorted_wrt_map intro: sorted_wrt_filter)
  then show "sorted_wrt (<) (DisabledValidators (st_slash s'))"
    using assms(2) by (auto simp: migrate_v14_to_v15_def Let_def intro: sorted_wrt_take)
  show "length (DisabledValidators (st_slash s')) \<le> disable_limit 3 (length (x_validators E (st_ext s)))" "old = []"
    using assms(2) by (auto simp: migrate_v14_to_v15_def Let_def)
  show "set (DisabledValidators (st_slash s')) \<subseteq> {i. (i, True) \<in> set offending}"
    using assms(2) by (auto simp: migrate_v14_to_v15_def Let_def dest!: in_set_takeD)
qed

text \<open>The initialisation of dynamic energy takes effect once.\<close>

lemma dyn_initialize_once:
  "dyn_initialize I' ae' f' (dyn_initialize I ae f s) = dyn_initialize I ae f s"
  by (simp add: dyn_initialize_def Let_def split: option.splits prod.splits)

end
