(* ===== verification/ParachainsDb.thy ===== *)
theory ParachainsDb
  imports Prelude
begin

text \<open>
  The parachains database of the node (\<open>node/service/src/parachains_db\<close>): its columns, the version file
  and the upgrades from one version to the next.

  The disk is a world \<open>'w\<close>. Nothing is rolled back on an error, so an operation is a function from the
  world to a result and the new world. The file system, \<open>kvdb_rocksdb\<close>, \<open>parity_db\<close> and the migrations of
  the approval database are fields of \<open>db_env\<close>; the column options of \<open>parity_db\<close> are of a type \<open>'c\<close>.
\<close>

section \<open>Operations on the disk\<close>

datatype upgrade_error = Io string | CorruptedVersionFile | FutureVersion nat nat | MigrationFailed | MigrationLoop

type_synonym ('w, 'e, 'a) prog = "'w \<Rightarrow> ('e + 'a) \<times> 'w"
type_synonym ('w, 'a) io = "('w, upgrade_error, 'a) prog"

definition io_ret :: "'a \<Rightarrow> ('w, 'e, 'a) prog" where
  "io_ret x = (\<lambda>w. (Inr x, w))"

definition io_fail :: "'e \<Rightarrow> ('w, 'e, 'a) prog" where
  "io_fail e = (\<lambda>w. (Inl e, w))"

definition io_bind :: "('w, 'e, 'a) prog \<Rightarrow> ('a \<Rightarrow> ('w, 'e, 'b) prog) \<Rightarrow> ('w, 'e, 'b) prog" where
  "io_bind m f = (\<lambda>w. case m w of (Inl e, w') \<Rightarrow> (Inl e, w') | (Inr x, w') \<Rightarrow> f x w')"

text \<open>A call of third-party code, its error wrapped by \<open>f\<close>.\<close>

definition io_call :: "(string \<Rightarrow> 'e) \<Rightarrow> ('w \<Rightarrow> (string + unit) \<times> 'w) \<Rightarrow> ('w, 'e, unit) prog" where
  "io_call f op = (\<lambda>w. case op w of (Inl e, w') \<Rightarrow> (Inl (f e), w') | (Inr _, w') \<Rightarrow> (Inr (), w'))"

lemma io_bind_apply [simp]:
  "io_bind (io_ret x) f w = f x w" "io_bind (io_fail e) f w = (Inl e, w)"
  by (simp_all add: io_bind_def io_ret_def io_fail_def)

lemma io_bind_Inr [res_simps]:
  "io_bind m f w = (Inr y, w'') \<longleftrightarrow> (\<exists>x w'. m w = (Inr x, w') \<and> f x w' = (Inr y, w''))"
  by (auto simp: io_bind_def split: prod.splits sum.splits)

definition other_io_error :: "string \<Rightarrow> upgrade_error" where
  "other_io_error e = Io e"

section \<open>Columns\<close>

datatype database_kind = ParityDB | RocksDB

definition v0_NUM_COLUMNS :: nat where "v0_NUM_COLUMNS = 3"
definition v1_NUM_COLUMNS :: nat where "v1_NUM_COLUMNS = 5"
definition v2_NUM_COLUMNS :: nat where "v2_NUM_COLUMNS = 6"
definition v4_NUM_COLUMNS :: nat where "v4_NUM_COLUMNS = 5"
definition v3_NUM_COLUMNS :: nat where "v3_NUM_COLUMNS = v4_NUM_COLUMNS"

definition COL_AVAILABILITY_DATA :: nat where "COL_AVAILABILITY_DATA = 0"
definition COL_AVAILABILITY_META :: nat where "COL_AVAILABILITY_META = 1"
definition COL_APPROVAL_DATA :: nat where "COL_APPROVAL_DATA = 2"
definition COL_CHAIN_SELECTION_DATA :: nat where "COL_CHAIN_SELECTION_DATA = 3"
definition COL_DISPUTE_COORDINATOR_DATA :: nat where "COL_DISPUTE_COORDINATOR_DATA = 4"

definition v4_ORDERED_COL :: "nat list" where
  "v4_ORDERED_COL = [COL_AVAILABILITY_META, COL_CHAIN_SELECTION_DATA, COL_DISPUTE_COORDINATOR_DATA]"

record columns_config =
  col_availability_data :: nat
  col_availability_meta :: nat
  col_approval_data :: nat
  col_chain_selection_data :: nat
  col_dispute_coordinator_data :: nat

definition REAL_COLUMNS :: columns_config where
  "REAL_COLUMNS = \<lparr>col_availability_data = COL_AVAILABILITY_DATA, col_availability_meta = COL_AVAILABILITY_META,
     col_approval_data = COL_APPROVAL_DATA, col_chain_selection_data = COL_CHAIN_SELECTION_DATA,
     col_dispute_coordinator_data = COL_DISPUTE_COORDINATOR_DATA\<rparr>"

section \<open>Third-party operations\<close>

datatype file_content = NotFound | ReadError string | Content string

record ('w, 'c) db_env =
  fx_is_empty :: "'w \<Rightarrow> bool"
  fx_read :: "'w \<Rightarrow> file_content"
  fx_create_dir_all :: "'w \<Rightarrow> (string + unit) \<times> 'w"
  fx_write :: "string \<Rightarrow> 'w \<Rightarrow> (string + unit) \<times> 'w"
  fx_path_is_str :: bool
  rx_open :: "nat \<Rightarrow> 'w \<Rightarrow> (string + unit) \<times> 'w"
  rx_add_column :: "'w \<Rightarrow> (string + unit) \<times> 'w"
  rx_remove_last_column :: "'w \<Rightarrow> (string + unit) \<times> 'w"
  px_default_column :: 'c
  px_btree_index :: "'c \<Rightarrow> 'c"
  px_load_metadata :: "'w \<Rightarrow> string + ('c list \<times> nat) option"
  px_clear_column :: "nat \<Rightarrow> 'w \<Rightarrow> (string + unit) \<times> 'w"
  px_write_metadata :: "'c list \<Rightarrow> nat \<Rightarrow> 'w \<Rightarrow> (string + unit) \<times> 'w"
  px_add_column :: "'c list \<Rightarrow> 'c \<Rightarrow> 'w \<Rightarrow> (string + unit) \<times> 'w"
  px_drop_last_column :: "'c list \<Rightarrow> 'w \<Rightarrow> (string + unit) \<times> 'w"
  px_open :: "'c list \<Rightarrow> 'w \<Rightarrow> (string + unit) \<times> 'w"
  px_open_or_create :: "'c list \<Rightarrow> 'w \<Rightarrow> (string + unit) \<times> 'w"
  ax_v1_to_latest :: "database_kind \<Rightarrow> nat \<Rightarrow> 'w \<Rightarrow> (string + unit) \<times> 'w"
  ax_v2_to_latest :: "database_kind \<Rightarrow> nat \<Rightarrow> 'w \<Rightarrow> (string + unit) \<times> 'w"

section \<open>The version file\<close>

definition CURRENT_VERSION :: nat where "CURRENT_VERSION = 5"

text \<open>\<open>u32::to_string\<close> and \<open>u32::from_str\<close>: decimal digits, an optional sign, and a value that fits.\<close>

definition digit_char :: "nat \<Rightarrow> char" where
  "digit_char d = char_of (48 + d)"

definition char_digit :: "char \<Rightarrow> nat option" where
  "char_digit c = (let n = of_char c :: nat in if 48 \<le> n \<and> n \<le> 57 then Some (n - 48) else None)"

fun u32_to_string :: "nat \<Rightarrow> string" where
  "u32_to_string n = (if n < 10 then [digit_char n] else u32_to_string (n div 10) @ [digit_char (n mod 10)])"

declare u32_to_string.simps [simp del]

definition parse_step :: "nat option \<Rightarrow> char \<Rightarrow> nat option" where
  "parse_step acc c = Option.bind acc (\<lambda>n. Option.bind (char_digit c) (\<lambda>d.
     Option.bind (checked_mul 32 n 10) (\<lambda>m. checked_add 32 m d)))"

definition u32_from_str :: "string \<Rightarrow> nat option" where
  "u32_from_str s =
     (let ds = (case s of [] \<Rightarrow> [] | c # cs \<Rightarrow> if c = CHR ''+'' then cs else s)
      in if ds = [] then None else foldl parse_step (Some 0) ds)"

definition get_db_version :: "('w, 'c) db_env \<Rightarrow> ('w, nat option) io" where
  "get_db_version E = (\<lambda>w.
     case fx_read E w of
       NotFound \<Rightarrow> io_ret None w
     | ReadError e \<Rightarrow> io_fail (Io e) w
     | Content content \<Rightarrow>
         (case u32_from_str content of
            None \<Rightarrow> io_fail CorruptedVersionFile w
          | Some v \<Rightarrow> io_ret (Some v) w))"

definition update_version :: "('w, 'c) db_env \<Rightarrow> nat \<Rightarrow> ('w, unit) io" where
  "update_version E new_version =
     io_bind (io_call Io (fx_create_dir_all E)) (\<lambda>_. io_call Io (fx_write E (u32_to_string new_version)))"

section \<open>The migrations\<close>

definition path_to_str :: "('w, 'c) db_env \<Rightarrow> ('w, unit) io" where
  "path_to_str E = (if fx_path_is_str E then io_ret () else io_fail (other_io_error ''Invalid database path''))"

definition rocksdb_migrate_from_version_0_to_1 :: "('w, 'c) db_env \<Rightarrow> ('w, nat) io" where
  "rocksdb_migrate_from_version_0_to_1 E =
     io_bind (path_to_str E) (\<lambda>_.
     io_bind (io_call Io (rx_open E v0_NUM_COLUMNS)) (\<lambda>_.
     io_bind (io_call Io (rx_add_column E)) (\<lambda>_.
     io_bind (io_call Io (rx_add_column E)) (\<lambda>_. io_ret 1))))"

definition rocksdb_migrate_from_version_1_to_2 :: "('w, 'c) db_env \<Rightarrow> ('w, nat) io" where
  "rocksdb_migrate_from_version_1_to_2 E =
     io_bind (path_to_str E) (\<lambda>_.
     io_bind (io_call Io (rx_open E v1_NUM_COLUMNS)) (\<lambda>_.
     io_bind (io_call Io (rx_add_column E)) (\<lambda>_. io_ret 2)))"

definition rocksdb_migrate_from_version_2_to_3 :: "('w, 'c) db_env \<Rightarrow> ('w, nat) io" where
  "rocksdb_migrate_from_version_2_to_3 E =
     io_bind (path_to_str E) (\<lambda>_.
     io_bind (io_call Io (rx_open E v2_NUM_COLUMNS)) (\<lambda>_.
     io_bind (io_call Io (rx_remove_last_column E)) (\<lambda>_. io_ret 3)))"

text \<open>The configurations of \<open>parity_db\<close>: default columns, the ordered ones with a B-tree index.\<close>

definition paritydb_config :: "('w, 'c) db_env \<Rightarrow> nat \<Rightarrow> 'c list" where
  "paritydb_config E n =
     foldl (\<lambda>cs i. cs[i := px_btree_index E (cs ! i)]) (replicate n (px_default_column E)) v4_ORDERED_COL"

definition paritydb_version_1_config :: "('w, 'c) db_env \<Rightarrow> 'c list" where
  "paritydb_version_1_config E = paritydb_config E v1_NUM_COLUMNS"

definition paritydb_version_2_config :: "('w, 'c) db_env \<Rightarrow> 'c list" where
  "paritydb_version_2_config E = paritydb_config E v2_NUM_COLUMNS"

definition paritydb_version_3_config :: "('w, 'c) db_env \<Rightarrow> 'c list" where
  "paritydb_version_3_config E = paritydb_config E v3_NUM_COLUMNS"

definition columns_to_clear :: "'c list \<Rightarrow> 'c list \<Rightarrow> nat list \<Rightarrow> nat list" where
  "columns_to_clear metadata options allowed_columns =
     map fst (filter (\<lambda>(idx, opts). opts \<noteq> options ! idx)
       (filter (\<lambda>(idx, _). idx \<in> set allowed_columns) (enumerate 0 metadata)))"

fun clear_columns :: "('w, 'c) db_env \<Rightarrow> nat list \<Rightarrow> ('w, unit) io" where
  "clear_columns E [] = io_ret ()"
| "clear_columns E (c # cs) =
     io_bind (io_call (\<lambda>e. other_io_error (''Error clearing column '' @ e)) (px_clear_column E c)) (\<lambda>_. clear_columns E cs)"

definition paritydb_fix_columns :: "('w, 'c) db_env \<Rightarrow> 'c list \<Rightarrow> nat list \<Rightarrow> ('w, unit) io" where
  "paritydb_fix_columns E options allowed_columns = (\<lambda>w.
     case px_load_metadata E w of
       Inl e \<Rightarrow> io_fail (other_io_error (''Error reading metadata '' @ e)) w
     | Inr None \<Rightarrow> io_ret () w
     | Inr (Some (columns, salt)) \<Rightarrow>
         io_bind (clear_columns E (columns_to_clear columns options allowed_columns)) (\<lambda>_.
           io_call (\<lambda>e. other_io_error (''Error writing metadata '' @ e)) (px_write_metadata E options salt)) w)"

definition paritydb_migrate_from_version_0_to_1 :: "('w, 'c) db_env \<Rightarrow> ('w, nat) io" where
  "paritydb_migrate_from_version_0_to_1 E =
     io_bind (paritydb_fix_columns E (paritydb_version_1_config E) [COL_DISPUTE_COORDINATOR_DATA]) (\<lambda>_. io_ret 1)"

definition paritydb_migrate_from_version_1_to_2 :: "('w, 'c) db_env \<Rightarrow> ('w, nat) io" where
  "paritydb_migrate_from_version_1_to_2 E =
     io_bind (io_call (\<lambda>e. other_io_error (''Error adding column '' @ e))
                (px_add_column E (paritydb_version_1_config E) (px_default_column E))) (\<lambda>_. io_ret 2)"

definition paritydb_migrate_from_version_2_to_3 :: "('w, 'c) db_env \<Rightarrow> ('w, nat) io" where
  "paritydb_migrate_from_version_2_to_3 E =
     io_bind (io_call (\<lambda>e. other_io_error (''Error removing COL_SESSION_WINDOW_DATA '' @ e))
                (px_drop_last_column E (paritydb_version_2_config E))) (\<lambda>_. io_ret 3)"

definition migrate_from_version_0_to_1 :: "('w, 'c) db_env \<Rightarrow> database_kind \<Rightarrow> ('w, nat) io" where
  "migrate_from_version_0_to_1 E db_kind =
     (case db_kind of ParityDB \<Rightarrow> paritydb_migrate_from_version_0_to_1 E
      | RocksDB \<Rightarrow> rocksdb_migrate_from_version_0_to_1 E)"

definition migrate_from_version_1_to_2 :: "('w, 'c) db_env \<Rightarrow> database_kind \<Rightarrow> ('w, nat) io" where
  "migrate_from_version_1_to_2 E db_kind =
     (case db_kind of ParityDB \<Rightarrow> paritydb_migrate_from_version_1_to_2 E
      | RocksDB \<Rightarrow> rocksdb_migrate_from_version_1_to_2 E)"

definition migrate_from_version_2_to_3 :: "('w, 'c) db_env \<Rightarrow> database_kind \<Rightarrow> ('w, nat) io" where
  "migrate_from_version_2_to_3 E db_kind =
     (case db_kind of ParityDB \<Rightarrow> paritydb_migrate_from_version_2_to_3 E
      | RocksDB \<Rightarrow> rocksdb_migrate_from_version_2_to_3 E)"

definition migrate_from_version_3_or_4_to_5 ::
  "('w, 'c) db_env \<Rightarrow> database_kind \<Rightarrow> (database_kind \<Rightarrow> nat \<Rightarrow> 'w \<Rightarrow> (string + unit) \<times> 'w) \<Rightarrow> ('w, nat) io" where
  "migrate_from_version_3_or_4_to_5 E db_kind migration_function =
     (let migrate = io_call (\<lambda>_. MigrationFailed) (migration_function db_kind (col_approval_data REAL_COLUMNS))
      in case db_kind of
           ParityDB \<Rightarrow>
             io_bind (io_call (\<lambda>e. other_io_error (''Error opening db '' @ e)) (px_open E (paritydb_version_3_config E)))
               (\<lambda>_. io_bind migrate (\<lambda>_. io_ret CURRENT_VERSION))
         | RocksDB \<Rightarrow>
             io_bind (path_to_str E) (\<lambda>_.
             io_bind (io_call Io (rx_open E v3_NUM_COLUMNS)) (\<lambda>_.
             io_bind migrate (\<lambda>_. io_ret CURRENT_VERSION))))"

section \<open>The upgrade\<close>

definition next_version :: "('w, 'c) db_env \<Rightarrow> database_kind \<Rightarrow> nat option \<Rightarrow> ('w, nat) io" where
  "next_version E db_kind version =
     (case version of
        Some v \<Rightarrow>
          if v = 0 then migrate_from_version_0_to_1 E db_kind
          else if v = 1 then migrate_from_version_1_to_2 E db_kind
          else if v = 2 then migrate_from_version_2_to_3 E db_kind
          else if v = 3 then migrate_from_version_3_or_4_to_5 E db_kind (ax_v1_to_latest E)
          else if v = 4 then migrate_from_version_3_or_4_to_5 E db_kind (ax_v2_to_latest E)
          else if v = CURRENT_VERSION then io_ret CURRENT_VERSION
          else io_fail (FutureVersion CURRENT_VERSION v)
      | None \<Rightarrow>
          (case db_kind of RocksDB \<Rightarrow> io_ret CURRENT_VERSION
           | ParityDB \<Rightarrow> migrate_from_version_0_to_1 E db_kind))"

definition try_upgrade_db_to_next_version :: "('w, 'c) db_env \<Rightarrow> database_kind \<Rightarrow> ('w, nat) io" where
  "try_upgrade_db_to_next_version E db_kind = (\<lambda>w.
     let is_empty = fx_is_empty E w
     in io_bind (if \<not> is_empty then io_bind (get_db_version E) (next_version E db_kind) else io_ret CURRENT_VERSION)
          (\<lambda>new_version. io_bind (update_version E new_version) (\<lambda>_. io_ret new_version)) w)"

definition MAX_MIGRATIONS :: nat where "MAX_MIGRATIONS = 30"

fun upgrade_loop :: "('w, 'c) db_env \<Rightarrow> database_kind \<Rightarrow> nat \<Rightarrow> nat \<Rightarrow> ('w, unit) io" where
  "upgrade_loop E db_kind target_version 0 = io_fail MigrationLoop"
| "upgrade_loop E db_kind target_version (Suc i) =
     io_bind (try_upgrade_db_to_next_version E db_kind) (\<lambda>version.
       if version = target_version then io_ret () else upgrade_loop E db_kind target_version i)"

definition try_upgrade_db :: "('w, 'c) db_env \<Rightarrow> database_kind \<Rightarrow> nat \<Rightarrow> ('w, unit) io" where
  "try_upgrade_db E db_kind target_version = upgrade_loop E db_kind target_version MAX_MIGRATIONS"

text \<open>
  \<open>thiserror\<close>'s message of an error, and the conversion to an I/O error at the boundary of the module.
\<close>

definition upgrade_error_to_string :: "upgrade_error \<Rightarrow> string" where
  "upgrade_error_to_string e =
     (case e of
        Io _ \<Rightarrow> ''I/O error when reading/writing the version''
      | CorruptedVersionFile \<Rightarrow> ''The version file format is incorrect''
      | FutureVersion current got \<Rightarrow>
          ''Parachains DB has a future version (expected '' @ u32_to_string current @ '', found '' @ u32_to_string got @ '')''
      | MigrationFailed \<Rightarrow> ''Parachain DB migration failed''
      | MigrationLoop \<Rightarrow> ''Parachain DB migration would take forever'')"

definition io_error_from :: "upgrade_error \<Rightarrow> upgrade_error" where
  "io_error_from me = (case me of Io e \<Rightarrow> Io e | _ \<Rightarrow> other_io_error (upgrade_error_to_string me))"

definition io_map_err :: "('e \<Rightarrow> 'f) \<Rightarrow> ('w, 'e, 'a) prog \<Rightarrow> ('w, 'f, 'a) prog" where
  "io_map_err f m = (\<lambda>w. case m w of (Inl e, w') \<Rightarrow> (Inl (f e), w') | (Inr x, w') \<Rightarrow> (Inr x, w'))"

definition check_db_path :: "('w, 'c) db_env \<Rightarrow> ('w, unit) io" where
  "check_db_path E = (if fx_path_is_str E then io_ret () else io_fail (other_io_error ''Bad database path''))"

definition open_creating_rocksdb :: "('w, 'c) db_env \<Rightarrow> ('w, unit) io" where
  "open_creating_rocksdb E =
     io_bind (check_db_path E) (\<lambda>_.
     io_bind (io_call Io (fx_create_dir_all E)) (\<lambda>_.
     io_bind (io_map_err io_error_from (try_upgrade_db E RocksDB CURRENT_VERSION)) (\<lambda>_.
       io_call Io (rx_open E v4_NUM_COLUMNS))))"

definition open_creating_paritydb :: "('w, 'c) db_env \<Rightarrow> ('w, unit) io" where
  "open_creating_paritydb E =
     io_bind (check_db_path E) (\<lambda>_.
     io_bind (io_call Io (fx_create_dir_all E)) (\<lambda>_.
     io_bind (io_map_err io_error_from (try_upgrade_db E ParityDB CURRENT_VERSION)) (\<lambda>_.
       io_call Io (px_open_or_create E (paritydb_version_3_config E)))))"

section \<open>The version file\<close>

lemma char_digit_digit: "d < 10 \<Longrightarrow> char_digit (digit_char d) = Some d"
  by (simp add: char_digit_def digit_char_def Let_def)

lemma parse_step_digit:
  "d < 10 \<Longrightarrow> k * 10 + d \<le> max_w 32 \<Longrightarrow> parse_step (Some k) (digit_char d) = Some (k * 10 + d)"
  by (simp add: parse_step_def char_digit_digit checked_mul_def checked_add_def)

lemma parse_digits:
  "n \<le> max_w 32 \<Longrightarrow> foldl parse_step (Some 0) (u32_to_string n) = Some n"
proof (induction n rule: u32_to_string.induct)
  case (1 n)
  show ?case
  proof (cases "n < 10")
    case True
    then show ?thesis
      using parse_step_digit [of n 0] "1.prems" by (simp add: u32_to_string.simps [of n])
  next
    case False
    have "n div 10 \<le> max_w 32" using "1.prems" by (rule order_trans [OF div_le_dividend])
    then have "foldl parse_step (Some 0) (u32_to_string (n div 10)) = Some (n div 10)" by (rule "1.IH" [OF False])
    moreover have "n div 10 * 10 + n mod 10 = n" by simp
    ultimately show ?thesis
      using False parse_step_digit [of "n mod 10" "n div 10"] "1.prems" by (simp add: u32_to_string.simps [of n])
  qed
qed

lemma u32_to_string_not_Nil: "u32_to_string n \<noteq> []"
  by (simp add: u32_to_string.simps [of n])

lemma hd_u32_to_string: "\<exists>d < 10. hd (u32_to_string n) = digit_char d"
proof (induction n rule: u32_to_string.induct)
  case (1 n)
  then show ?case by (cases "n < 10") (auto simp: u32_to_string.simps [of n] hd_append u32_to_string_not_Nil)
qed

lemma digit_char_not_plus: "d < 10 \<Longrightarrow> digit_char d \<noteq> CHR ''+''"
  using char_digit_digit [of d] by (auto simp: char_digit_def Let_def split: if_splits)

lemma u32_roundtrip:
  assumes "n \<le> max_w 32"
  shows "u32_from_str (u32_to_string n) = Some n"
proof -
  obtain c cs where str: "u32_to_string n = c # cs" using u32_to_string_not_Nil [of n] by (cases "u32_to_string n") auto
  have "c \<noteq> CHR ''+''" using hd_u32_to_string [of n] digit_char_not_plus str by auto
  then show ?thesis using parse_digits [OF assms] str by (simp add: u32_from_str_def Let_def)
qed

section \<open>Upgrading\<close>

text \<open>
  The documented behaviour of the stores, with \<open>columns\<close> the column options on the disk: \<open>open\<close> and the
  operations on columns succeed for the columns they are given, data migrations and writes keep the columns,
  only a write changes the version file.
\<close>

definition keeps :: "('w, 'c) db_env \<Rightarrow> ('w \<Rightarrow> 'c list) \<Rightarrow> 'w \<Rightarrow> 'w \<Rightarrow> bool" where
  "keeps E columns w w' \<longleftrightarrow> fx_read E w' = fx_read E w \<and> columns w' = columns w \<and> fx_is_empty E w' = fx_is_empty E w"

definition sets_columns :: "('w, 'c) db_env \<Rightarrow> ('w \<Rightarrow> 'c list) \<Rightarrow> 'c list \<Rightarrow> 'w \<Rightarrow> 'w \<Rightarrow> bool" where
  "sets_columns E columns cs w w' \<longleftrightarrow> fx_read E w' = fx_read E w \<and> columns w' = cs \<and> fx_is_empty E w' = fx_is_empty E w"

definition succeeds :: "('w \<Rightarrow> (string + unit) \<times> 'w) \<Rightarrow> 'w \<Rightarrow> ('w \<Rightarrow> bool) \<Rightarrow> bool" where
  "succeeds op w Q \<longleftrightarrow> fst (op w) = Inr () \<and> Q (snd (op w))"

definition disk_ok :: "('w, 'c) db_env \<Rightarrow> ('w \<Rightarrow> 'c list) \<Rightarrow> bool" where
  "disk_ok E columns \<longleftrightarrow> fx_path_is_str E \<and>
     (\<forall>w. succeeds (fx_create_dir_all E) w (keeps E columns w)) \<and>
     (\<forall>s w. succeeds (fx_write E s) w (\<lambda>w'. fx_read E w' = Content s \<and> columns w' = columns w \<and> \<not> fx_is_empty E w')) \<and>
     (\<forall>w. succeeds (rx_open E (length (columns w))) w (keeps E columns w)) \<and>
     (\<forall>w. succeeds (rx_add_column E) w (sets_columns E columns (columns w @ [px_default_column E]) w)) \<and>
     (\<forall>w. columns w \<noteq> [] \<longrightarrow> succeeds (rx_remove_last_column E) w (sets_columns E columns (butlast (columns w)) w)) \<and>
     (\<forall>w. \<exists>salt. px_load_metadata E w = Inr (Some (columns w, salt))) \<and>
     (\<forall>i w. i < length (columns w) \<longrightarrow> succeeds (px_clear_column E i) w (keeps E columns w)) \<and>
     (\<forall>cs salt w. succeeds (px_write_metadata E cs salt) w (sets_columns E columns cs w)) \<and>
     (\<forall>c w. succeeds (px_add_column E (columns w) c) w (sets_columns E columns (columns w @ [c]) w)) \<and>
     (\<forall>w. columns w \<noteq> [] \<longrightarrow> succeeds (px_drop_last_column E (columns w)) w (sets_columns E columns (butlast (columns w)) w)) \<and>
     (\<forall>w. succeeds (px_open E (columns w)) w (keeps E columns w)) \<and>
     (\<forall>k n w. succeeds (ax_v1_to_latest E k n) w (keeps E columns w)) \<and>
     (\<forall>k n w. succeeds (ax_v2_to_latest E k n) w (keeps E columns w))"

lemma succeedsE:
  assumes "succeeds op w Q"
  obtains w' where "op w = (Inr (), w')" "Q w'"
  using assms by (cases "op w") (auto simp: succeeds_def)

lemma io_call_succeeds:
  assumes "succeeds op w Q"
  shows "\<exists>w'. io_call f op w = (Inr (), w') \<and> Q w'"
  using assms by (elim succeedsE) (auto simp: io_call_def)

text \<open>What the columns are at each version.\<close>

definition version_columns :: "('w, 'c) db_env \<Rightarrow> database_kind \<Rightarrow> nat \<Rightarrow> 'c list \<Rightarrow> bool" where
  "version_columns E kind v cs =
     (case kind of
        RocksDB \<Rightarrow> length cs = (if v = 0 then v0_NUM_COLUMNS else if v = 1 then v1_NUM_COLUMNS
                                 else if v = 2 then v2_NUM_COLUMNS else v4_NUM_COLUMNS)
      | ParityDB \<Rightarrow> (if v = 0 then True else if v = 1 then cs = paritydb_version_1_config E
                     else if v = 2 then cs = paritydb_version_2_config E else cs = paritydb_version_3_config E))"

lemma parity_configs:
  "paritydb_version_2_config E = paritydb_version_1_config E @ [px_default_column E]"
  "paritydb_version_3_config E = butlast (paritydb_version_2_config E)"
  "paritydb_version_2_config E \<noteq> []"
  by (simp_all add: paritydb_version_1_config_def paritydb_version_2_config_def paritydb_version_3_config_def
      paritydb_config_def v1_NUM_COLUMNS_def v2_NUM_COLUMNS_def v3_NUM_COLUMNS_def v4_NUM_COLUMNS_def
      v4_ORDERED_COL_def COL_AVAILABILITY_META_def COL_CHAIN_SELECTION_DATA_def COL_DISPUTE_COORDINATOR_DATA_def
      eval_nat_numeral)

lemma disk_okD:
  assumes "disk_ok E columns"
  shows "fx_path_is_str E" "succeeds (fx_create_dir_all E) w (keeps E columns w)"
    "succeeds (fx_write E s) w (\<lambda>w'. fx_read E w' = Content s \<and> columns w' = columns w \<and> \<not> fx_is_empty E w')"
    "length (columns w) = n \<Longrightarrow> succeeds (rx_open E n) w (keeps E columns w)"
    "succeeds (rx_add_column E) w (sets_columns E columns (columns w @ [px_default_column E]) w)"
    "columns w \<noteq> [] \<Longrightarrow> succeeds (rx_remove_last_column E) w (sets_columns E columns (butlast (columns w)) w)"
    "\<exists>salt. px_load_metadata E w = Inr (Some (columns w, salt))"
    "i < length (columns w) \<Longrightarrow> succeeds (px_clear_column E i) w (keeps E columns w)"
    "succeeds (px_write_metadata E cs salt) w (sets_columns E columns cs w)"
    "succeeds (px_add_column E (columns w) c) w (sets_columns E columns (columns w @ [c]) w)"
    "columns w \<noteq> [] \<Longrightarrow> succeeds (px_drop_last_column E (columns w)) w (sets_columns E columns (butlast (columns w)) w)"
    "succeeds (px_open E (columns w)) w (keeps E columns w)"
    "succeeds (ax_v1_to_latest E k n) w (keeps E columns w)"
    "succeeds (ax_v2_to_latest E k n) w (keeps E columns w)"
  using assms unfolding disk_ok_def by simp_all (auto dest: spec [of _ w])

text \<open>A step of a migration runs and leads to a world with \<open>Q\<close>.\<close>

definition runs :: "('w, 'a) io \<Rightarrow> 'w \<Rightarrow> 'a \<Rightarrow> ('w \<Rightarrow> bool) \<Rightarrow> bool" where
  "runs m w x Q \<longleftrightarrow> (\<exists>w'. m w = (Inr x, w') \<and> Q w')"

lemma runs_call: "succeeds op w Q \<Longrightarrow> runs (io_call f op) w () Q"
  using io_call_succeeds by (fastforce simp: runs_def)

lemma runs_ret: "Q w \<Longrightarrow> runs (io_ret x) w x Q"
  by (simp add: runs_def io_ret_def)

lemma runs_bind: "runs m w x Q \<Longrightarrow> (\<And>w'. Q w' \<Longrightarrow> runs (f x) w' y R) \<Longrightarrow> runs (io_bind m f) w y R"
  by (fastforce simp: runs_def io_bind_def)

lemma runs_path: "fx_path_is_str E \<Longrightarrow> Q w \<Longrightarrow> runs (path_to_str E) w () Q"
  by (simp add: path_to_str_def runs_ret)

lemma runs_mono: "runs m w x Q \<Longrightarrow> (\<And>w'. Q w' \<Longrightarrow> R w') \<Longrightarrow> runs m w x R"
  by (auto simp: runs_def)

lemma clear_columns_ok:
  assumes "disk_ok E columns"
  shows "\<forall>i \<in> set cs. i < length (columns w) \<Longrightarrow> runs (clear_columns E cs) w () (keeps E columns w)"
proof (induction cs arbitrary: w)
  case Nil
  then show ?case by (simp add: runs_ret keeps_def)
next
  case (Cons c cs)
  have "runs (clear_columns E cs) v () (keeps E columns w)" if "keeps E columns w v" for v
    using Cons that by (intro runs_mono [OF Cons.IH]) (auto simp: keeps_def)
  then show ?case using Cons.prems
    by (simp only: clear_columns.simps)
      (intro runs_bind [OF runs_call [OF disk_okD(8) [OF assms]]]; simp)
qed

lemma columns_to_clear_less: "i \<in> set (columns_to_clear cs options allowed) \<Longrightarrow> i < length cs"
  by (auto simp: columns_to_clear_def in_set_enumerate_eq)

lemma fix_columns_ok:
  assumes "disk_ok E columns"
  shows "runs (paritydb_fix_columns E options allowed) w () (sets_columns E columns options w)"
proof -
  obtain salt where meta: "px_load_metadata E w = Inr (Some (columns w, salt))" using disk_okD(7) [OF assms] by blast
  have "runs (io_bind (clear_columns E (columns_to_clear (columns w) options allowed)) (\<lambda>_.
      io_call (\<lambda>e. other_io_error (''Error writing metadata '' @ e)) (px_write_metadata E options salt))) w ()
      (sets_columns E columns options w)"
  proof (rule runs_bind)
    show "runs (clear_columns E (columns_to_clear (columns w) options allowed)) w () (keeps E columns w)"
      using columns_to_clear_less by (intro clear_columns_ok [OF assms]) blast
    fix v assume "keeps E columns w v"
    then show "runs (io_call (\<lambda>e. other_io_error (''Error writing metadata '' @ e)) (px_write_metadata E options salt)) v ()
        (sets_columns E columns options w)"
      by (intro runs_mono [OF runs_call [OF disk_okD(9) [OF assms]]]) (auto simp: keeps_def sets_columns_def)
  qed
  then show ?thesis by (simp add: paritydb_fix_columns_def runs_def meta)
qed

definition version_after :: "nat \<Rightarrow> nat" where
  "version_after v = (if v < 3 then v + 1 else 5)"

definition migrated :: "('w, 'c) db_env \<Rightarrow> ('w \<Rightarrow> 'c list) \<Rightarrow> database_kind \<Rightarrow> nat \<Rightarrow> 'w \<Rightarrow> 'w \<Rightarrow> bool" where
  "migrated E columns kind v w w' \<longleftrightarrow> version_columns E kind v (columns w')
     \<and> fx_read E w' = fx_read E w \<and> fx_is_empty E w' = fx_is_empty E w"

lemma keeps_trans: "keeps E columns w v \<Longrightarrow> keeps E columns v w' \<Longrightarrow> keeps E columns w w'"
  by (simp add: keeps_def)

lemma keeps_refl [simp]: "keeps E columns w w"
  by (simp add: keeps_def)

lemmas column_counts = v0_NUM_COLUMNS_def v1_NUM_COLUMNS_def v2_NUM_COLUMNS_def v3_NUM_COLUMNS_def v4_NUM_COLUMNS_def

lemma rocksdb_0_to_1:
  assumes "disk_ok E columns" and "length (columns w) = v0_NUM_COLUMNS"
  shows "runs (rocksdb_migrate_from_version_0_to_1 E) w 1 (migrated E columns RocksDB 1 w)"
  unfolding rocksdb_migrate_from_version_0_to_1_def
  by (rule runs_bind [OF runs_path [where Q = "\<lambda>v. v = w"] runs_bind [OF runs_call [OF disk_okD(4) [OF assms(1)]]
        runs_bind [OF runs_call [OF disk_okD(5) [OF assms(1)]] runs_bind [OF runs_call [OF disk_okD(5) [OF assms(1)]] runs_ret]]]])
    (use assms in \<open>simp_all add: disk_okD keeps_def sets_columns_def migrated_def version_columns_def column_counts\<close>)

lemma rocksdb_1_to_2:
  assumes "disk_ok E columns" and "length (columns w) = v1_NUM_COLUMNS"
  shows "runs (rocksdb_migrate_from_version_1_to_2 E) w 2 (migrated E columns RocksDB 2 w)"
  unfolding rocksdb_migrate_from_version_1_to_2_def
  by (rule runs_bind [OF runs_path [where Q = "\<lambda>v. v = w"] runs_bind [OF runs_call [OF disk_okD(4) [OF assms(1)]]
        runs_bind [OF runs_call [OF disk_okD(5) [OF assms(1)]] runs_ret]]])
    (use assms in \<open>simp_all add: disk_okD keeps_def sets_columns_def migrated_def version_columns_def column_counts\<close>)

lemma rocksdb_2_to_3:
  assumes "disk_ok E columns" and "length (columns w) = v2_NUM_COLUMNS"
  shows "runs (rocksdb_migrate_from_version_2_to_3 E) w 3 (migrated E columns RocksDB 3 w)"
proof -
  have ne: "columns w' \<noteq> []" if "keeps E columns w w'" for w'
    using that assms(2) by (auto simp: keeps_def column_counts)
  show ?thesis
    unfolding rocksdb_migrate_from_version_2_to_3_def
    by (rule runs_bind [OF runs_path [where Q = "\<lambda>v. v = w"] runs_bind [OF runs_call [OF disk_okD(4) [OF assms(1)]]
          runs_bind [OF runs_call [OF disk_okD(6) [OF assms(1) ne]] runs_ret]]])
      (use assms in \<open>simp_all add: disk_okD keeps_def sets_columns_def migrated_def version_columns_def column_counts\<close>)
qed

lemma paritydb_0_to_1:
  assumes "disk_ok E columns"
  shows "runs (paritydb_migrate_from_version_0_to_1 E) w 1 (migrated E columns ParityDB 1 w)"
  unfolding paritydb_migrate_from_version_0_to_1_def
  by (rule runs_bind [OF fix_columns_ok [OF assms] runs_ret])
    (simp add: sets_columns_def migrated_def version_columns_def)

lemma paritydb_1_to_2:
  assumes "disk_ok E columns" and "columns w = paritydb_version_1_config E"
  shows "runs (paritydb_migrate_from_version_1_to_2 E) w 2 (migrated E columns ParityDB 2 w)"
  unfolding paritydb_migrate_from_version_1_to_2_def assms(2) [symmetric]
  by (rule runs_bind [OF runs_call [OF disk_okD(10) [OF assms(1)]] runs_ret])
    (simp add: sets_columns_def migrated_def version_columns_def assms(2) parity_configs)

lemma paritydb_2_to_3:
  assumes "disk_ok E columns" and "columns w = paritydb_version_2_config E"
  shows "runs (paritydb_migrate_from_version_2_to_3 E) w 3 (migrated E columns ParityDB 3 w)"
proof -
  have ne: "columns w \<noteq> []" unfolding assms(2) by (rule parity_configs)
  show ?thesis
    unfolding paritydb_migrate_from_version_2_to_3_def assms(2) [symmetric]
    by (rule runs_bind [OF runs_call [OF disk_okD(11) [OF assms(1) ne]] runs_ret])
      (simp add: sets_columns_def migrated_def version_columns_def assms(2) parity_configs)
qed

lemma migrate_to_5:
  assumes "disk_ok E columns" and "version_columns E kind 3 (columns w)"
    and f: "\<And>w. succeeds (f kind (col_approval_data REAL_COLUMNS)) w (keeps E columns w)"
  shows "runs (migrate_from_version_3_or_4_to_5 E kind f) w 5 (migrated E columns kind 5 w)"
proof -
  have fin: "migrated E columns kind 5 w w'" if "keeps E columns w v" "keeps E columns v w'" for v w'
    using keeps_trans [OF that] assms(2)
    by (simp add: keeps_def migrated_def version_columns_def split: database_kind.splits)
  show ?thesis
  proof (cases kind)
    case ParityDB
    then have cfg: "columns w = paritydb_version_3_config E" using assms(2) by (simp add: version_columns_def)
    have "runs (io_bind (io_call (\<lambda>e. other_io_error (''Error opening db '' @ e)) (px_open E (columns w)))
      (\<lambda>_. io_bind (io_call (\<lambda>_. MigrationFailed) (f kind (col_approval_data REAL_COLUMNS))) (\<lambda>_. io_ret CURRENT_VERSION)))
      w CURRENT_VERSION (migrated E columns kind 5 w)"
      by (rule runs_bind [OF runs_call [OF disk_okD(12) [OF assms(1)]] runs_bind [OF runs_call [OF f] runs_ret]]) (rule fin)
    then show ?thesis
      using ParityDB cfg by (simp add: migrate_from_version_3_or_4_to_5_def Let_def CURRENT_VERSION_def)
  next
    case RocksDB
    then have len: "length (columns w) = v3_NUM_COLUMNS"
      using assms(2) by (simp add: version_columns_def v3_NUM_COLUMNS_def)
    have "runs (io_bind (path_to_str E) (\<lambda>_. io_bind (io_call Io (rx_open E v3_NUM_COLUMNS))
      (\<lambda>_. io_bind (io_call (\<lambda>_. MigrationFailed) (f kind (col_approval_data REAL_COLUMNS))) (\<lambda>_. io_ret CURRENT_VERSION))))
      w CURRENT_VERSION (migrated E columns kind 5 w)"
      by (rule runs_bind [OF runs_path [where Q = "\<lambda>v. v = w"] runs_bind [OF runs_call [OF disk_okD(4) [OF assms(1)]]
            runs_bind [OF runs_call [OF f] runs_ret]]])
        (use len fin disk_okD(1) [OF assms(1)] in auto)
    then show ?thesis
      using RocksDB by (simp add: migrate_from_version_3_or_4_to_5_def Let_def CURRENT_VERSION_def)
  qed
qed

lemma next_version_ok:
  assumes "disk_ok E columns" and "version_columns E kind v (columns w)" and "v \<le> 5"
  shows "runs (next_version E kind (Some v)) w (version_after v) (migrated E columns kind (version_after v) w)"
proof -
  consider "v = 0" | "v = 1" | "v = 2" | "v = 3" | "v = 4" | "v = 5" using assms(3) by linarith
  then show ?thesis
  proof cases
    case 1
    then show ?thesis using assms(2) rocksdb_0_to_1 [OF assms(1)] paritydb_0_to_1 [OF assms(1)]
      by (cases kind) (simp_all add: next_version_def version_after_def migrate_from_version_0_to_1_def version_columns_def)
  next
    case 2
    then show ?thesis using assms(2) rocksdb_1_to_2 [OF assms(1)] paritydb_1_to_2 [OF assms(1)]
      by (cases kind) (simp_all add: next_version_def version_after_def migrate_from_version_1_to_2_def version_columns_def
          numeral_2_eq_2)
  next
    case 3
    then show ?thesis using assms(2) rocksdb_2_to_3 [OF assms(1)] paritydb_2_to_3 [OF assms(1)]
      by (cases kind) (simp_all add: next_version_def version_after_def migrate_from_version_2_to_3_def version_columns_def
          numeral_3_eq_3)
  next
    case 4
    then show ?thesis
      using assms(2) migrate_to_5 [OF assms(1) _ disk_okD(13) [OF assms(1)]]
      by (simp add: next_version_def version_after_def)
  next
    case 5
    then have "version_columns E kind 3 (columns w)"
      using assms(2) by (simp add: version_columns_def split: database_kind.splits)
    then show ?thesis
      using 5 migrate_to_5 [OF assms(1) _ disk_okD(14) [OF assms(1)]]
      by (simp add: next_version_def version_after_def)
  next
    case 6
    then show ?thesis using assms(2)
      by (simp add: next_version_def version_after_def CURRENT_VERSION_def runs_ret migrated_def)
  qed
qed

lemma update_version_ok:
  assumes "disk_ok E columns"
  shows "runs (update_version E v) w () (\<lambda>w'. fx_read E w' = Content (u32_to_string v) \<and> columns w' = columns w \<and> \<not> fx_is_empty E w')"
  unfolding update_version_def
  by (rule runs_bind [OF runs_call [OF disk_okD(2) [OF assms]] runs_mono [OF runs_call [OF disk_okD(3) [OF assms]]]])
    (simp add: keeps_def)

definition at_version :: "('w, 'c) db_env \<Rightarrow> ('w \<Rightarrow> 'c list) \<Rightarrow> database_kind \<Rightarrow> nat \<Rightarrow> 'w \<Rightarrow> bool" where
  "at_version E columns kind v w \<longleftrightarrow> fx_read E w = Content (u32_to_string v) \<and> \<not> fx_is_empty E w
     \<and> version_columns E kind v (columns w)"

lemma get_db_version_at:
  "fx_read E w = Content (u32_to_string v) \<Longrightarrow> v \<le> max_w 32 \<Longrightarrow> get_db_version E w = (Inr (Some v), w)"
  by (simp add: get_db_version_def u32_roundtrip io_ret_def)

lemma to_next_version_ok:
  assumes "disk_ok E columns" and "at_version E columns kind v w" and "v \<le> 5"
  shows "runs (try_upgrade_db_to_next_version E kind) w (version_after v) (at_version E columns kind (version_after v))"
proof -
  have get: "get_db_version E w = (Inr (Some v), w)"
    using assms(2,3) by (intro get_db_version_at) (simp_all add: at_version_def max_w_def)
  have "runs (io_bind (get_db_version E) (next_version E kind)) w (version_after v) (migrated E columns kind (version_after v) w)"
    using next_version_ok [OF assms(1) _ assms(3), of kind w] assms(2)
    by (simp add: runs_def io_bind_def get at_version_def)
  moreover have "runs (io_bind (update_version E (version_after v)) (\<lambda>_. io_ret (version_after v))) u (version_after v)
      (at_version E columns kind (version_after v))" if "migrated E columns kind (version_after v) w u" for u
    using that
    by (intro runs_bind [OF update_version_ok [OF assms(1)] runs_ret]) (simp add: migrated_def at_version_def)
  ultimately have "runs (io_bind (io_bind (get_db_version E) (next_version E kind))
      (\<lambda>n. io_bind (update_version E n) (\<lambda>_. io_ret n))) w (version_after v) (at_version E columns kind (version_after v))"
    by (rule runs_bind)
  then show ?thesis
    using assms(2) by (simp add: try_upgrade_db_to_next_version_def runs_def at_version_def)
qed

lemma upgrade_loop_ok:
  assumes "disk_ok E columns"
  shows "at_version E columns kind v w \<Longrightarrow> v \<le> 5 \<Longrightarrow> 6 - v \<le> i \<Longrightarrow>
    runs (upgrade_loop E kind 5 i) w () (at_version E columns kind 5)"
proof (induction i arbitrary: v w)
  case 0
  then show ?case by simp
next
  case (Suc i)
  show ?case
    unfolding upgrade_loop.simps
  proof (rule runs_bind [OF to_next_version_ok [OF assms Suc.prems(1,2)]])
    fix u assume u: "at_version E columns kind (version_after v) u"
    show "runs (if version_after v = 5 then io_ret () else upgrade_loop E kind 5 i) u () (at_version E columns kind 5)"
      using u Suc.prems(3) Suc.IH [OF u] by (auto simp: version_after_def runs_ret)
  qed
qed

text \<open>C38. From every version the node knows, the loop of upgrades ends at the current version: the file says so,
  and the columns are those the current version is opened with, on either database.\<close>

theorem upgrade_reaches_current:
  assumes "disk_ok E columns" and "fx_read E w = Content (u32_to_string v)" and "\<not> fx_is_empty E w"
    and "v \<le> CURRENT_VERSION" and "version_columns E kind v (columns w)"
  shows "\<exists>w'. try_upgrade_db E kind CURRENT_VERSION w = (Inr (), w')
    \<and> fx_read E w' = Content (u32_to_string CURRENT_VERSION)
    \<and> (case kind of RocksDB \<Rightarrow> length (columns w') = v4_NUM_COLUMNS | ParityDB \<Rightarrow> columns w' = paritydb_version_3_config E)"
proof -
  have "runs (upgrade_loop E kind 5 30) w () (at_version E columns kind 5)"
    using assms by (intro upgrade_loop_ok) (simp_all add: at_version_def CURRENT_VERSION_def)
  then show ?thesis
    by (auto simp: runs_def try_upgrade_db_def MAX_MIGRATIONS_def CURRENT_VERSION_def at_version_def version_columns_def
        split: database_kind.splits)
qed

text \<open>A disk in memory: the version file, the columns, and whether the directory is empty.\<close>

type_synonym demo_disk = "file_content \<times> nat list \<times> bool"

definition demo_db_env :: "(demo_disk, nat) db_env" where
  "demo_db_env = \<lparr>fx_is_empty = (\<lambda>(f, cs, e). e), fx_read = fst, fx_create_dir_all = (\<lambda>w. (Inr (), w)),
     fx_write = (\<lambda>s (f, cs, e). (Inr (), (Content s, cs, False))), fx_path_is_str = True,
     rx_open = (\<lambda>n w. (if length (fst (snd w)) = n then Inr () else Inl ''columns'', w)),
     rx_add_column = (\<lambda>(f, cs, e). (Inr (), (f, cs @ [0], e))),
     rx_remove_last_column = (\<lambda>(f, cs, e). (Inr (), (f, butlast cs, e))),
     px_default_column = 0, px_btree_index = (\<lambda>_. 1), px_load_metadata = (\<lambda>w. Inr (Some (fst (snd w), 0))),
     px_clear_column = (\<lambda>_ w. (Inr (), w)), px_write_metadata = (\<lambda>cs _ (f, _, e). (Inr (), (f, cs, e))),
     px_add_column = (\<lambda>_ c (f, cs, e). (Inr (), (f, cs @ [c], e))),
     px_drop_last_column = (\<lambda>_ (f, cs, e). (Inr (), (f, butlast cs, e))),
     px_open = (\<lambda>cs w. (if cs = fst (snd w) then Inr () else Inl ''columns'', w)),
     px_open_or_create = (\<lambda>_ w. (Inr (), w)),
     ax_v1_to_latest = (\<lambda>_ _ w. (Inr (), w)), ax_v2_to_latest = (\<lambda>_ _ w. (Inr (), w))\<rparr>"

lemma demo_disk_ok: "disk_ok demo_db_env (\<lambda>w. fst (snd w))"
  by (auto simp: disk_ok_def demo_db_env_def succeeds_def keeps_def sets_columns_def)

theorem upgrade_reaches_current_witness:
  "\<exists>w'. try_upgrade_db demo_db_env RocksDB CURRENT_VERSION (Content ''1'', [0, 0, 0, 0, 0], False) = (Inr (), w') \<and>
    fst w' = Content ''5'' \<and> length (fst (snd w')) = 5"
proof -
  have str: "u32_to_string 1 = ''1''" "u32_to_string CURRENT_VERSION = ''5''"
    by (simp_all add: u32_to_string.simps CURRENT_VERSION_def digit_char_def char_of_def bit_0)
  let ?w = "(Content ''1'', [0, 0, 0, 0, 0], False) :: demo_disk"
  have obs: "fx_read demo_db_env = fst" "\<not> fx_is_empty demo_db_env ?w" "(1::nat) \<le> CURRENT_VERSION"
    "version_columns demo_db_env RocksDB 1 (fst (snd ?w))"
    by (simp_all add: demo_db_env_def CURRENT_VERSION_def version_columns_def column_counts)
  have "fx_read demo_db_env ?w = Content (u32_to_string 1)" by (simp only: obs(1) str fst_conv)
  from upgrade_reaches_current [OF demo_disk_ok this obs(2-4)] show ?thesis
    by (auto simp: obs(1) str(2) column_counts)
qed

text \<open>A version of the future and a version file that is no number are refused, and nothing on the disk changes.\<close>

theorem unknown_version_refused:
  "\<not> fx_is_empty E w \<Longrightarrow> fx_read E w = Content s \<Longrightarrow>
    (u32_from_str s = None \<longrightarrow> try_upgrade_db E kind target w = (Inl CorruptedVersionFile, w)) \<and>
    (\<forall>v. u32_from_str s = Some v \<longrightarrow> CURRENT_VERSION < v \<longrightarrow>
       try_upgrade_db E kind target w = (Inl (FutureVersion CURRENT_VERSION v), w))"
proof -
  assume ne: "\<not> fx_is_empty E w" and s: "fx_read E w = Content s"
  have loop: "try_upgrade_db E kind target w = (Inl e, w)"
    if "io_bind (get_db_version E) (next_version E kind) w = (Inl e, w)" for e
    using that ne
    by (simp add: try_upgrade_db_def MAX_MIGRATIONS_def eval_nat_numeral try_upgrade_db_to_next_version_def io_bind_def)
  show ?thesis
    using s by (auto intro!: loop simp: get_db_version_def io_bind_def io_fail_def io_ret_def next_version_def
        CURRENT_VERSION_def)
qed

theorem unknown_version_refused_witness:
  "try_upgrade_db demo_db_env ParityDB 5 (Content ''7'', [], False) = (Inl (FutureVersion 5 7), (Content ''7'', [], False))
    \<and> try_upgrade_db demo_db_env ParityDB 5 (Content ''v5'', [], False) = (Inl CorruptedVersionFile, (Content ''v5'', [], False))"
proof -
  have "u32_from_str ''7'' = Some 7" "u32_from_str ''v5'' = None"
    by (simp_all add: u32_from_str_def parse_step_def char_digit_def checked_mul_def checked_add_def max_w_def Let_def)
  then show ?thesis
    using unknown_version_refused [of demo_db_env "(Content ''7'', [], False)" "''7''" ParityDB 5]
      unknown_version_refused [of demo_db_env "(Content ''v5'', [], False)" "''v5''" ParityDB 5]
    by (simp add: demo_db_env_def CURRENT_VERSION_def)
qed

end
