(* ===== verification/NodeService.thy ===== *)
theory NodeService
  imports ParachainsDb
begin

text \<open>
  The node: opening the parachains database where the configuration says, reverting the chain
  (\<open>node/service/src/lib.rs\<close>), which services a full node starts for its role, the settings the command
  line passes on, purging a chain, and the performance check of the host (\<open>cli/src\<close>).

  The disk, the client and the consensus crates are fields of \<open>node_env\<close> over the world of \<open>ParachainsDb\<close>;
  the databases are a family indexed by their directory. Nothing is rolled back on an error.
\<close>

section \<open>Opening the database\<close>

text \<open>A path by its components; the parent of the root, and of the empty path, does not exist.\<close>

type_synonym path = "string list"

definition path_parent :: "path \<Rightarrow> path option" where
  "path_parent p = (if p = [] then None else Some (butlast p))"

datatype database_source = SourceRocksDb path | SourceParityDb path | SourceAuto path path | SourceCustom

text \<open>\<open>NodePanic\<close> is a panic; the other errors are returned.\<close>

datatype node_error =
  NodePanic string
| NodeIo upgrade_error
| DatabasePathRequired
| AuthoritiesRequireRealOverseer
| BlockchainError string
| BlockchainBackend string
| ConsensusError string

record ('w, 'c, 'h) node_env =
  nx_db :: "path \<Rightarrow> ('w, 'c) db_env"
  nx_is_dir :: "path \<Rightarrow> 'w \<Rightarrow> bool"
  nx_exists :: "path \<Rightarrow> 'w \<Rightarrow> bool"
  nx_best_number :: "'w \<Rightarrow> nat"
  nx_finalized_number :: "'w \<Rightarrow> nat"
  nx_block_hash :: "nat \<Rightarrow> 'w \<Rightarrow> string + 'h option"
  nx_approval_revert_to :: "nat \<Rightarrow> 'h \<Rightarrow> 'w \<Rightarrow> (string + unit) \<times> 'w"
  nx_chain_selection_revert_to :: "nat \<Rightarrow> 'h \<Rightarrow> 'w \<Rightarrow> (string + unit) \<times> 'w"
  nx_babe_revert :: "nat \<Rightarrow> 'w \<Rightarrow> (string + unit) \<times> 'w"
  nx_grandpa_revert :: "nat \<Rightarrow> 'w \<Rightarrow> (string + unit) \<times> 'w"

definition open_rocksdb_at :: "('w, 'c, 'h) node_env \<Rightarrow> path \<Rightarrow> ('w, node_error, unit) prog" where
  "open_rocksdb_at N root = io_map_err NodeIo (open_creating_rocksdb (nx_db N (root @ [''parachains'', ''db''])))"

definition open_paritydb_above :: "('w, 'c, 'h) node_env \<Rightarrow> path \<Rightarrow> ('w, node_error, unit) prog" where
  "open_paritydb_above N path =
     (case path_parent path of
        None \<Rightarrow> io_fail DatabasePathRequired
      | Some root \<Rightarrow> io_map_err NodeIo (open_creating_paritydb (nx_db N (root @ [''parachains'']))))"

definition open_database :: "('w, 'c, 'h) node_env \<Rightarrow> database_source \<Rightarrow> ('w, node_error, unit) prog" where
  "open_database N db_source =
     (case db_source of
        SourceRocksDb path \<Rightarrow> open_rocksdb_at N path
      | SourceParityDb path \<Rightarrow> open_paritydb_above N path
      | SourceAuto paritydb_path rocksdb_path \<Rightarrow> (\<lambda>w.
          if nx_is_dir N paritydb_path w \<and> nx_exists N paritydb_path w
          then open_paritydb_above N paritydb_path w else open_rocksdb_at N rocksdb_path w)
      | SourceCustom \<Rightarrow> io_fail (NodePanic ''No polkadot subsystem db for custom source.''))"

section \<open>Reverting the chain\<close>

definition revert_approval_voting :: "('w, 'c, 'h) node_env \<Rightarrow> 'h \<Rightarrow> ('w, node_error, unit) prog" where
  "revert_approval_voting N hash =
     io_call BlockchainBackend (nx_approval_revert_to N (col_approval_data REAL_COLUMNS) hash)"

definition revert_chain_selection :: "('w, 'c, 'h) node_env \<Rightarrow> 'h \<Rightarrow> ('w, node_error, unit) prog" where
  "revert_chain_selection N hash =
     io_call BlockchainBackend (nx_chain_selection_revert_to N (col_chain_selection_data REAL_COLUMNS) hash)"

text \<open>Errors of opening the database become one of the block chain; a panic stays one. \<open>msg\<close> prints an error.\<close>

definition backend_error :: "(node_error \<Rightarrow> string) \<Rightarrow> node_error \<Rightarrow> node_error" where
  "backend_error msg e = (case e of NodePanic p \<Rightarrow> NodePanic p | _ \<Rightarrow> BlockchainBackend (msg e))"

definition revert_backend ::
  "('w, 'c, 'h) node_env \<Rightarrow> (node_error \<Rightarrow> string) \<Rightarrow> database_source \<Rightarrow> nat \<Rightarrow> ('w, node_error, unit) prog" where
  "revert_backend N msg database blocks = (\<lambda>w.
     let best_number = nx_best_number N w;
         finalized = nx_finalized_number N w;
         revertible = min blocks (sub_w 32 best_number finalized)
     in if revertible = 0 then io_ret () w
        else
          let number = sub_w 32 best_number revertible
          in case nx_block_hash N number w of
               Inl e \<Rightarrow> io_fail (BlockchainError e) w
             | Inr None \<Rightarrow>
                 io_fail (BlockchainBackend (''Unexpected hash lookup failure for block number: '' @ u32_to_string number)) w
             | Inr (Some hash) \<Rightarrow>
                 io_bind (io_map_err (backend_error msg) (open_database N database)) (\<lambda>_.
                 io_bind (revert_approval_voting N hash) (\<lambda>_.
                 io_bind (revert_chain_selection N hash) (\<lambda>_.
                 io_bind (io_call ConsensusError (nx_babe_revert N blocks)) (\<lambda>_.
                 io_bind (io_call ConsensusError (nx_grandpa_revert N blocks)) (\<lambda>_. io_ret ()))))) w)"

section \<open>The services of a full node\<close>

datatype node_role = RoleFull | RoleAuthority
datatype is_parachain_node = ParachainCollator | ParachainFullNode | NoParachainNode

definition is_authority :: "node_role \<Rightarrow> bool" where
  "is_authority role \<longleftrightarrow> role = RoleAuthority"

definition is_collator :: "is_parachain_node \<Rightarrow> bool" where
  "is_collator n \<longleftrightarrow> n = ParachainCollator"

definition is_full_node :: "is_parachain_node \<Rightarrow> bool" where
  "is_full_node n \<longleftrightarrow> n = ParachainFullNode"

definition is_running_alongside_parachain_node :: "is_parachain_node \<Rightarrow> bool" where
  "is_running_alongside_parachain_node n \<longleftrightarrow> is_collator n \<or> is_full_node n"

definition auth_or_collator :: "node_role \<Rightarrow> is_parachain_node \<Rightarrow> bool" where
  "auth_or_collator role n \<longleftrightarrow> is_authority role \<or> is_collator n"

datatype select_chain = SelectWithOverseer | SelectLongestChain

definition select_relay_chain :: "node_role \<Rightarrow> is_parachain_node \<Rightarrow> select_chain" where
  "select_relay_chain role n = (if auth_or_collator role n then SelectWithOverseer else SelectLongestChain)"

datatype discovery_role = PublishAndDiscover | Discover

definition authority_discovery_service :: "node_role \<Rightarrow> is_parachain_node \<Rightarrow> discovery_role option" where
  "authority_discovery_service role n =
     (if is_authority role \<or> is_running_alongside_parachain_node n
      then Some (if is_authority role then PublishAndDiscover else Discover) else None)"

record worker_limits =
  wl_execute_max :: nat
  wl_prepare_soft_max :: nat
  wl_prepare_hard_max :: nat

definition worker_limits_of :: "nat option \<Rightarrow> nat option \<Rightarrow> nat option \<Rightarrow> worker_limits" where
  "worker_limits_of execute_workers_max_num prepare_workers_soft_max_num prepare_workers_hard_max_num =
     \<lparr>wl_execute_max = unwrap_or 2 execute_workers_max_num,
      wl_prepare_soft_max = unwrap_or 1 prepare_workers_soft_max_num,
      wl_prepare_hard_max = unwrap_or 2 prepare_workers_hard_max_num\<rparr>"

text \<open>The overseer of \<open>new_full\<close>: \<open>generate\<close> runs it for a node with authority discovery, and an assertion guards the rest.\<close>

definition overseer_handle ::
  "('w, node_error, 'o) prog \<Rightarrow> node_role \<Rightarrow> is_parachain_node \<Rightarrow> ('w, node_error, 'o option) prog" where
  "overseer_handle generate role n =
     (case authority_discovery_service role n of
        Some _ \<Rightarrow> io_bind generate (\<lambda>handle. io_ret (Some handle))
      | None \<Rightarrow>
          if auth_or_collator role n
          then io_fail (NodePanic ''Precondition congruence (false) is guaranteed by manual checking. qed'')
          else io_ret None)"

definition babe_overseer :: "node_role \<Rightarrow> 'o option \<Rightarrow> ('w, node_error, 'o option) prog" where
  "babe_overseer role handle =
     (if is_authority role
      then (case handle of None \<Rightarrow> io_fail AuthoritiesRequireRealOverseer | Some h \<Rightarrow> io_ret (Some h))
      else io_ret None)"

section \<open>The command line\<close>

datatype cli_error = PyroscopeNotCompiledIn | AddressResolutionFailure string | AddressResolutionMissing
  | SubstrateCli string | OtherCli string

record run_settings =
  rs_enable_beefy :: bool
  rs_node_version :: "string option"
  rs_secure_validator_mode :: bool

definition run_settings_of :: "string \<Rightarrow> bool \<Rightarrow> bool \<Rightarrow> bool \<Rightarrow> bool \<Rightarrow> run_settings" where
  "run_settings_of NODE_VERSION no_beefy disable_worker_version_check validator insecure_validator =
     \<lparr>rs_enable_beefy = (\<not> no_beefy),
      rs_node_version = (if disable_worker_version_check then None else Some NODE_VERSION),
      rs_secure_validator_mode = (validator \<and> \<not> insecure_validator)\<rparr>"

definition resolve_agent :: "(string \<Rightarrow> string + 'a list) \<Rightarrow> string option \<Rightarrow> cli_error + 'a option" where
  "resolve_agent to_socket_addrs agent =
     (case agent of
        None \<Rightarrow> Inr None
      | Some a \<Rightarrow>
          (case to_socket_addrs a of
             Inl e \<Rightarrow> Inl (AddressResolutionFailure e)
           | Inr [] \<Rightarrow> Inl AddressResolutionMissing
           | Inr (addr # _) \<Rightarrow> Inr (Some addr)))"

text \<open>Purging: the database of Frontier first, then the chain's by \<open>purge\<close>, which is \<open>cmd.run\<close>.\<close>

datatype backend_type = KeyValue | Sql
datatype removal = Removed | NoSuchDirectory | RemovalFailed string

definition purge_chain ::
  "(database_source \<Rightarrow> ('w, cli_error, unit) prog) \<Rightarrow> (path \<Rightarrow> 'w \<Rightarrow> removal \<times> 'w) \<Rightarrow> (path \<Rightarrow> string \<Rightarrow> path)
   \<Rightarrow> path \<Rightarrow> backend_type \<Rightarrow> database_source \<Rightarrow> ('w, cli_error, unit) prog" where
  "purge_chain purge remove_dir_all frontier_database_dir db_config_dir frontier_backend_type database =
     io_bind
       (case frontier_backend_type of
          KeyValue \<Rightarrow>
            (case database of
               SourceRocksDb _ \<Rightarrow> purge (SourceRocksDb (frontier_database_dir db_config_dir ''db''))
             | SourceParityDb _ \<Rightarrow> purge (SourceParityDb (frontier_database_dir db_config_dir ''paritydb''))
             | _ \<Rightarrow> io_fail (OtherCli ''Cannot purge database''))
        | Sql \<Rightarrow> (\<lambda>w.
            case remove_dir_all (db_config_dir @ [''sql'']) w of
              (RemovalFailed e, w') \<Rightarrow> io_fail (OtherCli (''Cannot purge database: '' @ e)) w'
            | (_, w') \<Rightarrow> io_ret () w'))
       (\<lambda>_. purge database)"

section \<open>The performance check of the host\<close>

datatype perf_check_error = WasmBinaryMissing | CodeDecompressionFailed | MeasureFailed string | TimeOut nat nat

definition green_threshold :: "nat \<Rightarrow> nat" where
  "green_threshold duration = duration * 4 div 5"

definition time_limit_from_baseline :: "nat \<Rightarrow> nat" where
  "time_limit_from_baseline duration = duration * 3 div 2"

definition perf_check :: "nat \<Rightarrow> (perf_check_error + nat) \<Rightarrow> perf_check_error + unit" where
  "perf_check time_limit test =
     (case test of
        Inl e \<Rightarrow> Inl e
      | Inr elapsed \<Rightarrow>
          if elapsed < green_threshold time_limit then Inr ()
          else if elapsed \<le> time_limit then Inr ()
          else Inl (TimeOut elapsed time_limit))"

definition host_perf_check ::
  "nat \<Rightarrow> nat \<Rightarrow> 'b option \<Rightarrow> ('b \<Rightarrow> 'c option) \<Rightarrow> ('c \<Rightarrow> perf_check_error + nat) \<Rightarrow> ('c \<Rightarrow> perf_check_error + nat)
   \<Rightarrow> perf_check_error + unit" where
  "host_perf_check PVF_PREPARE_TIME_LIMIT ERASURE_CODING_TIME_LIMIT wasm_binary decompress measure_pvf measure_erasure =
     (let pvf_prepare_time_limit = time_limit_from_baseline PVF_PREPARE_TIME_LIMIT;
          erasure_coding_time_limit = time_limit_from_baseline ERASURE_CODING_TIME_LIMIT
      in rbind (ok_or WasmBinaryMissing wasm_binary) (\<lambda>wasm_code.
         rbind (ok_or CodeDecompressionFailed (decompress wasm_code)) (\<lambda>code.
         rbind (perf_check pvf_prepare_time_limit (measure_pvf code)) (\<lambda>_.
                perf_check erasure_coding_time_limit (measure_erasure code)))))"

section \<open>What the node guarantees\<close>

lemma perf_check_Inr: "perf_check limit (Inr elapsed) = Inr () \<longleftrightarrow> elapsed \<le> limit"
  by (auto simp: perf_check_def green_threshold_def)

lemma host_perf_check_passes:
  "host_perf_check p e (Some b) decompress (\<lambda>_. Inr t) (\<lambda>_. Inr u) = Inr () \<longleftrightarrow>
     decompress b \<noteq> None \<and> t \<le> p * 3 div 2 \<and> u \<le> e * 3 div 2"
  by (auto simp: host_perf_check_def Let_def res_simps perf_check_Inr time_limit_from_baseline_def)

text \<open>With the key-value backend only the two concrete databases are purged, and a refusal purges nothing.\<close>

lemma purge_key_value:
  "purge_chain purge rm fdir d KeyValue (SourceAuto p r) w = (Inl (OtherCli ''Cannot purge database''), w)"
  "purge_chain purge rm fdir d KeyValue SourceCustom w = (Inl (OtherCli ''Cannot purge database''), w)"
  "purge_chain purge rm fdir d KeyValue (SourceRocksDb p) w =
     io_bind (purge (SourceRocksDb (fdir d ''db''))) (\<lambda>_. purge (SourceRocksDb p)) w"
  by (simp_all add: purge_chain_def)

text \<open>The assertion of \<open>new_full\<close> never fails, and an authority always has the overseer its author needs.\<close>

lemma overseer_never_missing:
  "overseer_handle generate role n w =
    (if authority_discovery_service role n = None then (Inr None, w)
     else io_bind generate (\<lambda>h. io_ret (Some h)) w)"
  by (auto simp: overseer_handle_def authority_discovery_service_def auth_or_collator_def
      is_running_alongside_parachain_node_def io_ret_def split: option.splits)

lemma authority_has_overseer:
  "overseer_handle generate RoleAuthority n w = (Inr h, w') \<Longrightarrow> \<exists>x. babe_overseer RoleAuthority h v = (Inr (Some x), v)"
  by (auto simp: overseer_never_missing authority_discovery_service_def is_authority_def babe_overseer_def
      io_bind_def io_ret_def split: prod.splits sum.splits)

text \<open>A database of a version the node knows is brought to the current one before it is opened.\<close>

lemma rocksdb_opens:
  assumes "disk_ok E columns" and "at_version E columns RocksDB v w" and "v \<le> 5"
  shows "runs (open_creating_rocksdb E) w () (\<lambda>w'. length (columns w') = v4_NUM_COLUMNS)"
proof -
  note d = disk_okD [OF assms(1)]
  have up: "runs (try_upgrade_db E RocksDB CURRENT_VERSION) u () (at_version E columns RocksDB 5)"
    if "keeps E columns w u" for u
  proof -
    have "at_version E columns RocksDB v u" using assms(2) that by (simp add: at_version_def keeps_def)
    from upgrade_loop_ok [OF assms(1) this assms(3), of 30] show ?thesis
      by (simp add: try_upgrade_db_def MAX_MIGRATIONS_def CURRENT_VERSION_def)
  qed
  have op: "runs (io_call Io (rx_open E v4_NUM_COLUMNS)) u () (\<lambda>w'. length (columns w') = v4_NUM_COLUMNS)"
    if "at_version E columns RocksDB 5 u" for u
  proof -
    have "length (columns u) = v4_NUM_COLUMNS"
      using that by (simp add: at_version_def version_columns_def v4_NUM_COLUMNS_def)
    then show ?thesis
      using runs_call [OF d(4) [of u], where f = Io] by (auto intro: runs_mono simp: keeps_def)
  qed
  have m: "runs (io_map_err f m) u x Q" if "runs m u x Q" for f u x Q and m :: "('a, unit) io"
    using that by (auto simp: runs_def io_map_err_def)
  have "runs (check_db_path E) w () (\<lambda>u. u = w)" using d(1) by (simp add: check_db_path_def runs_ret)
  then show ?thesis
    unfolding open_creating_rocksdb_def
    by (rule runs_bind) (auto intro!: runs_bind [OF runs_call [OF d(2)] runs_bind [OF m [OF up] op]])
qed

lemma io_call_Inr [res_simps]: "io_call f op w = (Inr (), w') \<longleftrightarrow> op w = (Inr (), w')"
  by (auto simp: io_call_def split: prod.splits sum.splits)

lemma io_map_err_Inr [res_simps]: "io_map_err f m w = (Inr x, w') \<longleftrightarrow> m w = (Inr x, w')"
  by (auto simp: io_map_err_def split: prod.splits sum.splits)

lemma revertible_target:
  assumes "f \<le> b" and "b < 2 ^ 32"
  shows "sub_w 32 b f = b - f" "sub_w 32 b (min blocks (b - f)) = b - min blocks (b - f)"
  using assms by (simp_all add: sub_w_eq)

text \<open>
  Reverting by \<open>blocks\<close> blocks, when it succeeds: it undoes at most that many blocks and none that is finalized; with
  nothing to undo it changes nothing; otherwise the database is opened, and so upgraded, first, then approval voting and
  the chain selection go back to the block left as the best, and last Babe and Grandpa are reverted.
\<close>

theorem revert_backend_target:
  assumes "nx_finalized_number N w \<le> nx_best_number N w" and "nx_best_number N w < 2 ^ 32"
    and "revert_backend N msg db blocks w = (Inr (), w')"
  shows "\<exists>n. nx_finalized_number N w \<le> n \<and> nx_best_number N w = n + min blocks (nx_best_number N w - nx_finalized_number N w) \<and>
    (if n = nx_best_number N w then w' = w
     else \<exists>hash w1 w2 w3 w4. nx_block_hash N n w = Inr (Some hash) \<and> open_database N db w = (Inr (), w1) \<and>
       nx_approval_revert_to N (col_approval_data REAL_COLUMNS) hash w1 = (Inr (), w2) \<and>
       nx_chain_selection_revert_to N (col_chain_selection_data REAL_COLUMNS) hash w2 = (Inr (), w3) \<and>
       nx_babe_revert N blocks w3 = (Inr (), w4) \<and> nx_grandpa_revert N blocks w4 = (Inr (), w'))"
proof -
  define k where "k = min blocks (nx_best_number N w - nx_finalized_number N w)"
  note t = revertible_target(1) [OF assms(1,2)] revertible_target(2) [OF assms(1,2), of blocks, folded k_def]
  have k: "k \<le> nx_best_number N w - nx_finalized_number N w" by (simp add: k_def)
  show ?thesis
  proof (rule exI [of _ "nx_best_number N w - k"])
    show "nx_finalized_number N w \<le> nx_best_number N w - k \<and> nx_best_number N w = nx_best_number N w - k +
        min blocks (nx_best_number N w - nx_finalized_number N w) \<and>
      (if nx_best_number N w - k = nx_best_number N w then w' = w
       else \<exists>hash w1 w2 w3 w4. nx_block_hash N (nx_best_number N w - k) w = Inr (Some hash) \<and>
         open_database N db w = (Inr (), w1) \<and>
         nx_approval_revert_to N (col_approval_data REAL_COLUMNS) hash w1 = (Inr (), w2) \<and>
         nx_chain_selection_revert_to N (col_chain_selection_data REAL_COLUMNS) hash w2 = (Inr (), w3) \<and>
         nx_babe_revert N blocks w3 = (Inr (), w4) \<and> nx_grandpa_revert N blocks w4 = (Inr (), w'))"
    proof (cases "k = 0")
      case True
      then show ?thesis
        using assms(1,3) t(1) by (simp add: revert_backend_def Let_def k_def io_ret_def)
    next
      case False
      obtain hash where h: "nx_block_hash N (nx_best_number N w - k) w = Inr (Some hash)"
        using assms(3) False t
        by (auto simp: revert_backend_def Let_def k_def [symmetric] io_fail_def split: sum.splits option.splits)
      then show ?thesis
        using assms(1,3) False t k
        by (auto simp: revert_backend_def Let_def k_def [symmetric] res_simps revert_approval_voting_def
            revert_chain_selection_def io_ret_def)
    qed
  qed
qed

definition demo_node :: "(demo_disk, nat, nat) node_env" where
  "demo_node = \<lparr>nx_db = (\<lambda>_. demo_db_env), nx_is_dir = (\<lambda>_ _. True), nx_exists = (\<lambda>_ _. True),
     nx_best_number = (\<lambda>_. 10), nx_finalized_number = (\<lambda>_. 7), nx_block_hash = (\<lambda>n _. Inr (Some n)),
     nx_approval_revert_to = (\<lambda>_ _ w. (Inr (), w)), nx_chain_selection_revert_to = (\<lambda>_ _ w. (Inr (), w)),
     nx_babe_revert = (\<lambda>_ w. (Inr (), w)), nx_grandpa_revert = (\<lambda>_ w. (Inr (), w))\<rparr>"

theorem revert_backend_target_witness:
  "\<exists>w'. revert_backend demo_node (\<lambda>_. ''error'') (SourceRocksDb []) 5 (Content ''5'', [0, 0, 0, 0, 0], False) = (Inr (), w') \<and>
    open_database demo_node (SourceRocksDb []) (Content ''5'', [0, 0, 0, 0, 0], False) = (Inr (), w') \<and>
    length (fst (snd w')) = 5"
proof -
  let ?w = "(Content ''5'', [0, 0, 0, 0, 0], False) :: demo_disk"
  have s: "u32_to_string 5 = ''5''" by (simp add: u32_to_string.simps digit_char_def char_of_def bit_0)
  have "at_version demo_db_env (\<lambda>w. fst (snd w)) RocksDB 5 ?w"
    by (simp add: at_version_def s demo_db_env_def version_columns_def column_counts)
  from rocksdb_opens [OF demo_disk_ok this]
  obtain w' where op: "open_database demo_node (SourceRocksDb []) ?w = (Inr (), w')" "length (fst (snd w')) = 5"
    by (auto simp: runs_def open_database_def open_rocksdb_at_def demo_node_def res_simps v4_NUM_COLUMNS_def)
  have r: "revert_backend demo_node (\<lambda>_. ''error'') (SourceRocksDb []) 5 ?w = (Inr (), w')"
    using op by (simp add: revert_backend_def res_simps sub_w_def revert_approval_voting_def revert_chain_selection_def
        io_ret_def demo_node_def)
  show ?thesis
    using revert_backend_target [OF _ _ r] r op by (auto simp: demo_node_def split: if_splits)
qed

end
