(* ===== verification/Sessions.thy ===== *)
theory Sessions
  imports TryState
begin

text \<open>
  The order of the sessions. The session pallet ends session \<open>i\<close>, starts \<open>i + 1\<close> and plans \<open>i + 2\<close>, and at
  genesis plans sessions 0 and 1 before it starts 0 (\<open>SessionManager\<close> of \<open>pallet/impls.rs\<close> states the order
  it relies on). Between two rotations the calls, the other hooks and the offences run. In every state
  this order reaches, the eras the pallet remembers and the sessions they started in agree.
\<close>

section \<open>What a rotation of the session reads and writes\<close>

definition era_marks :: "'x staking \<Rightarrow> (era \<times> session) list \<times> era option \<times> era option \<times> (era \<rightharpoonup> session)" where
  "era_marks s = (BondedEras s, map_option ae_index (ActiveEra s), CurrentEra s, ErasStartSessionIndex s)"

lemma era_marks_part: "era_part s = era_part t \<Longrightarrow> era_marks s = era_marks t"
  by (simp add: era_part_def era_marks_def)

lemma era_marks_basic [simp]:
  "era_marks (st_world f s) = era_marks s" "era_marks (st_deposit e s) = era_marks s"
  "era_marks (update_active_stake E a s) = era_marks s" "era_marks (update_ledger E c l s) = era_marks s"
  "era_marks (adjust_cooperator_targets E a v s) = era_marks s" "era_marks (chill_stash E a s) = era_marks s"
  "era_marks (snd (do_remove_validator E a s)) = era_marks s" "era_marks (snd (do_remove_cooperator E a s)) = era_marks s"
  by (rule era_marks_part; simp)+

lemma era_marks_storage [simp]:
  "era_marks (s\<lparr>st_ext := x\<rparr>) = era_marks s" "era_marks (s\<lparr>st_rep := R\<rparr>) = era_marks s"
  "era_marks (s\<lparr>st_slash := sl\<rparr>) = era_marks s" "era_marks (s\<lparr>Ledger := L\<rparr>) = era_marks s"
  "era_marks (s\<lparr>Bonded := B\<rparr>) = era_marks s" "era_marks (s\<lparr>Payee := p\<rparr>) = era_marks s"
  "era_marks (s\<lparr>Validators := V\<rparr>) = era_marks s" "era_marks (s\<lparr>Cooperators := C\<rparr>) = era_marks s"
  "era_marks (s\<lparr>Collaborations := D\<rparr>) = era_marks s" "era_marks (s\<lparr>UnappliedSlashes := u\<rparr>) = era_marks s"
  "era_marks (s\<lparr>CurrentPlannedSession := j\<rparr>) = era_marks s" "era_marks (s\<lparr>ForceEra := m\<rparr>) = era_marks s"
  "era_marks (s\<lparr>ErasTotalStake := t\<rparr>) = era_marks s" "era_marks (s\<lparr>ErasEnergyPerStakeCurrency := r\<rparr>) = era_marks s"
  "era_marks (s\<lparr>Invulnerables := is\<rparr>) = era_marks s" "era_marks (s\<lparr>MinCommission := n\<rparr>) = era_marks s"
  "era_marks (s\<lparr>ValidatorCount := n\<rparr>) = era_marks s" "era_marks (s\<lparr>CoreNodesCount := n\<rparr>) = era_marks s"
  "era_marks (s\<lparr>ErasStakers := es\<rparr>) = era_marks s" "era_marks (s\<lparr>ErasStakersClipped := es\<rparr>) = era_marks s"
  "era_marks (s\<lparr>ErasValidatorPrefs := ps\<rparr>) = era_marks s"
  by (simp_all add: era_marks_def)

section \<open>The calls and the other hooks leave the eras alone\<close>

lemma kill_stash_marks: "kill_stash E st n s = Inr s' \<Longrightarrow> era_marks s' = era_marks s"
  by (auto simp: kill_stash_def res_simps Let_def)

lemma withdraw_marks: "do_withdraw_unbonded E c n s = Inr s' \<Longrightarrow> era_marks s' = era_marks s"
  by (auto simp: do_withdraw_unbonded_def res_simps Let_def dest: kill_stash_marks split: if_splits)

lemma pay_stakers_marks [simp]:
  "era_marks (snd (foldl (\<lambda>acc c. pay_staker E (f c) (g c) acc) acc xs)) = era_marks (snd acc)"
proof (induction xs arbitrary: acc)
  case (Cons x xs)
  have "era_marks (snd (pay_staker E a n acc)) = era_marks (snd acc)" for a n acc
    by (auto simp: pay_staker_def make_payout_def Let_def split: prod.splits option.splits reward_destination.splits)
  then show ?case using Cons.IH by simp
qed simp

lemma pay_staker_marks [simp]: "era_marks (snd (pay_staker E a n acc)) = era_marks (snd acc)"
  using pay_stakers_marks [of E "\<lambda>_. a" "\<lambda>_. n" acc "[()]"] by simp

lemma payout_marks: "do_payout_stakers E v e s = Inr s' \<Longrightarrow> era_marks s' = era_marks s"
  by (auto simp: do_payout_stakers_def Let_def res_simps split_beta)

lemma bond_calls_marks:
  "bond E og c v p s = Inr s' \<Longrightarrow> era_marks s' = era_marks s" "bond_extra E og v s = Inr s' \<Longrightarrow> era_marks s' = era_marks s"
  "set_payee og p s = Inr s' \<Longrightarrow> era_marks s' = era_marks s" "set_controller E og c s = Inr s' \<Longrightarrow> era_marks s' = era_marks s"
  by (auto simp: bond_def bond_extra_def set_payee_def set_controller_def res_simps Let_def
      split: option.splits prod.splits if_splits)

lemma rebond_marks: "rebond E og v s = Inr s' \<Longrightarrow> era_marks s' = era_marks s"
  by (auto simp: rebond_def res_simps Let_def split_beta)

lemma unbond_marks:
  assumes "unbond E og v s = Inr s'"
  shows "era_marks s' = era_marks s"
proof -
  have unb: "era_marks t' = era_marks t" if "unbond_value E c l n t = Inr t'" for c l n and t t' :: "'a staking"
    using that by (auto simp: unbond_value_def unbond_finish_def res_simps Let_def split: prod.splits if_splits)
  show ?thesis
    using assms unfolding unbond_def rbind_Inr_iff Let_def
    by (auto simp: res_simps split: if_splits dest!: unb withdraw_marks)
qed

lemma remove_targets_marks [simp]: "era_marks (do_remove_validator_from_cooperators_target a s) = era_marks s"
  by (simp add: do_remove_validator_from_cooperators_target_def split: option.splits)

lemma role_calls_marks:
  "validate E og p s = Inr s' \<Longrightarrow> era_marks s' = era_marks s" "chill E og s = Inr s' \<Longrightarrow> era_marks s' = era_marks s"
  "force_chill E og a s = Inr s' \<Longrightarrow> era_marks s' = era_marks s" "chill_other E og a s = Inr s' \<Longrightarrow> era_marks s' = era_marks s"
  "make_collaborative E og s = Inr s' \<Longrightarrow> era_marks s' = era_marks s"
  "force_apply_min_commission og a s = Inr s' \<Longrightarrow> era_marks s' = era_marks s"
  by (auto simp: validate_def do_add_validator_def chill_def force_chill_def chill_other_def make_collaborative_def
      force_apply_min_commission_def chill_both_def res_simps Let_def)

lemma add_cooperator_marks: "do_add_cooperator a co s = Inr s' \<Longrightarrow> era_marks s' = era_marks s"
  by (auto simp: do_add_cooperator_def res_simps era_marks_def)

lemma cooperate_marks: "cooperate E og ts s = Inr s' \<Longrightarrow> era_marks s' = era_marks s"
  unfolding cooperate_def Let_def rbind_Inr_iff ensure_Inr_iff ok_or_Inr_iff
  by (elim exE conjE) (auto dest!: add_cooperator_marks)

lemma kick_marks:
  assumes "kick E og who s = Inr s'"
  shows "era_marks s' = era_marks s"
proof -
  have one: "era_marks (kick_one E st c t) = era_marks t" for st c and t :: "'a staking"
    by (auto simp: kick_one_def Let_def era_marks_def split: option.splits)
  have "era_marks (foldl (\<lambda>s c. kick_one E st c s) t cs) = era_marks t" for st cs and t :: "'a staking"
    by (induction cs arbitrary: t) (simp_all add: one)
  then show ?thesis using assms by (auto simp: kick_def res_simps)
qed

lemma unstake_calls_marks:
  "withdraw_unbonded E og n s = Inr s' \<Longrightarrow> era_marks s' = era_marks s" "force_unstake E og a n s = Inr s' \<Longrightarrow> era_marks s' = era_marks s"
  "reap_stash E og a n s = Inr s' \<Longrightarrow> era_marks s' = era_marks s" "payout_stakers E og a e s = Inr s' \<Longrightarrow> era_marks s' = era_marks s"
  unfolding withdraw_unbonded_def force_unstake_def reap_stash_def payout_stakers_def
    Let_def rbind_Inr_iff ensure_Inr_iff ok_or_Inr_iff sum.inject
  by (elim exE conjE; auto dest: withdraw_marks kill_stash_marks payout_marks)+

lemma admin_calls_marks:
  "set_validator_count og n s = Inr s' \<Longrightarrow> era_marks s' = era_marks s" "increase_validator_count og n s = Inr s' \<Longrightarrow> era_marks s' = era_marks s"
  "scale_validator_count E og n s = Inr s' \<Longrightarrow> era_marks s' = era_marks s" "set_core_nodes_count og n s = Inr s' \<Longrightarrow> era_marks s' = era_marks s"
  "force_no_eras og s = Inr s' \<Longrightarrow> era_marks s' = era_marks s" "force_new_era og s = Inr s' \<Longrightarrow> era_marks s' = era_marks s"
  "force_new_era_always og s = Inr s' \<Longrightarrow> era_marks s' = era_marks s" "set_invulnerables og is s = Inr s' \<Longrightarrow> era_marks s' = era_marks s"
  "cancel_deferred_slash E og e is s = Inr s' \<Longrightarrow> era_marks s' = era_marks s"
  "set_staking_configs og a b c d f g h s = Inr s' \<Longrightarrow> era_marks s' = era_marks s"
  "set_min_commission E og n s = Inr s' \<Longrightarrow> era_marks s' = era_marks s"
  "set_energy_per_stake_currency E og n s = Inr s' \<Longrightarrow> era_marks s' = era_marks s"
  "set_block_authoring_reward E og n s = Inr s' \<Longrightarrow> era_marks s' = era_marks s"
  by (auto simp: set_validator_count_def increase_validator_count_def scale_validator_count_def
      set_core_nodes_count_def force_no_eras_def force_new_era_def force_new_era_always_def
      force_era_mode_def set_force_era_def set_invulnerables_def cancel_deferred_slash_def
      put_validator_count_def set_staking_configs_def set_min_commission_def set_energy_per_stake_currency_def
      set_block_authoring_reward_def res_simps Let_def era_marks_def st_deposit_def)

lemma dispatch_marks: "staking_dispatch E og c s = Inr s' \<Longrightarrow> era_marks s' = era_marks s"
  by (cases c) (simp_all add: bond_calls_marks rebond_marks unbond_marks role_calls_marks cooperate_marks kick_marks
      unstake_calls_marks admin_calls_marks)

lemma vip_marks:
  assumes "slash_vip_account E a p s = Inr s'"
  shows "era_marks s' = era_marks s"
proof -
  have tax: "era_marks t = era_marks s" if "vip_tax E a p l s = Inr (n, t)" for l n t
    using that by (auto simp: vip_tax_def Let_def res_simps dest: add_cooperator_marks split: if_splits option.splits prod.splits)
  obtain l e n s1 where c: "vip_tax E a p l s = Inr (n, s1)"
    and f: "(let (l', stake_value, s2) = ledger_slash E n e l s1
       in Inr (if stake_value \<noteq> 0 then
                 let (ext, imbalance, _) = x_slash E a stake_value (st_ext s2)
                 in update_ledger E a l' (s2\<lparr>st_ext := x_slash_unbalanced E imbalance ext\<rparr>)
               else s2)) = (Inr s' :: 'a call)"
    using assms unfolding slash_vip_account_def rbind_Inr_iff ok_or_Inr_iff split_paired_Ex prod.case
    by (elim exE conjE) (rule that; assumption)
  obtain l' v s2 where ls: "ledger_slash E n e l s1 = (l', v, s2)" by (cases "ledger_slash E n e l s1")
  have "era_marks s2 = era_marks s1"
    using ls by (auto simp: ledger_slash_def Let_def split: prod.splits if_splits)
  then show ?thesis using f ls tax [OF c] by (auto split: prod.splits if_splits)
qed

lemma hooks_marks:
  "era_marks (on_finalize E s) = era_marks s" "era_marks (note_author E a s) = era_marks s"
  "era_marks (reward_by_ids E ps s) = era_marks s" "era_marks (end_session E i s) = era_marks s"
  by (auto simp: on_finalize_def note_author_def reward_by_ids_def end_session_def end_era_def store_energy_rate_def
      Let_def split: option.splits sum.splits) (auto simp: era_marks_def)

lemma foldl_world_marks [simp]: "era_marks (foldl (\<lambda>s i. st_world (g i) s) s xs) = era_marks s"
  by (induction xs arbitrary: s) simp_all

lemma offence_marks: "era_marks (on_offence E offs fr i s) = era_marks s"
proof -
  have one: "era_marks (handle_offender E rp invs e w n d t) = era_marks t" for rp invs e w n d and t :: "'a staking"
  proof -
    have "era_marks (fst (apply_slash E u e v)) = era_marks v" for u and v :: "'a staking"
      by (rule era_marks_part [OF era_part_apply_slash [OF surjective_pairing]])
    then show ?thesis by (auto simp: handle_offender_def Let_def split: prod.splits option.splits)
  qed
  have "era_marks (foldl (\<lambda>t d. handle_offender E rp invs e w n d t) t ds) = era_marks t"
    for rp invs e w n ds and t :: "'a staking"
    by (induction ds arbitrary: t) (simp_all add: one)
  then show ?thesis by (auto simp: on_offence_def Let_def split: option.splits)
qed

section \<open>The order of the sessions\<close>

text \<open>Everything but the session pallet's hooks.\<close>

inductive between_sessions :: "'x staking_env \<Rightarrow> 'x staking \<Rightarrow> 'x staking \<Rightarrow> bool" for E where
  mid_call: "staking_dispatch E og c s = Inr s' \<Longrightarrow> between_sessions E s s'"
| mid_finalize: "between_sessions E s (on_finalize E s)"
| mid_offence: "between_sessions E s (on_offence E offenders fractions i s)"
| mid_author: "between_sessions E s (note_author E a s)"
| mid_reward: "between_sessions E s (reward_by_ids E ps s)"
| mid_chill: "between_sessions E s (chill_stash E a s)"
| mid_vip: "slash_vip_account E a p s = Inr s' \<Longrightarrow> between_sessions E s s'"
| mid_world: "between_sessions E s (s\<lparr>st_ext := x\<rparr>)"
| mid_reputation: "between_sessions E s (s\<lparr>st_rep := R\<rparr>)"

definition session_genesis :: "'x staking_env \<Rightarrow> 'x staking \<Rightarrow> 'x staking" where
  "session_genesis E s = fst (start_session E 0 (snd (new_session E 1 (snd (new_session E 0 s)))))"

definition rotate_session :: "'x staking_env \<Rightarrow> session \<Rightarrow> 'x staking \<Rightarrow> 'x staking" where
  "rotate_session E i s = snd (new_session E (i + 2) (fst (start_session E (i + 1) (end_session E i s))))"

text \<open>The states in which session \<open>i\<close> is the one running.\<close>

inductive in_session :: "'x staking_env \<Rightarrow> session \<Rightarrow> 'x staking \<Rightarrow> bool" for E where
  session_first: "staking_genesis E g R x = Some s \<Longrightarrow> in_session E 0 (session_genesis E s)"
| session_next: "in_session E i s \<Longrightarrow> i + 2 < 2 ^ 32 \<Longrightarrow> in_session E (i + 1) (rotate_session E i s)"
| session_runs: "in_session E i s \<Longrightarrow> between_sessions E s s' \<Longrightarrow> in_session E i s'"

lemma between_marks: "between_sessions E s s' \<Longrightarrow> era_marks s' = era_marks s"
  by (induction rule: between_sessions.induct)
    (auto dest: dispatch_marks vip_marks simp: hooks_marks offence_marks)

section \<open>Planning a session\<close>

lemma ellect_marks [simp]: "era_marks (snd (ellect_and_collect_exposures E s)) = era_marks s"
proof -
  have demote: "era_marks (demote E a t) = era_marks t" for a and t :: "'a staking"
    by (simp add: demote_def)
  have "era_marks (foldl (\<lambda>s a. demote E a s) t xs) = era_marks t" for xs and t :: "'a staking"
    by (induction xs arbitrary: t) (simp_all add: demote)
  moreover have "era_marks (foldl (\<lambda>s a. chill_stash E a s) t xs) = era_marks t" for xs and t :: "'a staking"
    by (induction xs arbitrary: t) simp_all
  ultimately show ?thesis by (simp add: ellect_and_collect_exposures_def ellect_validators_def Let_def)
qed

lemma store_info_marks [simp]: "era_marks (snd (store_stakers_info E ex e s)) = era_marks s"
proof -
  have one: "era_marks (store_staker E e p t) = era_marks t" for p and t :: "'a staking"
    by (simp add: store_staker_def)
  have "era_marks (foldl (\<lambda>s p. store_staker E e p s) t xs) = era_marks t" for xs and t :: "'a staking"
    by (induction xs arbitrary: t) (simp_all add: one)
  then show ?thesis by (simp add: store_stakers_info_def Let_def)
qed

definition history_ok :: "'x staking_env \<Rightarrow> bool" where
  "history_ok E \<longleftrightarrow> 0 < c_history_depth E \<and> c_history_depth E + 1 < 2 ^ 32"

text \<open>What planning an era that starts in session \<open>i\<close> writes: \<open>c\<close> is the era planned, \<open>h\<close> the depth of the history.\<close>

definition planned_starts :: "nat \<Rightarrow> era \<Rightarrow> session \<Rightarrow> (era \<rightharpoonup> session) \<Rightarrow> (era \<rightharpoonup> session)" where
  "planned_starts h c i m = (case checked_sub c (h + 1) of
     Some old \<Rightarrow> (m(c \<mapsto> i))(old := None) | None \<Rightarrow> m(c \<mapsto> i))"

lemma trigger_marks:
  assumes "history_ok E" and "c = (case CurrentEra s of Some e \<Rightarrow> add_w 32 e 1 | None \<Rightarrow> 0)"
  shows "era_marks (snd (trigger_new_era E i ex s)) = (BondedEras s, map_option ae_index (ActiveEra s), Some c,
    planned_starts (c_history_depth E) c i (ErasStartSessionIndex s))"
  using assms
  by (auto simp: trigger_new_era_def Let_def planned_starts_def clear_era_information_def history_ok_def add_w_eq split: option.splits)
    (auto simp: era_marks_def)

lemma try_trigger_marks:
  assumes "history_ok E" and "c = (case CurrentEra s of Some e \<Rightarrow> add_w 32 e 1 | None \<Rightarrow> 0)"
    and "m = ErasStartSessionIndex s"
  shows "era_marks (snd (try_trigger_new_era E i s)) \<in>
    {era_marks s, (BondedEras s, map_option ae_index (ActiveEra s), Some c, planned_starts (c_history_depth E) c i m)} \<and>
    (CurrentEra s = None \<longrightarrow> era_marks (snd (try_trigger_new_era E i s)) =
       (BondedEras s, map_option ae_index (ActiveEra s), Some 0, m(0 \<mapsto> i)))"
proof -
  obtain ex s1 where e: "ellect_and_collect_exposures E s = (ex, s1)" by fastforce
  have "era_marks s1 = era_marks s" using ellect_marks [of E s] e by simp
  then have f: "BondedEras s1 = BondedEras s" "map_option ae_index (ActiveEra s1) = map_option ae_index (ActiveEra s)"
    "CurrentEra s1 = CurrentEra s" "ErasStartSessionIndex s1 = ErasStartSessionIndex s"
    by (simp_all add: era_marks_def)
  have z: "planned_starts (c_history_depth E) 0 i m = m(0 \<mapsto> i)"
    by (simp add: planned_starts_def checked_sub_def)
  show ?thesis
  proof (cases "length ex < max (MinimumValidatorCount s1) 1")
    case True
    then show ?thesis using e f assms z
      by (auto simp: try_trigger_new_era_def Let_def split: option.splits) (auto simp: era_marks_def)
  next
    case False
    let ?t = "st_deposit EvStakersElected s1"
    have "era_marks (snd (trigger_new_era E i ex ?t)) = (BondedEras s, map_option ae_index (ActiveEra s), Some c,
        planned_starts (c_history_depth E) c i m)"
      using trigger_marks [OF assms(1), where c = c and s = ?t and i = i and ex = ex] assms f era_marks_basic(2) [of EvStakersElected s1]
      by (simp add: era_marks_def)
    then show ?thesis using e False assms z
      by (auto simp: try_trigger_new_era_def Let_def split_beta)
  qed
qed

lemma new_session_marks:
  assumes "history_ok E"
  shows "CurrentEra s = None \<Longrightarrow> era_marks (snd (new_session E i s)) =
      (BondedEras s, map_option ae_index (ActiveEra s), Some 0, (ErasStartSessionIndex s)(0 \<mapsto> i))"
    and "CurrentEra s = Some c \<Longrightarrow> c + 1 < 2 ^ 32 \<Longrightarrow> era_marks (snd (new_session E i s)) \<in>
      {era_marks s, (BondedEras s, map_option ae_index (ActiveEra s), Some (c + 1),
         planned_starts (c_history_depth E) (c + 1) i (ErasStartSessionIndex s))}"
proof -
  define s0 where "s0 = (s\<lparr>CurrentPlannedSession := i\<rparr>)\<lparr>st_rep :=
    update_points_for_time (c_libm E) (x_block_number E (st_ext s)) (st_rep s)\<rparr>"
  have f: "era_marks s0 = era_marks s" "CurrentEra s0 = CurrentEra s" by (simp_all add: s0_def)
  note t = try_trigger_marks [OF assms refl refl, where s = "st_world (x_change_quarter_info E) s0" and i = i]
  note t0 = try_trigger_marks [OF assms refl refl, where s = s0 and i = i]
  have n: "new_session E i s = (case CurrentEra s of
      None \<Rightarrow> try_trigger_new_era E i s0
    | Some current_era \<Rightarrow>
        let era_length = i - unwrap_or 0 (ErasStartSessionIndex s0 current_era)
        in if ForceEra s0 = ForceNew \<or> ForceEra s0 = ForceAlways \<or>
              (ForceEra s0 = NotForcing \<and> c_sessions_per_era E \<le> era_length)
           then let (validators, s1) = try_trigger_new_era E i (st_world (x_change_quarter_info E) s0)
                in (validators, if validators \<noteq> None \<and> ForceEra s1 = ForceNew then set_force_era NotForcing s1 else s1)
           else (None, s0))"
    unfolding new_session_def plan_session_def s0_def Let_def by (cases "CurrentEra s") simp_all
  { assume "CurrentEra s = None"
    then show "era_marks (snd (new_session E i s)) =
      (BondedEras s, map_option ae_index (ActiveEra s), Some 0, (ErasStartSessionIndex s)(0 \<mapsto> i))"
      using n t0 f by (simp add: s0_def) }
  assume c: "CurrentEra s = Some c" "c + 1 < 2 ^ 32"
  have w: "era_marks (st_world (x_change_quarter_info E) s0) = era_marks s" using f by simp
  show "era_marks (snd (new_session E i s)) \<in> {era_marks s, (BondedEras s, map_option ae_index (ActiveEra s), Some (c + 1),
         planned_starts (c_history_depth E) (c + 1) i (ErasStartSessionIndex s))}"
    using c n t w f by (auto simp: Let_def split_beta set_force_era_def add_w_eq era_marks_def)
qed

section \<open>Starting a session\<close>

definition next_era :: "'x staking \<Rightarrow> era" where
  "next_era s = (case ActiveEra s of Some a \<Rightarrow> add_w 32 (ae_index a) 1 | None \<Rightarrow> 0)"

lemma prune_keeps_last:
  assumes "prune_bonded E n (B @ [(n, i)]) t = (b, t')"
  shows "\<exists>k \<le> length B. b = drop k (B @ [(n, i)])"
proof -
  let ?P = "\<lambda>(era_idx, _). era_idx < n - c_bonding_duration E"
  have "length (takeWhile ?P (B @ [(n, i)])) \<le> length B"
    by (auto simp: takeWhile_append length_takeWhile_le not_less)
  then show ?thesis using assms by (auto simp: prune_bonded_def Let_def split: if_splits)
qed

lemma start_era_marks:
  "\<exists>k \<le> length (BondedEras s). era_marks (fst (start_era E i s)) =
     (drop k (BondedEras s @ [(next_era s, i)]), Some (next_era s), CurrentEra s, ErasStartSessionIndex s)"
proof -
  define n where "n = next_era s"
  define s1 where "s1 = s\<lparr>ActiveEra := Some \<lparr>ae_index = n, ae_start = None\<rparr>\<rparr>"
  obtain b s2 where p: "prune_bonded E n (BondedEras s1 @ [(n, i)]) s1 = (b, s2)" by fastforce
  have s': "start_era E i s = apply_unapplied_slashes E n (s2\<lparr>BondedEras := b\<rparr>)"
    using p by (simp add: start_era_def n_def next_era_def s1_def Let_def)
  have "era_part (fst (apply_unapplied_slashes E n t)) = era_part (t\<lparr>UnappliedSlashes := (UnappliedSlashes t)(n := None)\<rparr>)"
    for t :: "'a staking"
    unfolding apply_unapplied_slashes_def Let_def by (rule era_part_apply_slashes [OF surjective_pairing])
  then have "era_marks (fst (start_era E i s)) = era_marks (s2\<lparr>BondedEras := b\<rparr>)"
    using era_marks_part s' by fastforce
  moreover have "era_part s2 = era_part s1" by (rule era_part_prune [OF p])
  moreover obtain k where "k \<le> length (BondedEras s1)" "b = drop k (BondedEras s1 @ [(n, i)])"
    using prune_keeps_last [OF p] by blast
  ultimately show ?thesis by (auto simp: era_marks_def era_part_def s1_def n_def)
qed

lemma start_session_marks:
  "era_marks (fst (start_session E i s)) =
    (case ErasStartSessionIndex s (next_era s) of
       Some start \<Rightarrow> if start \<le> i then era_marks (fst (start_era E i s)) else era_marks s
     | None \<Rightarrow> era_marks s)"
  by (auto simp: start_session_def next_era_def Let_def split: option.splits prod.splits)

section \<open>Remembered eras and their sessions agree\<close>

definition eras_aligned :: "session \<Rightarrow> 'x staking \<Rightarrow> bool" where
  "eras_aligned i s \<longleftrightarrow> (\<exists>a b c. map_option ae_index (ActiveEra s) = Some a \<and> CurrentEra s = Some c \<and>
     a \<le> c \<and> c \<le> a + 1 \<and> c \<le> i + 1 \<and>
     BondedEras s \<noteq> [] \<and> last (BondedEras s) = (a, b) \<and> ErasStartSessionIndex s a = Some b \<and>
     sorted (map snd (BondedEras s)) \<and> (\<forall>p \<in> set (BondedEras s). snd p \<le> i) \<and>
     (\<forall>e > c. ErasStartSessionIndex s e = None) \<and> (c = a + 1 \<longrightarrow> ErasStartSessionIndex s c = Some (i + 1)))"

lemma aligned_marks: "era_marks s = era_marks t \<Longrightarrow> eras_aligned i s = eras_aligned i t"
  by (simp add: era_marks_def eras_aligned_def)

text \<open>A session starts: an era planned for it becomes active.\<close>

lemma start_session_aligned:
  assumes "eras_aligned i s" and "i + 2 < 2 ^ 32"
  shows "\<exists>a b. era_marks (fst (start_session E (i + 1) s)) =
      (BondedEras (fst (start_session E (i + 1) s)), Some a, Some a, ErasStartSessionIndex s) \<and>
    a \<le> i + 1 \<and> BondedEras (fst (start_session E (i + 1) s)) \<noteq> [] \<and>
    last (BondedEras (fst (start_session E (i + 1) s))) = (a, b) \<and> ErasStartSessionIndex s a = Some b \<and>
    sorted (map snd (BondedEras (fst (start_session E (i + 1) s)))) \<and>
    (\<forall>p \<in> set (BondedEras (fst (start_session E (i + 1) s))). snd p \<le> i + 1) \<and>
    (\<forall>e > a. ErasStartSessionIndex s e = None)"
proof -
  obtain a b c where s: "map_option ae_index (ActiveEra s) = Some a" "CurrentEra s = Some c"
      "a \<le> c" "c \<le> a + 1" "c \<le> i + 1" "BondedEras s \<noteq> []" "last (BondedEras s) = (a, b)"
      "ErasStartSessionIndex s a = Some b" "sorted (map snd (BondedEras s))"
      "\<forall>p \<in> set (BondedEras s). snd p \<le> i" "\<forall>e > c. ErasStartSessionIndex s e = None"
      "c = a + 1 \<longrightarrow> ErasStartSessionIndex s c = Some (i + 1)"
    using assms(1) by (auto simp: eras_aligned_def)
  have n: "next_era s = a + 1" using s(1,3,5) assms(2) by (auto simp: next_era_def add_w_eq)
  show ?thesis
  proof (cases "c = a + 1")
    case True
    obtain k where k: "k \<le> length (BondedEras s)" "era_marks (fst (start_era E (i + 1) s)) =
        (drop k (BondedEras s @ [(c, i + 1)]), Some c, Some c, ErasStartSessionIndex s)"
      using start_era_marks [of s E "i + 1"] n True s(2) by auto
    have m: "era_marks (fst (start_session E (i + 1) s)) =
        (drop k (BondedEras s @ [(c, i + 1)]), Some c, Some c, ErasStartSessionIndex s)"
      using start_session_marks [of E "i + 1" s] n True s(12) k(2) by simp
    have srt: "sorted (map snd (drop k (BondedEras s @ [(c, i + 1)])))"
      using s(9,10) by (auto simp: drop_map [symmetric] sorted_append simp del: drop_append intro!: sorted_wrt_drop)
        (use le_SucI in fastforce)
    have le: "\<forall>p \<in> set (drop k (BondedEras s @ [(c, i + 1)])). snd p \<le> i + 1"
      using s(10) set_drop_subset [of k "BondedEras s @ [(c, i + 1)]"] by fastforce
    show ?thesis
      using m srt le k(1) s(5,11,12) True
      by (auto simp: era_marks_def simp del: drop_append intro!: exI [of _ c] exI [of _ "i + 1"])
  next
    case False
    then have "c = a" using s(3,4) by simp
    then have "era_marks (fst (start_session E (i + 1) s)) = era_marks s"
      using start_session_marks [of E "i + 1" s] n s(11) by simp
    then show ?thesis using s \<open>c = a\<close> by (auto simp: era_marks_def intro: le_SucI)
  qed
qed

text \<open>A session is planned: at most one era beyond the active one.\<close>

lemma planned_starts_at:
  assumes "0 < h"
  shows "planned_starts h (a + 1) j m a = m a" "planned_starts h (a + 1) j m (a + 1) = Some j"
    "(\<And>e. a < e \<Longrightarrow> m e = None) \<Longrightarrow> a + 1 < e \<Longrightarrow> planned_starts h (a + 1) j m e = None"
  using assms by (auto simp: planned_starts_def split: option.splits)

lemma new_session_aligned:
  assumes H: "history_ok E" and i: "i + 2 < 2 ^ 32" and t: "era_marks t = (B, Some a, Some a, m)"
    and a: "a \<le> i + 1" "B \<noteq> []" "last B = (a, b)" "m a = Some b" "sorted (map snd B)"
      "\<forall>p \<in> set B. snd p \<le> i + 1" "\<forall>e > a. m e = None"
  shows "eras_aligned (i + 1) (snd (new_session E (i + 2) t))"
proof -
  have f: "CurrentEra t = Some a" "BondedEras t = B" "map_option ae_index (ActiveEra t) = Some a" "ErasStartSessionIndex t = m"
    using t by (simp_all add: era_marks_def)
  have h: "0 < c_history_depth E" using H by (simp add: history_ok_def)
  consider "era_marks (snd (new_session E (i + 2) t)) = era_marks t"
    | "era_marks (snd (new_session E (i + 2) t)) = (B, Some a, Some (a + 1), planned_starts (c_history_depth E) (a + 1) (i + 2) m)"
    using new_session_marks(2) [OF H f(1), of "i + 2"] f i a(1) by auto
  then show ?thesis
  proof cases
    case 1
    then show ?thesis using t a by (auto simp: eras_aligned_def era_marks_def)
  next
    case 2
    then show ?thesis using a planned_starts_at [OF h, where a = a and j = "i + 2" and m = m]
      by (auto simp: eras_aligned_def era_marks_def)
  qed
qed

lemma rotate_aligned:
  assumes "history_ok E" and "eras_aligned i s" and "i + 2 < 2 ^ 32"
  shows "eras_aligned (i + 1) (rotate_session E i s)"
proof -
  have "eras_aligned i (end_session E i s)" using assms(2) aligned_marks [OF hooks_marks(4)] by blast
  from start_session_aligned [OF this assms(3), of E] show ?thesis
    unfolding rotate_session_def by (elim exE conjE) (rule new_session_aligned [OF assms(1,3)])
qed

lemma genesis_marks:
  assumes "staking_genesis E g R x = Some s"
  shows "era_marks s = ([], None, None, Map.empty)"
proof -
  have one: "era_marks t' = era_marks t" if "genesis_staker E g p t = Some t'" for p and t t' :: "'a staking"
  proof -
    obtain stash controller amount status where p: "p = (stash, controller, amount, status)" by (cases p)
    show ?thesis
      using that by (auto simp: genesis_staker_def p Let_def dest!: bond_calls_marks(1) role_calls_marks(1) cooperate_marks
          split: if_splits sum.splits staker_status.splits)
  qed
  have "era_marks t' = era_marks t" if "genesis_stakers E g ps t = Some t'" for ps and t t' :: "'a staking"
    using that
  proof (induction ps arbitrary: t)
    case (Cons p ps)
    then obtain u where "genesis_staker E g p t = Some u" "genesis_stakers E g ps u = Some t'"
      by (auto simp: bind_eq_Some_conv)
    then show ?case using Cons one by metis
  qed simp
  then show ?thesis using assms by (auto simp: staking_genesis_def) (simp add: genesis_storage_def era_marks_def)
qed

lemma session_genesis_marks:
  assumes "history_ok E" and "staking_genesis E g R x = Some s"
  shows "\<exists>c m. era_marks (session_genesis E s) = ([(0, 0)], Some 0, Some c, m) \<and>
    (c = 0 \<and> m = [0 \<mapsto> 0] \<or> c = 1 \<and> m = [0 \<mapsto> 0, 1 \<mapsto> 1])"
proof -
  let ?s0 = "snd (new_session E 0 s)"
  let ?s1 = "snd (new_session E 1 ?s0)"
  have h: "0 < c_history_depth E" using assms(1) by (simp add: history_ok_def)
  have s: "CurrentEra s = None" "BondedEras s = []" "ActiveEra s = None" "ErasStartSessionIndex s = Map.empty"
    using genesis_marks [OF assms(2)] by (simp_all add: era_marks_def)
  have s0: "era_marks ?s0 = ([], None, Some 0, [0 \<mapsto> 0])"
    using new_session_marks(1) [OF assms(1) s(1), of 0] s by simp
  then have f: "CurrentEra ?s0 = Some 0" "BondedEras ?s0 = []" "ActiveEra ?s0 = None" "ErasStartSessionIndex ?s0 = [0 \<mapsto> 0]"
    by (simp_all add: era_marks_def)
  have "planned_starts (c_history_depth E) 1 1 [0 \<mapsto> 0] = [0 \<mapsto> 0, 1 \<mapsto> 1]"
    using h by (simp add: planned_starts_def checked_sub_def)
  then obtain c m where s1: "era_marks ?s1 = ([], None, Some c, m)"
      "c = 0 \<and> m = [0 \<mapsto> 0] \<or> c = 1 \<and> m = [0 \<mapsto> 0, 1 \<mapsto> 1]"
    using new_session_marks(2) [OF assms(1) f(1), of 1] f s0 by auto
  then have g: "BondedEras ?s1 = []" "ActiveEra ?s1 = None" "CurrentEra ?s1 = Some c" "ErasStartSessionIndex ?s1 = m"
    by (simp_all add: era_marks_def)
  have "m 0 = Some 0" using s1(2) by auto
  then have "era_marks (session_genesis E s) = ([(0, 0)], Some 0, Some c, m)"
    using start_session_marks [of E 0 ?s1] start_era_marks [of ?s1 E 0] g
    by (simp add: session_genesis_def next_era_def)
  then show ?thesis using s1(2) by blast
qed

lemma session_genesis_aligned:
  assumes "history_ok E" and "staking_genesis E g R x = Some s"
  shows "eras_aligned 0 (session_genesis E s)"
  using session_genesis_marks [OF assms] by (auto simp: eras_aligned_def era_marks_def)

lemma in_session_aligned:
  assumes "in_session E i s" and "history_ok E"
  shows "eras_aligned i s"
  using assms(1)
proof induction
  case (session_first g R x s)
  then show ?case by (rule session_genesis_aligned [OF assms(2)])
next
  case (session_next i s)
  then show ?case using rotate_aligned [OF assms(2)] by blast
next
  case (session_runs i s s')
  then show ?case using aligned_marks [OF between_marks] by blast
qed

section \<open>The window of remembered eras\<close>

definition window_ok :: "'x staking_env \<Rightarrow> 'x staking \<Rightarrow> bool" where
  "window_ok E s \<longleftrightarrow> map fst (BondedEras s) = eras_window (c_bonding_duration E) (ActiveEra s)"

lemma window_marks: "era_marks s = era_marks t \<Longrightarrow> window_ok E s = window_ok E t"
  by (auto simp: window_ok_def era_marks_def eras_window_def split: option.splits)

lemma window_new_session:
  assumes "history_ok E" and "\<And>c. CurrentEra s = Some c \<Longrightarrow> c + 1 < 2 ^ 32"
  shows "window_ok E (snd (new_session E i s)) = window_ok E s"
proof -
  have "BondedEras (snd (new_session E i s)) = BondedEras s \<and>
      map_option ae_index (ActiveEra (snd (new_session E i s))) = map_option ae_index (ActiveEra s)"
    using new_session_marks(1) [OF assms(1), of s i] new_session_marks(2) [OF assms(1), of s _ i] assms(2)
    by (cases "CurrentEra s") (fastforce simp: era_marks_def)+
  then show ?thesis by (auto simp: window_ok_def eras_window_def split: option.splits)
qed

lemma window_start_era:
  assumes "window_ok E s" and "\<And>a. ActiveEra s = Some a \<Longrightarrow> ae_index a + 1 < 2 ^ 32"
  shows "window_ok E (fst (start_era E i s))"
proof -
  define n where "n = next_era s"
  define s1 where "s1 = s\<lparr>ActiveEra := Some \<lparr>ae_index = n, ae_start = None\<rparr>\<rparr>"
  obtain b s2 where p: "prune_bonded E n (BondedEras s1 @ [(n, i)]) s1 = (b, s2)" by fastforce
  have "map fst (BondedEras s1 @ [(n, i)]) = [n - 1 - c_bonding_duration E..<n] @ [n]"
    using assms by (auto simp: window_ok_def eras_window_def s1_def n_def next_era_def add_w_eq split: option.splits)
  then have b: "map fst b = [n - c_bonding_duration E..<Suc n]" by (rule prune_window [OF _ p])
  have s': "start_era E i s = apply_unapplied_slashes E n (s2\<lparr>BondedEras := b\<rparr>)"
    using p by (simp add: start_era_def n_def next_era_def s1_def Let_def)
  have "era_part (fst (apply_unapplied_slashes E n t)) = era_part (t\<lparr>UnappliedSlashes := (UnappliedSlashes t)(n := None)\<rparr>)"
    for t :: "'a staking"
    unfolding apply_unapplied_slashes_def Let_def by (rule era_part_apply_slashes [OF surjective_pairing])
  moreover have "era_part s2 = era_part s1" by (rule era_part_prune [OF p])
  ultimately show ?thesis using b s'
    by (auto simp: window_ok_def era_part_def s1_def eras_window_def)
qed

lemma window_start_session:
  assumes "window_ok E s" and "\<And>a. ActiveEra s = Some a \<Longrightarrow> ae_index a + 1 < 2 ^ 32"
  shows "window_ok E (fst (start_session E i s))"
  using start_session_marks [of E i s] window_marks window_start_era [OF assms] assms(1)
  by (auto split: option.splits if_splits)

lemma in_session_window:
  assumes "in_session E i s" and H: "history_ok E" and "i + 2 < 2 ^ 32"
  shows "window_ok E s"
  using assms(1,3)
proof induction
  case (session_first g R x s)
  have s: "CurrentEra s = None" "ActiveEra s = None" "BondedEras s = []"
    using genesis_marks [OF session_first(1)] by (simp_all add: era_marks_def)
  let ?s0 = "snd (new_session E 0 s)"
  have f: "CurrentEra ?s0 = Some 0" "ActiveEra ?s0 = None"
    using new_session_marks(1) [OF H s(1), of 0] s by (simp_all add: era_marks_def)
  have "window_ok E s" using s by (simp add: window_ok_def eras_window_def)
  then have "window_ok E (snd (new_session E 1 ?s0))" using window_new_session [OF H, of s 0] window_new_session [OF H, of ?s0 1] s(1) f(1) by simp
  moreover have "ActiveEra (snd (new_session E 1 ?s0)) = None"
    using new_session_marks(2) [OF H f(1), of 1] f(2) by (auto simp: era_marks_def)
  ultimately show ?case unfolding session_genesis_def by (intro window_start_session) simp_all
next
  case (session_next i s)
  have al: "eras_aligned i (end_session E i s)"
    using in_session_aligned [OF session_next.hyps(1) H] aligned_marks [OF hooks_marks(4)] by blast
  have w: "window_ok E (end_session E i s)" using session_next by (simp add: window_marks [OF hooks_marks(4)])
  have a: "\<And>a. ActiveEra (end_session E i s) = Some a \<Longrightarrow> ae_index a + 1 < 2 ^ 32"
    using al session_next.prems by (auto simp: eras_aligned_def)
  have c: "\<And>c. CurrentEra (fst (start_session E (i + 1) (end_session E i s))) = Some c \<Longrightarrow> c + 1 < 2 ^ 32"
    using start_session_aligned [OF al session_next.hyps(2), of E] session_next.prems
    by (auto simp: era_marks_def)
  show ?case
    unfolding rotate_session_def using window_new_session [OF H c] window_start_session [OF w a] by simp
next
  case (session_runs i s s')
  then show ?case using window_marks [OF between_marks] by blast
qed

text \<open>C8.
  In every state of session \<open>i\<close>, whatever was called, reported or authored in between: the planned era is the active
  one or the next, which then starts in session \<open>i + 1\<close>; the remembered eras are the active one and as many before it
  as the bonding duration says; and the sessions they started in ascend up to the active era's, which is not after \<open>i\<close>.
\<close>

theorem sessions_keep_eras_aligned:
  assumes "in_session E i s" and "history_ok E" and "i + 2 < 2 ^ 32"
  shows "\<exists>a c b. ActiveEra s = Some a \<and> CurrentEra s = Some c \<and>
    (c = ae_index a \<or> c = ae_index a + 1 \<and> ErasStartSessionIndex s c = Some (i + 1)) \<and>
    map fst (BondedEras s) = [ae_index a - c_bonding_duration E..<ae_index a + 1] \<and>
    sorted (map snd (BondedEras s)) \<and> last (BondedEras s) = (ae_index a, b) \<and>
    ErasStartSessionIndex s (ae_index a) = Some b \<and> b \<le> i"
proof -
  obtain a b c where s: "map_option ae_index (ActiveEra s) = Some a" "CurrentEra s = Some c" "a \<le> c" "c \<le> a + 1"
      "BondedEras s \<noteq> []" "last (BondedEras s) = (a, b)" "ErasStartSessionIndex s a = Some b"
      "sorted (map snd (BondedEras s))" "\<forall>p \<in> set (BondedEras s). snd p \<le> i"
      "c = a + 1 \<longrightarrow> ErasStartSessionIndex s c = Some (i + 1)"
    using in_session_aligned [OF assms(1,2)] by (auto simp: eras_aligned_def)
  obtain A where A: "ActiveEra s = Some A" "ae_index A = a" using s(1) by auto
  have "b \<le> i" using s(6,9) last_in_set [OF s(5)] by force
  moreover have "map fst (BondedEras s) = [a - c_bonding_duration E..<a + 1]"
    using in_session_window [OF assms] A by (simp add: window_ok_def eras_window_def)
  moreover have "c = a \<or> c = a + 1" using s(3,4) by linarith
  ultimately show ?thesis
    using s A by (auto simp del: upt_Suc intro!: exI [of _ A] exI [of _ c])
qed

lemma demo_history: "history_ok demo_env"
  by (simp add: history_ok_def demo_env_def)

theorem sessions_keep_eras_aligned_witness:
  "\<exists>a. ActiveEra (rotate_session demo_env 0 (session_genesis demo_env demo_state)) = Some a \<and>
    last (map fst (BondedEras (rotate_session demo_env 0 (session_genesis demo_env demo_state)))) = ae_index a"
proof -
  have "in_session demo_env (0 + 1) (rotate_session demo_env 0 (session_genesis demo_env demo_state))"
    by (rule session_next [OF session_first [OF demo_genesis_state]]) simp
  from sessions_keep_eras_aligned [OF this demo_history] show ?thesis by auto
qed

end
