(* ===== verification/Offences.thy ===== *)
theory Offences
  imports Sessions
begin

text \<open>
  Reporting offences (\<open>pallets/energy-generation/src/lib.rs\<close>): the identification of an offender by its
  stash and exposure, and the two wrappers around the offences pallet, \<open>FilterHistoricalOffences\<close> and
  \<open>ChillOnOffence\<close>. The wrapped \<open>ReportOffence\<close>, third-party code that ends in \<open>on_offence\<close>, is the
  parameter \<open>report\<close>: from the reporters, the offence and the state to a result and the new state, which
  an error does not roll back. Of an offence the wrappers read its session and its offenders; \<open>of_kind\<close>
  stands for the rest of it.
\<close>

section \<open>Who a validator is\<close>

definition stash_of :: "'x staking \<Rightarrow> account \<Rightarrow> account option" where
  "stash_of s controller = map_option l_stash (Ledger s controller)"

definition exposure_of :: "'x staking \<Rightarrow> account \<Rightarrow> exposure option" where
  "exposure_of s validator =
     map_option (\<lambda>active_era. unwrap_or exposure_default (ErasStakers s (ae_index active_era, validator))) (ActiveEra s)"

section \<open>The wrappers\<close>

datatype offence_error = DuplicateReport | OtherOffence nat

record 'k offence =
  of_offenders :: "(account \<times> exposure) list"
  of_session_index :: session
  of_kind :: 'k

type_synonym ('k, 'x) report =
  "account list \<Rightarrow> 'k offence \<Rightarrow> 'x staking \<Rightarrow> (offence_error + unit) \<times> 'x staking"

definition filter_report_offence :: "('k, 'x) report \<Rightarrow> ('k, 'x) report" where
  "filter_report_offence report reporters offence s =
     (let offence_session = of_session_index offence;
          first = (case BondedEras s of [] \<Rightarrow> None | p # _ \<Rightarrow> Some p)
      in if (case first of Some (_, start) \<Rightarrow> start \<le> offence_session | None \<Rightarrow> False)
         then report reporters offence s
         else (Inr (), st_deposit (EvOldSlashingReportDiscarded offence_session) s))"

definition chill_report_offence :: "'x staking_env \<Rightarrow> ('k, 'x) report \<Rightarrow> ('k, 'x) report" where
  "chill_report_offence E report reporters offence s =
     (let invulnerables = Invulnerables s;
          offenders = filter (\<lambda>stash. stash \<notin> set invulnerables) (map fst (of_offenders offence));
          offence_session = of_session_index offence
      in case report reporters offence s of
           (Inl e, s1) \<Rightarrow> (Inl e, s1)
         | (Inr _, s1) \<Rightarrow>
             if offenders \<noteq> [] then
               let offence_in_active_era =
                     unwrap_or False (map_option (\<lambda>start_session. start_session \<le> offence_session)
                       (Option.bind (ActiveEra s1) (\<lambda>era. ErasStartSessionIndex s1 (ae_index era))))
               in (Inr (), if offence_in_active_era then foldl (\<lambda>s stash. chill_stash E stash s) s1 offenders else s1)
             else (Inr (), s1))"

section \<open>The era an offence belongs to\<close>

lemma sorted_le_last: "sorted xs \<Longrightarrow> x \<in> set xs \<Longrightarrow> x \<le> (last xs :: nat)"
  by (induction xs rule: rev_induct) (auto simp: sorted_append)

lemma find_latest:
  assumes "sorted (map snd xs)" and "xs \<noteq> []" and "snd (hd xs) \<le> (j :: nat)"
  shows "\<exists>e b. find (\<lambda>(_, sesh). sesh \<le> j) (rev xs) = Some (e, b) \<and> (e, b) \<in> set xs \<and> b \<le> j \<and>
    (\<forall>p \<in> set xs. snd p \<le> j \<longrightarrow> snd p \<le> b)"
  using assms
proof (induction xs rule: rev_induct)
  case (snoc x xs)
  show ?case
  proof (cases "snd x \<le> j")
    case True
    then show ?thesis using snoc.prems(1)
      by (cases x) (auto simp: sorted_append)
  next
    case False
    then have "xs \<noteq> []" using snoc.prems(3) by auto
    then obtain e b where "find (\<lambda>(_, sesh). sesh \<le> j) (rev xs) = Some (e, b)" "(e, b) \<in> set xs" "b \<le> j"
        "\<forall>p \<in> set xs. snd p \<le> j \<longrightarrow> snd p \<le> b"
      using snoc.IH snoc.prems by (auto simp: sorted_append)
    then show ?thesis using False by (cases x) auto
  qed
qed simp

lemma find_before_first:
  assumes "sorted (map snd xs)" and "xs \<noteq> []" and "(j :: nat) < snd (hd xs)"
  shows "find (\<lambda>(_, sesh). sesh \<le> j) (rev xs) = None"
  using assms by (cases xs) (fastforce simp: find_None_iff not_le)+

text \<open>C9.
  In every state of the order of the sessions, the filter of old offences agrees with the handler of offences: it
  passes an offence on exactly when the handler finds an era for it, the latest remembered era that had started
  by the session of the offence; an offence it discards, leaving only an event, is one the handler ignores.
\<close>

theorem filter_agrees_with_handler:
  assumes "in_session E i s" and "history_ok E"
  shows "\<exists>a. ActiveEra s = Some a \<and>
    (case slash_era_of s (ae_index a) (unwrap_or 0 (ErasStartSessionIndex s (ae_index a))) (of_session_index off) of
       None \<Rightarrow>
         filter_report_offence report rs off s =
           (Inr (), st_deposit (EvOldSlashingReportDiscarded (of_session_index off)) s) \<and>
         (\<forall>details fractions. on_offence E details fractions (of_session_index off) s = s)
     | Some e \<Rightarrow>
         filter_report_offence report rs off s = report rs off s \<and>
         (\<exists>b. (e, b) \<in> set (BondedEras s) \<and> b \<le> of_session_index off \<and>
            (\<forall>p \<in> set (BondedEras s). snd p \<le> of_session_index off \<longrightarrow> snd p \<le> b)))"
proof -
  obtain a b c where s: "map_option ae_index (ActiveEra s) = Some a" "BondedEras s \<noteq> []" "last (BondedEras s) = (a, b)"
      "ErasStartSessionIndex s a = Some b" "sorted (map snd (BondedEras s))"
    using in_session_aligned [OF assms] by (auto simp: eras_aligned_def)
  obtain A where A: "ActiveEra s = Some A" "ae_index A = a" using s(1) by auto
  let ?j = "of_session_index off"
  have last: "(a, b) \<in> set (BondedEras s)" "\<forall>p \<in> set (BondedEras s). snd p \<le> b"
    using s(2,3) last_in_set [OF s(2)] sorted_le_last [OF s(5)] by (auto simp: last_map)
  have first: "snd (hd (BondedEras s)) \<le> b" using last(2) hd_in_set [OF s(2)] by blast
  have filt: "filter_report_offence report rs off s = (if snd (hd (BondedEras s)) \<le> ?j then report rs off s
      else (Inr (), st_deposit (EvOldSlashingReportDiscarded ?j) s))"
    using s(2) by (cases "BondedEras s") (auto simp: filter_report_offence_def Let_def)
  show ?thesis
  proof (cases "snd (hd (BondedEras s)) \<le> ?j")
    case True
    from find_latest [OF s(5,2) this] obtain e b' where f: "find (\<lambda>(_, sesh). sesh \<le> ?j) (rev (BondedEras s)) = Some (e, b')"
        "(e, b') \<in> set (BondedEras s)" "b' \<le> ?j" "\<forall>p \<in> set (BondedEras s). snd p \<le> ?j \<longrightarrow> snd p \<le> b'"
      by blast
    show ?thesis using True filt A s(4) f last by (cases "b \<le> ?j") (auto simp: slash_era_of_def)
  next
    case False
    then have "find (\<lambda>(_, sesh). sesh \<le> ?j) (rev (BondedEras s)) = None" "\<not> b \<le> ?j"
      using find_before_first [OF s(5,2)] first by auto
    then show ?thesis using False filt A s(4) by (auto simp: slash_era_of_def on_offence_def)
  qed
qed

definition demo_offence :: "session \<Rightarrow> account list \<Rightarrow> unit offence" where
  "demo_offence i vs = \<lparr>of_offenders = map (\<lambda>v. (v, exposure_default)) vs, of_session_index = i, of_kind = ()\<rparr>"

theorem filter_agrees_with_handler_witness:
  "filter_report_offence (\<lambda>_ _ s. (Inl DuplicateReport, s)) [] (demo_offence 5 []) (session_genesis demo_env demo_state) =
    (Inl DuplicateReport, session_genesis demo_env demo_state)"
proof -
  let ?s = "session_genesis demo_env demo_state"
  obtain c m where m: "era_marks ?s = ([(0, 0)], Some 0, Some c, m)" "m 0 = Some 0"
    using session_genesis_marks [OF demo_history demo_genesis_state] by auto
  then have "\<exists>a. ActiveEra ?s = Some a \<and> ae_index a = 0 \<and> ErasStartSessionIndex ?s 0 = Some 0"
    by (auto simp: era_marks_def)
  then show ?thesis
    using filter_agrees_with_handler [OF session_first [OF demo_genesis_state] demo_history,
        of "\<lambda>_ _ s. (Inl DuplicateReport, s)" "[]" "demo_offence 5 []"]
    by (auto simp: slash_era_of_def demo_offence_def)
qed

section \<open>Unresponsive validators\<close>

lemma foldl_chill_roles:
  "Validators (foldl (\<lambda>s a. chill_stash E a s) s as) = (\<lambda>v. if v \<in> set as then None else Validators s v)"
  "Cooperators (foldl (\<lambda>s a. chill_stash E a s) s as) = (\<lambda>v. if v \<in> set as then None else Cooperators s v)"
  by (induction as arbitrary: s) (auto simp: fun_eq_iff)

lemma ellected_dom:
  assumes "iter_ok E" and "finite (dom (Validators s))"
  shows "dom (Validators (ellect_validators E s)) \<subseteq> dom (Validators s)"
proof -
  let ?accs = "x_iter E (dom (Validators s))"
  have accs: "set ?accs = dom (Validators s)" using assms by (simp add: iter_ok_def)
  have "dom (Validators (foldl (\<lambda>s a. demote E a s) t xs)) \<subseteq> dom (Validators t) \<union> set xs" for xs and t :: "'a staking"
  proof (induction xs arbitrary: t)
    case (Cons x xs)
    have "dom (Validators (demote E x t)) \<subseteq> insert x (dom (Validators t))" by (auto simp: demote_def split: if_splits)
    then show ?case using Cons.IH [of "demote E x t"]
      by (simp only: foldl.simps list.set) blast
  qed simp
  note this [of "foldl (\<lambda>s a. chill_stash E a s) s (filter (\<lambda>a. \<not> is_legit_for_validator E s a) ?accs)"
      "filter (is_legit_for_validator E s) ?accs"]
  then show ?thesis using accs by (auto simp: ellect_validators_def Let_def foldl_chill_roles split: if_splits)
qed

lemma stored_are_exposed: "set (fst (store_stakers_info E ex e s)) \<subseteq> fst ` set ex"
  by (auto simp: store_stakers_info_def Let_def set_sort_by dest!: in_set_takeD split: if_splits)

lemma triggered_are_validators:
  assumes "iter_ok E" and "finite (dom (Validators t))" and "fst (try_trigger_new_era E i t) = Some ws"
  shows "set ws \<subseteq> dom (Validators t)"
proof -
  define u where "u = ellect_validators E t"
  define ex where "ex = List.map_filter (collect_exposure E u) (x_iter E (dom (Validators u)))"
  have dom: "dom (Validators u) \<subseteq> dom (Validators t)" unfolding u_def by (rule ellected_dom [OF assms(1,2)])
  have "set (x_iter E (dom (Validators u))) = dom (Validators u)"
    using assms(1) finite_subset [OF dom assms(2)] by (simp add: iter_ok_def)
  moreover have "fst p = v" if "collect_exposure E u v = Some p" for v p
    using that by (auto simp: collect_exposure_def Let_def split: option.splits)
  ultimately have ex: "fst ` set ex \<subseteq> dom (Validators u)"
    unfolding ex_def List.map_filter_def by fastforce
  have c: "ellect_and_collect_exposures E t = (ex, u)"
    by (simp add: ellect_and_collect_exposures_def u_def ex_def Let_def)
  have "ws = fst (trigger_new_era E i ex (st_deposit EvStakersElected u))"
    using assms(3) by (simp add: try_trigger_new_era_def c Let_def split_beta split: if_splits)
  then have "set ws \<subseteq> fst ` set ex"
    unfolding trigger_new_era_def Let_def by (simp only: stored_are_exposed)
  then show ?thesis by (rule order_trans [OF order_trans [OF _ ex] dom])
qed

lemma elected_are_validators:
  assumes "iter_ok E" and "finite (dom (Validators s))" and "fst (new_session E i s) = Some vs"
  shows "set vs \<subseteq> dom (Validators s)"
proof -
  define s0 where "s0 = (s\<lparr>CurrentPlannedSession := i\<rparr>)\<lparr>st_rep :=
    update_points_for_time (c_libm E) (x_block_number E (st_ext s)) (st_rep s)\<rparr>"
  have v: "Validators s0 = Validators s" "Validators (st_world f s0) = Validators s" for f by (simp_all add: s0_def)
  obtain t where "fst (try_trigger_new_era E i t) = Some vs" "Validators t = Validators s"
    using assms(3) v
    by (auto simp: new_session_def plan_session_def s0_def [symmetric] Let_def split_beta split: option.splits if_splits)
  then show ?thesis using triggered_are_validators [OF assms(1)] assms(2) by metis
qed

text \<open>C10.
  An offence of unresponsiveness in the active era takes every offender who is not invulnerable out of its role
  once the offences pallet has accepted it, whatever slashing left: such an offender validates and cooperates no
  more and is in no set elected from there. Nobody else's role is changed by it.
\<close>

theorem unresponsive_not_elected:
  assumes r: "report rs off s = (Inr (), s1)" and a: "ActiveEra s1 = Some a"
    and start: "ErasStartSessionIndex s1 (ae_index a) = Some start" "start \<le> of_session_index off"
    and it: "iter_ok E" "finite (dom (Validators s1))"
  shows "\<exists>s'. chill_report_offence E report rs off s = (Inr (), s') \<and>
    (\<forall>v. if v \<in> fst ` set (of_offenders off) \<and> v \<notin> set (Invulnerables s)
         then Validators s' v = None \<and> Cooperators s' v = None \<and>
           (\<forall>i vs. fst (new_session E i s') = Some vs \<longrightarrow> v \<notin> set vs)
         else Validators s' v = Validators s1 v \<and> Cooperators s' v = Cooperators s1 v)"
proof -
  let ?offs = "filter (\<lambda>v. v \<notin> set (Invulnerables s)) (map fst (of_offenders off))"
  let ?s' = "foldl (\<lambda>s a. chill_stash E a s) s1 ?offs"
  have c: "chill_report_offence E report rs off s = (Inr (), ?s')"
    using r a start by (cases "?offs = []") (simp_all add: chill_report_offence_def Let_def)
  have "dom (Validators ?s') \<subseteq> dom (Validators s1)" by (auto simp: foldl_chill_roles split: if_splits)
  then have fin: "finite (dom (Validators ?s'))" using it(2) finite_subset by blast
  have "v \<notin> set vs" if "v \<in> set ?offs" "fst (new_session E i ?s') = Some vs" for v i vs
    using elected_are_validators [OF it(1) fin that(2)] that(1) by (fastforce simp: foldl_chill_roles dom_def)
  then show ?thesis using c by (intro exI [of _ ?s']) (auto simp: foldl_chill_roles)
qed

definition demo_validating :: "(account \<Rightarrow> balance) staking" where
  "demo_validating = demo_state\<lparr>ActiveEra := Some \<lparr>ae_index = 0, ae_start = None\<rparr>,
     ErasStartSessionIndex := [0 \<mapsto> 0], Validators := [11 \<mapsto> default_prefs]\<rparr>"

theorem unresponsive_not_elected_witness:
  "Validators demo_validating 11 \<noteq> None \<and>
   (\<exists>s'. chill_report_offence demo_env (\<lambda>_ _ s. (Inr (), s)) [] (demo_offence 3 [11]) demo_validating = (Inr (), s') \<and>
      Validators s' 11 = None \<and> (\<forall>i vs. fst (new_session demo_env i s') = Some vs \<longrightarrow> 11 \<notin> set vs))"
proof -
  have f: "Invulnerables demo_validating = []" "finite (dom (Validators demo_validating))"
    "ActiveEra demo_validating = Some \<lparr>ae_index = 0, ae_start = None\<rparr>"
    "ErasStartSessionIndex demo_validating 0 = Some 0" "Validators demo_validating 11 = Some default_prefs"
    by (simp_all add: demo_validating_def demo_state_def genesis_storage_def demo_genesis_def)
  have o: "11 \<in> fst ` set (of_offenders (demo_offence 3 [11]))" "of_session_index (demo_offence 3 [11]) = 3"
    by (simp_all add: demo_offence_def)
  obtain s' where c: "chill_report_offence demo_env (\<lambda>_ _ s. (Inr (), s)) [] (demo_offence 3 [11]) demo_validating = (Inr (), s')"
    and r: "\<forall>v. if v \<in> fst ` set (of_offenders (demo_offence 3 [11])) \<and> v \<notin> set (Invulnerables demo_validating)
      then Validators s' v = None \<and> Cooperators s' v = None \<and>
        (\<forall>i vs. fst (new_session demo_env i s') = Some vs \<longrightarrow> v \<notin> set vs)
      else Validators s' v = Validators demo_validating v \<and> Cooperators s' v = Cooperators demo_validating v"
    using unresponsive_not_elected [of "\<lambda>_ _ s. (Inr (), s)" "[]" "demo_offence 3 [11]" demo_validating demo_validating
        "\<lparr>ae_index = 0, ae_start = None\<rparr>" 0 demo_env] f(2-4) o(2) demo_env_ok(2)
    by auto
  show ?thesis using c f(5) spec [OF r, of 11] o(1) f(1) by simp
qed

section \<open>Slashes deferred into the past\<close>

definition due_era :: "'x staking_env \<Rightarrow> era \<Rightarrow> era" where
  "due_era E slash_era = sat_add 32 (sat_add 32 slash_era (c_slash_defer_duration E)) 1"







lemma due_era_eq: "e + c_slash_defer_duration E + 1 < 2 ^ 32 \<Longrightarrow> due_era E e = e + c_slash_defer_duration E + 1"
  by (simp add: due_era_def sat_add_def max_w_def)

text \<open>A slash that is applied in time is applied as one for the era after that of the offence.\<close>

lemma deferred_slash_era:
  "e + c_slash_defer_duration E + 1 < 2 ^ 32 \<Longrightarrow>
    apply_unapplied_slashes E (due_era E e) s = apply_slashes E (e + 1) (unwrap_or [] (UnappliedSlashes s (due_era E e)))
      (s\<lparr>UnappliedSlashes := (UnappliedSlashes s)(due_era E e := None)\<rparr>)"
  by (simp add: apply_unapplied_slashes_def due_era_eq Let_def)

text \<open>What the pallet checks of its configuration makes every slash for the oldest remembered era late.\<close>

lemma oldest_era_is_late:
  assumes "integrity_test E" and "c_bonding_duration E \<noteq> 0" and "e + c_bonding_duration E = a"
  shows "e + c_slash_defer_duration E < a"
  using assms by (auto simp: integrity_test_def)




end
