(* ===== verification/XcmPolicy.thy ===== *)
theory XcmPolicy
  imports EnergyBroker
begin

text \<open>
  What the runtime decides about cross-chain messages (\<open>runtime/vitreus/src/xcm_config.rs\<close>): who may
  teleport what, which calls a message may make, how energy is moved and charged, and the origin of a
  signed message. Locations, assets and the adapter of the asset pallet are third-party; their operations
  are the fields of \<open>xcm_world\<close>. The fees on wrapped tokens are in \<open>RuntimePolicy\<close>.
\<close>

section \<open>Locations and filters\<close>

record ('j, 'l, 'a) location_env =
  lc_unpack :: "'l \<Rightarrow> nat \<times> 'j list"
  lc_is_parachain :: "'j \<Rightarrow> bool"
  lc_filter :: "'l \<Rightarrow> 'a \<Rightarrow> bool"
  lc_vtrs :: 'l
  lc_vnrg :: 'l
  lc_snrg :: 'l
  lc_lnrg :: 'l
  lc_wrapped :: 'l
  lc_asset_hub :: 'l
  lc_bridge_hub :: 'l

definition only_parachains :: "('j, 'l, 'a) location_env \<Rightarrow> 'l \<Rightarrow> bool" where
  "only_parachains L loc =
     (case lc_unpack L loc of (parents, js) \<Rightarrow> parents = 0 \<and> (case js of [j] \<Rightarrow> lc_is_parachain L j | _ \<Rightarrow> False))"

definition energy_for_parachains :: "('j, 'l, 'a) location_env \<Rightarrow> 'a \<Rightarrow> 'l \<Rightarrow> bool" where
  "energy_for_parachains L asset location =
     (if \<not> only_parachains L location then False
      else lc_filter L (lc_vnrg L) asset \<or> lc_filter L (lc_snrg L) asset \<or> lc_filter L (lc_lnrg L) asset)"

text \<open>\<open>Case\<close> of a pair of filter and location holds for assets of the filter at that location.\<close>

definition trusted_teleporters :: "('j, 'l, 'a) location_env \<Rightarrow> 'a \<Rightarrow> 'l \<Rightarrow> bool" where
  "trusted_teleporters L asset location =
     (energy_for_parachains L asset location
      \<or> (location = lc_asset_hub L \<and> lc_filter L (lc_vtrs L) asset)
      \<or> (location = lc_bridge_hub L \<and> lc_filter L (lc_vtrs L) asset)
      \<or> (location = lc_asset_hub L \<and> lc_filter L (lc_wrapped L) asset))"

text \<open>A call is its pallet and its name; for \<open>as_derivative\<close> and \<open>close\<close> the call inside is left out.\<close>

datatype safe_call = SafeCall string string

definition safe_call_filter :: "safe_call \<Rightarrow> bool" where
  "safe_call_filter c =
     (case c of SafeCall p n \<Rightarrow>
        if p = ''System'' then n \<in> {''kill_prefix'', ''set_heap_pages''}
        else if p \<in> {''Babe'', ''Timestamp'', ''Balances''} then True
        else if p = ''Session'' then n = ''purge_keys''
        else if p \<in> {''Grandpa'', ''ImOnline''} then True
        else if p = ''Democracy'' then
          n \<in> {''second'', ''vote'', ''emergency_cancel'', ''fast_track'', ''veto_external'', ''cancel_referendum'',
               ''delegate'', ''undelegate'', ''clear_public_proposals'', ''unlock'', ''remove_vote'',
               ''remove_other_vote'', ''blacklist'', ''cancel_proposal''}
        else if p \<in> {''Council'', ''TechnicalCommittee''} then n \<in> {''vote'', ''disapprove_proposal'', ''close''}
        else if p = ''TechnicalMembership'' then
          n \<in> {''add_member'', ''remove_member'', ''swap_member'', ''change_key'', ''set_prime'', ''clear_prime''}
        else if p = ''Treasury'' then True
        else if p = ''Utility'' then n = ''as_derivative''
        else if p = ''Vesting'' then True
        else if p = ''Bounties'' then
          n \<in> {''propose_bounty'', ''approve_bounty'', ''propose_curator'', ''unassign_curator'',
               ''accept_curator'', ''award_bounty'', ''claim_bounty'', ''close_bounty''}
        else if p = ''Hrmp'' then True
        else if p = ''Registrar'' then n \<in> {''deregister'', ''swap'', ''remove_lock'', ''reserve'', ''add_lock''}
        else if p = ''XcmPallet'' then n = ''limited_reserve_transfer_assets''
        else False)"

section \<open>Energy in messages\<close>

text \<open>
  The burn of energy is reported to dynamic energy and to the broker; both are in the broker's state.
  The other operations of the adapter are those of the third-party \<open>FungiblesAdapter\<close>.
\<close>

datatype energy_xcm_error = Unimplemented | AdapterError string

record ('x, 'l, 'a) xcm_world =
  w_matches_fungibles :: "'a \<Rightarrow> (nat \<times> balance) option"
  w_can_check_out :: "'l \<Rightarrow> 'a \<Rightarrow> 'x \<Rightarrow> string + unit"
  w_check_out :: "'l \<Rightarrow> 'a \<Rightarrow> 'x \<Rightarrow> 'x"
  w_deposit_asset :: "'a \<Rightarrow> 'l \<Rightarrow> 'x \<Rightarrow> string + 'x"
  w_withdraw_asset :: "'a \<Rightarrow> 'l \<Rightarrow> 'x \<Rightarrow> string + 'a list \<times> 'x"
  w_internal_transfer :: "'a \<Rightarrow> 'l \<Rightarrow> 'l \<Rightarrow> 'x \<Rightarrow> string + 'a list \<times> 'x"

definition on_burn :: "balance \<Rightarrow> 'x broker \<Rightarrow> 'x broker" where
  "on_burn amount s =
     (let s1 = s\<lparr>br_dyn := dyn_on_energy_burn amount (br_dyn s)\<rparr> in br_on_energy_burn amount s1)"

definition energy_can_check_in :: "'l \<Rightarrow> 'a \<Rightarrow> 'x broker \<Rightarrow> energy_xcm_error + unit" where
  "energy_can_check_in origin what s = Inl Unimplemented"

definition energy_check_in :: "'l \<Rightarrow> 'a \<Rightarrow> 'x broker \<Rightarrow> 'x broker" where
  "energy_check_in origin what s = s"

definition energy_can_check_out :: "('x, 'l, 'a) xcm_world \<Rightarrow> 'l \<Rightarrow> 'a \<Rightarrow> 'x broker \<Rightarrow> energy_xcm_error + unit" where
  "energy_can_check_out W dest what s = map_err AdapterError (w_can_check_out W dest what (br_ext s))"

definition energy_check_out :: "('x, 'l, 'a) xcm_world \<Rightarrow> 'l \<Rightarrow> 'a \<Rightarrow> 'x broker \<Rightarrow> 'x broker" where
  "energy_check_out W dest what s =
     (let s1 = s\<lparr>br_ext := w_check_out W dest what (br_ext s)\<rparr>
      in case w_matches_fungibles W what of Some (_, amount) \<Rightarrow> on_burn amount s1 | None \<Rightarrow> s1)"

definition energy_deposit_asset :: "('x, 'l, 'a) xcm_world \<Rightarrow> 'a \<Rightarrow> 'l \<Rightarrow> 'x broker \<Rightarrow> energy_xcm_error + 'x broker" where
  "energy_deposit_asset W what who s =
     rbind (map_err AdapterError (w_deposit_asset W what who (br_ext s))) (\<lambda>x. Inr (s\<lparr>br_ext := x\<rparr>))"

definition energy_withdraw_asset ::
  "('x, 'l, 'a) xcm_world \<Rightarrow> 'a \<Rightarrow> 'l \<Rightarrow> 'x broker \<Rightarrow> energy_xcm_error + 'a list \<times> 'x broker" where
  "energy_withdraw_asset W what who s =
     rbind (map_err AdapterError (w_withdraw_asset W what who (br_ext s))) (\<lambda>(held, x). Inr (held, s\<lparr>br_ext := x\<rparr>))"

definition energy_internal_transfer_asset ::
  "('x, 'l, 'a) xcm_world \<Rightarrow> 'a \<Rightarrow> 'l \<Rightarrow> 'l \<Rightarrow> 'x broker \<Rightarrow> energy_xcm_error + 'a list \<times> 'x broker" where
  "energy_internal_transfer_asset W what src dst s =
     rbind (map_err AdapterError (w_internal_transfer W what src dst (br_ext s))) (\<lambda>(held, x). Inr (held, s\<lparr>br_ext := x\<rparr>))"

text \<open>The fee handler keeps the assets that are no energy and counts the others as burned.\<close>

fun retain_assets :: "('x, 'l, 'a) xcm_world \<Rightarrow> 'a list \<Rightarrow> 'x broker \<Rightarrow> 'a list \<times> 'x broker" where
  "retain_assets W [] s = ([], s)"
| "retain_assets W (asset # assets) s =
     (case w_matches_fungibles W asset of
        Some (_, amount) \<Rightarrow> retain_assets W assets (on_burn amount s)
      | None \<Rightarrow> (let (kept, s') = retain_assets W assets s in (asset # kept, s')))"

definition handle_fee :: "('x, 'l, 'a) xcm_world \<Rightarrow> 'a list \<Rightarrow> 'x broker \<Rightarrow> 'a list \<times> 'x broker" where
  "handle_fee W fee s = retain_assets W fee s"

text \<open>The energy a message bought its execution with: counted, then dropped.\<close>

definition on_nonzero_unbalanced_energy :: "(balance \<Rightarrow> 'x \<Rightarrow> 'x) \<Rightarrow> balance \<Rightarrow> 'x broker \<Rightarrow> 'x broker" where
  "on_nonzero_unbalanced_energy drop_credit credit s =
     (let s1 = on_burn credit s in s1\<lparr>br_ext := drop_credit credit (br_ext s1)\<rparr>)"

section \<open>Origins and queries\<close>

datatype ('n, 'o) raw_caller = RawSigned account | RawOther 'o

text \<open>A signed origin becomes the location of its key; any other comes back.\<close>

definition signed_to_account_key20 ::
  "('n option \<Rightarrow> account \<Rightarrow> 'l) \<Rightarrow> 'n option \<Rightarrow> ('n, 'o) raw_caller \<Rightarrow> ('n, 'o) raw_caller + 'l" where
  "signed_to_account_key20 account_key20 network c =
     (case c of RawSigned who \<Rightarrow> Inr (account_key20 network who) | RawOther o' \<Rightarrow> Inl (RawOther o'))"

datatype payment_error = PaymentAssetNotFound | VersionedConversionFailed

definition query_weight_to_asset_fee ::
  "('v \<Rightarrow> 'l option) \<Rightarrow> 'l \<Rightarrow> ('w \<Rightarrow> balance) \<Rightarrow> 'w \<Rightarrow> 'v \<Rightarrow> payment_error + balance" where
  "query_weight_to_asset_fee try_as energy_location weight_to_fee weight asset =
     (case try_as asset of
        Some asset_id \<Rightarrow> if asset_id = energy_location then Inr (weight_to_fee weight) else Inl PaymentAssetNotFound
      | None \<Rightarrow> Inl VersionedConversionFailed)"

section \<open>Energy is counted once\<close>

text \<open>What the assets of a list are worth in energy.\<close>

definition energy_in :: "('x, 'l, 'a) xcm_world \<Rightarrow> 'a list \<Rightarrow> balance" where
  "energy_in W assets = sum_list (map (\<lambda>a. case w_matches_fungibles W a of Some (_, n) \<Rightarrow> n | None \<Rightarrow> 0) assets)"

lemma retain_assets_eq:
  "retain_assets W assets s = (filter (\<lambda>a. w_matches_fungibles W a = None) assets,
     fold on_burn (List.map_filter (\<lambda>a. map_option snd (w_matches_fungibles W a)) assets) s)"
  by (induction assets arbitrary: s) (auto simp: map_filter_simps split: option.splits prod.splits)

lemma fold_on_burn:
  assumes "br_SessionEnergyBurn s \<le> max_w 128" and "dy_SessionEnergyBurn (br_dyn s) \<le> max_w 128"
  shows "br_SessionEnergyBurn (fold on_burn ns s) = sat_add 128 (br_SessionEnergyBurn s) (sum_list ns)"
    and "dy_SessionEnergyBurn (br_dyn (fold on_burn ns s)) = sat_add 128 (dy_SessionEnergyBurn (br_dyn s)) (sum_list ns)"
    and "br_ext (fold on_burn ns s) = br_ext s"
  using assms
  by (induction ns arbitrary: s)
    (simp_all add: on_burn_def br_on_energy_burn_def dyn_on_energy_burn_def sat_add_assoc)

lemma sum_map_filter:
  "sum_list (List.map_filter (\<lambda>a. map_option snd (w_matches_fungibles W a)) assets) = energy_in W assets"
  by (induction assets) (auto simp: map_filter_simps energy_in_def split: option.splits)

text \<open>
  The fee of a message: exactly the assets that are no energy are left, in their order, and both counters of
  burned energy grow by the energy in the fee; nothing else of the broker's world changes.
\<close>

theorem fee_energy_counted:
  assumes "handle_fee W fee s = (kept, s')"
    and "br_SessionEnergyBurn s \<le> max_w 128" and "dy_SessionEnergyBurn (br_dyn s) \<le> max_w 128"
  shows "kept = filter (\<lambda>a. w_matches_fungibles W a = None) fee \<and>
    br_SessionEnergyBurn s' = sat_add 128 (br_SessionEnergyBurn s) (energy_in W fee) \<and>
    dy_SessionEnergyBurn (br_dyn s') = sat_add 128 (dy_SessionEnergyBurn (br_dyn s)) (energy_in W fee) \<and>
    br_ext s' = br_ext s"
  using assms fold_on_burn [OF assms(2,3)] by (auto simp: handle_fee_def retain_assets_eq sum_map_filter)

text \<open>Nothing teleports in from outside the child parachains, unless it is a hub's own token.\<close>

lemma teleporters_are_parachains:
  assumes "trusted_teleporters L asset location"
  shows "only_parachains L location \<or>
    (location \<in> {lc_asset_hub L, lc_bridge_hub L} \<and> (lc_filter L (lc_vtrs L) asset \<or> lc_filter L (lc_wrapped L) asset))"
  using assms by (auto simp: trusted_teleporters_def energy_for_parachains_def split: if_splits)

text \<open>Of the utility calls only \<open>as_derivative\<close> passes the filter of messages; no batch does.\<close>

lemma utility_calls_filtered: "safe_call_filter (SafeCall ''Utility'' n) \<longleftrightarrow> n = ''as_derivative''"
  by (simp add: safe_call_filter_def)

end
