(* ===== verification/Spec2Isabelle.thy ===== *)
theory Spec2Isabelle
  imports ReputationInv TryState BrokerProps RuntimeApi PrivilegesProps Governance
    Erc20Props Treasury Bridge Democracy EvmAccess RuntimePolicy Inflation RewardCurve Migrations
    NodeService Offences XcmPolicy
begin

text \<open>
  A verification library for the runtime of the power-plant node (Vitreus): the pallets under
  \<open>src/pallets\<close>, the ERC-20 precompile under \<open>src/precompiles\<close>, and what \<open>src/runtime\<close> itself decides.

  \<^bold>\<open>The program.\<close> Accounts earn reputation with time and behaviour (\<open>reputation\<close>). They bond native
  currency and validate or cooperate (\<open>energy-generation\<close>); an era ends with energy paid out by stake,
  an offence with a slash, deferred over eras. The energy is priced against the stake and the sales
  (\<open>dynamic-energy\<close>), sold and bought through a warehouse (\<open>energy-broker\<close>), and is what transactions are
  paid in (\<open>energy-fee\<close>). Access to roles and to the EVM hangs on an NFT, the NAC (\<open>nac-managing\<close>); claimed
  amounts turn into VIPP NFTs, and members of the VIP programme earn points for their stake day by day
  and share a yearly reward (\<open>privileges\<close>). Around it: \<open>claiming\<close>, \<open>simple-vesting\<close>, \<open>faucet\<close>,
  \<open>manual-bridge\<close>, \<open>treasury-extension\<close> and \<open>democracy-extension\<close>. A session change runs from the staking
  pallet into the broker, dynamic energy and the treasury; a fee runs from the fee pallet into the
  broker, from there into dynamic energy, and on into the NAC pallet; leaving VIP runs from privileges
  into staking and the NAC pallet.

  \<^bold>\<open>How it is modelled.\<close> The state of a pallet is a record with a field per storage item, the events it
  deposited, and a world \<open>'x\<close> for what it calls in third-party code. A dispatchable is a function from
  its origin, its arguments and the state to an error or the new state: an error discards the state, as
  the storage layer of a dispatchable does; where the code goes on after an error, the model returns the
  result beside the state. Integers are \<open>nat\<close> with the width written at each operation (\<open>add_w 32\<close> wraps,
  \<open>sat_add 128\<close> saturates, \<open>checked_*\<close> fail; theory \<open>Prelude\<close>). Storage maps are partial functions; the order
  of their iteration is a parameter. \<open>RuntimeDebug\<close>, SCALE, logging, weights and metadata are left out.

  Code that is not under \<open>src/\<close> is a field of an environment record (\<open>staking_env\<close>, \<open>broker_env\<close>, ...):
  currencies and assets, the session and NFT pallets, hashing and signature recovery, the calendar of
  \<open>chrono\<close>, \<open>libm\<close>, the fixed-point types of \<open>sp_arithmetic\<close>. What a property needs of them is a named
  predicate on that record (\<open>perthing_ok\<close>, \<open>fixed_ok\<close>, \<open>libm_accurate\<close>, \<open>token_world\<close>, \<open>assets_ok\<close>,
  \<open>fee_assets_ok\<close>, \<open>nfts_ok\<close>, \<open>fixed64_ok\<close>, ...), stating documented behaviour, and each is instantiated by concrete functions in the
  witness of the property.

  \<^bold>\<open>The theories.\<close>
  \<^item> \<open>Prelude\<close>, \<open>Arith\<close>, \<open>Float64\<close>: machine integers, results, origins, list operations; the fixed-point
    types; the \<open>f64\<close> arithmetic of the rank curve.
  \<^item> \<open>Reputation\<close> (\<open>pallets/reputation\<close>): points, ranks, tiers and the pallet. \<open>RankAccuracy\<close> bounds the
    rounding errors, so that ranks are exact for every \<open>libm\<close> of documented accuracy; \<open>ReputationInv\<close> has
    the invariant of the reachable states, through the locale \<open>points_ledger\<close>.
  \<^item> \<open>Ledger\<close>, \<open>SlashSpans\<close>, \<open>Slashing\<close> (\<open>energy-generation/src/lib.rs\<close>, \<open>slashing.rs\<close>): ledgers and the
    proportional slash, slashing spans, computing a slash; the locale \<open>disabling_strategy\<close> is the interface
    of \<open>DisablingStrategy\<close>, interpreted on \<open>UpToLimitDisablingStrategy\<close>.
  \<^item> \<open>Staking\<close>, \<open>StakingEra\<close>, \<open>StakingCalls\<close>, \<open>StakingSteps\<close> (\<open>pallet/impls.rs\<close>, \<open>pallet/mod.rs\<close>): the
    state and its basic operations; eras, elections, payouts, deferred slashes and sessions; the
    dispatchables; the step relation of all calls and hooks. \<open>StakingInv\<close> preserves the invariant through
    every operation, \<open>StakingProps\<close> has the properties; \<open>TryState\<close> has the pallet's checks of itself
    (\<open>integrity_test\<close>, \<open>do_try_state\<close>), and the invariant of exposures they need. \<open>Sessions\<close> has the order in
    which the session pallet calls the hooks, and the states it reaches; \<open>Offences\<close>
    (\<open>energy-generation/src/lib.rs\<close>) the two wrappers through which offences are reported.
  \<^item> \<open>DynamicEnergy\<close>, \<open>EnergyBroker\<close>, \<open>BrokerProps\<close>: rates, smoothing and conversion; converters
    (\<open>converter.rs\<close> and the runtime's five), quotes, swaps, warehouse, the traits of \<open>common/exchange.rs\<close>.
    The locale \<open>converter_tuple\<close> is interpreted on the runtime's tuple.
  \<^item> \<open>EnergyFee\<close>, \<open>FeeProps\<close> (\<open>energy-fee\<close>, \<open>CustomFee\<close> of the runtime): getting the energy for a fee,
    withdrawing and settling it. The locale \<open>quoted_exchange\<close> states what the fee needs of an exchange and
    is interpreted on the broker.
  \<^item> \<open>NacManaging\<close>, \<open>NacProps\<close>, \<open>Privileges\<close>, \<open>PrivilegesProps\<close>: NACs and VIPP NFTs; VIP membership,
    points by day, yearly rewards. \<open>Privileges\<close> works on the staking state, with its own as the world.
  \<^item> \<open>Claiming\<close>, \<open>SimpleVesting\<close>, \<open>Faucet\<close>, \<open>Bridge\<close>, \<open>Treasury\<close>, \<open>Democracy\<close>: one pallet each.
  \<^item> \<open>Erc20\<close>, \<open>Erc20Props\<close> (\<open>precompiles/balances-erc20\<close>): the precompile, and its refinement of an
    abstract token, from which the bound on spending follows.
  \<^item> \<open>EvmAccess\<close>, \<open>RuntimePolicy\<close> (\<open>runtime/vitreus/src\<close>): the NAC runner, self-contained transactions,
    the energy asset as the EVM's currency, the precompiles and authors; the exposure bonus, proxies, origins, fees in XCM.
  \<^item> \<open>XcmPolicy\<close> (\<open>runtime/vitreus/src/xcm_config.rs\<close>): teleports, the filter of calls, energy in messages.
  \<^item> \<open>Inflation\<close> (\<open>energy-generation/reward-fn\<close>, \<open>inflation.rs\<close>): the yearly inflation over big integers.
    \<open>RewardLog\<close>, \<open>RewardAccuracy\<close>, \<open>RewardCurve\<close> (\<open>energy-generation/reward-curve\<close>): the macro \<open>curve!\<close>, its
    logarithm and the error of it, the points it generates.
  \<^item> \<open>RuntimeConfig\<close>, \<open>GenesisKeys\<close>, \<open>ChainSpec\<close>, \<open>ChainSpecProps\<close> (\<open>runtime/vitreus/src/lib.rs\<close>,
    \<open>node/chain-spec\<close>, \<open>load_spec\<close> of \<open>cli\<close>): time, units and the staking configuration of the runtime; the
    listed keys and the build script of the generated lists; the genesis of every network, and what the
    pallets' genesis builds make of it.
  \<^item> \<open>Governance\<close> (\<open>runtime/vitreus/src/areas\<close>, \<open>lib.rs\<close>): the origins of every administrative power, the
    constants of governance, and the pallets' environments as the runtime configures them.
  \<^item> \<open>RuntimeApi\<close> (\<open>impl_runtime_apis!\<close>, \<open>energy-*/rpc\<close>, \<open>energy-fee/runtime-api\<close>): EVM calls for the
    Ethereum RPC, reported fees and quotes, the RPC servers.
  \<^item> \<open>Migrations\<close>: the storage migrations of staking, privileges, dynamic energy, the broker and the
    runtime. \<open>ParachainsDb\<close> (\<open>node/service/src/parachains_db\<close>): the upgrade of the node's database from
    version to version, over a disk that is a parameter. \<open>NodeService\<close> (\<open>node/service/src/lib.rs\<close>, \<open>cli/src\<close>):
    opening that database, reverting the chain, the services of a role, purging, the check of the host.

  \<^bold>\<open>What is shown.\<close> Staking: every state reachable from a genesis by calls, hooks and moves of other
  pallets pairs stashes and ledgers, balances every ledger and keeps the roles apart; unbonding conserves
  funds and what is due can be withdrawn; a payout is made once. In the order of the sessions the
  remembered eras are exactly the last window with ascending sessions, so that the filter of old offences
  agrees with their handler, and an unresponsive validator is not elected next; a slash for an era further
  back than slashes are deferred is never applied. A
  slash is the fraction that was asked, is recorded as the maximum of its era, and the slashes queued behind a failing one are lost; the
  pallet's own try-state checks pass in every reachable state.
  Spans: pruning, ending and the per-span difference. Reputation: tiers agree with points, ranks are
  stable, accrual splits. Energy: rates are smoothed between old and new, the windows of generation and
  burning are exact, swaps charge and pay what is quoted and move nothing else, conversion and fees lose by rounding only, the
  fee estimate is the charge and what is burned is counted. VIP: each day is counted once, the loop
  over the VIPP NFTs returns exactly when they can be burned, the shares of a year exceed the pot by
  rounding at most. Claims are paid once; vesting follows its schedule; the faucet
  grants at most twice its limit in a period length; the precompile refines a token, and no permit is
  used twice; the treasury's share of fees follows its target. The reward curve: the logarithm is within
  nine millionths, every accepted input ends with an ordered curve or a panic that needs overlong
  segments, the Taylor loop is the signed sum. Migrations pass their own checks; a database of any known
  version reaches the current one and any other is left alone. The genesis of the networks is accepted by
  the staking, claiming and vesting pallets, with every validator bonded and every claim funded; initial
  cooperators may make it panic. What the fee API reports is what is charged. Reverting the chain
  never undoes a finalized block, and an authority always has its overseer. Every administrative call
  comes from the root or a sufficient motion; the ayes that each power needs are exact for the genesis.

  \<^bold>\<open>Bounds and loops.\<close> Loops over lists are structural. \<open>update_time\<close> counts down from
  \<open>MAX_UPDATE_DAYS\<close> = 366 as the code counts up to it, so it needs no fuel; the loop of digits goes down by
  division. The two loops over VIPP NFTs may depend on the NFT pallet and are partial functions into
  \<open>option\<close>; that of leaving VIP returns exactly when the NFT pallet burns every claimed item of the
  account, and the check after a fee returns whenever that holds. The loops of the reward curve
  (\<open>log2_loop\<close>, \<open>points_loop\<close>) are partial functions too, proved to return for every accepted input. The database upgrade tries \<open>MAX_MIGRATIONS\<close> = 30 times as the code does; six are enough, as each
  raises the version. A Rust panic is \<open>None\<close>, an error of its own where the call has errors, or \<open>panics\<close>
  in the reward curve, where \<open>None\<close> is a loop that does not end.

  \<^bold>\<open>Not modelled.\<close> The assembly of the node's service out of third-party parts (networking, import queues,
  RPC), the parsing of arguments and the subcommands of third-party crates, the Ethereum RPC servers, runtime APIs that forward to third-party
  pallets: I/O and glue. The associated types of \<open>construct_runtime!\<close> that name third-party
  pallets. Weights, benchmarks and mocks. The decoding that the precompile macro generates; the token
  parsing of \<open>curve!\<close> and the tests it generates.
\<close>

end
